(* ===== verification/Prelude.thy ===== *)
theory Prelude
  imports
    Main
    "HOL-Library.Word"
    "HOL-Library.Char_ord"
    "HOL-Library.List_Lexorder"
    "HOL-Library.Signed_Division"
    "HOL-Library.AList"
begin

section \<open>Prelude: Go values, outcomes and strings\<close>

text \<open>
  What every component of the development shares.
  \<^item> Machine integers. \<open>byte\<close>, \<open>i8\<close> .. \<open>i64\<close>, \<open>u32\<close>, \<open>u64\<close> are words of the width of the
    Go type; a signed Go value is read with \<open>sint\<close>, a Go conversion is \<open>ucast\<close> or \<open>scast\<close>.
    The platform type \<open>int\<close> of Go is HOL's \<open>int\<close> where no overflow is at stake.
  \<^item> Outcomes. A Go call returns a value, returns a non-nil \<open>error\<close>, or panics: the three
    constructors of \<open>outcome\<close>. \<open>errors.WithStack\<close> and \<open>errors.Wrapf\<close> keep the cause
    reachable for \<open>errors.Is\<close> and \<open>errors.As\<close>, so they are the identity on the model's errors.
  \<^item> Strings are byte sequences (HOL \<open>string\<close>), as Go's are. The functions of the standard
    library packages \<open>strings\<close>, \<open>strconv\<close> and \<open>unicode\<close> that the code uses are written out
    for ASCII input.
\<close>

unbundle bit_operations_syntax

type_synonym byte = "8 word"
type_synonym i8 = "8 word"
type_synonym i16 = "16 word"
type_synonym i32 = "32 word"
type_synonym i64 = "64 word"
type_synonym u32 = "32 word"
type_synonym u64 = "64 word"

named_theorems run_simps \<open>equations that run a model's operations symbolically\<close>
named_theorems str_simps \<open>equations of the string library\<close>

subsection \<open>Errors, panics and outcomes\<close>

datatype goerr =
    ErrEOF
  | ErrUnexpectedEOF
  | ErrMsg string
  | ErrHttp int string string
  | ErrIO string

datatype panic =
    IndexOutOfRange
  | NilDereference
  | DivideByZero
  | TypeAssertion
  | MakeSliceLen
  | UnhashableKey
  | ExplicitPanic
  | OutOfFuel

datatype 'a outcome = Ret 'a | Fail goerr | Panic panic

fun obind :: "'a outcome \<Rightarrow> ('a \<Rightarrow> 'b outcome) \<Rightarrow> 'b outcome" where
  "obind (Ret x) f = f x"
| "obind (Fail e) f = Fail e"
| "obind (Panic p) f = Panic p"

definition omap :: "('a \<Rightarrow> 'b) \<Rightarrow> 'a outcome \<Rightarrow> 'b outcome" where
  "omap f m = obind m (\<lambda>x. Ret (f x))"

lemma omap_simps [simp]:
  "omap f (Ret x) = Ret (f x)"
  "omap f (Fail e) = Fail e"
  "omap f (Panic p) = Panic p"
  by (simp_all add: omap_def)

lemma obind_Ret_iff:
  "obind m f = Ret y \<longleftrightarrow> (\<exists>x. m = Ret x \<and> f x = Ret y)"
  by (cases m) auto

lemma obind_cong [fundef_cong]:
  "m = m' \<Longrightarrow> (\<And>x. m' = Ret x \<Longrightarrow> f x = f' x) \<Longrightarrow> obind m f = obind m' f'"
  by (cases m') auto

fun omap_list :: "('a \<Rightarrow> 'b outcome) \<Rightarrow> 'a list \<Rightarrow> 'b list outcome" where
  "omap_list f [] = Ret []"
| "omap_list f (x # xs) = obind (f x) (\<lambda>y. obind (omap_list f xs) (\<lambda>ys. Ret (y # ys)))"

lemma omap_list_cong [fundef_cong]:
  "xs = ys \<Longrightarrow> (\<And>x. x \<in> set ys \<Longrightarrow> f x = g x) \<Longrightarrow> omap_list f xs = omap_list g ys"
  by (induction ys arbitrary: xs) auto

lemma omap_list_Ret: "(\<And>x. x \<in> set xs \<Longrightarrow> f x = Ret (g x)) \<Longrightarrow> omap_list f xs = Ret (map g xs)"
  by (induction xs) auto

subsection \<open>Stateful calls\<close>

text \<open>
  A method with a pointer receiver takes the state of the receiver and gives the outcome
  together with the state it leaves, also when it returns an error.
\<close>

type_synonym ('s, 'a) M = "'s \<Rightarrow> 'a outcome \<times> 's"

definition mret :: "'a \<Rightarrow> ('s, 'a) M" where
  "mret x s = (Ret x, s)"

definition mfail :: "goerr \<Rightarrow> ('s, 'a) M" where
  "mfail e s = (Fail e, s)"

definition mpanic :: "panic \<Rightarrow> ('s, 'a) M" where
  "mpanic p s = (Panic p, s)"

definition mbind :: "('s, 'a) M \<Rightarrow> ('a \<Rightarrow> ('s, 'b) M) \<Rightarrow> ('s, 'b) M" where
  "mbind m f s = (case m s of
      (Ret x, s') \<Rightarrow> f x s'
    | (Fail e, s') \<Rightarrow> (Fail e, s')
    | (Panic p, s') \<Rightarrow> (Panic p, s'))"

definition mseq :: "('s, 'a) M \<Rightarrow> ('s, 'b) M \<Rightarrow> ('s, 'b) M" where
  "mseq m n = mbind m (\<lambda>_. n)"

definition mget :: "('s \<Rightarrow> 'a) \<Rightarrow> ('s, 'a) M" where
  "mget f s = (Ret (f s), s)"

definition mput :: "('s \<Rightarrow> 's) \<Rightarrow> ('s, unit) M" where
  "mput f s = (Ret (), f s)"

definition mlift :: "'a outcome \<Rightarrow> ('s, 'a) M" where
  "mlift r s = (r, s)"

lemma mret_run [run_simps]: "mret x s = (Ret x, s)"
  and mfail_run [run_simps]: "mfail e s = (Fail e, s)"
  and mpanic_run [run_simps]: "mpanic p s = (Panic p, s)"
  and mget_run [run_simps]: "mget f s = (Ret (f s), s)"
  and mput_run [run_simps]: "mput g s = (Ret (), g s)"
  and mlift_run [run_simps]: "mlift r s = (r, s)"
  by (simp_all add: mret_def mfail_def mpanic_def mget_def mput_def mlift_def)

lemma mbind_Ret [run_simps]: "m s = (Ret x, s') \<Longrightarrow> mbind m f s = f x s'"
  and mbind_Fail [run_simps]: "m s = (Fail e, s') \<Longrightarrow> mbind m f s = (Fail e, s')"
  and mbind_Panic [run_simps]: "m s = (Panic p, s') \<Longrightarrow> mbind m f s = (Panic p, s')"
  by (simp_all add: mbind_def)

lemma mseq_Ret [run_simps]: "m s = (Ret x, s') \<Longrightarrow> mseq m n s = n s'"
  and mseq_Fail [run_simps]: "m s = (Fail e, s') \<Longrightarrow> mseq m n s = (Fail e, s')"
  and mseq_Panic [run_simps]: "m s = (Panic p, s') \<Longrightarrow> mseq m n s = (Panic p, s')"
  by (simp_all add: mseq_def mbind_def)

lemma mbind_RetE:
  assumes "mbind m f s = (Ret y, t)"
  obtains x s' where "m s = (Ret x, s')" and "f x s' = (Ret y, t)"
  using assms by (auto simp: mbind_def split: prod.splits outcome.splits)

lemma mbind_FailE:
  assumes "mbind m f s = (Fail e, t)"
  obtains "m s = (Fail e, t)" | x s' where "m s = (Ret x, s')" and "f x s' = (Fail e, t)"
  using assms by (auto simp: mbind_def split: prod.splits outcome.splits)

lemma mbind_Ret_iff: "mbind m f s = (Ret y, t) \<longleftrightarrow> (\<exists>x s'. m s = (Ret x, s') \<and> f x s' = (Ret y, t))"
  and mseq_Ret_iff: "mseq m n s = (Ret z, t) \<longleftrightarrow> (\<exists>x s'. m s = (Ret x, s') \<and> n s' = (Ret z, t))"
  by (auto simp: mbind_def mseq_def split: prod.splits outcome.splits)

fun mfor :: "('a \<Rightarrow> ('s, unit) M) \<Rightarrow> 'a list \<Rightarrow> ('s, unit) M" where
  "mfor f [] = mret ()"
| "mfor f (x # xs) = mseq (f x) (mfor f xs)"

lemma mfor_cong [fundef_cong]:
  "xs = ys \<Longrightarrow> (\<And>x. x \<in> set ys \<Longrightarrow> f x = g x) \<Longrightarrow> mfor f xs = mfor g ys"
  by (induction ys arbitrary: xs) auto

lemma mfor_Nil [run_simps]: "mfor f [] s = (Ret (), s)"
  by (simp add: run_simps)

end
