(* ===== verification/Crc.thy ===== *)
theory Crc
  imports Strings
begin

section \<open>The checksum \<open>Crc32CheckSum\<close>\<close>

text \<open>
  Models \<open>odps/tunnel/crc32_checksum.go\<close> with the parts of \<open>hash/crc32\<close> (the Castagnoli
  table, \<open>crc32.Update\<close>) and \<open>encoding/binary\<close> (\<open>binary.Write\<close> in little endian order) it
  uses. The scratch buffer is empty between calls, so a checksum is its 32 bit value.
  Floating point values are represented by their IEEE bits throughout.
\<close>

datatype crcdata = CBool bool | CI32 "32 word" | CI64 "64 word" | CBytes "byte list"

definition le32 :: "32 word \<Rightarrow> byte list" where
  "le32 w = [ucast w, ucast (drop_bit 8 w), ucast (drop_bit 16 w), ucast (drop_bit 24 w)]"

definition le64 :: "64 word \<Rightarrow> byte list" where
  "le64 w = le32 (ucast w) @ le32 (ucast (drop_bit 32 w))"

fun binary_Write :: "crcdata \<Rightarrow> byte list" where
  "binary_Write (CBool b) = [if b then 1 else 0]"
| "binary_Write (CI32 w) = le32 w"
| "binary_Write (CI64 w) = le64 w"
| "binary_Write (CBytes bs) = bs"

definition Castagnoli :: "32 word" where
  "Castagnoli = 0x82f63b78"

definition table_step :: "32 word \<Rightarrow> 32 word" where
  "table_step c = (if bit c 0 then drop_bit 1 c XOR Castagnoli else drop_bit 1 c)"

definition table_entry :: "byte \<Rightarrow> 32 word" where
  "table_entry i = (table_step ^^ 8) (ucast i)"

definition crc_byte :: "byte \<Rightarrow> 32 word \<Rightarrow> 32 word" where
  "crc_byte v c = table_entry (ucast c XOR v) XOR drop_bit 8 c"

definition crc32_Update :: "32 word \<Rightarrow> byte list \<Rightarrow> 32 word" where
  "crc32_Update crc p = NOT (fold crc_byte p (NOT crc))"

record Crc32CheckSum =
  crc_value :: u32

definition NewCrc32CheckSum :: Crc32CheckSum where
  "NewCrc32CheckSum = \<lparr>crc_value = 0\<rparr>"

definition Crc_Update :: "crcdata \<Rightarrow> Crc32CheckSum \<Rightarrow> Crc32CheckSum" where
  "Crc_Update data crc = crc\<lparr>crc_value := crc32_Update (crc_value crc) (binary_Write data)\<rparr>"

definition Crc_Value :: "Crc32CheckSum \<Rightarrow> u32" where
  "Crc_Value crc = crc_value crc"

definition Crc_Reset :: "Crc32CheckSum \<Rightarrow> Crc32CheckSum" where
  "Crc_Reset crc = crc\<lparr>crc_value := 0\<rparr>"

lemma crc32_Update_append: "crc32_Update (crc32_Update c xs) ys = crc32_Update c (xs @ ys)"
  by (simp add: crc32_Update_def)

lemma crc32_Update_Nil [simp]: "crc32_Update c [] = c"
  by (simp add: crc32_Update_def)

lemma Crc_Reset_new [simp]: "Crc_Reset c = NewCrc32CheckSum"
  by (simp add: Crc_Reset_def NewCrc32CheckSum_def)

lemma Crc_Update_CBytes_append:
  "Crc_Update (CBytes ys) (Crc_Update (CBytes xs) c) = Crc_Update (CBytes (xs @ ys)) c"
  by (simp add: Crc_Update_def crc32_Update_append)

end
