(* ===== verification/Wire.thy ===== *)
theory Wire
  imports Crc
begin

section \<open>The protobuf stream reader and writer\<close>

text \<open>
  Models \<open>odps/tunnel/protoc_stream_reader.go\<close> and \<open>odps/tunnel/protoc_stream_writer.go\<close>.

  The wire primitives come from the third-party package
  \<open>google.golang.org/protobuf/encoding/protowire\<close>, which is not part of the repository: they
  are the record \<open>protowire\<close>, an argument of every definition, and the locale
  \<open>protowire_laws\<close> states their documented behaviour.

  \<^item> An \<open>io.Writer\<close> is a \<open>sink\<close>: the bytes it has taken and a script of how it answers the
    next calls. \<open>Accept n\<close> takes at most \<open>n\<close> bytes and returns no error, \<open>Refuse n\<close> takes at
    most \<open>n\<close> bytes and returns one; a sink with an empty script takes everything.
  \<^item> An \<open>io.Reader\<close> is a \<open>source\<close>: the bytes still to come and the error that follows them
    (\<open>io.EOF\<close> at the end of a complete body). \<open>bufio.Reader\<close> on top does not change the bytes
    a caller sees. A source never returns no byte with no error.
  \<^item> The writer's \<open>sync.Pool\<close> hands out buffers of length 0, so only the appended bytes count.
  \<^item> \<open>make([]byte, m)\<close> panics when \<open>m\<close> is beyond the runtime's \<open>maxAlloc\<close>, \<open>2^48\<close> on amd64.
\<close>

subsection \<open>protowire\<close>

type_synonym wtype = "8 word"

abbreviation VarintType :: wtype where "VarintType \<equiv> 0"
abbreviation Fixed64Type :: wtype where "Fixed64Type \<equiv> 1"
abbreviation BytesType :: wtype where "BytesType \<equiv> 2"
abbreviation Fixed32Type :: wtype where "Fixed32Type \<equiv> 5"

record protowire =
  AppendVarint :: "u64 \<Rightarrow> byte list"
  ConsumeVarint :: "byte list \<Rightarrow> u64 \<times> int"
  AppendFixed32 :: "u32 \<Rightarrow> byte list"
  ConsumeFixed32 :: "byte list \<Rightarrow> u32 \<times> int"
  AppendFixed64 :: "u64 \<Rightarrow> byte list"
  ConsumeFixed64 :: "byte list \<Rightarrow> u64 \<times> int"
  EncodeZigZag :: "i64 \<Rightarrow> u64"
  DecodeZigZag :: "u64 \<Rightarrow> i64"
  EncodeTag :: "i32 \<Rightarrow> wtype \<Rightarrow> u64"
  DecodeTag :: "u64 \<Rightarrow> i32 \<times> wtype"
  EncodeBool :: "bool \<Rightarrow> u64"
  DecodeBool :: "u64 \<Rightarrow> bool"

subsection \<open>Sinks\<close>

datatype answer = Accept nat | Refuse nat

record sink =
  sk_out :: "byte list"
  sk_script :: "answer list"

definition sink_Write :: "byte list \<Rightarrow> sink \<Rightarrow> nat \<times> goerr option \<times> sink" where
  "sink_Write data s =
     (case sk_script s of
        [] \<Rightarrow> (length data, None, s\<lparr>sk_out := sk_out s @ data\<rparr>)
      | Accept k # r \<Rightarrow>
          (min k (length data), None, \<lparr>sk_out = sk_out s @ take k data, sk_script = r\<rparr>)
      | Refuse k # r \<Rightarrow>
          (min k (length data), Some (ErrIO ''write''),
            \<lparr>sk_out = sk_out s @ take k data, sk_script = r\<rparr>))"

function writeFull :: "byte list \<Rightarrow> (sink, unit) M" where
  "writeFull data s =
     (if data = [] then (Ret (), s)
      else case sink_Write data s of
             (n, Some err, s') \<Rightarrow> (Fail err, s')
           | (n, None, s') \<Rightarrow> writeFull (drop n data) s')"
  by pat_completeness auto
termination
  by (relation "measure (\<lambda>(d, s). length (sk_script s) + length d)")
    (auto simp: sink_Write_def split: list.splits answer.splits)

declare writeFull.simps [simp del]

subsection \<open>ProtocStreamWriter\<close>

definition WriteVarint :: "protowire \<Rightarrow> u64 \<Rightarrow> (sink, unit) M" where
  "WriteVarint pw v = writeFull (AppendVarint pw v)"

definition WriteTag :: "protowire \<Rightarrow> i32 \<Rightarrow> wtype \<Rightarrow> (sink, unit) M" where
  "WriteTag pw num typ = WriteVarint pw (EncodeTag pw num typ)"

definition WriteFixed32 :: "protowire \<Rightarrow> u32 \<Rightarrow> (sink, unit) M" where
  "WriteFixed32 pw val = writeFull (AppendFixed32 pw val)"

definition WriteFixed64 :: "protowire \<Rightarrow> u64 \<Rightarrow> (sink, unit) M" where
  "WriteFixed64 pw val = writeFull (AppendFixed64 pw val)"

definition WriteBytes :: "protowire \<Rightarrow> byte list \<Rightarrow> (sink, unit) M" where
  "WriteBytes pw data = mseq (WriteVarint pw (word_of_nat (length data))) (writeFull data)"

definition WriteBool :: "protowire \<Rightarrow> bool \<Rightarrow> (sink, unit) M" where
  "WriteBool pw val = WriteVarint pw (EncodeBool pw val)"

definition WriteInt32 :: "protowire \<Rightarrow> i32 \<Rightarrow> (sink, unit) M" where
  "WriteInt32 pw val = WriteVarint pw (scast val)"

definition WriteSInt32 :: "protowire \<Rightarrow> i32 \<Rightarrow> (sink, unit) M" where
  "WriteSInt32 pw val = WriteVarint pw (EncodeZigZag pw (scast val))"

definition WriteInt64 :: "protowire \<Rightarrow> i64 \<Rightarrow> (sink, unit) M" where
  "WriteInt64 pw val = WriteVarint pw val"

definition WriteSInt64 :: "protowire \<Rightarrow> i64 \<Rightarrow> (sink, unit) M" where
  "WriteSInt64 pw val = WriteVarint pw (EncodeZigZag pw val)"

definition WriteUInt32 :: "protowire \<Rightarrow> u32 \<Rightarrow> (sink, unit) M" where
  "WriteUInt32 pw val = WriteVarint pw (ucast val)"

definition WriteUInt64 :: "protowire \<Rightarrow> u64 \<Rightarrow> (sink, unit) M" where
  "WriteUInt64 pw val = WriteVarint pw val"

definition WriteFloat32 :: "protowire \<Rightarrow> u32 \<Rightarrow> (sink, unit) M" where
  "WriteFloat32 pw bits = WriteFixed32 pw bits"

definition WriteFloat64 :: "protowire \<Rightarrow> u64 \<Rightarrow> (sink, unit) M" where
  "WriteFloat64 pw bits = WriteFixed64 pw bits"

subsection \<open>ProtocStreamReader\<close>

record source =
  src_in :: "byte list"
  src_end :: goerr

fun ReadVarint_loop :: "protowire \<Rightarrow> byte list \<Rightarrow> byte list \<Rightarrow> goerr \<Rightarrow> u64 outcome \<times> source" where
  "ReadVarint_loop pw buf [] e = (Fail e, \<lparr>src_in = [], src_end = e\<rparr>)"
| "ReadVarint_loop pw buf (b # bs) e =
     (let buf' = buf @ [b] in
      if length buf' > 10 then
        (Fail (ErrMsg ''invalid bytes for varint''), \<lparr>src_in = bs, src_end = e\<rparr>)
      else (case ConsumeVarint pw buf' of (v, n) \<Rightarrow>
        if n > 0 then (Ret v, \<lparr>src_in = bs, src_end = e\<rparr>) else ReadVarint_loop pw buf' bs e))"

definition ReadVarint :: "protowire \<Rightarrow> (source, u64) M" where
  "ReadVarint pw s = ReadVarint_loop pw [] (src_in s) (src_end s)"

text \<open>\<open>io.ReadFull\<close>.\<close>

definition ReadFull :: "nat \<Rightarrow> (source, byte list) M" where
  "ReadFull n s =
     (if n \<le> length (src_in s) then
        (Ret (take n (src_in s)), s\<lparr>src_in := drop n (src_in s)\<rparr>)
      else
        (Fail (if src_end s = ErrEOF \<and> src_in s \<noteq> [] then ErrUnexpectedEOF else src_end s),
         s\<lparr>src_in := []\<rparr>))"

definition ReadFixed32 :: "protowire \<Rightarrow> (source, u32) M" where
  "ReadFixed32 pw = mbind (ReadFull 4) (\<lambda>b. mret (fst (ConsumeFixed32 pw b)))"

definition ReadFixed64 :: "protowire \<Rightarrow> (source, u64) M" where
  "ReadFixed64 pw = mbind (ReadFull 8) (\<lambda>b. mret (fst (ConsumeFixed64 pw b)))"

definition ReadTag :: "protowire \<Rightarrow> (source, i32 \<times> wtype) M" where
  "ReadTag pw = mbind (ReadVarint pw) (\<lambda>m.
     case DecodeTag pw m of (num, typ) \<Rightarrow>
       if sint num < 1 then mfail (ErrMsg ''failed to read a tag from the proto stream'')
       else mret (num, typ))"

definition maxAlloc :: nat where
  "maxAlloc = 2 ^ 48"

definition ReadBytes :: "protowire \<Rightarrow> (source, byte list) M" where
  "ReadBytes pw = mbind (ReadVarint pw) (\<lambda>m.
     if unat m > maxAlloc then mpanic MakeSliceLen else ReadFull (unat m))"

definition ReadBool :: "protowire \<Rightarrow> (source, bool) M" where
  "ReadBool pw = mbind (ReadVarint pw) (\<lambda>m. mret (DecodeBool pw m))"

definition ReadInt32 :: "protowire \<Rightarrow> (source, i32) M" where
  "ReadInt32 pw = mbind (ReadVarint pw) (\<lambda>m. mret (ucast m))"

definition ReadSInt32 :: "protowire \<Rightarrow> (source, i32) M" where
  "ReadSInt32 pw = mbind (ReadVarint pw) (\<lambda>m. mret (ucast (DecodeZigZag pw (m AND 0xFFFFFFFF))))"

definition ReadUInt32 :: "protowire \<Rightarrow> (source, u32) M" where
  "ReadUInt32 pw = mbind (ReadVarint pw) (\<lambda>m. mret (ucast m))"

definition ReadInt64 :: "protowire \<Rightarrow> (source, i64) M" where
  "ReadInt64 pw = mbind (ReadVarint pw) (\<lambda>m. mret m)"

definition ReadSInt64 :: "protowire \<Rightarrow> (source, i64) M" where
  "ReadSInt64 pw = mbind (ReadVarint pw) (\<lambda>m. mret (DecodeZigZag pw m))"

definition ReadUInt64 :: "protowire \<Rightarrow> (source, u64) M" where
  "ReadUInt64 pw = mbind (ReadVarint pw) (\<lambda>m. mret m)"

definition ReadSFixed32 :: "protowire \<Rightarrow> (source, i32) M" where
  "ReadSFixed32 pw = mbind (ReadFixed32 pw) (\<lambda>v. mret v)"

definition ReadFloat32 :: "protowire \<Rightarrow> (source, u32) M" where
  "ReadFloat32 pw = mbind (ReadFixed32 pw) (\<lambda>v. mret v)"

definition ReadSFixed64 :: "protowire \<Rightarrow> (source, i64) M" where
  "ReadSFixed64 pw = mbind (ReadFixed64 pw) (\<lambda>v. mret v)"

definition ReadFloat64 :: "protowire \<Rightarrow> (source, u64) M" where
  "ReadFloat64 pw = mbind (ReadFixed64 pw) (\<lambda>v. mret v)"

definition ReadString :: "protowire \<Rightarrow> (source, string) M" where
  "ReadString pw = mbind (ReadBytes pw) (\<lambda>v. mret (string_of v))"

subsection \<open>What writing does to a sink\<close>

fun accepting :: "answer \<Rightarrow> bool" where
  "accepting (Accept k) = True"
| "accepting (Refuse k) = False"

definition reliable :: "sink \<Rightarrow> bool" where
  "reliable s \<longleftrightarrow> list_all accepting (sk_script s)"

definition writes :: "(sink, unit) M \<Rightarrow> byte list \<Rightarrow> bool" where
  "writes m bs \<longleftrightarrow>
     (\<forall>s. reliable s \<longrightarrow> (\<exists>s'. m s = (Ret (), s') \<and> reliable s' \<and> sk_out s' = sk_out s @ bs))"

definition reads :: "(source, 'a) M \<Rightarrow> byte list \<Rightarrow> 'a \<Rightarrow> bool" where
  "reads m bs x \<longleftrightarrow>
     (\<forall>rest e. m \<lparr>src_in = bs @ rest, src_end = e\<rparr> = (Ret x, \<lparr>src_in = rest, src_end = e\<rparr>))"

lemma sink_Write_cases:
  assumes "sink_Write data s = (n, err, s')"
  shows "sk_out s' = sk_out s @ take n data" "n \<le> length data"
    "reliable s \<Longrightarrow> err = None \<and> reliable s'"
    "err = None \<Longrightarrow> data \<noteq> [] \<Longrightarrow> length (sk_script s') + length (drop n data) < length (sk_script s) + length data"
  using assms
  by (auto simp: sink_Write_def reliable_def min_def split: list.splits answer.splits if_splits)

text \<open>
  \<open>writeFull\<close> ends for every sink, however short its writes: it returns without error
  exactly when the whole slice has reached the sink, once and in order, and with an error
  when a prefix of it has.
\<close>

theorem writeFull_spec:
  "\<exists>k. sk_out (snd (writeFull data s)) = sk_out s @ take k data \<and>
       (fst (writeFull data s) = Ret () \<and> k = length data \<or>
        (\<exists>e. fst (writeFull data s) = Fail e))"
proof (induction data s rule: writeFull.induct)
  case (1 data s)
  show ?case
  proof (cases "data = []")
    case True
    then show ?thesis by (simp add: writeFull.simps)
  next
    case False
    obtain n err s' where w: "sink_Write data s = (n, err, s')" by (cases "sink_Write data s") auto
    note out = sink_Write_cases [OF w]
    show ?thesis
    proof (cases err)
      case (Some e)
      then show ?thesis using False w out(1) by (subst (1 2 3) writeFull.simps) auto
    next
      case None
      obtain k where k: "sk_out (snd (writeFull (drop n data) s')) = sk_out s' @ take k (drop n data)"
        "fst (writeFull (drop n data) s') = Ret () \<and> k = length (drop n data) \<or>
         (\<exists>e. fst (writeFull (drop n data) s') = Fail e)"
        using "1.IH" [OF False w [symmetric] refl None] by blast
      have "writeFull data s = writeFull (drop n data) s'"
        using False w None by (subst writeFull.simps) simp
      moreover have "sk_out s @ take n data @ take k (drop n data) = sk_out s @ take (n + k) data"
        by (simp add: take_add)
      ultimately show ?thesis using k out(1,2) by (intro exI [of _ "n + k"]) auto
    qed
  qed
qed

lemma writes_writeFull: "writes (writeFull data) data"
proof -
  have "\<exists>s'. writeFull data s = (Ret (), s') \<and> reliable s' \<and> sk_out s' = sk_out s @ data"
    if "reliable s" for s
    using that
  proof (induction data s rule: writeFull.induct)
    case (1 data s)
    show ?case
    proof (cases "data = []")
      case False
      obtain n err s1 where w: "sink_Write data s = (n, err, s1)" by (cases "sink_Write data s") auto
      note out = sink_Write_cases [OF w]
      have "err = None" "reliable s1" using out(3) "1.prems" by auto
      then obtain s' where "writeFull (drop n data) s1 = (Ret (), s')" "reliable s'"
        "sk_out s' = sk_out s1 @ drop n data"
        using "1.IH" [OF False w [symmetric] refl] by blast
      moreover have "writeFull data s = writeFull (drop n data) s1"
        using False w \<open>err = None\<close> by (subst writeFull.simps) simp
      ultimately show ?thesis using out(1) by simp
    qed (use 1 in \<open>simp add: writeFull.simps\<close>)
  qed
  then show ?thesis by (simp add: writes_def)
qed

lemma writes_mret [intro]: "writes (mret ()) []"
  by (simp add: writes_def run_simps)

lemma writes_mseq [intro]: "writes m xs \<Longrightarrow> writes n ys \<Longrightarrow> writes (mseq m n) (xs @ ys)"
proof -
  assume mn: "writes m xs" "writes n ys"
  have "\<exists>s'. mseq m n s = (Ret (), s') \<and> reliable s' \<and> sk_out s' = sk_out s @ xs @ ys"
    if s: "reliable s" for s
  proof -
    obtain s1 where 1: "m s = (Ret (), s1)" "reliable s1" "sk_out s1 = sk_out s @ xs"
      using mn(1) s by (auto simp: writes_def)
    obtain s2 where "n s1 = (Ret (), s2)" "reliable s2" "sk_out s2 = sk_out s1 @ ys"
      using mn(2) 1(2) by (auto simp: writes_def)
    with 1 show ?thesis by (simp add: mseq_Ret)
  qed
  then show ?thesis by (simp add: writes_def)
qed

lemma reads_mret [intro]: "reads (mret x) [] x"
  by (simp add: reads_def run_simps)

lemma reads_mbind [intro]: "reads m xs x \<Longrightarrow> reads (f x) ys y \<Longrightarrow> reads (mbind m f) (xs @ ys) y"
  by (simp add: reads_def mbind_Ret)

lemma reads_mbind_mret: "reads m xs x \<Longrightarrow> reads (mbind m (\<lambda>v. mret (g v))) xs (g x)"
  using reads_mbind [of m xs x "\<lambda>v. mret (g v)" "[]"] by auto

lemma reads_mbind_mret_eq: "reads m xs x \<Longrightarrow> g x = y \<Longrightarrow> reads (mbind m (\<lambda>v. mret (g v))) xs y"
  by (drule reads_mbind_mret [where g = g]) simp

lemma reads_ReadFull: "reads (ReadFull (length bs)) bs bs"
  by (simp add: reads_def ReadFull_def)

end
