(* ===== verification/WireLaws.thy ===== *)
theory WireLaws
  imports Wire
begin

section \<open>The documented behaviour of protowire, and the stream round trips\<close>

text \<open>
  The locale \<open>protowire_laws\<close> states what the documentation of \<open>protowire\<close> promises of the
  functions the stream reader and writer call. Inside it every write operation is paired
  with its read operation: what \<open>writes\<close> puts on the sink, \<open>reads\<close> takes from the source.
  \<open>protowire_ref\<close> is an executable implementation of the protocol buffer wire format, and
  the locale is interpreted on it.
\<close>

definition zigzag :: "i64 \<Rightarrow> int" where
  "zigzag x = (if 0 \<le> sint x then 2 * sint x else - 2 * sint x - 1)"

lemma ucast_scast_32_64 [simp]: "ucast (scast (v :: i32) :: i64) = v"
  by (rule bit_word_eqI) (simp add: bit_simps)

lemma ucast_ucast_32_64 [simp]: "ucast (ucast (v :: u32) :: u64) = v"
  by (rule bit_word_eqI) (simp add: bit_simps)

locale protowire_laws =
  fixes pw :: protowire
  assumes varint_length: "0 < length (AppendVarint pw v)" "length (AppendVarint pw v) \<le> 10"
    and varint_consume:
      "ConsumeVarint pw (AppendVarint pw v) = (v, int (length (AppendVarint pw v)))"
    and varint_truncated:
      "k < length (AppendVarint pw v) \<Longrightarrow> snd (ConsumeVarint pw (take k (AppendVarint pw v))) < 0"
    and fixed32_length: "length (AppendFixed32 pw w) = 4"
    and fixed32_consume: "ConsumeFixed32 pw (AppendFixed32 pw w) = (w, 4)"
    and fixed64_length: "length (AppendFixed64 pw v) = 8"
    and fixed64_consume: "ConsumeFixed64 pw (AppendFixed64 pw v) = (v, 8)"
    and zigzag_encode: "uint (EncodeZigZag pw x) = zigzag x"
    and zigzag_decode: "DecodeZigZag pw (EncodeZigZag pw x) = x"
    and tag_roundtrip:
      "1 \<le> sint n \<Longrightarrow> sint n < 2 ^ 29 \<Longrightarrow> t < 8 \<Longrightarrow> DecodeTag pw (EncodeTag pw n t) = (n, t)"
    and bool_roundtrip: "DecodeBool pw (EncodeBool pw b) = b"
begin

lemma ReadVarint_loop_append:
  assumes "AppendVarint pw v = buf @ bs" and "bs \<noteq> []"
  shows "ReadVarint_loop pw buf (bs @ rest) e = (Ret v, \<lparr>src_in = rest, src_end = e\<rparr>)"
  using assms
proof (induction bs arbitrary: buf)
  case (Cons b bs)
  let ?a = "AppendVarint pw v"
  have len: "length (buf @ [b]) \<le> 10" using Cons.prems varint_length(2) [of v] by simp
  show ?case
  proof (cases "bs = []")
    case True
    then have "ConsumeVarint pw (buf @ [b]) = (v, int (length ?a))"
      using Cons.prems varint_consume [of v] by simp
    moreover have "0 < length ?a" by (rule varint_length)
    ultimately show ?thesis using len True by (simp add: Let_def)
  next
    case False
    have "buf @ [b] = take (length buf + 1) ?a" "length buf + 1 < length ?a"
      using Cons.prems False by auto
    then have "snd (ConsumeVarint pw (buf @ [b])) < 0" using varint_truncated by metis
    moreover have "ReadVarint_loop pw (buf @ [b]) (bs @ rest) e = (Ret v, \<lparr>src_in = rest, src_end = e\<rparr>)"
      using Cons False by simp
    ultimately show ?thesis
      using len by (cases "ConsumeVarint pw (buf @ [b])") (simp add: Let_def)
  qed
qed simp

lemma reads_ReadVarint: "reads (ReadVarint pw) (AppendVarint pw v) v"
  using ReadVarint_loop_append [of v "[]"] varint_length(1) [of v]
  by (auto simp: reads_def ReadVarint_def)

lemma writes_WriteVarint: "writes (WriteVarint pw v) (AppendVarint pw v)"
  by (simp add: WriteVarint_def writes_writeFull)

text \<open>The value-level pairs: what is written for a value, and that it reads back.\<close>

lemma writes_WriteTag: "writes (WriteTag pw n t) (AppendVarint pw (EncodeTag pw n t))"
  by (simp add: WriteTag_def writes_WriteVarint)

lemma reads_ReadTag:
  assumes "1 \<le> sint n" "sint n < 2 ^ 29" "t < 8"
  shows "reads (ReadTag pw) (AppendVarint pw (EncodeTag pw n t)) (n, t)"
proof -
  have "ReadVarint pw \<lparr>src_in = AppendVarint pw (EncodeTag pw n t) @ rest, src_end = e\<rparr> =
      (Ret (EncodeTag pw n t), \<lparr>src_in = rest, src_end = e\<rparr>)" for rest e
    using reads_ReadVarint by (simp add: reads_def)
  then show ?thesis
    using assms by (simp add: reads_def ReadTag_def mbind_def tag_roundtrip mret_def)
qed

lemma writes_WriteSInt64: "writes (WriteSInt64 pw v) (AppendVarint pw (EncodeZigZag pw v))"
  by (simp add: WriteSInt64_def writes_WriteVarint)

lemma reads_ReadSInt64: "reads (ReadSInt64 pw) (AppendVarint pw (EncodeZigZag pw v)) v"
  unfolding ReadSInt64_def by (rule reads_mbind_mret_eq [OF reads_ReadVarint]) (rule zigzag_decode)

lemma writes_WriteSInt32: "writes (WriteSInt32 pw v) (AppendVarint pw (EncodeZigZag pw (scast v)))"
  by (simp add: WriteSInt32_def writes_WriteVarint)

lemma zigzag_scast_mask: "EncodeZigZag pw (scast (v :: i32)) AND 0xFFFFFFFF = EncodeZigZag pw (scast v)"
proof -
  have s: "sint (scast v :: i64) = sint v"
    by (simp add: sint_up_scast is_up)
  have "zigzag (scast v) < 2 ^ 32"
    using sint_ge [of v] sint_lt [of v] by (simp add: zigzag_def s)
  then have "uint (EncodeZigZag pw (scast v)) < 2 ^ 32" by (simp add: zigzag_encode)
  then have "take_bit 32 (EncodeZigZag pw (scast v)) = EncodeZigZag pw (scast v)"
    by (simp add: word_uint_eq_iff unsigned_take_bit_eq take_bit_int_eq_self)
  moreover have "(0xFFFFFFFF :: u64) = mask 32" by (simp add: mask_eq_exp_minus_1)
  ultimately show ?thesis by (metis take_bit_eq_mask)
qed

lemma reads_ReadSInt32: "reads (ReadSInt32 pw) (AppendVarint pw (EncodeZigZag pw (scast v))) v"
proof -
  let ?g = "\<lambda>m. ucast (DecodeZigZag pw (m AND 0xFFFFFFFF)) :: i32"
  have "?g (EncodeZigZag pw (scast v)) = v" by (simp add: zigzag_scast_mask zigzag_decode)
  then show ?thesis
    using reads_mbind_mret [OF reads_ReadVarint [of "EncodeZigZag pw (scast v)"], where g = ?g]
    by (simp add: ReadSInt32_def)
qed

lemma writes_WriteBool: "writes (WriteBool pw b) (AppendVarint pw (EncodeBool pw b))"
  by (simp add: WriteBool_def writes_WriteVarint)

lemma reads_ReadBool: "reads (ReadBool pw) (AppendVarint pw (EncodeBool pw b)) b"
  unfolding ReadBool_def by (rule reads_mbind_mret_eq [OF reads_ReadVarint]) (rule bool_roundtrip)

lemma writes_WriteUInt32: "writes (WriteUInt32 pw v) (AppendVarint pw (ucast v))"
  by (simp add: WriteUInt32_def writes_WriteVarint)

lemma reads_ReadUInt32: "reads (ReadUInt32 pw) (AppendVarint pw (ucast v)) v"
  unfolding ReadUInt32_def
  by (rule reads_mbind_mret_eq [OF reads_ReadVarint]) (rule ucast_ucast_32_64)

text \<open>\<open>WriteInt32\<close> sign extends the length of an array; \<open>ReadUInt32\<close> truncates it back.\<close>

lemma writes_WriteInt32: "writes (WriteInt32 pw v) (AppendVarint pw (scast v))"
  by (simp add: WriteInt32_def writes_WriteVarint)

lemma reads_ReadUInt32_signed: "reads (ReadUInt32 pw) (AppendVarint pw (scast (v :: i32))) v"
  unfolding ReadUInt32_def
  by (rule reads_mbind_mret_eq [OF reads_ReadVarint]) (rule ucast_scast_32_64)

lemma writes_WriteFloat32: "writes (WriteFloat32 pw v) (AppendFixed32 pw v)"
  by (simp add: WriteFloat32_def WriteFixed32_def writes_writeFull)

lemma reads_ReadFixed32: "reads (ReadFixed32 pw) (AppendFixed32 pw v) v"
  using reads_mbind_mret [OF reads_ReadFull [of "AppendFixed32 pw v"], where g = "\<lambda>b. fst (ConsumeFixed32 pw b)"]
  by (simp add: ReadFixed32_def fixed32_length fixed32_consume)

lemma reads_ReadFloat32: "reads (ReadFloat32 pw) (AppendFixed32 pw v) v"
  unfolding ReadFloat32_def by (rule reads_mbind_mret [OF reads_ReadFixed32, where g = "\<lambda>v. v"])

lemma writes_WriteFloat64: "writes (WriteFloat64 pw v) (AppendFixed64 pw v)"
  by (simp add: WriteFloat64_def WriteFixed64_def writes_writeFull)

lemma reads_ReadFixed64: "reads (ReadFixed64 pw) (AppendFixed64 pw v) v"
  using reads_mbind_mret [OF reads_ReadFull [of "AppendFixed64 pw v"], where g = "\<lambda>b. fst (ConsumeFixed64 pw b)"]
  by (simp add: ReadFixed64_def fixed64_length fixed64_consume)

lemma reads_ReadFloat64: "reads (ReadFloat64 pw) (AppendFixed64 pw v) v"
  unfolding ReadFloat64_def by (rule reads_mbind_mret [OF reads_ReadFixed64, where g = "\<lambda>v. v"])

lemma writes_WriteBytes:
  "writes (WriteBytes pw bs) (AppendVarint pw (word_of_nat (length bs)) @ bs)"
  unfolding WriteBytes_def by (intro writes_mseq writes_WriteVarint writes_writeFull)

lemma reads_ReadBytes:
  assumes "length bs \<le> maxAlloc"
  shows "reads (ReadBytes pw) (AppendVarint pw (word_of_nat (length bs)) @ bs) bs"
proof -
  have "unat (word_of_nat (length bs) :: u64) = length bs"
    using assms by (simp add: unat_of_nat maxAlloc_def)
  then show ?thesis
    unfolding ReadBytes_def
    using assms reads_ReadFull [of bs] by (intro reads_mbind [OF reads_ReadVarint]) simp
qed

end

subsection \<open>The wire format, executable\<close>

fun varint_bytes :: "nat \<Rightarrow> byte list" where
  "varint_bytes n =
     (if n < 128 then [word_of_nat n]
      else word_of_nat (n mod 128 + 128) # varint_bytes (n div 128))"

declare varint_bytes.simps [simp del]

fun varint_value :: "byte list \<Rightarrow> (nat \<times> nat) option" where
  "varint_value [] = None"
| "varint_value (b # bs) =
     (if unat b < 128 then Some (unat b, 1)
      else case varint_value bs of
             None \<Rightarrow> None
           | Some (v, k) \<Rightarrow> Some (unat b - 128 + 128 * v, Suc k))"

definition ref_ConsumeVarint :: "byte list \<Rightarrow> u64 \<times> int" where
  "ref_ConsumeVarint bs =
     (case varint_value bs of
        None \<Rightarrow> (0, - 1)
      | Some (v, k) \<Rightarrow> if v < 2 ^ 64 \<and> k \<le> 10 then (word_of_nat v, int k) else (0, - 3))"

definition be_of_le32 :: "byte list \<Rightarrow> 32 word" where
  "be_of_le32 bs = (case bs of
     b0 # b1 # b2 # b3 # _ \<Rightarrow>
       ucast b0 OR push_bit 8 (ucast b1) OR push_bit 16 (ucast b2) OR push_bit 24 (ucast b3)
   | _ \<Rightarrow> 0)"

definition protowire_ref :: protowire where
  "protowire_ref =
     \<lparr>AppendVarint = (\<lambda>v. varint_bytes (unat v)),
      ConsumeVarint = ref_ConsumeVarint,
      AppendFixed32 = le32,
      ConsumeFixed32 = (\<lambda>bs. if length bs < 4 then (0, - 1) else (be_of_le32 bs, 4)),
      AppendFixed64 = le64,
      ConsumeFixed64 = (\<lambda>bs. if length bs < 8 then (0, - 1)
         else (ucast (be_of_le32 bs) OR push_bit 32 (ucast (be_of_le32 (drop 4 bs))), 8)),
      EncodeZigZag = (\<lambda>x. word_of_int (zigzag x)),
      DecodeZigZag = (\<lambda>m. if even (uint m) then word_of_int (uint m div 2)
         else word_of_int (- ((uint m + 1) div 2))),
      EncodeTag = (\<lambda>n t. word_of_int (8 * sint n + uint t mod 8)),
      DecodeTag = (\<lambda>m. if uint m div 8 < 2 ^ 31 then (word_of_int (uint m div 8), word_of_int (uint m mod 8))
         else (- 1, 0)),
      EncodeBool = (\<lambda>b. if b then 1 else 0),
      DecodeBool = (\<lambda>m. m \<noteq> 0)\<rparr>"

lemma unat_byte: "m < 256 \<Longrightarrow> unat (word_of_nat m :: byte) = m"
  by (simp add: unat_of_nat)

lemma varint_value_bytes: "varint_value (varint_bytes n @ rest) = Some (n, length (varint_bytes n))"
proof (induction n rule: varint_bytes.induct)
  case (1 n)
  show ?case
  proof (cases "n < 128")
    case True
    then have "unat (word_of_nat n :: byte) = n" by (simp add: unat_of_nat)
    then show ?thesis using True by (simp add: varint_bytes.simps)
  next
    case False
    have "unat (word_of_nat (n mod 128 + 128) :: byte) = n mod 128 + 128"
      by (rule unat_byte) simp
    then show ?thesis
      using False 1 by (simp add: varint_bytes.simps [of n])
  qed
qed

lemma varint_value_take: "k < length (varint_bytes n) \<Longrightarrow> varint_value (take k (varint_bytes n)) = None"
proof (induction n arbitrary: k rule: varint_bytes.induct)
  case (1 n)
  show ?case
  proof (cases "n < 128")
    case True
    then show ?thesis using "1.prems" by (simp add: varint_bytes.simps)
  next
    case False
    have "unat (word_of_nat (n mod 128 + 128) :: byte) = n mod 128 + 128"
      by (rule unat_byte) simp
    then show ?thesis
      using False 1 by (cases k) (simp_all add: varint_bytes.simps [of n])
  qed
qed

lemma length_varint_bytes: "n < 128 ^ Suc k \<Longrightarrow> length (varint_bytes n) \<le> Suc k"
proof (induction k arbitrary: n)
  case 0
  then show ?case by (simp add: varint_bytes.simps)
next
  case (Suc k)
  then have "n div 128 < 128 ^ Suc k" by (simp add: less_mult_imp_div_less mult.commute)
  then show ?case using Suc.IH [of "n div 128"] by (subst varint_bytes.simps) simp
qed

lemma le32_be: "be_of_le32 (le32 w @ rest) = w"
proof (rule bit_word_eqI)
  fix n assume n: "n < LENGTH(32)"
  consider "n < 8" | "8 \<le> n" "n < 16" | "16 \<le> n" "n < 24" | "24 \<le> n" by linarith
  then show "bit (be_of_le32 (le32 w @ rest)) n = bit w n"
    using n by cases (auto simp: be_of_le32_def le32_def bit_simps)
qed

lemma le64_be: "ucast (be_of_le32 (le64 w)) OR push_bit 32 (ucast (be_of_le32 (drop 4 (le64 w)))) = w"
proof -
  have "be_of_le32 (le64 w) = ucast w" by (simp add: le64_def le32_be)
  moreover have "drop 4 (le64 w) = le32 (ucast (drop_bit 32 w)) @ []" by (simp add: le64_def le32_def)
  then have "be_of_le32 (drop 4 (le64 w)) = ucast (drop_bit 32 w)" by (metis le32_be)
  ultimately show ?thesis by (auto intro!: bit_word_eqI simp: bit_simps)
qed

lemma zigzag_range: "0 \<le> zigzag x \<and> zigzag x < 2 ^ 64"
  using sint_ge [of x] sint_lt [of x] by (simp add: zigzag_def)

lemma uint_u64: "0 \<le> i \<Longrightarrow> i < 2 ^ 64 \<Longrightarrow> uint (word_of_int i :: u64) = i"
  by (simp add: uint_word_of_int)

lemma uint_zigzag: "uint (word_of_int (zigzag x) :: u64) = zigzag x"
  using zigzag_range [of x] by (simp add: uint_word_of_int)

lemma ref_zigzag: "DecodeZigZag protowire_ref (EncodeZigZag protowire_ref x) = x"
proof (cases "0 \<le> sint x")
  case True
  then show ?thesis by (simp add: protowire_ref_def uint_zigzag) (simp add: zigzag_def)
next
  case False
  then have "(zigzag x + 1) div 2 = - sint x" "odd (zigzag x)" by (simp_all add: zigzag_def)
  then show ?thesis by (simp add: protowire_ref_def uint_zigzag)
qed

lemma ref_tag:
  fixes n :: i32 and t :: wtype
  assumes "1 \<le> sint n" "sint n < 2 ^ 29" "t < 8"
  shows "DecodeTag protowire_ref (EncodeTag protowire_ref n t) = (n, t)"
proof -
  have t: "0 \<le> uint t" "uint t < 8" using assms(3) by (simp_all add: word_less_def)
  let ?m = "8 * sint n + uint t"
  have "uint (word_of_int ?m :: u64) = ?m" by (rule uint_u64) (use assms t in simp_all)
  moreover have "?m div 8 = sint n" "?m mod 8 = uint t" using t by simp_all
  moreover have "uint t mod 8 = uint t" using t by simp
  ultimately show ?thesis
    using assms t by (simp add: protowire_ref_def del: of_int_add of_int_mult)
qed

interpretation ref: protowire_laws protowire_ref
proof (unfold_locales, goal_cases)
  case (1 v)
  show ?case by (simp add: protowire_ref_def varint_bytes.simps)
next
  case (2 v)
  have "unat v < 128 ^ Suc 9" using unsigned_less [of v, where ?'a = nat] by simp
  then show ?case using length_varint_bytes [of "unat v" 9] by (simp add: protowire_ref_def)
next
  case (3 v)
  have v: "unat v < 2 ^ 64" using unsigned_less [of v, where ?'a = nat] by simp
  then have "unat v < 128 ^ Suc 9" by simp
  then have "length (varint_bytes (unat v)) \<le> 10" using length_varint_bytes [of "unat v" 9] by simp
  then show ?case
    using v varint_value_bytes [of "unat v" "[]"] by (simp add: protowire_ref_def ref_ConsumeVarint_def)
next
  case (4 k v)
  then show ?case
    by (simp add: protowire_ref_def ref_ConsumeVarint_def varint_value_take)
next
  case (6 w)
  show ?case using le32_be [of w "[]"] by (simp add: protowire_ref_def) (simp add: le32_def)
next
  case (8 v)
  show ?case using le64_be [of v] by (simp add: protowire_ref_def) (simp add: le64_def le32_def)
next
  case (10 x)
  show ?case by (rule ref_zigzag)
next
  case (11 n t)
  then show ?case by (rule ref_tag)
qed (simp_all add: protowire_ref_def le32_def le64_def uint_zigzag)

lemma protowire_laws_ref: "protowire_laws protowire_ref"
  by (rule ref.protowire_laws_axioms)

subsection \<open>Properties\<close>

text \<open>
  A signed 32 bit value written by \<open>WriteSInt32\<close> reads back through \<open>ReadSInt32\<close>, whatever
  follows it in the stream: the mask the reader applies to the 64 bit zig-zag value loses
  nothing, for negative values included.
\<close>

theorem SInt32_roundtrip:
  assumes "protowire_laws pw" and "reliable s"
  shows "\<exists>s' bs. WriteSInt32 pw v s = (Ret (), s') \<and> sk_out s' = sk_out s @ bs \<and>
           ReadSInt32 pw \<lparr>src_in = bs @ rest, src_end = e\<rparr> = (Ret v, \<lparr>src_in = rest, src_end = e\<rparr>)"
proof -
  note w = protowire_laws.writes_WriteSInt32 [OF assms(1), of v]
  note r = protowire_laws.reads_ReadSInt32 [OF assms(1), of v]
  show ?thesis using w r assms(2) unfolding writes_def reads_def by blast
qed

theorem SInt32_roundtrip_witness:
  "\<exists>s' bs. WriteSInt32 protowire_ref (- 5) \<lparr>sk_out = [1], sk_script = [Accept 0]\<rparr> = (Ret (), s') \<and>
     sk_out s' = [1] @ bs \<and>
     ReadSInt32 protowire_ref \<lparr>src_in = bs @ [7], src_end = ErrEOF\<rparr> =
       (Ret (- 5), \<lparr>src_in = [7], src_end = ErrEOF\<rparr>)"
proof -
  have "reliable \<lparr>sk_out = [1], sk_script = [Accept 0]\<rparr>" by (simp add: reliable_def)
  from SInt32_roundtrip [OF protowire_laws_ref this, of "- 5" "[7]" ErrEOF]
  show ?thesis by simp
qed

end
