(* ===== verification/Datatypes.thy ===== *)
theory Datatypes
  imports Strings
begin

section \<open>The package \<open>odps/datatype\<close>: type ids, data types and their comparison\<close>

text \<open>
  Models \<open>odps/datatype/data_type.go\<close> and the quoting helpers of \<open>odps/common/util.go\<close>.
  \<open>TypeID\<close> is the enumeration, \<open>DataType\<close> the interface with its implementations as
  constructors; \<open>NilType\<close> is the nil interface value, which \<open>ArrayType{}\<close> and \<open>MapType{}\<close>
  hold. A method called on it panics, so \<open>Name\<close> is an outcome; \<open>ID\<close> is used behind nil
  checks only.
\<close>

datatype TypeID =
    NULL | BIGINT | DOUBLE | BOOLEAN | DATETIME | STRING | DECIMAL | MAP | ARRAY | VOID
  | TINYINT | SMALLINT | INTID | FLOAT | CHARID | VARCHAR | DATE | TIMESTAMP | TIMESTAMP_NTZ
  | BINARY | IntervalDayTime | IntervalYearMonth | STRUCT | JSON | GEOGRAPHY | TypeUnknown

definition TypeCodeFromStr :: "string \<Rightarrow> TypeID" where
  "TypeCodeFromStr s =
     (let u = ToUpper s in
      if u = ''BIGINT'' then BIGINT
      else if u = ''DOUBLE'' then DOUBLE
      else if u = ''BOOLEAN'' then BOOLEAN
      else if u = ''DATETIME'' then DATETIME
      else if u = ''STRING'' then STRING
      else if u = ''DECIMAL'' then DECIMAL
      else if u = ''MAP'' then MAP
      else if u = ''ARRAY'' then ARRAY
      else if u = ''VOID'' then VOID
      else if u = ''TINYINT'' then TINYINT
      else if u = ''SMALLINT'' then SMALLINT
      else if u = ''INT'' then INTID
      else if u = ''FLOAT'' then FLOAT
      else if u = ''CHAR'' then CHARID
      else if u = ''VARCHAR'' then VARCHAR
      else if u = ''DATE'' then DATE
      else if u = ''TIMESTAMP'' then TIMESTAMP
      else if u = ''TIMESTAMP_NTZ'' then TIMESTAMP_NTZ
      else if u = ''BINARY'' then BINARY
      else if u = ''INTERVAL_DAY_TIME'' then IntervalDayTime
      else if u = ''INTERVAL_YEAR_MONTH'' then IntervalYearMonth
      else if u = ''STRUCT'' then STRUCT
      else if u = ''JSON'' then JSON
      else if u = ''GEOGRAPHY'' then GEOGRAPHY
      else TypeUnknown)"

fun TypeID_String :: "TypeID \<Rightarrow> string" where
  "TypeID_String BIGINT = ''BIGINT''"
| "TypeID_String DOUBLE = ''DOUBLE''"
| "TypeID_String BOOLEAN = ''BOOLEAN''"
| "TypeID_String DATETIME = ''DATETIME''"
| "TypeID_String STRING = ''STRING''"
| "TypeID_String DECIMAL = ''DECIMAL''"
| "TypeID_String MAP = ''MAP''"
| "TypeID_String ARRAY = ''ARRAY''"
| "TypeID_String VOID = ''VOID''"
| "TypeID_String TINYINT = ''TINYINT''"
| "TypeID_String SMALLINT = ''SMALLINT''"
| "TypeID_String INTID = ''INT''"
| "TypeID_String FLOAT = ''FLOAT''"
| "TypeID_String CHARID = ''CHAR''"
| "TypeID_String VARCHAR = ''VARCHAR''"
| "TypeID_String DATE = ''DATE''"
| "TypeID_String TIMESTAMP = ''TIMESTAMP''"
| "TypeID_String TIMESTAMP_NTZ = ''TIMESTAMP_NTZ''"
| "TypeID_String BINARY = ''BINARY''"
| "TypeID_String IntervalDayTime = ''INTERVAL_DAY_TIME''"
| "TypeID_String IntervalYearMonth = ''INTERVAL_YEAR_MONTH''"
| "TypeID_String STRUCT = ''STRUCT''"
| "TypeID_String JSON = ''JSON''"
| "TypeID_String GEOGRAPHY = ''GEOGRAPHY''"
| "TypeID_String _ = ''TYPE_UNKNOWN''"

subsection \<open>Quoting\<close>

definition QuoteString :: "string \<Rightarrow> string" where
  "QuoteString str = [SQ] @ ReplaceAll str SQ [BSL, SQ] @ [SQ]"

definition QuoteRef :: "string \<Rightarrow> string" where
  "QuoteRef ref = [BQ] @ ref @ [BQ]"

definition StringToBool :: "string \<Rightarrow> bool" where
  "StringToBool s \<longleftrightarrow> ToLower s = ''true''"

subsection \<open>Data types\<close>

datatype DataType =
    NilType
  | PrimitiveType TypeID
  | CharType int
  | VarcharType int
  | DecimalType i32 i32
  | ArrayType DataType
  | MapType DataType DataType
  | StructType "(string \<times> DataType) list"
  | JsonType

type_synonym StructFieldType = "string \<times> DataType"

fun ID :: "DataType \<Rightarrow> TypeID" where
  "ID NilType = TypeUnknown"
| "ID (PrimitiveType c) = c"
| "ID (CharType n) = CHARID"
| "ID (VarcharType n) = VARCHAR"
| "ID (DecimalType p s) = DECIMAL"
| "ID (ArrayType e) = ARRAY"
| "ID (MapType k v) = MAP"
| "ID (StructType fs) = STRUCT"
| "ID JsonType = JSON"

definition PrimitiveType_Name :: "TypeID \<Rightarrow> string" where
  "PrimitiveType_Name c = TypeID_String c"

definition CharType_Name :: "int \<Rightarrow> string" where
  "CharType_Name n = TypeID_String CHARID @ ''('' @ Itoa n @ '')''"

definition VarcharType_Name :: "int \<Rightarrow> string" where
  "VarcharType_Name n = TypeID_String VARCHAR @ ''('' @ Itoa n @ '')''"

definition DecimalType_Name :: "i32 \<Rightarrow> i32 \<Rightarrow> string" where
  "DecimalType_Name p s =
     TypeID_String DECIMAL @ ''('' @ Itoa (sint p) @ '','' @ Itoa (sint s) @ '')''"

definition ArrayType_Name :: "string \<Rightarrow> string" where
  "ArrayType_Name e = TypeID_String ARRAY @ ''<'' @ e @ ''>''"

definition MapType_Name :: "string \<Rightarrow> string \<Rightarrow> string" where
  "MapType_Name k v = TypeID_String MAP @ ''<'' @ k @ '','' @ v @ ''>''"

definition StructType_Name :: "(string \<times> string) list \<Rightarrow> string" where
  "StructType_Name fs =
     TypeID_String STRUCT @ ''<'' @ Join (map (\<lambda>(n, t). QuoteRef n @ '':'' @ t) fs) '','' @ ''>''"

definition JsonType_Name :: string where
  "JsonType_Name = TypeID_String JSON"

lemma size_field_less:
  "f \<in> set fs \<Longrightarrow> size (snd f) < Suc (size_list (size_prod (\<lambda>_. 0) size) fs)"
  by (induction fs) auto

function Name :: "DataType \<Rightarrow> string outcome" where
  "Name NilType = Panic NilDereference"
| "Name (PrimitiveType c) = Ret (PrimitiveType_Name c)"
| "Name (CharType n) = Ret (CharType_Name n)"
| "Name (VarcharType n) = Ret (VarcharType_Name n)"
| "Name (DecimalType p s) = Ret (DecimalType_Name p s)"
| "Name (ArrayType e) = omap ArrayType_Name (Name e)"
| "Name (MapType k v) = obind (Name k) (\<lambda>sk. obind (Name v) (\<lambda>sv. Ret (MapType_Name sk sv)))"
| "Name (StructType fs) =
     omap StructType_Name (omap_list (\<lambda>f. omap (Pair (fst f)) (Name (snd f))) fs)"
| "Name JsonType = Ret JsonType_Name"
  by pat_completeness auto
termination
  by (relation "measure size") (auto dest: size_field_less)

fun FieldType :: "StructFieldType list \<Rightarrow> string \<Rightarrow> DataType" where
  "FieldType [] n = NilType"
| "FieldType (f # fs) n = (if fst f = n then snd f else FieldType fs n)"

definition IsNullType :: "DataType \<Rightarrow> bool" where
  "IsNullType t \<longleftrightarrow> ID t = NULL"

subsection \<open>Comparison\<close>

text \<open>
  The checked type assertions \<open>r2, _ := t2.(T)\<close> give the zero value of \<open>T\<close> when \<open>t2\<close> is
  of another dynamic type. \<open>sort.Sort\<close> by field name is a stable sort here; where two
  fields of one struct have the same name Go leaves their order open.
\<close>

fun as_struct :: "DataType \<Rightarrow> StructFieldType list" where
  "as_struct (StructType fs) = fs"
| "as_struct _ = []"

fun as_array :: "DataType \<Rightarrow> DataType" where
  "as_array (ArrayType e) = e"
| "as_array _ = NilType"

fun as_map :: "DataType \<Rightarrow> DataType \<times> DataType" where
  "as_map (MapType k v) = (k, v)"
| "as_map _ = (NilType, NilType)"

fun as_char :: "DataType \<Rightarrow> int" where
  "as_char (CharType n) = n"
| "as_char _ = 0"

fun as_varchar :: "DataType \<Rightarrow> int" where
  "as_varchar (VarcharType n) = n"
| "as_varchar _ = 0"

definition sort_fields :: "StructFieldType list \<Rightarrow> StructFieldType list" where
  "sort_fields fs = sort_key fst fs"

lemma set_sort_fields [simp]: "set (sort_fields fs) = set fs"
  and length_sort_fields [simp]: "length (sort_fields fs) = length fs"
  by (simp_all add: sort_fields_def)

lemma size_sorted_head:
  "sort_fields fs = f # r \<Longrightarrow> size (snd f) < Suc (size_list (size_prod (\<lambda>_. 0) size) fs)"
  by (metis list.set_intros(1) set_sort_fields size_field_less)

function IsTypeEqual :: "DataType \<Rightarrow> DataType \<Rightarrow> bool" where
  "IsTypeEqual t1 t2 =
     (if t1 = NilType \<or> t2 = NilType then False
      else if (ID t1 = ARRAY \<or> ID t1 = MAP) \<and> IsNullType t2 then True
      else if ID t1 = NULL then ID t2 = ARRAY \<or> ID t2 = MAP \<or> ID t2 = NULL
      else if ID t1 \<noteq> ID t2 then False
      else (case t1 of
          StructType fs1 \<Rightarrow>
            (let fs2 = as_struct t2 in
             if length fs1 \<noteq> length fs2 then False
             else (case sort_fields fs1 of
                 [] \<Rightarrow> True
               | f1 # _ \<Rightarrow>
                   (let f2 = hd (sort_fields fs2) in
                    if fst f1 \<noteq> fst f2 then False else IsTypeEqual (snd f1) (snd f2))))
        | MapType k v \<Rightarrow>
            IsTypeEqual k (fst (as_map t2)) \<and> IsTypeEqual v (snd (as_map t2))
        | ArrayType e \<Rightarrow> IsTypeEqual e (as_array t2)
        | CharType n \<Rightarrow> n = as_char t2
        | VarcharType n \<Rightarrow> n = as_varchar t2
        | _ \<Rightarrow> True))"
  by pat_completeness auto
termination
  by (relation "measure (\<lambda>(t1, _). size t1)") (auto dest: size_sorted_head)

declare IsTypeEqual.simps [simp del]

subsection \<open>Properties\<close>

fun no_nil :: "DataType \<Rightarrow> bool" where
  "no_nil NilType = False"
| "no_nil (ArrayType e) = no_nil e"
| "no_nil (MapType k v) = (no_nil k \<and> no_nil v)"
| "no_nil (StructType fs) = (\<forall>f \<in> set fs. no_nil (snd f))"
| "no_nil _ = True"

lemma no_nil_not_Nil [simp]: "no_nil t \<Longrightarrow> t \<noteq> NilType"
  by auto

lemma Name_defined: "no_nil t \<Longrightarrow> \<exists>s. Name t = Ret s"
proof (induction t)
  case (StructType fs)
  then have "\<forall>f \<in> set fs. \<exists>s. Name (snd f) = Ret s"
    by (metis no_nil.simps(4) prod.collapse snds.intros)
  then obtain g where g: "\<And>f. f \<in> set fs \<Longrightarrow> Name (snd f) = Ret (g f)" by metis
  have "omap_list (\<lambda>f. omap (Pair (fst f)) (Name (snd f))) fs = Ret (map (\<lambda>f. (fst f, g f)) fs)"
    by (rule omap_list_Ret) (simp add: g)
  then show ?case by simp
qed auto

text \<open>
  The name of a type id parses back to it: \<open>TypeCodeFromStr\<close> inverts \<open>TypeID.String\<close> on every id but
  \<open>NULL\<close>, which both functions leave out.
\<close>

theorem TypeCodeFromStr_String: "t \<noteq> NULL \<Longrightarrow> TypeCodeFromStr (TypeID_String t) = t"
  by (cases t)
    (simp_all add: TypeCodeFromStr_def ToUpper_def to_upper_char_def less_eq_char_def)

theorem TypeCodeFromStr_String_witness:
  "TypeCodeFromStr (TypeID_String TIMESTAMP_NTZ) = TIMESTAMP_NTZ"
  using TypeCodeFromStr_String [of TIMESTAMP_NTZ] by simp

lemma IsTypeEqual_struct:
  assumes "length fs = length gs" and "sort_fields fs = f # fr" and "sort_fields gs = g # gr"
  shows "IsTypeEqual (StructType fs) (StructType gs) \<longleftrightarrow>
           fst f = fst g \<and> IsTypeEqual (snd f) (snd g)"
  using assms by (subst IsTypeEqual.simps) (simp add: Let_def IsNullType_def)

lemma IsTypeEqual_struct_Nil: "IsTypeEqual (StructType []) (StructType [])"
  by (subst IsTypeEqual.simps) (simp add: Let_def sort_fields_def)

text \<open>
  Every type without a nil component is equal to itself.
\<close>

theorem IsTypeEqual_refl: "no_nil t \<Longrightarrow> IsTypeEqual t t"
proof (induction t)
  case (StructType fs)
  show ?case
  proof (cases "sort_fields fs")
    case Nil
    then have "fs = []" by (metis length_0_conv length_sort_fields)
    then show ?thesis by (simp add: IsTypeEqual_struct_Nil)
  next
    case (Cons f r)
    then have f: "f \<in> set fs" by (metis list.set_intros(1) set_sort_fields)
    with StructType have "IsTypeEqual (snd f) (snd f)"
      by (metis no_nil.simps(4) prod.collapse snds.intros)
    then show ?thesis using IsTypeEqual_struct [OF refl Cons Cons] by simp
  qed
next
  case (ArrayType e)
  then show ?case by (subst IsTypeEqual.simps) simp
next
  case (MapType k v)
  then show ?case by (subst IsTypeEqual.simps) simp
qed (subst IsTypeEqual.simps; simp)+

theorem IsTypeEqual_refl_witness:
  "IsTypeEqual (StructType [(''b'', ArrayType (PrimitiveType INTID)), (''a'', CharType 3)])
               (StructType [(''b'', ArrayType (PrimitiveType INTID)), (''a'', CharType 3)])"
  using IsTypeEqual_refl
    [of "StructType [(''b'', ArrayType (PrimitiveType INTID)), (''a'', CharType 3)]"] by simp

text \<open>
  Two structs with the same number of fields are compared by the first field in name
  order alone: the loop over the sorted fields returns in its first iteration, so types
  that differ in any later field are reported equal.
\<close>

theorem IsTypeEqual_struct_first_field_only:
  assumes "length fs = length gs"
    and "a \<in> set fs" and "b \<in> set gs"
    and "\<And>f. f \<in> set fs \<Longrightarrow> f \<noteq> a \<Longrightarrow> fst a < fst f"
    and "\<And>g. g \<in> set gs \<Longrightarrow> g \<noteq> b \<Longrightarrow> fst b < fst g"
  shows "IsTypeEqual (StructType fs) (StructType gs) \<longleftrightarrow>
           fst a = fst b \<and> IsTypeEqual (snd a) (snd b)"
proof -
  have head: "\<exists>r. sort_fields hs = c # r"
    if c: "c \<in> set hs" and least: "\<And>h. h \<in> set hs \<Longrightarrow> h \<noteq> c \<Longrightarrow> fst c < fst h" for hs c
  proof -
    obtain h r where hr: "sort_fields hs = h # r"
      using c by (metis length_sort_fields length_greater_0_conv length_pos_if_in_set neq_Nil_conv)
    have "sorted (map fst (h # r))" using hr sort_fields_def by (metis sorted_sort_key)
    then have le: "\<And>x. x \<in> set (h # r) \<Longrightarrow> fst h \<le> fst x" by auto
    have "c \<in> set (h # r)" "h \<in> set hs" using c hr by (metis set_sort_fields, metis list.set_intros(1) set_sort_fields)
    then have "h = c" using le least by (meson leD)
    with hr show ?thesis by blast
  qed
  obtain r s where "sort_fields fs = a # r" "sort_fields gs = b # s"
    using head [of a fs] head [of b gs] assms by blast
  then show ?thesis using IsTypeEqual_struct assms(1) by blast
qed

theorem IsTypeEqual_struct_first_field_only_witness:
  "IsTypeEqual (StructType [(''a'', PrimitiveType BIGINT), (''b'', PrimitiveType STRING)])
               (StructType [(''a'', PrimitiveType BIGINT), (''c'', PrimitiveType DOUBLE)])"
proof -
  have "(''a''::string) < ''b''" "(''a''::string) < ''c''" by simp_all
  then show ?thesis
    using IsTypeEqual_struct_first_field_only
      [of "[(''a'', PrimitiveType BIGINT), (''b'', PrimitiveType STRING)]"
          "[(''a'', PrimitiveType BIGINT), (''c'', PrimitiveType DOUBLE)]"
          "(''a'', PrimitiveType BIGINT)" "(''a'', PrimitiveType BIGINT)"]
      IsTypeEqual_refl [of "PrimitiveType BIGINT"]
    by auto
qed

end
