(* ===== verification/TypeParser.thy ===== *)
theory TypeParser
  imports Datatypes
begin

section \<open>The type parser of \<open>odps/datatype\<close>\<close>

text \<open>
  Models \<open>odps/datatype/data_type_parser.go\<close>: the tokenizer and the recursive descent
  parser over a token slice and an index. \<open>consumeToken\<close> indexes the slice, so reading past
  its end is a panic. The recursion of \<open>parse\<close> is bounded by fuel; \<open>ParseDataType\<close> gives
  one unit more than there are tokens, which is always enough since every nested call has
  consumed a token (\<open>parse_enough_fuel\<close>).
\<close>

record typeParser =
  tokens :: "string list"
  index :: nat

definition isIdentifierChar :: "char \<Rightarrow> bool" where
  "isIdentifierChar c \<longleftrightarrow> is_digit c \<or> is_letter c \<or> c = CHR ''_'' \<or> c = CHR ''.''"

fun tokenize_loop :: "string \<Rightarrow> string \<Rightarrow> string list \<Rightarrow> string list" where
  "tokenize_loop [] builder toks = toks"
| "tokenize_loop (c # cs) builder toks =
     (if is_space c then tokenize_loop cs builder toks
      else if isIdentifierChar c then tokenize_loop cs (builder @ [c]) toks
      else tokenize_loop cs []
             ((if builder \<noteq> [] then toks @ [builder] else toks) @ [[c]]))"

definition tokenize :: "string \<Rightarrow> string list" where
  "tokenize name =
     (let name' = TrimSpace name; toks = tokenize_loop name' [] [] in
      if toks = [] \<and> name' \<noteq> [] then Fields name' else toks)"

definition consumeToken :: "(typeParser, string) M" where
  "consumeToken p =
     (if index p < length (tokens p) then (Ret (tokens p ! index p), p\<lparr>index := index p + 1\<rparr>)
      else (Panic IndexOutOfRange, p))"

definition peekToken :: "typeParser \<Rightarrow> string" where
  "peekToken p = (if index p < length (tokens p) then tokens p ! index p else [])"

definition expect :: "string \<Rightarrow> (typeParser, unit) M" where
  "expect expected = mbind consumeToken (\<lambda>nextToken.
     if nextToken \<noteq> expected then mfail (ErrMsg ''expect'') else mret ())"

definition newPrimitive :: "TypeID \<Rightarrow> (typeParser, DataType) M" where
  "newPrimitive c = mret (PrimitiveType c)"

definition parserChar :: "(typeParser, DataType) M" where
  "parserChar = mseq (expect ''('') (mbind consumeToken (\<lambda>token.
     mbind (mlift (Atoi token)) (\<lambda>charLength.
       if charLength > 255 \<or> charLength < 1 then mfail (ErrMsg ''length of char is 1~255'')
       else mseq (expect '')'') (mret (CharType charLength)))))"

definition parserVarchar :: "(typeParser, DataType) M" where
  "parserVarchar = mseq (expect ''('') (mbind consumeToken (\<lambda>token.
     mbind (mlift (Atoi token)) (\<lambda>charLength.
       if charLength > 65535 \<or> charLength < 1 then mfail (ErrMsg ''length of varchar is 1~255'')
       else mseq (expect '')'') (mret (VarcharType charLength)))))"

definition parseDecimal :: "(typeParser, DataType) M" where
  "parseDecimal = mbind (mget peekToken) (\<lambda>next.
     if next = [] then mret (DecimalType 38 18)
     else mseq (expect ''('') (mbind consumeToken (\<lambda>token.
       mbind (mlift (ParseInt 32 token)) (\<lambda>precision.
       mseq (expect '','') (mbind consumeToken (\<lambda>token.
       mbind (mlift (ParseInt 32 token)) (\<lambda>scale.
       mseq (expect '')'')
         (mret (DecimalType (word_of_int precision) (word_of_int scale))))))))))"

definition parseArray :: "(typeParser, DataType) M \<Rightarrow> (typeParser, DataType) M" where
  "parseArray parse = mseq (expect ''<'') (mbind parse (\<lambda>dataType.
     mseq (expect ''>'') (mret (ArrayType dataType))))"

definition parseMap :: "(typeParser, DataType) M \<Rightarrow> (typeParser, DataType) M" where
  "parseMap parse = mseq (expect ''<'') (mbind parse (\<lambda>keyType.
     mseq (expect '','') (mbind parse (\<lambda>valueType.
     mseq (expect ''>'') (mret (MapType keyType valueType))))))"

fun parseStruct_loop ::
  "(typeParser, DataType) M \<Rightarrow> nat \<Rightarrow> StructFieldType list \<Rightarrow> (typeParser, StructFieldType list) M"
where
  "parseStruct_loop parse 0 fs = mpanic OutOfFuel"
| "parseStruct_loop parse (Suc n) fs = mbind consumeToken (\<lambda>filedName.
     mseq (expect '':'') (mbind parse (\<lambda>filedType.
     let fields1 = fs @ [(filedName, filedType)] in
     mbind (mget peekToken) (\<lambda>nextToken.
       if nextToken = '','' then mseq consumeToken (parseStruct_loop parse n fields1)
       else if nextToken = ''>'' then mret fields1
       else mfail (ErrMsg ''unexpected token'')))))"

definition parseStruct :: "(typeParser, DataType) M \<Rightarrow> nat \<Rightarrow> (typeParser, DataType) M" where
  "parseStruct parse n = mseq (expect ''<'') (mbind (parseStruct_loop parse n []) (\<lambda>fs.
     mseq (expect ''>'') (mret (StructType fs))))"

definition parseJson :: "(typeParser, DataType) M" where
  "parseJson = mret JsonType"

fun parse :: "nat \<Rightarrow> (typeParser, DataType) M" where
  "parse 0 = mpanic OutOfFuel"
| "parse (Suc n) = mbind consumeToken (\<lambda>token.
     (case TypeCodeFromStr token of
        ARRAY \<Rightarrow> parseArray (parse n)
      | MAP \<Rightarrow> parseMap (parse n)
      | STRUCT \<Rightarrow> parseStruct (parse n) n
      | CHARID \<Rightarrow> parserChar
      | VARCHAR \<Rightarrow> parserVarchar
      | DECIMAL \<Rightarrow> parseDecimal
      | JSON \<Rightarrow> parseJson
      | TypeUnknown \<Rightarrow> mfail (ErrMsg ''unknown data type'')
      | typeCode \<Rightarrow> newPrimitive typeCode))"

declare parse.simps(2) [simp del]

definition hasTokenLeft :: "typeParser \<Rightarrow> bool" where
  "hasTokenLeft p \<longleftrightarrow> index p < length (tokens p)"

definition ParseDataType :: "string \<Rightarrow> DataType outcome" where
  "ParseDataType name =
     (let parser = \<lparr>tokens = tokenize name, index = 0\<rparr>;
          (res, parser') = parse (Suc (length (tokens parser))) parser
      in case res of
           Panic q \<Rightarrow> Panic q
         | _ \<Rightarrow> if hasTokenLeft parser' then Fail (ErrMsg ''unexpected token'') else res)"

subsection \<open>Running the parser over a token list\<close>

lemma consumeToken_at [run_simps]:
  "consumeToken \<lparr>tokens = pre @ t # post, index = length pre\<rparr> =
     (Ret t, \<lparr>tokens = pre @ t # post, index = Suc (length pre)\<rparr>)"
  by (simp add: consumeToken_def nth_append)

lemma expect_at [run_simps]:
  "expect e \<lparr>tokens = pre @ t # post, index = length pre\<rparr> =
     (if t = e then Ret () else Fail (ErrMsg ''expect''),
      \<lparr>tokens = pre @ t # post, index = Suc (length pre)\<rparr>)"
  by (simp add: expect_def mbind_def consumeToken_at mret_def mfail_def)

text \<open>Every piece of the parser only moves the index, and forward.\<close>

definition advances :: "(typeParser, 'a) M \<Rightarrow> bool" where
  "advances m \<longleftrightarrow> (\<forall>p. tokens (snd (m p)) = tokens p \<and> index p \<le> index (snd (m p)))"

lemma advances_basic [intro]:
  "advances (mret x)" "advances (mfail e)" "advances (mpanic q)" "advances (mget f)"
  "advances (mlift r)" "advances consumeToken"
  by (auto simp: advances_def run_simps consumeToken_def)

lemma advances_mbind [intro]:
  assumes "advances m" and "\<And>x. advances (f x)"
  shows "advances (mbind m f)"
proof -
  have "tokens (snd (mbind m f p)) = tokens p \<and> index p \<le> index (snd (mbind m f p))" for p
  proof (cases "m p")
    case (Pair r q)
    with assms(1) have q: "tokens q = tokens p" "index p \<le> index q"
      by (metis advances_def snd_conv)+
    show ?thesis
    proof (cases r)
      case (Ret x)
      have "tokens (snd (f x q)) = tokens q" "index q \<le> index (snd (f x q))"
        using assms(2) [of x] by (simp_all add: advances_def)
      with Ret Pair q show ?thesis by (simp add: mbind_def)
    qed (use Pair q in \<open>simp_all add: mbind_def\<close>)
  qed
  then show ?thesis by (simp add: advances_def)
qed

lemma advances_mseq [intro]: "advances m \<Longrightarrow> advances n \<Longrightarrow> advances (mseq m n)"
  by (auto simp: mseq_def)

lemma advances_expect [intro]: "advances (expect e)"
  unfolding expect_def by (auto intro!: advances_mbind)

lemma advances_atoms [intro]:
  "advances parserChar" "advances parserVarchar" "advances parseDecimal" "advances parseJson"
  "advances (newPrimitive c)"
  unfolding parserChar_def parserVarchar_def parseDecimal_def parseJson_def newPrimitive_def
  by (auto intro!: advances_mbind advances_mseq)

lemma advances_parseStruct_loop: "advances P \<Longrightarrow> advances (parseStruct_loop P n fs)"
  by (induction n arbitrary: fs) (auto intro!: advances_mbind advances_mseq simp: Let_def)

lemma advances_composite [intro]:
  assumes "advances P"
  shows "advances (parseArray P)" "advances (parseMap P)" "advances (parseStruct P n)"
  unfolding parseArray_def parseMap_def parseStruct_def
  using assms by (auto intro!: advances_mbind advances_mseq advances_parseStruct_loop)

lemma advances_parse: "advances (parse n)"
proof (induction n)
  case (Suc n)
  then show ?case
    by (auto simp: parse.simps(2) intro!: advances_mbind split: TypeID.split)
qed auto

subsection \<open>The fuel is enough\<close>

definition remaining :: "typeParser \<Rightarrow> nat" where
  "remaining p = length (tokens p) - index p"

definition no_fuel_panic :: "nat \<Rightarrow> (typeParser, 'a) M \<Rightarrow> bool" where
  "no_fuel_panic k m \<longleftrightarrow> (\<forall>p. remaining p \<le> k \<longrightarrow> fst (m p) \<noteq> Panic OutOfFuel)"

lemma no_fuel_panic_basic [intro]:
  "no_fuel_panic k (mret x)" "no_fuel_panic k (mfail e)" "no_fuel_panic k (mget f)"
  "no_fuel_panic k consumeToken"
  by (auto simp: no_fuel_panic_def run_simps consumeToken_def)

lemma no_fuel_panic_mbind [intro]:
  assumes m: "no_fuel_panic k m" and adv: "advances m" and f: "\<And>x. no_fuel_panic k (f x)"
  shows "no_fuel_panic k (mbind m f)"
proof -
  have "fst (mbind m f p) \<noteq> Panic OutOfFuel" if p: "remaining p \<le> k" for p
  proof (cases "m p")
    case (Pair r q)
    with adv have "remaining q \<le> remaining p"
      unfolding advances_def remaining_def by (metis diff_le_mono2 snd_conv)
    with p have q: "remaining q \<le> k" by simp
    from m p Pair have "r \<noteq> Panic OutOfFuel" by (metis no_fuel_panic_def fst_conv)
    with Pair f q show ?thesis by (cases r) (auto simp: mbind_def no_fuel_panic_def)
  qed
  then show ?thesis by (simp add: no_fuel_panic_def)
qed

lemma no_fuel_panic_mseq [intro]:
  "no_fuel_panic k m \<Longrightarrow> advances m \<Longrightarrow> no_fuel_panic k n \<Longrightarrow> no_fuel_panic k (mseq m n)"
  unfolding mseq_def by (rule no_fuel_panic_mbind)

lemma no_fuel_panic_mono: "no_fuel_panic k m \<Longrightarrow> j \<le> k \<Longrightarrow> no_fuel_panic j m"
  by (auto simp: no_fuel_panic_def)

lemmas adv_intros = advances_basic advances_mbind advances_mseq advances_expect

lemma no_fuel_panic_expect [intro]: "no_fuel_panic k (expect e)"
  unfolding expect_def
  by (rule no_fuel_panic_mbind) (auto intro!: no_fuel_panic_basic adv_intros)

lemma no_fuel_panic_mlift [intro]:
  "r \<noteq> Panic OutOfFuel \<Longrightarrow> no_fuel_panic k (mlift r)"
  by (auto simp: no_fuel_panic_def run_simps)

lemma ParseInt_not_Panic [simp]: "ParseInt b t \<noteq> Panic q"
  by (auto simp: ParseInt_def Let_def split: prod.splits option.splits if_splits)

lemmas nf_intros = no_fuel_panic_basic no_fuel_panic_mbind no_fuel_panic_mseq
  no_fuel_panic_expect no_fuel_panic_mlift

lemma no_fuel_panic_atoms [intro]:
  "no_fuel_panic k parserChar" "no_fuel_panic k parserVarchar" "no_fuel_panic k parseDecimal"
  "no_fuel_panic k parseJson" "no_fuel_panic k (newPrimitive c)"
  unfolding parserChar_def parserVarchar_def parseDecimal_def parseJson_def newPrimitive_def Atoi_def
  by (auto intro!: nf_intros adv_intros)

lemma no_fuel_panic_consume:
  assumes "\<And>t j. k = Suc j \<Longrightarrow> no_fuel_panic j (f t)"
  shows "no_fuel_panic k (mbind consumeToken f)"
proof -
  have "fst (mbind consumeToken f p) \<noteq> Panic OutOfFuel" if le: "remaining p \<le> k" for p
  proof (cases "index p < length (tokens p)")
    case True
    let ?q = "p\<lparr>index := index p + 1\<rparr>"
    obtain j where k: "k = Suc j" using True le by (cases k) (auto simp: remaining_def)
    with True le have "remaining ?q \<le> j" by (simp add: remaining_def)
    with k assms True show ?thesis by (auto simp: mbind_def consumeToken_def no_fuel_panic_def)
  qed (simp add: mbind_def consumeToken_def)
  then show ?thesis by (simp add: no_fuel_panic_def)
qed

lemma no_fuel_panic_struct_loop:
  assumes "no_fuel_panic n P" "advances P" "j \<le> n"
  shows "no_fuel_panic j (parseStruct_loop P (Suc j) fs)"
  using assms(3)
proof (induction j arbitrary: fs)
  case 0
  show ?case by (simp, rule no_fuel_panic_consume) simp
next
  case (Suc j)
  have P: "no_fuel_panic j P" using assms(1) Suc.prems by (auto intro: no_fuel_panic_mono)
  have loop: "no_fuel_panic j (parseStruct_loop P (Suc j) gs)" for gs
    using Suc.IH Suc.prems by simp
  show ?case
    unfolding parseStruct_loop.simps(2) [of P "Suc j"] Let_def
    by (rule no_fuel_panic_consume)
      (auto intro!: nf_intros adv_intros P loop assms(2)
            advances_parseStruct_loop simp del: parseStruct_loop.simps)
qed

lemma parse_enough_fuel: "no_fuel_panic n (parse (Suc n))"
proof (induction n)
  case 0
  show ?case by (simp add: parse.simps(2), rule no_fuel_panic_consume) simp
next
  case (Suc n)
  have comp: "no_fuel_panic n (parseArray (parse (Suc n)))" "no_fuel_panic n (parseMap (parse (Suc n)))"
    "no_fuel_panic n (parseStruct (parse (Suc n)) (Suc n))"
    unfolding parseArray_def parseMap_def parseStruct_def
    using Suc advances_parse
    by (auto intro!: nf_intros no_fuel_panic_struct_loop adv_intros advances_parseStruct_loop simp del: parseStruct_loop.simps)
  show ?case
    unfolding parse.simps(2) [of "Suc n"]
    by (rule no_fuel_panic_consume) (auto simp: comp split: TypeID.split)
qed

text \<open>
  C10. The parser always ends: \<open>ParseDataType\<close> never runs out of the fuel it gives to the
  recursive descent, for any input whatsoever. What is left is a type, an error or the
  index panic of \<open>consumeToken\<close>.
\<close>

theorem ParseDataType_terminates: "ParseDataType name \<noteq> Panic OutOfFuel"
proof -
  let ?p = "\<lparr>tokens = tokenize name, index = 0\<rparr>"
  have "fst (parse (Suc (length (tokens ?p))) ?p) \<noteq> Panic OutOfFuel"
    using parse_enough_fuel [of "length (tokens ?p)"]
    by (simp add: no_fuel_panic_def remaining_def)
  then show ?thesis
    by (auto simp: ParseDataType_def Let_def split: prod.split outcome.split)
qed

subsection \<open>Printed types parse back\<close>

text \<open>
  The types the parser can produce from a printed name: every type built without structs
  whose lengths and precisions the parser accepts. \<open>name_of\<close> is the printed name,
  \<open>flushed\<close> the tokens the tokenizer has emitted after reading it and \<open>pending\<close> the
  identifier it still holds in its builder.
\<close>

fun printable :: "DataType \<Rightarrow> bool" where
  "printable (PrimitiveType c) =
     (c \<notin> {NULL, ARRAY, MAP, STRUCT, CHARID, VARCHAR, DECIMAL, JSON, TypeUnknown})"
| "printable (CharType n) = (1 \<le> n \<and> n \<le> 255)"
| "printable (VarcharType n) = (1 \<le> n \<and> n \<le> 65535)"
| "printable (DecimalType p s) = (0 \<le> sint p \<and> 0 \<le> sint s)"
| "printable (ArrayType e) = printable e"
| "printable (MapType k v) = (printable k \<and> printable v)"
| "printable JsonType = True"
| "printable _ = False"

fun name_of :: "DataType \<Rightarrow> string" where
  "name_of (PrimitiveType c) = TypeID_String c"
| "name_of (CharType n) = ''CHAR('' @ Itoa n @ '')''"
| "name_of (VarcharType n) = ''VARCHAR('' @ Itoa n @ '')''"
| "name_of (DecimalType p s) = ''DECIMAL('' @ Itoa (sint p) @ '','' @ Itoa (sint s) @ '')''"
| "name_of (ArrayType e) = ''ARRAY<'' @ name_of e @ ''>''"
| "name_of (MapType k v) = ''MAP<'' @ name_of k @ '','' @ name_of v @ ''>''"
| "name_of JsonType = ''JSON''"
| "name_of _ = []"

fun pending :: "DataType \<Rightarrow> string" where
  "pending (PrimitiveType c) = TypeID_String c"
| "pending JsonType = ''JSON''"
| "pending _ = []"

definition with_pending :: "string list \<Rightarrow> string \<Rightarrow> string list" where
  "with_pending ts b = (if b \<noteq> [] then ts @ [b] else ts)"

fun flushed :: "DataType \<Rightarrow> string list" where
  "flushed (CharType n) = [''CHAR'', ''('', Itoa n, '')'']"
| "flushed (VarcharType n) = [''VARCHAR'', ''('', Itoa n, '')'']"
| "flushed (DecimalType p s) = [''DECIMAL'', ''('', Itoa (sint p), '','', Itoa (sint s), '')'']"
| "flushed (ArrayType e) =
     [''ARRAY'', ''<''] @ with_pending (flushed e) (pending e) @ [''>'']"
| "flushed (MapType k v) =
     [''MAP'', ''<''] @ with_pending (flushed k) (pending k) @ ['','']
       @ with_pending (flushed v) (pending v) @ [''>'']"
| "flushed _ = []"

definition all_tokens :: "DataType \<Rightarrow> string list" where
  "all_tokens t = with_pending (flushed t) (pending t)"

lemma Name_printable: "printable t \<Longrightarrow> Name t = Ret (name_of t)"
  by (induction t)
    (simp_all add: PrimitiveType_Name_def CharType_Name_def VarcharType_Name_def DecimalType_Name_def
      ArrayType_Name_def MapType_Name_def JsonType_Name_def)

lemma sep_chars [simp]:
  "\<not> isIdentifierChar CHR ''<''" "\<not> isIdentifierChar CHR ''>''" "\<not> isIdentifierChar CHR '',''"
  "\<not> isIdentifierChar CHR ''(''" "\<not> isIdentifierChar CHR '')''"
  "\<not> is_space CHR ''<''" "\<not> is_space CHR ''>''" "\<not> is_space CHR '',''"
  "\<not> is_space CHR ''(''" "\<not> is_space CHR '')''"
  by (simp_all add: isIdentifierChar_def is_digit_def is_letter_def is_space_def less_eq_char_def)

definition ident :: "string \<Rightarrow> bool" where
  "ident s \<longleftrightarrow> s \<noteq> [] \<and> list_all (\<lambda>c. isIdentifierChar c \<and> \<not> is_space c) s"

lemma tokenize_ident:
  "list_all (\<lambda>c. isIdentifierChar c \<and> \<not> is_space c) s \<Longrightarrow>
     tokenize_loop (s @ rest) b toks = tokenize_loop rest (b @ s) toks"
  by (induction s arbitrary: b) auto

lemma tokenize_sep:
  "\<not> isIdentifierChar c \<Longrightarrow> \<not> is_space c \<Longrightarrow>
     tokenize_loop (c # rest) b toks = tokenize_loop rest [] (with_pending toks b @ [[c]])"
  by (simp add: with_pending_def)

lemma ident_TypeID: "ident (TypeID_String c)"
  by (cases c)
    (simp_all add: ident_def isIdentifierChar_def is_digit_def is_letter_def is_space_def less_eq_char_def)

lemma digit_ident: "is_digit c \<Longrightarrow> isIdentifierChar c \<and> \<not> is_space c"
  by (auto simp: isIdentifierChar_def is_digit_def is_space_def less_eq_char_def)

lemma ident_Itoa: "0 \<le> i \<Longrightarrow> ident (Itoa i)"
  using show_nat_all_digits [of "nat i"] digit_ident
  by (auto simp: ident_def Itoa_def list_all_iff)

lemma ident_words [simp]:
  "ident ''CHAR''" "ident ''VARCHAR''" "ident ''DECIMAL''" "ident ''ARRAY''" "ident ''MAP''" "ident ''JSON''"
  using ident_TypeID [of CHARID] ident_TypeID [of VARCHAR] ident_TypeID [of DECIMAL]
    ident_TypeID [of ARRAY] ident_TypeID [of MAP] ident_TypeID [of JSON] by simp_all

lemma tokenize_ident_sep:
  assumes "ident s" "\<not> isIdentifierChar c" "\<not> is_space c"
  shows "tokenize_loop (s @ c # rest) [] toks = tokenize_loop rest [] (toks @ [s, [c]])"
  using assms by (simp add: ident_def tokenize_ident tokenize_sep with_pending_def del: tokenize_loop.simps)

lemma ident_list_all: "ident s \<Longrightarrow> list_all (\<lambda>c. isIdentifierChar c \<and> \<not> is_space c) s"
  by (simp add: ident_def)

lemma with_pending_append: "with_pending (xs @ ys) b = xs @ with_pending ys b"
  by (simp add: with_pending_def)

lemma with_pending_Cons: "with_pending (x # xs) b = x # with_pending xs b"
  by (simp add: with_pending_def)

lemma tokenize_pending_sep:
  assumes "\<not> isIdentifierChar c" "\<not> is_space c"
  shows "tokenize_loop (c # rest) b (toks @ ts) = tokenize_loop rest [] (toks @ with_pending ts b @ [[c]])"
  using assms by (simp add: tokenize_sep with_pending_append del: tokenize_loop.simps)

lemma tokenize_name_of:
  "printable t \<Longrightarrow> tokenize_loop (name_of t @ rest) [] toks = tokenize_loop rest (pending t) (toks @ flushed t)"
proof (induction t arbitrary: rest toks)
  case (PrimitiveType c)
  then show ?case using tokenize_ident [OF ident_list_all [OF ident_TypeID]] by simp
next
  case (CharType n)
  then show ?case
    using tokenize_ident_sep [of "''CHAR''" "CHR ''(''"] tokenize_ident_sep [of "Itoa n" "CHR '')''"]
    by (simp add: ident_Itoa del: tokenize_loop.simps)
next
  case (VarcharType n)
  then show ?case
    using tokenize_ident_sep [of "''VARCHAR''" "CHR ''(''"] tokenize_ident_sep [of "Itoa n" "CHR '')''"]
    by (simp add: ident_Itoa del: tokenize_loop.simps)
next
  case (DecimalType p s)
  then show ?case
    using tokenize_ident_sep [of "''DECIMAL''" "CHR ''(''"]
      tokenize_ident_sep [of "Itoa (sint p)" "CHR '',''"] tokenize_ident_sep [of "Itoa (sint s)" "CHR '')''"]
    by (simp add: ident_Itoa del: tokenize_loop.simps)
next
  case (ArrayType e)
  then show ?case
    using tokenize_ident_sep [of "''ARRAY''" "CHR ''<''"] tokenize_pending_sep [of "CHR ''>''"]
    by (simp add: with_pending_Cons del: tokenize_loop.simps)
next
  case (MapType k v)
  have v: "tokenize_loop (name_of v @ CHR ''>'' # rest) [] ts =
      tokenize_loop rest [] (ts @ with_pending (flushed v) (pending v) @ [''>''])" for ts
    using MapType tokenize_pending_sep [of "CHR ''>''"] by (simp del: tokenize_loop.simps)
  show ?case
    using MapType.IH(1) MapType.prems v
      tokenize_ident_sep [of "''MAP''" "CHR ''<''"] tokenize_pending_sep [of "CHR '',''"]
    by (simp add: with_pending_Cons del: tokenize_loop.simps)
next
  case JsonType
  then show ?case
    using tokenize_ident [OF ident_list_all [OF ident_words(6)], of rest "[]" toks]
    by (simp del: tokenize_loop.simps)
qed simp_all

lemma name_of_no_space: "printable t \<Longrightarrow> c \<in> set (name_of t) \<Longrightarrow> \<not> is_space c"
proof (induction t)
  case (PrimitiveType d)
  then show ?case using ident_TypeID [of d] by (auto simp: ident_def list_all_iff)
next
  case (CharType n)
  then show ?case using ident_Itoa [of n] by (auto simp: ident_def list_all_iff is_space_def)
next
  case (VarcharType n)
  then show ?case using ident_Itoa [of n] by (auto simp: ident_def list_all_iff is_space_def)
next
  case (DecimalType p s)
  then show ?case using ident_Itoa [of "sint p"] ident_Itoa [of "sint s"]
    by (auto simp: ident_def list_all_iff is_space_def)
qed (auto simp: is_space_def)

lemma name_of_nonempty: "printable t \<Longrightarrow> name_of t \<noteq> []"
  using ident_TypeID by (cases t) (auto simp: ident_def)

lemma flushed_or_pending: "printable t \<Longrightarrow> flushed t = [] \<Longrightarrow> pending t = name_of t"
  by (cases t) auto

lemma flushed_not_pending: "flushed t \<noteq> [] \<Longrightarrow> pending t = []"
  by (cases t) auto

lemma tokenize_printable: "printable t \<Longrightarrow> tokenize (name_of t) = all_tokens t"
proof -
  assume t: "printable t"
  then have trim: "TrimSpace (name_of t) = name_of t"
    using name_of_no_space by (intro TrimSpace_id) blast
  have loop: "tokenize_loop (name_of t) [] [] = flushed t"
    using tokenize_name_of [OF t, of "[]" "[]"] by simp
  show ?thesis
  proof (cases "flushed t = []")
    case True
    then show ?thesis
      using t trim loop name_of_nonempty [OF t] flushed_or_pending [OF t True] name_of_no_space [OF t]
      by (simp add: tokenize_def Let_def all_tokens_def with_pending_def Fields_word)
  next
    case False
    then show ?thesis
      using trim loop flushed_not_pending [OF False]
      by (simp add: tokenize_def Let_def all_tokens_def with_pending_def)
  qed
qed

text \<open>One step of the parser over a token list written as read part and rest.\<close>

definition at :: "string list \<Rightarrow> string list \<Rightarrow> typeParser" where
  "at pre post = \<lparr>tokens = pre @ post, index = length pre\<rparr>"

lemma consumeToken_step [run_simps]: "consumeToken (at pre (t # post)) = (Ret t, at (pre @ [t]) post)"
  by (simp add: at_def consumeToken_def nth_append)

lemma consumeToken_end [run_simps]: "consumeToken (at pre []) = (Panic IndexOutOfRange, at pre [])"
  by (simp add: at_def consumeToken_def)

lemma peekToken_step [run_simps]: "peekToken (at pre (t # post)) = t" "peekToken (at pre []) = []"
  by (simp_all add: at_def peekToken_def nth_append)

lemma expect_step [run_simps]:
  "expect e (at pre (t # post)) =
     (if t = e then Ret () else Fail (ErrMsg ''expect''), at (pre @ [t]) post)"
  by (simp add: expect_def mbind_def consumeToken_step mret_def mfail_def)

lemma expect_end [run_simps]: "expect e (at pre []) = (Panic IndexOutOfRange, at pre [])"
  by (simp add: expect_def mbind_def consumeToken_end)

lemma at_shift: "at (pre @ [t]) post = at pre (t # post)\<lparr>index := Suc (length pre)\<rparr>"
  by (simp add: at_def)

lemma hasTokenLeft_at: "hasTokenLeft (at pre post) \<longleftrightarrow> post \<noteq> []"
  by (simp add: hasTokenLeft_def at_def)

lemma TypeCode_words [simp]:
  "TypeCodeFromStr ''CHAR'' = CHARID" "TypeCodeFromStr ''VARCHAR'' = VARCHAR"
  "TypeCodeFromStr ''DECIMAL'' = DECIMAL" "TypeCodeFromStr ''ARRAY'' = ARRAY"
  "TypeCodeFromStr ''MAP'' = MAP" "TypeCodeFromStr ''JSON'' = JSON" "TypeCodeFromStr ''STRUCT'' = STRUCT"
  by (simp_all add: TypeCodeFromStr_def ToUpper_def to_upper_char_def less_eq_char_def)

lemma TypeCode_of_name: "c \<noteq> NULL \<Longrightarrow> TypeCodeFromStr (TypeID_String c) = c"
  by (cases c)
    (simp_all add: TypeCodeFromStr_def ToUpper_def to_upper_char_def less_eq_char_def)

lemma length_all_tokens: "printable t \<Longrightarrow> 0 < length (all_tokens t)"
  using flushed_or_pending name_of_nonempty by (auto simp: all_tokens_def with_pending_def)

lemma Itoa_word: "ParseInt 32 (Itoa (sint (w :: i32))) = Ret (sint w)"
  using sint_ge [of w] sint_lt [of w] by (intro ParseInt_Itoa) simp_all

lemma parse_all_tokens:
  "printable t \<Longrightarrow> length (all_tokens t) \<le> n \<Longrightarrow>
     parse n (at pre (all_tokens t @ post)) = (Ret t, at (pre @ all_tokens t) post)"
proof (induction t arbitrary: n pre post)
  case (PrimitiveType c)
  then have "0 < n" using length_all_tokens by (meson less_le_trans)
  then obtain m where n: "n = Suc m" by (cases n) auto
  have c: "TypeCodeFromStr (TypeID_String c) = c" "all_tokens (PrimitiveType c) = [TypeID_String c]"
    using PrimitiveType TypeCode_of_name [of c] ident_TypeID [of c]
    by (auto simp: all_tokens_def with_pending_def ident_def)
  show ?case
    using PrimitiveType.prems(1)
    by (simp add: n c parse.simps(2) run_simps mbind_def newPrimitive_def split: TypeID.split)
next
  case (CharType k)
  then obtain m where "n = Suc m" by (cases n) (auto simp: all_tokens_def with_pending_def)
  with CharType show ?case
    by (simp add: parse.simps(2) all_tokens_def with_pending_def parserChar_def Atoi_def
        mbind_def mseq_def run_simps ParseInt_Itoa)
next
  case (VarcharType k)
  then obtain m where "n = Suc m" by (cases n) (auto simp: all_tokens_def with_pending_def)
  with VarcharType show ?case
    by (simp add: parse.simps(2) all_tokens_def with_pending_def parserVarchar_def Atoi_def
        mbind_def mseq_def run_simps ParseInt_Itoa)
next
  case (DecimalType p s)
  then obtain m where "n = Suc m" by (cases n) (auto simp: all_tokens_def with_pending_def)
  with DecimalType show ?case
    by (simp add: parse.simps(2) all_tokens_def with_pending_def parseDecimal_def
        mbind_def mseq_def run_simps Itoa_word)
next
  case (ArrayType e)
  then obtain m where n: "n = Suc m" by (cases n) (auto simp: all_tokens_def with_pending_def)
  have ts: "all_tokens (ArrayType e) = ''ARRAY'' # ''<'' # all_tokens e @ [''>'']"
    by (simp add: all_tokens_def with_pending_def)
  have "parse m (at (pre @ [''ARRAY'', ''<'']) (all_tokens e @ ''>'' # post)) =
      (Ret e, at ((pre @ [''ARRAY'', ''<'']) @ all_tokens e) (''>'' # post))"
    using ArrayType n ts by (intro ArrayType.IH) simp_all
  then show ?case
    by (simp add: n ts parse.simps(2) parseArray_def mbind_def mseq_def run_simps)
next
  case (MapType k v)
  then obtain m where n: "n = Suc m" by (cases n) (auto simp: all_tokens_def with_pending_def)
  have ts: "all_tokens (MapType k v) = ''MAP'' # ''<'' # all_tokens k @ '','' # all_tokens v @ [''>'']"
    by (simp add: all_tokens_def with_pending_def)
  have "parse m (at (pre @ [''MAP'', ''<'']) (all_tokens k @ '','' # all_tokens v @ ''>'' # post)) =
      (Ret k, at ((pre @ [''MAP'', ''<'']) @ all_tokens k) ('','' # all_tokens v @ ''>'' # post))"
    using MapType n ts by (intro MapType.IH(1)) simp_all
  moreover have "parse m (at (pre @ [''MAP'', ''<''] @ all_tokens k @ ['','']) (all_tokens v @ ''>'' # post)) =
      (Ret v, at ((pre @ [''MAP'', ''<''] @ all_tokens k @ ['','']) @ all_tokens v) (''>'' # post))"
    using MapType n ts by (intro MapType.IH(2)) simp_all
  ultimately show ?case
    by (simp add: n ts parse.simps(2) parseMap_def mbind_def mseq_def run_simps)
next
  case JsonType
  then obtain m where "n = Suc m" by (cases n) (auto simp: all_tokens_def with_pending_def)
  then show ?case
    by (simp add: parse.simps(2) all_tokens_def with_pending_def parseJson_def mbind_def run_simps)
qed simp_all

lemma digit_char_numerals:
  "digit_char 0 = CHR ''0''" "digit_char 1 = CHR ''1''" "digit_char 2 = CHR ''2''"
  "digit_char (Suc 0) = CHR ''1''"
  by code_simp+

text \<open>
  C9. Round trip: the printed name of every struct-free type the parser can express parses
  back to that type, through the tokenizer, however deeply arrays and maps are nested.
\<close>

theorem ParseDataType_Name:
  assumes "printable t" and "Name t = Ret s"
  shows "ParseDataType s = Ret t"
proof -
  have s: "s = name_of t" using assms Name_printable by simp
  let ?n = "Suc (length (all_tokens t))"
  have "parse ?n (at [] (all_tokens t @ [])) = (Ret t, at ([] @ all_tokens t) [])"
    using assms(1) by (intro parse_all_tokens) simp_all
  then show ?thesis
    using hasTokenLeft_at [of "all_tokens t" "[]"]
    by (simp add: ParseDataType_def s tokenize_printable [OF assms(1)] at_def Let_def)
qed

theorem ParseDataType_Name_witness:
  "ParseDataType ''MAP<STRING,ARRAY<DECIMAL(10,2)>>'' =
     Ret (MapType (PrimitiveType STRING) (ArrayType (DecimalType 10 2)))"
proof -
  let ?t = "MapType (PrimitiveType STRING) (ArrayType (DecimalType 10 2))"
  have "Name ?t = Ret ''MAP<STRING,ARRAY<DECIMAL(10,2)>>''"
    by (simp add: PrimitiveType_Name_def DecimalType_Name_def ArrayType_Name_def MapType_Name_def
        Itoa_def show_nat.simps digit_char_numerals)
  moreover have "printable ?t" by simp
  ultimately show ?thesis using ParseDataType_Name by blast
qed

subsection \<open>Where the parser departs from the printed form\<close>

lemma tokenize_loop_extends: "\<exists>more. tokenize_loop cs b toks = toks @ more"
proof (induction cs arbitrary: b toks)
  case (Cons c cs)
  show ?case
    using Cons [of b toks] Cons [of "b @ [c]" toks]
      Cons [of "[]" "(if b \<noteq> [] then toks @ [b] else toks) @ [[c]]"]
    by (auto split: if_splits)
qed simp

lemma TrimSpace_ends: "s \<noteq> [] \<Longrightarrow> \<not> is_space (hd s) \<Longrightarrow> \<not> is_space (last s) \<Longrightarrow> TrimSpace s = s"
proof -
  assume a: "s \<noteq> []" "\<not> is_space (hd s)" "\<not> is_space (last s)"
  then have "dropWhile is_space s = s" by (cases s) auto
  moreover have "dropWhile is_space (rev s) = rev s"
    using a by (cases "rev s") (auto simp: last_rev [of "rev s", simplified])
  ultimately show ?thesis by (simp add: TrimSpace_def)
qed

text \<open>
  A struct type never parses back from its own name: \<open>StructType.Name\<close> quotes the field
  names with backticks, which the tokenizer turns into tokens of their own, so the parser
  reads the first backtick as the field name and fails at the missing colon.
\<close>

theorem ParseDataType_struct_name_fails:
  assumes "Name (StructType (f # fs)) = Ret s" and "ident (fst f)"
  shows "ParseDataType s = Fail (ErrMsg ''unexpected token'')"
proof -
  obtain t rest where "s = StructType_Name ((fst f, t) # rest)"
    using assms(1) by (auto simp: omap_def obind_Ret_iff)
  then obtain tl where s: "s = ''STRUCT<'' @ BQ # fst f @ BQ # tl @ ''>''"
    by (cases rest) (auto simp: StructType_Name_def QuoteRef_def)
  have trim: "TrimSpace s = s"
    by (rule TrimSpace_ends) (simp_all add: s is_space_def)
  have bq: "\<not> isIdentifierChar BQ" "\<not> is_space BQ"
    by (simp_all add: isIdentifierChar_def is_digit_def is_letter_def is_space_def less_eq_char_def)
  have "tokenize_loop s [] [] = tokenize_loop (tl @ ''>'') [] [''STRUCT'', ''<'', [BQ], fst f, [BQ]]"
    using tokenize_ident_sep [of "''STRUCT''" "CHR ''<''" _ "[]"] ident_TypeID [of STRUCT]
      tokenize_sep [OF bq] tokenize_ident_sep [OF assms(2) bq]
    by (simp add: s with_pending_def del: tokenize_loop.simps)
  then obtain more where "tokenize_loop s [] [] = [''STRUCT'', ''<'', [BQ], fst f, [BQ]] @ more"
    using tokenize_loop_extends by metis
  then have toks: "tokenize s = ''STRUCT'' # ''<'' # [BQ] # fst f # [BQ] # more"
    by (simp add: tokenize_def trim Let_def)
  have "fst f \<noteq> '':''" using assms(2)
    by (auto simp: ident_def isIdentifierChar_def is_digit_def is_letter_def less_eq_char_def)
  then have "parse (Suc (Suc k)) (at [] (tokenize s)) =
      (Fail (ErrMsg ''expect''), at [''STRUCT'', ''<'', [BQ], fst f] ([BQ] # more))" for k
    by (simp add: toks parse.simps(2) [of "Suc k"] parseStruct_def mbind_def mseq_def run_simps)
  from this [of "length (tokenize s) - 1"] show ?thesis
    using hasTokenLeft_at
    by (simp add: ParseDataType_def Let_def toks at_def hasTokenLeft_def)
qed

theorem ParseDataType_struct_name_fails_witness:
  "ParseDataType ''STRUCT<`a`:BIGINT>'' = Fail (ErrMsg ''unexpected token'')"
proof -
  have "Name (StructType [(''a'', PrimitiveType BIGINT)]) = Ret ''STRUCT<`a`:BIGINT>''"
    by (simp add: PrimitiveType_Name_def StructType_Name_def QuoteRef_def)
  moreover have "ident (fst (''a'', PrimitiveType BIGINT))"
    by (simp add: ident_def isIdentifierChar_def is_letter_def is_space_def less_eq_char_def)
  ultimately show ?thesis using ParseDataType_struct_name_fails by blast
qed

text \<open>
  The tokenizer drops an identifier at the end of its input once it has emitted a token,
  so a parameterised type followed by any identifier still parses.
\<close>

theorem ParseDataType_drops_trailing_identifier:
  assumes "printable t" and "flushed t \<noteq> []" and "Name t = Ret s" and "ident junk"
  shows "ParseDataType (s @ junk) = Ret t"
proof -
  have s: "s = name_of t" using assms Name_printable by simp
  have nospace: "\<not> is_space c" if "c \<in> set (s @ junk)" for c
    using that name_of_no_space [OF assms(1)] assms(4) s by (auto simp: ident_def list_all_iff)
  have "tokenize_loop (s @ junk @ []) [] [] = flushed t"
    using tokenize_name_of [OF assms(1), of "junk @ []" "[]"]
      tokenize_ident [OF ident_list_all [OF assms(4)], of "[]"] s
    by (simp del: tokenize_loop.simps(2))
  moreover have "TrimSpace (s @ junk) = s @ junk" using nospace by (rule TrimSpace_id)
  ultimately have toks: "tokenize (s @ junk) = all_tokens t"
    using assms(2) flushed_not_pending by (simp add: tokenize_def Let_def all_tokens_def with_pending_def)
  have "parse (Suc (length (all_tokens t))) (at [] (all_tokens t @ [])) = (Ret t, at ([] @ all_tokens t) [])"
    using assms(1) by (intro parse_all_tokens) simp_all
  then show ?thesis
    using hasTokenLeft_at [of "all_tokens t" "[]"] by (simp add: ParseDataType_def toks at_def Let_def)
qed

theorem ParseDataType_drops_trailing_identifier_witness:
  "ParseDataType ''CHAR(1)junk'' = Ret (CharType 1)"
proof -
  have "Name (CharType 1) = Ret ''CHAR(1)''"
    by (simp add: CharType_Name_def Itoa_def show_nat.simps digit_char_numerals)
  moreover have "ident ''junk''"
    by (simp add: ident_def isIdentifierChar_def is_letter_def is_space_def less_eq_char_def)
  ultimately show ?thesis
    using ParseDataType_drops_trailing_identifier [of "CharType 1" "''CHAR(1)''" "''junk''"] by simp
qed

end
