(* ===== verification/GoData.thy ===== *)
theory GoData
  imports TypeParser
begin

section \<open>The package \<open>odps/data\<close>: values and containers\<close>

text \<open>
  Models the values of \<open>odps/data\<close> (\<open>primitive.go\<close>, \<open>char.go\<close>, \<open>decimal.go\<close>,
  \<open>interval_time.go\<close>, \<open>array.go\<close>, \<open>map.go\<close>, \<open>struct.go\<close>, \<open>record.go\<close>,
  \<open>data_conversion.go\<close>).
  \<^item> \<open>Data\<close> is the interface with its implementations as constructors; a nil interface value
    is \<open>None\<close> of \<open>Data option\<close>. A value and a non-nil pointer to it are the same constructor.
  \<^item> Floats are their IEEE bits. A \<open>time.Time\<close> is its Unix second and its nanosecond within
    the second; the location only matters for formatting, which is not modelled.
  \<^item> A Go map is the association list of its entries in iteration order, which is arbitrary;
    keys compare as Go's \<open>==\<close> does (\<open>go_key_eq\<close>), and a key of slice type panics.
    Values that the constructors hand out as pointers compare by identity; a key of such a
    kind counts as a new one.
  \<^item> The element types of \<open>Array\<close> and \<open>Map\<close> are \<open>NilType\<close> until they are set, and a nil
    slice of struct fields is the empty list.
\<close>

datatype gotime = GoTime (t_unix: int) (t_nsec: int)

text \<open>
  \<open>time.Unix(sec, nsec)\<close> normalises the nanoseconds into one second; seconds are 64 bits and
  wrap around.
\<close>

definition time_Unix :: "int \<Rightarrow> int \<Rightarrow> gotime" where
  "time_Unix sec nsec =
     GoTime (sint (word_of_int (sec + nsec div 1000000000) :: i64)) (nsec mod 1000000000)"

lemma sint_word_i64: "- (2 ^ 63) \<le> i \<Longrightarrow> i < 2 ^ 63 \<Longrightarrow> sint (word_of_int i :: i64) = i"
  by (simp add: int_word_sint)

record decimal =
  dec_precision :: int
  dec_scale :: int
  dec_value :: string
  dec_Valid :: bool
  dec_intValue :: "int option"

datatype Data =
    DNull
  | DBool bool
  | DTinyInt i8
  | DSmallInt i16
  | DInt i32
  | DBigInt i64
  | DFloat u32
  | DDouble u64
  | DString string
  | DChar int string
  | DVarChar int string
  | DBinary "byte list"
  | DGeography "byte list"
  | DDate gotime
  | DDateTime gotime
  | DTimestamp gotime
  | DTimestampNtz gotime
  | DIntervalDayTime i64 i32
  | DIntervalYearMonth i32
  | DDecimal decimal
  | DJson string bool
  | DArray DataType "Data option list" bool
  | DMap DataType DataType "(Data option \<times> Data option) list" bool
  | DStruct "StructFieldType list" "(string \<times> Data option) list" "(string \<times> nat) list" bool

fun Type :: "Data \<Rightarrow> DataType" where
  "Type DNull = PrimitiveType NULL"
| "Type (DBool b) = PrimitiveType BOOLEAN"
| "Type (DTinyInt i) = PrimitiveType TINYINT"
| "Type (DSmallInt i) = PrimitiveType SMALLINT"
| "Type (DInt i) = PrimitiveType INTID"
| "Type (DBigInt i) = PrimitiveType BIGINT"
| "Type (DFloat f) = PrimitiveType FLOAT"
| "Type (DDouble d) = PrimitiveType DOUBLE"
| "Type (DString s) = PrimitiveType STRING"
| "Type (DChar n s) = CharType n"
| "Type (DVarChar n s) = VarcharType n"
| "Type (DBinary b) = PrimitiveType BINARY"
| "Type (DGeography g) = PrimitiveType GEOGRAPHY"
| "Type (DDate t) = PrimitiveType DATE"
| "Type (DDateTime t) = PrimitiveType DATETIME"
| "Type (DTimestamp t) = PrimitiveType TIMESTAMP"
| "Type (DTimestampNtz t) = PrimitiveType TIMESTAMP_NTZ"
| "Type (DIntervalDayTime s n) = PrimitiveType IntervalDayTime"
| "Type (DIntervalYearMonth m) = PrimitiveType IntervalYearMonth"
| "Type (DDecimal d) = DecimalType (word_of_int (dec_precision d)) (word_of_int (dec_scale d))"
| "Type (DJson s v) = JsonType"
| "Type (DArray e xs v) = ArrayType e"
| "Type (DMap k w kvs v) = MapType k w"
| "Type (DStruct ts fs ix v) = StructType ts"

text \<open>\<open>x.Type()\<close> on an interface value, which panics when it is nil.\<close>

fun Type_of :: "Data option \<Rightarrow> DataType outcome" where
  "Type_of None = Panic NilDereference"
| "Type_of (Some d) = Ret (Type d)"

subsection \<open>Char, VarChar\<close>

definition NewChar :: "int \<Rightarrow> string \<Rightarrow> Data outcome" where
  "NewChar len s =
     (if len > 255 then Fail (ErrMsg ''max length of char is 255'')
      else if int (length s) > len then Fail (ErrMsg ''string length bigger than the max length'')
      else Ret (DChar len s))"

text \<open>\<open>MakeChar\<close> returns the zero \<open>Char{}\<close> beside its error; callers may use it.\<close>

definition MakeChar :: "int \<Rightarrow> string \<Rightarrow> Data \<times> goerr option" where
  "MakeChar len s =
     (if len > 255 then (DChar 0 [], Some (ErrMsg ''max length of char is 255''))
      else if int (length s) > len
        then (DChar 0 [], Some (ErrMsg ''string length bigger than the max length''))
      else (DChar len s, None))"

definition NewVarChar :: "int \<Rightarrow> string \<Rightarrow> Data outcome" where
  "NewVarChar len s =
     (if len > 65536 then Fail (ErrMsg ''max length of char is 65536'')
      else if int (length s) > len then Fail (ErrMsg ''string length bigger than the max length'')
      else Ret (DVarChar len s))"

definition MakeVarChar :: "int \<Rightarrow> string \<Rightarrow> Data \<times> goerr option" where
  "MakeVarChar len s =
     (if len > 65536 then (DVarChar 0 [], Some (ErrMsg ''max length of char is 65536''))
      else if int (length s) > len
        then (DVarChar 0 [], Some (ErrMsg ''string length bigger than the max length''))
      else (DVarChar len s, None))"

subsection \<open>Decimal\<close>

definition parseFromValue :: string where
  "parseFromValue = ''__ParseFromValue__''"

definition NewDecimal :: "int \<Rightarrow> int \<Rightarrow> string \<Rightarrow> decimal" where
  "NewDecimal precision scale v =
     \<lparr>dec_precision = precision, dec_scale = scale, dec_value = v, dec_Valid = True, dec_intValue = None\<rparr>"

definition NewDecimalFromValue :: "int \<Rightarrow> int \<Rightarrow> int \<Rightarrow> decimal" where
  "NewDecimalFromValue precision scale intValue =
     \<lparr>dec_precision = precision, dec_scale = scale, dec_value = parseFromValue, dec_Valid = True,
      dec_intValue = Some intValue\<rparr>"

definition DecimalFromStr :: "string \<Rightarrow> decimal outcome" where
  "DecimalFromStr v =
     (let parts = Split CHR ''.'' v in
      if length parts > 3 then Fail (ErrMsg ''invalid decimal'')
      else case ParseInt 32 (hd parts) of
          Ret _ \<Rightarrow>
            (let precision = int (length (hd parts)) in
             if precision > 38 then Fail (ErrMsg ''integer is too big'')
             else
               (let frac = (if length parts = 2
                   then (case ParseInt 32 (parts ! 1) of
                           Ret _ \<Rightarrow> Ret (int (length (parts ! 1)))
                         | _ \<Rightarrow> Fail (ErrMsg ''invalid decimal''))
                   else Ret 0)
                in obind frac (\<lambda>scale.
                  if scale > 38 then Fail (ErrMsg ''fractional is too long'')
                  else Ret (NewDecimal precision scale v))))
        | _ \<Rightarrow> Fail (ErrMsg ''invalid decimal''))"

text \<open>\<open>fmt.Sprintf("%0*s", width, s)\<close> pads on the left with zeros.\<close>

definition pad_zeros :: "nat \<Rightarrow> string \<Rightarrow> string" where
  "pad_zeros width s = replicate (width - length s) CHR ''0'' @ s"

definition Decimal_String :: "decimal \<Rightarrow> string outcome" where
  "Decimal_String d =
     (if dec_value d = parseFromValue then
        (case dec_intValue d of
           None \<Rightarrow> Ret ''<nil>''
         | Some i \<Rightarrow>
             (let valueStr = Itoa i; sc = nat (dec_scale d) in
              Ret (if dec_scale d > 0 then
                     (if int (length valueStr) \<le> dec_scale d then ''0.'' @ pad_zeros sc valueStr
                      else take (length valueStr - sc) valueStr @ ''.'' @ drop (length valueStr - sc) valueStr)
                   else valueStr)))
      else Ret (dec_value d))"

definition Decimal_Sql :: "decimal \<Rightarrow> string outcome" where
  "Decimal_Sql d = omap (\<lambda>s. s @ ''BD'') (Decimal_String d)"

subsection \<open>Intervals\<close>

text \<open>Go's \<open>/\<close> and \<open>%\<close> on signed integers truncate towards zero: \<open>sdiv\<close> and \<open>smod\<close> on \<open>int\<close>.\<close>

definition NewIntervalDayTime :: "i64 \<Rightarrow> i32 \<Rightarrow> Data outcome" where
  "NewIntervalDayTime totalSeconds nanos =
     (if sint nanos > 0 then
        (let total = totalSeconds + word_of_int (sint nanos sdiv 1000000000);
             d = sint nanos smod 1000000000
         in if d = 0 then Panic DivideByZero
            else Ret (DIntervalDayTime total (word_of_int (sint nanos smod d))))
      else Ret (DIntervalDayTime totalSeconds nanos))"

definition Days :: "i64 \<Rightarrow> i32" where
  "Days totalSeconds = word_of_int (sint totalSeconds sdiv (24 * 3600))"

definition Hours :: "i64 \<Rightarrow> i32" where
  "Hours totalSeconds = word_of_int (sint totalSeconds sdiv 3600)"

definition Minutes :: "i64 \<Rightarrow> i32" where
  "Minutes totalSeconds = word_of_int (sint totalSeconds sdiv 60)"

definition SecondsFraction :: "i64 \<Rightarrow> i32" where
  "SecondsFraction totalSeconds = word_of_int (sint totalSeconds smod (24 * 3600))"

definition MillisecondsFraction :: "i64 \<Rightarrow> i32 \<Rightarrow> i32" where
  "MillisecondsFraction totalSeconds nanos =
     word_of_int (sint totalSeconds smod (24 * 3600)) * 1000 + word_of_int (sint nanos sdiv 1000000)"

definition IntervalDayTime_String :: "i64 \<Rightarrow> i32 \<Rightarrow> string" where
  "IntervalDayTime_String totalSeconds nanos =
     Itoa (sint (Days totalSeconds)) @ '' days, '' @
     Itoa (sint (MillisecondsFraction totalSeconds nanos)) @ '' ms''"

end
