(* ===== verification/Containers.thy ===== *)
theory Containers
  imports GoData
begin

section \<open>Containers of \<open>odps/data\<close>: conversion, Array, Map, Struct and Record\<close>

text \<open>
  Models \<open>data_conversion.go\<close>, \<open>array.go\<close>, \<open>map.go\<close>, \<open>struct.go\<close> and \<open>record.go\<close> of
  \<open>odps/data\<close>.
  \<^item> A Go value handed to the conversion is a \<open>goval\<close>, what \<open>reflect\<close> shows of it. The
    unnamed basic types only; \<open>GStruct\<close> lists a struct's fields as (tag \<open>odps\<close>, name, value).
  \<^item> The methods of a container are stateful calls on the receiver, a \<open>Data\<close> of the matching
    constructor. Go's types leave no other receiver, so the catch-all equations are never
    reached from Go; they panic.
\<close>

subsection \<open>Go values and maps\<close>

datatype goval =
    GNil
  | GData Data
  | GBytes "byte list"
  | GBool bool
  | GInt8 i8
  | GInt16 i16
  | GInt i64
  | GInt32 i32
  | GInt64 i64
  | GFloat32 u32
  | GFloat64 u64
  | GString string
  | GSlice "goval list"
  | GMap "(goval \<times> goval) list"
  | GStruct "(string \<times> string \<times> goval) list"
  | GPtr goval
  | GOther string

fun hashable :: "Data option \<Rightarrow> bool" where
  "hashable (Some (DBinary b)) = False"
| "hashable (Some (DGeography b)) = False"
| "hashable _ = True"

definition nan32 :: "u32 \<Rightarrow> bool" where
  "nan32 w \<longleftrightarrow> w AND 0x7F800000 = 0x7F800000 \<and> w AND 0x7FFFFF \<noteq> 0"

definition nan64 :: "u64 \<Rightarrow> bool" where
  "nan64 w \<longleftrightarrow> w AND 0x7FF0000000000000 = 0x7FF0000000000000 \<and> w AND 0xFFFFFFFFFFFFF \<noteq> 0"

text \<open>Go's \<open>==\<close> on two interface values that are not slices: pointer kinds compare by identity.\<close>

definition go_key_eq :: "Data option \<Rightarrow> Data option \<Rightarrow> bool" where
  "go_key_eq j k =
     (case j of
        Some (DFloat a) \<Rightarrow>
          (case k of Some (DFloat b) \<Rightarrow>
             \<not> nan32 a \<and> \<not> nan32 b \<and> (a = b \<or> push_bit 1 a = 0 \<and> push_bit 1 b = 0)
           | _ \<Rightarrow> False)
      | Some (DDouble a) \<Rightarrow>
          (case k of Some (DDouble b) \<Rightarrow>
             \<not> nan64 a \<and> \<not> nan64 b \<and> (a = b \<or> push_bit 1 a = 0 \<and> push_bit 1 b = 0)
           | _ \<Rightarrow> False)
      | Some (DDecimal a) \<Rightarrow> False
      | Some (DJson s v) \<Rightarrow> False
      | Some (DArray e xs v) \<Rightarrow> False
      | Some (DMap kt vt kvs v) \<Rightarrow> False
      | Some (DStruct ts fs ix v) \<Rightarrow> False
      | _ \<Rightarrow> j = k)"

fun map_assign :: "Data option \<Rightarrow> Data option \<Rightarrow> (Data option \<times> Data option) list \<Rightarrow>
    (Data option \<times> Data option) list" where
  "map_assign k v [] = [(k, v)]"
| "map_assign k v ((k', v') # kvs) =
     (if go_key_eq k k' then (k', v) # kvs else (k', v') # map_assign k v kvs)"

text \<open>\<open>m[k] = v\<close> and \<open>m[k]\<close>; the order of the list stands for the order of iteration.\<close>

definition map_put :: "Data option \<Rightarrow> Data option \<Rightarrow> (Data option \<times> Data option) list \<Rightarrow>
    (Data option \<times> Data option) list outcome" where
  "map_put k v kvs = (if hashable k then Ret (map_assign k v kvs) else Panic UnhashableKey)"

fun map_get :: "Data option \<Rightarrow> (Data option \<times> Data option) list \<Rightarrow> Data option option" where
  "map_get k [] = None"
| "map_get k ((k', v) # kvs) = (if go_key_eq k k' then Some v else map_get k kvs)"

subsection \<open>Structs\<close>

definition NewStruct :: Data where
  "NewStruct = DStruct [] [] [] False"

definition NewStructWithTyp :: "StructFieldType list \<Rightarrow> Data" where
  "NewStructWithTyp ts = DStruct ts [] [] True"

fun GetField :: "Data \<Rightarrow> string \<Rightarrow> Data option outcome" where
  "GetField (DStruct ts fs ix v) n =
     (case map_of ix n of
        None \<Rightarrow> Ret None
      | Some i \<Rightarrow> if i < length fs then Ret (snd (fs ! i)) else Panic IndexOutOfRange)"
| "GetField _ n = Panic TypeAssertion"

text \<open>\<open>SetField\<close> after its argument has been converted to \<open>d\<close>.\<close>

fun SetField_data :: "string \<Rightarrow> Data option \<Rightarrow> (Data, unit) M" where
  "SetField_data n d (DStruct ts fs ix v) =
     (case map_of ix n of
        None \<Rightarrow> (Ret (), DStruct ts (fs @ [(n, d)]) (AList.update n (length fs) ix) v)
      | Some i \<Rightarrow>
          if i < length fs then (Ret (), DStruct ts (fs[i := (n, d)]) ix v)
          else (Panic IndexOutOfRange, DStruct ts fs ix v))"
| "SetField_data n d s = (Panic TypeAssertion, s)"

subsection \<open>Maps\<close>

definition NewMap :: Data where
  "NewMap = DMap NilType NilType [] False"

definition NewMapWithType :: "DataType \<Rightarrow> DataType \<Rightarrow> Data" where
  "NewMapWithType kt vt = DMap kt vt [] True"

text \<open>\<open>Set\<close> after its arguments have been converted.\<close>

fun Map_Set_data :: "Data option \<Rightarrow> Data option \<Rightarrow> (Data, unit) M" where
  "Map_Set_data k x (DMap kt vt kvs v) =
     (case map_put k x kvs of
        Ret kvs' \<Rightarrow> (Ret (), DMap kt vt kvs' v)
      | Fail e \<Rightarrow> (Fail e, DMap kt vt kvs v)
      | Panic p \<Rightarrow> (Panic p, DMap kt vt kvs v))"
| "Map_Set_data k x m = (Panic TypeAssertion, m)"

subsection \<open>Conversion of Go values\<close>

definition final_state :: "(Data, unit) M \<Rightarrow> Data \<Rightarrow> Data outcome" where
  "final_state m s = (case m s of (r, s') \<Rightarrow> omap (\<lambda>_. s') r)"

fun ofold :: "('a \<Rightarrow> 's \<Rightarrow> 's outcome) \<Rightarrow> 'a list \<Rightarrow> 's \<Rightarrow> 's outcome" where
  "ofold f [] s = Ret s"
| "ofold f (x # xs) s = obind (f x s) (ofold f xs)"

lemma ofold_cong [fundef_cong]:
  "xs = ys \<Longrightarrow> (\<And>x t. x \<in> set ys \<Longrightarrow> f x t = g x t) \<Longrightarrow> s = s' \<Longrightarrow> ofold f xs s = ofold g ys s'"
proof (induction ys arbitrary: xs s s')
  case (Cons y ys)
  then show ?case by (auto intro: obind_cong)
qed auto

lemma ofold_invariant:
  assumes "ofold f xs s = Ret s'" and "P s"
    and "\<And>x t t'. x \<in> set xs \<Longrightarrow> P t \<Longrightarrow> f x t = Ret t' \<Longrightarrow> P t'"
  shows "P s'"
  using assms by (induction xs arbitrary: s) (auto simp: obind_Ret_iff)

text \<open>
  \<open>TryConvertGoToOdpsData\<close> and \<open>tryConvertGoToOdpsData\<close>, which the first calls on the value
  with one pointer removed. The methods \<open>Append\<close>, \<open>Set\<close> and \<open>SetField\<close> that the second
  calls get values that are \<open>Data\<close> already and leave them as they are; their panics pass.
\<close>

lemma goval_elem_less: "v \<in> set vs \<Longrightarrow> size v \<le> size_list size vs"
  by (induction vs) auto

lemma goval_pair_less:
  "(k, x) \<in> set kvs \<Longrightarrow> size k \<le> size_list (size_prod size size) kvs"
  "(k, x) \<in> set kvs \<Longrightarrow> size x \<le> size_list (size_prod size size) kvs"
  by (induction kvs) auto

lemma goval_field_less:
  "(t, n, v) \<in> set fs \<Longrightarrow> size v \<le> size_list (size_prod (\<lambda>_. 0) (size_prod (\<lambda>_. 0) size)) fs"
  by (induction fs) auto

function (sequential) TryConvertGoToOdpsData :: "goval \<Rightarrow> Data option outcome"
  and tryConvertGoToOdpsData :: "goval \<Rightarrow> Data option outcome" where
  "TryConvertGoToOdpsData GNil = Ret None"
| "TryConvertGoToOdpsData (GData d) = Ret (Some d)"
| "TryConvertGoToOdpsData (GPtr (GData d)) = Ret (Some d)"
| "TryConvertGoToOdpsData (GBytes b) = Ret (Some (DBinary b))"
| "TryConvertGoToOdpsData (GPtr v) = tryConvertGoToOdpsData v"
| "TryConvertGoToOdpsData v = tryConvertGoToOdpsData v"
| "tryConvertGoToOdpsData (GBool b) = Ret (Some (DBool b))"
| "tryConvertGoToOdpsData (GInt8 i) = Ret (Some (DTinyInt i))"
| "tryConvertGoToOdpsData (GInt i) = Ret (Some (DInt (ucast i)))"
| "tryConvertGoToOdpsData (GInt32 i) = Ret (Some (DInt i))"
| "tryConvertGoToOdpsData (GInt16 i) = Ret (Some (DSmallInt i))"
| "tryConvertGoToOdpsData (GInt64 i) = Ret (Some (DBigInt i))"
| "tryConvertGoToOdpsData (GFloat32 f) = Ret (Some (DFloat f))"
| "tryConvertGoToOdpsData (GFloat64 f) = Ret (Some (DDouble f))"
| "tryConvertGoToOdpsData (GString s) = Ret (Some (DString s))"
| "tryConvertGoToOdpsData (GSlice vs) =
     obind (omap_list TryConvertGoToOdpsData vs) (\<lambda>ds. Ret (Some (DArray NilType ds False)))"
| "tryConvertGoToOdpsData (GBytes bs) =
     (if bs = [] then Ret (Some (DArray NilType [] False))
      else Fail (ErrMsg ''Cannot convert data of type uint8 to odps data''))"
| "tryConvertGoToOdpsData (GMap kvs) =
     omap Some (ofold (\<lambda>kv m. obind (TryConvertGoToOdpsData (fst kv)) (\<lambda>k.
                 obind (TryConvertGoToOdpsData (snd kv)) (\<lambda>x.
                 final_state (Map_Set_data k x) m))) kvs NewMap)"
| "tryConvertGoToOdpsData (GStruct fs) =
     omap Some (ofold (\<lambda>f s. obind (TryConvertGoToOdpsData (snd (snd f))) (\<lambda>d.
                 final_state (SetField_data (if fst f = [] then fst (snd f) else fst f) d) s))
       fs NewStruct)"
| "tryConvertGoToOdpsData (GOther n) =
     Fail (ErrMsg (''Cannot convert data of type '' @ n @ '' to odps data''))"
| "tryConvertGoToOdpsData (GPtr v) = Fail (ErrMsg ''Cannot convert data of type  to odps data'')"
| "tryConvertGoToOdpsData GNil = Panic NilDereference"
| "tryConvertGoToOdpsData (GData d) = Ret (Some d)"
  by pat_completeness auto
termination
  by (relation "measure (\<lambda>c. case c of Inl v \<Rightarrow> 2 * size v + 1 | Inr v \<Rightarrow> 2 * size v)")
    (auto simp: less_Suc_eq_le goval_elem_less goval_pair_less goval_field_less)

definition SetField :: "string \<Rightarrow> goval \<Rightarrow> (Data, unit) M" where
  "SetField n a = mbind (mlift (TryConvertGoToOdpsData a)) (SetField_data n)"

text \<open>The messages of formatted errors are cut down to their fixed part.\<close>

fun SafeSetField :: "string \<Rightarrow> goval \<Rightarrow> (Data, unit) M" where
  "SafeSetField n a (DStruct ts fs ix v) =
     (let s = DStruct ts fs ix v in
      if ts = [] then (Fail (ErrMsg ''type of Struct has not be set''), s)
      else (case TryConvertGoToOdpsData a of
          Fail e \<Rightarrow> (Fail e, s)
        | Panic p \<Rightarrow> (Panic p, s)
        | Ret d \<Rightarrow>
            (let fieldType = FieldType ts n in
             if fieldType = NilType then (Fail (ErrMsg ''cannot set''), s)
             else (case Type_of d of
                 Ret t \<Rightarrow>
                   (if \<not> IsTypeEqual fieldType t then (Fail (ErrMsg ''cannot set type''), s)
                    else SetField_data n d s)
               | Fail e \<Rightarrow> (Fail e, s)
               | Panic p \<Rightarrow> (Panic p, s)))))"
| "SafeSetField n a s = (Panic TypeAssertion, s)"

fun Struct_TypeInfer :: "Data \<Rightarrow> DataType outcome" where
  "Struct_TypeInfer (DStruct ts fs ix v) =
     (if fs = [] then Fail (ErrMsg ''cannot infer type for empty struct'')
      else omap StructType (omap_list (\<lambda>f. omap (Pair (fst f)) (Type_of (snd f))) fs))"
| "Struct_TypeInfer _ = Panic TypeAssertion"

subsection \<open>Map methods\<close>

definition Map_Set :: "goval \<Rightarrow> goval \<Rightarrow> (Data, unit) M" where
  "Map_Set keyI valueI =
     mbind (mlift (TryConvertGoToOdpsData keyI)) (\<lambda>key.
       if valueI \<noteq> GNil then mbind (mlift (TryConvertGoToOdpsData valueI)) (Map_Set_data key)
       else Map_Set_data key None)"

fun Map_SafeSet :: "Data option \<Rightarrow> Data option \<Rightarrow> (Data, unit) M" where
  "Map_SafeSet key x (DMap kt vt kvs v) =
     (let m = DMap kt vt kvs v in
      if kt = NilType \<or> vt = NilType
      then (Fail (ErrMsg ''element type of Map has not be set''), m)
      else (case Type_of key of
          Ret tk \<Rightarrow>
            (if \<not> IsTypeEqual tk kt then (Fail (ErrMsg ''fail to set key of type''), m)
             else (case Type_of x of
                 Ret tx \<Rightarrow>
                   (if \<not> IsTypeEqual tx vt then (Fail (ErrMsg ''fail to set key of type''), m)
                    else Map_Set_data key x m)
               | Fail e \<Rightarrow> (Fail e, m)
               | Panic p \<Rightarrow> (Panic p, m)))
        | Fail e \<Rightarrow> (Fail e, m)
        | Panic p \<Rightarrow> (Panic p, m)))"
| "Map_SafeSet key x m = (Panic TypeAssertion, m)"

text \<open>The loop of \<open>TypeInfer\<close> with its variables \<open>i\<close>, \<open>keyT\<close> and \<open>valueT\<close>.\<close>

fun Map_TypeInfer_loop :: "int \<Rightarrow> DataType \<Rightarrow> DataType \<Rightarrow> (Data option \<times> Data option) list \<Rightarrow>
    DataType outcome" where
  "Map_TypeInfer_loop i keyT valueT [] = Ret (MapType keyT valueT)"
| "Map_TypeInfer_loop i keyT valueT ((key, x) # kvs) =
     (if i = 0 then
        obind (Type_of key) (\<lambda>tk. obind (Type_of x) (\<lambda>tx. Map_TypeInfer_loop i tk tx kvs))
      else
        obind (Type_of key) (\<lambda>tk.
          if \<not> IsTypeEqual keyT tk then Fail (ErrMsg ''key type is not the same in array'')
          else obind (Type_of x) (\<lambda>tx.
            if \<not> IsTypeEqual valueT tx then Fail (ErrMsg ''value type is not the same in array'')
            else Map_TypeInfer_loop (i + 1) keyT valueT kvs)))"

fun Map_TypeInfer :: "Data \<Rightarrow> DataType outcome" where
  "Map_TypeInfer (DMap kt vt kvs v) =
     (if kvs = [] then Fail (ErrMsg ''cannot infer type for empty map'')
      else Map_TypeInfer_loop 0 NilType NilType kvs)"
| "Map_TypeInfer _ = Panic TypeAssertion"

subsection \<open>Array methods\<close>

definition NewArray :: Data where
  "NewArray = DArray NilType [] False"

definition NewArrayWithType :: "DataType \<Rightarrow> Data" where
  "NewArrayWithType e = DArray e [] True"

fun Array_SetType :: "DataType \<Rightarrow> Data \<Rightarrow> Data" where
  "Array_SetType e (DArray e' xs v) = DArray e xs v"
| "Array_SetType e a = a"

fun UnSafeAppend :: "Data option list \<Rightarrow> Data \<Rightarrow> Data" where
  "UnSafeAppend ds (DArray e xs v) = DArray e (xs @ ds) v"
| "UnSafeAppend ds a = a"

fun Array_Append :: "goval list \<Rightarrow> (Data, unit) M" where
  "Array_Append [] a = (Ret (), a)"
| "Array_Append (g # gs) a =
     (case TryConvertGoToOdpsData g of
        Ret o' \<Rightarrow> Array_Append gs (UnSafeAppend [o'] a)
      | Fail e \<Rightarrow> (Fail e, a)
      | Panic p \<Rightarrow> (Panic p, a))"

fun SafeAppend_loop :: "DataType \<Rightarrow> goval list \<Rightarrow> (Data, unit) M" where
  "SafeAppend_loop et [] a = (Ret (), a)"
| "SafeAppend_loop et (g # gs) a =
     (case TryConvertGoToOdpsData g of
        Fail e \<Rightarrow> (Fail e, a)
      | Panic p \<Rightarrow> (Panic p, a)
      | Ret o' \<Rightarrow>
          (case Type_of o' of
             Fail e \<Rightarrow> (Fail e, a)
           | Panic p \<Rightarrow> (Panic p, a)
           | Ret t \<Rightarrow>
               if \<not> IsTypeEqual t et then (Fail (ErrMsg ''expect element type for array''), a)
               else SafeAppend_loop et gs (UnSafeAppend [o'] a)))"

fun SafeAppend :: "goval list \<Rightarrow> (Data, unit) M" where
  "SafeAppend gs (DArray et xs v) =
     (if et = NilType then (Fail (ErrMsg ''element type of Array has not be set''), DArray et xs v)
      else SafeAppend_loop et gs (DArray et xs v))"
| "SafeAppend gs a = (Panic TypeAssertion, a)"

fun ToSlice :: "Data \<Rightarrow> Data option list" where
  "ToSlice (DArray e xs v) = xs"
| "ToSlice _ = []"

definition Array_Len :: "Data \<Rightarrow> nat" where
  "Array_Len a = length (ToSlice a)"

definition Array_Index :: "Data \<Rightarrow> int \<Rightarrow> Data option outcome" where
  "Array_Index a i =
     (if 0 \<le> i \<and> nat i < length (ToSlice a) then Ret (ToSlice a ! nat i) else Panic IndexOutOfRange)"

fun Array_TypeInfer_loop :: "DataType \<Rightarrow> Data option list \<Rightarrow> DataType outcome" where
  "Array_TypeInfer_loop et [] = Ret (ArrayType et)"
| "Array_TypeInfer_loop et (e # es) =
     obind (Type_of e) (\<lambda>t.
       if \<not> IsTypeEqual t et then Fail (ErrMsg ''element type is not the same in array'')
       else Array_TypeInfer_loop et es)"

definition Array_TypeInfer :: "Data \<Rightarrow> DataType outcome" where
  "Array_TypeInfer a =
     (case ToSlice a of
        [] \<Rightarrow> Fail (ErrMsg ''cannot infer type for empty array'')
      | x # xs \<Rightarrow> obind (Type_of x) (\<lambda>et. Array_TypeInfer_loop et xs))"

definition ArrayFromSlice :: "goval list \<Rightarrow> Data outcome" where
  "ArrayFromSlice gs = final_state (Array_Append gs) NewArray"

subsection \<open>Record\<close>

type_synonym Record = "Data option list"

definition NewRecord :: "nat \<Rightarrow> Record" where
  "NewRecord columnNums = replicate columnNums None"

definition Record_Len :: "Record \<Rightarrow> nat" where
  "Record_Len r = length r"

definition Record_Get :: "Record \<Rightarrow> int \<Rightarrow> Data option outcome" where
  "Record_Get r i = (if 0 \<le> i \<and> nat i < length r then Ret (r ! nat i) else Panic IndexOutOfRange)"

subsection \<open>Properties\<close>

text \<open>
  The index of a struct names each field once, at its position.
\<close>

fun struct_wf :: "Data \<Rightarrow> bool" where
  "struct_wf (DStruct ts fs ix v) \<longleftrightarrow>
     distinct (map fst fs) \<and> (\<forall>n. map_of ix n = map_of (zip (map fst fs) [0..<length fs]) n)"
| "struct_wf _ \<longleftrightarrow> False"

fun field_names :: "Data \<Rightarrow> string list" where
  "field_names (DStruct ts fs ix v) = map fst fs"
| "field_names _ = []"

lemma map_of_index:
  "distinct ns \<Longrightarrow> i < length ns \<Longrightarrow> map_of (zip ns [0..<length ns]) (ns ! i) = Some i"
  by (subst map_of_zip_nth) auto

lemma map_of_index_None:
  "map_of (zip ns [0..<length ns]) n = None \<longleftrightarrow> n \<notin> set ns"
  by (simp add: map_of_zip_is_None)

lemma map_of_index_Some:
  assumes "map_of (zip ns [0..<length ns]) n = Some i"
  shows "i < length ns \<and> ns ! i = n"
  using map_of_SomeD [OF assms] by (auto simp: in_set_zip)

lemma struct_wf_New [simp]: "struct_wf NewStruct" "struct_wf (NewStructWithTyp ts)"
  by (simp_all add: NewStruct_def NewStructWithTyp_def)

lemma index_snoc:
  assumes "distinct (ns @ [n])"
  shows "map_of (zip (ns @ [n]) [0..<length (ns @ [n])]) m =
         ((map_of (zip ns [0..<length ns]))(n \<mapsto> length ns)) m"
proof (cases "m = n")
  case True
  have "map_of (zip ns [0..<length ns]) n = None"
    using assms map_of_index_None [of ns n] by simp
  then have "map_of (zip ns [0..<length ns] @ zip [n] [length ns]) n = Some (length ns)"
    by (subst map_of_append) (simp only: map_add_def option.case map_of.simps zip_Cons_Cons zip_Nil fst_conv snd_conv fun_upd_same)
  with True show ?thesis by simp
next
  case False
  then show ?thesis
    by (simp add: map_add_def split: option.splits) (metis map_of_index_None)
qed

lemma GetField_nth:
  assumes "struct_wf (DStruct ts fs ix v)" and "i < length fs"
  shows "GetField (DStruct ts fs ix v) (fst (fs ! i)) = Ret (snd (fs ! i))"
  using assms map_of_index [of "map fst fs" i] by simp

lemma GetField_map_of:
  assumes "struct_wf (DStruct ts fs ix v)"
  shows "GetField (DStruct ts fs ix v) n =
           Ret (case map_of fs n of None \<Rightarrow> None | Some d \<Rightarrow> d)"
proof (cases "n \<in> fst ` set fs")
  case False
  then have "map_of ix n = None" using assms map_of_index_None [of "map fst fs" n] by simp
  moreover have "map_of fs n = None" using False by (simp add: map_of_eq_None_iff)
  ultimately show ?thesis by simp
next
  case True
  then obtain i where i: "i < length fs" "fst (fs ! i) = n" by (auto simp: in_set_conv_nth)
  then have "map_of fs n = Some (snd (fs ! i))"
    using assms by (metis map_of_eq_Some_iff nth_mem prod.collapse struct_wf.simps(1))
  then show ?thesis using GetField_nth [OF assms i(1)] i(2) by simp
qed

lemma SetField_data_struct:
  assumes "struct_wf s"
  shows "\<exists>s'. SetField_data n d s = (Ret (), s') \<and> struct_wf s' \<and>
           (\<forall>m. GetField s' m = (if m = n then Ret d else GetField s m)) \<and>
           field_names s' = (if n \<in> set (field_names s) then field_names s else field_names s @ [n])"
proof -
  obtain ts fs ix v where s: "s = DStruct ts fs ix v"
    using assms by (cases s) auto
  have d: "distinct (map fst fs)"
    and ix: "\<And>m. map_of ix m = map_of (zip (map fst fs) [0..<length fs]) m"
    using assms s by simp_all
  show ?thesis
  proof (cases "map_of ix n")
    case None
    then have n: "n \<notin> set (map fst fs)" using ix [of n] map_of_index_None [of "map fst fs" n] by simp
    let ?fs = "fs @ [(n, d)]" and ?ix = "AList.update n (length fs) ix"
    have wf: "struct_wf (DStruct ts ?fs ?ix v)"
      using d n index_snoc [of "map fst fs" n] ix by (auto simp: update_conv')
    have "GetField (DStruct ts ?fs ?ix v) m = (if m = n then Ret d else GetField s m)" for m
    proof -
      have "map_of fs n = None" using n by (simp add: map_of_eq_None_iff)
      then have "map_of ?fs m = (if m = n then Some d else map_of fs m)"
        by (auto simp: map_add_def split: option.splits)
      then show ?thesis
        using GetField_map_of [OF wf, of m] GetField_map_of [OF assms [unfolded s], of m]
        unfolding s by (simp del: GetField.simps)
    qed
    then show ?thesis using None wf n s by auto
  next
    case (Some i)
    then have i: "i < length fs" "fst (fs ! i) = n"
      using map_of_index_Some [of "map fst fs" n i] ix [of n] by auto
    let ?fs = "fs[i := (n, d)]"
    have names: "map fst ?fs = map fst fs" using i by (simp add: map_update list_update_same_conv)
    then have wf: "struct_wf (DStruct ts ?fs ix v)" using d ix by simp
    have "GetField (DStruct ts ?fs ix v) m = (if m = n then Ret d else GetField s m)" for m
    proof (cases "m \<in> set (map fst fs)")
      case True
      then obtain j where j: "j < length fs" "fst (fs ! j) = m" by (auto simp: in_set_conv_nth)
      have "j = i \<longleftrightarrow> m = n"
        using nth_eq_iff_index_eq [OF d, of j i] i j by auto
      have "fst (?fs ! j) = m" using names j by (metis length_list_update nth_map)
      then have "GetField (DStruct ts ?fs ix v) m = Ret (snd (?fs ! j))"
        using GetField_nth [OF wf, of j] j by (simp del: GetField.simps)
      moreover have "GetField s m = Ret (snd (fs ! j))"
        using GetField_nth [OF assms [unfolded s] j(1)] j(2) s by (simp del: GetField.simps)
      moreover have "snd (?fs ! j) = (if m = n then d else snd (fs ! j))"
        using \<open>j = i \<longleftrightarrow> m = n\<close> i(1) by (auto simp: nth_list_update)
      ultimately show ?thesis by simp
    next
      case False
      then have "map_of ix m = None" using ix [of m] map_of_index_None [of "map fst fs" m] by simp
      then show ?thesis using False i s by auto
    qed
    moreover have "n \<in> set (map fst fs)" using i by force
    ultimately show ?thesis using Some wf i names s by auto
  qed
qed

text \<open>
  Setting a field of a well-formed struct succeeds exactly when the value converts; it then
  reads back under its name, every other field keeps its value, the order of the existing
  fields is kept with a new name at the end, and the index stays well formed.
\<close>

theorem SetField_spec:
  assumes "struct_wf s" and "TryConvertGoToOdpsData a = Ret d"
  shows "\<exists>s'. SetField n a s = (Ret (), s') \<and> struct_wf s' \<and>
           (\<forall>m. GetField s' m = (if m = n then Ret d else GetField s m)) \<and>
           field_names s' = (if n \<in> set (field_names s) then field_names s else field_names s @ [n])"
  using SetField_data_struct [OF assms(1), of n d] assms(2)
  by (simp add: SetField_def mbind_Ret [of _ _ d s] mlift_run)

theorem SetField_spec_witness:
  "\<exists>s'. SetField ''a'' (GInt32 7) (DStruct [] [(''a'', None), (''b'', None)] [(''a'', 0), (''b'', 1)] False)
       = (Ret (), s') \<and> GetField s' ''a'' = Ret (Some (DInt 7)) \<and> GetField s' ''b'' = Ret None \<and>
       field_names s' = [''a'', ''b'']"
proof -
  let ?s = "DStruct [] [(''a'', None), (''b'', None)] [(''a'', 0), (''b'', 1)] False"
  have "struct_wf ?s" by (simp add: upt_rec)
  from SetField_spec [OF this, of "GInt32 7" "Some (DInt 7)" "''a''"] show ?thesis by auto
qed

lemma TryConvert_distinct_fields:
  assumes "struct_wf s" and "distinct (field_names s @ map fst nds)"
  shows "\<exists>s'. ofold (\<lambda>(n, d) s. final_state (SetField_data n d) s) nds s = Ret s' \<and> struct_wf s' \<and>
           field_names s' = field_names s @ map fst nds \<and>
           (\<forall>m. GetField s' m = (case map_of nds m of None \<Rightarrow> GetField s m | Some d \<Rightarrow> Ret d))"
  using assms
proof (induction nds arbitrary: s)
  case (Cons nd nds)
  obtain n d where nd: "nd = (n, d)" by (cases nd)
  obtain s1 where s1: "SetField_data n d s = (Ret (), s1)" "struct_wf s1"
    "\<And>m. GetField s1 m = (if m = n then Ret d else GetField s m)"
    "field_names s1 = field_names s @ [n]"
    using SetField_data_struct [OF Cons.prems(1), of n d] Cons.prems(2) nd by auto
  obtain s' where s': "ofold (\<lambda>(n, d) s. final_state (SetField_data n d) s) nds s1 = Ret s'"
    "struct_wf s'" "field_names s' = field_names s1 @ map fst nds"
    "\<And>m. GetField s' m = (case map_of nds m of None \<Rightarrow> GetField s1 m | Some d \<Rightarrow> Ret d)"
    using Cons.IH [OF s1(2)] Cons.prems(2) s1(4) nd by auto
  have "map_of nds n = None" using Cons.prems(2) nd by (simp add: map_of_eq_None_iff)
  then have "GetField s' m = (case map_of (nd # nds) m of None \<Rightarrow> GetField s m | Some d \<Rightarrow> Ret d)" for m
    using s'(4) [of m] s1(3) [of m] nd by (auto split: option.splits)
  then show ?case using s' s1 nd by (auto simp: final_state_def)
qed auto

text \<open>
  A Go struct whose fields all convert and have different effective names (the \<open>odps\<close> tag or,
  without one, the field's name) converts to a well-formed struct with those names in order,
  from which every field reads back.
\<close>

theorem TryConvert_GStruct:
  assumes "\<And>t n g. (t, n, g) \<in> set gs \<Longrightarrow> TryConvertGoToOdpsData g = Ret (c g)"
    and "distinct (map (\<lambda>(t, n, g). if t = [] then n else t) gs)"
  shows "\<exists>s. TryConvertGoToOdpsData (GStruct gs) = Ret (Some s) \<and> struct_wf s \<and>
           field_names s = map (\<lambda>(t, n, g). if t = [] then n else t) gs \<and>
           (\<forall>(t, n, g) \<in> set gs. GetField s (if t = [] then n else t) = Ret (c g))"
proof -
  let ?f = "\<lambda>f s. obind (TryConvertGoToOdpsData (snd (snd f)))
              (\<lambda>d. final_state (SetField_data (if fst f = [] then fst (snd f) else fst f) d) s)"
  let ?nds = "map (\<lambda>(t, n, g). (if t = [] then n else t, c g)) gs"
  have names: "map fst ?nds = map (\<lambda>(t, n, g). if t = [] then n else t) gs"
    by (induction gs) auto
  have fold: "ofold ?f gs s = ofold (\<lambda>(n, d) s. final_state (SetField_data n d) s) ?nds s" for s
    using assms(1)
  proof (induction gs arbitrary: s)
    case (Cons x xs)
    have IH: "ofold ?f xs t = ofold (\<lambda>(n, d) s. final_state (SetField_data n d) s)
      (map (\<lambda>(t, n, g). (if t = [] then n else t, c g)) xs) t" for t
      by (rule Cons.IH) (use Cons.prems in auto)
    have "TryConvertGoToOdpsData (snd (snd x)) = Ret (c (snd (snd x)))"
      using Cons.prems [of "fst x" "fst (snd x)" "snd (snd x)"] by simp
    then show ?case by (cases x) (auto simp: IH intro!: obind_cong)
  qed simp
  have "field_names NewStruct = []" by (simp add: NewStruct_def)
  then obtain s where s: "ofold (\<lambda>(n, d) s. final_state (SetField_data n d) s) ?nds NewStruct = Ret s"
    "struct_wf s" "field_names s = map fst ?nds"
    "\<And>m. GetField s m = (case map_of ?nds m of None \<Rightarrow> GetField NewStruct m | Some d \<Rightarrow> Ret d)"
    using TryConvert_distinct_fields [OF struct_wf_New(1), of ?nds, unfolded \<open>field_names NewStruct = []\<close> append_Nil names, OF assms(2)]
    unfolding names by blast
  have "GetField s (if t = [] then n else t) = Ret (c g)" if "(t, n, g) \<in> set gs" for t n g
  proof -
    have "(if t = [] then n else t, c g) \<in> set ?nds" using that by force
    then have "map_of ?nds (if t = [] then n else t) = Some (c g)"
      by (rule map_of_is_SomeI [rotated]) (simp only: names assms(2))
    then show ?thesis using s(4) by (simp only: option.case)
  qed
  then show ?thesis using s(1-3) names fold by auto
qed

theorem TryConvert_GStruct_witness:
  "\<exists>s. TryConvertGoToOdpsData (GStruct [(''id'', ''Id'', GInt64 9), ([], ''Name'', GString ''x'')])
        = Ret (Some s) \<and> GetField s ''id'' = Ret (Some (DBigInt 9)) \<and>
       GetField s ''Name'' = Ret (Some (DString ''x''))"
proof -
  let ?gs = "[(''id'', ''Id'', GInt64 9), ([], ''Name'', GString ''x'')]"
  let ?c = "\<lambda>g. case g of GInt64 i \<Rightarrow> Some (DBigInt i) | GString s \<Rightarrow> Some (DString s) | _ \<Rightarrow> None"
  have "TryConvertGoToOdpsData g = Ret (?c g)" if "(t, n, g) \<in> set ?gs" for t n g
    using that by auto
  from TryConvert_GStruct [of ?gs ?c, OF this] show ?thesis by force
qed

definition elem_ok :: "DataType \<Rightarrow> Data option \<Rightarrow> bool" where
  "elem_ok et x \<longleftrightarrow> (\<exists>t. Type_of x = Ret t \<and> IsTypeEqual t et)"

lemma SafeAppend_loop_array:
  "\<exists>r ys. SafeAppend_loop et gs (DArray et xs v) = (r, DArray et (xs @ ys) v) \<and>
     list_all (elem_ok et) ys \<and> (r = Ret () \<longrightarrow> omap_list TryConvertGoToOdpsData gs = Ret ys)"
proof (induction gs arbitrary: xs)
  case (Cons g gs)
  show ?case
  proof (cases "\<exists>d t. TryConvertGoToOdpsData g = Ret d \<and> Type_of d = Ret t \<and> IsTypeEqual t et")
    case True
    then obtain d t where d: "TryConvertGoToOdpsData g = Ret d" "Type_of d = Ret t" "IsTypeEqual t et"
      by blast
    obtain r ys where ys: "SafeAppend_loop et gs (DArray et (xs @ [d]) v) =
        (r, DArray et ((xs @ [d]) @ ys) v)" "list_all (elem_ok et) ys"
      "r = Ret () \<longrightarrow> omap_list TryConvertGoToOdpsData gs = Ret ys"
      using Cons.IH [of "xs @ [d]"] by blast
    moreover have "elem_ok et d" using d by (simp add: elem_ok_def)
    ultimately show ?thesis using d by (intro exI [of _ r] exI [of _ "d # ys"]) auto
  next
    case False
    then show ?thesis by (auto split: outcome.splits)
  qed
qed auto

text \<open>
  \<open>SafeAppend\<close> on an array of a known element type only ever adds elements of that type, at the
  end, also when it stops with an error half way; when it succeeds it has added the
  conversion of every argument.
\<close>

theorem SafeAppend_typed:
  assumes "et \<noteq> NilType"
  shows "\<exists>r ys. SafeAppend gs (DArray et xs v) = (r, DArray et (xs @ ys) v) \<and>
           (\<forall>y \<in> set ys. \<exists>t. Type_of y = Ret t \<and> IsTypeEqual t et) \<and>
           (r = Ret () \<longrightarrow> omap_list TryConvertGoToOdpsData gs = Ret ys)"
  using SafeAppend_loop_array [of et gs xs v] assms by (auto simp: list_all_iff elem_ok_def)

theorem SafeAppend_typed_witness:
  "\<exists>r ys. SafeAppend [GInt32 1, GString ''x''] (DArray (PrimitiveType INTID) [] True) =
       (r, DArray (PrimitiveType INTID) ys True) \<and>
     (\<forall>y \<in> set ys. \<exists>t. Type_of y = Ret t \<and> IsTypeEqual t (PrimitiveType INTID))"
  using SafeAppend_typed [of "PrimitiveType INTID" "[GInt32 1, GString ''x'']" "[]" True] by fastforce

lemma Map_TypeInfer_loop_0:
  assumes "list_all (\<lambda>(k, x). k \<noteq> None \<and> x \<noteq> None) kvs"
  shows "Map_TypeInfer_loop 0 tk tx kvs =
    Ret (if kvs = [] then MapType tk tx
         else MapType (Type (the (fst (last kvs)))) (Type (the (snd (last kvs)))))"
  using assms by (induction kvs arbitrary: tk tx) auto

text \<open>
  \<open>Map.TypeInfer\<close> never compares two entries: the loop's counter stays 0, so a non-empty map
  without nil keys or values always gets the types of the entry iterated last, also when
  the entries have different types.
\<close>

theorem Map_TypeInfer_last_entry:
  assumes "\<forall>(k, x) \<in> set (kvs @ [(Some kd, Some xd)]). k \<noteq> None \<and> x \<noteq> None"
  shows "Map_TypeInfer (DMap kt vt (kvs @ [(Some kd, Some xd)]) v) = Ret (MapType (Type kd) (Type xd))"
proof -
  have "list_all (\<lambda>(k, x). k \<noteq> None \<and> x \<noteq> None) (kvs @ [(Some kd, Some xd)])"
    using assms by (auto simp: list_all_iff)
  from Map_TypeInfer_loop_0 [OF this] show ?thesis by simp
qed

theorem Map_TypeInfer_last_entry_witness:
  "Map_TypeInfer (DMap NilType NilType
      [(Some (DInt 1), Some (DBool True)), (Some (DString ''k''), Some (DDouble 0))] False)
    = Ret (MapType (PrimitiveType STRING) (PrimitiveType DOUBLE))"
  using Map_TypeInfer_last_entry [of "[(Some (DInt 1), Some (DBool True))]" "DString ''k''" "DDouble 0"]
  by simp

lemma nonneg_quot_rem:
  assumes "0 \<le> (a::int)" "0 < b"
  shows "a sdiv b = a div b" "a smod b = a mod b"
proof -
  show "a sdiv b = a div b" using assms by (simp add: signed_divide_int_def sgn_if)
  show "a smod b = a mod b" using assms by (cases "a = 0") (simp_all add: signed_modulo_int_def sgn_if)
qed

text \<open>
  \<open>NewIntervalDayTime\<close> keeps an interval whose nanosecond count is not positive, but loses a
  positive one: below a second the fraction becomes 0 (it is reduced modulo itself), at a
  whole number of seconds the call panics with a division by zero, and in between the
  remainder is taken modulo the fraction instead of modulo a second.
\<close>

theorem NewIntervalDayTime_cases:
  "NewIntervalDayTime secs nanos =
    (let n = sint nanos in
     if n \<le> 0 then Ret (DIntervalDayTime secs nanos)
     else if n < 1000000000 then Ret (DIntervalDayTime secs 0)
     else if n mod 1000000000 = 0 then Panic DivideByZero
     else Ret (DIntervalDayTime (secs + word_of_int (n div 1000000000))
                 (word_of_int (n mod (n mod 1000000000)))))"
proof (cases "sint nanos \<le> 0")
  case False
  then have qr: "sint nanos sdiv 1000000000 = sint nanos div 1000000000"
    "sint nanos smod 1000000000 = sint nanos mod 1000000000"
    using nonneg_quot_rem [of "sint nanos" 1000000000] by simp_all
  have "sint nanos smod (sint nanos mod 1000000000) = sint nanos mod (sint nanos mod 1000000000)"
    if "sint nanos mod 1000000000 \<noteq> 0"
  proof -
    have "0 < sint nanos mod 1000000000" using that pos_mod_sign [of 1000000000 "sint nanos"] by linarith
    then show ?thesis using nonneg_quot_rem(2) [of "sint nanos"] False by simp
  qed
  moreover have "sint nanos mod 1000000000 = sint nanos" "sint nanos div 1000000000 = 0"
    if "sint nanos < 1000000000"
    using that False by simp_all
  ultimately show ?thesis using False qr by (auto simp: NewIntervalDayTime_def Let_def)
qed (simp add: NewIntervalDayTime_def Let_def)

end
