(* ===== verification/Columns.thy ===== *)
theory Columns
  imports Containers
begin

section \<open>Columns and the generate expression \<open>trunc_time\<close>\<close>

text \<open>
  Models \<open>column.go\<close>, \<open>expression_parser.go\<close> and \<open>trunc_time.go\<close> of \<open>odps/tableschema\<close>.
  \<^item> The interface \<open>GenerateExpression\<close> has the one implementation \<open>TruncTime\<close>; a nil interface
    is \<open>None\<close>. Its unused field \<open>formatter\<close> is left out.
  \<^item> The decoding of JSON text is a parameter: a function from the text to the decoded items.
  \<^item> \<open>time.Time.Format\<close> in UTC is written out over the proleptic Gregorian calendar.
\<close>

subsection \<open>The calendar\<close>

text \<open>
  The civil date of a day counted from 1970-01-01. Years start in March inside the
  computation, so the leap day is the last day of a year; an era is 400 years.
\<close>

definition civil_of_days :: "int \<Rightarrow> int \<times> int \<times> int" where
  "civil_of_days z0 =
     (let z = z0 + 719468; era = z div 146097; doe = z mod 146097;
          yoe = (doe - doe div 1460 + doe div 36524 - doe div 146096) div 365;
          doy = doe - (365 * yoe + yoe div 4 - yoe div 100);
          mp = (5 * doy + 2) div 153;
          d = doy - (153 * mp + 2) div 5 + 1;
          m = (if mp < 10 then mp + 3 else mp - 9)
      in (yoe + era * 400 + (if m \<le> 2 then 1 else 0), m, d))"

definition pad_int :: "nat \<Rightarrow> int \<Rightarrow> string" where
  "pad_int w i = (if i < 0 then ''-'' @ pad_zeros w (Itoa (- i)) else pad_zeros w (Itoa i))"

subsection \<open>TruncTime\<close>

datatype DatePart = NoPart | YEAR | MONTH | DAY | HOUR

fun DatePart_String :: "DatePart \<Rightarrow> string" where
  "DatePart_String YEAR = ''year''"
| "DatePart_String MONTH = ''month''"
| "DatePart_String DAY = ''day''"
| "DatePart_String HOUR = ''hour''"
| "DatePart_String NoPart = ''unknown''"

record TruncTime =
  dateColumnName :: string
  cachedDataColumnIndex :: int
  datePart :: DatePart

definition nullValue :: string where
  "nullValue = ''__NULL__''"

definition minEpochMillis :: int where
  "minEpochMillis = -315619200000"

definition NewTruncTime :: "string \<Rightarrow> DatePart \<Rightarrow> TruncTime" where
  "NewTruncTime c p = \<lparr>dateColumnName = c, cachedDataColumnIndex = -1, datePart = p\<rparr>"

definition stringToDatePart :: "string \<Rightarrow> DatePart outcome" where
  "stringToDatePart constant =
     (let c = ToLower constant in
      if c = ''year'' then Ret YEAR
      else if c = ''month'' then Ret MONTH
      else if c = ''day'' then Ret DAY
      else if c = ''hour'' then Ret HOUR
      else Fail (ErrMsg (''unknown date part: '' @ c)))"

definition newTruncTimeWithConstant :: "string \<Rightarrow> string \<Rightarrow> TruncTime outcome" where
  "newTruncTimeWithConstant c constant =
     obind (stringToDatePart constant) (\<lambda>p.
       if c = [] then Fail (ErrMsg ''TruncTime dateColumnName cannot be empty'')
       else Ret (NewTruncTime c p))"

definition TruncTime_String :: "TruncTime \<Rightarrow> string" where
  "TruncTime_String t =
     ''trunc_time('' @ [BQ] @ dateColumnName t @ [BQ] @ '', '' @ [SQ] @ DatePart_String (datePart t) @ [SQ] @ '')''"

fun minGenerateValue :: "DatePart \<Rightarrow> string" where
  "minGenerateValue YEAR = ''1959''"
| "minGenerateValue MONTH = ''1959-12''"
| "minGenerateValue DAY = ''1959-12-31''"
| "minGenerateValue HOUR = ''1959-12-31 23:00:00''"
| "minGenerateValue NoPart = []"

text \<open>The layouts \<open>2006\<close>, \<open>2006-01\<close>, \<open>2006-01-02\<close> and \<open>2006-01-02 15:00:00\<close> of a second in UTC.\<close>

definition format_part :: "DatePart \<Rightarrow> int \<Rightarrow> string" where
  "format_part p secs =
     (case civil_of_days (secs div 86400) of (y, m, d) \<Rightarrow>
      let hour = secs mod 86400 div 3600; ys = pad_int 4 y; ms = pad_int 2 m; ds = pad_int 2 d in
      (case p of
         YEAR \<Rightarrow> ys
       | MONTH \<Rightarrow> ys @ ''-'' @ ms
       | DAY \<Rightarrow> ys @ ''-'' @ ms @ ''-'' @ ds
       | HOUR \<Rightarrow> ys @ ''-'' @ ms @ ''-'' @ ds @ '' '' @ pad_int 2 hour @ '':00:00''
       | NoPart \<Rightarrow> []))"

definition truncEpochMillis :: "DatePart \<Rightarrow> i64 \<Rightarrow> string" where
  "truncEpochMillis p epochMillis =
     (if sint epochMillis < minEpochMillis then minGenerateValue p
      else format_part p (sint epochMillis sdiv 1000))"

text \<open>\<open>t.UnixNano()\<close> wraps around outside the years 1678 to 2262.\<close>

definition UnixNano :: "gotime \<Rightarrow> i64" where
  "UnixNano t = word_of_int (t_unix t * 1000000000 + t_nsec t)"

definition epoch_millis :: "gotime \<Rightarrow> i64" where
  "epoch_millis t = word_of_int (sint (UnixNano t) sdiv 1000000)"

fun find_index :: "string \<Rightarrow> int \<Rightarrow> string list \<Rightarrow> int option" where
  "find_index n i [] = None"
| "find_index n i (c # cs) = (if c = n then Some i else find_index n (i + 1) cs)"

text \<open>
  \<open>generate\<close> reads the column's value from the record and remembers the column's position;
  \<open>columns\<close> are the names of the schema's columns.
\<close>

definition date_value :: "Record \<Rightarrow> string list \<Rightarrow> (TruncTime, Data option) M" where
  "date_value rec columns t =
     (if cachedDataColumnIndex t \<noteq> -1 then (Record_Get rec (cachedDataColumnIndex t), t)
      else (case find_index (dateColumnName t) 0 columns of
          None \<Rightarrow> (Ret None, t)
        | Some i \<Rightarrow>
            (case Record_Get rec i of
               Ret d \<Rightarrow> (Ret d, t\<lparr>cachedDataColumnIndex := i\<rparr>)
             | r \<Rightarrow> (r, t))))"

fun value_time :: "Data \<Rightarrow> gotime option" where
  "value_time (DDate t) = Some t"
| "value_time (DDateTime t) = Some t"
| "value_time (DTimestamp t) = Some t"
| "value_time (DTimestampNtz t) = Some t"
| "value_time _ = None"

definition generate :: "Record \<Rightarrow> string list \<Rightarrow> (TruncTime, string) M" where
  "generate rec columns =
     mbind (date_value rec columns) (\<lambda>dataValue t.
       case dataValue of
         None \<Rightarrow> (Ret nullValue, t)
       | Some v \<Rightarrow>
           (case value_time v of
              None \<Rightarrow> (Fail (ErrMsg ''unknown data type''), t)
            | Some tm \<Rightarrow> (Ret (truncEpochMillis (datePart t) (epoch_millis tm)), t)))"

subsection \<open>Columns\<close>

record Column =
  col_Name :: string
  col_Type :: DataType
  col_Comment :: string
  col_Label :: string
  col_NotNull :: bool
  col_HasDefaultValue :: bool
  col_DefaultValue :: string
  col_ExtendedLabels :: "string list"
  col_GenerateExpression :: "TruncTime option"

record ColumnShadow =
  sh_Name :: string
  sh_Type :: string
  sh_Comment :: string
  sh_Label :: string
  sh_IsNullable :: bool
  sh_HasDefaultValue :: bool
  sh_DefaultValue :: string
  sh_ExtendedLabels :: "string list"
  sh_HasGenerateExpression :: bool
  sh_GenerateExpression :: string

record expressionItem =
  ref_Name :: string
  leaf_Constant :: string
  functionCall_Name :: "string option"

definition getFunctionName :: "string option \<Rightarrow> string" where
  "getFunctionName f = (case f of Some n \<Rightarrow> n | None \<Rightarrow> ''null'')"

definition parseGenerateExpression ::
    "(string \<Rightarrow> expressionItem list outcome) \<Rightarrow> string \<Rightarrow> TruncTime option outcome" where
  "parseGenerateExpression parseFromJSON exprJSON =
     (if exprJSON = [] then Ret None
      else obind (parseFromJSON exprJSON) (\<lambda>es.
        if es = [] then Panic IndexOutOfRange
        else
          (let f = functionCall_Name (last es) in
           case f of
             Some n \<Rightarrow>
               (if ToLower n = ''trunc_time'' then
                  (if length es < 2 then Panic IndexOutOfRange
                   else omap Some (newTruncTimeWithConstant (ref_Name (es ! 0)) (leaf_Constant (es ! 1))))
                else Fail (ErrMsg (''unknown generate expression: '' @ getFunctionName f)))
           | None \<Rightarrow> Fail (ErrMsg (''unknown generate expression: '' @ getFunctionName f)))))"

text \<open>\<open>UnmarshalJSON\<close> after the JSON text has been decoded into the shadow struct.\<close>

definition Column_UnmarshalJSON ::
    "(string \<Rightarrow> expressionItem list outcome) \<Rightarrow> ColumnShadow \<Rightarrow> Column outcome" where
  "Column_UnmarshalJSON parseFromJSON cs =
     obind (ParseDataType (sh_Type cs)) (\<lambda>ty.
     obind (if sh_HasGenerateExpression cs
            then parseGenerateExpression parseFromJSON (sh_GenerateExpression cs) else Ret None) (\<lambda>e.
     Ret \<lparr>col_Name = sh_Name cs, col_Type = ty, col_Comment = sh_Comment cs, col_Label = sh_Label cs,
          col_NotNull = (\<not> sh_IsNullable cs), col_HasDefaultValue = sh_HasDefaultValue cs,
          col_DefaultValue = sh_DefaultValue cs, col_ExtendedLabels = sh_ExtendedLabels cs,
          col_GenerateExpression = e\<rparr>))"

subsection \<open>Properties\<close>

lemma sdiv_pos: "0 < (b::int) \<Longrightarrow> a sdiv b = (if 0 \<le> a then a div b else - ((- a) div b))"
  by (simp add: signed_divide_int_def sgn_if)

lemma sdiv_nested: "0 < b \<Longrightarrow> 0 < c \<Longrightarrow> (a sdiv b) sdiv c = a sdiv (b * c :: int)"
proof -
  assume bc: "0 < b" "0 < c"
  then have "0 \<le> (- a) div b" if "\<not> 0 \<le> a" using that by (simp add: pos_imp_zdiv_nonneg_iff)
  moreover have "0 \<le> a div b" if "0 \<le> a" using that bc by (simp add: pos_imp_zdiv_nonneg_iff)
  ultimately show ?thesis using bc by (auto simp: sdiv_pos zdiv_zmult2_eq)
qed

lemma sdiv_second:
  fixes u n :: int
  assumes "0 \<le> n" "n < 1000000000"
  shows "(u * 1000000000 + n) sdiv 1000000000 = (if u < 0 \<and> 0 < n then u + 1 else u)"
proof (cases "u < 0")
  case False
  then show ?thesis using assms by (simp add: sdiv_pos)
next
  case True
  then have "u * 1000000000 + n < 0" using assms by linarith
  moreover have "(- (u * 1000000000 + n)) div 1000000000 = - u + (- n) div 1000000000"
    by (simp add: algebra_simps)
  moreover have "(- n) div 1000000000 = (if 0 < n then -1 else 0)"
    using assms by (auto simp: div_eq_minus1)
  ultimately show ?thesis using True by (simp add: sdiv_pos)
qed

text \<open>
  A partition value is generated from the time truncated towards zero instead of down: from
  1960 to 2262 the value is the format of the second the time lies in, except that a time
  before 1970 with a fraction of a second gets the value of the next second, which can be
  in the next hour, day, month or year.
\<close>

theorem generate_rounds_up_before_1970:
  assumes "date_value rec columns t = (Ret (Some v), t')" and "value_time v = Some (GoTime u n)"
    and "0 \<le> n" and "n < 1000000000" and "-315619200 \<le> u" and "u < 9223372036"
  shows "generate rec columns t =
    (Ret (format_part (datePart t') (if u < 0 \<and> 0 < n then u + 1 else u)), t')"
proof -
  have un: "sint (UnixNano (GoTime u n)) = u * 1000000000 + n"
    unfolding UnixNano_def gotime.sel by (rule sint_word_i64) (use assms in simp_all)
  let ?m = "(u * 1000000000 + n) sdiv 1000000"
  have m: "-315619200000 \<le> ?m" "?m < 2 ^ 63"
  proof -
    show "?m < 2 ^ 63"
    proof (cases "0 \<le> u * 1000000000 + n")
      case True
      then have "?m \<le> u * 1000000000 + n" by (simp add: sdiv_pos)
      then show ?thesis using assms by simp
    qed (auto simp: sdiv_pos pos_imp_zdiv_nonneg_iff intro: order_le_less_trans [of _ 0])
    have "- ?m \<le> 315619200000" if "u * 1000000000 + n < 0"
    proof -
      have "(- (u * 1000000000 + n)) div 1000000 \<le> 315619200000000000 div 1000000"
        by (rule zdiv_mono1) (use assms in linarith)+
      then show ?thesis using that by (simp add: sdiv_pos)
    qed
    then show "-315619200000 \<le> ?m"
      by (cases "u * 1000000000 + n < 0") (auto simp: sdiv_pos intro: order_trans [of _ 0])
  qed
  then have em: "sint (epoch_millis (GoTime u n)) = ?m"
    unfolding epoch_millis_def un by (intro sint_word_i64) simp_all
  have "?m sdiv 1000 = (if u < 0 \<and> 0 < n then u + 1 else u)"
    using sdiv_nested [of 1000000 1000 "u * 1000000000 + n"] sdiv_second [OF assms(3,4)] by simp
  then show ?thesis
    using assms(1,2) m em by (simp add: generate_def mbind_def truncEpochMillis_def minEpochMillis_def)
qed

theorem generate_rounds_up_before_1970_witness:
  "generate [Some (DTimestamp (GoTime (-1) 500000000))] [''ts''] (NewTruncTime ''ts'' YEAR)
     = (Ret ''1970'', (NewTruncTime ''ts'' YEAR)\<lparr>cachedDataColumnIndex := 0\<rparr>)"
proof -
  have "date_value [Some (DTimestamp (GoTime (-1) 500000000))] [''ts''] (NewTruncTime ''ts'' YEAR) =
    (Ret (Some (DTimestamp (GoTime (-1) 500000000))), (NewTruncTime ''ts'' YEAR)\<lparr>cachedDataColumnIndex := 0\<rparr>)"
    by (simp add: date_value_def NewTruncTime_def Record_Get_def)
  moreover have "format_part YEAR 0 = ''1970''" by code_simp
  ultimately show ?thesis
    using generate_rounds_up_before_1970 [of "[Some (DTimestamp (GoTime (-1) 500000000))]" "[''ts'']"
      "NewTruncTime ''ts'' YEAR" _ _ "-1" 500000000]
    by (simp add: NewTruncTime_def)
qed

end
