(* ===== verification/RecordProtoc.thy ===== *)
theory RecordProtoc
  imports WireLaws Columns
begin

section \<open>The record stream: \<open>RecordProtocWriter\<close> and \<open>RecordProtocReader\<close>\<close>

text \<open>
  Models \<open>odps/tunnel/record_protoc_writer.go\<close>, \<open>odps/tunnel/record_protoc_reader.go\<close> and the
  constants of \<open>odps/tunnel/protoc_common.go\<close>.
  \<^item> The writer's state is the record \<open>protoc_writer\<close>: its sink, its columns, the two checksums,
    the record count, whether it is closed, and what closing the sink and the HTTP response
    will answer (\<open>wr_http\<close> is \<open>None\<close> when there is no connection).
  \<^item> The reader's state is the record \<open>protoc_reader\<close>: the source, the columns, the two
    checksums and the record count.
  \<^item> \<open>writeArray\<close>, \<open>writeMap\<close>, \<open>writeStruct\<close> and their readers take the function for one element as
    an argument, \<open>writeField\<close> and \<open>readField\<close> pass themselves.
  \<^item> \<open>shouldTransformDate\<close> is stored and never used by the code, and left out.
\<close>

subsection \<open>Constants\<close>

definition MetaCount :: i32 where "MetaCount = 33554430"
definition MetaChecksum :: i32 where "MetaChecksum = 33554431"
definition EndRecord :: i32 where "EndRecord = 33553408"

subsection \<open>RecordProtocWriter\<close>

record protoc_writer =
  wr_sink :: sink
  wr_columns :: "Column list"
  wr_recordCrc :: Crc32CheckSum
  wr_crcOfCrc :: Crc32CheckSum
  wr_count :: i64
  wr_closed :: bool
  wr_closeAnswer :: "unit outcome"
  wr_http :: "unit outcome option"

definition newRecordProtocWriter :: "sink \<Rightarrow> Column list \<Rightarrow> unit outcome \<Rightarrow> protoc_writer" where
  "newRecordProtocWriter w columns closeAnswer =
     \<lparr>wr_sink = w, wr_columns = columns, wr_recordCrc = NewCrc32CheckSum, wr_crcOfCrc = NewCrc32CheckSum,
      wr_count = 0, wr_closed = False, wr_closeAnswer = closeAnswer, wr_http = None\<rparr>"

definition newRecordProtocHttpWriter ::
    "sink \<Rightarrow> Column list \<Rightarrow> unit outcome \<Rightarrow> unit outcome \<Rightarrow> protoc_writer" where
  "newRecordProtocHttpWriter w columns closeAnswer closeRes =
     \<lparr>wr_sink = w, wr_columns = columns, wr_recordCrc = NewCrc32CheckSum, wr_crcOfCrc = NewCrc32CheckSum,
      wr_count = 0, wr_closed = False, wr_closeAnswer = closeAnswer, wr_http = Some closeRes\<rparr>"

definition on_sink :: "(sink, 'a) M \<Rightarrow> (protoc_writer, 'a) M" where
  "on_sink m w = (case m (wr_sink w) of (r, s) \<Rightarrow> (r, w\<lparr>wr_sink := s\<rparr>))"

definition wcrc :: "crcdata \<Rightarrow> (protoc_writer, unit) M" where
  "wcrc d w = (Ret (), w\<lparr>wr_recordCrc := Crc_Update d (wr_recordCrc w)\<rparr>)"

definition wire_type :: "TypeID \<Rightarrow> wtype option" where
  "wire_type t =
     (if t \<in> {DATETIME, BOOLEAN, BIGINT, TINYINT, SMALLINT, INTID, DATE, IntervalYearMonth}
      then Some VarintType
      else if t = DOUBLE then Some Fixed64Type
      else if t = FLOAT then Some Fixed32Type
      else if t \<in> {IntervalDayTime, TIMESTAMP, TIMESTAMP_NTZ, STRING, CHARID, VARCHAR, BINARY, DECIMAL,
                   ARRAY, MAP, STRUCT, JSON, GEOGRAPHY}
      then Some BytesType else None)"

definition writeFieldTag :: "protowire \<Rightarrow> int \<Rightarrow> DataType \<Rightarrow> (protoc_writer, unit) M" where
  "writeFieldTag pw colIndex dt =
     (if dt = NilType then mpanic NilDereference
      else (case wire_type (ID dt) of
          None \<Rightarrow> mbind (mlift (Name dt)) (\<lambda>n. mfail (ErrMsg (''Invalid data type, '' @ n)))
        | Some wt \<Rightarrow> on_sink (WriteTag pw (word_of_int colIndex) wt)))"

definition write_sint64 :: "protowire \<Rightarrow> i64 \<Rightarrow> (protoc_writer, unit) M" where
  "write_sint64 pw v = mseq (wcrc (CI64 v)) (on_sink (WriteSInt64 pw v))"

definition write_bytes :: "protowire \<Rightarrow> byte list \<Rightarrow> (protoc_writer, unit) M" where
  "write_bytes pw b = mseq (wcrc (CBytes b)) (on_sink (WriteBytes pw b))"

definition write_seconds :: "protowire \<Rightarrow> i64 \<Rightarrow> i32 \<Rightarrow> (protoc_writer, unit) M" where
  "write_seconds pw seconds nanoSeconds =
     mseq (wcrc (CI64 seconds)) (mseq (wcrc (CI32 nanoSeconds))
       (mseq (on_sink (WriteSInt64 pw seconds)) (on_sink (WriteSInt32 pw nanoSeconds))))"

text \<open>The body of the loops of \<open>writeArray\<close> and \<open>writeStruct\<close>.\<close>

definition write_elem :: "protowire \<Rightarrow> (Data \<Rightarrow> (protoc_writer, unit) M) \<Rightarrow> Data option \<Rightarrow>
    (protoc_writer, unit) M" where
  "write_elem pw wrf d =
     (case d of
        None \<Rightarrow> on_sink (WriteBool pw True)
      | Some v \<Rightarrow> mseq (on_sink (WriteBool pw False)) (wrf v))"

lemma write_elem_cong [fundef_cong]:
  "d = d' \<Longrightarrow> (\<And>v. d' = Some v \<Longrightarrow> f v = g v) \<Longrightarrow> write_elem pw f d = write_elem pw g d'"
  by (cases d') (simp_all add: write_elem_def)

definition writeArray :: "protowire \<Rightarrow> (Data \<Rightarrow> (protoc_writer, unit) M) \<Rightarrow> Data option list \<Rightarrow>
    (protoc_writer, unit) M" where
  "writeArray pw wrf val =
     mseq (on_sink (WriteInt32 pw (word_of_nat (length val)))) (mfor (write_elem pw wrf) val)"

lemma writeArray_cong [fundef_cong]:
  assumes "xs = ys" and "\<And>v. Some v \<in> set ys \<Longrightarrow> f v = g v"
  shows "writeArray pw f xs = writeArray pw g ys"
proof -
  have "mfor (write_elem pw f) xs = mfor (write_elem pw g) ys"
    by (rule mfor_cong [OF assms(1)]) (auto intro: write_elem_cong assms(2))
  then show ?thesis using assms(1) by (simp add: writeArray_def)
qed

definition writeMap :: "protowire \<Rightarrow> (Data \<Rightarrow> (protoc_writer, unit) M) \<Rightarrow>
    (Data option \<times> Data option) list \<Rightarrow> (protoc_writer, unit) M" where
  "writeMap pw wrf m = mseq (writeArray pw wrf (map fst m)) (writeArray pw wrf (map snd m))"

lemma writeMap_cong [fundef_cong]:
  assumes "xs = ys" and "\<And>v x. (Some v, x) \<in> set ys \<Longrightarrow> f v = g v"
    and "\<And>v k. (k, Some v) \<in> set ys \<Longrightarrow> f v = g v"
  shows "writeMap pw f xs = writeMap pw g ys"
proof -
  have "writeArray pw f (map fst ys) = writeArray pw g (map fst ys)"
    "writeArray pw f (map snd ys) = writeArray pw g (map snd ys)"
    by (rule writeArray_cong [OF refl]; use assms(2,3) in force)+
  then show ?thesis using assms(1) by (simp add: writeMap_def)
qed

definition writeStruct :: "protowire \<Rightarrow> (Data \<Rightarrow> (protoc_writer, unit) M) \<Rightarrow>
    (string \<times> Data option) list \<Rightarrow> (protoc_writer, unit) M" where
  "writeStruct pw wrf fs = mfor (\<lambda>f. write_elem pw wrf (snd f)) fs"

lemma writeStruct_cong [fundef_cong]:
  "xs = ys \<Longrightarrow> (\<And>n v. (n, Some v) \<in> set ys \<Longrightarrow> f v = g v) \<Longrightarrow> writeStruct pw f xs = writeStruct pw g ys"
  unfolding writeStruct_def by (rule mfor_cong) (auto intro: write_elem_cong)

definition writeJson :: "protowire \<Rightarrow> string \<Rightarrow> (protoc_writer, unit) M" where
  "writeJson pw s = write_bytes pw (bytes_of s)"

lemma data_elem_size: "Some v \<in> set xs \<Longrightarrow> size v < Suc (size_list (size_option size) xs)"
  by (induction xs) auto

lemma data_pair_size:
  "(Some v, x) \<in> set kvs \<Longrightarrow> size v < Suc (size_list (size_prod (size_option size) (size_option size)) kvs)"
  "(k, Some v) \<in> set kvs \<Longrightarrow> size v < Suc (size_list (size_prod (size_option size) (size_option size)) kvs)"
  by (induction kvs) auto

lemma data_field_size:
  "(n, Some v) \<in> set fs \<Longrightarrow> size v < Suc (size_list (size_prod (\<lambda>_. 0) (size_option size)) fs)"
  by (induction fs) auto

function writeField :: "protowire \<Rightarrow> Data \<Rightarrow> (protoc_writer, unit) M" where
  "writeField pw (DDouble v) = mseq (wcrc (CI64 v)) (on_sink (WriteFloat64 pw v))"
| "writeField pw (DFloat v) = mseq (wcrc (CI32 v)) (on_sink (WriteFloat32 pw v))"
| "writeField pw (DBool v) = mseq (wcrc (CBool v)) (on_sink (WriteBool pw v))"
| "writeField pw (DBigInt v) = write_sint64 pw v"
| "writeField pw (DIntervalYearMonth v) = write_sint64 pw (scast v)"
| "writeField pw (DInt v) = write_sint64 pw (scast v)"
| "writeField pw (DSmallInt v) = write_sint64 pw (scast v)"
| "writeField pw (DTinyInt v) = write_sint64 pw (scast v)"
| "writeField pw (DString v) = write_bytes pw (bytes_of v)"
| "writeField pw (DVarChar n v) = write_bytes pw (bytes_of v)"
| "writeField pw (DChar n v) = write_bytes pw (bytes_of v)"
| "writeField pw (DBinary v) = write_bytes pw v"
| "writeField pw (DGeography v) = write_bytes pw v"
| "writeField pw (DDateTime t) =
     (let unixSec = word_of_int (t_unix t) :: i64;
          milliSeconds = unixSec * 1000 + word_of_int (t_nsec t sdiv 1000000)
      in write_sint64 pw milliSeconds)"
| "writeField pw (DDate t) =
     (let days = word_of_int (sint (word_of_int (t_unix t) :: i64) sdiv 86400) in write_sint64 pw days)"
| "writeField pw (DIntervalDayTime seconds nanoSeconds) = write_seconds pw seconds nanoSeconds"
| "writeField pw (DTimestamp t) = write_seconds pw (word_of_int (t_unix t)) (word_of_int (t_nsec t))"
| "writeField pw (DTimestampNtz t) = write_seconds pw (word_of_int (t_unix t)) (word_of_int (t_nsec t))"
| "writeField pw (DDecimal d) = write_bytes pw (bytes_of (dec_value d))"
| "writeField pw (DArray e xs v) = writeArray pw (writeField pw) xs"
| "writeField pw (DMap kt vt kvs v) = writeMap pw (writeField pw) kvs"
| "writeField pw (DStruct ts fs ix v) = writeStruct pw (writeField pw) fs"
| "writeField pw (DJson s v) = writeJson pw s"
| "writeField pw DNull = mfail (ErrMsg ''invalid data type'')"
  by pat_completeness auto
termination
  by (relation "measure (\<lambda>(_, d). size d)") (auto dest: data_elem_size data_pair_size data_field_size)

text \<open>One turn of the loop of \<open>write\<close> over the record's values.\<close>

definition write_column :: "protowire \<Rightarrow> nat \<times> Data option \<Rightarrow> (protoc_writer, unit) M" where
  "write_column pw iv =
     (case iv of (colIndex, value) \<Rightarrow>
      (case value of
         None \<Rightarrow> mret ()
       | Some v \<Rightarrow>
           (if Type v = PrimitiveType NULL then mret ()
            else mseq (wcrc (CI32 (word_of_int (int colIndex + 1))))
              (mbind (mget wr_columns) (\<lambda>cs.
                mseq (writeFieldTag pw (int colIndex + 1) (col_Type (cs ! colIndex)))
                  (writeField pw v))))))"

definition end_record :: "protoc_writer \<Rightarrow> protoc_writer" where
  "end_record w = w\<lparr>wr_recordCrc := Crc_Reset (wr_recordCrc w),
     wr_crcOfCrc := Crc_Update (CI32 (Crc_Value (wr_recordCrc w))) (wr_crcOfCrc w),
     wr_count := wr_count w + 1\<rparr>"

definition Write_record :: "protowire \<Rightarrow> Record \<Rightarrow> (protoc_writer, unit) M" where
  "Write_record pw rec w =
     (if length rec > length (wr_columns w)
      then (Fail (ErrMsg ''record values are more than schema.''), w)
      else mseq (mfor (write_column pw) (enumerate 0 rec))
             (mseq (on_sink (WriteTag pw EndRecord VarintType))
               (mbind (mget (\<lambda>w. Crc_Value (wr_recordCrc w))) (\<lambda>recordCrcVal.
                 mseq (on_sink (WriteUInt32 pw recordCrcVal)) (mput end_record)))) w)"

definition close_writer :: "protowire \<Rightarrow> (protoc_writer, unit) M" where
  "close_writer pw =
     mseq (on_sink (WriteTag pw MetaCount VarintType))
     (mseq (mbind (mget wr_count) (\<lambda>c. on_sink (WriteSInt64 pw c)))
     (mseq (on_sink (WriteTag pw MetaChecksum VarintType))
     (mseq (mbind (mget (\<lambda>w. Crc_Value (wr_crcOfCrc w))) (\<lambda>v. on_sink (WriteUInt32 pw v)))
     (mbind (mget wr_closeAnswer) mlift))))"

definition Close_writer :: "protowire \<Rightarrow> (protoc_writer, unit) M" where
  "Close_writer pw w =
     (if wr_closed w then (Fail (ErrMsg ''try to close a closed RecordProtocWriter''), w)
      else (case close_writer pw (w\<lparr>wr_closed := True\<rparr>) of
          (Panic p, w') \<Rightarrow> (Panic p, w')
        | (r, w') \<Rightarrow>
            (case wr_http w' of
               Some (Fail e) \<Rightarrow> (Fail e, w')
             | Some (Panic p) \<Rightarrow> (Panic p, w')
             | _ \<Rightarrow> (r, w'))))"

definition RecordCount :: "protoc_writer \<Rightarrow> i64" where
  "RecordCount w = wr_count w"

subsection \<open>RecordProtocReader: fields\<close>

record protoc_reader =
  rd_src :: source
  rd_columns :: "Column list"
  rd_recordCrc :: Crc32CheckSum
  rd_crcOfCrc :: Crc32CheckSum
  rd_count :: i64

definition newRecordProtocReader :: "source \<Rightarrow> Column list \<Rightarrow> protoc_reader" where
  "newRecordProtocReader body columns =
     \<lparr>rd_src = body, rd_columns = columns, rd_recordCrc = NewCrc32CheckSum,
      rd_crcOfCrc = NewCrc32CheckSum, rd_count = 0\<rparr>"

definition on_src :: "(source, 'a) M \<Rightarrow> (protoc_reader, 'a) M" where
  "on_src m r = (case m (rd_src r) of (x, s) \<Rightarrow> (x, r\<lparr>rd_src := s\<rparr>))"

definition rcrc :: "crcdata \<Rightarrow> (protoc_reader, unit) M" where
  "rcrc d r = (Ret (), r\<lparr>rd_recordCrc := Crc_Update d (rd_recordCrc r)\<rparr>)"

definition read_sint64 :: "protowire \<Rightarrow> (protoc_reader, i64) M" where
  "read_sint64 pw = mbind (on_src (ReadSInt64 pw)) (\<lambda>v. mseq (rcrc (CI64 v)) (mret v))"

definition read_bytes :: "protowire \<Rightarrow> (protoc_reader, byte list) M" where
  "read_bytes pw = mbind (on_src (ReadBytes pw)) (\<lambda>v. mseq (rcrc (CBytes v)) (mret v))"

definition read_seconds :: "protowire \<Rightarrow> (protoc_reader, i64 \<times> i32) M" where
  "read_seconds pw =
     mbind (on_src (ReadSInt64 pw)) (\<lambda>seconds.
     mbind (on_src (ReadSInt32 pw)) (\<lambda>nanoSeconds.
     mseq (rcrc (CI64 seconds)) (mseq (rcrc (CI32 nanoSeconds)) (mret (seconds, nanoSeconds)))))"

text \<open>\<open>epochDay.AddDate(0, 0, int(v))\<close>: the time at midnight UTC, seconds modulo \<open>2^64\<close>.\<close>

definition epoch_add_days :: "i64 \<Rightarrow> gotime" where
  "epoch_add_days v = GoTime (sint (v * 86400)) 0"

fun read_times :: "nat \<Rightarrow> ('s, 'a) M \<Rightarrow> ('s, 'a list) M" where
  "read_times 0 m = mret []"
| "read_times (Suc n) m = mbind m (\<lambda>x. mbind (read_times n m) (\<lambda>xs. mret (x # xs)))"

definition read_elem :: "protowire \<Rightarrow> (protoc_reader, Data option) M \<Rightarrow> (protoc_reader, Data option) M" where
  "read_elem pw rf = mbind (on_src (ReadBool pw)) (\<lambda>b. if b then mret None else rf)"

definition readArray :: "protowire \<Rightarrow> (DataType \<Rightarrow> (protoc_reader, Data option) M) \<Rightarrow> DataType \<Rightarrow>
    (protoc_reader, Data) M" where
  "readArray pw rf t =
     mbind (on_src (ReadUInt32 pw)) (\<lambda>arraySize.
     mbind (read_times (unat arraySize) (read_elem pw (rf t))) (\<lambda>arrayData.
     mret (UnSafeAppend arrayData (NewArrayWithType t))))"

lemma readArray_cong [fundef_cong]:
  "t = t' \<Longrightarrow> f t' = g t' \<Longrightarrow> readArray pw f t = readArray pw g t'"
  by (simp add: readArray_def)

definition readMap :: "protowire \<Rightarrow> (DataType \<Rightarrow> (protoc_reader, Data option) M) \<Rightarrow> DataType \<Rightarrow> DataType \<Rightarrow>
    (protoc_reader, Data) M" where
  "readMap pw rf kt vt =
     mbind (readArray pw rf kt) (\<lambda>keys.
     mbind (readArray pw rf vt) (\<lambda>vals.
     if Array_Len keys \<noteq> Array_Len vals then mfail (ErrMsg ''failed to read map'')
     else mlift (ofold (\<lambda>(key, x) dm. final_state (Map_Set_data key x) dm)
                   (zip (ToSlice keys) (ToSlice vals)) (NewMapWithType kt vt))))"

lemma readMap_cong [fundef_cong]:
  "k = k' \<Longrightarrow> v = v' \<Longrightarrow> f k' = g k' \<Longrightarrow> f v' = g v' \<Longrightarrow> readMap pw f k v = readMap pw g k' v'"
  by (simp add: readMap_def readArray_def)

fun readStruct_loop :: "protowire \<Rightarrow> (DataType \<Rightarrow> (protoc_reader, Data option) M) \<Rightarrow>
    StructFieldType list \<Rightarrow> Data \<Rightarrow> (protoc_reader, Data) M" where
  "readStruct_loop pw rf [] sd = mret sd"
| "readStruct_loop pw rf (ft # fts) sd =
     mbind (read_elem pw (rf (snd ft))) (\<lambda>fd.
       mbind (mlift (final_state (SetField_data (fst ft) fd) sd)) (readStruct_loop pw rf fts))"

definition readStruct :: "protowire \<Rightarrow> (DataType \<Rightarrow> (protoc_reader, Data option) M) \<Rightarrow>
    StructFieldType list \<Rightarrow> (protoc_reader, Data) M" where
  "readStruct pw rf fts = readStruct_loop pw rf fts (NewStructWithTyp fts)"

lemma readStruct_cong [fundef_cong]:
  assumes "xs = ys" and "\<And>f. f \<in> set ys \<Longrightarrow> g (snd f) = h (snd f)"
  shows "readStruct pw g xs = readStruct pw h ys"
proof -
  have "readStruct_loop pw g ys = readStruct_loop pw h ys"
    using assms(2)
  proof (induction ys)
    case (Cons y ys)
    then have "readStruct_loop pw g ys = readStruct_loop pw h ys" "g (snd y) = h (snd y)" by auto
    then show ?case by (intro ext) simp
  qed (simp add: fun_eq_iff)
  then show ?thesis using assms(1) by (simp add: readStruct_def)
qed

text \<open>
  \<open>readField\<close>. The type assertions of a \<open>PrimitiveType\<close> with the id of a parametrised type panic,
  as does a nil type; ids without a case give a nil value and read nothing.
\<close>

function readField :: "protowire \<Rightarrow> DataType \<Rightarrow> (protoc_reader, Data option) M" where
  "readField pw NilType = mpanic NilDereference"
| "readField pw (PrimitiveType c) =
     (if c = DOUBLE then mbind (on_src (ReadFloat64 pw)) (\<lambda>v. mseq (rcrc (CI64 v)) (mret (Some (DDouble v))))
      else if c = FLOAT then mbind (on_src (ReadFloat32 pw)) (\<lambda>v. mseq (rcrc (CI32 v)) (mret (Some (DFloat v))))
      else if c = BOOLEAN then mbind (on_src (ReadBool pw)) (\<lambda>v. mseq (rcrc (CBool v)) (mret (Some (DBool v))))
      else if c = BIGINT then mbind (read_sint64 pw) (\<lambda>v. mret (Some (DBigInt v)))
      else if c = IntervalYearMonth then mbind (read_sint64 pw) (\<lambda>v. mret (Some (DIntervalYearMonth (ucast v))))
      else if c = INTID then mbind (read_sint64 pw) (\<lambda>v. mret (Some (DInt (ucast v))))
      else if c = SMALLINT then mbind (read_sint64 pw) (\<lambda>v. mret (Some (DSmallInt (ucast v))))
      else if c = TINYINT then mbind (read_sint64 pw) (\<lambda>v. mret (Some (DTinyInt (ucast v))))
      else if c = STRING then mbind (read_bytes pw) (\<lambda>v. mret (Some (DString (string_of v))))
      else if c \<in> {VARCHAR, CHARID, DECIMAL} then mseq (read_bytes pw) (mpanic TypeAssertion)
      else if c = BINARY then mbind (read_bytes pw) (\<lambda>v. mret (Some (DBinary v)))
      else if c = DATETIME then mbind (read_sint64 pw) (\<lambda>v.
        let seconds = sint v sdiv 1000; nanoSeconds = (sint v smod 1000) * 1000000
        in mret (Some (DDateTime (time_Unix seconds nanoSeconds))))
      else if c = DATE then mbind (read_sint64 pw) (\<lambda>v. mret (Some (DDate (epoch_add_days v))))
      else if c = IntervalDayTime then mbind (read_seconds pw) (\<lambda>(seconds, nanoSeconds).
        mlift (omap Some (NewIntervalDayTime seconds nanoSeconds)))
      else if c = TIMESTAMP then mbind (read_seconds pw) (\<lambda>(seconds, nanoSeconds).
        mret (Some (DTimestamp (time_Unix (sint seconds) (sint nanoSeconds)))))
      else if c = TIMESTAMP_NTZ then mbind (read_seconds pw) (\<lambda>(seconds, nanoSeconds).
        mret (Some (DTimestampNtz (time_Unix (sint seconds) (sint nanoSeconds)))))
      else if c \<in> {ARRAY, MAP, STRUCT} then mpanic TypeAssertion
      else if c = JSON then mbind (read_bytes pw) (\<lambda>v. mret (Some (DJson (string_of v) True)))
      else if c = GEOGRAPHY then mbind (read_bytes pw) (\<lambda>v. mret (Some (DGeography v)))
      else mret None)"
| "readField pw (VarcharType n) =
     mbind (read_bytes pw) (\<lambda>v. mret (Some (fst (MakeVarChar n (string_of v)))))"
| "readField pw (CharType n) =
     mbind (read_bytes pw) (\<lambda>v. mret (Some (fst (MakeChar n (string_of v)))))"
| "readField pw (DecimalType p s) =
     mbind (read_bytes pw) (\<lambda>v. mret (Some (DDecimal (NewDecimal (sint p) (sint s) (string_of v)))))"
| "readField pw (ArrayType e) = mbind (readArray pw (readField pw) e) (\<lambda>a. mret (Some a))"
| "readField pw (MapType k v) = mbind (readMap pw (readField pw) k v) (\<lambda>m. mret (Some m))"
| "readField pw (StructType fts) = mbind (readStruct pw (readField pw) fts) (\<lambda>s. mret (Some s))"
| "readField pw JsonType = mbind (read_bytes pw) (\<lambda>v. mret (Some (DJson (string_of v) True)))"
  by pat_completeness auto
termination
  by (relation "measure (\<lambda>(_, t). size t)") (auto dest: size_field_less)

subsection \<open>Reading never gives bytes back\<close>

definition shrinks :: "('s \<Rightarrow> nat) \<Rightarrow> ('s, 'a) M \<Rightarrow> bool" where
  "shrinks f m \<longleftrightarrow> (\<forall>s. f (snd (m s)) \<le> f s)"

lemma shrinksD: "shrinks f m \<Longrightarrow> m s = (x, s') \<Longrightarrow> f s' \<le> f s"
  by (metis shrinks_def snd_conv)

lemma shrinks_intros [intro]:
  "shrinks f (mret x)" "shrinks f (mfail e)" "shrinks f (mpanic p)" "shrinks f (mlift r)"
  by (simp_all add: shrinks_def run_simps)

lemma shrinks_mbind [intro]:
  assumes "shrinks f m" and "\<And>x. shrinks f (g x)"
  shows "shrinks f (mbind m g)"
proof -
  have "f (snd (mbind m g s)) \<le> f s" for s
  proof (cases "m s")
    case (Pair r s')
    then have "f s' \<le> f s" using assms(1) by (metis shrinks_def snd_conv)
    moreover have "f (snd (g x s')) \<le> f s'" for x using assms(2) by (simp add: shrinks_def)
    ultimately show ?thesis
      using Pair le_trans by (cases r) (fastforce simp: mbind_def)+
  qed
  then show ?thesis by (simp add: shrinks_def)
qed

lemma shrinks_mseq [intro]: "shrinks f m \<Longrightarrow> shrinks f n \<Longrightarrow> shrinks f (mseq m n)"
  by (simp add: mseq_def shrinks_mbind)

abbreviation src_len :: "source \<Rightarrow> nat" where "src_len s \<equiv> length (src_in s)"
abbreviation rd_len :: "protoc_reader \<Rightarrow> nat" where "rd_len r \<equiv> length (src_in (rd_src r))"

lemma ReadVarint_loop_length:
  "length (src_in (snd (ReadVarint_loop pw buf bs e))) \<le> length bs - 1"
proof (induction pw buf bs e rule: ReadVarint_loop.induct)
  case (2 pw buf b bs e)
  then show ?case
    using "2.IH" [OF refl] by (auto simp: Let_def split: prod.splits) (metis diff_le_self le_trans order_refl)
qed simp

lemma shrinks_ReadVarint: "shrinks src_len (ReadVarint pw)"
proof -
  have "src_len (snd (ReadVarint pw s)) \<le> src_len s" for s
    using ReadVarint_loop_length [of pw "[]" "src_in s" "src_end s"] unfolding ReadVarint_def by linarith
  then show ?thesis by (simp add: shrinks_def)
qed

lemma shrinks_ReadFull: "shrinks src_len (ReadFull n)"
  by (simp add: shrinks_def ReadFull_def)

lemmas shrinks_reads [intro] =
  shrinks_ReadVarint shrinks_ReadFull

lemma shrinks_source_ops [intro]:
  "shrinks src_len (ReadBool pw)" "shrinks src_len (ReadUInt32 pw)" "shrinks src_len (ReadSInt32 pw)"
  "shrinks src_len (ReadSInt64 pw)" "shrinks src_len (ReadFloat32 pw)" "shrinks src_len (ReadFloat64 pw)"
  "shrinks src_len (ReadBytes pw)"
  unfolding ReadBool_def ReadUInt32_def ReadSInt32_def ReadSInt64_def ReadFloat32_def ReadFloat64_def
    ReadFixed32_def ReadFixed64_def ReadBytes_def
  by (auto intro!: shrinks_mbind shrinks_intros shrinks_reads)

lemma shrinks_on_src [intro]: "shrinks src_len m \<Longrightarrow> shrinks rd_len (on_src m)"
  by (simp add: shrinks_def on_src_def split: prod.splits) (metis snd_conv)

lemma shrinks_rcrc [intro]: "shrinks rd_len (rcrc d)"
  by (simp add: shrinks_def rcrc_def)

lemmas shrink_rules =
  shrinks_mbind shrinks_mseq shrinks_intros shrinks_on_src shrinks_source_ops shrinks_rcrc

lemma shrinks_read_parts [intro]:
  "shrinks rd_len (read_sint64 pw)" "shrinks rd_len (read_bytes pw)" "shrinks rd_len (read_seconds pw)"
  unfolding read_sint64_def read_bytes_def read_seconds_def by (intro shrink_rules)+

lemma shrinks_read_times: "shrinks f m \<Longrightarrow> shrinks f (read_times n m)"
  by (induction n) (auto intro!: shrinks_mbind)

lemma shrinks_read_elem: "shrinks rd_len rf \<Longrightarrow> shrinks rd_len (read_elem pw rf)"
  unfolding read_elem_def by (auto intro!: shrink_rules)

lemma shrinks_readArray: "shrinks rd_len (rf t) \<Longrightarrow> shrinks rd_len (readArray pw rf t)"
  unfolding readArray_def by (auto intro!: shrink_rules shrinks_read_times shrinks_read_elem)

lemma shrinks_readMap:
  "shrinks rd_len (rf k) \<Longrightarrow> shrinks rd_len (rf v) \<Longrightarrow> shrinks rd_len (readMap pw rf k v)"
  unfolding readMap_def by (auto intro!: shrink_rules shrinks_readArray)

lemma shrinks_readStruct:
  assumes "\<And>f. f \<in> set fts \<Longrightarrow> shrinks rd_len (rf (snd f))"
  shows "shrinks rd_len (readStruct pw rf fts)"
proof -
  have "shrinks rd_len (readStruct_loop pw rf fts sd)" for sd
    using assms
  proof (induction fts arbitrary: sd)
    case (Cons f fts)
    have f: "shrinks rd_len (rf (snd f))" by (rule Cons.prems) simp
    have "shrinks rd_len (readStruct_loop pw rf fts sd')" for sd'
      by (rule Cons.IH, rule Cons.prems) simp
    with f show ?case unfolding readStruct_loop.simps by (intro shrink_rules shrinks_read_elem)
  qed auto
  then show ?thesis by (simp add: readStruct_def)
qed

lemma shrinks_readField: "shrinks rd_len (readField pw t)"
proof (induction pw t rule: readField.induct)
  case (2 pw c)
  show ?case
    unfolding readField.simps Let_def
    by (intro shrink_rules shrinks_read_parts allI impI conjI | simp only: if_split | split prod.split)+
next
  case (8 pw fts)
  then show ?case by (auto intro!: shrink_rules shrinks_readStruct)
qed (auto intro!: shrink_rules shrinks_read_parts shrinks_readArray shrinks_readMap)

subsection \<open>RecordProtocReader: records\<close>

datatype read_next = EndOfRecord | MoreFields Record

text \<open>The reader's test that nothing follows the checksum reads one byte of the source.\<close>

definition expect_end :: "(source, unit) M" where
  "expect_end s =
     (if src_in s \<noteq> [] then
        (Fail (ErrMsg ''expect end of stream, but not''), s\<lparr>src_in := tl (src_in s)\<rparr>)
      else if src_end s \<noteq> ErrEOF \<and> src_end s \<noteq> ErrUnexpectedEOF then
        (Fail (ErrMsg ''expect end of stream, but not''), s)
      else (Ret (), s))"

definition read_end_record :: "protowire \<Rightarrow> (protoc_reader, read_next) M" where
  "read_end_record pw =
     mbind (mget (\<lambda>r. Crc_Value (rd_recordCrc r))) (\<lambda>crc.
     mbind (on_src (ReadUInt32 pw)) (\<lambda>uint32V.
     if crc \<noteq> uint32V then mfail (ErrMsg ''crc value is error'')
     else mseq (mput (\<lambda>r. r\<lparr>rd_recordCrc := Crc_Reset (rd_recordCrc r),
                 rd_crcOfCrc := Crc_Update (CI32 crc) (rd_crcOfCrc r)\<rparr>))
            (mret EndOfRecord)))"

text \<open>
  The case \<open>MetaCount\<close>. An error of \<open>ReadUInt32\<close> leaves \<open>crcOfCrc\<close> at 0 and skips the test for
  the end of the stream, and the comparison follows in both cases.
\<close>

definition read_checksum :: "protowire \<Rightarrow> (protoc_reader, u32) M" where
  "read_checksum pw r =
     (case on_src (ReadUInt32 pw) r of
        (Ret v, r') \<Rightarrow> mseq (on_src expect_end) (mret v) r'
      | (Fail e, r') \<Rightarrow> (Ret 0, r')
      | (Panic p, r') \<Rightarrow> (Panic p, r'))"

definition read_meta :: "protowire \<Rightarrow> Record \<Rightarrow> (protoc_reader, read_next) M" where
  "read_meta pw rec =
     mbind (on_src (ReadSInt64 pw)) (\<lambda>sInt64.
     mbind (mget rd_count) (\<lambda>count.
     if sInt64 \<noteq> count then mfail (ErrMsg ''record count does not match'')
     else mbind (on_src (ReadTag pw)) (\<lambda>(tag, _).
       if tag \<noteq> MetaChecksum then mfail (ErrMsg ''invalid stream'')
       else mbind (read_checksum pw) (\<lambda>crcOfCrc.
         mbind (mget (\<lambda>r. Crc_Value (rd_crcOfCrc r))) (\<lambda>crc.
         if crc \<noteq> crcOfCrc then mfail (ErrMsg ''checksum is invalid'')
         else mret (MoreFields rec))))))"

definition read_column :: "protowire \<Rightarrow> Record \<Rightarrow> i32 \<Rightarrow> (protoc_reader, read_next) M" where
  "read_column pw rec columnIndex =
     mbind (mget rd_columns) (\<lambda>columns.
     if sint columnIndex > int (length columns) then mfail (ErrMsg ''invalid protobuf tag'')
     else mseq (rcrc (CI32 columnIndex))
       (mbind (readField pw (col_Type (columns ! nat (sint columnIndex - 1)))) (\<lambda>fv.
         mret (MoreFields (rec[nat (sint columnIndex - 1) := fv])))))"

text \<open>One turn of the loop of \<open>Read\<close>; \<open>ReadTag\<close> only returns positive numbers.\<close>

definition Read_step :: "protowire \<Rightarrow> Record \<Rightarrow> (protoc_reader, read_next) M" where
  "Read_step pw rec =
     mbind (on_src (ReadTag pw)) (\<lambda>(tag, _).
       if tag = EndRecord then read_end_record pw
       else if tag = MetaCount then read_meta pw rec
       else read_column pw rec tag)"

lemma ReadTag_length: "ReadTag pw s = (Ret x, s') \<Longrightarrow> src_len s' < src_len s"
proof -
  assume a: "ReadTag pw s = (Ret x, s')"
  then obtain m s1 where m: "ReadVarint pw s = (Ret m, s1)" and s': "s' = s1"
    unfolding ReadTag_def by (auto elim!: mbind_RetE simp: run_simps split: prod.splits if_splits)
  have "src_in s \<noteq> []" using m by (auto simp: ReadVarint_def)
  then show ?thesis
    using ReadVarint_loop_length [of pw "[]" "src_in s" "src_end s"] m s'
    by (cases "src_in s") (simp_all add: ReadVarint_def)
qed

lemma shrinks_ReadTag: "shrinks src_len (ReadTag pw)"
  unfolding ReadTag_def
  by (intro shrinks_mbind shrinks_ReadVarint) (auto split: prod.splits)

lemma shrinks_expect_end: "shrinks src_len expect_end"
  by (simp add: shrinks_def expect_end_def)

lemma shrinks_state [intro]:
  "shrinks f (mget g)" "(\<And>s. f (h s) \<le> f s) \<Longrightarrow> shrinks f (mput h)"
  by (simp_all add: shrinks_def run_simps)

lemma shrinks_read_end_record: "shrinks rd_len (read_end_record pw)"
  unfolding read_end_record_def by (auto intro!: shrink_rules simp: shrinks_def [of _ "mput _"] mput_run)

lemma shrinks_read_checksum: "shrinks rd_len (read_checksum pw)"
proof -
  have 1: "shrinks rd_len (on_src (ReadUInt32 pw))" by (intro shrink_rules)
  have 2: "shrinks rd_len (mseq (on_src expect_end) (mret v))" for v :: u32
    by (intro shrink_rules shrinks_expect_end)
  have "rd_len (snd (read_checksum pw r)) \<le> rd_len r" for r
  proof (cases "on_src (ReadUInt32 pw) r")
    case (Pair x r')
    then have "rd_len r' \<le> rd_len r" using 1 by (metis shrinks_def snd_conv)
    moreover have "rd_len (snd (mseq (on_src expect_end) (mret v) r')) \<le> rd_len r'" for v :: u32
      using 2 by (simp add: shrinks_def)
    ultimately show ?thesis
      using Pair le_trans by (cases x) (fastforce simp: read_checksum_def)+
  qed
  then show ?thesis by (simp add: shrinks_def)
qed

lemma shrinks_read_meta: "shrinks rd_len (read_meta pw rec)"
  unfolding read_meta_def
  by (auto intro!: shrink_rules shrinks_state shrinks_ReadTag shrinks_read_checksum)

lemma shrinks_read_column: "shrinks rd_len (read_column pw rec i)"
  unfolding read_column_def by (auto intro!: shrink_rules shrinks_state shrinks_readField)

lemma Read_step_length: "Read_step pw rec r = (Ret x, r') \<Longrightarrow> rd_len r' < rd_len r"
proof -
  assume a: "Read_step pw rec r = (Ret x, r')"
  then obtain tag wt r1 where t: "on_src (ReadTag pw) r = (Ret (tag, wt), r1)"
    and k: "(if tag = EndRecord then read_end_record pw
       else if tag = MetaCount then read_meta pw rec else read_column pw rec tag) r1 = (Ret x, r')"
    unfolding Read_step_def by (auto elim!: mbind_RetE)
  have "rd_len r1 < rd_len r"
    using t ReadTag_length by (auto simp: on_src_def split: prod.splits)
  moreover have "shrinks rd_len (if tag = EndRecord then read_end_record pw
       else if tag = MetaCount then read_meta pw rec else read_column pw rec tag)"
    by (simp add: shrinks_read_end_record shrinks_read_meta shrinks_read_column)
  then have "rd_len r' \<le> rd_len r1" using k by (rule shrinksD)
  ultimately show ?thesis by linarith
qed

function Read_loop :: "protowire \<Rightarrow> Record \<Rightarrow> (protoc_reader, Record) M" where
  "Read_loop pw rec r =
     (case Read_step pw rec r of
        (Ret (MoreFields rec'), r') \<Rightarrow> Read_loop pw rec' r'
      | (Ret EndOfRecord, r') \<Rightarrow> (Ret rec, r'\<lparr>rd_count := rd_count r' + 1\<rparr>)
      | (Fail e, r') \<Rightarrow> (Fail e, r')
      | (Panic p, r') \<Rightarrow> (Panic p, r'))"
  by pat_completeness auto
termination
  by (relation "measure (\<lambda>(pw, rec, r). rd_len r)") (simp_all, metis Read_step_length)

declare Read_loop.simps [simp del]

definition Read_record :: "protowire \<Rightarrow> (protoc_reader, Record) M" where
  "Read_record pw r = Read_loop pw (replicate (length (rd_columns r)) None) r"

lemma Read_loop_length: "Read_loop pw rec r = (Ret x, r') \<Longrightarrow> rd_len r' < rd_len r"
proof (induction pw rec r rule: Read_loop.induct)
  case (1 pw rec r)
  obtain o' r1 where s: "Read_step pw rec r = (o', r1)" by (cases "Read_step pw rec r")
  show ?case
  proof (cases o')
    case (Ret n)
    then have l: "rd_len r1 < rd_len r" using s Read_step_length by blast
    show ?thesis
    proof (cases n)
      case EndOfRecord
      then show ?thesis using "1.prems" s Ret l by (subst (asm) Read_loop.simps) auto
    next
      case (MoreFields rec')
      then have "Read_loop pw rec' r1 = (Ret x, r')"
        using "1.prems" s Ret by (subst (asm) Read_loop.simps) simp
      then show ?thesis using "1.IH" [OF s [symmetric] Ret MoreFields] l by linarith
    qed
  qed (use "1.prems" s in \<open>subst (asm) Read_loop.simps, simp\<close>)+
qed

text \<open>
  \<open>Iterator\<close>: the calls of the callback, a record or an error each, and what it returns.
\<close>

function Iterator :: "protowire \<Rightarrow> protoc_reader \<Rightarrow> Record outcome list \<times> unit outcome \<times> protoc_reader" where
  "Iterator pw r =
     (case Read_record pw r of
        (Ret rec, r') \<Rightarrow> (case Iterator pw r' of (calls, res) \<Rightarrow> (Ret rec # calls, res))
      | (Fail e, r') \<Rightarrow> (if e = ErrEOF then ([], Ret (), r') else ([Fail e], Fail e, r'))
      | (Panic p, r') \<Rightarrow> ([], Panic p, r'))"
  by pat_completeness auto
termination
  by (relation "measure (\<lambda>(pw, r). rd_len r)") (simp_all add: Read_record_def, metis Read_loop_length)

declare Iterator.simps [simp del]

end
