(* ===== verification/RecordRoundtrip.thy ===== *)
theory RecordRoundtrip
  imports RecordProtoc
begin

section \<open>What the record writer writes, the record reader reads\<close>

text \<open>
  \<open>agree cols m n x\<close> pairs a writer's call with a reader's: on every reliable sink the writer puts some
  bytes on it and feeds some bytes to its record checksum; on every source starting with
  these bytes the reader takes exactly them, feeds its checksum the same, and returns \<open>x\<close>.
  The relation is closed under sequencing, which proves the round trip of fields by
  induction on their type. \<open>canon t v\<close> says which values of a column of type \<open>t\<close> survive.
\<close>

subsection \<open>Pairing a writer's and a reader's call\<close>

definition crc_feed :: "byte list \<Rightarrow> Crc32CheckSum \<Rightarrow> Crc32CheckSum" where
  "crc_feed ds c = Crc_Update (CBytes ds) c"

lemma crc_feed_Nil [simp]: "crc_feed [] c = c"
  by (simp add: crc_feed_def Crc_Update_def)

lemma crc_feed_append [simp]: "crc_feed ys (crc_feed xs c) = crc_feed (xs @ ys) c"
  by (simp add: crc_feed_def Crc_Update_CBytes_append)

lemma Crc_Update_feed: "Crc_Update d c = crc_feed (binary_Write d) c"
  by (simp add: crc_feed_def Crc_Update_def)

definition wfield :: "Column list \<Rightarrow> (protoc_writer, unit) M \<Rightarrow> byte list \<Rightarrow> byte list \<Rightarrow> bool" where
  "wfield cols m bs ds \<longleftrightarrow>
     (\<forall>w. reliable (wr_sink w) \<longrightarrow> wr_columns w = cols \<longrightarrow>
        (\<exists>s'. m w = (Ret (), w\<lparr>wr_sink := s', wr_recordCrc := crc_feed ds (wr_recordCrc w)\<rparr>) \<and>
              reliable s' \<and> sk_out s' = sk_out (wr_sink w) @ bs))"

definition rfield :: "Column list \<Rightarrow> (protoc_reader, 'a) M \<Rightarrow> byte list \<Rightarrow> byte list \<Rightarrow> 'a \<Rightarrow> bool" where
  "rfield cols m bs ds x \<longleftrightarrow>
     (\<forall>r rest e. rd_columns r = cols \<longrightarrow> rd_src r = \<lparr>src_in = bs @ rest, src_end = e\<rparr> \<longrightarrow>
        m r = (Ret x, r\<lparr>rd_src := \<lparr>src_in = rest, src_end = e\<rparr>,
                        rd_recordCrc := crc_feed ds (rd_recordCrc r)\<rparr>))"

definition agree :: "Column list \<Rightarrow> (protoc_writer, unit) M \<Rightarrow> (protoc_reader, 'a) M \<Rightarrow> 'a \<Rightarrow> bool" where
  "agree cols m n x \<longleftrightarrow> (\<exists>bs ds. wfield cols m bs ds \<and> rfield cols n bs ds x)"

lemma wfieldI:
  assumes "\<And>w. reliable (wr_sink w) \<Longrightarrow> wr_columns w = cols \<Longrightarrow>
      m w = (Ret (), w\<lparr>wr_sink := f w, wr_recordCrc := crc_feed ds (wr_recordCrc w)\<rparr>) \<and>
      reliable (f w) \<and> sk_out (f w) = sk_out (wr_sink w) @ bs"
  shows "wfield cols m bs ds"
  unfolding wfield_def
proof (intro allI impI)
  fix w :: protoc_writer assume "reliable (wr_sink w)" "wr_columns w = cols"
  then show "\<exists>s'. m w = (Ret (), w\<lparr>wr_sink := s', wr_recordCrc := crc_feed ds (wr_recordCrc w)\<rparr>) \<and>
      reliable s' \<and> sk_out s' = sk_out (wr_sink w) @ bs"
    using assms by (intro exI [of _ "f w"])
qed

lemma wfield_mret: "wfield cols (mret ()) [] []"
  by (rule wfieldI [where f = wr_sink]) (simp add: mret_run)

lemma wfield_wcrc: "wfield cols (wcrc d) [] (binary_Write d)"
  by (rule wfieldI [where f = wr_sink]) (simp add: wcrc_def Crc_Update_feed)

lemma wfield_on_sink: "writes m bs \<Longrightarrow> wfield cols (on_sink m) bs []"
  by (force simp: wfield_def writes_def on_sink_def)

lemma wfield_mseq:
  assumes "wfield cols m bs ds" and "wfield cols n bs' ds'"
  shows "wfield cols (mseq m n) (bs @ bs') (ds @ ds')"
proof -
  have "\<exists>s'. mseq m n w = (Ret (), w\<lparr>wr_sink := s', wr_recordCrc := crc_feed (ds @ ds') (wr_recordCrc w)\<rparr>) \<and>
             reliable s' \<and> sk_out s' = sk_out (wr_sink w) @ bs @ bs'"
    if w: "reliable (wr_sink w)" "wr_columns w = cols" for w
  proof -
    obtain s1 where 1: "m w = (Ret (), w\<lparr>wr_sink := s1, wr_recordCrc := crc_feed ds (wr_recordCrc w)\<rparr>)"
      "reliable s1" "sk_out s1 = sk_out (wr_sink w) @ bs"
      using assms(1) w unfolding wfield_def by blast
    let ?w = "w\<lparr>wr_sink := s1, wr_recordCrc := crc_feed ds (wr_recordCrc w)\<rparr>"
    have "reliable (wr_sink ?w)" "wr_columns ?w = cols" using 1 w by simp_all
    then obtain s2 where "n ?w = (Ret (), ?w\<lparr>wr_sink := s2, wr_recordCrc := crc_feed ds' (wr_recordCrc ?w)\<rparr>)"
      "reliable s2" "sk_out s2 = sk_out (wr_sink ?w) @ bs'"
      using assms(2) unfolding wfield_def by blast
    with 1 show ?thesis by (intro exI [of _ s2]) (simp add: mseq_Ret)
  qed
  then show ?thesis by (simp add: wfield_def)
qed

lemma rfield_mret: "rfield cols (mret x) [] [] x"
  by (simp add: rfield_def mret_run)

lemma rfield_rcrc: "rfield cols (rcrc d) [] (binary_Write d) ()"
  by (simp add: rfield_def rcrc_def Crc_Update_feed)

lemma rfield_on_src: "reads m bs x \<Longrightarrow> rfield cols (on_src m) bs [] x"
  by (simp add: rfield_def reads_def on_src_def)

lemma rfield_mbind:
  assumes "rfield cols m bs ds x" and "rfield cols (f x) bs' ds' y"
  shows "rfield cols (mbind m f) (bs @ bs') (ds @ ds') y"
proof -
  have "mbind m f r = (Ret y, r\<lparr>rd_src := \<lparr>src_in = rest, src_end = e\<rparr>,
          rd_recordCrc := crc_feed (ds @ ds') (rd_recordCrc r)\<rparr>)"
    if r: "rd_columns r = cols" "rd_src r = \<lparr>src_in = bs @ bs' @ rest, src_end = e\<rparr>" for r rest e
  proof -
    let ?r = "r\<lparr>rd_src := \<lparr>src_in = bs' @ rest, src_end = e\<rparr>, rd_recordCrc := crc_feed ds (rd_recordCrc r)\<rparr>"
    have "m r = (Ret x, ?r)" using assms(1) r unfolding rfield_def by blast
    moreover have "f x ?r = (Ret y, ?r\<lparr>rd_src := \<lparr>src_in = rest, src_end = e\<rparr>,
        rd_recordCrc := crc_feed ds' (rd_recordCrc ?r)\<rparr>)"
      by (rule assms(2) [unfolded rfield_def, rule_format]) (simp_all add: r(1))
    ultimately show ?thesis by (simp add: mbind_Ret)
  qed
  then show ?thesis by (simp add: rfield_def)
qed

lemma rfield_mseq:
  "rfield cols m bs ds x \<Longrightarrow> rfield cols n bs' ds' y \<Longrightarrow> rfield cols (mseq m n) (bs @ bs') (ds @ ds') y"
  unfolding mseq_def by (rule rfield_mbind)

lemma agree_mret: "agree cols (mret ()) (mret x) x"
  unfolding agree_def by (intro exI conjI, rule wfield_mret, rule rfield_mret)

lemma agree_mlift: "agree cols (mret ()) (mlift (Ret x)) x"
  using agree_mret [of cols x] by (simp add: mlift_def mret_def agree_def rfield_def)

lemma agree_mbind:
  assumes "agree cols m n x" and "agree cols m' (f x) y"
  shows "agree cols (mseq m m') (mbind n f) y"
proof -
  obtain bs ds bs' ds' where "wfield cols m bs ds" "rfield cols n bs ds x"
    "wfield cols m' bs' ds'" "rfield cols (f x) bs' ds' y"
    using assms by (auto simp: agree_def)
  then show ?thesis
    unfolding agree_def by (blast intro: wfield_mseq rfield_mbind)
qed

lemma agree_mbind_nothing:
  assumes "agree cols m n x" and "agree cols (mret ()) (f x) y"
  shows "agree cols m (mbind n f) y"
proof -
  have "agree cols (mseq m (mret ())) (mbind n f) y" using assms by (rule agree_mbind)
  moreover have "mseq m (mret ()) = m"
    by (auto simp: fun_eq_iff mseq_def mbind_def mret_def split: prod.splits outcome.splits)
  ultimately show ?thesis by simp
qed

lemma agree_mbind_mret: "agree cols m n x \<Longrightarrow> g x = y \<Longrightarrow> agree cols m (mbind n (\<lambda>v. mret (g v))) y"
  by (erule agree_mbind_nothing) (simp add: agree_mret)

lemma agree_on_sink: "writes m bs \<Longrightarrow> reads n bs x \<Longrightarrow> agree cols (on_sink m) (on_src n) x"
  unfolding agree_def by (blast intro: wfield_on_sink rfield_on_src)

text \<open>The writer feeds the checksum before it writes, the reader after it has read.\<close>

lemma agree_crc:
  assumes "writes m bs" and "reads n bs x"
  shows "agree cols (mseq (wcrc (D x)) (on_sink m)) (mbind (on_src n) (\<lambda>v. mseq (rcrc (D v)) (mret (g v)))) (g x)"
proof -
  have "wfield cols (mseq (wcrc (D x)) (on_sink m)) ([] @ bs) (binary_Write (D x) @ [])"
    by (intro wfield_mseq wfield_wcrc wfield_on_sink assms)
  moreover have "rfield cols (mbind (on_src n) (\<lambda>v. mseq (rcrc (D v)) (mret (g v))))
      (bs @ [] @ []) ([] @ binary_Write (D x) @ []) (g x)"
    by (rule rfield_mbind [OF rfield_on_src [OF assms(2)]])
      (rule rfield_mseq [OF rfield_rcrc rfield_mret])
  ultimately show ?thesis unfolding agree_def by auto
qed

subsection \<open>Values that survive\<close>

definition fits :: "nat \<Rightarrow> bool" where
  "fits n \<longleftrightarrow> n \<le> maxAlloc"

definition i64_range :: "int \<Rightarrow> bool" where
  "i64_range i \<longleftrightarrow> - (2 ^ 63) \<le> i \<and> i < 2 ^ 63"

definition canon_time :: "gotime \<Rightarrow> bool" where
  "canon_time t \<longleftrightarrow> i64_range (t_unix t) \<and> 0 \<le> t_nsec t \<and> t_nsec t < 1000000000"

definition canon_millis :: "gotime \<Rightarrow> bool" where
  "canon_millis t \<longleftrightarrow> i64_range (t_unix t * 1000 + t_nsec t div 1000000) \<and> i64_range (t_unix t) \<and>
     0 \<le> t_nsec t \<and> t_nsec t < 1000000000 \<and> t_nsec t mod 1000000 = 0"

definition canon_date :: "gotime \<Rightarrow> bool" where
  "canon_date t \<longleftrightarrow> i64_range (t_unix t) \<and> t_unix t mod 86400 = 0 \<and> t_nsec t = 0"

fun canon_prim :: "TypeID \<Rightarrow> Data \<Rightarrow> bool" where
  "canon_prim c (DDouble v) = (c = DOUBLE)"
| "canon_prim c (DFloat v) = (c = FLOAT)"
| "canon_prim c (DBool v) = (c = BOOLEAN)"
| "canon_prim c (DBigInt v) = (c = BIGINT)"
| "canon_prim c (DIntervalYearMonth v) = (c = IntervalYearMonth)"
| "canon_prim c (DInt v) = (c = INTID)"
| "canon_prim c (DSmallInt v) = (c = SMALLINT)"
| "canon_prim c (DTinyInt v) = (c = TINYINT)"
| "canon_prim c (DString s) = (c = STRING \<and> fits (length s))"
| "canon_prim c (DBinary b) = (c = BINARY \<and> fits (length b))"
| "canon_prim c (DGeography b) = (c = GEOGRAPHY \<and> fits (length b))"
| "canon_prim c (DDateTime t) = (c = DATETIME \<and> canon_millis t)"
| "canon_prim c (DDate t) = (c = DATE \<and> canon_date t)"
| "canon_prim c (DIntervalDayTime s n) = (c = IntervalDayTime \<and> sint n \<le> 0)"
| "canon_prim c (DTimestamp t) = (c = TIMESTAMP \<and> canon_time t)"
| "canon_prim c (DTimestampNtz t) = (c = TIMESTAMP_NTZ \<and> canon_time t)"
| "canon_prim c d = False"

fun fresh_keys :: "(Data option \<times> Data option) list \<Rightarrow> bool" where
  "fresh_keys [] = True"
| "fresh_keys ((k, v) # kvs) =
     (hashable k \<and> (\<forall>(k', v') \<in> set kvs. \<not> go_key_eq k' k) \<and> fresh_keys kvs)"

text \<open>A struct as \<open>readStruct\<close> builds it: one field per field of its type, in order.\<close>

definition struct_shape :: "StructFieldType list \<Rightarrow> Data \<Rightarrow> bool" where
  "struct_shape fts d =
     (case d of
        DStruct ts fs ix v \<Rightarrow>
          ts = fts \<and> v \<and> map fst fs = map fst ts \<and> distinct (map fst ts) \<and>
          ix = zip (map fst fs) [0..<length fs]
      | _ \<Rightarrow> False)"

fun fields_of :: "Data \<Rightarrow> (string \<times> Data option) list" where
  "fields_of (DStruct ts fs ix v) = fs"
| "fields_of _ = []"

fun entries_of :: "Data \<Rightarrow> (Data option \<times> Data option) list" where
  "entries_of (DMap kt vt kvs v) = kvs"
| "entries_of _ = []"

function canon :: "DataType \<Rightarrow> Data \<Rightarrow> bool" where
  "canon NilType d = False"
| "canon (PrimitiveType c) d = canon_prim c d"
| "canon (CharType n) d =
     (\<exists>s. d = DChar n s \<and> n \<le> 255 \<and> int (length s) \<le> n)"
| "canon (VarcharType n) d =
     (\<exists>s. d = DVarChar n s \<and> n \<le> 65536 \<and> int (length s) \<le> n)"
| "canon (DecimalType p sc) d =
     (\<exists>s. d = DDecimal (NewDecimal (sint p) (sint sc) s) \<and> fits (length s))"
| "canon JsonType d = (\<exists>s. d = DJson s True \<and> fits (length s))"
| "canon (ArrayType e) d =
     (d = DArray e (ToSlice d) True \<and> length (ToSlice d) < 2 ^ 32 \<and>
      (\<forall>x \<in> set (ToSlice d). \<forall>y. x = Some y \<longrightarrow> canon e y))"
| "canon (MapType k v) d =
     (d = DMap k v (entries_of d) True \<and> length (entries_of d) < 2 ^ 32 \<and> fresh_keys (entries_of d) \<and>
      (\<forall>kx \<in> set (entries_of d). (\<forall>y. fst kx = Some y \<longrightarrow> canon k y) \<and> (\<forall>y. snd kx = Some y \<longrightarrow> canon v y)))"
| "canon (StructType fts) d =
     (struct_shape fts d \<and>
      (\<forall>p \<in> set (zip fts (fields_of d)). \<forall>y. snd (snd p) = Some y \<longrightarrow> canon (snd (fst p)) y))"
  by pat_completeness auto
termination
  by (relation "measure (\<lambda>(t, _). size t)") (auto dest!: set_zip_leftD dest: size_field_less)

lemma canon_Type: "canon t d \<Longrightarrow> Type d = t"
proof (cases t)
  case (PrimitiveType c)
  then show "canon t d \<Longrightarrow> Type d = t" by (cases d) auto
next
  case (StructType fts)
  then show "canon t d \<Longrightarrow> Type d = t" by (auto simp: struct_shape_def split: Data.splits)
next
  case (ArrayType e)
  then show "canon t d \<Longrightarrow> Type d = t" by (cases d) auto
next
  case (MapType k v)
  then show "canon t d \<Longrightarrow> Type d = t" by (cases d) auto
qed (auto simp: NewDecimal_def)

subsection \<open>Arithmetic of times\<close>

lemma sdiv_smod: "(M :: int) = 1000 * (M sdiv 1000) + M smod 1000"
  using sdiv_mult_smod_eq [of M 1000] by simp

lemma millis_split:
  fixes M :: int
  shows "(M sdiv 1000) + ((M smod 1000) * 1000000) div 1000000000 = M div 1000"
  "((M smod 1000) * 1000000) mod 1000000000 = (M mod 1000) * 1000000"
proof -
  let ?q = "M sdiv 1000" and ?r = "M smod 1000"
  have M: "M = 1000 * ?q + ?r" by (rule sdiv_smod)
  have "(?r * 1000000) div 1000000000 = ?r div 1000" by simp
  moreover have "M div 1000 = ?q + ?r div 1000" by (subst M) simp
  ultimately show "?q + (?r * 1000000) div 1000000000 = M div 1000" by simp
  have "(?r * 1000000) mod (1000 * 1000000) = (?r mod 1000) * 1000000" by (rule mult_mod_left [symmetric])
  moreover have "M mod 1000 = ?r mod 1000" by (subst M) simp
  ultimately show "(?r * 1000000) mod 1000000000 = (M mod 1000) * 1000000" by simp
qed

lemma sint_i64: "i64_range i \<Longrightarrow> sint (word_of_int i :: i64) = i"
  using sint_word_i64 by (simp add: i64_range_def)

lemma datetime_roundtrip:
  assumes "canon_millis t"
  defines "ms \<equiv> (word_of_int (t_unix t) * 1000 + word_of_int (t_nsec t sdiv 1000000) :: i64)"
  shows "time_Unix (sint ms sdiv 1000) ((sint ms smod 1000) * 1000000) = t"
proof -
  let ?M = "t_unix t * 1000 + t_nsec t div 1000000"
  have r: "i64_range ?M" "i64_range (t_unix t)" "0 \<le> t_nsec t" "t_nsec t < 1000000000"
    "t_nsec t mod 1000000 = 0"
    using assms(1) by (simp_all add: canon_millis_def)
  have "t_nsec t sdiv 1000000 = t_nsec t div 1000000" using r(3) by (simp add: sdiv_pos)
  then have "ms = word_of_int ?M" unfolding ms_def by simp
  then have s: "sint ms = ?M" using sint_i64 [OF r(1)] by simp
  have k: "0 \<le> t_nsec t div 1000000" "t_nsec t div 1000000 < 1000" using r(3,4) by simp_all
  then have "?M div 1000 = t_unix t" "?M mod 1000 = t_nsec t div 1000000" by simp_all
  moreover have "t_nsec t div 1000000 * 1000000 = t_nsec t" using r(5) by (metis div_mult_mod_eq add.right_neutral)
  ultimately show ?thesis
    unfolding time_Unix_def s millis_split using sint_i64 [OF r(2)] by simp
qed

lemma date_roundtrip:
  assumes "canon_date t"
  shows "epoch_add_days (word_of_int (sint (word_of_int (t_unix t) :: i64) sdiv 86400)) = t"
proof -
  have r: "i64_range (t_unix t)" "t_unix t mod 86400 = 0" "t_nsec t = 0"
    using assms by (simp_all add: canon_date_def)
  have "t_unix t sdiv 86400 = t_unix t div 86400"
    using r(2) by (simp add: sdiv_pos zdiv_zminus1_eq_if)
  moreover have "t_unix t div 86400 * 86400 = t_unix t" using r(2) by (metis div_mult_mod_eq add.right_neutral)
  ultimately have "word_of_int (t_unix t sdiv 86400) * 86400 = (word_of_int (t_unix t) :: i64)"
    by (metis of_int_mult of_int_numeral)
  then show ?thesis unfolding epoch_add_days_def sint_i64 [OF r(1)] by (cases t) (use sint_i64 [OF r(1)] r(3) in simp)
qed

lemma timestamp_roundtrip:
  assumes "canon_time t"
  shows "time_Unix (sint (word_of_int (t_unix t) :: i64)) (sint (word_of_int (t_nsec t) :: i32)) = t"
proof -
  have r: "i64_range (t_unix t)" "0 \<le> t_nsec t" "t_nsec t < 1000000000"
    using assms by (simp_all add: canon_time_def)
  then have "sint (word_of_int (t_nsec t) :: i32) = t_nsec t" by (simp add: int_word_sint)
  then show ?thesis using r sint_i64 [OF r(1)] by (cases t) (simp add: time_Unix_def)
qed

lemma ucast_scast_narrow [simp]:
  "ucast (scast (v :: i16) :: i64) = v" "ucast (scast (u :: i8) :: i64) = u"
  by (rule bit_word_eqI; simp add: bit_simps)+

subsection \<open>Loops\<close>

lemma agree_times:
  assumes "\<And>x. x \<in> set xs \<Longrightarrow> agree cols (f x) m x"
  shows "agree cols (mfor f xs) (read_times (length xs) m) xs"
  using assms
proof (induction xs)
  case Nil
  then show ?case using agree_mret [of cols "[]"] by (simp del: mret_def)
next
  case (Cons x xs)
  have "agree cols (mseq (f x) (mfor f xs))
      (mbind m (\<lambda>x. mbind (read_times (length xs) m) (\<lambda>xs. mret (x # xs)))) (x # xs)"
    by (rule agree_mbind [of _ _ _ x]) (use Cons in \<open>auto intro: agree_mbind_mret\<close>)
  then show ?case by simp
qed

lemma map_assign_fresh:
  "\<forall>kv \<in> set kvs. \<not> go_key_eq k (fst kv) \<Longrightarrow> map_assign k v kvs = kvs @ [(k, v)]"
  by (induction kvs) auto

lemma mbind_mlift_Ret: "mbind (mlift (Ret x)) f = f x"
  by (rule ext) (simp add: mbind_def mlift_def)

lemma AList_update_fresh: "n \<notin> fst ` set xs \<Longrightarrow> AList.update n v xs = xs @ [(n, v)]"
  by (induction xs) auto

lemma ofold_fresh_keys:
  assumes "fresh_keys kvs" and "\<And>k v k' v'. (k, v) \<in> set kvs \<Longrightarrow> (k', v') \<in> set acc \<Longrightarrow> \<not> go_key_eq k k'"
  shows "ofold (\<lambda>(key, x) dm. final_state (Map_Set_data key x) dm) kvs (DMap kt vt acc b) =
    Ret (DMap kt vt (acc @ kvs) b)"
  using assms
proof (induction kvs arbitrary: acc)
  case (Cons kv kvs)
  obtain k v where kv: "kv = (k, v)" by (cases kv)
  have put: "map_put k v acc = Ret (acc @ [(k, v)])"
    using Cons.prems kv map_assign_fresh [of acc k v] by (fastforce simp: map_put_def)
  have "ofold (\<lambda>(key, x) dm. final_state (Map_Set_data key x) dm) kvs (DMap kt vt (acc @ [(k, v)]) b) =
    Ret (DMap kt vt ((acc @ [(k, v)]) @ kvs) b)"
    by (rule Cons.IH) (use Cons.prems kv in auto)
  then show ?case using kv put by (simp add: final_state_def)
qed simp

lemma SetField_data_new:
  assumes "n \<notin> set (map fst fs)"
  shows "final_state (SetField_data n d) (DStruct ts fs (zip (map fst fs) [0..<length fs]) v) =
     Ret (DStruct ts (fs @ [(n, d)]) (zip (map fst (fs @ [(n, d)])) [0..<length (fs @ [(n, d)])]) v)"
proof -
  have "map_of (zip (map fst fs) [0..<length fs]) n = None"
    using assms map_of_index_None [of "map fst fs" n] by simp
  moreover have "AList.update n (length fs) (zip (map fst fs) [0..<length fs]) =
      zip (map fst fs) [0..<length fs] @ [(n, length fs)]"
  proof -
    have "n \<notin> fst ` set (zip (map fst fs) [0..<length fs])"
      using assms by (auto dest: set_zip_leftD)
    then show ?thesis by (rule AList_update_fresh)
  qed
  ultimately have "SetField_data n d (DStruct ts fs (zip (map fst fs) [0..<length fs]) v) =
      (Ret (), DStruct ts (fs @ [(n, d)]) (zip (map fst fs) [0..<length fs] @ [(n, length fs)]) v)"
    by (simp only: SetField_data.simps option.case)
  then show ?thesis by (simp add: final_state_def)
qed

subsection \<open>Fields\<close>

context protowire_laws
begin

lemma agree_sint64: "agree cols (write_sint64 pw v) (read_sint64 pw) v"
  unfolding write_sint64_def read_sint64_def
  by (rule agree_crc [where g = "\<lambda>v. v"]) (rule writes_WriteSInt64 reads_ReadSInt64)+

lemma agree_bytes: "fits (length b) \<Longrightarrow> agree cols (write_bytes pw b) (read_bytes pw) b"
  unfolding write_bytes_def read_bytes_def fits_def
  by (rule agree_crc [where g = "\<lambda>v. v"]) (rule writes_WriteBytes, rule reads_ReadBytes)

lemma agree_seconds: "agree cols (write_seconds pw s n) (read_seconds pw) (s, n)"
proof -
  note ws = writes_WriteSInt64 [of s] and wn = writes_WriteSInt32 [of n]
  note rs = reads_ReadSInt64 [of s] and rn = reads_ReadSInt32 [of n]
  let ?b = "AppendVarint pw (EncodeZigZag pw s)" and ?c = "AppendVarint pw (EncodeZigZag pw (scast n))"
  have "wfield cols (write_seconds pw s n) ([] @ [] @ ?b @ ?c)
      (binary_Write (CI64 s) @ binary_Write (CI32 n) @ [] @ [])"
    unfolding write_seconds_def by (intro wfield_mseq wfield_wcrc wfield_on_sink ws wn)
  moreover have "rfield cols (read_seconds pw) (?b @ ?c @ [] @ [] @ [])
      ([] @ [] @ binary_Write (CI64 s) @ binary_Write (CI32 n) @ []) (s, n)"
    unfolding read_seconds_def
    by (rule rfield_mbind [OF rfield_on_src [OF rs]], rule rfield_mbind [OF rfield_on_src [OF rn]])
      (rule rfield_mseq [OF rfield_rcrc], rule rfield_mseq [OF rfield_rcrc rfield_mret])
  ultimately show ?thesis unfolding agree_def by auto
qed

lemma agree_elem:
  assumes "\<And>y. x = Some y \<Longrightarrow> agree cols (f y) m (Some y)"
  shows "agree cols (write_elem pw f x) (read_elem pw m) x"
proof (cases x)
  case None
  have "agree cols (on_sink (WriteBool pw True)) (on_src (ReadBool pw)) True"
    by (rule agree_on_sink writes_WriteBool reads_ReadBool)+
  then show ?thesis
    unfolding None read_elem_def write_elem_def by (auto intro!: agree_mbind_nothing agree_mret)
next
  case (Some y)
  have "agree cols (on_sink (WriteBool pw False)) (on_src (ReadBool pw)) False"
    by (rule agree_on_sink writes_WriteBool reads_ReadBool)+
  then show ?thesis
    unfolding Some read_elem_def write_elem_def option.case
    by (rule agree_mbind) (use assms Some in simp)
qed

lemma agree_array:
  assumes "\<And>y. Some y \<in> set xs \<Longrightarrow> agree cols (f y) (rf t) (Some y)" and "length xs < 2 ^ 32"
  shows "agree cols (writeArray pw f xs) (readArray pw rf t) (DArray t xs True)"
proof -
  have len: "unat (word_of_nat (length xs) :: u32) = length xs"
    using assms(2) by (simp add: unat_of_nat)
  have size: "agree cols (on_sink (WriteInt32 pw (word_of_nat (length xs)))) (on_src (ReadUInt32 pw))
      (word_of_nat (length xs))"
    by (rule agree_on_sink writes_WriteInt32 reads_ReadUInt32_signed)+
  have "agree cols (mfor (write_elem pw f) xs)
      (read_times (length xs) (read_elem pw (rf t))) xs"
    by (rule agree_times, rule agree_elem) (use assms(1) in blast)
  then have elems: "agree cols (mfor (write_elem pw f) xs)
      (mbind (read_times (length xs) (read_elem pw (rf t)))
        (\<lambda>arrayData. mret (UnSafeAppend arrayData (NewArrayWithType t)))) (DArray t xs True)"
    by (rule agree_mbind_mret) (simp add: NewArrayWithType_def)
  show ?thesis
    unfolding writeArray_def readArray_def
    by (rule agree_mbind [OF size]) (simp only: len elems)
qed

lemma agree_map_value:
  assumes "\<And>y x. (Some y, x) \<in> set kvs \<Longrightarrow> agree cols (f y) (rf kt) (Some y)"
    and "\<And>y k. (k, Some y) \<in> set kvs \<Longrightarrow> agree cols (f y) (rf vt) (Some y)"
    and "length kvs < 2 ^ 32" and "fresh_keys kvs"
  shows "agree cols (writeMap pw f kvs) (readMap pw rf kt vt) (DMap kt vt kvs True)"
proof -
  have keys: "agree cols (writeArray pw f (map fst kvs)) (readArray pw rf kt) (DArray kt (map fst kvs) True)"
    by (rule agree_array) (use assms(1,3) in auto)
  have vals: "agree cols (writeArray pw f (map snd kvs)) (readArray pw rf vt) (DArray vt (map snd kvs) True)"
    by (rule agree_array) (use assms(2,3) in auto)
  have fold: "ofold (\<lambda>(key, x) dm. final_state (Map_Set_data key x) dm) kvs (NewMapWithType kt vt) =
      Ret (DMap kt vt kvs True)"
    using ofold_fresh_keys [OF assms(4), of "[]"] by (simp add: NewMapWithType_def)
  have "agree cols (writeArray pw f (map snd kvs)) (mbind (readArray pw rf vt) (\<lambda>vals.
      if Array_Len (DArray kt (map fst kvs) True) \<noteq> Array_Len vals
      then mfail (ErrMsg ''failed to read map'')
      else mlift (ofold (\<lambda>(key, x) dm. final_state (Map_Set_data key x) dm)
         (zip (ToSlice (DArray kt (map fst kvs) True)) (ToSlice vals)) (NewMapWithType kt vt))))
      (DMap kt vt kvs True)"
    by (rule agree_mbind_nothing [OF vals]) (simp add: Array_Len_def zip_map_fst_snd fold agree_mlift)
  then show ?thesis
    unfolding writeMap_def readMap_def by (rule agree_mbind [OF keys])
qed

lemma agree_struct_loop:
  assumes "map fst fs = map fst fts" and "distinct (map fst (acc @ fs))"
    and "\<And>p y. p \<in> set (zip fts fs) \<Longrightarrow> snd (snd p) = Some y \<Longrightarrow> agree cols (f y) (rf (snd (fst p))) (Some y)"
  shows "agree cols (writeStruct pw f fs)
     (readStruct_loop pw rf fts (DStruct ts acc (zip (map fst acc) [0..<length acc]) v))
     (DStruct ts (acc @ fs) (zip (map fst (acc @ fs)) [0..<length (acc @ fs)]) v)"
  using assms
proof (induction fs arbitrary: fts acc)
  case Nil
  then show ?case using agree_mret by (simp add: writeStruct_def del: mret_def)
next
  case (Cons fl fs)
  obtain n x where fl: "fl = (n, x)" by (cases fl)
  obtain t fts' where fts: "fts = (n, t) # fts'"
    using Cons.prems(1) fl by (cases fts) auto
  have el: "agree cols (write_elem pw f x) (read_elem pw (rf t)) x"
    by (rule agree_elem) (use Cons.prems(3) [of "((n, t), (n, x))"] fl fts in auto)
  have "agree cols (writeStruct pw f fs)
     (readStruct_loop pw rf fts' (DStruct ts (acc @ [fl]) (zip (map fst (acc @ [fl])) [0..<length (acc @ [fl])]) v))
     (DStruct ts ((acc @ [fl]) @ fs) (zip (map fst ((acc @ [fl]) @ fs)) [0..<length ((acc @ [fl]) @ fs)]) v)"
    by (rule Cons.IH) (use Cons.prems fl fts in auto)
  moreover have "final_state (SetField_data n x) (DStruct ts acc (zip (map fst acc) [0..<length acc]) v) =
      Ret (DStruct ts (acc @ [fl]) (zip (map fst (acc @ [fl])) [0..<length (acc @ [fl])]) v)"
    unfolding fl by (rule SetField_data_new) (use Cons.prems(2) fl in auto)
  ultimately have "agree cols (writeStruct pw f fs)
     (mbind (mlift (final_state (SetField_data n x) (DStruct ts acc (zip (map fst acc) [0..<length acc]) v)))
        (readStruct_loop pw rf fts'))
     (DStruct ts (acc @ fl # fs) (zip (map fst (acc @ fl # fs)) [0..<length (acc @ fl # fs)]) v)"
    by (simp only: mbind_mlift_Ret append.assoc append_Cons append_Nil)
  then have "agree cols (mseq (write_elem pw f x) (writeStruct pw f fs))
     (readStruct_loop pw rf fts (DStruct ts acc (zip (map fst acc) [0..<length acc]) v))
     (DStruct ts (acc @ fl # fs) (zip (map fst (acc @ fl # fs)) [0..<length (acc @ fl # fs)]) v)"
    unfolding fts readStruct_loop.simps fst_conv snd_conv by (rule agree_mbind [OF el])
  then show ?case using fl by (simp add: writeStruct_def)
qed

lemma agree_prim: "canon_prim c d \<Longrightarrow> agree cols (writeField pw d) (readField pw (PrimitiveType c)) (Some d)"
proof (induction c d rule: canon_prim.induct)
  case (1 c v)
  then show ?case
    by (auto intro: agree_crc [where D = CI64] writes_WriteFloat64 reads_ReadFloat64)
next
  case (2 c v)
  then show ?case
    by (auto intro: agree_crc [where D = CI32] writes_WriteFloat32 reads_ReadFloat32)
next
  case (3 c v)
  then show ?case
    by (auto intro: agree_crc [where D = CBool] writes_WriteBool reads_ReadBool)
next
  case (12 c t)
  then have c: "c = DATETIME" and t: "canon_millis t" by simp_all
  show ?case
    unfolding c using datetime_roundtrip [OF t] by (simp add: Let_def) (rule agree_mbind_mret [OF agree_sint64], simp)
next
  case (13 c t)
  then have c: "c = DATE" and t: "canon_date t" by simp_all
  show ?case
    unfolding c using date_roundtrip [OF t] by (simp add: Let_def) (rule agree_mbind_mret [OF agree_sint64], simp)
next
  case (14 c s n)
  then have c: "c = IntervalDayTime" and n: "sint n \<le> 0" by simp_all
  have "NewIntervalDayTime s n = Ret (DIntervalDayTime s n)"
    using n by (simp add: NewIntervalDayTime_def)
  then show ?case
    unfolding c by simp (rule agree_mbind_nothing [OF agree_seconds], simp add: agree_mlift)
next
  case (15 c t)
  then have c: "c = TIMESTAMP" and t: "canon_time t" by simp_all
  show ?case
    unfolding c using timestamp_roundtrip [OF t]
    by simp (rule agree_mbind_nothing [OF agree_seconds], simp add: agree_mret)
next
  case (16 c t)
  then have c: "c = TIMESTAMP_NTZ" and t: "canon_time t" by simp_all
  show ?case
    unfolding c using timestamp_roundtrip [OF t]
    by simp (rule agree_mbind_nothing [OF agree_seconds], simp add: agree_mret)
qed (auto intro!: agree_mbind_mret [OF agree_sint64] agree_mbind_mret [OF agree_bytes])

lemma agree_field: "canon t d \<Longrightarrow> agree cols (writeField pw d) (readField pw t) (Some d)"
proof (induction t d rule: canon.induct)
  case (2 c d)
  then show ?case by (simp only: canon.simps agree_prim)
next
  case (3 n d)
  then obtain s where d: "d = DChar n s" "n \<le> 255" "int (length s) \<le> n" by auto
  have "fits (length (bytes_of s))" using d by (simp add: fits_def maxAlloc_def)
  from agree_bytes [OF this] show ?case
    unfolding d(1) writeField.simps readField.simps
    by (rule agree_mbind_mret) (use d in \<open>simp add: MakeChar_def\<close>)
next
  case (4 n d)
  then obtain s where d: "d = DVarChar n s" "n \<le> 65536" "int (length s) \<le> n" by auto
  have "fits (length (bytes_of s))" using d by (simp add: fits_def maxAlloc_def)
  from agree_bytes [OF this] show ?case
    unfolding d(1) writeField.simps readField.simps
    by (rule agree_mbind_mret) (use d in \<open>simp add: MakeVarChar_def\<close>)
next
  case (5 p sc d)
  then obtain s where d: "d = DDecimal (NewDecimal (sint p) (sint sc) s)" "fits (length s)" by auto
  have v: "dec_value (NewDecimal (sint p) (sint sc) s) = s" by (simp add: NewDecimal_def)
  have "fits (length (bytes_of s))" using d by simp
  from agree_bytes [OF this] show ?case
    unfolding d(1) writeField.simps readField.simps v by (rule agree_mbind_mret) simp
next
  case (6 d)
  then obtain s where d: "d = DJson s True" "fits (length s)" by auto
  have "fits (length (bytes_of s))" using d by simp
  from agree_bytes [OF this] show ?case
    unfolding d(1) writeField.simps readField.simps writeJson_def by (rule agree_mbind_mret) simp
next
  case (7 e d)
  then have d: "d = DArray e (ToSlice d) True" and len: "length (ToSlice d) < 2 ^ 32"
    and el: "\<And>y. Some y \<in> set (ToSlice d) \<Longrightarrow> agree cols (writeField pw y) (readField pw e) (Some y)"
    by auto
  have "agree cols (writeArray pw (writeField pw) (ToSlice d)) (readArray pw (readField pw) e) d"
    by (subst (2) d) (rule agree_array, rule el, assumption, rule len)
  then show ?case
    by (subst d) (simp only: writeField.simps readField.simps, rule agree_mbind_mret, assumption, simp)
next
  case (8 k v d)
  then have d: "d = DMap k v (entries_of d) True" and len: "length (entries_of d) < 2 ^ 32"
    and fr: "fresh_keys (entries_of d)"
    and ks: "\<And>y x. (Some y, x) \<in> set (entries_of d) \<Longrightarrow> agree cols (writeField pw y) (readField pw k) (Some y)"
    and vs: "\<And>y x. (x, Some y) \<in> set (entries_of d) \<Longrightarrow> agree cols (writeField pw y) (readField pw v) (Some y)"
    by fastforce+
  have "agree cols (writeMap pw (writeField pw) (entries_of d)) (readMap pw (readField pw) k v) d"
    by (subst (2) d) (rule agree_map_value, rule ks, assumption, rule vs, assumption, rule len, rule fr)
  then show ?case
    by (subst d) (simp only: writeField.simps readField.simps, rule agree_mbind_mret, assumption, simp)
next
  case (9 fts d)
  then have sh: "struct_shape fts d"
    and el: "\<And>p y. p \<in> set (zip fts (fields_of d)) \<Longrightarrow> snd (snd p) = Some y \<Longrightarrow>
      agree cols (writeField pw y) (readField pw (snd (fst p))) (Some y)"
    by auto
  obtain fs where d: "d = DStruct fts fs (zip (map fst fs) [0..<length fs]) True"
    and names: "map fst fs = map fst fts" "distinct (map fst fts)"
    using sh by (auto simp: struct_shape_def split: Data.splits)
  have "agree cols (writeStruct pw (writeField pw) fs) (readStruct pw (readField pw) fts) d"
    using agree_struct_loop [of fs fts "[]" cols "writeField pw" "readField pw" fts True] names el
    by (simp add: readStruct_def NewStructWithTyp_def d)
  then show ?case
    unfolding d writeField.simps readField.simps by (rule agree_mbind_mret) simp
qed simp

end

subsection \<open>Records\<close>

definition record_ok :: "Column list \<Rightarrow> Record \<Rightarrow> bool" where
  "record_ok cols rec \<longleftrightarrow> length rec \<le> length cols \<and>
     (\<forall>i < length rec. \<forall>d. rec ! i = Some d \<longrightarrow> canon (col_Type (cols ! i)) d)"

text \<open>The reader's record has a value for every column.\<close>

definition pad_record :: "Column list \<Rightarrow> Record \<Rightarrow> Record" where
  "pad_record cols rec = rec @ replicate (length cols - length rec) None"

definition put_column :: "nat \<times> Data option \<Rightarrow> Record \<Rightarrow> Record" where
  "put_column iv rec = (case snd iv of None \<Rightarrow> rec | Some d \<Rightarrow> rec[fst iv := Some d])"

lemma fold_put_column:
  "length xs \<le> m \<Longrightarrow> fold put_column (enumerate (length pre) xs) (pre @ replicate m None) =
     pre @ xs @ replicate (m - length xs) None"
proof (induction xs arbitrary: pre m)
  case (Cons x xs)
  then obtain m' where m: "m = Suc m'" by (cases m) auto
  have "put_column (length pre, x) (pre @ replicate m None) = (pre @ [x]) @ replicate m' None"
    by (auto simp: put_column_def m list_update_append split: option.splits)
  then show ?case using Cons.IH [of m' "pre @ [x]"] Cons.prems m by simp
qed simp

lemma canon_wire_type: "canon t d \<Longrightarrow> \<exists>wt. wire_type (ID t) = Some wt"
proof (cases t)
  case (PrimitiveType c)
  then show "canon t d \<Longrightarrow> \<exists>wt. wire_type (ID t) = Some wt" by (cases d) (auto simp: wire_type_def)
qed (auto simp: wire_type_def)

lemma canon_no_null: "canon t d \<Longrightarrow> Type d \<noteq> PrimitiveType NULL \<and> t \<noteq> NilType"
proof -
  assume c: "canon t d"
  then have "Type d = t" by (rule canon_Type)
  moreover have "t \<noteq> NilType" using c by auto
  moreover have "t \<noteq> PrimitiveType NULL" using c by (cases d) auto
  ultimately show ?thesis by simp
qed

lemma wire_type_less: "wire_type t = Some wt \<Longrightarrow> wt < 8"
  by (auto simp: wire_type_def split: if_splits)

lemma wfield_mget: "wfield cols (f cols) bs ds \<Longrightarrow> wfield cols (mbind (mget wr_columns) f) bs ds"
  by (simp add: wfield_def mbind_def mget_def)

lemma rfield_mget: "rfield cols (f cols) bs ds x \<Longrightarrow> rfield cols (mbind (mget rd_columns) f) bs ds x"
  by (simp add: rfield_def mbind_def mget_def)

text \<open>What \<open>close\<close> writes: the record count and the checksum of the record checksums.\<close>

definition trailer :: "protowire \<Rightarrow> i64 \<Rightarrow> u32 \<Rightarrow> byte list" where
  "trailer pw n c = AppendVarint pw (EncodeTag pw MetaCount VarintType) @ AppendVarint pw (EncodeZigZag pw n) @
     AppendVarint pw (EncodeTag pw MetaChecksum VarintType) @ AppendVarint pw (ucast c)"

lemma mfor_append: "mfor f (xs @ ys) = mseq (mfor f xs) (mfor f ys)"
proof (induction xs)
  case Nil
  then show ?case by (simp add: fun_eq_iff mseq_def mbind_def mret_def)
next
  case (Cons x xs)
  have "mseq (f x) (mseq (mfor f xs) (mfor f ys)) s = mseq (mseq (f x) (mfor f xs)) (mfor f ys) s" for s
    by (simp add: mseq_def mbind_def split: prod.splits outcome.splits)
  then have "mseq (f x) (mseq (mfor f xs) (mfor f ys)) = mseq (mseq (f x) (mfor f xs)) (mfor f ys)" by blast
  then show ?case using Cons by simp
qed

context protowire_laws
begin

lemma agree_columns:
  assumes "canon (col_Type (cols ! i)) d" and "i < length cols" and "length cols < 33553408"
  shows "\<exists>bs ds. wfield cols (write_column pw (i, Some d)) bs ds \<and>
    (\<forall>rec. rfield cols (Read_step pw rec) bs ds (MoreFields (rec[i := Some d])))"
proof -
  let ?t = "col_Type (cols ! i)" and ?n = "word_of_int (int i + 1) :: i32"
  obtain wt where wt: "wire_type (ID ?t) = Some wt" using canon_wire_type assms(1) by blast
  have n: "sint ?n = int i + 1" by (subst int_word_sint) (use assms(2,3) in simp)
  have tag: "reads (ReadTag pw) (AppendVarint pw (EncodeTag pw ?n wt)) (?n, wt)"
    by (rule reads_ReadTag) (use n wire_type_less [OF wt] assms(2,3) in simp_all)
  have ne: "?n \<noteq> EndRecord" "?n \<noteq> MetaCount"
    using n assms(2,3) by (auto simp: EndRecord_def MetaCount_def)
  obtain bs ds where ag: "wfield cols (writeField pw d) bs ds" "rfield cols (readField pw ?t) bs ds (Some d)"
    using agree_field [OF assms(1)] unfolding agree_def by blast
  let ?tag = "AppendVarint pw (EncodeTag pw ?n wt)"
  have "wfield cols (mseq (wcrc (CI32 ?n)) (mbind (mget wr_columns) (\<lambda>cs.
      mseq (writeFieldTag pw (int i + 1) (col_Type (cs ! i))) (writeField pw d))))
      ([] @ ?tag @ bs) (binary_Write (CI32 ?n) @ [] @ ds)"
  proof (rule wfield_mseq [OF wfield_wcrc], rule wfield_mget, rule wfield_mseq [OF _ ag(1)])
    have "writeFieldTag pw (int i + 1) ?t = on_sink (WriteTag pw ?n wt)"
      using wt canon_no_null [OF assms(1)] by (simp add: writeFieldTag_def)
    then show "wfield cols (writeFieldTag pw (int i + 1) ?t) ?tag []"
      using wfield_on_sink [OF writes_WriteTag] by simp
  qed
  then have "wfield cols (write_column pw (i, Some d)) (?tag @ bs) (binary_Write (CI32 ?n) @ ds)"
    using canon_no_null [OF assms(1)] by (simp add: write_column_def)
  moreover have "rfield cols (Read_step pw rec) (?tag @ [] @ bs) ([] @ binary_Write (CI32 ?n) @ ds)
      (MoreFields (rec[i := Some d]))" for rec
    unfolding Read_step_def
  proof (rule rfield_mbind [OF rfield_on_src [OF tag]])
    have more: "rfield cols (mbind (readField pw ?t) (\<lambda>fv. mret (MoreFields (rec[i := fv])))) (bs @ []) (ds @ [])
       (MoreFields (rec[i := Some d]))"
      by (rule rfield_mbind [OF ag(2) rfield_mret])
    have "rfield cols (read_column pw rec ?n) ([] @ bs) (binary_Write (CI32 ?n) @ ds) (MoreFields (rec[i := Some d]))"
      unfolding read_column_def n
      by (rule rfield_mget) (use assms(2) rfield_mseq [OF rfield_rcrc [of cols "CI32 ?n"] more] in simp)
    then show "rfield cols (case (?n, wt) of (tag, _) \<Rightarrow>
        if tag = EndRecord then read_end_record pw
        else if tag = MetaCount then read_meta pw rec else read_column pw rec tag)
      ([] @ bs) (binary_Write (CI32 ?n) @ ds) (MoreFields (rec[i := Some d]))"
      using ne by simp
  qed
  ultimately show ?thesis by (intro exI conjI allI) simp_all
qed

lemma write_read_columns:
  assumes "\<And>i x. (i, x) \<in> set ivs \<Longrightarrow> i < length cols \<and> (\<forall>d. x = Some d \<longrightarrow> canon (col_Type (cols ! i)) d)"
    and "length cols < 33553408"
  shows "\<exists>bs ds. wfield cols (mfor (write_column pw) ivs) bs ds \<and>
    (\<forall>rec r rest e. rd_columns r = cols \<longrightarrow> rd_src r = \<lparr>src_in = bs @ rest, src_end = e\<rparr> \<longrightarrow>
       Read_loop pw rec r = Read_loop pw (fold put_column ivs rec)
         (r\<lparr>rd_src := \<lparr>src_in = rest, src_end = e\<rparr>, rd_recordCrc := crc_feed ds (rd_recordCrc r)\<rparr>))"
  using assms(1)
proof (induction ivs)
  case Nil
  have "Read_loop pw rec r = Read_loop pw rec (r\<lparr>rd_src := \<lparr>src_in = rest, src_end = e\<rparr>,
      rd_recordCrc := crc_feed [] (rd_recordCrc r)\<rparr>)"
    if "rd_src r = \<lparr>src_in = [] @ rest, src_end = e\<rparr>" for rec r rest e
  proof -
    have "r\<lparr>rd_src := \<lparr>src_in = rest, src_end = e\<rparr>\<rparr> = r" using that by simp
    then show ?thesis by simp
  qed
  then show ?case
    by (intro exI [of _ "[]"] conjI allI impI) (simp_all only: mfor.simps wfield_mret fold_simps)
next
  case (Cons iv ivs)
  obtain i x where iv: "iv = (i, x)" by (cases iv)
  obtain bs ds where IH: "wfield cols (mfor (write_column pw) ivs) bs ds"
    "\<And>rec r rest e. rd_columns r = cols \<Longrightarrow> rd_src r = \<lparr>src_in = bs @ rest, src_end = e\<rparr> \<Longrightarrow>
       Read_loop pw rec r = Read_loop pw (fold put_column ivs rec)
         (r\<lparr>rd_src := \<lparr>src_in = rest, src_end = e\<rparr>, rd_recordCrc := crc_feed ds (rd_recordCrc r)\<rparr>)"
    using Cons by force
  show ?case
  proof (cases x)
    case None
    then have "write_column pw iv = mret ()" by (simp add: iv write_column_def)
    then have "wfield cols (mfor (write_column pw) (iv # ivs)) ([] @ bs) ([] @ ds)"
      using wfield_mseq [OF wfield_mret IH(1)] by simp
    moreover have "put_column iv rec = rec" for rec by (simp add: put_column_def iv None)
    ultimately show ?thesis using IH(2) by (intro exI [of _ bs] exI [of _ ds]) simp
  next
    case (Some d)
    have ok: "canon (col_Type (cols ! i)) d" "i < length cols" using Cons.prems iv Some by auto
    obtain bs1 ds1 where col: "wfield cols (write_column pw iv) bs1 ds1"
      "\<And>rec. rfield cols (Read_step pw rec) bs1 ds1 (MoreFields (rec[i := Some d]))"
      using agree_columns [OF ok assms(2)] iv Some by blast
    have "wfield cols (mfor (write_column pw) (iv # ivs)) (bs1 @ bs) (ds1 @ ds)"
      using wfield_mseq [OF col(1) IH(1)] by simp
    moreover have "Read_loop pw rec r = Read_loop pw (fold put_column (iv # ivs) rec)
         (r\<lparr>rd_src := \<lparr>src_in = rest, src_end = e\<rparr>, rd_recordCrc := crc_feed (ds1 @ ds) (rd_recordCrc r)\<rparr>)"
      if r: "rd_columns r = cols" "rd_src r = \<lparr>src_in = (bs1 @ bs) @ rest, src_end = e\<rparr>" for rec r rest e
    proof -
      let ?r = "r\<lparr>rd_src := \<lparr>src_in = bs @ rest, src_end = e\<rparr>, rd_recordCrc := crc_feed ds1 (rd_recordCrc r)\<rparr>"
      have "Read_step pw rec r = (Ret (MoreFields (rec[i := Some d])), ?r)"
        using col(2) [of rec] r unfolding rfield_def by simp
      then have "Read_loop pw rec r = Read_loop pw (rec[i := Some d]) ?r"
        by (subst Read_loop.simps) simp
      moreover have "put_column iv rec = rec[i := Some d]" by (simp add: put_column_def iv Some)
      ultimately show ?thesis using IH(2) [of ?r rest e "rec[i := Some d]"] r(1) by simp
    qed
    ultimately show ?thesis by blast
  qed
qed

lemma EndRecord_tag: "reads (ReadTag pw) (AppendVarint pw (EncodeTag pw EndRecord VarintType)) (EndRecord, VarintType)"
  by (rule reads_ReadTag) (simp_all add: EndRecord_def)

lemma write_read_record:
  assumes "record_ok cols rec" and "length cols < 33553408"
  shows "\<exists>bs c.
    (\<forall>w. reliable (wr_sink w) \<longrightarrow> wr_columns w = cols \<longrightarrow> wr_recordCrc w = NewCrc32CheckSum \<longrightarrow>
       (\<exists>s'. Write_record pw rec w = (Ret (), w\<lparr>wr_sink := s', wr_crcOfCrc := Crc_Update (CI32 c) (wr_crcOfCrc w),
            wr_count := wr_count w + 1\<rparr>) \<and> reliable s' \<and> sk_out s' = sk_out (wr_sink w) @ bs)) \<and>
    (\<forall>r rest e. rd_columns r = cols \<longrightarrow> rd_recordCrc r = NewCrc32CheckSum \<longrightarrow>
       rd_src r = \<lparr>src_in = bs @ rest, src_end = e\<rparr> \<longrightarrow>
       Read_record pw r = (Ret (pad_record cols rec), r\<lparr>rd_src := \<lparr>src_in = rest, src_end = e\<rparr>,
         rd_crcOfCrc := Crc_Update (CI32 c) (rd_crcOfCrc r), rd_count := rd_count r + 1\<rparr>))"
proof -
  let ?ivs = "enumerate 0 rec"
  have "\<exists>bs ds. wfield cols (mfor (write_column pw) ?ivs) bs ds \<and>
    (\<forall>rec r rest e. rd_columns r = cols \<longrightarrow> rd_src r = \<lparr>src_in = bs @ rest, src_end = e\<rparr> \<longrightarrow>
       Read_loop pw rec r = Read_loop pw (fold put_column ?ivs rec)
         (r\<lparr>rd_src := \<lparr>src_in = rest, src_end = e\<rparr>, rd_recordCrc := crc_feed ds (rd_recordCrc r)\<rparr>))"
    by (rule write_read_columns [OF _ assms(2)])
      (use assms(1) in \<open>auto simp: record_ok_def in_set_enumerate_eq\<close>)
  then obtain bs ds where w: "wfield cols (mfor (write_column pw) ?ivs) bs ds"
    and r: "\<And>rec r rest e. rd_columns r = cols \<Longrightarrow> rd_src r = \<lparr>src_in = bs @ rest, src_end = e\<rparr> \<Longrightarrow>
       Read_loop pw rec r = Read_loop pw (fold put_column ?ivs rec)
         (r\<lparr>rd_src := \<lparr>src_in = rest, src_end = e\<rparr>, rd_recordCrc := crc_feed ds (rd_recordCrc r)\<rparr>)"
    by blast
  let ?c = "Crc_Value (crc_feed ds NewCrc32CheckSum)"
  let ?t = "AppendVarint pw (EncodeTag pw EndRecord VarintType)" and ?v = "AppendVarint pw (ucast ?c)"
  have "\<exists>s'. Write_record pw rec w = (Ret (), w\<lparr>wr_sink := s', wr_crcOfCrc := Crc_Update (CI32 ?c) (wr_crcOfCrc w),
            wr_count := wr_count w + 1\<rparr>) \<and> reliable s' \<and> sk_out s' = sk_out (wr_sink w) @ bs @ ?t @ ?v"
    if a: "reliable (wr_sink w)" "wr_columns w = cols" "wr_recordCrc w = NewCrc32CheckSum" for w
  proof -
    obtain s1 where 1: "mfor (write_column pw) ?ivs w =
        (Ret (), w\<lparr>wr_sink := s1, wr_recordCrc := crc_feed ds NewCrc32CheckSum\<rparr>)"
      "reliable s1" "sk_out s1 = sk_out (wr_sink w) @ bs"
      using w a unfolding wfield_def by metis
    obtain s2 where 2: "WriteTag pw EndRecord VarintType s1 = (Ret (), s2)" "reliable s2"
      "sk_out s2 = sk_out s1 @ ?t"
      using writes_WriteTag 1(2) unfolding writes_def by blast
    obtain s3 where 3: "WriteUInt32 pw ?c s2 = (Ret (), s3)" "reliable s3" "sk_out s3 = sk_out s2 @ ?v"
      using writes_WriteUInt32 2(2) unfolding writes_def by blast
    have "Write_record pw rec w = (Ret (), w\<lparr>wr_sink := s3, wr_recordCrc := NewCrc32CheckSum,
        wr_crcOfCrc := Crc_Update (CI32 ?c) (wr_crcOfCrc w), wr_count := wr_count w + 1\<rparr>)"
      using assms(1) a(2) 1(1) 2(1) 3(1)
      by (simp add: Write_record_def record_ok_def mseq_def mbind_def mget_def mput_def on_sink_def end_record_def)
    moreover have "w\<lparr>wr_recordCrc := NewCrc32CheckSum\<rparr> = w" using a(3) by simp
    ultimately show ?thesis using 1 2 3 a(3) by (intro exI [of _ s3]) (cases w, simp)
  qed
  moreover have "Read_record pw r = (Ret (pad_record cols rec), r\<lparr>rd_src := \<lparr>src_in = rest, src_end = e\<rparr>,
         rd_crcOfCrc := Crc_Update (CI32 ?c) (rd_crcOfCrc r), rd_count := rd_count r + 1\<rparr>)"
    if a: "rd_columns r = cols" "rd_recordCrc r = NewCrc32CheckSum"
      "rd_src r = \<lparr>src_in = (bs @ ?t @ ?v) @ rest, src_end = e\<rparr>" for r rest e
  proof -
    let ?r1 = "r\<lparr>rd_src := \<lparr>src_in = ?t @ ?v @ rest, src_end = e\<rparr>, rd_recordCrc := crc_feed ds NewCrc32CheckSum\<rparr>"
    let ?rec0 = "replicate (length cols) None :: Record"
    have fold: "fold put_column ?ivs ?rec0 = pad_record cols rec"
      using fold_put_column [of rec "length cols" "[]"] assms(1) by (simp add: record_ok_def pad_record_def)
    have l: "Read_loop pw ?rec0 r = Read_loop pw (pad_record cols rec) ?r1"
      using r [OF a(1), of "?t @ ?v @ rest" e ?rec0] a(2,3) fold by simp
    have "on_src (ReadTag pw) ?r1 = (Ret (EndRecord, VarintType), ?r1\<lparr>rd_src := \<lparr>src_in = ?v @ rest, src_end = e\<rparr>\<rparr>)"
      using EndRecord_tag by (simp add: on_src_def reads_def)
    moreover have "on_src (ReadUInt32 pw) (?r1\<lparr>rd_src := \<lparr>src_in = ?v @ rest, src_end = e\<rparr>\<rparr>) =
       (Ret ?c, ?r1\<lparr>rd_src := \<lparr>src_in = rest, src_end = e\<rparr>\<rparr>)"
      using reads_ReadUInt32 [of ?c] by (simp add: on_src_def reads_def)
    ultimately have "Read_step pw (pad_record cols rec) ?r1 = (Ret EndOfRecord,
        r\<lparr>rd_src := \<lparr>src_in = rest, src_end = e\<rparr>, rd_recordCrc := NewCrc32CheckSum,
          rd_crcOfCrc := Crc_Update (CI32 ?c) (rd_crcOfCrc r)\<rparr>)"
      by (simp add: Read_step_def read_end_record_def mbind_def mseq_def mget_def mput_def mret_def)
    then have "Read_record pw r = (Ret (pad_record cols rec), r\<lparr>rd_src := \<lparr>src_in = rest, src_end = e\<rparr>,
        rd_recordCrc := NewCrc32CheckSum, rd_crcOfCrc := Crc_Update (CI32 ?c) (rd_crcOfCrc r),
        rd_count := rd_count r + 1\<rparr>)"
      unfolding Read_record_def a(1) l by (subst Read_loop.simps) simp
    then show ?thesis using a(2) by (cases r) simp
  qed
  ultimately show ?thesis by blast
qed

definition writes_records :: "Column list \<Rightarrow> Record list \<Rightarrow> byte list \<Rightarrow> u32 list \<Rightarrow> bool" where
  "writes_records cols recs bs cs \<longleftrightarrow>
    (\<forall>w. reliable (wr_sink w) \<longrightarrow> wr_columns w = cols \<longrightarrow> wr_recordCrc w = NewCrc32CheckSum \<longrightarrow>
       (\<exists>s'. mfor (Write_record pw) recs w = (Ret (), w\<lparr>wr_sink := s',
            wr_crcOfCrc := fold (\<lambda>c. Crc_Update (CI32 c)) cs (wr_crcOfCrc w),
            wr_count := wr_count w + of_nat (length recs)\<rparr>) \<and> reliable s' \<and> sk_out s' = sk_out (wr_sink w) @ bs))"

definition reads_records :: "Column list \<Rightarrow> Record list \<Rightarrow> byte list \<Rightarrow> u32 list \<Rightarrow> bool" where
  "reads_records cols recs bs cs \<longleftrightarrow>
    (\<forall>r rest e. rd_columns r = cols \<longrightarrow> rd_recordCrc r = NewCrc32CheckSum \<longrightarrow>
       rd_src r = \<lparr>src_in = bs @ rest, src_end = e\<rparr> \<longrightarrow>
       Iterator pw r = (case Iterator pw (r\<lparr>rd_src := \<lparr>src_in = rest, src_end = e\<rparr>,
            rd_crcOfCrc := fold (\<lambda>c. Crc_Update (CI32 c)) cs (rd_crcOfCrc r),
            rd_count := rd_count r + of_nat (length recs)\<rparr>)
          of (calls, res) \<Rightarrow> (map (\<lambda>rec. Ret (pad_record cols rec)) recs @ calls, res)))"

lemma writes_records_Nil: "writes_records cols [] [] []"
  unfolding writes_records_def
proof (intro allI impI)
  fix w :: protoc_writer assume "reliable (wr_sink w)"
  then show "\<exists>s'. mfor (Write_record pw) [] w = (Ret (), w\<lparr>wr_sink := s',
            wr_crcOfCrc := fold (\<lambda>c. Crc_Update (CI32 c)) [] (wr_crcOfCrc w),
            wr_count := wr_count w + of_nat (length ([] :: Record list))\<rparr>) \<and> reliable s' \<and> sk_out s' = sk_out (wr_sink w) @ []"
    by (intro exI [of _ "wr_sink w"]) (simp add: mret_run)
qed

lemma reads_records_Nil: "reads_records cols [] [] []"
  unfolding reads_records_def
proof (intro allI impI)
  fix r :: protoc_reader and rest e assume "rd_src r = \<lparr>src_in = [] @ rest, src_end = e\<rparr>"
  then have "r\<lparr>rd_src := \<lparr>src_in = rest, src_end = e\<rparr>\<rparr> = r" by simp
  then show "Iterator pw r = (case Iterator pw (r\<lparr>rd_src := \<lparr>src_in = rest, src_end = e\<rparr>,
            rd_crcOfCrc := fold (\<lambda>c. Crc_Update (CI32 c)) [] (rd_crcOfCrc r),
            rd_count := rd_count r + of_nat (length ([] :: Record list))\<rparr>)
          of (calls, res) \<Rightarrow> (map (\<lambda>rec. Ret (pad_record cols rec)) [] @ calls, res))"
    by (cases "Iterator pw r") simp
qed

lemma write_read_records:
  assumes "\<And>rec. rec \<in> set recs \<Longrightarrow> record_ok cols rec" and "length cols < 33553408"
  shows "\<exists>bs cs. writes_records cols recs bs cs \<and> reads_records cols recs bs cs"
  using assms(1)
proof (induction recs)
  case Nil
  then show ?case using writes_records_Nil reads_records_Nil by blast
next
  case (Cons rec recs)
  have "\<exists>bs cs. writes_records cols recs bs cs \<and> reads_records cols recs bs cs"
    by (rule Cons.IH, rule Cons.prems) simp
  then obtain bs cs where IH: "writes_records cols recs bs cs" "reads_records cols recs bs cs" by blast
  have "record_ok cols rec" by (rule Cons.prems) simp
  from write_read_record [OF this assms(2)]
  obtain b1 c where Rw: "\<And>w. reliable (wr_sink w) \<Longrightarrow> wr_columns w = cols \<Longrightarrow> wr_recordCrc w = NewCrc32CheckSum \<Longrightarrow>
       \<exists>s'. Write_record pw rec w = (Ret (), w\<lparr>wr_sink := s', wr_crcOfCrc := Crc_Update (CI32 c) (wr_crcOfCrc w),
            wr_count := wr_count w + 1\<rparr>) \<and> reliable s' \<and> sk_out s' = sk_out (wr_sink w) @ b1"
    and Rr: "\<And>r rest e. rd_columns r = cols \<Longrightarrow> rd_recordCrc r = NewCrc32CheckSum \<Longrightarrow>
       rd_src r = \<lparr>src_in = b1 @ rest, src_end = e\<rparr> \<Longrightarrow>
       Read_record pw r = (Ret (pad_record cols rec), r\<lparr>rd_src := \<lparr>src_in = rest, src_end = e\<rparr>,
         rd_crcOfCrc := Crc_Update (CI32 c) (rd_crcOfCrc r), rd_count := rd_count r + 1\<rparr>)"
    by (elim exE conjE) (rule that; blast)
  have "writes_records cols (rec # recs) (b1 @ bs) (c # cs)"
    unfolding writes_records_def
  proof (intro allI impI)
    fix w :: protoc_writer
    assume w: "reliable (wr_sink w)" "wr_columns w = cols" "wr_recordCrc w = NewCrc32CheckSum"
    obtain s1 where 1: "Write_record pw rec w = (Ret (), w\<lparr>wr_sink := s1,
        wr_crcOfCrc := Crc_Update (CI32 c) (wr_crcOfCrc w), wr_count := wr_count w + 1\<rparr>)"
      "reliable s1" "sk_out s1 = sk_out (wr_sink w) @ b1"
      using Rw [OF w] by blast
    let ?w = "w\<lparr>wr_sink := s1, wr_crcOfCrc := Crc_Update (CI32 c) (wr_crcOfCrc w), wr_count := wr_count w + 1\<rparr>"
    obtain s2 where "mfor (Write_record pw) recs ?w = (Ret (), ?w\<lparr>wr_sink := s2,
            wr_crcOfCrc := fold (\<lambda>c. Crc_Update (CI32 c)) cs (wr_crcOfCrc ?w),
            wr_count := wr_count ?w + of_nat (length recs)\<rparr>)" "reliable s2" "sk_out s2 = sk_out (wr_sink ?w) @ bs"
      using IH(1) [unfolded writes_records_def, rule_format, of ?w] w 1 by auto
    then show "\<exists>s'. mfor (Write_record pw) (rec # recs) w = (Ret (), w\<lparr>wr_sink := s',
            wr_crcOfCrc := fold (\<lambda>c. Crc_Update (CI32 c)) (c # cs) (wr_crcOfCrc w),
            wr_count := wr_count w + of_nat (length (rec # recs))\<rparr>) \<and> reliable s' \<and>
            sk_out s' = sk_out (wr_sink w) @ b1 @ bs"
      using 1 by (intro exI [of _ s2]) (simp add: mseq_Ret add.assoc)
  qed
  moreover have "reads_records cols (rec # recs) (b1 @ bs) (c # cs)"
    unfolding reads_records_def
  proof (intro allI impI)
    fix r :: protoc_reader and rest e
    assume r: "rd_columns r = cols" "rd_recordCrc r = NewCrc32CheckSum"
      "rd_src r = \<lparr>src_in = (b1 @ bs) @ rest, src_end = e\<rparr>"
    let ?r = "r\<lparr>rd_src := \<lparr>src_in = bs @ rest, src_end = e\<rparr>,
         rd_crcOfCrc := Crc_Update (CI32 c) (rd_crcOfCrc r), rd_count := rd_count r + 1\<rparr>"
    have "Read_record pw r = (Ret (pad_record cols rec), ?r)" by (rule Rr) (use r in simp_all)
    then have "Iterator pw r = (case Iterator pw ?r of (calls, res) \<Rightarrow> (Ret (pad_record cols rec) # calls, res))"
      by (subst Iterator.simps) simp
    moreover note IH(2) [unfolded reads_records_def, rule_format, of ?r rest e]
    ultimately show "Iterator pw r = (case Iterator pw (r\<lparr>rd_src := \<lparr>src_in = rest, src_end = e\<rparr>,
            rd_crcOfCrc := fold (\<lambda>c. Crc_Update (CI32 c)) (c # cs) (rd_crcOfCrc r),
            rd_count := rd_count r + of_nat (length (rec # recs))\<rparr>)
          of (calls, res) \<Rightarrow> (map (\<lambda>rec. Ret (pad_record cols rec)) (rec # recs) @ calls, res))"
      using r(1,2) by (simp add: add.assoc split: prod.splits)
  qed
  ultimately show ?case by blast
qed

lemma meta_tags:
  "reads (ReadTag pw) (AppendVarint pw (EncodeTag pw MetaCount VarintType)) (MetaCount, VarintType)"
  "reads (ReadTag pw) (AppendVarint pw (EncodeTag pw MetaChecksum VarintType)) (MetaChecksum, VarintType)"
  by (rule reads_ReadTag; simp add: MetaCount_def MetaChecksum_def)+

lemma close_writer_trailer:
  assumes "reliable (wr_sink w)" and "wr_closeAnswer w = Ret ()" and "\<not> wr_closed w" and "wr_http w = None"
  shows "\<exists>s'. Close_writer pw w = (Ret (), w\<lparr>wr_closed := True, wr_sink := s'\<rparr>) \<and> reliable s' \<and>
    sk_out s' = sk_out (wr_sink w) @ trailer pw (wr_count w) (Crc_Value (wr_crcOfCrc w))"
proof -
  obtain s1 where 1: "WriteTag pw MetaCount VarintType (wr_sink w) = (Ret (), s1)" "reliable s1"
    "sk_out s1 = sk_out (wr_sink w) @ AppendVarint pw (EncodeTag pw MetaCount VarintType)"
    using writes_WriteTag assms(1) unfolding writes_def by blast
  obtain s2 where 2: "WriteSInt64 pw (wr_count w) s1 = (Ret (), s2)" "reliable s2"
    "sk_out s2 = sk_out s1 @ AppendVarint pw (EncodeZigZag pw (wr_count w))"
    using writes_WriteSInt64 1(2) unfolding writes_def by blast
  obtain s3 where 3: "WriteTag pw MetaChecksum VarintType s2 = (Ret (), s3)" "reliable s3"
    "sk_out s3 = sk_out s2 @ AppendVarint pw (EncodeTag pw MetaChecksum VarintType)"
    using writes_WriteTag 2(2) unfolding writes_def by blast
  obtain s4 where 4: "WriteUInt32 pw (Crc_Value (wr_crcOfCrc w)) s3 = (Ret (), s4)" "reliable s4"
    "sk_out s4 = sk_out s3 @ AppendVarint pw (ucast (Crc_Value (wr_crcOfCrc w)))"
    using writes_WriteUInt32 3(2) unfolding writes_def by blast
  have "close_writer pw (w\<lparr>wr_closed := True\<rparr>) = (Ret (), w\<lparr>wr_closed := True, wr_sink := s4\<rparr>)"
    using 1(1) 2(1) 3(1) 4(1) assms(2)
    by (simp add: close_writer_def mseq_def mbind_def mget_def mlift_def on_sink_def)
  then show ?thesis
    using 1 2 3 4 assms(3,4) by (intro exI [of _ s4]) (simp add: Close_writer_def trailer_def)
qed

lemma Iterator_trailer:
  assumes "rd_src r = \<lparr>src_in = trailer pw (rd_count r) (Crc_Value (rd_crcOfCrc r)), src_end = ErrEOF\<rparr>"
  shows "\<exists>r'. Iterator pw r = ([], Ret (), r')"
proof -
  let ?c = "Crc_Value (rd_crcOfCrc r)" and ?n = "rd_count r"
  let ?b2 = "AppendVarint pw (EncodeZigZag pw ?n)" and
    ?b3 = "AppendVarint pw (EncodeTag pw MetaChecksum VarintType)" and ?b4 = "AppendVarint pw (ucast ?c)"
  let ?at = "\<lambda>bs. r\<lparr>rd_src := \<lparr>src_in = bs, src_end = ErrEOF\<rparr>\<rparr>"
  have 1: "on_src (ReadTag pw) r = (Ret (MetaCount, VarintType), ?at (?b2 @ ?b3 @ ?b4))"
    using meta_tags(1) assms by (simp add: on_src_def reads_def trailer_def)
  have 2: "on_src (ReadSInt64 pw) (?at (?b2 @ ?b3 @ ?b4)) = (Ret ?n, ?at (?b3 @ ?b4))"
    using reads_ReadSInt64 [of ?n] by (simp add: on_src_def reads_def)
  have 3: "on_src (ReadTag pw) (?at (?b3 @ ?b4)) = (Ret (MetaChecksum, VarintType), ?at ?b4)"
    using meta_tags(2) by (simp add: on_src_def reads_def)
  have "ReadUInt32 pw \<lparr>src_in = ?b4 @ [], src_end = ErrEOF\<rparr> = (Ret ?c, \<lparr>src_in = [], src_end = ErrEOF\<rparr>)"
    using reads_ReadUInt32 [of ?c] unfolding reads_def by blast
  then have 4: "read_checksum pw (?at ?b4) = (Ret ?c, ?at [])"
    by (simp add: read_checksum_def on_src_def mseq_def mbind_def expect_end_def mret_def)
  have "Read_step pw rec r = (Ret (MoreFields rec), ?at [])" for rec
    using 1 2 3 4
    by (simp add: Read_step_def read_meta_def mbind_def mget_def mret_def MetaCount_def EndRecord_def)
  moreover have "Read_step pw rec (?at []) = (Fail ErrEOF, ?at [])" for rec
    by (simp add: Read_step_def mbind_def on_src_def ReadTag_def ReadVarint_def)
  ultimately have "Read_record pw r = (Fail ErrEOF, ?at [])"
    unfolding Read_record_def by (subst Read_loop.simps, simp) (subst Read_loop.simps, simp)
  then show ?thesis by (subst Iterator.simps) simp
qed

lemma Iterator_end: "rd_src r = \<lparr>src_in = [], src_end = ErrEOF\<rparr> \<Longrightarrow> Iterator pw r = ([], Ret (), r)"
proof -
  assume r: "rd_src r = \<lparr>src_in = [], src_end = ErrEOF\<rparr>"
  have "Read_step pw rec r = (Fail ErrEOF, r)" for rec
    using r by (cases r) (simp add: Read_step_def mbind_def on_src_def ReadTag_def ReadVarint_def)
  then have "Read_record pw r = (Fail ErrEOF, r)"
    unfolding Read_record_def by (subst Read_loop.simps) simp
  then show ?thesis by (subst Iterator.simps) simp
qed

lemma writes_records_append:
  assumes "writes_records cols xs bs cs" and "writes_records cols ys bs' cs'"
  shows "writes_records cols (xs @ ys) (bs @ bs') (cs @ cs')"
  unfolding writes_records_def
proof (intro allI impI)
  fix w :: protoc_writer
  assume w: "reliable (wr_sink w)" "wr_columns w = cols" "wr_recordCrc w = NewCrc32CheckSum"
  obtain s1 where 1: "mfor (Write_record pw) xs w = (Ret (), w\<lparr>wr_sink := s1,
      wr_crcOfCrc := fold (\<lambda>c. Crc_Update (CI32 c)) cs (wr_crcOfCrc w),
      wr_count := wr_count w + of_nat (length xs)\<rparr>)" "reliable s1" "sk_out s1 = sk_out (wr_sink w) @ bs"
    using assms(1) w unfolding writes_records_def by blast
  let ?w = "w\<lparr>wr_sink := s1, wr_crcOfCrc := fold (\<lambda>c. Crc_Update (CI32 c)) cs (wr_crcOfCrc w),
      wr_count := wr_count w + of_nat (length xs)\<rparr>"
  obtain s2 where "mfor (Write_record pw) ys ?w = (Ret (), ?w\<lparr>wr_sink := s2,
      wr_crcOfCrc := fold (\<lambda>c. Crc_Update (CI32 c)) cs' (wr_crcOfCrc ?w),
      wr_count := wr_count ?w + of_nat (length ys)\<rparr>)" "reliable s2" "sk_out s2 = sk_out (wr_sink ?w) @ bs'"
    using assms(2) [unfolded writes_records_def, rule_format, of ?w] w 1 by auto
  then show "\<exists>s'. mfor (Write_record pw) (xs @ ys) w = (Ret (), w\<lparr>wr_sink := s',
      wr_crcOfCrc := fold (\<lambda>c. Crc_Update (CI32 c)) (cs @ cs') (wr_crcOfCrc w),
      wr_count := wr_count w + of_nat (length (xs @ ys))\<rparr>) \<and> reliable s' \<and> sk_out s' = sk_out (wr_sink w) @ bs @ bs'"
    using 1 by (intro exI [of _ s2]) (simp add: mfor_append mseq_Ret add.assoc)
qed

lemma new_writer_records:
  assumes "writes_records cols recs bs cs" and "reliable s"
  shows "\<exists>w1 w2. mfor (Write_record pw) recs (newRecordProtocWriter s cols (Ret ())) = (Ret (), w1) \<and>
    Close_writer pw w1 = (Ret (), w2) \<and> wr_count w2 = of_nat (length recs) \<and>
    sk_out (wr_sink w2) = sk_out s @ bs @ trailer pw (of_nat (length recs))
        (Crc_Value (fold (\<lambda>c. Crc_Update (CI32 c)) cs NewCrc32CheckSum))"
proof -
  let ?w = "newRecordProtocWriter s cols (Ret ())"
  have "reliable (wr_sink ?w)" "wr_columns ?w = cols" "wr_recordCrc ?w = NewCrc32CheckSum"
    using assms(2) by (simp_all add: newRecordProtocWriter_def)
  then obtain s1 where 1: "mfor (Write_record pw) recs ?w = (Ret (), ?w\<lparr>wr_sink := s1,
        wr_crcOfCrc := fold (\<lambda>c. Crc_Update (CI32 c)) cs (wr_crcOfCrc ?w),
        wr_count := wr_count ?w + of_nat (length recs)\<rparr>)" "reliable s1" "sk_out s1 = sk_out (wr_sink ?w) @ bs"
    using assms(1) unfolding writes_records_def by blast
  let ?w1 = "?w\<lparr>wr_sink := s1, wr_crcOfCrc := fold (\<lambda>c. Crc_Update (CI32 c)) cs (wr_crcOfCrc ?w),
        wr_count := wr_count ?w + of_nat (length recs)\<rparr>"
  have "reliable (wr_sink ?w1)" "wr_closeAnswer ?w1 = Ret ()" "\<not> wr_closed ?w1" "wr_http ?w1 = None"
    using 1(2) by (simp_all add: newRecordProtocWriter_def)
  from close_writer_trailer [OF this]
  obtain s2 where 2: "Close_writer pw ?w1 = (Ret (), ?w1\<lparr>wr_closed := True, wr_sink := s2\<rparr>)"
    "sk_out s2 = sk_out (wr_sink ?w1) @ trailer pw (wr_count ?w1) (Crc_Value (wr_crcOfCrc ?w1))"
    by blast
  show ?thesis
    by (rule exI [of _ ?w1], rule exI [of _ "?w1\<lparr>wr_closed := True, wr_sink := s2\<rparr>"])
      (use 1 2 in \<open>simp add: newRecordProtocWriter_def\<close>)
qed

lemma new_reader_records:
  assumes "reads_records cols recs bs cs"
  shows "\<exists>r'. Iterator pw (newRecordProtocReader \<lparr>src_in = bs @ trailer pw (of_nat (length recs))
        (Crc_Value (fold (\<lambda>c. Crc_Update (CI32 c)) cs NewCrc32CheckSum)), src_end = ErrEOF\<rparr> cols) =
      (map (\<lambda>rec. Ret (pad_record cols rec)) recs, Ret (), r')"
    and "\<exists>r'. Iterator pw (newRecordProtocReader \<lparr>src_in = bs, src_end = ErrEOF\<rparr> cols) =
      (map (\<lambda>rec. Ret (pad_record cols rec)) recs, Ret (), r')"
proof -
  let ?C = "fold (\<lambda>c. Crc_Update (CI32 c)) cs NewCrc32CheckSum" and ?n = "of_nat (length recs) :: i64"
  let ?at_end = "\<lambda>rest. \<lparr>rd_src = \<lparr>src_in = rest, src_end = ErrEOF\<rparr>, rd_columns = cols,
      rd_recordCrc = NewCrc32CheckSum, rd_crcOfCrc = ?C, rd_count = ?n\<rparr>"
  have it: "Iterator pw (newRecordProtocReader \<lparr>src_in = bs @ rest, src_end = ErrEOF\<rparr> cols) =
     (case Iterator pw (?at_end rest) of (calls, res) \<Rightarrow> (map (\<lambda>rec. Ret (pad_record cols rec)) recs @ calls, res))"
    for rest
    using assms [unfolded reads_records_def, rule_format,
        of "newRecordProtocReader \<lparr>src_in = bs @ rest, src_end = ErrEOF\<rparr> cols" rest ErrEOF]
    by (simp add: newRecordProtocReader_def)
  obtain r' where "Iterator pw (?at_end (trailer pw ?n (Crc_Value ?C))) = ([], Ret (), r')"
    using Iterator_trailer [of "?at_end (trailer pw ?n (Crc_Value ?C))"] by auto
  then show "\<exists>r'. Iterator pw (newRecordProtocReader \<lparr>src_in = bs @ trailer pw ?n (Crc_Value ?C), src_end = ErrEOF\<rparr> cols) =
      (map (\<lambda>rec. Ret (pad_record cols rec)) recs, Ret (), r')"
    using it [of "trailer pw ?n (Crc_Value ?C)"] by simp
  show "\<exists>r'. Iterator pw (newRecordProtocReader \<lparr>src_in = bs, src_end = ErrEOF\<rparr> cols) =
      (map (\<lambda>rec. Ret (pad_record cols rec)) recs, Ret (), r')"
    using it [of "[]"] Iterator_end [of "?at_end []"] by simp
qed

lemma trailer_not_Nil: "trailer pw n c \<noteq> []"
  using varint_length(1) by (simp add: trailer_def)

lemma Read_record_trailer_mismatch:
  assumes "rd_src r = \<lparr>src_in = trailer pw n c @ rest, src_end = e\<rparr>"
    and "n \<noteq> rd_count r \<or> c \<noteq> Crc_Value (rd_crcOfCrc r)"
  shows "\<exists>m r'. Read_record pw r = (Fail (ErrMsg m), r')"
proof -
  let ?b2 = "AppendVarint pw (EncodeZigZag pw n)" and
    ?b3 = "AppendVarint pw (EncodeTag pw MetaChecksum VarintType)" and ?b4 = "AppendVarint pw (ucast c)"
  let ?at = "\<lambda>bs. r\<lparr>rd_src := \<lparr>src_in = bs, src_end = e\<rparr>\<rparr>"
  have 1: "on_src (ReadTag pw) r = (Ret (MetaCount, VarintType), ?at (?b2 @ ?b3 @ ?b4 @ rest))"
    using meta_tags(1) assms(1) by (simp add: on_src_def reads_def trailer_def)
  have 2: "on_src (ReadSInt64 pw) (?at (?b2 @ ?b3 @ ?b4 @ rest)) = (Ret n, ?at (?b3 @ ?b4 @ rest))"
    using reads_ReadSInt64 [of n] by (simp add: on_src_def reads_def)
  have 3: "on_src (ReadTag pw) (?at (?b3 @ ?b4 @ rest)) = (Ret (MetaChecksum, VarintType), ?at (?b4 @ rest))"
    using meta_tags(2) by (simp add: on_src_def reads_def)
  have 4: "on_src (ReadUInt32 pw) (?at (?b4 @ rest)) = (Ret c, ?at rest)"
    using reads_ReadUInt32 [of c] by (simp add: on_src_def reads_def)
  have step: "\<exists>m r'. Read_step pw rec r = (Fail (ErrMsg m), r')" for rec
  proof (cases "n = rd_count r")
    case False
    then show ?thesis
      using 1 2 by (simp add: Read_step_def read_meta_def mbind_def mget_def mfail_def MetaCount_def EndRecord_def)
  next
    case True
    then show ?thesis
      using 1 2 3 4 assms(2)
      by (simp add: Read_step_def read_meta_def mbind_def mseq_def mget_def mfail_def mret_def MetaCount_def
          EndRecord_def read_checksum_def expect_end_def on_src_def)
  qed
  obtain m r' where "Read_step pw (replicate (length (rd_columns r)) None) r = (Fail (ErrMsg m), r')"
    using step by blast
  then show ?thesis unfolding Read_record_def by (subst Read_loop.simps) simp
qed

end

subsection \<open>Properties\<close>

lemma protoc_stream:
  assumes "protowire_laws pw" and "\<forall>rec \<in> set recs. record_ok cols rec"
    and "length cols < 33553408" and "reliable s"
  shows "\<exists>w1 w2 bs r'.
    mfor (Write_record pw) recs (newRecordProtocWriter s cols (Ret ())) = (Ret (), w1) \<and>
    Close_writer pw w1 = (Ret (), w2) \<and> RecordCount w2 = of_nat (length recs) \<and>
    sk_out (wr_sink w2) = sk_out s @ bs \<and>
    Iterator pw (newRecordProtocReader \<lparr>src_in = bs, src_end = ErrEOF\<rparr> cols) =
      (map (\<lambda>rec. Ret (pad_record cols rec)) recs, Ret (), r')"
proof -
  obtain bs cs where bc: "protowire_laws.writes_records pw cols recs bs cs"
    "protowire_laws.reads_records pw cols recs bs cs"
    using protowire_laws.write_read_records [OF assms(1), of recs cols] assms(2,3) by blast
  from protowire_laws.new_writer_records [OF assms(1) bc(1) assms(4)]
    protowire_laws.new_reader_records(1) [OF assms(1) bc(2)]
  show ?thesis by (auto simp: RecordCount_def)
qed

text \<open>
  C1. What the record writer sends, the record reader returns: after writing any records that fit
  their columns and closing, the writer's count is the number of records, and the iterator
  over the bytes sent, to the end of the body, hands exactly these records (completed with
  nil for columns left out) to its callback and ends without error. Every checksum and the
  count agree on the way. Columns may be nested arrays, maps and structs.
\<close>

theorem protoc_stream_roundtrip:
  assumes "protowire_laws pw" and "\<forall>rec \<in> set recs. record_ok cols rec"
    and "length cols < 33553408" and "reliable s"
  shows "\<exists>w1 w2 bs r'.
    mfor (Write_record pw) recs (newRecordProtocWriter s cols (Ret ())) = (Ret (), w1) \<and>
    Close_writer pw w1 = (Ret (), w2) \<and> RecordCount w2 = of_nat (length recs) \<and>
    sk_out (wr_sink w2) = sk_out s @ bs \<and>
    Iterator pw (newRecordProtocReader \<lparr>src_in = bs, src_end = ErrEOF\<rparr> cols) =
      (map (\<lambda>rec. Ret (pad_record cols rec)) recs, Ret (), r')"
  using protoc_stream [OF assms] by blast

definition example_cols :: "Column list" where
  "example_cols = map (\<lambda>(n, t). \<lparr>col_Name = n, col_Type = t, col_Comment = [], col_Label = [],
     col_NotNull = False, col_HasDefaultValue = False, col_DefaultValue = [], col_ExtendedLabels = [],
     col_GenerateExpression = None\<rparr>)
     [(''id'', PrimitiveType BIGINT), (''tags'', ArrayType (PrimitiveType STRING)),
      (''at'', PrimitiveType DATETIME)]"

definition example_records :: "Record list" where
  "example_records =
     [[Some (DBigInt (- 7)),
       Some (DArray (PrimitiveType STRING) [Some (DString ''x''), None] True),
       Some (DDateTime (GoTime (- 1) 250000000))],
      [None, Some (DArray (PrimitiveType STRING) [] True)]]"

lemma example_ok: "\<forall>rec \<in> set example_records. record_ok example_cols rec" "length example_cols < 33553408"
  by (auto simp: example_records_def example_cols_def record_ok_def less_Suc_eq nth_Cons'
      fits_def maxAlloc_def canon_millis_def i64_range_def)

theorem protoc_stream_roundtrip_witness:
  "\<exists>w1 w2 bs r'.
    mfor (Write_record protowire_ref) example_records
      (newRecordProtocWriter \<lparr>sk_out = [], sk_script = [Accept 3, Accept 0, Accept 1]\<rparr> example_cols (Ret ())) = (Ret (), w1) \<and>
    Close_writer protowire_ref w1 = (Ret (), w2) \<and> sk_out (wr_sink w2) = bs \<and>
    Iterator protowire_ref (newRecordProtocReader \<lparr>src_in = bs, src_end = ErrEOF\<rparr> example_cols) =
      (map (\<lambda>rec. Ret (pad_record example_cols rec)) example_records, Ret (), r')"
proof -
  have "reliable \<lparr>sk_out = [], sk_script = [Accept 3, Accept 0, Accept 1]\<rparr>" by (simp add: reliable_def)
  from protoc_stream_roundtrip [OF protowire_laws_ref example_ok this] show ?thesis by auto
qed

text \<open>
  C37. A body that ends cleanly before its trailer is taken for a complete one: when the bytes of a
  written and closed stream stop after the first records, the iterator delivers those and
  returns no error, and the records that are missing go unnoticed. Only a reader that
  reaches the trailer compares the count and the checksum.
\<close>

theorem truncated_stream_accepted:
  assumes "protowire_laws pw" and "\<forall>rec \<in> set (xs @ ys). record_ok cols rec"
    and "length cols < 33553408" and "reliable s" and "sk_out s = []"
  shows "\<exists>w1 w2 k r'.
    mfor (Write_record pw) (xs @ ys) (newRecordProtocWriter s cols (Ret ())) = (Ret (), w1) \<and>
    Close_writer pw w1 = (Ret (), w2) \<and> k < length (sk_out (wr_sink w2)) \<and>
    Iterator pw (newRecordProtocReader \<lparr>src_in = take k (sk_out (wr_sink w2)), src_end = ErrEOF\<rparr> cols) =
      (map (\<lambda>rec. Ret (pad_record cols rec)) xs, Ret (), r')"
proof -
  obtain bs cs where xs: "protowire_laws.writes_records pw cols xs bs cs"
    "protowire_laws.reads_records pw cols xs bs cs"
    using protowire_laws.write_read_records [OF assms(1), of xs cols] assms(2,3) by auto
  obtain bs' cs' where ys: "protowire_laws.writes_records pw cols ys bs' cs'"
    using protowire_laws.write_read_records [OF assms(1), of ys cols] assms(2,3) by auto
  obtain w1 w2 t where w: "mfor (Write_record pw) (xs @ ys) (newRecordProtocWriter s cols (Ret ())) = (Ret (), w1)"
    "Close_writer pw w1 = (Ret (), w2)" "sk_out (wr_sink w2) = bs @ bs' @ t" "t \<noteq> []"
    using protowire_laws.new_writer_records [OF assms(1)
        protowire_laws.writes_records_append [OF assms(1) xs(1) ys] assms(4)]
      protowire_laws.trailer_not_Nil [OF assms(1)] assms(5) by auto
  moreover obtain r' where "Iterator pw (newRecordProtocReader \<lparr>src_in = bs, src_end = ErrEOF\<rparr> cols) =
      (map (\<lambda>rec. Ret (pad_record cols rec)) xs, Ret (), r')"
    using protowire_laws.new_reader_records(2) [OF assms(1) xs(2)] by blast
  ultimately show ?thesis by (intro exI [of _ w1] exI [of _ w2] exI [of _ "length bs"]) simp
qed

theorem truncated_stream_accepted_witness:
  "\<exists>w1 w2 k r'.
    mfor (Write_record protowire_ref) example_records
      (newRecordProtocWriter \<lparr>sk_out = [], sk_script = []\<rparr> example_cols (Ret ())) = (Ret (), w1) \<and>
    Close_writer protowire_ref w1 = (Ret (), w2) \<and> k < length (sk_out (wr_sink w2)) \<and>
    Iterator protowire_ref (newRecordProtocReader \<lparr>src_in = take k (sk_out (wr_sink w2)), src_end = ErrEOF\<rparr> example_cols) =
      (map (\<lambda>rec. Ret (pad_record example_cols rec)) [hd example_records], Ret (), r')"
proof -
  have "[hd example_records] @ tl example_records = example_records" by (simp add: example_records_def)
  then show ?thesis
    using truncated_stream_accepted [OF protowire_laws_ref, of "[hd example_records]" "tl example_records"
      example_cols "\<lparr>sk_out = [], sk_script = []\<rparr>"] example_ok
    by (simp add: reliable_def)
qed

text \<open>
  C4. A trailer that does not match is refused: when the reader meets a trailer whose record count
  differs from the number of records read, or whose checksum differs from the checksum of
  the record checksums, the read fails with an error that is not the end of the stream.
\<close>

theorem trailer_mismatch_refused:
  assumes "protowire_laws pw" and "rd_src r = \<lparr>src_in = trailer pw n c @ rest, src_end = e\<rparr>"
    and "n \<noteq> rd_count r \<or> c \<noteq> Crc_Value (rd_crcOfCrc r)"
  shows "\<exists>m r'. Read_record pw r = (Fail (ErrMsg m), r')"
  by (rule protowire_laws.Read_record_trailer_mismatch [OF assms])

theorem trailer_mismatch_refused_witness:
  "\<exists>m r'. Read_record protowire_ref
     (newRecordProtocReader \<lparr>src_in = trailer protowire_ref 1 0, src_end = ErrEOF\<rparr> example_cols) = (Fail (ErrMsg m), r')"
  by (rule trailer_mismatch_refused [OF protowire_laws_ref, where n = 1 and c = 0 and rest = "[]" and e = ErrEOF])
    (simp_all add: newRecordProtocReader_def)

end
