(* ===== verification/ArrowStream.thy ===== *)
theory ArrowStream
  imports Wire
begin

section \<open>The chunked stream of arrow data\<close>

text \<open>
  Models \<open>odps/tunnel/arrow_stream_writer.go\<close> and \<open>odps/tunnel/arrow_stream_reader.go\<close>: a byte
  stream cut into chunks, each followed by its checksum, with the chunk size in front and the
  checksum of all data at the end.
  \<^item> The writer's \<open>io.WriteCloser\<close> is a \<open>sink\<close> with the answer of its \<open>Close\<close>.
  \<^item> The reader's chunk is a buffer with the bounds of its unread part; it is nil (\<open>None\<close>)
    before the first read. \<open>Read\<close> gives the bytes it has copied and the error beside them.
  \<^item> \<open>ReadChunk\<close> wraps every error, so \<open>Read\<close>'s comparison with \<open>io.EOF\<close> never succeeds.
\<close>

subsection \<open>ArrowStreamWriter\<close>

definition DefaultChunkSize :: nat where
  "DefaultChunkSize = 65536"

record arrow_writer =
  aw_inner :: sink
  aw_closeAnswer :: "goerr option"
  aw_chunkCrc :: Crc32CheckSum
  aw_globalCrc :: Crc32CheckSum
  aw_currentChunkLength :: nat
  aw_firstWrite :: bool

definition NewArrowStreamWriter :: "sink \<Rightarrow> goerr option \<Rightarrow> arrow_writer" where
  "NewArrowStreamWriter w a =
     \<lparr>aw_inner = w, aw_closeAnswer = a, aw_chunkCrc = NewCrc32CheckSum, aw_globalCrc = NewCrc32CheckSum,
      aw_currentChunkLength = 0, aw_firstWrite = True\<rparr>"

definition uint32ToBytes :: "u32 \<Rightarrow> byte list" where
  "uint32ToBytes n = [ucast (drop_bit 24 n AND 0xFF), ucast (drop_bit 16 n AND 0xFF),
     ucast (drop_bit 8 n AND 0xFF), ucast (n AND 0xFF)]"

text \<open>The loop of \<open>writeAll\<close>, which passes the whole slice to every call.\<close>

function writeAll_loop :: "byte list \<Rightarrow> nat \<Rightarrow> (sink, nat) M" where
  "writeAll_loop b hasWrite s =
     (if hasWrite < length b then
        (case sink_Write b s of
           (n, Some err, s') \<Rightarrow> (Fail err, s')
         | (n, None, s') \<Rightarrow> writeAll_loop b (hasWrite + n) s')
      else (Ret (length b), s))"
  by pat_completeness auto
termination
  by (relation "measure (\<lambda>(b, h, s). length (sk_script s) + (length b - h))")
    (auto simp: sink_Write_def split: list.splits answer.splits)

declare writeAll_loop.simps [simp del]

definition on_inner :: "(sink, 'a) M \<Rightarrow> (arrow_writer, 'a) M" where
  "on_inner m aw = (case m (aw_inner aw) of (r, s) \<Rightarrow> (r, aw\<lparr>aw_inner := s\<rparr>))"

definition writeAll :: "byte list \<Rightarrow> (arrow_writer, nat) M" where
  "writeAll b = on_inner (writeAll_loop b 0)"

definition writeUint32 :: "u32 \<Rightarrow> (arrow_writer, unit) M" where
  "writeUint32 crcValue = mseq (writeAll (uint32ToBytes crcValue)) (mret ())"

definition chunkIsFull :: "arrow_writer \<Rightarrow> bool" where
  "chunkIsFull aw \<longleftrightarrow> DefaultChunkSize \<le> aw_currentChunkLength aw"

definition leftChunkLength :: "arrow_writer \<Rightarrow> nat" where
  "leftChunkLength aw = DefaultChunkSize - aw_currentChunkLength aw"

text \<open>One turn of the loop of \<open>Write\<close> for the bytes of one chunk, without the bookkeeping of \<open>totalWrite\<close>.\<close>

definition write_chunk_part :: "byte list \<Rightarrow> (arrow_writer, unit) M" where
  "write_chunk_part bytesToWrite =
     mseq (mput (\<lambda>aw. aw\<lparr>aw_currentChunkLength := aw_currentChunkLength aw + length bytesToWrite,
             aw_chunkCrc := Crc_Update (CBytes bytesToWrite) (aw_chunkCrc aw),
             aw_globalCrc := Crc_Update (CBytes bytesToWrite) (aw_globalCrc aw)\<rparr>))
     (mseq (writeAll bytesToWrite)
     (mbind (mget chunkIsFull) (\<lambda>full.
        if full then
          mbind (mget (\<lambda>aw. Crc_Value (aw_chunkCrc aw))) (\<lambda>crc aw.
            (case writeUint32 crc aw of
               (Ret _, aw') \<Rightarrow> (Ret (), aw'\<lparr>aw_chunkCrc := Crc_Reset (aw_chunkCrc aw'), aw_currentChunkLength := 0\<rparr>)
             | (r, aw') \<Rightarrow> (r, aw'\<lparr>aw_chunkCrc := Crc_Reset (aw_chunkCrc aw')\<rparr>)))
        else mret ())))"

lemma on_inner_length: "on_inner m aw = (r, aw') \<Longrightarrow> aw_currentChunkLength aw' = aw_currentChunkLength aw"
  by (auto simp: on_inner_def split: prod.splits)

lemma writeUint32_length:
  "writeUint32 v aw = (r, aw') \<Longrightarrow> aw_currentChunkLength aw' = aw_currentChunkLength aw"
  unfolding writeUint32_def writeAll_def mseq_def mbind_def
  by (auto simp: mret_def dest: on_inner_length split: prod.splits outcome.splits)

lemma write_chunk_part_left:
  assumes "write_chunk_part bs aw = (Ret x, aw')"
  shows "aw_currentChunkLength aw' < DefaultChunkSize"
proof -
  obtain n aw1 where k: "(if chunkIsFull aw1 then
          mbind (mget (\<lambda>aw. Crc_Value (aw_chunkCrc aw))) (\<lambda>crc aw.
            (case writeUint32 crc aw of
               (Ret _, aw') \<Rightarrow> (Ret (), aw'\<lparr>aw_chunkCrc := Crc_Reset (aw_chunkCrc aw'), aw_currentChunkLength := 0\<rparr>)
             | (r, aw') \<Rightarrow> (r, aw'\<lparr>aw_chunkCrc := Crc_Reset (aw_chunkCrc aw')\<rparr>)))
        else mret ()) aw1 = (Ret x, aw')"
    using assms unfolding write_chunk_part_def mseq_def
    by (auto elim!: mbind_RetE simp: mget_def)
  show ?thesis
  proof (cases "chunkIsFull aw1")
    case True
    then have "aw_currentChunkLength aw' = 0"
      using k by (auto simp: mbind_def mget_def split: prod.splits outcome.splits)
    then show ?thesis by (simp add: DefaultChunkSize_def)
  next
    case False
    then show ?thesis using k by (simp add: mret_def chunkIsFull_def)
  qed
qed

text \<open>
  The loop of \<open>Write\<close>. A chunk left full by a failed write of its checksum has no room; the turn
  then writes no byte, and the checksum again.
\<close>

function Write_loop :: "byte list \<Rightarrow> nat \<Rightarrow> (arrow_writer, nat) M" where
  "Write_loop data totalWrite aw =
     (if totalWrite < length data then
        (let toWriteN = min (leftChunkLength aw) (length data - totalWrite) in
         case write_chunk_part (take toWriteN (drop totalWrite data)) aw of
             (Ret _, aw') \<Rightarrow> Write_loop data (totalWrite + toWriteN) aw'
           | (Fail e, aw') \<Rightarrow> (Fail e, aw')
           | (Panic p, aw') \<Rightarrow> (Panic p, aw'))
      else (Ret totalWrite, aw))"
  by pat_completeness auto
termination
  by (relation "measure (\<lambda>(d, t, aw). 2 * (length d - t) + (if leftChunkLength aw = 0 then 1 else 0))")
    (auto simp: leftChunkLength_def min_def dest!: sym [of _ "write_chunk_part _ _"] write_chunk_part_left)

declare Write_loop.simps [simp del]

definition Arrow_Write :: "byte list \<Rightarrow> (arrow_writer, nat) M" where
  "Arrow_Write data =
     mbind (mget aw_firstWrite) (\<lambda>first.
       if first then
         mseq (writeUint32 (word_of_nat DefaultChunkSize))
           (mseq (mput (\<lambda>aw. aw\<lparr>aw_firstWrite := False\<rparr>)) (Write_loop data 0))
       else Write_loop data 0)"

definition Arrow_Close :: "(arrow_writer, unit) M" where
  "Arrow_Close aw =
     (case writeUint32 (Crc_Value (aw_globalCrc aw)) aw of
        (r1, aw') \<Rightarrow>
          (let aw'' = aw'\<lparr>aw_globalCrc := Crc_Reset (aw_globalCrc aw')\<rparr> in
           case r1 of
             Ret _ \<Rightarrow> ((case aw_closeAnswer aw'' of None \<Rightarrow> Ret () | Some e \<Rightarrow> Fail e), aw'')
           | _ \<Rightarrow> (r1, aw'')))"

subsection \<open>ArrowStreamReader\<close>

record chunk =
  ck_buf :: "byte list"
  ck_end :: nat
  ck_offset :: nat

definition newChunk :: "nat \<Rightarrow> chunk" where
  "newChunk chunkSize = \<lparr>ck_buf = replicate chunkSize 0, ck_end = 0, ck_offset = 0\<rparr>"

definition setLength :: "nat \<Rightarrow> chunk \<Rightarrow> chunk" where
  "setLength n c = c\<lparr>ck_end := n\<rparr>"

definition chunk_length :: "chunk \<Rightarrow> nat" where
  "chunk_length c = ck_end c - ck_offset c"

definition chunk_bytes :: "chunk \<Rightarrow> byte list" where
  "chunk_bytes c = drop (ck_offset c) (take (ck_end c) (ck_buf c))"

definition chunk_truncate :: "nat \<Rightarrow> chunk \<Rightarrow> chunk" where
  "chunk_truncate n c = c\<lparr>ck_end := n\<rparr>"

definition chunk_reset :: "chunk \<Rightarrow> chunk" where
  "chunk_reset c = c\<lparr>ck_offset := 0, ck_end := 0\<rparr>"

text \<open>The slice \<open>buf[offset:end]\<close> panics when \<open>end\<close> lies beyond the buffer.\<close>

definition chunk_Read :: "nat \<Rightarrow> chunk \<Rightarrow> (byte list \<times> goerr option \<times> chunk) outcome" where
  "chunk_Read room c =
     (if ck_end c \<le> ck_offset c then Ret ([], Some ErrEOF, c)
      else if length (ck_buf c) < ck_end c then Panic IndexOutOfRange
      else let p = take room (chunk_bytes c) in Ret (p, None, c\<lparr>ck_offset := ck_offset c + length p\<rparr>))"

definition bytesToUint32 :: "byte list \<Rightarrow> u32 outcome" where
  "bytesToUint32 b =
     (if length b < 4 then Panic IndexOutOfRange
      else Ret (push_bit 24 (ucast (b ! 0) AND 0xFF) + push_bit 16 (ucast (b ! 1) AND 0xFF) +
             push_bit 8 (ucast (b ! 2) AND 0xFF) + (ucast (b ! 3) AND 0xFF)))"

record arrow_reader =
  ar_inner :: source
  ar_chunkCrc :: Crc32CheckSum
  ar_globalCrc :: Crc32CheckSum
  ar_chunkSize :: nat
  ar_chunk :: "chunk option"
  ar_firstRead :: bool
  ar_eof :: bool

definition NewArrowStreamReader :: "source \<Rightarrow> arrow_reader" where
  "NewArrowStreamReader rc =
     \<lparr>ar_inner = rc, ar_chunkCrc = NewCrc32CheckSum, ar_globalCrc = NewCrc32CheckSum, ar_chunkSize = 0,
      ar_chunk = None, ar_firstRead = True, ar_eof = False\<rparr>"

definition ArrowCrcErr :: goerr where
  "ArrowCrcErr = ErrMsg ''crc value error when get a tunnel arrow stream''"

text \<open>\<open>io.ReadFull\<close> with the bytes it has read also when it fails.\<close>

definition io_ReadFull :: "nat \<Rightarrow> source \<Rightarrow> byte list \<times> goerr option \<times> source" where
  "io_ReadFull n s =
     (case ReadFull n s of
        (Ret bs, s') \<Rightarrow> (bs, None, s')
      | (Fail e, s') \<Rightarrow> (src_in s, Some e, s')
      | (Panic p, s') \<Rightarrow> ([], None, s'))"

definition readUint32 :: "(arrow_reader, u32) M" where
  "readUint32 ar =
     (case io_ReadFull 4 (ar_inner ar) of
        (bs, Some e, s) \<Rightarrow> (Fail e, ar\<lparr>ar_inner := s\<rparr>)
      | (bs, None, s) \<Rightarrow> (bytesToUint32 bs, ar\<lparr>ar_inner := s\<rparr>))"

definition first_chunk :: "(arrow_reader, unit) M" where
  "first_chunk =
     mbind (mget ar_firstRead) (\<lambda>first.
       if first then
         mbind readUint32 (\<lambda>chunkSize. mput (\<lambda>ar. ar\<lparr>ar_chunkSize := unat chunkSize + 4,
           ar_chunk := Some (newChunk (unat chunkSize + 4)), ar_firstRead := False\<rparr>))
       else mret ())"

definition full_chunk :: "chunk \<Rightarrow> (arrow_reader, unit) M" where
  "full_chunk c ar =
     (let c = setLength (ar_chunkSize ar) c;
          dataBytes = take (ar_chunkSize ar - 4) (chunk_bytes c);
          crcBytes = drop (ar_chunkSize ar - 4) (chunk_bytes c);
          ar' = ar\<lparr>ar_chunk := Some (chunk_truncate (ar_chunkSize ar - 4) c),
                   ar_chunkCrc := Crc_Update (CBytes dataBytes) (ar_chunkCrc ar),
                   ar_globalCrc := Crc_Update (CBytes dataBytes) (ar_globalCrc ar)\<rparr>
      in (case bytesToUint32 crcBytes of
            Ret v \<Rightarrow> (if v \<noteq> Crc_Value (ar_chunkCrc ar') then (Fail ArrowCrcErr, ar') else (Ret (), ar'))
          | Fail e \<Rightarrow> (Fail e, ar')
          | Panic p \<Rightarrow> (Panic p, ar')))"

definition last_chunk :: "nat \<Rightarrow> chunk \<Rightarrow> (arrow_reader, unit) M" where
  "last_chunk n c ar =
     (let c = setLength n c in
      if chunk_length c < 4 then
        (Fail (ErrMsg ''not enough bytes, at least 4 bytes for crc value''),
         ar\<lparr>ar_eof := True, ar_chunk := Some c\<rparr>)
      else
        (let dataBytes = take (n - 4) (chunk_bytes c);
             crcBytes = drop (n - 4) (chunk_bytes c);
             crcExpected = Crc_Value (Crc_Update (CBytes dataBytes) (ar_globalCrc ar));
             ar' = ar\<lparr>ar_eof := True, ar_chunk := Some (chunk_truncate (n - 4) c),
                      ar_globalCrc := NewCrc32CheckSum\<rparr>
         in (case bytesToUint32 crcBytes of
               Ret v \<Rightarrow> (if v \<noteq> crcExpected then (Fail ArrowCrcErr, ar') else (Ret (), ar'))
             | Fail e \<Rightarrow> (Fail e, ar')
             | Panic p \<Rightarrow> (Panic p, ar'))))"

definition ReadChunk :: "(arrow_reader, unit) M" where
  "ReadChunk = mseq first_chunk (\<lambda>ar.
     case ar_chunk ar of
       None \<Rightarrow> (Panic NilDereference, ar)
     | Some c0 \<Rightarrow>
         (let c = chunk_reset c0 in
          case io_ReadFull (length (ck_buf c)) (ar_inner ar) of
            (bs, err, s) \<Rightarrow>
              (let c = c\<lparr>ck_buf := bs @ drop (length bs) (ck_buf c)\<rparr>;
                   ar = ar\<lparr>ar_inner := s, ar_chunkCrc := Crc_Reset (ar_chunkCrc ar), ar_chunk := Some c\<rparr>
               in case err of
                    None \<Rightarrow> full_chunk c ar
                  | Some e \<Rightarrow>
                      if e = ErrEOF \<or> e = ErrUnexpectedEOF then last_chunk (length bs) c ar
                      else (Fail e, ar))))"

lemma io_ReadFull_length:
  "io_ReadFull n s = (bs, err, s') \<Longrightarrow> length (src_in s') + (if err = None then n else 0) \<le> length (src_in s)"
  by (auto simp: io_ReadFull_def ReadFull_def split: if_splits)

lemma first_chunk_frame:
  "first_chunk ar = (r, ar') \<Longrightarrow> length (src_in (ar_inner ar')) \<le> length (src_in (ar_inner ar)) \<and> ar_eof ar' = ar_eof ar"
  by (auto simp: first_chunk_def mbind_def mget_def mput_def mret_def readUint32_def
      dest!: io_ReadFull_length split: if_splits prod.splits outcome.splits option.splits)

lemma ReadChunk_frame:
  assumes "ReadChunk ar = (Ret x, ar')" and "\<not> ar_eof ar"
  shows "length (src_in (ar_inner ar')) < length (src_in (ar_inner ar)) \<or>
    ar_eof ar' \<and> length (src_in (ar_inner ar')) \<le> length (src_in (ar_inner ar))"
proof -
  obtain ar1 where 1: "first_chunk ar = (Ret (), ar1)"
    using assms(1) unfolding ReadChunk_def by (auto simp: mseq_def elim!: mbind_RetE)
  then have f: "length (src_in (ar_inner ar1)) \<le> length (src_in (ar_inner ar))" using first_chunk_frame by blast
  obtain c0 where c0: "ar_chunk ar1 = Some c0"
    using assms(1) 1 by (auto simp: ReadChunk_def mseq_Ret split: option.splits)
  obtain bs err s where io: "io_ReadFull (length (ck_buf c0)) (ar_inner ar1) = (bs, err, s)"
    by (metis prod_cases3)
  let ?c = "(chunk_reset c0)\<lparr>ck_buf := bs @ drop (length bs) (ck_buf c0)\<rparr>"
  let ?ar = "ar1\<lparr>ar_inner := s, ar_chunkCrc := Crc_Reset (ar_chunkCrc ar1), ar_chunk := Some ?c\<rparr>"
  have r: "(case err of None \<Rightarrow> full_chunk ?c ?ar
     | Some e \<Rightarrow> if e = ErrEOF \<or> e = ErrUnexpectedEOF then last_chunk (length bs) ?c ?ar else (Fail e, ?ar)) = (Ret x, ar')"
    using assms(1) 1 c0 io by (cases err) (auto simp: ReadChunk_def mseq_Ret chunk_reset_def Let_def split: if_splits)
  show ?thesis
  proof (cases err)
    case None
    have "4 \<le> length (ck_buf c0)"
      using r None io by (auto simp: full_chunk_def Let_def bytesToUint32_def chunk_bytes_def setLength_def
          chunk_reset_def io_ReadFull_def ReadFull_def split: if_splits outcome.splits)
    moreover have "ar_inner ar' = s" using r None by (auto simp: full_chunk_def Let_def split: if_splits outcome.splits)
    ultimately show ?thesis using io_ReadFull_length [OF io] None f by auto
  next
    case (Some e)
    then have "ar_eof ar' \<and> ar_inner ar' = s"
      using r by (auto simp: last_chunk_def Let_def split: if_splits outcome.splits)
    then show ?thesis using io_ReadFull_length [OF io] f by auto
  qed
qed

text \<open>
  The loop of \<open>Read\<close>, with the bytes copied so far: it ends when \<open>len\<close> bytes are there, when the stream is
  exhausted, or with an error.
\<close>

definition load_chunk :: "(arrow_reader, unit) M" where
  "load_chunk ar =
     (if (case ar_chunk ar of None \<Rightarrow> True | Some c \<Rightarrow> chunk_length c = 0) then ReadChunk ar else (Ret (), ar))"

definition drained :: "arrow_reader \<Rightarrow> bool" where
  "drained ar \<longleftrightarrow> (case ar_chunk ar of None \<Rightarrow> True | Some c \<Rightarrow> chunk_length c = 0) \<and> ar_eof ar"

definition copy_chunk :: "nat \<Rightarrow> (arrow_reader, byte list) M" where
  "copy_chunk room ar =
     (case ar_chunk ar of
        None \<Rightarrow> (Panic NilDereference, ar)
      | Some c \<Rightarrow>
          (case chunk_Read room c of
             Ret (p, err, c') \<Rightarrow> (Ret p, ar\<lparr>ar_chunk := Some c'\<rparr>)
           | Fail e \<Rightarrow> (Fail e, ar)
           | Panic q \<Rightarrow> (Panic q, ar)))"

lemma load_copy_less:
  assumes "load_chunk ar = (Ret u, ar')" and "copy_chunk room ar' = (Ret p, ar'')" and "\<not> drained ar" and "0 < room"
  shows "(room - length p) + length (src_in (ar_inner ar'')) + (if ar_eof ar'' then 0 else 1) <
    room + length (src_in (ar_inner ar)) + (if ar_eof ar then 0 else 1)"
proof -
  obtain c where c: "ar_chunk ar' = Some c" using assms(2) by (auto simp: copy_chunk_def split: option.splits)
  have ar'': "ar_inner ar'' = ar_inner ar'" "ar_eof ar'' = ar_eof ar'"
    using assms(2) c by (auto simp: copy_chunk_def split: outcome.splits prod.splits)
  show ?thesis
  proof (cases "ar_chunk ar = None \<or> (\<exists>c. ar_chunk ar = Some c \<and> chunk_length c = 0)")
    case True
    then have "ReadChunk ar = (Ret u, ar')" "\<not> ar_eof ar"
      using assms(1,3) by (auto simp: load_chunk_def drained_def split: option.splits)
    from ReadChunk_frame [OF this] show ?thesis using ar'' \<open>\<not> ar_eof ar\<close> by auto
  next
    case False
    then obtain d where d: "ar_chunk ar = Some d" "0 < chunk_length d" by auto
    then have "ar' = ar" "d = c" using assms(1) c by (auto simp: load_chunk_def)
    then have "p = take room (chunk_bytes c)" "ck_end c \<le> length (ck_buf c)"
      using assms(2) d c by (auto simp: copy_chunk_def chunk_Read_def chunk_length_def Let_def split: if_splits)
    then have "0 < length p" using assms(4) d \<open>d = c\<close> by (simp add: chunk_bytes_def chunk_length_def)
    then show ?thesis using ar'' \<open>ar' = ar\<close> assms(4) by simp
  qed
qed

function Arrow_Read_loop :: "nat \<Rightarrow> byte list \<Rightarrow> arrow_reader \<Rightarrow> (byte list \<times> unit outcome) \<times> arrow_reader" where
  "Arrow_Read_loop len acc ar =
     (if length acc < len \<and> \<not> drained ar then
        (case load_chunk ar of
           (Fail e, ar') \<Rightarrow> ((acc, Fail e), ar')
         | (Panic p, ar') \<Rightarrow> ((acc, Panic p), ar')
         | (Ret _, ar') \<Rightarrow>
             (case copy_chunk (len - length acc) ar' of
                (Ret p, ar'') \<Rightarrow> Arrow_Read_loop len (acc @ p) ar''
              | (Fail e, ar'') \<Rightarrow> ((acc, Fail e), ar'')
              | (Panic p, ar'') \<Rightarrow> ((acc, Panic p), ar'')))
      else ((acc, Ret ()), ar))"
  by pat_completeness auto
termination
proof (relation "measure (\<lambda>(len, acc, ar). (len - length acc) + length (src_in (ar_inner ar)) + (if ar_eof ar then 0 else 1))",
    goal_cases)
  case (2 len acc ar x ar' u y ar'' p)
  then show ?case using load_copy_less [of ar u ar' "len - length acc" p ar''] by auto
qed simp

declare Arrow_Read_loop.simps [simp del]

definition Arrow_Read :: "nat \<Rightarrow> arrow_reader \<Rightarrow> (byte list \<times> unit outcome) \<times> arrow_reader" where
  "Arrow_Read len ar =
     (case Arrow_Read_loop len [] ar of
        ((p, Ret _), ar') \<Rightarrow> if ar_eof ar' \<and> p = [] then (([], Fail ErrEOF), ar') else ((p, Ret ()), ar')
      | r \<Rightarrow> r)"

end
