(* ===== verification/ArrowRoundtrip.thy ===== *)
theory ArrowRoundtrip
  imports ArrowStream
begin

section \<open>What the arrow writer writes, the arrow reader reads\<close>

text \<open>
  The format of the stream as a function of the data (\<open>arrow_stream\<close>), that the writer produces it for
  any split of the data into calls of \<open>Write\<close>, and that the reader behaves on it as a reader
  of the plain data, for any sizes of the buffers passed to \<open>Read\<close>.
\<close>

subsection \<open>The format\<close>

definition crc_of :: "byte list \<Rightarrow> u32" where
  "crc_of bs = crc32_Update 0 bs"

function open_body :: "byte list \<Rightarrow> byte list" where
  "open_body d =
     (if DefaultChunkSize \<le> length d then
        take DefaultChunkSize d @ uint32ToBytes (crc_of (take DefaultChunkSize d)) @
        open_body (drop DefaultChunkSize d)
      else d)"
  by pat_completeness auto
termination by (relation "measure length") (auto simp: DefaultChunkSize_def)

declare open_body.simps [simp del]

definition arrow_stream :: "byte list \<Rightarrow> byte list" where
  "arrow_stream d = uint32ToBytes (word_of_nat DefaultChunkSize) @ open_body d @ uint32ToBytes (crc_of d)"

fun last_part :: "byte list \<Rightarrow> byte list" where
  "last_part d = drop (length d div DefaultChunkSize * DefaultChunkSize) d"

declare last_part.simps [simp del]

lemma chunk_pos [simp]: "0 < DefaultChunkSize" by (simp add: DefaultChunkSize_def)

lemma length_uint32ToBytes [simp]: "length (uint32ToBytes w) = 4"
  by (simp add: uint32ToBytes_def)

lemma and_255: "(x :: u32) AND 255 = take_bit 8 x"
proof -
  have "(255 :: u32) = mask 8" by (simp add: mask_eq_exp_minus_1)
  then show ?thesis by (simp only: take_bit_eq_mask)
qed

lemma ucast_byte: "ucast (ucast (take_bit 8 (x :: u32)) :: byte) = take_bit 8 x"
  by (rule bit_word_eqI) (auto simp: bit_simps)

lemma bytes_uint32_roundtrip [simp]: "bytesToUint32 (uint32ToBytes w) = Ret w"
proof -
  let ?a = "push_bit 24 (take_bit 8 (drop_bit 24 w))" and ?b = "push_bit 16 (take_bit 8 (drop_bit 16 w))"
  let ?c = "push_bit 8 (take_bit 8 (drop_bit 8 w))" and ?d = "take_bit 8 w"
  have "?a + ?b = ?a OR ?b"
    by (rule disjunctive_add_eq_or) (auto intro!: bit_word_eqI simp: bit_simps)
  moreover have "(?a OR ?b) + ?c = ?a OR ?b OR ?c"
    by (subst disjunctive_add_eq_or) (auto intro!: bit_word_eqI simp: bit_simps)
  moreover have "(?a OR ?b OR ?c) + ?d = ?a OR ?b OR ?c OR ?d"
    by (subst disjunctive_add_eq_or) (auto intro!: bit_word_eqI simp: bit_simps)
  moreover have "?a OR ?b OR ?c OR ?d = w"
  proof (rule bit_word_eqI)
    fix n assume n: "n < LENGTH(32)"
    consider "n < 8" | "8 \<le> n" "n < 16" | "16 \<le> n" "n < 24" | "24 \<le> n" by linarith
    then show "bit (?a OR ?b OR ?c OR ?d) n = bit w n"
      using n by cases (auto simp: bit_simps)
  qed
  ultimately show ?thesis
    by (simp add: bytesToUint32_def uint32ToBytes_def and_255 ucast_byte)
qed

lemma last_part_step: "DefaultChunkSize \<le> length d \<Longrightarrow> last_part d = last_part (drop DefaultChunkSize d)"
proof -
  assume a: "DefaultChunkSize \<le> length d"
  then have "length d div DefaultChunkSize = Suc ((length d - DefaultChunkSize) div DefaultChunkSize)"
    by (simp add: le_div_geq)
  then show ?thesis by (simp add: last_part.simps add.commute)
qed

lemma last_part_short: "length d < DefaultChunkSize \<Longrightarrow> last_part d = d"
  by (simp add: last_part.simps)

lemma length_last_part: "length (last_part d) = length d mod DefaultChunkSize"
  by (simp add: last_part.simps minus_div_mult_eq_mod)

lemma last_part_less: "length (last_part d) < DefaultChunkSize"
  by (simp add: length_last_part)

lemma open_body_Nil: "open_body [] = []"
  by (subst open_body.simps) (simp add: DefaultChunkSize_def)

text \<open>Adding bytes that fit into the open chunk; the chunk is closed when it is full.\<close>

lemma open_body_append:
  assumes "length (last_part d) + length p \<le> DefaultChunkSize"
  shows "open_body (d @ p) = open_body d @ p @
     (if length (last_part d) + length p = DefaultChunkSize then uint32ToBytes (crc_of (last_part d @ p)) else [])"
    and "last_part (d @ p) =
     (if length (last_part d) + length p = DefaultChunkSize then [] else last_part d @ p)"
  using assms
proof (induction d rule: open_body.induct)
  case (1 d)
  {
    case 1
    show ?case
    proof (cases "DefaultChunkSize \<le> length d")
      case True
      then show ?thesis
        using "1.IH"(1) [OF True] 1 by (subst (1 2) open_body.simps) (simp add: last_part_step)
    next
      case False
      then show ?thesis using 1
        by (subst (1 2) open_body.simps) (simp add: last_part_short open_body_Nil)
    qed
  next
    case 2
    show ?case
    proof (cases "DefaultChunkSize \<le> length d")
      case True
      then show ?thesis
        using "1.IH"(2) [OF True] 2 by (simp add: last_part_step [of d] last_part_step [of "d @ p"])
    next
      case False
      then show ?thesis using 2
        by (auto simp: last_part_short last_part_step [of "d @ p"])
    qed
  }
qed

subsection \<open>The writer\<close>

definition wrote :: "goerr option \<Rightarrow> byte list \<Rightarrow> byte list \<Rightarrow> arrow_writer \<Rightarrow> bool" where
  "wrote a s0 d aw \<longleftrightarrow> aw_closeAnswer aw = a \<and> \<not> aw_firstWrite aw \<and> sk_script (aw_inner aw) = [] \<and>
     sk_out (aw_inner aw) = s0 @ uint32ToBytes (word_of_nat DefaultChunkSize) @ open_body d \<and>
     crc_value (aw_chunkCrc aw) = crc_of (last_part d) \<and> crc_value (aw_globalCrc aw) = crc_of d \<and>
     aw_currentChunkLength aw = length (last_part d)"

lemma writeAll_all:
  assumes "sk_script (aw_inner aw) = []"
  shows "writeAll b aw = (Ret (length b), aw\<lparr>aw_inner := (aw_inner aw)\<lparr>sk_out := sk_out (aw_inner aw) @ b\<rparr>\<rparr>)"
proof (cases "b = []")
  case True
  then show ?thesis
    by (simp add: writeAll_def on_inner_def writeAll_loop.simps)
next
  case False
  then have "writeAll_loop b 0 (aw_inner aw) = (Ret (length b), (aw_inner aw)\<lparr>sk_out := sk_out (aw_inner aw) @ b\<rparr>)"
    using assms by (subst writeAll_loop.simps) (simp add: sink_Write_def writeAll_loop.simps)
  then show ?thesis by (simp add: writeAll_def on_inner_def)
qed

lemma writeUint32_all:
  "sk_script (aw_inner aw) = [] \<Longrightarrow> writeUint32 v aw =
     (Ret (), aw\<lparr>aw_inner := (aw_inner aw)\<lparr>sk_out := sk_out (aw_inner aw) @ uint32ToBytes v\<rparr>\<rparr>)"
  using writeAll_all by (simp add: writeUint32_def mseq_def mbind_def mret_def)

lemma crc_of_append: "crc32_Update (crc_of xs) ys = crc_of (xs @ ys)"
  by (simp add: crc_of_def crc32_Update_append)

lemma crc_of_Nil: "crc_of [] = 0"
  by (simp add: crc_of_def)

lemma write_chunk_part_wrote:
  assumes "wrote a s0 d aw" and "length (last_part d) + length p \<le> DefaultChunkSize"
  shows "\<exists>aw'. write_chunk_part p aw = (Ret (), aw') \<and> wrote a s0 (d @ p) aw'"
proof -
  let ?aw = "aw\<lparr>aw_currentChunkLength := aw_currentChunkLength aw + length p,
             aw_chunkCrc := Crc_Update (CBytes p) (aw_chunkCrc aw),
             aw_globalCrc := Crc_Update (CBytes p) (aw_globalCrc aw)\<rparr>"
  let ?aw1 = "?aw\<lparr>aw_inner := (aw_inner aw)\<lparr>sk_out := sk_out (aw_inner aw) @ p\<rparr>\<rparr>"
  have s: "sk_script (aw_inner ?aw) = []" "sk_script (aw_inner ?aw1) = []"
    using assms(1) by (simp_all add: wrote_def)
  have crc: "Crc_Value (aw_chunkCrc ?aw1) = crc_of (last_part d @ p)"
    using assms(1) by (simp add: wrote_def Crc_Value_def Crc_Update_def crc_of_append)
  show ?thesis
  proof (cases "length (last_part d) + length p = DefaultChunkSize")
    case True
    then have "chunkIsFull ?aw1" using assms(1) by (simp add: wrote_def chunkIsFull_def)
    then have "write_chunk_part p aw = (Ret (), ?aw1\<lparr>aw_inner := (aw_inner ?aw1)\<lparr>sk_out := sk_out (aw_inner ?aw1) @
        uint32ToBytes (crc_of (last_part d @ p))\<rparr>, aw_chunkCrc := NewCrc32CheckSum, aw_currentChunkLength := 0\<rparr>)"
      using writeAll_all [OF s(1), of p] writeUint32_all [OF s(2), of "crc_of (last_part d @ p)"] crc
      by (simp add: write_chunk_part_def mseq_def mbind_def mput_def mget_def)
    then show ?thesis
      using assms True open_body_append [of d p]
      by (simp add: wrote_def Crc_Update_def crc_of_append NewCrc32CheckSum_def crc_of_Nil)
  next
    case False
    then have "\<not> chunkIsFull ?aw1" using assms by (simp add: wrote_def chunkIsFull_def)
    then have "write_chunk_part p aw = (Ret (), ?aw1)"
      using writeAll_all [OF s(1), of p]
      by (simp add: write_chunk_part_def mseq_def mbind_def mput_def mget_def mret_def)
    then show ?thesis
      using assms False open_body_append [of d p]
      by (simp add: wrote_def Crc_Update_def crc_of_append)
  qed
qed

lemma Write_loop_wrote:
  "wrote a s0 d aw \<Longrightarrow> t \<le> length data \<Longrightarrow>
     \<exists>aw'. Write_loop data t aw = (Ret (length data), aw') \<and> wrote a s0 (d @ drop t data) aw'"
proof (induction data t aw arbitrary: d rule: Write_loop.induct)
  case (1 data t aw)
  show ?case
  proof (cases "t < length data")
    case False
    then show ?thesis using "1.prems" by (subst Write_loop.simps) simp
  next
    case True
    let ?n = "min (leftChunkLength aw) (length data - t)"
    let ?p = "take ?n (drop t data)"
    have n: "leftChunkLength aw = DefaultChunkSize - length (last_part d)"
      using "1.prems"(1) by (simp add: wrote_def leftChunkLength_def)
    then have "length (last_part d) + length ?p \<le> DefaultChunkSize"
      using last_part_less [of d] by simp
    then obtain aw1 where aw1: "write_chunk_part ?p aw = (Ret (), aw1)" "wrote a s0 (d @ ?p) aw1"
      using write_chunk_part_wrote "1.prems"(1) by blast
    have "t + ?n \<le> length data" using True by simp
    then obtain aw' where "Write_loop data (t + ?n) aw1 = (Ret (length data), aw')"
      "wrote a s0 ((d @ ?p) @ drop (t + ?n) data) aw'"
      using "1.IH" [OF True refl aw1(1) [symmetric] refl aw1(2)] by blast
    moreover have "?p @ drop (t + ?n) data = drop t data"
      by (metis add.commute append_take_drop_id drop_drop)
    ultimately show ?thesis using True aw1(1) by (subst Write_loop.simps) (simp add: Let_def)
  qed
qed

lemma Arrow_Write_wrote:
  "wrote a s0 d aw \<Longrightarrow> \<exists>aw'. Arrow_Write data aw = (Ret (length data), aw') \<and> wrote a s0 (d @ data) aw'"
  using Write_loop_wrote [of a s0 d aw 0 data]
  by (simp add: Arrow_Write_def mbind_def mget_def wrote_def)

lemma Arrow_Write_first:
  assumes "sk_script s = []"
  shows "\<exists>aw'. Arrow_Write data (NewArrowStreamWriter s a) = (Ret (length data), aw') \<and> wrote a (sk_out s) data aw'"
proof -
  let ?aw = "(NewArrowStreamWriter s a)\<lparr>aw_inner := s\<lparr>sk_out := sk_out s @ uint32ToBytes (word_of_nat DefaultChunkSize)\<rparr>,
     aw_firstWrite := False\<rparr>"
  have "wrote a (sk_out s) [] ?aw"
    using assms last_part_less [of "[]"]
    by (simp add: wrote_def NewArrowStreamWriter_def NewCrc32CheckSum_def open_body_Nil last_part_short crc_of_Nil)
  then obtain aw' where "Write_loop data 0 ?aw = (Ret (length data), aw')" "wrote a (sk_out s) data aw'"
    using Write_loop_wrote [of a "sk_out s" "[]" ?aw 0 data] by auto
  moreover have "writeUint32 (word_of_nat DefaultChunkSize) (NewArrowStreamWriter s a) =
      (Ret (), (NewArrowStreamWriter s a)\<lparr>aw_inner := s\<lparr>sk_out := sk_out s @ uint32ToBytes (word_of_nat DefaultChunkSize)\<rparr>\<rparr>)"
    by (subst writeUint32_all) (simp_all add: assms NewArrowStreamWriter_def)
  then have "Arrow_Write data (NewArrowStreamWriter s a) = Write_loop data 0 ?aw"
    unfolding Arrow_Write_def mbind_def mseq_def mget_def mput_def by (simp add: NewArrowStreamWriter_def)
  ultimately show ?thesis by simp
qed

lemma Arrow_Close_wrote:
  assumes "wrote a s0 d aw"
  shows "\<exists>aw'. Arrow_Close aw = ((case a of None \<Rightarrow> Ret () | Some e \<Rightarrow> Fail e), aw') \<and>
    sk_out (aw_inner aw') = s0 @ arrow_stream d"
proof -
  have "sk_script (aw_inner aw) = []" using assms by (simp add: wrote_def)
  note w = writeUint32_all [OF this, of "Crc_Value (aw_globalCrc aw)"]
  show ?thesis
    using assms unfolding Arrow_Close_def w
    by (simp add: wrote_def Crc_Value_def arrow_stream_def Let_def split: option.splits)
qed

fun Arrow_Writes :: "byte list list \<Rightarrow> (arrow_writer, unit) M" where
  "Arrow_Writes [] = mret ()"
| "Arrow_Writes (d # ds) = mseq (Arrow_Write d) (Arrow_Writes ds)"

lemma Arrow_Writes_wrote: "wrote a s0 d aw \<Longrightarrow> \<exists>aw'. Arrow_Writes ds aw = (Ret (), aw') \<and> wrote a s0 (d @ concat ds) aw'"
proof (induction ds arbitrary: d aw)
  case (Cons x ds)
  obtain aw1 where 1: "Arrow_Write x aw = (Ret (length x), aw1)" "wrote a s0 (d @ x) aw1"
    using Arrow_Write_wrote [OF Cons.prems] by blast
  then show ?case using Cons.IH [OF 1(2)] by (auto simp: mseq_Ret)
qed (auto simp: mret_run)

text \<open>
  C2. On a sink that takes what it is given, the arrow writer produces the stream of the whole data,
  however the data is cut into calls of \<open>Write\<close>: the chunk size, every full chunk with its own
  checksum, the open rest, and the checksum of all data when it is closed.
\<close>

theorem arrow_writer_stream:
  assumes "sk_script s = []" and "ds \<noteq> []"
  shows "\<exists>aw1 aw2. Arrow_Writes ds (NewArrowStreamWriter s None) = (Ret (), aw1) \<and>
    Arrow_Close aw1 = (Ret (), aw2) \<and> sk_out (aw_inner aw2) = sk_out s @ arrow_stream (concat ds)"
proof -
  obtain x xs where ds: "ds = x # xs" using assms(2) by (cases ds) auto
  obtain aw0 where 0: "Arrow_Write x (NewArrowStreamWriter s None) = (Ret (length x), aw0)" "wrote None (sk_out s) x aw0"
    using Arrow_Write_first [OF assms(1)] by blast
  obtain aw1 where 1: "Arrow_Writes xs aw0 = (Ret (), aw1)" "wrote None (sk_out s) (concat ds) aw1"
    using Arrow_Writes_wrote [OF 0(2), of xs] ds by auto
  show ?thesis using Arrow_Close_wrote [OF 1(2)] 0(1) 1(1) ds by (auto simp: mseq_Ret)
qed

theorem arrow_writer_stream_witness:
  "\<exists>aw1 aw2. Arrow_Writes [[1, 2], [], [3]] (NewArrowStreamWriter \<lparr>sk_out = [], sk_script = []\<rparr> None) = (Ret (), aw1) \<and>
    Arrow_Close aw1 = (Ret (), aw2) \<and> sk_out (aw_inner aw2) = arrow_stream [1, 2, 3]"
  using arrow_writer_stream [of "\<lparr>sk_out = [], sk_script = []\<rparr>" "[[1, 2], [], [3]]"] by simp

subsection \<open>The reader\<close>

text \<open>
  \<open>holds d ar\<close>: the reader still has exactly the data \<open>d\<close> to deliver. Either nothing has been read, or
  a chunk is open with more chunks behind it, or the last chunk is open.
\<close>

definition rest_of :: "u32 \<Rightarrow> byte list \<Rightarrow> byte list" where
  "rest_of g d = open_body d @ uint32ToBytes (crc32_Update g d)"

definition chunk_shape :: "nat \<Rightarrow> chunk \<Rightarrow> bool" where
  "chunk_shape n c \<longleftrightarrow> length (ck_buf c) = n \<and> ck_offset c \<le> ck_end c \<and> ck_end c \<le> n"

definition holds_start :: "byte list \<Rightarrow> arrow_reader \<Rightarrow> bool" where
  "holds_start d ar \<longleftrightarrow> ar_firstRead ar \<and> ar_chunk ar = None \<and> \<not> ar_eof ar \<and>
     crc_value (ar_globalCrc ar) = 0 \<and> ar_inner ar = \<lparr>src_in = arrow_stream d, src_end = ErrEOF\<rparr>"

definition holds_mid :: "byte list \<Rightarrow> byte list \<Rightarrow> arrow_reader \<Rightarrow> bool" where
  "holds_mid d1 d2 ar \<longleftrightarrow> \<not> ar_firstRead ar \<and> \<not> ar_eof ar \<and> ar_chunkSize ar = DefaultChunkSize + 4 \<and>
     (\<exists>c. ar_chunk ar = Some c \<and> chunk_shape (DefaultChunkSize + 4) c \<and> chunk_bytes c = d1) \<and>
     ar_inner ar = \<lparr>src_in = rest_of (crc_value (ar_globalCrc ar)) d2, src_end = ErrEOF\<rparr>"

definition holds_end :: "byte list \<Rightarrow> arrow_reader \<Rightarrow> bool" where
  "holds_end d ar \<longleftrightarrow> ar_eof ar \<and>
     (\<exists>c. ar_chunk ar = Some c \<and> chunk_shape (DefaultChunkSize + 4) c \<and> chunk_bytes c = d)"

definition holds :: "byte list \<Rightarrow> arrow_reader \<Rightarrow> bool" where
  "holds d ar \<longleftrightarrow> holds_start d ar \<or> (\<exists>d1 d2. d = d1 @ d2 \<and> holds_mid d1 d2 ar) \<or> holds_end d ar"

lemma length_chunk_bytes: "chunk_shape n c \<Longrightarrow> length (chunk_bytes c) = chunk_length c"
  by (auto simp: chunk_shape_def chunk_bytes_def chunk_length_def)

lemma io_ReadFull_append:
  "length bs = n \<Longrightarrow> io_ReadFull n \<lparr>src_in = bs @ rest, src_end = e\<rparr> = (bs, None, \<lparr>src_in = rest, src_end = e\<rparr>)"
  by (simp add: io_ReadFull_def ReadFull_def)

lemma io_ReadFull_short:
  "bs \<noteq> [] \<Longrightarrow> length bs < n \<Longrightarrow> io_ReadFull n \<lparr>src_in = bs, src_end = ErrEOF\<rparr> =
     (bs, Some ErrUnexpectedEOF, \<lparr>src_in = [], src_end = ErrEOF\<rparr>)"
  by (simp add: io_ReadFull_def ReadFull_def)

text \<open>The part of \<open>ReadChunk\<close> behind the chunk size.\<close>

lemma ReadChunk_body:
  assumes "\<not> ar_eof ar" and "ar_chunkSize ar = DefaultChunkSize + 4"
    and "ar_chunk ar = Some cc" and "length (ck_buf cc) = DefaultChunkSize + 4"
    and "ar_inner ar = \<lparr>src_in = rest_of (crc_value (ar_globalCrc ar)) d, src_end = ErrEOF\<rparr>"
    and "\<not> ar_firstRead ar"
  shows "\<exists>ar'. ReadChunk ar = (Ret (), ar') \<and>
    (if DefaultChunkSize \<le> length d then holds_mid (take DefaultChunkSize d) (drop DefaultChunkSize d) ar'
     else holds_end d ar')"
proof (cases "DefaultChunkSize \<le> length d")
  case True
  let ?d = "take DefaultChunkSize d" and ?g = "crc_value (ar_globalCrc ar)"
  let ?rest = "rest_of (crc32_Update ?g ?d) (drop DefaultChunkSize d)"
  have "rest_of ?g d = (?d @ uint32ToBytes (crc_of ?d)) @ ?rest"
    using True by (simp add: rest_of_def open_body.simps [of d] crc32_Update_append)
  then have io: "io_ReadFull (length (ck_buf cc)) (ar_inner ar) =
      (?d @ uint32ToBytes (crc_of ?d), None, \<lparr>src_in = ?rest, src_end = ErrEOF\<rparr>)"
    using assms(4,5) True io_ReadFull_append [of "?d @ uint32ToBytes (crc_of ?d)" "DefaultChunkSize + 4" ?rest ErrEOF]
    by simp
  show ?thesis
    using assms True io
    by (simp add: ReadChunk_def mseq_def mbind_def first_chunk_def mget_def mret_def Let_def full_chunk_def
        setLength_def chunk_truncate_def chunk_bytes_def chunk_reset_def holds_mid_def chunk_shape_def Crc_Value_def
        Crc_Update_def NewCrc32CheckSum_def crc_of_def)
next
  case False
  let ?g = "crc_value (ar_globalCrc ar)"
  have r: "rest_of ?g d = d @ uint32ToBytes (crc32_Update ?g d)"
    using False by (simp add: rest_of_def open_body.simps [of d])
  have io: "io_ReadFull (length (ck_buf cc)) (ar_inner ar) =
      (d @ uint32ToBytes (crc32_Update ?g d), Some ErrUnexpectedEOF, \<lparr>src_in = [], src_end = ErrEOF\<rparr>)"
    unfolding assms(5) r by (rule io_ReadFull_short) (use False assms(4) in \<open>auto simp: uint32ToBytes_def\<close>)
  show ?thesis
    using assms False io
    by (simp add: ReadChunk_def mseq_def mbind_def first_chunk_def mget_def mret_def Let_def last_chunk_def
        setLength_def chunk_truncate_def chunk_bytes_def chunk_reset_def chunk_length_def holds_end_def chunk_shape_def
        Crc_Value_def Crc_Update_def NewCrc32CheckSum_def)
qed

lemma ReadChunk_holds:
  assumes "holds d ar" and "\<not> drained ar"
    and "case ar_chunk ar of None \<Rightarrow> True | Some c \<Rightarrow> chunk_length c = 0"
  shows "\<exists>ar'. ReadChunk ar = (Ret (), ar') \<and> holds d ar' \<and> ar_chunk ar' \<noteq> None"
proof -
  have fin: "holds d ar' \<and> ar_chunk ar' \<noteq> None"
    if "if DefaultChunkSize \<le> length d then holds_mid (take DefaultChunkSize d) (drop DefaultChunkSize d) ar'
        else holds_end d ar'" for ar'
  proof (cases "DefaultChunkSize \<le> length d")
    case True
    then have "holds_mid (take DefaultChunkSize d) (drop DefaultChunkSize d) ar'" using that by simp
    moreover have "d = take DefaultChunkSize d @ drop DefaultChunkSize d" by simp
    ultimately show ?thesis unfolding holds_def by (metis holds_mid_def option.distinct(1))
  next
    case False
    then show ?thesis using that by (auto simp: holds_def holds_end_def)
  qed
  consider (start) "holds_start d ar" | (mid) d1 d2 where "d = d1 @ d2" "holds_mid d1 d2 ar" | (last) "holds_end d ar"
    using assms(1) by (auto simp: holds_def)
  then show ?thesis
  proof cases
    case start
    let ?ar = "ar\<lparr>ar_inner := \<lparr>src_in = rest_of 0 d, src_end = ErrEOF\<rparr>, ar_chunkSize := DefaultChunkSize + 4,
        ar_chunk := Some (newChunk (DefaultChunkSize + 4)), ar_firstRead := False\<rparr>"
    have C: "unat (word_of_nat DefaultChunkSize :: u32) = DefaultChunkSize"
      by (simp add: unat_of_nat DefaultChunkSize_def)
    have "arrow_stream d = uint32ToBytes (word_of_nat DefaultChunkSize) @ rest_of 0 d"
      by (simp add: arrow_stream_def rest_of_def crc_of_def)
    then have "readUint32 ar = (Ret (word_of_nat DefaultChunkSize), ar\<lparr>ar_inner := \<lparr>src_in = rest_of 0 d, src_end = ErrEOF\<rparr>\<rparr>)"
      using start io_ReadFull_append [of "uint32ToBytes (word_of_nat DefaultChunkSize)" 4 "rest_of 0 d" ErrEOF]
      by (simp add: readUint32_def holds_start_def)
    then have "first_chunk ar = (Ret (), ?ar)"
      using start C by (simp add: first_chunk_def mbind_def mget_def mput_def holds_start_def)
    moreover have "first_chunk ?ar = (Ret (), ?ar)"
      by (simp add: first_chunk_def mbind_def mget_def mret_def)
    ultimately have "ReadChunk ar = ReadChunk ?ar" by (simp add: ReadChunk_def mseq_def mbind_def)
    moreover have "\<exists>ar'. ReadChunk ?ar = (Ret (), ar') \<and>
      (if DefaultChunkSize \<le> length d then holds_mid (take DefaultChunkSize d) (drop DefaultChunkSize d) ar'
       else holds_end d ar')"
      by (rule ReadChunk_body [where cc = "newChunk (DefaultChunkSize + 4)"]) (use start in \<open>simp_all add: holds_start_def newChunk_def\<close>)
    ultimately show ?thesis using fin by metis
  next
    case mid
    then obtain c where c: "ar_chunk ar = Some c" "chunk_shape (DefaultChunkSize + 4) c" "chunk_bytes c = d1"
      by (auto simp: holds_mid_def)
    then have "d1 = []" using assms(3) length_chunk_bytes by fastforce
    then have d: "d = d2" using mid by simp
    have "\<exists>ar'. ReadChunk ar = (Ret (), ar') \<and>
      (if DefaultChunkSize \<le> length d then holds_mid (take DefaultChunkSize d) (drop DefaultChunkSize d) ar'
       else holds_end d ar')"
      by (rule ReadChunk_body [where cc = c]) (use mid c d in \<open>simp_all add: holds_mid_def chunk_shape_def\<close>)
    then show ?thesis using fin by metis
  next
    case last
    then show ?thesis using assms(2,3) by (auto simp: holds_end_def drained_def)
  qed
qed

lemma load_chunk_holds:
  assumes "holds d ar" and "\<not> drained ar"
  shows "\<exists>ar'. load_chunk ar = (Ret (), ar') \<and> holds d ar' \<and> ar_chunk ar' \<noteq> None"
proof (cases "case ar_chunk ar of None \<Rightarrow> True | Some c \<Rightarrow> chunk_length c = 0")
  case True
  then show ?thesis using ReadChunk_holds [OF assms True] by (simp add: load_chunk_def)
next
  case False
  then show ?thesis using assms(1) by (auto simp: load_chunk_def split: option.splits)
qed

lemma chunk_Read_shape:
  assumes "chunk_shape n c"
  shows "\<exists>err c'. chunk_Read room c = Ret (take room (chunk_bytes c), err, c') \<and> chunk_shape n c' \<and>
    chunk_bytes c' = drop room (chunk_bytes c)"
proof (cases "ck_end c \<le> ck_offset c")
  case True
  then have "chunk_bytes c = []" by (simp add: chunk_bytes_def)
  then show ?thesis using True assms by (simp add: chunk_Read_def)
next
  case False
  let ?p = "take room (chunk_bytes c)"
  have len: "length (chunk_bytes c) = ck_end c - ck_offset c"
    using length_chunk_bytes [OF assms] by (simp add: chunk_length_def)
  have "drop (ck_offset c + length ?p) (take (ck_end c) (ck_buf c)) = drop (length ?p) (chunk_bytes c)"
    by (simp add: chunk_bytes_def add.commute)
  also have "\<dots> = drop room (chunk_bytes c)" by (auto simp: min_def)
  finally show ?thesis
    using False assms len by (auto simp: chunk_Read_def Let_def chunk_shape_def chunk_bytes_def)
qed

lemma copy_chunk_holds:
  assumes "holds d ar" and "ar_chunk ar \<noteq> None"
  shows "\<exists>k ar'. copy_chunk room ar = (Ret (take k d), ar') \<and> k \<le> room \<and> k \<le> length d \<and> holds (drop k d) ar'"
proof -
  obtain c where c: "ar_chunk ar = Some c" using assms(2) by auto
  consider (mid) d1 d2 where "d = d1 @ d2" "holds_mid d1 d2 ar" | (last) "holds_end d ar"
    using assms by (auto simp: holds_def holds_start_def)
  then show ?thesis
  proof cases
    case mid
    then have sh: "chunk_shape (DefaultChunkSize + 4) c" "chunk_bytes c = d1" using c by (auto simp: holds_mid_def)
    obtain err c' where r: "chunk_Read room c = Ret (take room d1, err, c')" "chunk_shape (DefaultChunkSize + 4) c'"
      "chunk_bytes c' = drop room d1"
      using chunk_Read_shape [OF sh(1), of room] sh(2) by auto
    let ?k = "min room (length d1)"
    have "take room d1 = take ?k d" "drop ?k d = drop room d1 @ d2" using mid(1) by (auto simp: min_def)
    moreover have "holds_mid (drop room d1) d2 (ar\<lparr>ar_chunk := Some c'\<rparr>)"
      using mid(2) r by (simp add: holds_mid_def)
    then have "holds (drop room d1 @ d2) (ar\<lparr>ar_chunk := Some c'\<rparr>)" unfolding holds_def by blast
    ultimately show ?thesis
      using c r mid(1) by (intro exI [of _ ?k] exI [of _ "ar\<lparr>ar_chunk := Some c'\<rparr>"]) (simp add: copy_chunk_def)
  next
    case last
    then have sh: "chunk_shape (DefaultChunkSize + 4) c" "chunk_bytes c = d" using c by (auto simp: holds_end_def)
    obtain err c' where r: "chunk_Read room c = Ret (take room d, err, c')" "chunk_shape (DefaultChunkSize + 4) c'"
      "chunk_bytes c' = drop room d"
      using chunk_Read_shape [OF sh(1), of room] sh(2) by auto
    have "holds_end (drop room d) (ar\<lparr>ar_chunk := Some c'\<rparr>)" using last r by (simp add: holds_end_def)
    moreover have "drop (min room (length d)) d = drop room d" "take (min room (length d)) d = take room d"
      by (auto simp: min_def)
    ultimately show ?thesis
      using c r by (intro exI [of _ "min room (length d)"] exI [of _ "ar\<lparr>ar_chunk := Some c'\<rparr>"])
        (simp add: copy_chunk_def holds_def)
  qed
qed

lemma drained_holds: "holds d ar \<Longrightarrow> drained ar \<Longrightarrow> d = []"
  by (auto simp: holds_def holds_start_def holds_mid_def holds_end_def drained_def
      dest!: length_chunk_bytes)

lemma Arrow_Read_loop_holds:
  "holds d ar \<Longrightarrow> length acc \<le> len \<Longrightarrow>
   \<exists>ar'. Arrow_Read_loop len acc ar = ((acc @ take (len - length acc) d, Ret ()), ar') \<and>
     holds (drop (len - length acc) d) ar' \<and> (length d < len - length acc \<longrightarrow> ar_eof ar')"
proof (induction len acc ar arbitrary: d rule: Arrow_Read_loop.induct)
  case (1 len acc ar)
  show ?case
  proof (cases "length acc < len \<and> \<not> drained ar")
    case False
    then consider "length acc = len" | "drained ar" "d = []" using "1.prems" drained_holds by fastforce
    then show ?thesis using "1.prems" False by cases (subst Arrow_Read_loop.simps, auto simp: drained_def)+
  next
    case True
    obtain ar1 where 1: "load_chunk ar = (Ret (), ar1)" "holds d ar1" "ar_chunk ar1 \<noteq> None"
      using load_chunk_holds "1.prems"(1) True by blast
    obtain k ar2 where 2: "copy_chunk (len - length acc) ar1 = (Ret (take k d), ar2)" "k \<le> len - length acc"
      "k \<le> length d" "holds (drop k d) ar2"
      using copy_chunk_holds [OF 1(2,3)] by blast
    have len: "length (acc @ take k d) \<le> len" "len - length (acc @ take k d) = len - length acc - k"
      using 2(2,3) True by (auto simp: min_def)
    obtain ar' where r: "Arrow_Read_loop len (acc @ take k d) ar2 =
        (((acc @ take k d) @ take (len - length (acc @ take k d)) (drop k d), Ret ()), ar')"
      "holds (drop (len - length (acc @ take k d)) (drop k d)) ar'"
      "length (drop k d) < len - length (acc @ take k d) \<longrightarrow> ar_eof ar'"
      using "1.IH" [OF True 1(1) [symmetric] refl 2(1) [symmetric] refl 2(4) len(1)] by blast
    have "take k d @ take (len - length acc - k) (drop k d) = take (len - length acc) d"
      using 2(2) by (metis le_add_diff_inverse take_add)
    moreover have "drop (len - length acc - k) (drop k d) = drop (len - length acc) d"
      using 2(2) by (metis drop_drop le_add_diff_inverse2)
    ultimately show ?thesis
      using r len(2) True 1(1) 2 by (subst Arrow_Read_loop.simps) auto
  qed
qed

subsection \<open>Properties\<close>

text \<open>A sequence of calls of \<open>Read\<close> with buffers of the given sizes, and what a reader of plain data answers.\<close>

fun Arrow_Reads :: "nat list \<Rightarrow> arrow_reader \<Rightarrow> (byte list \<times> unit outcome) list" where
  "Arrow_Reads [] ar = []"
| "Arrow_Reads (n # ns) ar = (case Arrow_Read n ar of (r, ar') \<Rightarrow> r # Arrow_Reads ns ar')"

fun plain_reads :: "nat list \<Rightarrow> byte list \<Rightarrow> (byte list \<times> unit outcome) list" where
  "plain_reads [] d = []"
| "plain_reads (n # ns) d = (if d = [] then ([], Fail ErrEOF) else (take n d, Ret ())) # plain_reads ns (drop n d)"

lemma Arrow_Read_holds:
  assumes "holds d ar" and "0 < n"
  shows "\<exists>ar'. Arrow_Read n ar = ((if d = [] then ([], Fail ErrEOF) else (take n d, Ret ())), ar') \<and> holds (drop n d) ar'"
proof -
  obtain ar' where "Arrow_Read_loop n [] ar = ((take n d, Ret ()), ar')" "holds (drop n d) ar'"
    "length d < n \<longrightarrow> ar_eof ar'"
    using Arrow_Read_loop_holds [OF assms(1), of "[]" n] by auto
  then show ?thesis using assms(2) by (cases "d = []") (auto simp: Arrow_Read_def)
qed

lemma Arrow_Reads_holds: "holds d ar \<Longrightarrow> \<forall>n \<in> set ns. 0 < n \<Longrightarrow> Arrow_Reads ns ar = plain_reads ns d"
proof (induction ns arbitrary: d ar)
  case (Cons n ns)
  obtain ar' where "Arrow_Read n ar = ((if d = [] then ([], Fail ErrEOF) else (take n d, Ret ())), ar')" "holds (drop n d) ar'"
    using Arrow_Read_holds [OF Cons.prems(1), of n] Cons.prems(2) by auto
  then show ?case using Cons.IH Cons.prems(2) by simp
qed simp

text \<open>
  C3. On the stream of some data, the arrow reader cannot be told from a reader of the plain data:
  for any sequence of buffers, none of them empty, every \<open>Read\<close> fills its buffer while data is left, across
  chunk boundaries, with the right bytes, the last one returns what is left, and every later
  one returns the end of the file; all checksums are found correct on the way.
\<close>

theorem arrow_reader_refines_plain:
  assumes "\<forall>n \<in> set ns. 0 < n"
  shows "Arrow_Reads ns (NewArrowStreamReader \<lparr>src_in = arrow_stream d, src_end = ErrEOF\<rparr>) = plain_reads ns d"
proof (rule Arrow_Reads_holds [OF _ assms])
  show "holds d (NewArrowStreamReader \<lparr>src_in = arrow_stream d, src_end = ErrEOF\<rparr>)"
    by (simp add: holds_def holds_start_def NewArrowStreamReader_def NewCrc32CheckSum_def)
qed

theorem arrow_reader_refines_plain_witness:
  "Arrow_Reads [2, 5, 1] (NewArrowStreamReader \<lparr>src_in = arrow_stream [7, 8, 9], src_end = ErrEOF\<rparr>) =
     [([7, 8], Ret ()), ([9], Ret ()), ([], Fail ErrEOF)]"
  by (subst arrow_reader_refines_plain) simp_all

text \<open>
  A writer that is closed without any \<open>Write\<close> sends four bytes that the reader refuses: it takes
  them for the chunk size and finds no chunk behind it, so an empty stream does not survive
  the round trip.
\<close>

theorem arrow_empty_stream_refused:
  assumes "sk_script s = []" and "sk_out s = []"
  shows "\<exists>aw. Arrow_Close (NewArrowStreamWriter s None) = (Ret (), aw) \<and>
    (\<exists>m. fst (Arrow_Read (Suc n) (NewArrowStreamReader \<lparr>src_in = sk_out (aw_inner aw), src_end = ErrEOF\<rparr>)) =
       ([], Fail (ErrMsg m)))"
proof -
  let ?w = "NewArrowStreamWriter s None"
  have c: "Arrow_Close ?w = (Ret (), ?w\<lparr>aw_inner := s\<lparr>sk_out := uint32ToBytes 0\<rparr>, aw_globalCrc := NewCrc32CheckSum\<rparr>)"
    unfolding Arrow_Close_def using assms
    by (subst writeUint32_all) (simp_all add: NewArrowStreamWriter_def Crc_Value_def NewCrc32CheckSum_def Let_def)
  let ?r = "NewArrowStreamReader \<lparr>src_in = uint32ToBytes 0, src_end = ErrEOF\<rparr>"
  have "io_ReadFull 4 \<lparr>src_in = uint32ToBytes 0, src_end = ErrEOF\<rparr> = (uint32ToBytes 0, None, \<lparr>src_in = [], src_end = ErrEOF\<rparr>)"
    using io_ReadFull_append [of "uint32ToBytes 0" 4 "[]" ErrEOF] by simp
  moreover have "io_ReadFull 4 \<lparr>src_in = [], src_end = ErrEOF\<rparr> = ([], Some ErrEOF, \<lparr>src_in = [], src_end = ErrEOF\<rparr>)"
    by (simp add: io_ReadFull_def ReadFull_def)
  ultimately obtain ar where l: "load_chunk ?r = (Fail (ErrMsg ''not enough bytes, at least 4 bytes for crc value''), ar)"
    by (simp add: load_chunk_def ReadChunk_def first_chunk_def readUint32_def mseq_def mbind_def mget_def mput_def
        NewArrowStreamReader_def newChunk_def chunk_reset_def last_chunk_def setLength_def chunk_length_def Let_def)
  have "\<not> drained ?r" by (simp add: drained_def NewArrowStreamReader_def)
  then have "Arrow_Read_loop (Suc n) [] ?r = (([], Fail (ErrMsg ''not enough bytes, at least 4 bytes for crc value'')), ar)"
    using l by (subst Arrow_Read_loop.simps) simp
  then show ?thesis using c by (simp add: Arrow_Read_def)
qed

theorem arrow_empty_stream_refused_witness:
  "\<exists>aw. Arrow_Close (NewArrowStreamWriter \<lparr>sk_out = [], sk_script = []\<rparr> None) = (Ret (), aw) \<and>
    (\<exists>m. fst (Arrow_Read (Suc 9) (NewArrowStreamReader \<lparr>src_in = sk_out (aw_inner aw), src_end = ErrEOF\<rparr>)) =
       ([], Fail (ErrMsg m)))"
  by (rule arrow_empty_stream_refused) simp_all

end
