(* ===== verification/TableSchemas.thy ===== *)
theory TableSchemas
  imports Columns
begin

section \<open>Table schemas and their SQL: \<open>table_schema.go\<close>\<close>

text \<open>
  Models \<open>odps/tableschema/table_schema.go\<close>.
  \<^item> \<open>TableSchema\<close> has the fields that the builder sets and the SQL functions read; the fields
    that only carry data from a server's answer are left out.
  \<^item> A Go map of properties is the association list of its entries in iteration order.
  \<^item> The templates of \<open>text/template\<close> are written out as the text they produce, with the trimming
    of \<open>{{-\<close> and \<open>-}}\<close> done. A nil column type makes the execution of the template fail, which
    the code turns into a panic.
\<close>

subsection \<open>State\<close>

record SortColumn =
  sc_Name :: string
  sc_Order :: string

record ClusterInfo =
  ci_ClusterType :: string
  ci_ClusterCols :: "string list"
  ci_SortCols :: "SortColumn list"
  ci_BucketNum :: int

record TableSchema =
  ts_TableName :: string
  ts_Columns :: "Column list"
  ts_PartitionColumns :: "Column list"
  ts_Comment :: string
  ts_Lifecycle :: int
  ts_StorageHandler :: string
  ts_Location :: string
  ts_ClusterInfo :: ClusterInfo
  ts_TblProperties :: "(string \<times> string) list"
  ts_PrimaryKeys :: "string list"
  ts_IsVirtualView :: bool
  ts_IsMaterializedView :: bool
  ts_IsMaterializedViewRewriteEnabled :: bool
  ts_ViewText :: string
  ts_MvProperties :: "(string \<times> string) list"

record SchemaBuilder =
  sb_name :: string
  sb_comment :: string
  sb_columns :: "Column list"
  sb_partitionColumns :: "Column list"
  sb_storageHandler :: string
  sb_location :: string
  sb_viewText :: string
  sb_lifecycle :: int
  sb_primaryKeys :: "string list"
  sb_tblProperties :: "(string \<times> string) list"
  sb_clusterInfo :: ClusterInfo
  sb_isVirtualView :: bool
  sb_isMaterializedView :: bool
  sb_isMaterializedViewRewriteEnabled :: bool
  sb_mvProperties :: "(string \<times> string) list"

subsection \<open>SchemaBuilder\<close>

definition NewSchemaBuilder :: SchemaBuilder where
  "NewSchemaBuilder =
     \<lparr>sb_name = [], sb_comment = [], sb_columns = [], sb_partitionColumns = [], sb_storageHandler = [],
      sb_location = [], sb_viewText = [], sb_lifecycle = 0, sb_primaryKeys = [], sb_tblProperties = [],
      sb_clusterInfo = \<lparr>ci_ClusterType = [], ci_ClusterCols = [], ci_SortCols = [], ci_BucketNum = 0\<rparr>,
      sb_isVirtualView = False, sb_isMaterializedView = False,
      sb_isMaterializedViewRewriteEnabled = False, sb_mvProperties = []\<rparr>"

definition sb_Name :: "string \<Rightarrow> SchemaBuilder \<Rightarrow> SchemaBuilder" where
  "sb_Name name b = b\<lparr>sb_name := name\<rparr>"

definition sb_Column :: "Column \<Rightarrow> SchemaBuilder \<Rightarrow> SchemaBuilder" where
  "sb_Column c b = b\<lparr>sb_columns := sb_columns b @ [c]\<rparr>"

definition sb_PartitionColumn :: "Column \<Rightarrow> SchemaBuilder \<Rightarrow> SchemaBuilder" where
  "sb_PartitionColumn c b = b\<lparr>sb_partitionColumns := sb_partitionColumns b @ [c]\<rparr>"

definition sb_Columns :: "Column list \<Rightarrow> SchemaBuilder \<Rightarrow> SchemaBuilder" where
  "sb_Columns cs b = b\<lparr>sb_columns := sb_columns b @ cs\<rparr>"

definition sb_PartitionColumns :: "Column list \<Rightarrow> SchemaBuilder \<Rightarrow> SchemaBuilder" where
  "sb_PartitionColumns cs b = b\<lparr>sb_partitionColumns := sb_partitionColumns b @ cs\<rparr>"

definition sb_MvProperty :: "string \<Rightarrow> string \<Rightarrow> SchemaBuilder \<Rightarrow> SchemaBuilder" where
  "sb_MvProperty k v b = b\<lparr>sb_mvProperties := AList.update k v (sb_mvProperties b)\<rparr>"

definition sb_Build :: "SchemaBuilder \<Rightarrow> TableSchema" where
  "sb_Build b =
     \<lparr>ts_TableName = sb_name b, ts_Columns = sb_columns b, ts_PartitionColumns = sb_partitionColumns b,
      ts_Comment = sb_comment b, ts_Lifecycle = sb_lifecycle b, ts_StorageHandler = sb_storageHandler b,
      ts_Location = sb_location b, ts_ClusterInfo = sb_clusterInfo b,
      ts_TblProperties = sb_tblProperties b, ts_PrimaryKeys = sb_primaryKeys b,
      ts_IsVirtualView = sb_isVirtualView b, ts_IsMaterializedView = sb_isMaterializedView b,
      ts_IsMaterializedViewRewriteEnabled = sb_isMaterializedViewRewriteEnabled b,
      ts_ViewText = sb_viewText b, ts_MvProperties = sb_mvProperties b\<rparr>"

subsection \<open>Pieces of SQL\<close>

abbreviation when_str :: "bool \<Rightarrow> string \<Rightarrow> string" where
  "when_str b s \<equiv> (if b then s else [])"

text \<open>A range over a list with a separator behind every element but the last (\<open>notLast\<close>).\<close>

fun range_sep :: "string \<Rightarrow> ('a \<Rightarrow> string) \<Rightarrow> 'a list \<Rightarrow> string" where
  "range_sep sep f [] = []"
| "range_sep sep f [x] = f x"
| "range_sep sep f (x # xs) = f x @ sep @ range_sep sep f xs"

text \<open>One line of the column list: the comma stands before the line break.\<close>

fun column_lines :: "Column list \<Rightarrow> string outcome" where
  "column_lines [] = Ret []"
| "column_lines (c # cs) =
     obind (Name (col_Type c)) (\<lambda>ty.
     obind (column_lines cs) (\<lambda>rest.
     Ret (''    '' @ QuoteRef (col_Name c) @ '' '' @ ty @ '' '' @
          when_str (col_NotNull c) ''not null'' @ '' '' @
          when_str (col_Comment c \<noteq> []) (''comment '' @ QuoteString (col_Comment c)) @
          when_str (cs \<noteq> []) '','' @ [NL] @ rest)))"

fun partition_items :: "Column list \<Rightarrow> string outcome" where
  "partition_items [] = Ret []"
| "partition_items (c # cs) =
     obind (Name (col_Type c)) (\<lambda>ty.
     obind (partition_items cs) (\<lambda>rest.
     Ret (QuoteRef (col_Name c) @ '' '' @ ty @
          when_str (col_Comment c \<noteq> []) ('' comment '' @ QuoteString (col_Comment c)) @
          when_str (cs \<noteq> []) '', '' @ rest)))"

definition partition_clause :: "Column list \<Rightarrow> string outcome" where
  "partition_clause ps =
     (case ps of
        [] \<Rightarrow> Ret []
      | p # _ \<Rightarrow>
          (case col_GenerateExpression p of
             Some g \<Rightarrow> Ret ([NL] @ ''auto partitioned by ('' @ TruncTime_String g @ '' AS '' @ col_Name p @ '')'')
           | None \<Rightarrow> omap (\<lambda>items. [NL] @ ''partitioned by ('' @ items @ '')'') (partition_items ps)))"

definition property_list :: "(string \<times> string) list \<Rightarrow> string" where
  "property_list ps = range_sep '', '' (\<lambda>(k, v). QuoteString k @ ''='' @ QuoteString v) ps"

subsection \<open>SQL\<close>

definition ToBaseSQLString :: "TableSchema \<Rightarrow> string \<Rightarrow> string \<Rightarrow> bool \<Rightarrow> bool \<Rightarrow> string outcome" where
  "ToBaseSQLString schema projectName schemaName createIfNotExists isExternal =
     (if ts_TableName schema = [] then Fail (ErrMsg ''table name is not set'')
      else if ts_Columns schema = [] then Fail (ErrMsg ''table columns is not set'')
      else
        obind (column_lines (ts_Columns schema)) (\<lambda>cols.
        obind (partition_clause (ts_PartitionColumns schema)) (\<lambda>parts.
        Ret (''create '' @ when_str isExternal ''external '' @ ''table '' @
             when_str createIfNotExists ''if not exists'' @ '' '' @
             projectName @ ''.'' @ when_str (schemaName \<noteq> []) (QuoteRef schemaName @ ''.'') @
             QuoteRef (ts_TableName schema) @ '' ('' @ [NL] @ cols @
             when_str (ts_PrimaryKeys schema \<noteq> [])
               ('',primary key('' @ range_sep '','' (\<lambda>pk. '' '' @ QuoteRef pk) (ts_PrimaryKeys schema) @ '')'') @
             '')'' @
             when_str (ts_Comment schema \<noteq> []) ([NL] @ ''comment '' @ QuoteString (ts_Comment schema)) @
             parts))))"

definition cluster_columns :: "ClusterInfo \<Rightarrow> string" where
  "cluster_columns ci = range_sep '','' QuoteRef (ci_ClusterCols ci)"

definition ToViewSQLString ::
    "TableSchema \<Rightarrow> string \<Rightarrow> string \<Rightarrow> bool \<Rightarrow> bool \<Rightarrow> bool \<Rightarrow> string outcome" where
  "ToViewSQLString schema projectName schemaName orReplace createIfNotExists buildDeferred =
     (let virtual = ts_IsVirtualView schema; mat = ts_IsMaterializedView schema; ci = ts_ClusterInfo schema in
      if ts_TableName schema = [] then Fail (ErrMsg ''view name is not set'')
      else if (virtual \<or> mat) \<and> ts_ViewText schema = [] then Fail (ErrMsg ''view text is not set'')
      else if virtual \<and> ts_PartitionColumns schema \<noteq> []
        then Fail (ErrMsg ''virtual view can not have partition columns'')
      else if virtual \<and> mat
        then Fail (ErrMsg ''virtual view and materialized view can not be both set'')
      else if \<not> virtual \<and> \<not> mat
        then Fail (ErrMsg ''either virtual view or materialized should be set'')
      else Ret (''create '' @ when_str (virtual \<and> orReplace) ''or replace  '' @
        when_str mat ''materialized  '' @ ''view '' @
        when_str createIfNotExists ''if not exists'' @ '' '' @
        when_str (projectName \<noteq> []) (projectName @ ''.'') @
        when_str (schemaName \<noteq> []) (QuoteRef schemaName @ ''.'') @
        QuoteRef (ts_TableName schema) @
        when_str mat
          (when_str (ts_Lifecycle schema > 0) ([NL] @ ''lifecycle '' @ Itoa (ts_Lifecycle schema) @ '' '') @
           when_str buildDeferred ([NL] @ ''build deferred '')) @
        when_str (ts_Columns schema \<noteq> [])
          (''('' @ [NL] @ '' '' @
           range_sep ('','' @ [NL])
             (\<lambda>c. ''    '' @ QuoteRef (col_Name c) @ '' '' @
                when_str (col_Comment c \<noteq> []) (''comment '' @ QuoteString (col_Comment c))) (ts_Columns schema) @
           [NL] @ '')'') @
        when_str (mat \<and> \<not> ts_IsMaterializedViewRewriteEnabled schema) '' disable rewrite '' @
        when_str (ts_Comment schema \<noteq> []) ([NL] @ ''comment '' @ QuoteString (ts_Comment schema)) @
        when_str mat
          (when_str (ts_PartitionColumns schema \<noteq> [])
             ([NL] @ ''partitioned by ('' @
              range_sep '', '' (\<lambda>c. [NL] @ QuoteRef (col_Name c)) (ts_PartitionColumns schema) @ '')'') @
           when_str (ci_ClusterCols ci \<noteq> [])
             ((if ci_ClusterType ci = ''hash''
               then '' '' @ [NL] @ ''clustered by ('' @ cluster_columns ci @ '')''
               else when_str (ci_ClusterType ci = ''range'')
                 ([NL] @ ''range clustered by ('' @ cluster_columns ci @ '')'')) @
              when_str (ci_SortCols ci \<noteq> [])
                ([NL] @ ''sorted by ('' @
                 range_sep '','' (\<lambda>sc. QuoteRef (sc_Name sc) @ '' '' @ sc_Order sc) (ci_SortCols ci) @ '')'') @
              when_str (ci_BucketNum ci \<noteq> 0) ('' into '' @ Itoa (ci_BucketNum ci) @ '' buckets'')) @
           when_str (ts_MvProperties schema \<noteq> [])
             ('' '' @ [NL] @ ''TBLPROPERTIES ('' @
              range_sep '','' (\<lambda>(k, v). [DQ] @ k @ [DQ] @ ''='' @ [DQ] @ v @ [DQ]) (ts_MvProperties schema) @
              '')'')) @
        [NL] @ ''as '' @ ts_ViewText schema @ '';''))"

definition cluster_clause :: "ClusterInfo \<Rightarrow> string" where
  "cluster_clause ci =
     when_str (ci_ClusterCols ci \<noteq> [])
       (when_str (ci_ClusterType ci = ''hash'')
          ([NL] @ ''clustered by ('' @ Join (map QuoteRef (ci_ClusterCols ci)) '', '' @ '')'') @
        when_str (ci_ClusterType ci = ''range'')
          ([NL] @ ''range clustered by ('' @ Join (map QuoteRef (ci_ClusterCols ci)) '', '' @ '')'') @
        when_str (ci_SortCols ci \<noteq> [])
          ([NL] @ ''sorted by ('' @
           range_sep '', '' (\<lambda>sc. QuoteRef (sc_Name sc) @ '' '' @ sc_Order sc) (ci_SortCols ci) @ '')'') @
        when_str (ci_BucketNum ci > 0) ([NL] @ ''INTO '' @ Itoa (ci_BucketNum ci) @ '' BUCKETS''))"

definition ToSQLString :: "TableSchema \<Rightarrow> string \<Rightarrow> string \<Rightarrow> bool \<Rightarrow> string outcome" where
  "ToSQLString schema projectName schemaName createIfNotExists =
     obind (ToBaseSQLString schema projectName schemaName createIfNotExists False) (\<lambda>baseSQL.
       Ret (baseSQL @ cluster_clause (ts_ClusterInfo schema) @
         when_str (ts_TblProperties schema \<noteq> [])
           ([NL] @ ''TBLPROPERTIES ('' @ property_list (ts_TblProperties schema) @ '')'') @
         when_str (ts_Lifecycle schema > 0) ([NL] @ ''lifecycle '' @ Itoa (ts_Lifecycle schema)) @ '';''))"

definition ToExternalSQLString ::
    "TableSchema \<Rightarrow> string \<Rightarrow> string \<Rightarrow> bool \<Rightarrow> (string \<times> string) list \<Rightarrow> string list \<Rightarrow> string outcome" where
  "ToExternalSQLString schema projectName schemaName createIfNotExists serdeProperties jars =
     (if ts_StorageHandler schema = [] then Fail (ErrMsg ''TableSchema.StorageHandler is not set'')
      else if ts_Location schema = [] then Fail (ErrMsg ''TableSchema.Location is not set'')
      else
        obind (ToBaseSQLString schema projectName schemaName createIfNotExists True) (\<lambda>baseSQL.
        Ret (baseSQL @ [NL] @ ''stored by '' @ [SQ] @ ts_StorageHandler schema @ [SQ, NL] @
          when_str (serdeProperties \<noteq> [])
            (''with serdeproperties('' @ property_list serdeProperties @ '')'' @ [NL]) @
          ''location '' @ [SQ] @ ts_Location schema @ [SQ, NL] @
          when_str (jars \<noteq> []) (''using '' @ [SQ] @ range_sep '', '' (\<lambda>j. j) jars @ [SQ, NL]) @
          when_str (ts_TblProperties schema \<noteq> [])
            (''TBLPROPERTIES ('' @ property_list (ts_TblProperties schema) @ '')'' @ [NL]) @
          when_str (ts_Lifecycle schema > 0) (''lifecycle '' @ Itoa (ts_Lifecycle schema)) @ '';'')))"

subsection \<open>Columns and partitions\<close>

fun FieldByName_loop :: "string \<Rightarrow> Column list \<Rightarrow> Column option" where
  "FieldByName_loop name [] = None"
| "FieldByName_loop name (c # cs) = (if col_Name c = name then Some c else FieldByName_loop name cs)"

definition FieldByName :: "TableSchema \<Rightarrow> string \<Rightarrow> Column option" where
  "FieldByName schema name = FieldByName_loop name (ts_Columns schema)"

text \<open>
  The loop of \<open>GeneratePartitionSpec\<close>. Every expression keeps the column position it has found, so the
  partition columns come back updated.
\<close>

fun GeneratePartitionSpec_loop :: "Record \<Rightarrow> string list \<Rightarrow> nat \<Rightarrow> string \<Rightarrow> Column list \<Rightarrow>
    string outcome \<times> Column list" where
  "GeneratePartitionSpec_loop rec names idx builder [] = (Ret builder, [])"
| "GeneratePartitionSpec_loop rec names idx builder (p # ps) =
     (case col_GenerateExpression p of
        None \<Rightarrow> apsnd (Cons p) (GeneratePartitionSpec_loop rec names (Suc idx) builder ps)
      | Some g \<Rightarrow>
          (case generate rec names g of
             (Ret v, g') \<Rightarrow>
               apsnd (Cons (p\<lparr>col_GenerateExpression := Some g'\<rparr>))
                 (GeneratePartitionSpec_loop rec names (Suc idx)
                   (builder @ when_str (idx > 0) ''/'' @ col_Name p @ ''='' @ v) ps)
           | (Fail e, g') \<Rightarrow> (Fail e, p\<lparr>col_GenerateExpression := Some g'\<rparr> # ps)
           | (Panic q, g') \<Rightarrow> (Panic q, p\<lparr>col_GenerateExpression := Some g'\<rparr> # ps)))"

definition GeneratePartitionSpec :: "Record \<Rightarrow> (TableSchema, string) M" where
  "GeneratePartitionSpec rec schema =
     (case GeneratePartitionSpec_loop rec (map col_Name (ts_Columns schema)) 0 [] (ts_PartitionColumns schema) of
        (r, ps) \<Rightarrow> (r, schema\<lparr>ts_PartitionColumns := ps\<rparr>))"

subsection \<open>Properties\<close>

text \<open>
  The view statement is produced exactly for a named schema that is either a virtual view without
  partition columns or a materialized view, not both, with its query text set.
\<close>

theorem ToViewSQLString_defined:
  "(\<exists>sql. ToViewSQLString schema project sn orReplace ifNotExists deferred = Ret sql) \<longleftrightarrow>
     ts_TableName schema \<noteq> [] \<and> ts_ViewText schema \<noteq> [] \<and>
     (ts_IsVirtualView schema \<noteq> ts_IsMaterializedView schema) \<and>
     (ts_IsVirtualView schema \<longrightarrow> ts_PartitionColumns schema = [])"
  by (auto simp: ToViewSQLString_def Let_def split: if_splits)

theorem ToViewSQLString_defined_witness:
  "\<exists>sql. ToViewSQLString (sb_Build (NewSchemaBuilder\<lparr>sb_name := ''v'', sb_viewText := ''select 1'',
     sb_isVirtualView := True\<rparr>)) [] [] True False False = Ret sql"
  by (subst ToViewSQLString_defined) (simp add: sb_Build_def NewSchemaBuilder_def)

lemma column_lines_defined: "(\<exists>s. column_lines cs = Ret s) \<longleftrightarrow> (\<forall>c \<in> set cs. \<exists>s. Name (col_Type c) = Ret s)"
  by (induction cs) (auto simp: obind_Ret_iff)

lemma partition_items_defined: "(\<exists>s. partition_items cs = Ret s) \<longleftrightarrow> (\<forall>c \<in> set cs. \<exists>s. Name (col_Type c) = Ret s)"
  by (induction cs) (auto simp: obind_Ret_iff)

lemma partition_clause_defined:
  "partition_items cs = Ret items \<Longrightarrow> \<exists>parts. partition_clause cs = Ret parts"
  by (cases cs) (auto simp: partition_clause_def split: option.splits)

lemma spec_prefix:
  "list_all (\<lambda>p. col_GenerateExpression p = None) ps \<Longrightarrow>
     GeneratePartitionSpec_loop rec names i b (ps @ qs) =
       apsnd ((@) ps) (GeneratePartitionSpec_loop rec names (i + length ps) b qs)"
  by (induction ps arbitrary: i) (auto simp: apsnd_def map_prod_def split: prod.splits)

text \<open>
  The separator of a partition spec is written in front of every generated column except at
  position 0, not between generated columns: when the first partition column has no
  expression and a later one has, the spec starts with a slash.
\<close>

theorem GeneratePartitionSpec_leading_slash:
  assumes "ts_PartitionColumns schema = ps @ p # qs" and "ps \<noteq> []"
    and "\<forall>c \<in> set (ps @ qs). col_GenerateExpression c = None"
    and "col_GenerateExpression p = Some g"
    and "generate rec (map col_Name (ts_Columns schema)) g = (Ret v, g')"
  shows "fst (GeneratePartitionSpec rec schema) = Ret (''/'' @ col_Name p @ ''='' @ v)"
proof -
  have ps: "list_all (\<lambda>p. col_GenerateExpression p = None) ps"
    and qs: "list_all (\<lambda>p. col_GenerateExpression p = None) qs"
    using assms(3) by (auto simp: list_all_iff)
  have "GeneratePartitionSpec_loop rec names i b qs = (Ret b, qs)" for names i b
    using spec_prefix [OF qs, of rec names i b "[]"] by simp
  then show ?thesis
    using assms spec_prefix [OF ps, of rec "map col_Name (ts_Columns schema)" 0 "[]" "p # qs"]
    by (simp add: GeneratePartitionSpec_def apsnd_def map_prod_def)
qed

definition ex_column :: "string \<Rightarrow> DataType \<Rightarrow> TruncTime option \<Rightarrow> Column" where
  "ex_column n t g =
     \<lparr>col_Name = n, col_Type = t, col_Comment = [], col_Label = [], col_NotNull = False,
      col_HasDefaultValue = False, col_DefaultValue = [], col_ExtendedLabels = [], col_GenerateExpression = g\<rparr>"

theorem GeneratePartitionSpec_leading_slash_witness:
  "fst (GeneratePartitionSpec [None] (sb_Build (NewSchemaBuilder\<lparr>sb_columns := [ex_column ''ts'' (PrimitiveType TIMESTAMP) None],
     sb_partitionColumns := [ex_column ''region'' (PrimitiveType STRING) None,
       ex_column ''pt'' (PrimitiveType STRING) (Some (NewTruncTime ''ts'' DAY))]\<rparr>))) = Ret ''/pt=__NULL__''"
  using GeneratePartitionSpec_leading_slash
    [where schema = "sb_Build (NewSchemaBuilder\<lparr>sb_columns := [ex_column ''ts'' (PrimitiveType TIMESTAMP) None],
     sb_partitionColumns := [ex_column ''region'' (PrimitiveType STRING) None,
       ex_column ''pt'' (PrimitiveType STRING) (Some (NewTruncTime ''ts'' DAY))]\<rparr>)"
     and ps = "[ex_column ''region'' (PrimitiveType STRING) None]" and qs = "[]" and rec = "[None]"]
  by (simp add: sb_Build_def NewSchemaBuilder_def ex_column_def generate_def date_value_def NewTruncTime_def
      mbind_def Record_Get_def nullValue_def)

text \<open>
  A table statement is produced exactly when the table has a name, at least one column, and a
  name for the type of every column and of every partition column it prints; it is then one
  statement that ends in a semicolon and starts with \<open>create table\<close>.
\<close>

theorem ToSQLString_defined:
  assumes "ts_TableName schema \<noteq> []" and "ts_Columns schema \<noteq> []"
    and "\<forall>c \<in> set (ts_Columns schema) \<union> set (ts_PartitionColumns schema). no_nil (col_Type c)"
  shows "\<exists>body. ToSQLString schema project sn ifNotExists = Ret (''create table '' @ body @ '';'')"
proof -
  obtain cols where cols: "column_lines (ts_Columns schema) = Ret cols"
    using column_lines_defined [of "ts_Columns schema"] assms(3) Name_defined by blast
  obtain items where "partition_items (ts_PartitionColumns schema) = Ret items"
    using partition_items_defined [of "ts_PartitionColumns schema"] assms(3) Name_defined by blast
  then obtain parts where "partition_clause (ts_PartitionColumns schema) = Ret parts"
    using partition_clause_defined by blast
  then show ?thesis using cols assms(1,2) by (simp add: ToSQLString_def ToBaseSQLString_def)
qed

theorem ToSQLString_defined_witness:
  "\<exists>body. ToSQLString (sb_Build (NewSchemaBuilder\<lparr>sb_name := ''t'',
     sb_columns := [ex_column ''id'' (PrimitiveType BIGINT) None]\<rparr>)) ''p'' [] True = Ret (''create table '' @ body @ '';'')"
  by (rule ToSQLString_defined) (simp_all add: sb_Build_def NewSchemaBuilder_def ex_column_def)

end
