(* ===== verification/Resources.thy ===== *)
theory Resources
  imports Strings
begin

section \<open>Resource paths: \<open>resource_builder.go\<close> and properties\<close>

text \<open>
  Models \<open>odps/common/resource_builder.go\<close> and \<open>odps/common/property.go\<close>. The functions of \<open>path\<close> and \<open>net/url\<close> that the builder calls
  (\<open>path.Clean\<close>, \<open>path.Join\<close>, \<open>url.PathEscape\<close>, \<open>url.QueryEscape\<close>) are written out.
  A \<open>ResourceBuilder\<close> is its only field, the escaped project name.
\<close>

subsection \<open>\<open>path\<close>\<close>

fun clean_step :: "bool \<Rightarrow> string list \<Rightarrow> string list \<Rightarrow> string list" where
  "clean_step rooted out [] = rev out"
| "clean_step rooted out (c # cs) =
     (if c = [] \<or> c = ''.'' then clean_step rooted out cs
      else if c = ''..'' then
        (case out of
           e # es \<Rightarrow> if e \<noteq> ''..'' then clean_step rooted es cs else clean_step rooted (c # out) cs
         | [] \<Rightarrow> clean_step rooted (if rooted then [] else [c]) cs)
      else clean_step rooted (c # out) cs)"

definition path_Clean :: "string \<Rightarrow> string" where
  "path_Clean p =
     (let rooted = HasPrefix p ''/'';
          s = (if rooted then ''/'' else []) @ Join (clean_step rooted [] (Split (CHR ''/'') p)) ''/''
      in if s = [] then ''.'' else s)"

definition path_Join :: "string list \<Rightarrow> string" where
  "path_Join elem =
     (case dropWhile (\<lambda>e. e = []) elem of
        [] \<Rightarrow> []
      | es \<Rightarrow> path_Clean (Join es ''/''))"

subsection \<open>\<open>net/url\<close>\<close>

definition unreserved :: "char \<Rightarrow> bool" where
  "unreserved c \<longleftrightarrow> is_letter c \<or> is_digit c \<or> c \<in> {CHR ''-'', CHR ''_'', CHR ''.'', CHR ''~''}"

definition hex_digit :: "nat \<Rightarrow> char" where
  "hex_digit n = (if n < 10 then char_of (48 + n) else char_of (55 + n))"

definition percent :: "char \<Rightarrow> string" where
  "percent c = [CHR ''%'', hex_digit (of_char c div 16), hex_digit (of_char c mod 16)]"

definition path_char :: "char \<Rightarrow> string" where
  "path_char c =
     (if unreserved c \<or> c \<in> {CHR ''$'', CHR ''&'', CHR ''+'', CHR '':'', CHR ''='', CHR ''@''}
      then [c] else percent c)"

definition query_char :: "char \<Rightarrow> string" where
  "query_char c = (if c = CHR '' '' then ''+'' else if unreserved c then [c] else percent c)"

definition PathEscape :: "string \<Rightarrow> string" where
  "PathEscape s = concat (map path_char s)"

definition QueryEscape :: "string \<Rightarrow> string" where
  "QueryEscape s = concat (map query_char s)"

subsection \<open>The constants\<close>

definition ProjectsPath :: string where "ProjectsPath = ''/projects''"
definition SchemasPath :: string where "SchemasPath = ''/schemas''"
definition TablesPath :: string where "TablesPath = ''/tables''"
definition RegistrationPath :: string where "RegistrationPath = ''/registration''"
definition FunctionsPath :: string where "FunctionsPath = ''/functions''"
definition ResourcesPath :: string where "ResourcesPath = ''/resources''"
definition InstancesPath :: string where "InstancesPath = ''/instances''"
definition CachedInstancesPath :: string where "CachedInstancesPath = ''/cachedinstances''"
definition VolumesPath :: string where "VolumesPath = ''/volumes''"
definition StreamsPath :: string where "StreamsPath = ''/streams''"
definition XFlowsPath :: string where "XFlowsPath = ''/xflows''"
definition UsersPath :: string where "UsersPath = ''/users''"
definition RolesPath :: string where "RolesPath = ''/roles''"
definition AuthPath :: string where "AuthPath = ''/auth''"
definition AuthorizationPath :: string where "AuthorizationPath = ''/authorization''"
definition TunnelPath :: string where "TunnelPath = ''/tunnel''"

lemmas path_consts = ProjectsPath_def SchemasPath_def TablesPath_def RegistrationPath_def FunctionsPath_def
  ResourcesPath_def InstancesPath_def CachedInstancesPath_def VolumesPath_def StreamsPath_def XFlowsPath_def
  UsersPath_def RolesPath_def AuthPath_def AuthorizationPath_def TunnelPath_def

subsection \<open>\<open>ResourceBuilder\<close>\<close>

record ResourceBuilder =
  rb_ProjectName :: string

definition NewResourceBuilder :: "string \<Rightarrow> ResourceBuilder" where
  "NewResourceBuilder projectName = \<lparr>rb_ProjectName = QueryEscape projectName\<rparr>"

definition SetProject :: "string \<Rightarrow> ResourceBuilder \<Rightarrow> ResourceBuilder" where
  "SetProject name rb = rb\<lparr>rb_ProjectName := QueryEscape name\<rparr>"

definition rb_Projects :: "ResourceBuilder \<Rightarrow> string" where
  "rb_Projects rb = ProjectsPath"

definition rb_Project :: "ResourceBuilder \<Rightarrow> string" where
  "rb_Project rb = path_Join [ProjectsPath, rb_ProjectName rb]"

definition rb_Tables :: "ResourceBuilder \<Rightarrow> string" where
  "rb_Tables rb = path_Join [ProjectsPath, rb_ProjectName rb, TablesPath]"

definition rb_Schemas :: "ResourceBuilder \<Rightarrow> string" where
  "rb_Schemas rb = path_Join [ProjectsPath, rb_ProjectName rb, SchemasPath]"

definition rb_Functions :: "ResourceBuilder \<Rightarrow> string" where
  "rb_Functions rb = path_Join [ProjectsPath, rb_ProjectName rb, RegistrationPath, FunctionsPath]"

definition rb_XFlows :: "ResourceBuilder \<Rightarrow> string" where
  "rb_XFlows rb = path_Join [ProjectsPath, rb_ProjectName rb, XFlowsPath]"

definition rb_Instances :: "ResourceBuilder \<Rightarrow> string" where
  "rb_Instances rb = path_Join [ProjectsPath, rb_ProjectName rb, InstancesPath]"

definition rb_CachedInstances :: "ResourceBuilder \<Rightarrow> string" where
  "rb_CachedInstances rb = path_Join [ProjectsPath, rb_ProjectName rb, CachedInstancesPath]"

definition rb_Resources :: "ResourceBuilder \<Rightarrow> string" where
  "rb_Resources rb = path_Join [ProjectsPath, rb_ProjectName rb, ResourcesPath]"

definition rb_Volumes :: "ResourceBuilder \<Rightarrow> string" where
  "rb_Volumes rb = path_Join [ProjectsPath, rb_ProjectName rb, VolumesPath]"

definition rb_Users :: "ResourceBuilder \<Rightarrow> string" where
  "rb_Users rb = path_Join [ProjectsPath, rb_ProjectName rb, UsersPath]"

definition rb_Roles :: "ResourceBuilder \<Rightarrow> string" where
  "rb_Roles rb = path_Join [ProjectsPath, rb_ProjectName rb, RolesPath]"

definition rb_Auth :: "ResourceBuilder \<Rightarrow> string" where
  "rb_Auth rb = path_Join [ProjectsPath, rb_ProjectName rb, AuthPath]"

definition rb_Authorization :: "ResourceBuilder \<Rightarrow> string" where
  "rb_Authorization rb = path_Join [ProjectsPath, rb_ProjectName rb, AuthorizationPath]"

definition rb_Tunnel :: "ResourceBuilder \<Rightarrow> string" where
  "rb_Tunnel rb = path_Join [ProjectsPath, rb_ProjectName rb, TunnelPath]"

definition rb_Table :: "ResourceBuilder \<Rightarrow> string \<Rightarrow> string \<Rightarrow> string" where
  "rb_Table rb schemaName tableName =
     (if schemaName = []
      then path_Join [ProjectsPath, rb_ProjectName rb, TablesPath, PathEscape tableName]
      else path_Join [ProjectsPath, rb_ProjectName rb, SchemasPath, PathEscape schemaName, TablesPath,
             PathEscape tableName])"

definition rb_Schema :: "ResourceBuilder \<Rightarrow> string \<Rightarrow> string" where
  "rb_Schema rb schemaName = path_Join [ProjectsPath, rb_ProjectName rb, SchemasPath, PathEscape schemaName]"

definition rb_Function :: "ResourceBuilder \<Rightarrow> string \<Rightarrow> string" where
  "rb_Function rb functionName = path_Join [ProjectsPath, rb_ProjectName rb, RegistrationPath, FunctionsPath, PathEscape functionName]"

definition rb_XFlow :: "ResourceBuilder \<Rightarrow> string \<Rightarrow> string" where
  "rb_XFlow rb xFlowName = path_Join [ProjectsPath, rb_ProjectName rb, XFlowsPath, PathEscape xFlowName]"

definition rb_Instance :: "ResourceBuilder \<Rightarrow> string \<Rightarrow> string" where
  "rb_Instance rb instanceId = path_Join [ProjectsPath, rb_ProjectName rb, InstancesPath, PathEscape instanceId]"

definition rb_Resource :: "ResourceBuilder \<Rightarrow> string \<Rightarrow> string" where
  "rb_Resource rb resourceName = path_Join [ProjectsPath, rb_ProjectName rb, ResourcesPath, PathEscape resourceName]"

definition rb_Volume :: "ResourceBuilder \<Rightarrow> string \<Rightarrow> string" where
  "rb_Volume rb volumeName = path_Join [ProjectsPath, rb_ProjectName rb, VolumesPath, PathEscape volumeName]"

definition rb_User :: "ResourceBuilder \<Rightarrow> string \<Rightarrow> string" where
  "rb_User rb userId = path_Join [ProjectsPath, rb_ProjectName rb, UsersPath, PathEscape userId]"

definition rb_Role :: "ResourceBuilder \<Rightarrow> string \<Rightarrow> string" where
  "rb_Role rb roleName = path_Join [ProjectsPath, rb_ProjectName rb, RolesPath, PathEscape roleName]"

definition rb_AuthorizationId :: "ResourceBuilder \<Rightarrow> string \<Rightarrow> string" where
  "rb_AuthorizationId rb instanceId = path_Join [ProjectsPath, rb_ProjectName rb, AuthorizationPath, PathEscape instanceId]"

definition rb_VolumePartition :: "ResourceBuilder \<Rightarrow> string \<Rightarrow> string \<Rightarrow> string" where
  "rb_VolumePartition rb volumeName partitionKey =
     path_Join [ProjectsPath, rb_ProjectName rb, VolumesPath, PathEscape volumeName, partitionKey]"

subsection \<open>\<open>property.go\<close>\<close>

fun Properties_Get :: "(string \<times> string) list \<Rightarrow> string \<Rightarrow> string" where
  "Properties_Get [] key = []"
| "Properties_Get ((n, v) # ps) key = (if n = key then v else Properties_Get ps key)"

subsection \<open>Escaping is injective and keeps no separator\<close>

lemma hex_digit_inj: "m < 16 \<Longrightarrow> n < 16 \<Longrightarrow> hex_digit m = hex_digit n \<Longrightarrow> m = n"
proof -
  assume a: "m < 16" "n < 16" "hex_digit m = hex_digit n"
  then have "of_char (hex_digit m) = (of_char (hex_digit n) :: nat)" by simp
  then show "m = n" using a(1,2) by (auto simp: hex_digit_def split: if_splits)
qed

lemma of_char_less: "(of_char c :: nat) < 256"
  by (metis of_char_mod_256 mod_less_divisor zero_less_numeral)

lemma percent_inj: "percent c = percent d \<Longrightarrow> c = d"
proof -
  assume "percent c = percent d"
  then have "of_char c div 16 = (of_char d div 16 :: nat)" "of_char c mod 16 = (of_char d mod 16 :: nat)"
    using hex_digit_inj [of "of_char c div 16" "of_char d div 16"] hex_digit_inj [of "of_char c mod 16" "of_char d mod 16"]
      of_char_less [of c] of_char_less [of d] by (simp_all add: percent_def less_mult_imp_div_less)
  then have "of_char c = (of_char d :: nat)" by (metis div_mod_decomp)
  then show "c = d" by simp
qed

lemma hex_digit_not_slash: "n < 16 \<Longrightarrow> hex_digit n \<noteq> CHR ''/''"
proof
  assume "n < 16" "hex_digit n = CHR ''/''"
  then have "of_char (hex_digit n) = (47 :: nat)" by simp
  then show False using \<open>n < 16\<close> by (auto simp: hex_digit_def split: if_splits)
qed

lemma percent_props: "percent c \<noteq> []" "hd (percent c) = CHR ''%''" "CHR ''/'' \<notin> set (percent c)" "length (percent c) = 3"
  using of_char_less [of c] hex_digit_not_slash [of "of_char c div 16"] hex_digit_not_slash [of "of_char c mod 16"]
  by (auto simp: percent_def less_mult_imp_div_less)

lemma unreserved_chars: "\<not> unreserved (CHR ''%'')" "\<not> unreserved (CHR ''/'')" "\<not> unreserved (CHR ''+'')"
  "unreserved (CHR ''.'')"
  by (simp_all add: unreserved_def is_letter_def is_digit_def less_eq_char_def)

text \<open>A character code of which no word is a prefix of another makes concatenation injective.\<close>

lemma concat_code_inj:
  assumes nonempty: "\<And>c. f c \<noteq> []" and prefix: "\<And>c d s t. f c @ s = f d @ t \<Longrightarrow> c = d"
  shows "concat (map f xs) = concat (map f ys) \<Longrightarrow> xs = ys"
proof (induction xs arbitrary: ys)
  case Nil
  then show ?case by (cases ys) (auto simp: nonempty)
next
  case (Cons x xs)
  then obtain y ys' where ys: "ys = y # ys'" by (cases ys) (auto simp: nonempty)
  with Cons.prems have "x = y" using prefix by force
  with Cons ys show ?case by simp
qed

lemma single_or_percent_prefix:
  assumes "f c = [e] \<and> e \<noteq> CHR ''%'' \<or> f c = percent c" and "f d = [e'] \<and> e' \<noteq> CHR ''%'' \<or> f d = percent d"
    and "f c @ s = f d @ t" and "\<And>e. f c = [e] \<Longrightarrow> f d = [e] \<Longrightarrow> c = d"
  shows "c = d"
  using assms percent_inj [of c d] by (auto simp: percent_def)

lemma path_char_cases: "path_char c = [c] \<and> c \<noteq> CHR ''%'' \<or> path_char c = percent c"
  using unreserved_chars by (auto simp: path_char_def)

lemma query_char_cases: "\<exists>e. query_char c = [e] \<and> e \<noteq> CHR ''%'' \<or> query_char c = percent c"
  using unreserved_chars by (auto simp: query_char_def)

lemma path_char_inj: "path_char c @ s = path_char d @ t \<Longrightarrow> c = d"
  using single_or_percent_prefix [of path_char c c d d s t] path_char_cases [of c] path_char_cases [of d]
  by (auto simp: percent_def)

lemma query_char_inj:
  assumes "query_char c @ s = query_char d @ t"
  shows "c = d"
proof -
  have "query_char c = [e] \<Longrightarrow> query_char d = [e] \<Longrightarrow> c = d" for e
    using unreserved_chars by (auto simp: query_char_def percent_def split: if_splits)
  then show ?thesis
    using assms query_char_cases [of c] query_char_cases [of d] percent_inj [of c d] by (auto simp: percent_def)
qed

lemma path_char_nonempty: "path_char c \<noteq> []"
  using path_char_cases [of c] by (auto simp: percent_def)

lemma query_char_nonempty: "query_char c \<noteq> []"
  using query_char_cases [of c] by (auto simp: percent_def)

lemma PathEscape_inj [simp]: "PathEscape s = PathEscape t \<longleftrightarrow> s = t"
  unfolding PathEscape_def
  by (rule iffI, rule concat_code_inj [of path_char], rule path_char_nonempty, erule path_char_inj) simp_all

lemma QueryEscape_inj [simp]: "QueryEscape s = QueryEscape t \<longleftrightarrow> s = t"
  unfolding QueryEscape_def
  by (rule iffI, rule concat_code_inj [of query_char], rule query_char_nonempty, erule query_char_inj) simp_all

lemma path_char_no_slash: "CHR ''/'' \<notin> set (path_char c)"
  using percent_props(3) [of c] unreserved_chars by (auto simp: path_char_def)

lemma query_char_no_slash: "CHR ''/'' \<notin> set (query_char c)"
  using percent_props(3) [of c] unreserved_chars by (auto simp: query_char_def)

lemma escape_no_slash [simp]: "CHR ''/'' \<notin> set (PathEscape s)" "CHR ''/'' \<notin> set (QueryEscape s)"
  using path_char_no_slash query_char_no_slash by (auto simp: PathEscape_def QueryEscape_def)

text \<open>The names that \<open>path.Join\<close> keeps as one component.\<close>

definition plain_name :: "string \<Rightarrow> bool" where
  "plain_name n \<longleftrightarrow> n \<noteq> [] \<and> n \<noteq> ''.'' \<and> n \<noteq> ''..''"

lemma escape_dots:
  "PathEscape [] = []" "PathEscape ''.'' = ''.''" "PathEscape ''..'' = ''..''"
  "QueryEscape [] = []" "QueryEscape ''.'' = ''.''" "QueryEscape ''..'' = ''..''"
  by (simp_all add: PathEscape_def QueryEscape_def path_char_def query_char_def unreserved_chars)

lemma plain_escape: "plain_name n \<Longrightarrow> plain_name (PathEscape n) \<and> plain_name (QueryEscape n)"
  using PathEscape_inj [of n] QueryEscape_inj [of n] escape_dots unfolding plain_name_def by metis

subsection \<open>\<open>path.Join\<close> on plain components\<close>

lemma Split_append: "Split sep (s @ sep # t) = Split sep s @ Split sep t"
  by (induction s) (auto split: list.splits)

lemma Split_Join: "es \<noteq> [] \<Longrightarrow> Split sep (Join es [sep]) = concat (map (Split sep) es)"
  by (induction es "[sep]" rule: Join.induct) (auto simp: Split_append)

lemma Split_Join_inverse:
  assumes "es \<noteq> []" "\<forall>e \<in> set es. sep \<notin> set e"
  shows "Split sep (Join es [sep]) = es"
proof -
  have "concat (map (Split sep) es) = es"
    using assms(2) by (induction es) (auto simp: Split_no_sep)
  then show ?thesis using Split_Join [OF assms(1), of sep] by simp
qed

lemma clean_step_no_dotdot:
  "list_all (\<lambda>c. c \<noteq> ''..'') cs \<Longrightarrow> clean_step rooted out cs = rev out @ filter (\<lambda>c. c \<noteq> [] \<and> c \<noteq> ''.'') cs"
  by (induction cs arbitrary: out) auto

lemma Split_slash_prefix: "CHR ''/'' \<notin> set s \<Longrightarrow> Split (CHR ''/'') (CHR ''/'' # s) = [[], s]"
  using Split_append [of "CHR ''/''" "[]" s] by (simp add: Split_no_sep)

lemma HasPrefix_Join: "e \<noteq> [] \<Longrightarrow> HasPrefix (Join (e # es) sep) [c] = (hd e = c)"
  by (cases es; cases e) auto

lemma path_Join_components:
  assumes "hd e = CHR ''/''" "e \<noteq> []"
  shows "path_Join (e # es) =
    CHR ''/'' # Join (clean_step True [] (concat (map (Split (CHR ''/'')) (e # es)))) ''/''"
  using assms HasPrefix_Join [OF assms(2), of es "''/''" "CHR ''/''"]
    Split_Join [of "e # es" "CHR ''/''"] by (simp add: path_Join_def path_Clean_def Let_def)

definition components_path :: "string list \<Rightarrow> string" where
  "components_path cs = CHR ''/'' # Join cs ''/''"

lemma components_path_inj:
  assumes "cs \<noteq> []" "ds \<noteq> []" "\<forall>c \<in> set cs. CHR ''/'' \<notin> set c" "\<forall>c \<in> set ds. CHR ''/'' \<notin> set c"
    and "components_path cs = components_path ds"
  shows "cs = ds"
proof -
  have "Join cs ''/'' = Join ds ''/''" using assms(5) unfolding components_path_def by (rule list.inject [THEN iffD1, THEN conjunct2])
  then have "Split (CHR ''/'') (Join cs ''/'') = Split (CHR ''/'') (Join ds ''/'')" by (rule arg_cong)
  then show ?thesis
    unfolding Split_Join_inverse [OF assms(1,3)] Split_Join_inverse [OF assms(2,4)] .
qed

definition table_components :: "string \<Rightarrow> string \<Rightarrow> string \<Rightarrow> string list" where
  "table_components project sn table =
     [''projects'', QueryEscape project] @ (if sn = [] then [] else [''schemas'', PathEscape sn]) @
     [''tables'', PathEscape table]"

lemma Split_consts:
  "Split (CHR ''/'') ProjectsPath = [[], ''projects'']" "Split (CHR ''/'') SchemasPath = [[], ''schemas'']"
  "Split (CHR ''/'') TablesPath = [[], ''tables'']"
  by (simp_all add: path_consts)

lemma path_Join_projects:
  assumes "concat (map (Split (CHR ''/'')) es) = cs" "list_all (\<lambda>c. c \<noteq> ''..'') cs"
  shows "path_Join (ProjectsPath # es) = components_path (''projects'' # filter (\<lambda>c. c \<noteq> [] \<and> c \<noteq> ''.'') cs)"
proof -
  have "hd ProjectsPath = CHR ''/''" "ProjectsPath \<noteq> []" by (simp_all add: ProjectsPath_def)
  moreover have "list_all (\<lambda>c. c \<noteq> ''..'') ([[], ''projects''] @ cs)" using assms(2) by simp
  ultimately show ?thesis
    using path_Join_components [of ProjectsPath es] clean_step_no_dotdot [of "[[], ''projects''] @ cs" True "[]"] assms(1)
    by (simp add: Split_consts components_path_def)
qed

lemma rb_Table_components:
  assumes "plain_name project" "sn = [] \<or> plain_name sn" "plain_name table"
  shows "rb_Table (NewResourceBuilder project) sn table = components_path (table_components project sn table)"
proof -
  have P: "plain_name (QueryEscape project)" "plain_name (PathEscape table)" "sn \<noteq> [] \<Longrightarrow> plain_name (PathEscape sn)"
    using assms plain_escape by blast+
  show ?thesis
  proof (cases "sn = []")
    case True
    have "concat (map (Split (CHR ''/'')) [QueryEscape project, TablesPath, PathEscape table]) =
        [QueryEscape project, [], ''tables'', PathEscape table]"
      by (simp add: Split_consts Split_no_sep)
    from path_Join_projects [OF this] True P show ?thesis
      by (simp add: rb_Table_def NewResourceBuilder_def table_components_def plain_name_def)
  next
    case False
    have "concat (map (Split (CHR ''/'')) [QueryEscape project, SchemasPath, PathEscape sn, TablesPath, PathEscape table]) =
        [QueryEscape project, [], ''schemas'', PathEscape sn, [], ''tables'', PathEscape table]"
      by (simp add: Split_consts Split_no_sep)
    from path_Join_projects [OF this] False P show ?thesis
      by (simp add: rb_Table_def NewResourceBuilder_def table_components_def plain_name_def)
  qed
qed

subsection \<open>Properties\<close>

text \<open>
  C26. Resource paths address what they name: for project, schema and table names other than the
  empty name, a single dot and a double dot, whatever characters they contain, two tables have the
  same path only if they are the same table of the same schema of the same project.
\<close>

theorem rb_Table_injective:
  assumes "plain_name p" "plain_name p'" "sn = [] \<or> plain_name sn" "sn' = [] \<or> plain_name sn'"
    and "plain_name t" "plain_name t'"
  shows "rb_Table (NewResourceBuilder p) sn t = rb_Table (NewResourceBuilder p') sn' t' \<longleftrightarrow>
    p = p' \<and> sn = sn' \<and> t = t'"
proof
  assume "rb_Table (NewResourceBuilder p) sn t = rb_Table (NewResourceBuilder p') sn' t'"
  then have "table_components p sn t = table_components p' sn' t'"
    using components_path_inj [of "table_components p sn t" "table_components p' sn' t'"] assms
    by (simp add: rb_Table_components table_components_def)
  then show "p = p' \<and> sn = sn' \<and> t = t'" by (auto simp: table_components_def split: if_splits)
qed auto

theorem rb_Table_injective_witness:
  "rb_Table (NewResourceBuilder ''p/1'') [] ''a b'' \<noteq> rb_Table (NewResourceBuilder ''p/1'') ''a'' ''b''"
  using rb_Table_injective [of "''p/1''" "''p/1''" "[]" "''a''" "''a b''" "''b''"] by (simp add: plain_name_def)

text \<open>
  A table named by two dots has the path of its project, since the dots are not escaped and
  \<open>path.Join\<close> resolves them: an operation on the table then addresses the project.
\<close>

theorem rb_Table_dotdot:
  assumes "plain_name project"
  shows "rb_Table (NewResourceBuilder project) [] ''..'' = rb_Project (NewResourceBuilder project)"
proof -
  have P: "plain_name (QueryEscape project)" using assms plain_escape by blast
  have "concat (map (Split (CHR ''/'')) [QueryEscape project]) = [QueryEscape project]" by (simp add: Split_no_sep)
  from path_Join_projects [OF this] P have proj:
    "rb_Project (NewResourceBuilder project) = components_path [''projects'', QueryEscape project]"
    by (simp add: rb_Project_def NewResourceBuilder_def plain_name_def)
  have hd: "hd ProjectsPath = CHR ''/''" "ProjectsPath \<noteq> []" by (simp_all add: ProjectsPath_def)
  have split: "concat (map (Split (CHR ''/'')) [ProjectsPath, QueryEscape project, TablesPath, ''..'']) =
      [[], ''projects'', QueryEscape project, [], ''tables'', ''..'']"
    by (simp add: Split_consts Split_no_sep)
  have "clean_step True [] [[], ''projects'', QueryEscape project, [], ''tables'', ''..''] = [''projects'', QueryEscape project]"
    using P by (simp add: plain_name_def)
  then have "path_Join [ProjectsPath, QueryEscape project, TablesPath, ''..''] =
      components_path [''projects'', QueryEscape project]"
    unfolding path_Join_components [OF hd] split components_path_def by (rule arg_cong)
  then show ?thesis by (simp add: rb_Table_def NewResourceBuilder_def escape_dots proj [unfolded NewResourceBuilder_def])
qed

theorem rb_Table_dotdot_witness:
  "rb_Table (NewResourceBuilder ''p'') [] ''..'' = rb_Project (NewResourceBuilder ''p'')"
  by (rule rb_Table_dotdot) (simp add: plain_name_def)

end
