(* ===== verification/Http.thy ===== *)
theory Http
  imports Resources Wire
begin

section \<open>The REST client\<close>

text \<open>
  Models \<open>odps/restclient/rest_client.go\<close>, the part of \<open>odps/restclient/error.go\<close> the code decides
  on, and \<open>Retry\<close> of \<open>odps/tunnel/common.go\<close>.
  \<^item> A request is its method, the URL in front of the query, the query, the header fields and the body;
    \<open>url.Values\<close> and \<open>http.Header\<close> are maps since the code only uses \<open>Set\<close>, \<open>Get\<close> and \<open>Add\<close> on
    absent keys, with header names as the code spells them.
  \<^item> The account (an interface), the validity test of \<open>url.Parse\<close>, the clock and the transport of
    \<open>net/http\<close> are the function fields of \<open>RestClient\<close>. The transport is a state transformer on
    an environment of any type: the server, the network and whatever else answers.
  \<^item> A response has its status, its header, the first JSON value and the first XML element of its
    body (\<open>None\<close> when the decoder finds none) and the body as a source of bytes. Closing a body does not fail.
  \<^item> An \<open>HttpError\<close> is \<open>ErrHttp\<close> with its status code, its status line and the \<open>Retry-After\<close> header of
    its response: what \<open>errors.As\<close> finds and the code inspects.
\<close>

subsection \<open>Header names\<close>

definition HttpHeaderDate :: string where "HttpHeaderDate = ''Date''"
definition HttpHeaderContentType :: string where "HttpHeaderContentType = ''Content-Type''"
definition HttpHeaderContentLength :: string where "HttpHeaderContentLength = ''Content-Length''"
definition HttpHeaderContentEncoding :: string where "HttpHeaderContentEncoding = ''Content-Encoding''"
definition HttpHeaderTransferEncoding :: string where "HttpHeaderTransferEncoding = ''Transfer-Encoding''"
definition HttpHeaderAcceptEncoding :: string where "HttpHeaderAcceptEncoding = ''Accept-Encoding''"
definition HttpHeaderUserAgent :: string where "HttpHeaderUserAgent = ''User-Agent''"
definition HttpHeaderXOdpsUserAgent :: string where "HttpHeaderXOdpsUserAgent = ''x-odps-user-agent''"
definition HttpHeaderOdpsRequestId :: string where "HttpHeaderOdpsRequestId = ''x-odps-request-id''"
definition HttpHeaderOdpsDateTransFrom :: string where
  "HttpHeaderOdpsDateTransFrom = ''odps-tunnel-date-transform''"
definition HttpHeaderOdpsTunnelVersion :: string where
  "HttpHeaderOdpsTunnelVersion = ''x-odps-tunnel-version''"
definition HttpHeaderOdpsSlotNum :: string where "HttpHeaderOdpsSlotNum = ''odps-tunnel-slot-num''"
definition HttpHeaderRoutedServer :: string where "HttpHeaderRoutedServer = ''odps-tunnel-routed-server''"
definition HttpHeaderOdpsSdkSupportSchemaEvolution :: string where
  "HttpHeaderOdpsSdkSupportSchemaEvolution = ''odps-tunnel-sdk-support-schema-evolution''"

lemmas header_consts = HttpHeaderDate_def HttpHeaderContentType_def HttpHeaderContentLength_def
  HttpHeaderContentEncoding_def HttpHeaderTransferEncoding_def HttpHeaderAcceptEncoding_def
  HttpHeaderUserAgent_def HttpHeaderXOdpsUserAgent_def HttpHeaderOdpsRequestId_def
  HttpHeaderOdpsDateTransFrom_def HttpHeaderOdpsTunnelVersion_def HttpHeaderOdpsSlotNum_def
  HttpHeaderRoutedServer_def HttpHeaderOdpsSdkSupportSchemaEvolution_def

subsection \<open>Requests, responses, the client\<close>

type_synonym Values = "string \<rightharpoonup> string"

datatype json =
    JNull
  | JBool bool
  | JInt int
  | JFrac int
  | JStr string
  | JArr "json list"
  | JObj "(string \<times> json) list"

text \<open>An XML element: its name, its attributes, its child elements and its character data.\<close>

datatype xml = XElem (x_name: string) (x_attrs: "(string \<times> string) list") (x_children: "xml list") (x_text: string)

datatype HttpMethod = GetMethod | PutMethod | PostMethod | DeleteMethod

record HttpRequest =
  rq_method :: HttpMethod
  rq_url :: string
  rq_query :: Values
  rq_header :: Values
  rq_body :: "byte list"

record HttpResponse =
  rs_StatusCode :: int
  rs_Status :: string
  rs_Header :: Values
  rs_json :: "json option"
  rs_xml :: "xml option"
  rs_Body :: source

definition Header_Get :: "Values \<Rightarrow> string \<Rightarrow> string" where
  "Header_Get h k = (case h k of None \<Rightarrow> [] | Some v \<Rightarrow> v)"

definition NewHttpNotOk :: "HttpResponse \<Rightarrow> goerr" where
  "NewHttpNotOk res = ErrHttp (rs_StatusCode res) (rs_Status res) (Header_Get (rs_Header res) ''Retry-After'')"

record 'e RestClient =
  rc_SignRequest :: "HttpRequest \<Rightarrow> string \<Rightarrow> HttpRequest outcome"
  rc_send :: "HttpRequest \<Rightarrow> 'e \<Rightarrow> HttpResponse outcome \<times> 'e"
  rc_url_ok :: "string \<Rightarrow> bool"
  rc_now :: string
  rc_sdkUserAgent :: string
  rc_HttpTimeout :: int
  rc_TcpConnectionTimeout :: int
  rc_DnsCacheExpireTime :: int
  rc_DisableCompression :: bool
  rc_defaultProject :: string
  rc_currentSchema :: string
  rc_endpoint :: string
  rc_userAgent :: string

definition SetDefaultProject :: "string \<Rightarrow> 'e RestClient \<Rightarrow> 'e RestClient" where
  "SetDefaultProject projectName c = c\<lparr>rc_defaultProject := projectName\<rparr>"

definition SetCurrentSchema :: "string \<Rightarrow> 'e RestClient \<Rightarrow> 'e RestClient" where
  "SetCurrentSchema schemaName c = c\<lparr>rc_currentSchema := schemaName\<rparr>"

definition SetUserAgent :: "string \<Rightarrow> 'e RestClient \<Rightarrow> 'e RestClient" where
  "SetUserAgent ua c = c\<lparr>rc_userAgent := ua\<rparr>"

definition UserAgent :: "'e RestClient \<Rightarrow> string" where
  "UserAgent c = (if rc_userAgent c \<noteq> [] then rc_userAgent c else rc_sdkUserAgent c)"

text \<open>
  \<open>NewOdpsRestClient\<close> takes the account and the endpoint. Go code of this repository passes an
  existing client as the account, so the account is the signing function of a client here.
\<close>

definition NewOdpsRestClient :: "'e RestClient \<Rightarrow> string \<Rightarrow> 'e RestClient" where
  "NewOdpsRestClient a endpoint =
     \<lparr>rc_SignRequest = rc_SignRequest a, rc_send = rc_send a, rc_url_ok = rc_url_ok a, rc_now = rc_now a,
      rc_sdkUserAgent = rc_sdkUserAgent a,
      rc_HttpTimeout = 60 * 1000000000, rc_TcpConnectionTimeout = 30 * 1000000000,
      rc_DnsCacheExpireTime = 600 * 1000000000, rc_DisableCompression = True,
      rc_defaultProject = [], rc_currentSchema = [], rc_endpoint = endpoint, rc_userAgent = []\<rparr>"

definition NewRequest :: "'e RestClient \<Rightarrow> HttpMethod \<Rightarrow> string \<Rightarrow> HttpRequest outcome" where
  "NewRequest c method resource =
     (let urlStr = TrimRightChar (CHR ''/'') (rc_endpoint c) @ ''/'' @ TrimLeftChar (CHR ''/'') resource
      in if rc_url_ok c urlStr
         then Ret \<lparr>rq_method = method, rq_url = urlStr, rq_query = Map.empty, rq_header = Map.empty, rq_body = []\<rparr>
         else Fail (ErrMsg ''invalid url''))"

definition NewRequestWithUrlQuery ::
    "'e RestClient \<Rightarrow> HttpMethod \<Rightarrow> string \<Rightarrow> Values option \<Rightarrow> HttpRequest outcome" where
  "NewRequestWithUrlQuery c method resource queryArgs =
     obind (NewRequest c method resource) (\<lambda>req.
       Ret (case queryArgs of None \<Rightarrow> req | Some q \<Rightarrow> req\<lparr>rq_query := q\<rparr>))"

definition NewRequestWithParamsAndHeaders ::
    "'e RestClient \<Rightarrow> HttpMethod \<Rightarrow> string \<Rightarrow> Values option \<Rightarrow> Values \<Rightarrow> HttpRequest outcome" where
  "NewRequestWithParamsAndHeaders c method resource params headers =
     obind (NewRequestWithUrlQuery c method resource params) (\<lambda>req.
       Ret (req\<lparr>rq_header := rq_header req ++ headers\<rparr>))"

definition prepare :: "'e RestClient \<Rightarrow> HttpRequest \<Rightarrow> HttpRequest" where
  "prepare c req =
     req\<lparr>rq_header := (rq_header req)(HttpHeaderUserAgent \<mapsto> rc_sdkUserAgent c,
            HttpHeaderXOdpsUserAgent \<mapsto> UserAgent c, HttpHeaderDate \<mapsto> rc_now c),
         rq_query :=
           (if rq_query req ''current_project'' = None \<and> rc_defaultProject c \<noteq> []
            then (rq_query req)(''curr_project'' \<mapsto> rc_defaultProject c) else rq_query req)\<rparr>"

definition Do :: "'e RestClient \<Rightarrow> HttpRequest \<Rightarrow> ('e, HttpResponse) M" where
  "Do c req =
     mbind (mlift (rc_SignRequest c (prepare c req) (rc_endpoint c))) (\<lambda>sreq.
     mbind (rc_send c sreq) (\<lambda>res.
       if rs_StatusCode res < 200 \<or> rs_StatusCode res \<ge> 300
       then mfail (NewHttpNotOk res) else mret res))"

text \<open>The parse function is given the response after it has been received.\<close>

definition DoWithParseRes :: "'e RestClient \<Rightarrow> HttpRequest \<Rightarrow> (HttpResponse \<Rightarrow> 'a outcome) \<Rightarrow> ('e, 'a) M" where
  "DoWithParseRes c req parseFunc = mbind (Do c req) (\<lambda>res. mlift (parseFunc res))"

definition DoWithParseFunc :: "'e RestClient \<Rightarrow> HttpRequest \<Rightarrow> (HttpResponse \<Rightarrow> 'a outcome) \<Rightarrow> ('e, 'a) M" where
  "DoWithParseFunc c req parseFunc = DoWithParseRes c req parseFunc"

definition GetWithParseFunc ::
    "'e RestClient \<Rightarrow> string \<Rightarrow> Values option \<Rightarrow> Values \<Rightarrow> (HttpResponse \<Rightarrow> 'a outcome) \<Rightarrow> ('e, 'a) M" where
  "GetWithParseFunc c resource queryArgs headers parseFunc =
     mbind (mlift (NewRequestWithParamsAndHeaders c GetMethod resource queryArgs headers)) (\<lambda>req.
       DoWithParseFunc c req parseFunc)"

definition PutWithParseFunc ::
    "'e RestClient \<Rightarrow> string \<Rightarrow> Values option \<Rightarrow> (HttpResponse \<Rightarrow> 'a outcome) \<Rightarrow> ('e, 'a) M" where
  "PutWithParseFunc c resource queryArgs parseFunc =
     mbind (mlift (NewRequestWithUrlQuery c PutMethod resource queryArgs)) (\<lambda>req.
       DoWithParseFunc c req parseFunc)"

subsection \<open>\<open>Retry\<close>\<close>

text \<open>
  The state of a retried action comes with the seconds slept so far. The loop runs at most three
  times and sleeps after every failure, also after the last.
\<close>

fun Retry_loop :: "('s, 'a) M \<Rightarrow> nat \<Rightarrow> nat \<Rightarrow> int \<Rightarrow> goerr \<Rightarrow> ('s \<times> int list, 'a) M" where
  "Retry_loop f 0 i sleepTime err (s, slept) = (Fail err, (s, slept))"
| "Retry_loop f (Suc n) i sleepTime err (s, slept) =
     (case f s of
        (Ret x, s') \<Rightarrow> (Ret x, (s', slept))
      | (Panic p, s') \<Rightarrow> (Panic p, (s', slept))
      | (Fail e, s') \<Rightarrow>
          (let sleepTime' = sleepTime * 2 ^ i in Retry_loop f n (Suc i) sleepTime' e (s', slept @ [sleepTime'])))"

definition Retry :: "('s, 'a) M \<Rightarrow> ('s \<times> int list, 'a) M" where
  "Retry f = Retry_loop f 3 0 1 (ErrMsg [])"

definition retried :: "('s, 'a) M \<Rightarrow> ('s, 'a) M" where
  "retried f s = (case Retry f (s, []) of (r, (s', slept)) \<Rightarrow> (r, s'))"

subsection \<open>Properties\<close>

lemma Do_Ret_iff:
  "Do c req e = (Ret res, e') \<longleftrightarrow>
     (\<exists>sreq. rc_SignRequest c (prepare c req) (rc_endpoint c) = Ret sreq \<and>
        rc_send c sreq e = (Ret res, e') \<and> 200 \<le> rs_StatusCode res \<and> rs_StatusCode res < 300)"
  by (auto simp: Do_def mbind_def mlift_def mret_def mfail_def split: outcome.splits prod.splits if_splits)

lemma Do_status: "Do c req e = (Ret res, e') \<Longrightarrow> rs_StatusCode res div 100 = 2"
  by (auto simp: Do_Ret_iff)

lemma Do_http_error:
  assumes "rc_SignRequest c (prepare c req) (rc_endpoint c) = Ret sreq" "rc_send c sreq e = (Ret res, e')"
    and "\<not> (200 \<le> rs_StatusCode res \<and> rs_StatusCode res < 300)"
  shows "Do c req e = (Fail (NewHttpNotOk res), e')"
  using assms by (auto simp: Do_def mbind_def mlift_def mfail_def)

text \<open>
  A retried call gives up after exactly three failures, with the last of its errors, having
  slept one, two and eight seconds; a success or a panic ends it at once.
\<close>

theorem Retry_gives_up:
  "(\<exists>e s'. Retry f (s, []) = (Fail e, s')) \<longleftrightarrow>
     (\<exists>e1 e2 e3 s1 s2 s3. f s = (Fail e1, s1) \<and> f s1 = (Fail e2, s2) \<and> f s2 = (Fail e3, s3) \<and>
        Retry f (s, []) = (Fail e3, (s3, [1, 2, 8])))"
  by (auto simp: Retry_def numeral_3_eq_3 split: prod.splits outcome.splits)

text \<open>
  The project a client works for is sent with every request that does not itself name one
  under \<open>current_project\<close>. The key the client sets is \<open>curr_project\<close>, so a request that names its
  project under that key has it overwritten.
\<close>

theorem prepare_overwrites_project:
  assumes "rc_defaultProject c \<noteq> []" and "rq_query req ''current_project'' = None"
  shows "rq_query (prepare c (req\<lparr>rq_query := (rq_query req)(''curr_project'' \<mapsto> own)\<rparr>)) ''curr_project'' =
    Some (rc_defaultProject c)"
  using assms by (simp add: prepare_def)

definition example_client :: "(nat \<Rightarrow> HttpResponse outcome) \<Rightarrow> nat RestClient" where
  "example_client answers =
     \<lparr>rc_SignRequest = (\<lambda>req endpoint. Ret req), rc_send = (\<lambda>req n. (answers n, Suc n)),
      rc_url_ok = (\<lambda>u. True), rc_now = [], rc_sdkUserAgent = ''go-sdk'', rc_HttpTimeout = 0,
      rc_TcpConnectionTimeout = 0, rc_DnsCacheExpireTime = 0, rc_DisableCompression = True,
      rc_defaultProject = [], rc_currentSchema = [], rc_endpoint = ''http://service'', rc_userAgent = []\<rparr>"

theorem prepare_overwrites_project_witness:
  "rq_query (prepare (SetDefaultProject ''p'' (example_client (\<lambda>n. Fail ErrEOF)))
     \<lparr>rq_method = GetMethod, rq_url = ''u'', rq_query = [''curr_project'' \<mapsto> ''own''], rq_header = Map.empty, rq_body = []\<rparr>)
     ''curr_project'' = Some ''p''"
  using prepare_overwrites_project
    [of "SetDefaultProject ''p'' (example_client (\<lambda>n. Fail ErrEOF))"
        "\<lparr>rq_method = GetMethod, rq_url = ''u'', rq_query = Map.empty, rq_header = Map.empty, rq_body = []\<rparr>" "''own''"]
  by (simp add: SetDefaultProject_def)

end
