(* ===== verification/SessionBase.thy ===== *)
theory SessionBase
  imports Http TableSchemas
begin

section \<open>What the tunnel sessions share\<close>

text \<open>
  Models \<open>odps/tunnel/session_config.go\<close>, \<open>odps/tunnel/instance_session_config.go\<close>,
  \<open>odps/tunnel/compressor.go\<close> (which encoder and decoder is chosen, not the encodings),
  \<open>odps/tunnel/common.go\<close> (the schema of an answer), the status types of the sessions, and
  \<open>TypeToArrowType\<close> and \<open>ToArrowSchema\<close> of \<open>odps/tableschema\<close>.
  \<^item> An option is a function on the configuration, as in the code.
  \<^item> Decoding JSON into a struct follows \<open>encoding/json\<close>: keys are matched up to case, \<open>null\<close> leaves a
    field as it is, unknown keys are skipped, a value of the wrong type is an error. Numbers are
    \<open>JInt\<close> without and \<open>JFrac\<close> with a fraction or an exponent, the latter with its integer part.
\<close>

subsection \<open>Compressors\<close>

datatype Compressor = SnappyFramed | Zstd int | Deflate int

datatype encoder = SnappyBufferedWriter | ZstdWriter int | ZlibWriterLevel int

datatype decoder = SnappyReader | ZstdReader | ZlibReader

definition SnappyFramedName :: string where "SnappyFramedName = ''x-snappy-framed''"
definition ZstdName :: string where "ZstdName = ''zstd''"
definition DeflateName :: string where "DeflateName = ''deflate''"

fun Compressor_Name :: "Compressor \<Rightarrow> string" where
  "Compressor_Name SnappyFramed = SnappyFramedName"
| "Compressor_Name (Zstd level) = ZstdName"
| "Compressor_Name (Deflate level) = DeflateName"

fun Compressor_NewReader :: "Compressor \<Rightarrow> decoder" where
  "Compressor_NewReader SnappyFramed = SnappyReader"
| "Compressor_NewReader (Zstd level) = ZstdReader"
| "Compressor_NewReader (Deflate level) = ZlibReader"

fun Compressor_NewWriter :: "Compressor \<Rightarrow> encoder" where
  "Compressor_NewWriter SnappyFramed = SnappyBufferedWriter"
| "Compressor_NewWriter (Zstd level) = ZstdWriter level"
| "Compressor_NewWriter (Deflate level) = ZlibWriterLevel (-1)"

definition defaultZstd :: Compressor where "defaultZstd = Zstd 2"
definition defaultDeflate :: Compressor where "defaultDeflate = Deflate 1"

definition WrapByCompressor :: "string \<Rightarrow> decoder option" where
  "WrapByCompressor contentEncoding =
     (let enc = ToLower contentEncoding in
      if Contains enc DeflateName then Some (Compressor_NewReader defaultDeflate)
      else if Contains enc SnappyFramedName then Some (Compressor_NewReader SnappyFramed)
      else if Contains enc ZstdName then Some (Compressor_NewReader defaultZstd)
      else None)"

subsection \<open>Session options\<close>

record sessionConfig =
  sc_PartitionKey :: string
  sc_Overwrite :: bool
  sc_SchemaName :: string
  sc_Compressor :: "Compressor option"
  sc_ShardId :: int
  sc_Async :: bool
  sc_SlotNum :: int
  sc_CreatePartition :: bool
  sc_Columns :: "string list"
  sc_SchemaVersion :: int
  sc_AllowSchemaMismatch :: bool

type_synonym Option = "sessionConfig \<Rightarrow> sessionConfig"

definition newSessionConfig :: "Option list \<Rightarrow> sessionConfig" where
  "newSessionConfig opts =
     fold (\<lambda>opt cfg. opt cfg) opts
       \<lparr>sc_PartitionKey = [], sc_Overwrite = False, sc_SchemaName = [], sc_Compressor = None, sc_ShardId = 0,
        sc_Async = False, sc_SlotNum = 0, sc_CreatePartition = False, sc_Columns = [], sc_SchemaVersion = -1,
        sc_AllowSchemaMismatch = True\<rparr>"

definition strip_quotes :: "string \<Rightarrow> string" where
  "strip_quotes s = ReplaceAll (ReplaceAll s SQ []) DQ []"

definition withPartitionKey :: "string \<Rightarrow> Option" where
  "withPartitionKey partitionKey cfg = cfg\<lparr>sc_PartitionKey := strip_quotes partitionKey\<rparr>"

definition withSchemaName :: "string \<Rightarrow> Option" where
  "withSchemaName schemaName cfg = cfg\<lparr>sc_SchemaName := schemaName\<rparr>"

definition withDefaultDeflateCompressor :: Option where
  "withDefaultDeflateCompressor cfg = cfg\<lparr>sc_Compressor := Some defaultDeflate\<rparr>"

definition withDeflateCompressor :: "int \<Rightarrow> Option" where
  "withDeflateCompressor level cfg = cfg\<lparr>sc_Compressor := Some (Deflate level)\<rparr>"

definition withSnappyFramedCompressor :: Option where
  "withSnappyFramedCompressor cfg = cfg\<lparr>sc_Compressor := Some SnappyFramed\<rparr>"

definition withDefaultZstdCompressor :: Option where
  "withDefaultZstdCompressor cfg = cfg\<lparr>sc_Compressor := Some defaultZstd\<rparr>"

definition withZstdCompressor :: "int \<Rightarrow> Option" where
  "withZstdCompressor level cfg = cfg\<lparr>sc_Compressor := Some (Zstd level)\<rparr>"

definition overWrite :: Option where
  "overWrite cfg = cfg\<lparr>sc_Overwrite := True\<rparr>"

definition async :: Option where
  "async cfg = cfg\<lparr>sc_Async := True\<rparr>"

definition withShardId :: "int \<Rightarrow> Option" where
  "withShardId shardId cfg = cfg\<lparr>sc_ShardId := shardId\<rparr>"

definition withSlotNum :: "int \<Rightarrow> Option" where
  "withSlotNum slotNum cfg = cfg\<lparr>sc_SlotNum := slotNum\<rparr>"

definition withCreatePartition :: Option where
  "withCreatePartition cfg = cfg\<lparr>sc_CreatePartition := True\<rparr>"

definition withColumns :: "string list \<Rightarrow> Option" where
  "withColumns c cfg = cfg\<lparr>sc_Columns := c\<rparr>"

definition withSchemaVersion :: "int \<Rightarrow> Option" where
  "withSchemaVersion schemaVersion cfg = cfg\<lparr>sc_SchemaVersion := schemaVersion\<rparr>"

definition withAllowSchemaMismatch :: "bool \<Rightarrow> Option" where
  "withAllowSchemaMismatch allow cfg = cfg\<lparr>sc_AllowSchemaMismatch := allow\<rparr>"

record instanceSessionConfig =
  ic_TaskName :: string
  ic_QueryId :: int
  ic_Compressor :: "Compressor option"
  ic_LimitEnabled :: bool

type_synonym InstanceOption = "instanceSessionConfig \<Rightarrow> instanceSessionConfig"

definition newInstanceSessionConfig :: "InstanceOption list \<Rightarrow> instanceSessionConfig" where
  "newInstanceSessionConfig opts =
     fold (\<lambda>opt cfg. opt cfg) opts
       \<lparr>ic_TaskName = [], ic_QueryId = -1, ic_Compressor = None, ic_LimitEnabled = False\<rparr>"

definition withTaskName :: "string \<Rightarrow> InstanceOption" where
  "withTaskName taskName cfg = cfg\<lparr>ic_TaskName := taskName\<rparr>"

definition withQueryId :: "int \<Rightarrow> InstanceOption" where
  "withQueryId queryId cfg = cfg\<lparr>ic_QueryId := queryId\<rparr>"

definition enableLimit :: InstanceOption where
  "enableLimit cfg = cfg\<lparr>ic_LimitEnabled := True\<rparr>"

definition ic_withDefaultDeflateCompressor :: InstanceOption where
  "ic_withDefaultDeflateCompressor cfg = cfg\<lparr>ic_Compressor := Some defaultDeflate\<rparr>"

definition ic_withDeflateCompressor :: "int \<Rightarrow> InstanceOption" where
  "ic_withDeflateCompressor level cfg = cfg\<lparr>ic_Compressor := Some (Deflate level)\<rparr>"

definition ic_withSnappyFramedCompressor :: InstanceOption where
  "ic_withSnappyFramedCompressor cfg = cfg\<lparr>ic_Compressor := Some SnappyFramed\<rparr>"

subsection \<open>Headers\<close>

definition DateTransformVersion :: string where "DateTransformVersion = ''v1''"
definition Version :: string where "Version = ''5''"

definition addCommonSessionHttpHeader :: "HttpRequest \<Rightarrow> HttpRequest" where
  "addCommonSessionHttpHeader req =
     req\<lparr>rq_header := (rq_header req)(HttpHeaderOdpsDateTransFrom \<mapsto> DateTransformVersion,
            HttpHeaderOdpsTunnelVersion \<mapsto> Version)\<rparr>"

definition getCommonHeaders :: Values where
  "getCommonHeaders =
     [HttpHeaderOdpsDateTransFrom \<mapsto> DateTransformVersion, HttpHeaderOdpsTunnelVersion \<mapsto> Version,
      HttpHeaderOdpsSdkSupportSchemaEvolution \<mapsto> ''true'']"

text \<open>\<open>Set\<close> under a condition, the shape of most of the code that builds a query.\<close>

definition set_if :: "bool \<Rightarrow> string \<Rightarrow> string \<Rightarrow> Values \<Rightarrow> Values" where
  "set_if b k v q = (if b then q(k \<mapsto> v) else q)"

subsection \<open>Decoding JSON\<close>

definition json_type_error :: goerr where "json_type_error = ErrMsg ''json: cannot unmarshal''"

type_synonym 's jfield = "json \<Rightarrow> 's \<Rightarrow> 's outcome"

fun jstring :: "(string \<Rightarrow> 's \<Rightarrow> 's) \<Rightarrow> 's jfield" where
  "jstring upd (JStr v) s = Ret (upd v s)"
| "jstring upd JNull s = Ret s"
| "jstring upd _ s = Fail json_type_error"

fun jbool :: "(bool \<Rightarrow> 's \<Rightarrow> 's) \<Rightarrow> 's jfield" where
  "jbool upd (JBool v) s = Ret (upd v s)"
| "jbool upd JNull s = Ret s"
| "jbool upd _ s = Fail json_type_error"

fun jint :: "(int \<Rightarrow> 's \<Rightarrow> 's) \<Rightarrow> 's jfield" where
  "jint upd (JInt v) s = (if - (2 ^ 63) \<le> v \<and> v < 2 ^ 63 then Ret (upd v s) else Fail json_type_error)"
| "jint upd JNull s = Ret s"
| "jint upd _ s = Fail json_type_error"

fun jlist :: "(json \<Rightarrow> 'a outcome) \<Rightarrow> ('a list \<Rightarrow> 's \<Rightarrow> 's) \<Rightarrow> 's jfield" where
  "jlist elem upd (JArr vs) s = obind (omap_list elem vs) (\<lambda>xs. Ret (upd xs s))"
| "jlist elem upd JNull s = Ret (upd [] s)"
| "jlist elem upd _ s = Fail json_type_error"

fun find_field :: "string \<Rightarrow> (string \<times> 'f) list \<Rightarrow> 'f option" where
  "find_field k [] = None"
| "find_field k ((name, f) # fs) = (if ToLower k = ToLower name then Some f else find_field k fs)"

fun jentries :: "(string \<times> 's jfield) list \<Rightarrow> (string \<times> json) list \<Rightarrow> 's \<Rightarrow> 's outcome" where
  "jentries fs [] s = Ret s"
| "jentries fs ((k, v) # kvs) s =
     (case find_field k fs of
        None \<Rightarrow> jentries fs kvs s
      | Some f \<Rightarrow> obind (f v s) (jentries fs kvs))"

fun jstruct :: "(string \<times> 's jfield) list \<Rightarrow> json \<Rightarrow> 's \<Rightarrow> 's outcome" where
  "jstruct fs (JObj kvs) s = jentries fs kvs s"
| "jstruct fs JNull s = Ret s"
| "jstruct fs _ s = Fail json_type_error"

definition json_Decode :: "(string \<times> 's jfield) list \<Rightarrow> json option \<Rightarrow> 's \<Rightarrow> 's outcome" where
  "json_Decode fs body s =
     (case body of None \<Rightarrow> Fail (ErrMsg ''invalid json'') | Some j \<Rightarrow> jstruct fs j s)"

subsection \<open>The schema of an answer\<close>

record columnResModel =
  cm_ColumnId :: string
  cm_Comment :: string
  cm_DefaultValue :: string
  cm_Name :: string
  cm_Nullable :: bool
  cm_Type :: string

record schemaResModel =
  sm_IsVirtualView :: bool
  sm_Columns :: "columnResModel list"
  sm_PartitionKeys :: "columnResModel list"

definition zero_columnResModel :: columnResModel where
  "zero_columnResModel = \<lparr>cm_ColumnId = [], cm_Comment = [], cm_DefaultValue = [], cm_Name = [],
     cm_Nullable = False, cm_Type = []\<rparr>"

definition columnResModel_json :: "(string \<times> columnResModel jfield) list" where
  "columnResModel_json =
     [(''column_id'', jstring (\<lambda>v. cm_ColumnId_update (\<lambda>_. v))), (''comment'', jstring (\<lambda>v. cm_Comment_update (\<lambda>_. v))),
      (''default_value'', jstring (\<lambda>v. cm_DefaultValue_update (\<lambda>_. v))), (''name'', jstring (\<lambda>v. cm_Name_update (\<lambda>_. v))),
      (''nullable'', jbool (\<lambda>v. cm_Nullable_update (\<lambda>_. v))), (''type'', jstring (\<lambda>v. cm_Type_update (\<lambda>_. v)))]"

definition jcolumns :: "(columnResModel list \<Rightarrow> 's \<Rightarrow> 's) \<Rightarrow> 's jfield" where
  "jcolumns = jlist (\<lambda>j. jstruct columnResModel_json j zero_columnResModel)"

definition zero_schemaResModel :: schemaResModel where
  "zero_schemaResModel = \<lparr>sm_IsVirtualView = False, sm_Columns = [], sm_PartitionKeys = []\<rparr>"

definition schemaResModel_json :: "(string \<times> schemaResModel jfield) list" where
  "schemaResModel_json =
     [(''IsVirtualView'', jbool (\<lambda>v. sm_IsVirtualView_update (\<lambda>_. v))),
      (''columns'', jcolumns (\<lambda>v. sm_Columns_update (\<lambda>_. v))),
      (''partitionKeys'', jcolumns (\<lambda>v. sm_PartitionKeys_update (\<lambda>_. v)))]"

definition toOdpsColumn :: "columnResModel \<Rightarrow> Column outcome" where
  "toOdpsColumn raw =
     obind (ParseDataType (cm_Type raw)) (\<lambda>t.
       Ret \<lparr>col_Name = cm_Name raw, col_Type = t, col_Comment = cm_Comment raw, col_Label = [],
            col_NotNull = (\<not> cm_Nullable raw), col_HasDefaultValue = False, col_DefaultValue = cm_DefaultValue raw,
            col_ExtendedLabels = [], col_GenerateExpression = None\<rparr>)"

definition zero_TableSchema :: TableSchema where
  "zero_TableSchema =
     \<lparr>ts_TableName = [], ts_Columns = [], ts_PartitionColumns = [], ts_Comment = [], ts_Lifecycle = 0,
      ts_StorageHandler = [], ts_Location = [],
      ts_ClusterInfo = \<lparr>ci_ClusterType = [], ci_ClusterCols = [], ci_SortCols = [], ci_BucketNum = 0\<rparr>,
      ts_TblProperties = [], ts_PrimaryKeys = [], ts_IsVirtualView = False, ts_IsMaterializedView = False,
      ts_IsMaterializedViewRewriteEnabled = False, ts_ViewText = [], ts_MvProperties = []\<rparr>"

definition toTableSchema :: "schemaResModel \<Rightarrow> string \<Rightarrow> TableSchema outcome" where
  "toTableSchema s tableName =
     obind (omap_list toOdpsColumn (sm_Columns s)) (\<lambda>cols.
     obind (omap_list toOdpsColumn (sm_PartitionKeys s)) (\<lambda>parts.
       Ret (zero_TableSchema\<lparr>ts_TableName := tableName, ts_IsVirtualView := sm_IsVirtualView s,
              ts_Columns := cols, ts_PartitionColumns := parts\<rparr>)))"

subsection \<open>Arrow schemas\<close>

datatype arrow_type =
    ArrowNull | ArrowBoolean | ArrowInt8 | ArrowInt16 | ArrowInt32 | ArrowInt64 | ArrowFloat32 | ArrowFloat64
  | ArrowString | ArrowBinary | ArrowDate32 | ArrowTimestamp_ms | ArrowTimestamp_ns | ArrowDayTimeInterval
  | ArrowMonthInterval | ArrowDecimal128 i32 i32 | ArrowStruct "(string \<times> arrow_type) list" | ArrowList arrow_type

fun simple_arrow_type :: "TypeID \<Rightarrow> arrow_type option" where
  "simple_arrow_type t =
     (if t = BOOLEAN then Some ArrowBoolean else if t = TINYINT then Some ArrowInt8
      else if t = SMALLINT then Some ArrowInt16 else if t = INTID then Some ArrowInt32
      else if t = BIGINT then Some ArrowInt64 else if t = FLOAT then Some ArrowFloat32
      else if t = DOUBLE then Some ArrowFloat64
      else if t \<in> {CHARID, VARCHAR, STRING, JSON} then Some ArrowString
      else if t = BINARY then Some ArrowBinary else if t = DATE then Some ArrowDate32
      else if t = DATETIME then Some ArrowTimestamp_ms
      else if t \<in> {TIMESTAMP, TIMESTAMP_NTZ} then Some ArrowTimestamp_ns
      else if t = IntervalDayTime then Some ArrowDayTimeInterval
      else if t = IntervalYearMonth then Some ArrowMonthInterval else None)"

definition StructOf :: "(string \<times> arrow_type) list \<Rightarrow> arrow_type outcome" where
  "StructOf fs = (if distinct (map fst fs) then Ret (ArrowStruct fs) else Panic ExplicitPanic)"

definition unknown_odps_type :: "DataType \<Rightarrow> arrow_type outcome" where
  "unknown_odps_type t = obind (Name t) (\<lambda>n. Fail (ErrMsg (''unknown odps data type: '' @ n)))"

text \<open>
  The failed type assertions of a \<open>PrimitiveType\<close> with the id of a parametrised type leave the zero
  value: a decimal without precision, a struct without fields, a nil element type.
\<close>

fun TypeToArrowType :: "DataType \<Rightarrow> arrow_type outcome" where
  "TypeToArrowType NilType = Panic NilDereference"
| "TypeToArrowType (PrimitiveType c) =
     (if c = DECIMAL then Ret (ArrowDecimal128 0 0) else if c = STRUCT then StructOf []
      else if c = ARRAY then Panic NilDereference
      else case simple_arrow_type c of Some a \<Rightarrow> Ret a | None \<Rightarrow> unknown_odps_type (PrimitiveType c))"
| "TypeToArrowType (CharType n) = Ret ArrowString"
| "TypeToArrowType (VarcharType n) = Ret ArrowString"
| "TypeToArrowType JsonType = Ret ArrowString"
| "TypeToArrowType (DecimalType p s) = Ret (ArrowDecimal128 p s)"
| "TypeToArrowType (ArrayType e) = obind (TypeToArrowType e) (\<lambda>a. Ret (ArrowList a))"
| "TypeToArrowType (MapType k v) = unknown_odps_type (MapType k v)"
| "TypeToArrowType (StructType fs) =
     obind (omap_list (\<lambda>f. obind (TypeToArrowType (snd f)) (\<lambda>a. Ret (fst f, a))) fs) StructOf"

text \<open>The error of \<open>TypeToArrowType\<close> is dropped; the type is then \<open>arrow.Null\<close>.\<close>

definition arrow_field :: "Column \<Rightarrow> (string \<times> arrow_type \<times> bool) outcome" where
  "arrow_field c =
     (case TypeToArrowType (col_Type c) of
        Ret a \<Rightarrow> Ret (col_Name c, a, \<not> col_NotNull c)
      | Fail e \<Rightarrow> Ret (col_Name c, ArrowNull, \<not> col_NotNull c)
      | Panic p \<Rightarrow> Panic p)"

definition ToArrowSchema :: "TableSchema \<Rightarrow> (string \<times> arrow_type \<times> bool) list outcome" where
  "ToArrowSchema schema = omap_list arrow_field (ts_Columns schema)"

end
