(* ===== verification/BatchSessions.thy ===== *)
theory BatchSessions
  imports SessionBase RecordProtoc
begin

section \<open>Batch sessions: upload and download\<close>

text \<open>
  Models \<open>odps/tunnel/upload_session.go\<close>, \<open>odps/tunnel/download_session.go\<close>,
  \<open>odps/tunnel/instance_result_download_session.go\<close> and \<open>odps/tunnel/http_conn.go\<close>.
  \<^item> A method that talks to the server transforms the pair of the session and the environment of
    its REST client.
  \<^item> \<open>loadInformation\<close> stores the date header before it decodes the body, and everything else only
    after decoding and schema conversion have succeeded.
  \<^item> The parse functions test the status once more; \<open>Do\<close> has refused every status outside 200 to 299
    by then (lemma \<open>Do_status\<close>), so that test never fails and is not repeated here. A retried
    request is built once and prepared and signed anew by every \<open>Do\<close>.
  \<^item> The pipe between a record writer and its connection is the sink the writer is given, and the
    answer of the connection its \<open>closeRes\<close>.
\<close>

subsection \<open>\<open>httpConnection\<close>\<close>

definition closeRes :: "HttpResponse outcome \<Rightarrow> unit outcome" where
  "closeRes rOrE =
     obind rOrE (\<lambda>res. if rs_StatusCode res div 100 \<noteq> 2 then Fail (NewHttpNotOk res) else Ret ())"

record httpConnection =
  hc_request :: HttpRequest
  hc_encoder :: "encoder option"

definition newHttpConnection :: "HttpRequest \<Rightarrow> Compressor option \<Rightarrow> httpConnection" where
  "newHttpConnection req c = \<lparr>hc_request = req, hc_encoder = map_option Compressor_NewWriter c\<rparr>"

subsection \<open>Status\<close>

datatype UploadStatus =
    UploadStatusUnknown | UploadStatusNormal | UploadStatusClosing | UploadStatusClosed
  | UploadStatusCanceled | UploadStatusExpired | UploadStatusCritical | UploadStatusCommitting

definition UploadStatusFromStr :: "string \<Rightarrow> UploadStatus" where
  "UploadStatusFromStr s =
     (let u = ToUpper s in
      if u = ''NORMAL'' then UploadStatusNormal
      else if u = ''CLOSING'' then UploadStatusClosing
      else if u = ''CLOSED'' then UploadStatusClosed
      else if u = ''CANCELED'' then UploadStatusCanceled
      else if u = ''EXPIRED'' then UploadStatusExpired
      else if u = ''CRITICAL'' then UploadStatusCritical
      else if u = ''COMMITTING'' then UploadStatusCommitting
      else UploadStatusUnknown)"

fun UploadStatus_String :: "UploadStatus \<Rightarrow> string" where
  "UploadStatus_String UploadStatusUnknown = ''UNKNOWN''"
| "UploadStatus_String UploadStatusNormal = ''NORMAL''"
| "UploadStatus_String UploadStatusClosing = ''CLOSING''"
| "UploadStatus_String UploadStatusClosed = ''CLOSED''"
| "UploadStatus_String UploadStatusCanceled = ''CANCELED''"
| "UploadStatus_String UploadStatusExpired = ''EXPIRED''"
| "UploadStatus_String UploadStatusCritical = ''CRITICAL''"
| "UploadStatus_String UploadStatusCommitting = ''COMMITTING''"

datatype DownLoadStatus =
    DownloadStatusUnknown | DownloadStatusNormal | DownloadStatusClosed | DownloadStatusExpired
  | DownloadStatusInitiating

definition DownloadStatusFromStr :: "string \<Rightarrow> DownLoadStatus" where
  "DownloadStatusFromStr s =
     (let u = ToUpper s in
      if u = ''UNKNOWN'' then DownloadStatusUnknown
      else if u = ''NORMAL'' then DownloadStatusNormal
      else if u = ''CLOSED'' then DownloadStatusClosed
      else if u = ''EXPIRED'' then DownloadStatusExpired
      else if u = ''INITIATING'' then DownloadStatusInitiating
      else DownloadStatusUnknown)"

fun DownLoadStatus_String :: "DownLoadStatus \<Rightarrow> string" where
  "DownLoadStatus_String DownloadStatusUnknown = ''UNKNOWN''"
| "DownLoadStatus_String DownloadStatusNormal = ''NORMAL''"
| "DownLoadStatus_String DownloadStatusClosed = ''CLOSED''"
| "DownLoadStatus_String DownloadStatusExpired = ''EXPIRED''"
| "DownLoadStatus_String DownloadStatusInitiating = ''INITIATING''"

subsection \<open>\<open>UploadSession\<close>\<close>

record 'e UploadSession =
  up_Id :: string
  up_ProjectName :: string
  up_SchemaName :: string
  up_TableName :: string
  up_QuotaName :: string
  up_CreatePartition :: bool
  up_partitionKey :: string
  up_Overwrite :: bool
  up_Compressor :: "Compressor option"
  up_RestClient :: "'e RestClient"
  up_fieldMaxSize :: int
  up_shouldTransformDate :: bool
  up_schema :: TableSchema
  up_status :: "UploadStatus option"
  up_arrowSchema :: "(string \<times> arrow_type \<times> bool) list option"
  up_blockIds :: "int list"

definition up_SetPartitionKey :: "string \<Rightarrow> 'e UploadSession \<Rightarrow> 'e UploadSession" where
  "up_SetPartitionKey partitionKey u = u\<lparr>up_partitionKey := strip_quotes partitionKey\<rparr>"

definition up_ResourceUrl :: "'e UploadSession \<Rightarrow> string" where
  "up_ResourceUrl u = rb_Table (NewResourceBuilder (up_ProjectName u)) (up_SchemaName u) (up_TableName u)"

definition up_newInitiationRequest :: "'e UploadSession \<Rightarrow> HttpRequest outcome" where
  "up_newInitiationRequest u =
     NewRequestWithParamsAndHeaders (up_RestClient u) PostMethod (up_ResourceUrl u)
       (Some (set_if (up_QuotaName u \<noteq> []) ''quotaName'' (up_QuotaName u)
         (set_if (up_Overwrite u) ''overwrite'' ''true''
         (set_if (up_CreatePartition u) ''create_partition'' ''true''
         (set_if (up_partitionKey u \<noteq> []) ''partition'' (up_partitionKey u)
           [''uploads'' \<mapsto> []])))))
       getCommonHeaders"

definition up_session_query :: "'e UploadSession \<Rightarrow> Values" where
  "up_session_query u =
     set_if (up_QuotaName u \<noteq> []) ''quotaName'' (up_QuotaName u)
       (set_if (up_partitionKey u \<noteq> []) ''partition'' (up_partitionKey u) [''uploadid'' \<mapsto> up_Id u])"

definition up_newLoadRequest :: "'e UploadSession \<Rightarrow> HttpRequest outcome" where
  "up_newLoadRequest u =
     omap addCommonSessionHttpHeader
       (NewRequestWithUrlQuery (up_RestClient u) GetMethod (up_ResourceUrl u) (Some (up_session_query u)))"

record UploadedBlock =
  ub_BlockID :: int
  ub_RecordCount :: int

record UploadResModel =
  ur_MaxFieldSize :: int
  ur_Schema :: schemaResModel
  ur_Status :: string
  ur_UploadID :: string
  ur_QuotaName :: string
  ur_UploadedBlockList :: "UploadedBlock list"

definition UploadedBlock_json :: "(string \<times> UploadedBlock jfield) list" where
  "UploadedBlock_json =
     [(''BlockID'', jint (\<lambda>v. ub_BlockID_update (\<lambda>_. v))), (''CreateTime'', jint (\<lambda>v s. s)),
      (''Date'', jstring (\<lambda>v s. s)), (''FileName'', jstring (\<lambda>v s. s)),
      (''RecordCount'', jint (\<lambda>v. ub_RecordCount_update (\<lambda>_. v))), (''Version'', jint (\<lambda>v s. s))]"

definition UploadResModel_json :: "(string \<times> UploadResModel jfield) list" where
  "UploadResModel_json =
     [(''Initiated'', jstring (\<lambda>v s. s)), (''IsOverwrite'', jbool (\<lambda>v s. s)),
      (''MaxFieldSize'', jint (\<lambda>v. ur_MaxFieldSize_update (\<lambda>_. v))), (''Owner'', jstring (\<lambda>v s. s)),
      (''Schema'', \<lambda>j s. obind (jstruct schemaResModel_json j (ur_Schema s)) (\<lambda>m. Ret (s\<lparr>ur_Schema := m\<rparr>))),
      (''Status'', jstring (\<lambda>v. ur_Status_update (\<lambda>_. v))), (''UploadID'', jstring (\<lambda>v. ur_UploadID_update (\<lambda>_. v))),
      (''QuotaName'', jstring (\<lambda>v. ur_QuotaName_update (\<lambda>_. v))),
      (''UploadedBlockList'', jlist (\<lambda>j. jstruct UploadedBlock_json j \<lparr>ub_BlockID = 0, ub_RecordCount = 0\<rparr>)
          (\<lambda>v. ur_UploadedBlockList_update (\<lambda>_. v)))]"

definition zero_UploadResModel :: UploadResModel where
  "zero_UploadResModel = \<lparr>ur_MaxFieldSize = 0, ur_Schema = zero_schemaResModel, ur_Status = [],
     ur_UploadID = [], ur_QuotaName = [], ur_UploadedBlockList = []\<rparr>"

text \<open>A step of a session on its environment, given the session.\<close>

definition on_env :: "('u \<Rightarrow> 'e RestClient) \<Rightarrow> ('e, 'a) M \<Rightarrow> ('u \<times> 'e, 'a) M" where
  "on_env cl m s = (case m (snd s) of (r, e) \<Rightarrow> (r, (fst s, e)))"

definition on_session :: "('u \<Rightarrow> 'u) \<Rightarrow> ('u \<times> 'e, unit) M" where
  "on_session f s = (Ret (), (f (fst s), snd s))"

definition transforms_date :: "HttpResponse \<Rightarrow> bool" where
  "transforms_date res \<longleftrightarrow> Header_Get (rs_Header res) HttpHeaderOdpsDateTransFrom = ''true''"

definition up_loadInformation :: "HttpRequest \<Rightarrow> ('e UploadSession \<times> 'e, unit) M" where
  "up_loadInformation req =
     mbind (mget (\<lambda>s. up_RestClient (fst s))) (\<lambda>cl.
     mbind (on_env up_RestClient (Do cl req)) (\<lambda>res.
     mseq (on_session (up_shouldTransformDate_update (\<lambda>_. transforms_date res)))
     (mbind (mlift (json_Decode UploadResModel_json (rs_json res) zero_UploadResModel)) (\<lambda>resModel.
     mbind (mget (\<lambda>s. up_TableName (fst s))) (\<lambda>tableName.
     mbind (mlift (toTableSchema (ur_Schema resModel) tableName)) (\<lambda>tableSchema.
     mseq (on_session (\<lambda>u. u\<lparr>up_Id := ur_UploadID resModel, up_fieldMaxSize := ur_MaxFieldSize resModel,
        up_QuotaName := (if ur_QuotaName resModel \<noteq> [] then ur_QuotaName resModel else up_QuotaName u),
        up_status := Some (UploadStatusFromStr (ur_Status resModel)), up_schema := tableSchema\<rparr>))
     (mbind (mlift (ToArrowSchema tableSchema)) (\<lambda>arrowSchema.
     on_session (\<lambda>u. u\<lparr>up_arrowSchema := Some arrowSchema,
        up_blockIds := map ub_BlockID (ur_UploadedBlockList resModel)\<rparr>)))))))))"

definition up_Load :: "('e UploadSession \<times> 'e, unit) M" where
  "up_Load = mbind (mget fst) (\<lambda>u. mbind (mlift (up_newLoadRequest u)) up_loadInformation)"

definition CreateUploadSession ::
    "string \<Rightarrow> string \<Rightarrow> string \<Rightarrow> 'e RestClient \<Rightarrow> Option list \<Rightarrow> 'e \<Rightarrow> 'e UploadSession outcome \<times> 'e" where
  "CreateUploadSession projectName tableName quotaName restClient opts e =
     (let cfg = newSessionConfig opts;
          session = \<lparr>up_Id = [], up_ProjectName = projectName, up_SchemaName = sc_SchemaName cfg,
            up_TableName = tableName, up_QuotaName = quotaName, up_CreatePartition = sc_CreatePartition cfg,
            up_partitionKey = sc_PartitionKey cfg, up_Overwrite = sc_Overwrite cfg, up_Compressor = sc_Compressor cfg,
            up_RestClient = restClient, up_fieldMaxSize = 0, up_shouldTransformDate = False,
            up_schema = zero_TableSchema, up_status = None, up_arrowSchema = None, up_blockIds = []\<rparr>
      in case mbind (mlift (up_newInitiationRequest session)) up_loadInformation (session, e) of
           (r, (u, e')) \<Rightarrow> (obind r (\<lambda>_. Ret u), e'))"

definition AttachToExistedUploadSession ::
    "string \<Rightarrow> string \<Rightarrow> string \<Rightarrow> 'e RestClient \<Rightarrow> Option list \<Rightarrow> 'e \<Rightarrow> 'e UploadSession outcome \<times> 'e" where
  "AttachToExistedUploadSession sessionId projectName tableName restClient opts e =
     (let cfg = newSessionConfig opts;
          session = \<lparr>up_Id = sessionId, up_ProjectName = projectName, up_SchemaName = [],
            up_TableName = tableName, up_QuotaName = [], up_CreatePartition = False,
            up_partitionKey = sc_PartitionKey cfg, up_Overwrite = sc_Overwrite cfg, up_Compressor = sc_Compressor cfg,
            up_RestClient = restClient, up_fieldMaxSize = 0, up_shouldTransformDate = False,
            up_schema = zero_TableSchema, up_status = None, up_arrowSchema = None, up_blockIds = []\<rparr>
      in case up_Load (session, e) of (r, (u, e')) \<Rightarrow> (obind r (\<lambda>_. Ret u), e'))"

definition up_newUploadConnection :: "'e UploadSession \<Rightarrow> int \<Rightarrow> bool \<Rightarrow> httpConnection outcome" where
  "up_newUploadConnection u blockId useArrow =
     obind (NewRequestWithParamsAndHeaders (up_RestClient u) PutMethod (up_ResourceUrl u)
       (Some (set_if (up_QuotaName u \<noteq> []) ''quotaName'' (up_QuotaName u)
         (set_if (up_partitionKey u \<noteq> []) ''partition'' (up_partitionKey u)
         (set_if useArrow ''arrow'' []
           [''uploadid'' \<mapsto> up_Id u, ''blockid'' \<mapsto> Itoa blockId]))))
       getCommonHeaders) (\<lambda>req.
     Ret (newHttpConnection
       (req\<lparr>rq_header := (case up_Compressor u of
              None \<Rightarrow> (rq_header req)(HttpHeaderContentType \<mapsto> ''application/octet-stream'')
            | Some c \<Rightarrow> (rq_header req)(HttpHeaderContentType \<mapsto> ''application/octet-stream'',
                HttpHeaderContentEncoding \<mapsto> Compressor_Name c))\<rparr>)
       (up_Compressor u)))"

definition up_OpenRecordWriter ::
    "'e UploadSession \<Rightarrow> int \<Rightarrow> sink \<Rightarrow> unit outcome \<Rightarrow> HttpResponse outcome \<Rightarrow>
     (httpConnection \<times> protoc_writer) outcome" where
  "up_OpenRecordWriter u blockId pipe closeAnswer answer =
     obind (up_newUploadConnection u blockId False) (\<lambda>conn.
       Ret (conn, newRecordProtocHttpWriter pipe (ts_Columns (up_schema u)) closeAnswer (closeRes answer)))"

definition blocks_found :: "int list \<Rightarrow> int list \<Rightarrow> bool" where
  "blocks_found uploaded wanted \<longleftrightarrow>
     length uploaded = length wanted \<and> list_all (\<lambda>idWanted. list_ex (\<lambda>realId. idWanted = realId) uploaded) wanted"

definition up_Commit :: "int list \<Rightarrow> ('e UploadSession \<times> 'e, unit) M" where
  "up_Commit blockIds =
     mseq up_Load
     (mbind (mget fst) (\<lambda>u.
       if \<not> blocks_found (up_blockIds u) blockIds
       then mfail (ErrMsg ''blocks server got are not the blocks uploaded'')
       else mbind (mlift (NewRequestWithParamsAndHeaders (up_RestClient u) PostMethod (up_ResourceUrl u)
                            (Some (up_session_query u)) getCommonHeaders)) (\<lambda>req.
            on_env up_RestClient (retried (mseq (Do (up_RestClient u) req) (mret ()))))))"

subsection \<open>\<open>DownloadSession\<close>\<close>

record 'e DownloadSession =
  ds_Id :: string
  ds_ProjectName :: string
  ds_SchemaName :: string
  ds_TableName :: string
  ds_QuotaName :: string
  ds_partitionKey :: string
  ds_Async :: bool
  ds_ShardId :: int
  ds_Compressor :: "Compressor option"
  ds_RestClient :: "'e RestClient"
  ds_schema :: TableSchema
  ds_status :: "DownLoadStatus option"
  ds_recordCount :: int
  ds_shouldTransformDate :: bool
  ds_arrowSchema :: "(string \<times> arrow_type \<times> bool) list option"

definition ds_SetPartitionKey :: "string \<Rightarrow> 'e DownloadSession \<Rightarrow> 'e DownloadSession" where
  "ds_SetPartitionKey partitionKey ds = ds\<lparr>ds_partitionKey := strip_quotes partitionKey\<rparr>"

definition ds_ResourceUrl :: "'e DownloadSession \<Rightarrow> string" where
  "ds_ResourceUrl ds = rb_Table (NewResourceBuilder (ds_ProjectName ds)) (ds_SchemaName ds) (ds_TableName ds)"

definition ds_newInitiationRequest :: "'e DownloadSession \<Rightarrow> HttpRequest outcome" where
  "ds_newInitiationRequest ds =
     omap addCommonSessionHttpHeader
       (NewRequestWithUrlQuery (ds_RestClient ds) PostMethod (ds_ResourceUrl ds)
         (Some (set_if (ds_QuotaName ds \<noteq> []) ''quotaName'' (ds_QuotaName ds)
           (set_if (ds_ShardId ds \<noteq> 0) ''shard'' (Itoa (ds_ShardId ds))
           (set_if (ds_partitionKey ds \<noteq> []) ''partition'' (ds_partitionKey ds)
           (set_if (ds_Async ds) ''asyncmode'' ''true'' [''downloads'' \<mapsto> []]))))))"

definition ds_newLoadRequest :: "'e DownloadSession \<Rightarrow> HttpRequest outcome" where
  "ds_newLoadRequest ds =
     omap addCommonSessionHttpHeader
       (NewRequestWithUrlQuery (ds_RestClient ds) GetMethod (ds_ResourceUrl ds)
         (Some (set_if (ds_QuotaName ds \<noteq> []) ''quotaName'' (ds_QuotaName ds)
           (set_if (ds_ShardId ds \<noteq> 0) ''shard'' (Itoa (ds_ShardId ds))
           (set_if (ds_partitionKey ds \<noteq> []) ''partition'' (ds_partitionKey ds) [''downloadid'' \<mapsto> ds_Id ds])))))"

record DownloadResModel =
  dr_DownloadID :: string
  dr_RecordCount :: int
  dr_Schema :: schemaResModel
  dr_Status :: string

definition DownloadResModel_json :: "(string \<times> DownloadResModel jfield) list" where
  "DownloadResModel_json =
     [(''DownloadID'', jstring (\<lambda>v. dr_DownloadID_update (\<lambda>_. v))), (''Initiated'', jstring (\<lambda>v s. s)),
      (''Owner'', jstring (\<lambda>v s. s)), (''RecordCount'', jint (\<lambda>v. dr_RecordCount_update (\<lambda>_. v))),
      (''Schema'', \<lambda>j s. obind (jstruct schemaResModel_json j (dr_Schema s)) (\<lambda>m. Ret (s\<lparr>dr_Schema := m\<rparr>))),
      (''Status'', jstring (\<lambda>v. dr_Status_update (\<lambda>_. v)))]"

definition zero_DownloadResModel :: DownloadResModel where
  "zero_DownloadResModel =
     \<lparr>dr_DownloadID = [], dr_RecordCount = 0, dr_Schema = zero_schemaResModel, dr_Status = []\<rparr>"

definition ds_loadInformation :: "HttpRequest \<Rightarrow> ('e DownloadSession \<times> 'e, unit) M" where
  "ds_loadInformation req =
     mbind (mget (\<lambda>s. ds_RestClient (fst s))) (\<lambda>cl.
     mbind (on_env ds_RestClient (Do cl req)) (\<lambda>res.
     mseq (on_session (ds_shouldTransformDate_update (\<lambda>_. transforms_date res)))
     (mbind (mlift (json_Decode DownloadResModel_json (rs_json res) zero_DownloadResModel)) (\<lambda>resModel.
     mbind (mget (\<lambda>s. ds_TableName (fst s))) (\<lambda>tableName.
     mbind (mlift (toTableSchema (dr_Schema resModel) tableName)) (\<lambda>tableSchema.
     mseq (on_session (\<lambda>ds. ds\<lparr>ds_Id := dr_DownloadID resModel,
        ds_status := Some (DownloadStatusFromStr (dr_Status resModel)),
        ds_recordCount := dr_RecordCount resModel, ds_schema := tableSchema\<rparr>))
     (mbind (mlift (ToArrowSchema tableSchema)) (\<lambda>arrowSchema.
     on_session (ds_arrowSchema_update (\<lambda>_. Some arrowSchema))))))))))"

definition new_DownloadSession ::
    "string \<Rightarrow> string \<Rightarrow> string \<Rightarrow> string \<Rightarrow> 'e RestClient \<Rightarrow> sessionConfig \<Rightarrow> 'e DownloadSession" where
  "new_DownloadSession i projectName tableName quotaName restClient cfg =
     \<lparr>ds_Id = i, ds_ProjectName = projectName, ds_SchemaName = sc_SchemaName cfg, ds_TableName = tableName,
      ds_QuotaName = quotaName, ds_partitionKey = sc_PartitionKey cfg, ds_Async = sc_Async cfg,
      ds_ShardId = sc_ShardId cfg, ds_Compressor = sc_Compressor cfg, ds_RestClient = restClient,
      ds_schema = zero_TableSchema, ds_status = None, ds_recordCount = 0, ds_shouldTransformDate = False,
      ds_arrowSchema = None\<rparr>"

definition CreateDownloadSession ::
    "string \<Rightarrow> string \<Rightarrow> string \<Rightarrow> 'e RestClient \<Rightarrow> Option list \<Rightarrow> 'e \<Rightarrow> 'e DownloadSession outcome \<times> 'e" where
  "CreateDownloadSession projectName tableName quotaName restClient opts e =
     (let session = new_DownloadSession [] projectName tableName quotaName restClient (newSessionConfig opts)
      in case mbind (mlift (ds_newInitiationRequest session)) ds_loadInformation (session, e) of
           (r, (ds, e')) \<Rightarrow> (obind r (\<lambda>_. Ret ds), e'))"

definition AttachToExistedDownloadSession ::
    "string \<Rightarrow> string \<Rightarrow> string \<Rightarrow> 'e RestClient \<Rightarrow> Option list \<Rightarrow> 'e \<Rightarrow> 'e DownloadSession outcome \<times> 'e" where
  "AttachToExistedDownloadSession sessionId projectName tableName restClient opts e =
     (let session = new_DownloadSession sessionId projectName tableName [] restClient (newSessionConfig opts)
      in case mbind (mlift (ds_newLoadRequest session)) ds_loadInformation (session, e) of
           (r, (ds, e')) \<Rightarrow> (obind r (\<lambda>_. Ret ds), e'))"

text \<open>
  The response of a download connection, with the decoder its body is wrapped in.
\<close>

definition decoder_of :: "HttpResponse \<Rightarrow> decoder option" where
  "decoder_of res =
     (let contentEncoding = Header_Get (rs_Header res) HttpHeaderContentEncoding
      in if contentEncoding \<noteq> [] then WrapByCompressor contentEncoding else None)"

definition ds_newDownloadConnection ::
    "'e DownloadSession \<Rightarrow> int \<Rightarrow> int \<Rightarrow> string list \<Rightarrow> bool \<Rightarrow> ('e, HttpResponse \<times> decoder option) M" where
  "ds_newDownloadConnection ds start count columnNames useArrow =
     mbind (mlift (NewRequestWithUrlQuery (ds_RestClient ds) GetMethod (ds_ResourceUrl ds)
       (Some (set_if useArrow ''arrow'' []
         (set_if (ds_partitionKey ds \<noteq> []) ''partition'' (ds_partitionKey ds)
         ((set_if (ds_QuotaName ds \<noteq> []) ''quotaName'' (ds_QuotaName ds)
         (set_if (columnNames \<noteq> []) ''columns'' (Join columnNames '','') Map.empty))
           (''downloadid'' \<mapsto> ds_Id ds, ''data'' \<mapsto> [],
            ''rowrange'' \<mapsto> ''('' @ Itoa start @ '','' @ Itoa count @ '')''))))))) (\<lambda>req.
     let req1 = (case ds_Compressor ds of None \<Rightarrow> req
                 | Some c \<Rightarrow> req\<lparr>rq_header := (rq_header req)(HttpHeaderAcceptEncoding \<mapsto> Compressor_Name c)\<rparr>)
     in mbind (Do (ds_RestClient ds) (addCommonSessionHttpHeader req1)) (\<lambda>res. mret (res, decoder_of res)))"

definition find_columns :: "TableSchema \<Rightarrow> string list \<Rightarrow> Column list outcome" where
  "find_columns schema names =
     omap_list (\<lambda>n. case FieldByName schema n of
         Some c \<Rightarrow> Ret c
       | None \<Rightarrow> Fail (ErrMsg (''no column names '' @ n @ '' in table''))) names"

definition requested_columns :: "TableSchema \<Rightarrow> string list \<Rightarrow> string list" where
  "requested_columns schema columnNames = (if columnNames = [] then map col_Name (ts_Columns schema) else columnNames)"

text \<open>
  \<open>OpenRecordReader\<close>, for a body whose decoded bytes are given by \<open>decode\<close>.
\<close>

definition ds_OpenRecordReader ::
    "(decoder \<Rightarrow> source \<Rightarrow> source) \<Rightarrow> 'e DownloadSession \<Rightarrow> int \<Rightarrow> int \<Rightarrow> string list \<Rightarrow> ('e, protoc_reader) M" where
  "ds_OpenRecordReader decode ds start count columnNames =
     (let names = requested_columns (ds_schema ds) columnNames in
      mbind (mlift (find_columns (ds_schema ds) names)) (\<lambda>columns.
      mbind (ds_newDownloadConnection ds start count names False) (\<lambda>(res, dec).
      mret (newRecordProtocReader (case dec of None \<Rightarrow> rs_Body res | Some d \<Rightarrow> decode d (rs_Body res)) columns))))"

definition arrow_fields_by_name ::
    "(string \<times> arrow_type \<times> bool) list \<Rightarrow> string list \<Rightarrow> (string \<times> arrow_type \<times> bool) list outcome" where
  "arrow_fields_by_name schema names =
     omap concat (omap_list (\<lambda>n. case filter (\<lambda>f. fst f = n) schema of
         [] \<Rightarrow> Fail (ErrMsg (''no column names '' @ n @ '' in table''))
       | fs \<Rightarrow> Ret fs) names)"

definition ds_OpenRecordArrowReader ::
    "'e DownloadSession \<Rightarrow> int \<Rightarrow> int \<Rightarrow> string list \<Rightarrow>
     ('e, (HttpResponse \<times> decoder option) \<times> (string \<times> arrow_type \<times> bool) list) M" where
  "ds_OpenRecordArrowReader ds start count columnNames =
     (let names = requested_columns (ds_schema ds) columnNames in
      mbind (mlift (case ds_arrowSchema ds of
          None \<Rightarrow> if names = [] then Ret [] else Panic NilDereference
        | Some s \<Rightarrow> arrow_fields_by_name s names)) (\<lambda>arrowFields.
      mbind (ds_newDownloadConnection ds start count names True) (\<lambda>res. mret (res, arrowFields))))"

subsection \<open>\<open>InstanceResultDownloadSession\<close>\<close>

record 'e InstanceResultDownloadSession =
  is_Id :: string
  is_InstanceId :: string
  is_ProjectName :: string
  is_QuotaName :: string
  is_TaskName :: string
  is_QueryId :: int
  is_LimitEnabled :: bool
  is_IsLongPolling :: bool
  is_Compressor :: "Compressor option"
  is_RestClient :: "'e RestClient"
  is_schema :: TableSchema
  is_status :: "DownLoadStatus option"
  is_recordCount :: int
  is_shouldTransformDate :: bool

definition is_ResourceUrl :: "'e InstanceResultDownloadSession \<Rightarrow> string" where
  "is_ResourceUrl s = rb_Instance (NewResourceBuilder (is_ProjectName s)) (is_InstanceId s)"

definition is_newInitiationRequest :: "'e InstanceResultDownloadSession \<Rightarrow> HttpRequest outcome" where
  "is_newInitiationRequest s =
     (let q0 = set_if (is_LimitEnabled s) ''instance_tunnel_limit_enabled'' [] [''downloads'' \<mapsto> []];
          q1 = (if is_TaskName s \<noteq> []
                then set_if (is_QueryId s \<noteq> -1) ''queryid'' (Itoa (is_QueryId s))
                       (q0(''cached'' \<mapsto> [], ''taskname'' \<mapsto> []))
                else q0)
      in omap addCommonSessionHttpHeader
           (NewRequestWithUrlQuery (is_RestClient s) PostMethod (is_ResourceUrl s)
             (Some (set_if (is_QuotaName s \<noteq> []) ''quotaName'' (is_QuotaName s) q1))))"

definition is_newLoadRequest :: "'e InstanceResultDownloadSession \<Rightarrow> HttpRequest outcome" where
  "is_newLoadRequest s =
     omap addCommonSessionHttpHeader
       (NewRequestWithUrlQuery (is_RestClient s) GetMethod (is_ResourceUrl s) (Some [''downloadid'' \<mapsto> is_Id s]))"

definition is_loadInformation :: "HttpRequest \<Rightarrow> ('e InstanceResultDownloadSession \<times> 'e, unit) M" where
  "is_loadInformation req =
     mbind (mget (\<lambda>s. is_RestClient (fst s))) (\<lambda>cl.
     mbind (on_env is_RestClient (Do cl req)) (\<lambda>res.
     mseq (on_session (is_shouldTransformDate_update (\<lambda>_. transforms_date res)))
     (mbind (mlift (json_Decode DownloadResModel_json (rs_json res) zero_DownloadResModel)) (\<lambda>resModel.
     mbind (mlift (toTableSchema (dr_Schema resModel) [])) (\<lambda>tableSchema.
     on_session (\<lambda>s. s\<lparr>is_Id := dr_DownloadID resModel,
        is_status := Some (DownloadStatusFromStr (dr_Status resModel)),
        is_recordCount := dr_RecordCount resModel, is_schema := tableSchema\<rparr>))))))"

definition new_InstanceResultDownloadSession ::
    "string \<Rightarrow> string \<Rightarrow> string \<Rightarrow> string \<Rightarrow> 'e RestClient \<Rightarrow> instanceSessionConfig \<Rightarrow>
     'e InstanceResultDownloadSession" where
  "new_InstanceResultDownloadSession i projectName instanceId quotaName restClient cfg =
     \<lparr>is_Id = i, is_InstanceId = instanceId, is_ProjectName = projectName, is_QuotaName = quotaName,
      is_TaskName = ic_TaskName cfg, is_QueryId = ic_QueryId cfg, is_LimitEnabled = ic_LimitEnabled cfg,
      is_IsLongPolling = (ic_QueryId cfg \<noteq> -1), is_Compressor = ic_Compressor cfg, is_RestClient = restClient,
      is_schema = zero_TableSchema, is_status = None, is_recordCount = 0, is_shouldTransformDate = False\<rparr>"

definition CreateInstanceResultDownloadSession ::
    "string \<Rightarrow> string \<Rightarrow> string \<Rightarrow> 'e RestClient \<Rightarrow> InstanceOption list \<Rightarrow> 'e \<Rightarrow>
     'e InstanceResultDownloadSession outcome \<times> 'e" where
  "CreateInstanceResultDownloadSession projectName instanceId quotaName restClient opts e =
     (let session = new_InstanceResultDownloadSession [] projectName instanceId quotaName restClient
                      (newInstanceSessionConfig opts)
      in case mbind (mlift (is_newInitiationRequest session)) is_loadInformation (session, e) of
           (r, (s, e')) \<Rightarrow> (obind r (\<lambda>_. Ret s), e'))"

definition AttachToExistedIRDownloadSession ::
    "string \<Rightarrow> string \<Rightarrow> string \<Rightarrow> 'e RestClient \<Rightarrow> InstanceOption list \<Rightarrow> 'e \<Rightarrow>
     'e InstanceResultDownloadSession outcome \<times> 'e" where
  "AttachToExistedIRDownloadSession downloadId projectName instanceId restClient opts e =
     (let session = new_InstanceResultDownloadSession downloadId projectName instanceId [] restClient
                      (newInstanceSessionConfig opts)
      in case mbind (mlift (is_newLoadRequest session)) is_loadInformation (session, e) of
           (r, (s, e')) \<Rightarrow> (obind r (\<lambda>_. Ret s), e'))"

definition is_newDownloadConnection ::
    "'e InstanceResultDownloadSession \<Rightarrow> int \<Rightarrow> int \<Rightarrow> int \<Rightarrow> ('e, HttpResponse \<times> decoder option) M" where
  "is_newDownloadConnection s start count sizeLimit =
     (let q0 = (set_if (is_QuotaName s \<noteq> []) ''quotaName'' (is_QuotaName s)
                 (set_if (is_LimitEnabled s) ''instance_tunnel_limit_enabled'' [] Map.empty))(''data'' \<mapsto> []);
          q1 = (if is_IsLongPolling s
                then set_if (sizeLimit > 0) ''sizelimit'' (Itoa sizeLimit)
                       (set_if (is_QueryId s \<noteq> -1) ''queryid'' (Itoa (is_QueryId s))
                         (q0(''cached'' \<mapsto> [], ''taskname'' \<mapsto> [])))
                else q0(''downloadid'' \<mapsto> is_Id s))
      in mbind (mlift (NewRequestWithUrlQuery (is_RestClient s) GetMethod (is_ResourceUrl s)
           (Some (q1(''rowrange'' \<mapsto> ''('' @ Itoa start @ '','' @ Itoa count @ '')''))))) (\<lambda>req.
         let req1 = (case is_Compressor s of None \<Rightarrow> req
                     | Some c \<Rightarrow> req\<lparr>rq_header := (rq_header req)(HttpHeaderAcceptEncoding \<mapsto> Compressor_Name c)\<rparr>)
         in mbind (retried (Do (is_RestClient s) (addCommonSessionHttpHeader req1))) (\<lambda>res.
              mret (res, decoder_of res))))"

definition is_OpenRecordReader ::
    "(decoder \<Rightarrow> source \<Rightarrow> source) \<Rightarrow> 'e InstanceResultDownloadSession \<Rightarrow> int \<Rightarrow> int \<Rightarrow> int \<Rightarrow> string list \<Rightarrow>
     ('e, protoc_reader) M" where
  "is_OpenRecordReader decode s start count sizeLimit columnNames =
     (let names = requested_columns (is_schema s) columnNames in
      mbind (mlift (find_columns (is_schema s) names)) (\<lambda>columns.
      mbind (is_newDownloadConnection s start count sizeLimit) (\<lambda>(res, dec).
      mret (newRecordProtocReader (case dec of None \<Rightarrow> rs_Body res | Some d \<Rightarrow> decode d (rs_Body res)) columns))))"

subsection \<open>Properties of the batch sessions\<close>

text \<open>
  The status names round trip: every status prints as the name it is parsed from.
\<close>

theorem UploadStatus_roundtrip:
  "UploadStatusFromStr (UploadStatus_String s) = s \<and> DownloadStatusFromStr (DownLoadStatus_String d) = d"
  by (cases s; cases d) (simp_all add: UploadStatusFromStr_def DownloadStatusFromStr_def ToUpper_def
      to_upper_char_def less_eq_char_def Let_def)

lemma on_env_iff: "on_env cl m (u, e) = (r, (u', e')) \<longleftrightarrow> u' = u \<and> m e = (r, e')"
  by (auto simp: on_env_def split: prod.splits)

lemma on_session_run [run_simps]: "on_session f (u, e) = (Ret (), (f u, e))"
  by (simp add: on_session_def)

lemma obind_chain_not_Fail: "obind m f = Fail e \<Longrightarrow> m = Fail e \<or> (\<exists>x. m = Ret x \<and> f x = Fail e)"
  by (cases m) auto

lemma arrow_field_not_Fail: "arrow_field c \<noteq> Fail e"
  by (simp add: arrow_field_def split: outcome.split)

lemma omap_list_not_Fail: "(\<And>x. x \<in> set xs \<Longrightarrow> f x \<noteq> Fail e) \<Longrightarrow> omap_list f xs \<noteq> Fail e"
  by (induction xs) (auto dest!: obind_chain_not_Fail)

lemma ToArrowSchema_not_Fail: "ToArrowSchema s \<noteq> Fail e"
  by (simp add: ToArrowSchema_def omap_list_not_Fail arrow_field_not_Fail)

lemma up_loadInformation_Fail:
  assumes "up_loadInformation req (u, e) = (Fail err, (u', e'))"
  shows "\<exists>b. u' = u\<lparr>up_shouldTransformDate := b\<rparr>"
proof -
  have keep: "\<exists>b. u = u\<lparr>up_shouldTransformDate := b\<rparr>" by (rule exI [of _ "up_shouldTransformDate u"]) simp
  show ?thesis
    using assms ToArrowSchema_not_Fail keep unfolding up_loadInformation_def mseq_def
    by (auto elim!: mbind_FailE simp: mget_def mlift_def on_env_def on_session_def split: prod.splits)
qed

text \<open>
  A session survives a failed reload: when the server cannot be reached, refuses, or answers
  something that is not a valid description of the session, everything the session knew (id,
  schema, status, blocks, quota) is kept, except for the flag taken from the answer's date header.
\<close>

theorem up_Load_failure_keeps_session:
  assumes "up_Load (u, e) = (Fail err, (u', e'))"
  shows "\<exists>b. u' = u\<lparr>up_shouldTransformDate := b\<rparr>"
proof -
  have keep: "\<exists>b. u = u\<lparr>up_shouldTransformDate := b\<rparr>" by (rule exI [of _ "up_shouldTransformDate u"]) simp
  show ?thesis
    using assms keep up_loadInformation_Fail unfolding up_Load_def
    by (auto elim!: mbind_FailE simp: mget_def mlift_def)
qed

definition example_session :: "(nat \<Rightarrow> HttpResponse outcome) \<Rightarrow> nat UploadSession" where
  "example_session answers =
     \<lparr>up_Id = ''s'', up_ProjectName = ''p'', up_SchemaName = [], up_TableName = ''t'', up_QuotaName = [],
      up_CreatePartition = False, up_partitionKey = [], up_Overwrite = False, up_Compressor = None,
      up_RestClient = example_client answers, up_fieldMaxSize = 0, up_shouldTransformDate = False,
      up_schema = zero_TableSchema, up_status = None, up_arrowSchema = None, up_blockIds = [7]\<rparr>"

lemma example_requests:
  "NewRequest (example_client answers) m r =
     Ret \<lparr>rq_method = m, rq_url = ''http://service/'' @ TrimLeftChar (CHR ''/'') r, rq_query = Map.empty,
       rq_header = Map.empty, rq_body = []\<rparr>"
  by (simp add: NewRequest_def example_client_def Let_def TrimRightChar_def)

lemma example_Do:
  "Do (example_client answers) req n =
     (case answers n of
        Ret res \<Rightarrow> (if rs_StatusCode res < 200 \<or> rs_StatusCode res \<ge> 300
                    then Fail (NewHttpNotOk res) else Ret res, Suc n)
      | r \<Rightarrow> (r, Suc n))"
  by (auto simp: Do_def example_client_def mbind_def mlift_def mfail_def mret_def split: outcome.splits)

theorem up_Load_failure_keeps_session_witness:
  "up_blockIds (fst (snd (up_Load (example_session (\<lambda>n. Fail ErrEOF), 0)))) = [7]"
proof -
  have run: "up_Load (example_session (\<lambda>n. Fail ErrEOF), 0) = (Fail ErrEOF, (example_session (\<lambda>n. Fail ErrEOF), 1))"
    by (simp add: up_Load_def up_newLoadRequest_def NewRequestWithUrlQuery_def mbind_def mget_def mlift_def
        up_loadInformation_def on_env_def example_session_def example_requests example_Do)
  from up_Load_failure_keeps_session [OF this] run show ?thesis by (auto simp: example_session_def)
qed

lemma blocks_found_iff: "blocks_found uploaded wanted \<longleftrightarrow> length uploaded = length wanted \<and> set wanted \<subseteq> set uploaded"
  by (auto simp: blocks_found_def list_all_iff list_ex_iff)

lemma blocks_found_distinct:
  assumes "blocks_found uploaded wanted" "distinct wanted"
  shows "set uploaded = set wanted \<and> distinct uploaded"
proof -
  have "card (set uploaded) \<le> length wanted" using assms(1) by (metis blocks_found_iff card_length)
  moreover have "card (set wanted) = length wanted" using assms(2) by (rule distinct_card)
  moreover have "set wanted \<subseteq> set uploaded" using assms(1) by (simp add: blocks_found_iff)
  ultimately have "set wanted = set uploaded" by (metis List.finite_set card_seteq)
  then show ?thesis
    using \<open>card (set wanted) = length wanted\<close> assms(1) by (metis blocks_found_iff card_distinct)
qed

lemma up_loadInformation_answer:
  assumes "up_loadInformation req (u, e) = (Ret (), (u', e'))"
  shows "up_RestClient u' = up_RestClient u \<and> (\<exists>res m. Do (up_RestClient u) req e = (Ret res, e') \<and>
    json_Decode UploadResModel_json (rs_json res) zero_UploadResModel = Ret m \<and>
    up_blockIds u' = map ub_BlockID (ur_UploadedBlockList m))"
  using assms
  by (auto simp: up_loadInformation_def mbind_Ret_iff mseq_Ret_iff mget_def mlift_def on_env_iff on_session_def)

text \<open>
  C16. A commit that succeeds has asked the server which blocks it holds and compared its answer with the caller's: the load request
  was answered, and when the caller names each block once, the block ids of that answer are exactly these blocks, each once. The
  request to commit is sent after the answer, and it succeeded within the retries.
\<close>

theorem up_Commit_blocks:
  assumes "up_Commit blockIds (u, e) = (Ret (), (u', e'))" and "distinct blockIds"
  shows "\<exists>req res m e1 commit.
    up_newLoadRequest u = Ret req \<and> Do (up_RestClient u) req e = (Ret res, e1) \<and>
    json_Decode UploadResModel_json (rs_json res) zero_UploadResModel = Ret m \<and>
    set (map ub_BlockID (ur_UploadedBlockList m)) = set blockIds \<and> distinct (map ub_BlockID (ur_UploadedBlockList m)) \<and>
    NewRequestWithParamsAndHeaders (up_RestClient u) PostMethod (up_ResourceUrl u') (Some (up_session_query u')) getCommonHeaders =
      Ret commit \<and>
    retried (mseq (Do (up_RestClient u) commit) (mret ())) e1 = (Ret (), e')"
proof -
  obtain u1 e1 where l: "up_Load (u, e) = (Ret (), (u1, e1))" and found: "blocks_found (up_blockIds u1) blockIds"
    and c: "mbind (mlift (NewRequestWithParamsAndHeaders (up_RestClient u1) PostMethod (up_ResourceUrl u1)
                            (Some (up_session_query u1)) getCommonHeaders)) (\<lambda>req.
            on_env up_RestClient (retried (mseq (Do (up_RestClient u1) req) (mret ())))) (u1, e1) = (Ret (), (u', e'))"
    using assms(1) unfolding up_Commit_def
    by (auto simp: mseq_Ret_iff mbind_Ret_iff [where m = "mget fst"] mget_def mfail_def split: if_splits)
  obtain req where req: "up_newLoadRequest u = Ret req" "up_loadInformation req (u, e) = (Ret (), (u1, e1))"
    using l by (auto simp: up_Load_def mbind_Ret_iff mget_def mlift_def)
  obtain res m where a: "up_RestClient u1 = up_RestClient u" "Do (up_RestClient u) req e = (Ret res, e1)"
    "json_Decode UploadResModel_json (rs_json res) zero_UploadResModel = Ret m"
    "up_blockIds u1 = map ub_BlockID (ur_UploadedBlockList m)"
    using up_loadInformation_answer [OF req(2)] by blast
  obtain commit where "NewRequestWithParamsAndHeaders (up_RestClient u) PostMethod (up_ResourceUrl u') (Some (up_session_query u'))
      getCommonHeaders = Ret commit" "retried (mseq (Do (up_RestClient u) commit) (mret ())) e1 = (Ret (), e')"
    using c a(1) by (auto simp: mbind_Ret_iff mlift_def on_env_iff)
  then show ?thesis using req(1) a blocks_found_distinct [OF found assms(2)] by auto
qed

definition ok_response :: "json \<Rightarrow> HttpResponse" where
  "ok_response j = \<lparr>rs_StatusCode = 200, rs_Status = ''200 OK'', rs_Header = Map.empty, rs_json = Some j, rs_xml = None, rs_Body = \<lparr>src_in = [], src_end = ErrEOF\<rparr>\<rparr>"

definition blocks_answer :: "int list \<Rightarrow> json" where
  "blocks_answer ids = JObj [(''UploadID'', JStr ''s''), (''UploadedBlockList'', JArr (map (\<lambda>i. JObj [(''BlockID'', JInt i)]) ids))]"

lemma decode_blocks_answer:
  assumes "\<forall>i \<in> set ids. 0 \<le> i \<and> i < 20000"
  shows "json_Decode UploadResModel_json (Some (blocks_answer ids)) zero_UploadResModel =
    Ret (zero_UploadResModel\<lparr>ur_UploadID := ''s'', ur_UploadedBlockList := map (\<lambda>i. \<lparr>ub_BlockID = i, ub_RecordCount = 0\<rparr>) ids\<rparr>)"
proof -
  have "omap_list (\<lambda>j. jstruct UploadedBlock_json j \<lparr>ub_BlockID = 0, ub_RecordCount = 0\<rparr>)
      (map (\<lambda>i. JObj [(''BlockID'', JInt i)]) ids) = Ret (map (\<lambda>i. \<lparr>ub_BlockID = i, ub_RecordCount = 0\<rparr>) ids)"
    using assms by (induction ids) (auto simp: UploadedBlock_json_def)
  then show ?thesis
    by (simp add: json_Decode_def blocks_answer_def UploadResModel_json_def zero_UploadResModel_def ToLower_def
        to_lower_char_def less_eq_char_def)
qed

lemma example_Commit:
  assumes "\<forall>i \<in> set ids. 0 \<le> i \<and> i < 20000" "blocks_found ids wanted"
  shows "\<exists>u'. up_Commit wanted (example_session (\<lambda>n. Ret (ok_response (blocks_answer ids))), 0) = (Ret (), (u', 2)) \<and>
    up_blockIds u' = ids"
  using assms(2) decode_blocks_answer [OF assms(1)]
  by (simp add: up_Commit_def up_Load_def up_newLoadRequest_def NewRequestWithUrlQuery_def mbind_def mseq_def mget_def
      mlift_def mret_def up_loadInformation_def on_env_def on_session_def example_session_def example_requests example_Do
      NewRequestWithParamsAndHeaders_def ok_response_def zero_UploadResModel_def zero_schemaResModel_def
      toTableSchema_def ToArrowSchema_def zero_TableSchema_def retried_def Retry_def numeral_3_eq_3 o_def)

theorem up_Commit_blocks_witness:
  "\<exists>u' req res m e1. up_Commit [1, 0] (example_session (\<lambda>n. Ret (ok_response (blocks_answer [0, 1]))), 0) = (Ret (), (u', 2)) \<and>
     up_newLoadRequest (example_session (\<lambda>n. Ret (ok_response (blocks_answer [0, 1])))) = Ret req \<and>
     Do (example_client (\<lambda>n. Ret (ok_response (blocks_answer [0, 1])))) req 0 = (Ret res, e1) \<and>
     json_Decode UploadResModel_json (rs_json res) zero_UploadResModel = Ret m \<and>
     set (map ub_BlockID (ur_UploadedBlockList m)) = {0, 1}"
proof -
  obtain u' where u': "up_Commit [1, 0] (example_session (\<lambda>n. Ret (ok_response (blocks_answer [0, 1]))), 0) = (Ret (), (u', 2))"
    using example_Commit [of "[0, 1]" "[1, 0]"] by (auto simp: blocks_found_def)
  have "up_RestClient (example_session a) = example_client a" for a by (simp add: example_session_def)
  with up_Commit_blocks [OF u'] u' show ?thesis by (simp add: insert_commute) blast
qed

text \<open>
  The check counts and searches but does not compare multiplicities: a caller who names one block
  twice in place of another gets the commit through, the other block included.
\<close>

theorem up_Commit_accepts_repeated_block:
  "\<exists>u'. up_Commit [1, 1] (example_session (\<lambda>n. Ret (ok_response (blocks_answer [1, 2]))), 0) = (Ret (), (u', 2)) \<and>
     up_blockIds u' = [1, 2]"
  by (rule example_Commit) (simp_all add: blocks_found_def)

subsection \<open>Readers read what was asked for\<close>

lemma FieldByName_name: "FieldByName schema n = Some c \<Longrightarrow> col_Name c = n"
proof -
  have "FieldByName_loop n cs = Some c \<Longrightarrow> col_Name c = n" for cs
    by (induction cs) (auto split: if_splits)
  then show "FieldByName schema n = Some c \<Longrightarrow> col_Name c = n" by (simp add: FieldByName_def)
qed

lemma find_columns_names: "find_columns schema names = Ret cs \<Longrightarrow> map col_Name cs = names"
  by (induction names arbitrary: cs)
    (auto simp: find_columns_def obind_Ret_iff split: option.splits dest: FieldByName_name)

text \<open>
  A record reader has one column for every requested name, in the order of the request, or for
  every column of the table when none is named.
\<close>

theorem ds_OpenRecordReader_columns:
  assumes "ds_OpenRecordReader decode ds start count names e = (Ret rd, e')"
  shows "map col_Name (rd_columns rd) = requested_columns (ds_schema ds) names"
  using assms
  by (auto simp: ds_OpenRecordReader_def Let_def mbind_Ret_iff mlift_def mret_def newRecordProtocReader_def
      dest: find_columns_names split: prod.splits)

definition example_download :: "(nat \<Rightarrow> HttpResponse outcome) \<Rightarrow> nat DownloadSession" where
  "example_download answers =
     (new_DownloadSession ''d'' ''p'' ''t'' [] (example_client answers) (newSessionConfig []))
       \<lparr>ds_schema := zero_TableSchema\<lparr>ts_Columns := [ex_column ''a'' (PrimitiveType BIGINT) None,
          ex_column ''b'' (PrimitiveType STRING) None]\<rparr>\<rparr>"

lemma example_OpenRecordReader:
  "\<exists>rd. ds_OpenRecordReader decode (example_download (\<lambda>n. Ret (ok_response JNull))) 0 10 [''b''] 0 = (Ret rd, 1)"
  by (simp add: ds_OpenRecordReader_def requested_columns_def find_columns_def FieldByName_def example_download_def
      new_DownloadSession_def newSessionConfig_def ds_newDownloadConnection_def NewRequestWithUrlQuery_def
      example_requests example_Do mbind_def mlift_def mret_def ok_response_def zero_TableSchema_def ex_column_def)

theorem ds_OpenRecordReader_columns_witness:
  "\<exists>rd. ds_OpenRecordReader (\<lambda>d b. b) (example_download (\<lambda>n. Ret (ok_response JNull))) 0 10 [''b''] 0 = (Ret rd, 1) \<and>
     map col_Name (rd_columns rd) = [''b'']"
proof -
  obtain rd where rd: "ds_OpenRecordReader (\<lambda>d b. b) (example_download (\<lambda>n. Ret (ok_response JNull))) 0 10 [''b''] 0 =
      (Ret rd, 1)"
    using example_OpenRecordReader by blast
  from ds_OpenRecordReader_columns [OF this] rd show ?thesis by (simp add: requested_columns_def)
qed

subsection \<open>Steps that keep a property of a session\<close>

text \<open>The outcomes of a step keep a property of the session.\<close>

definition keeps :: "('u \<Rightarrow> bool) \<Rightarrow> ('u \<times> 'e, 'a) M \<Rightarrow> bool" where
  "keeps P m \<longleftrightarrow> (\<forall>s. P (fst s) \<longrightarrow> P (fst (snd (m s))))"

lemma keepsD: "keeps P m \<Longrightarrow> P u \<Longrightarrow> m (u, e) = (r, (u', e')) \<Longrightarrow> P u'"
  unfolding keeps_def by (metis fst_conv snd_conv)

lemma keepsI: "(\<And>s. P (fst s) \<Longrightarrow> P (fst (snd (m s)))) \<Longrightarrow> keeps P m"
  by (simp add: keeps_def)

named_theorems keeps_intros

lemma keeps_mbind [keeps_intros]:
  assumes "keeps P m" "\<And>x. keeps P (f x)"
  shows "keeps P (mbind m f)"
proof (rule keepsI, goal_cases)
  case (1 s)
  then have "P (fst (snd (m s)))" using assms(1) unfolding keeps_def by blast
  then show ?case
    using assms(2) by (cases "m s") (auto simp: mbind_def keeps_def split: outcome.split)
qed

lemma keeps_mseq [keeps_intros]: "keeps P m \<Longrightarrow> keeps P n \<Longrightarrow> keeps P (mseq m n)"
  unfolding mseq_def by (intro keeps_intros)

lemma keeps_pure [keeps_intros]:
  "keeps P (mret x)" "keeps P (mfail e)" "keeps P (mpanic p)" "keeps P (mget g)" "keeps P (mlift r)"
  "keeps P (on_env cl m)"
  by (auto simp: keeps_def mret_def mfail_def mpanic_def mget_def mlift_def on_env_def split: prod.splits)

lemma keeps_on_session [keeps_intros]: "(\<And>u. P u \<Longrightarrow> P (f u)) \<Longrightarrow> keeps P (on_session f)"
  by (auto simp: keeps_def on_session_def)

end
