(* ===== verification/Slots.thy ===== *)
theory Slots
  imports RecordProtoc
begin

section \<open>Slots: \<open>slot.go\<close>\<close>

text \<open>
  Models \<open>odps/tunnel/slot.go\<close>. A slot is its id, the address and the port of its server; the
  selector is the list of slots and the index of the next one. Every method of the selector runs
  under its mutex, so a method is one step. The number that \<open>rand.Intn\<close> gives is an argument.
  The locale \<open>rotation\<close> is what the stream session relies on when it asks for slots.
\<close>

subsection \<open>A slot\<close>

record slot =
  sl_id :: string
  sl_ip :: string
  sl_port :: int

definition newSlot :: "string \<Rightarrow> string \<Rightarrow> slot outcome" where
  "newSlot i server =
     (case Split (CHR '':'') server of
        [ip, port] \<Rightarrow>
          if ip = [] then Fail (ErrMsg ''empty server ip'')
          else obind (Atoi port) (\<lambda>p. Ret \<lparr>sl_id = i, sl_ip = ip, sl_port = p\<rparr>)
      | _ \<Rightarrow> Fail (ErrMsg ''invalid slot format''))"

definition SetServer :: "string \<Rightarrow> (slot, unit) M" where
  "SetServer server s =
     (case Split (CHR '':'') server of
        [ip, port] \<Rightarrow>
          if ip = [] then (Fail (ErrMsg ''empty server ip''), s)
          else (case Atoi port of
                  Ret p \<Rightarrow> (Ret (), s\<lparr>sl_ip := ip, sl_port := p\<rparr>)
                | Fail e \<Rightarrow> (Fail e, s\<lparr>sl_ip := ip\<rparr>)
                | Panic q \<Rightarrow> (Panic q, s\<lparr>sl_ip := ip\<rparr>))
      | _ \<Rightarrow> (Fail (ErrMsg ''invalid slot format''), s))"

definition Server :: "slot \<Rightarrow> string" where
  "Server s = sl_ip s @ '':'' @ Itoa (sl_port s)"

subsection \<open>The selector\<close>

record slotSelector =
  sel_index :: nat
  sel_arr :: "slot list"

definition Reset :: "slot list \<Rightarrow> nat \<Rightarrow> slotSelector \<Rightarrow> slotSelector" where
  "Reset arr rand s = (if arr = [] then s else s\<lparr>sel_arr := arr, sel_index := rand mod length arr\<rparr>)"

definition newSlotSelect :: "slot list \<Rightarrow> nat \<Rightarrow> slotSelector" where
  "newSlotSelect arr rand = Reset arr rand \<lparr>sel_index = 0, sel_arr = []\<rparr>"

definition NextSlot :: "(slotSelector, slot) M" where
  "NextSlot s =
     (if sel_arr s = []
      then (Fail (ErrMsg ''no slot is available in the stream upload session''), s)
      else let i = (if sel_index s \<ge> length (sel_arr s) then 0 else sel_index s)
           in (Ret (sel_arr s ! i), s\<lparr>sel_index := i + 1\<rparr>))"

fun UpdateServer_loop :: "string \<Rightarrow> string \<Rightarrow> slot list \<Rightarrow> unit outcome \<times> slot list" where
  "UpdateServer_loop slotId server [] =
     (Fail (ErrMsg (''slot '' @ slotId @ '' is no longer owned by the session'')), [])"
| "UpdateServer_loop slotId server (x # xs) =
     (if sl_id x = slotId
      then (case SetServer server x of (r, x') \<Rightarrow> (r, x' # xs))
      else (case UpdateServer_loop slotId server xs of (r, xs') \<Rightarrow> (r, x # xs')))"

definition UpdateServer :: "string \<Rightarrow> string \<Rightarrow> (slotSelector, unit) M" where
  "UpdateServer slotId server s =
     (case UpdateServer_loop slotId server (sel_arr s) of (r, arr) \<Rightarrow> (r, s\<lparr>sel_arr := arr\<rparr>))"

definition SlotNum :: "slotSelector \<Rightarrow> int" where
  "SlotNum s = int (length (sel_arr s))"

subsection \<open>Addresses\<close>

lemma Itoa_no_colon: "CHR '':'' \<notin> set (Itoa i)"
proof -
  have "\<not> is_digit (CHR '':'')" by (simp add: is_digit_def less_eq_char_def)
  then have "CHR '':'' \<notin> set (show_nat n)" for n
    using show_nat_all_digits [of n] by (auto simp: list_all_iff)
  then show ?thesis by (simp add: Itoa_def)
qed

lemma Atoi_range: "Atoi s = Ret i \<Longrightarrow> - (2 ^ 63) \<le> i \<and> i < 2 ^ 63"
  by (auto simp: Atoi_def ParseInt_def Let_def split: if_splits option.splits list.splits prod.splits)

lemma Split_no_sep_parts: "p \<in> set (Split sep s) \<Longrightarrow> sep \<notin> set p"
  by (induction s arbitrary: p) (auto split: list.splits if_splits)

lemma newSlot_Ret:
  "newSlot i server = Ret s \<longleftrightarrow>
     (\<exists>ip port p. Split (CHR '':'') server = [ip, port] \<and> ip \<noteq> [] \<and> Atoi port = Ret p \<and>
        s = \<lparr>sl_id = i, sl_ip = ip, sl_port = p\<rparr>)"
  by (auto simp: newSlot_def obind_Ret_iff split: list.splits)

lemma newSlot_Server:
  assumes "sl_ip s \<noteq> []" "CHR '':'' \<notin> set (sl_ip s)" "- (2 ^ 63) \<le> sl_port s" "sl_port s < 2 ^ 63"
  shows "newSlot i (Server s) = Ret (s\<lparr>sl_id := i\<rparr>)"
proof -
  have "Split (CHR '':'') (Server s) = [sl_ip s, Itoa (sl_port s)]"
    using assms(2) Itoa_no_colon by (simp add: Server_def Split_append_sep Split_no_sep)
  moreover have "Atoi (Itoa (sl_port s)) = Ret (sl_port s)"
    unfolding Atoi_def using assms(3,4) by (intro ParseInt_Itoa) simp_all
  ultimately show ?thesis using assms(1) by (simp add: newSlot_def)
qed

subsection \<open>Rotation\<close>

locale rotation =
  fixes next_elem :: "('s, 'a) M" and elems :: "'s \<Rightarrow> 'a list" and pos :: "'s \<Rightarrow> nat"
  assumes pos_less: "elems s \<noteq> [] \<Longrightarrow> pos s < length (elems s)"
    and next_step: "elems s \<noteq> [] \<Longrightarrow> \<exists>s'. next_elem s = (Ret (elems s ! pos s), s') \<and> elems s' = elems s \<and>
          pos s' = Suc (pos s) mod length (elems s)"
begin

lemma draws:
  assumes "elems s \<noteq> []"
  shows "\<exists>s'. read_times n next_elem s =
      (Ret (map (\<lambda>k. elems s ! ((pos s + k) mod length (elems s))) [0..<n]), s') \<and>
    elems s' = elems s \<and> pos s' = (pos s + n) mod length (elems s)"
  using assms
proof (induction n arbitrary: s)
  case 0
  then show ?case using pos_less by (simp add: mret_def)
next
  case (Suc n)
  obtain s1 where s1: "next_elem s = (Ret (elems s ! pos s), s1)" "elems s1 = elems s"
    "pos s1 = Suc (pos s) mod length (elems s)"
    using next_step [OF Suc.prems] by blast
  obtain s2 where s2: "read_times n next_elem s1 =
      (Ret (map (\<lambda>k. elems s ! ((pos s1 + k) mod length (elems s))) [0..<n]), s2)"
    "elems s2 = elems s" "pos s2 = (pos s1 + n) mod length (elems s)"
    using Suc.IH [of s1] Suc.prems s1(2) by auto
  have shift: "(pos s1 + k) mod length (elems s) = (pos s + Suc k) mod length (elems s)" for k
    unfolding s1(3) by (metis mod_add_left_eq add_Suc_shift)
  have "map (\<lambda>k. elems s ! ((pos s + k) mod length (elems s))) [0..<Suc n] =
      elems s ! pos s # map (\<lambda>k. elems s ! ((pos s1 + k) mod length (elems s))) [0..<n]"
    using pos_less [OF Suc.prems] by (simp add: map_upt_Suc shift del: upt_Suc)
  then show ?case
    using s1 s2 shift [of n] by (simp add: mbind_def mret_def)
qed

lemma full_turn:
  assumes "elems s \<noteq> []"
  shows "\<exists>s'. read_times (length (elems s)) next_elem s = (Ret (rotate (pos s) (elems s)), s') \<and>
    elems s' = elems s \<and> pos s' = pos s"
proof -
  have "map (\<lambda>k. elems s ! ((pos s + k) mod length (elems s))) [0..<length (elems s)] = rotate (pos s) (elems s)"
    by (rule nth_equalityI) (simp_all add: nth_rotate)
  then show ?thesis using draws [OF assms, of "length (elems s)"] pos_less [OF assms] by simp
qed

end

definition sel_pos :: "slotSelector \<Rightarrow> nat" where
  "sel_pos s = (if sel_index s \<ge> length (sel_arr s) then 0 else sel_index s)"

interpretation slots: rotation NextSlot sel_arr sel_pos
proof
  fix s :: slotSelector
  assume "sel_arr s \<noteq> []"
  then show "sel_pos s < length (sel_arr s)" by (simp add: sel_pos_def)
  show "\<exists>s'. NextSlot s = (Ret (sel_arr s ! sel_pos s), s') \<and> sel_arr s' = sel_arr s \<and>
      sel_pos s' = Suc (sel_pos s) mod length (sel_arr s)"
    using \<open>sel_arr s \<noteq> []\<close>
    by (auto simp: NextSlot_def sel_pos_def Let_def mod_less Suc_le_eq le_Suc_eq not_le intro: antisym)
qed

lemma UpdateServer_loop_ids: "map sl_id (snd (UpdateServer_loop i server xs)) = map sl_id xs"
  by (induction xs) (auto simp: SetServer_def split: prod.splits list.splits outcome.splits)

lemma UpdateServer_frame_ids:
  "map sl_id (sel_arr (snd (UpdateServer i server s))) = map sl_id (sel_arr s)"
  using UpdateServer_loop_ids [of i server "sel_arr s"] by (auto simp: UpdateServer_def split: prod.splits)

subsection \<open>Properties\<close>

text \<open>
  C22. The selector is fair: whatever its index, as many calls of \<open>NextSlot\<close> as there are slots return
  every slot exactly once, in the order of the list from the current position on, and leave the
  list and the position as they were.
\<close>

theorem NextSlot_fair:
  assumes "sel_arr s \<noteq> []"
  shows "\<exists>s'. read_times (length (sel_arr s)) NextSlot s = (Ret (rotate (sel_pos s) (sel_arr s)), s') \<and>
    sel_arr s' = sel_arr s \<and> sel_pos s' = sel_pos s"
  using assms by (rule slots.full_turn)

theorem NextSlot_fair_witness:
  "let a = \<lparr>sl_id = ''0'', sl_ip = ''a'', sl_port = 1\<rparr>; b = \<lparr>sl_id = ''1'', sl_ip = ''b'', sl_port = 2\<rparr>;
       s = newSlotSelect [a, b] 1
   in \<exists>s'. read_times (length (sel_arr s)) NextSlot s = (Ret (rotate (sel_pos s) (sel_arr s)), s') \<and>
    sel_arr s' = sel_arr s \<and> sel_pos s' = sel_pos s"
  unfolding Let_def by (rule NextSlot_fair) (simp add: newSlotSelect_def Reset_def)

text \<open>
  The address of a slot reads back: from the server that a slot made by \<open>newSlot\<close> prints,
  \<open>newSlot\<close> makes that slot again.
\<close>

theorem newSlot_Server_roundtrip:
  assumes "newSlot i server = Ret s"
  shows "newSlot i (Server s) = Ret s"
proof -
  obtain ip port p where *: "Split (CHR '':'') server = [ip, port]" "ip \<noteq> []" "Atoi port = Ret p"
    "s = \<lparr>sl_id = i, sl_ip = ip, sl_port = p\<rparr>"
    using assms by (auto simp: newSlot_Ret)
  then have "CHR '':'' \<notin> set ip" using Split_no_sep_parts [of ip "CHR '':''" server] by simp
  then show ?thesis using newSlot_Server [of s i] * Atoi_range [OF *(3)] by simp
qed

theorem newSlot_Server_roundtrip_witness:
  "newSlot ''7'' (Server \<lparr>sl_id = ''7'', sl_ip = ''10.0.0.1'', sl_port = 8081\<rparr>) =
     Ret \<lparr>sl_id = ''7'', sl_ip = ''10.0.0.1'', sl_port = 8081\<rparr>"
  by (rule newSlot_Server_roundtrip [where server = "''10.0.0.1:8081''"])
    (simp add: newSlot_def Atoi_def ParseInt_def parse_digits_def is_digit_def digits_val_def digit_val_def
      less_eq_char_def)

text \<open>
  Recording a new server touches nothing but the server of the first slot with the given id:
  the ids, the number and the order of the slots and the position of the selector stay.
\<close>

theorem UpdateServer_frame:
  "map sl_id (sel_arr (snd (UpdateServer i server s))) = map sl_id (sel_arr s) \<and>
   sel_index (snd (UpdateServer i server s)) = sel_index s"
  using UpdateServer_frame_ids [of i server s] by (auto simp: UpdateServer_def split: prod.splits)

text \<open>
  \<open>SetServer\<close> is not atomic: when only the port is unusable it returns the error of \<open>strconv.Atoi\<close>
  with the new address already stored beside the old port.
\<close>

theorem SetServer_bad_port_moves_address:
  assumes "ip \<noteq> []" "CHR '':'' \<notin> set ip" "CHR '':'' \<notin> set port" "Atoi port = Fail e"
  shows "SetServer (ip @ '':'' @ port) s = (Fail e, s\<lparr>sl_ip := ip\<rparr>)"
  using assms by (simp add: SetServer_def Split_append_sep Split_no_sep)

theorem SetServer_bad_port_moves_address_witness:
  "sl_ip (snd (SetServer (''b'' @ '':'' @ ''x'') \<lparr>sl_id = ''0'', sl_ip = ''a'', sl_port = 1\<rparr>)) = ''b''"
  using SetServer_bad_port_moves_address [of "''b''" "''x''"]
  by (simp add: Atoi_def ParseInt_def parse_digits_def is_digit_def less_eq_char_def)

end
