(* ===== verification/StreamSessions.thy ===== *)
theory StreamSessions
  imports SessionBase Slots BatchSessions
begin

section \<open>Stream upload sessions: \<open>stream_upload_session.go\<close>\<close>

text \<open>
  Models \<open>odps/tunnel/stream_upload_session.go\<close>.
  \<^item> A method transforms the pair of the session and the environment of its REST client. The
    mutexes make \<open>markSlotsStale\<close>, \<open>takeSlotsStale\<close> and the selector's methods atomic steps; what
    several flushes of one session can do in between is the subject of \<open>stale_run\<close>.
  \<^item> Given by the environment: the random number of \<open>rand.Intn\<close> (\<open>rnd\<close>), whether the upload
    connection takes all the bytes before it is closed (\<open>pipe\<close>: the error of \<open>Write\<close> or \<open>Close\<close>, if any),
    and the compressors' encodings (\<open>encode\<close>, third-party code).
  \<^item> \<open>bytesRecordWriter\<close> counts what the compressor hands on, the length of the encoded bytes.
  \<^item> The float that JSON gives for a slot id is taken as the integer it was written as.
\<close>

subsection \<open>The session\<close>

record 'e StreamUploadSession =
  su_id :: string
  su_ProjectName :: string
  su_SchemaName :: string
  su_TableName :: string
  su_partitionKey :: string
  su_Compressor :: "Compressor option"
  su_RestClient :: "'e RestClient"
  su_Columns :: "string list"
  su_P2PMode :: bool
  su_CreatePartition :: bool
  su_QuotaName :: string
  su_SlotNum :: int
  su_slotSelector :: slotSelector
  su_schema :: TableSchema
  su_schemaVersion :: int
  su_allowSchemaMismatch :: bool
  su_slotsStale :: bool

definition su_ResourceUrl :: "'e StreamUploadSession \<Rightarrow> string" where
  "su_ResourceUrl su =
     rb_Table (NewResourceBuilder (su_ProjectName su)) (su_SchemaName su) (su_TableName su) @ StreamsPath"

definition su_newInitiationRequest :: "'e StreamUploadSession \<Rightarrow> HttpRequest outcome" where
  "su_newInitiationRequest su =
     NewRequestWithParamsAndHeaders (su_RestClient su) PostMethod (su_ResourceUrl su)
       (Some (set_if (su_QuotaName su \<noteq> []) ''quotaName'' (su_QuotaName su)
         (set_if (su_schemaVersion su \<ge> 0) ''schema_version'' (Itoa (su_schemaVersion su))
         (set_if (su_Columns su \<noteq> []) ''zorder_columns'' (Join (su_Columns su) '','')
         (set_if (su_CreatePartition su) ''create_partition'' []
         (set_if (su_partitionKey su \<noteq> []) ''partition'' (su_partitionKey su) Map.empty))))))
       (set_if (su_SlotNum su > 0) HttpHeaderOdpsSlotNum (Itoa (su_SlotNum su)) getCommonHeaders)"

definition su_newReLoadRequest :: "'e StreamUploadSession \<Rightarrow> HttpRequest outcome" where
  "su_newReLoadRequest su =
     NewRequestWithParamsAndHeaders (su_RestClient su) PostMethod (su_ResourceUrl su)
       (Some (set_if (su_QuotaName su \<noteq> []) ''quotaName'' (su_QuotaName su)
         (set_if (su_partitionKey su \<noteq> []) ''partition'' (su_partitionKey su)
         (set_if (su_schemaVersion su \<ge> 0) ''schema_version'' (Itoa (su_schemaVersion su))
           [''uploadid'' \<mapsto> su_id su]))))
       getCommonHeaders"

subsection \<open>\<open>loadInformation\<close>\<close>

record StreamResModel =
  sr_CompressMode :: string
  sr_FileFormat :: string
  sr_Schema :: schemaResModel
  sr_SessionName :: string
  sr_Slots :: "json list list"
  sr_Status :: string
  sr_QuotaName :: string
  sr_SchemaVersion :: int

definition zero_StreamResModel :: StreamResModel where
  "zero_StreamResModel = \<lparr>sr_CompressMode = [], sr_FileFormat = [], sr_Schema = zero_schemaResModel,
     sr_SessionName = [], sr_Slots = [], sr_Status = [], sr_QuotaName = [], sr_SchemaVersion = 0\<rparr>"

fun jany_list :: "json \<Rightarrow> json list outcome" where
  "jany_list (JArr vs) = Ret vs"
| "jany_list JNull = Ret []"
| "jany_list _ = Fail json_type_error"

definition StreamResModel_json :: "(string \<times> StreamResModel jfield) list" where
  "StreamResModel_json =
     [(''compress_mode'', jstring (\<lambda>v. sr_CompressMode_update (\<lambda>_. v))),
      (''file_format'', jstring (\<lambda>v. sr_FileFormat_update (\<lambda>_. v))),
      (''schema'', \<lambda>j s. obind (jstruct schemaResModel_json j (sr_Schema s)) (\<lambda>m. Ret (s\<lparr>sr_Schema := m\<rparr>))),
      (''session_name'', jstring (\<lambda>v. sr_SessionName_update (\<lambda>_. v))),
      (''slots'', jlist jany_list (\<lambda>v. sr_Slots_update (\<lambda>_. v))),
      (''status'', jstring (\<lambda>v. sr_Status_update (\<lambda>_. v))),
      (''quota_name'', jstring (\<lambda>v. sr_QuotaName_update (\<lambda>_. v))),
      (''schema_version'', jint (\<lambda>v. sr_SchemaVersion_update (\<lambda>_. v)))]"

fun slot_id :: "json \<Rightarrow> string outcome" where
  "slot_id (JInt i) = Ret (Itoa i)"
| "slot_id (JFrac i) = Ret (Itoa i)"
| "slot_id _ = Panic TypeAssertion"

fun slot_server :: "json list \<Rightarrow> string outcome" where
  "slot_server [] = Panic IndexOutOfRange"
| "slot_server (JStr s # _) = Ret s"
| "slot_server (_ # _) = Panic TypeAssertion"

fun load_slot :: "json list \<Rightarrow> slot outcome" where
  "load_slot [] = Panic IndexOutOfRange"
| "load_slot (x # xs) = obind (slot_id x) (\<lambda>i. obind (slot_server xs) (newSlot i))"

definition su_loadInformation ::
    "('e \<Rightarrow> nat) \<Rightarrow> HttpRequest \<Rightarrow> bool \<Rightarrow> ('e StreamUploadSession \<times> 'e, unit) M" where
  "su_loadInformation rnd req inited =
     mbind (mget (\<lambda>s. su_RestClient (fst s))) (\<lambda>cl.
     mbind (on_env su_RestClient (Do cl req)) (\<lambda>res.
     mbind (mlift (json_Decode StreamResModel_json (rs_json res) zero_StreamResModel)) (\<lambda>resModel.
     if sr_Status resModel = ''init'' then mfail (ErrMsg ''Session is initiating'')
     else mseq
       (if inited
        then mbind (mget (\<lambda>s. su_TableName (fst s))) (\<lambda>tableName.
             mbind (mlift (toTableSchema (sr_Schema resModel) tableName)) (\<lambda>tableSchema.
             on_session (\<lambda>su. su\<lparr>su_id := sr_SessionName resModel, su_schema := tableSchema,
               su_schemaVersion := sr_SchemaVersion resModel,
               su_QuotaName := (if sr_QuotaName resModel \<noteq> [] then sr_QuotaName resModel else su_QuotaName su)\<rparr>)))
        else mret ())
       (mbind (mlift (omap_list load_slot (sr_Slots resModel))) (\<lambda>slots.
        if inited \<and> slots = [] then mfail (ErrMsg ''No slot is returned when creating the stream upload session'')
        else mbind (mget (\<lambda>s. rnd (snd s))) (\<lambda>r.
             on_session (su_slotSelector_update (Reset slots r))))))))"

definition CreateStreamUploadSession ::
    "('e \<Rightarrow> nat) \<Rightarrow> string \<Rightarrow> string \<Rightarrow> 'e RestClient \<Rightarrow> Option list \<Rightarrow> 'e \<Rightarrow>
     'e StreamUploadSession outcome \<times> 'e" where
  "CreateStreamUploadSession rnd projectName tableName restClient opts e =
     (let cfg = newSessionConfig opts;
          session = \<lparr>su_id = [], su_ProjectName = projectName, su_SchemaName = sc_SchemaName cfg,
            su_TableName = tableName, su_partitionKey = sc_PartitionKey cfg, su_Compressor = sc_Compressor cfg,
            su_RestClient = restClient, su_Columns = sc_Columns cfg, su_P2PMode = False,
            su_CreatePartition = sc_CreatePartition cfg, su_QuotaName = [], su_SlotNum = sc_SlotNum cfg,
            su_slotSelector = newSlotSelect [] 0, su_schema = zero_TableSchema,
            su_schemaVersion = sc_SchemaVersion cfg, su_allowSchemaMismatch = sc_AllowSchemaMismatch cfg,
            su_slotsStale = False\<rparr>
      in case mbind (mlift (su_newInitiationRequest session)) (\<lambda>req. su_loadInformation rnd req True) (session, e) of
           (r, (su, e')) \<Rightarrow> (obind r (\<lambda>_. Ret su), e'))"

definition reloadSlotNum :: "('e \<Rightarrow> nat) \<Rightarrow> ('e StreamUploadSession \<times> 'e, unit) M" where
  "reloadSlotNum rnd =
     mbind (mget (\<lambda>s. su_newReLoadRequest (fst s))) (\<lambda>r.
     mbind (mlift r) (\<lambda>req. su_loadInformation rnd req False))"

subsection \<open>The stale mark\<close>

definition markSlotsStale :: "'e StreamUploadSession \<Rightarrow> 'e StreamUploadSession" where
  "markSlotsStale su = su\<lparr>su_slotsStale := True\<rparr>"

definition takeSlotsStale :: "'e StreamUploadSession \<Rightarrow> bool \<times> 'e StreamUploadSession" where
  "takeSlotsStale su = (su_slotsStale su, su\<lparr>su_slotsStale := False\<rparr>)"

text \<open>An error is swallowed and leaves the mark; a panic goes through.\<close>

definition or_mark_stale :: "('e StreamUploadSession \<times> 'e, unit) M \<Rightarrow> ('e StreamUploadSession \<times> 'e, unit) M" where
  "or_mark_stale m s =
     (case m s of
        (Fail err, (su, e)) \<Rightarrow> (Ret (), (markSlotsStale su, e))
      | r \<Rightarrow> r)"

definition reloadSlotsIfStale :: "('e \<Rightarrow> nat) \<Rightarrow> ('e StreamUploadSession \<times> 'e, unit) M" where
  "reloadSlotsIfStale rnd s =
     (case takeSlotsStale (fst s) of (stale, su) \<Rightarrow>
        if \<not> stale then (Ret (), (su, snd s)) else or_mark_stale (reloadSlotNum rnd) (su, snd s))"

definition slotRoutingIsStale :: "goerr \<Rightarrow> bool" where
  "slotRoutingIsStale err = (case err of ErrHttp code status retry \<Rightarrow> code \<in> {308, 502, 504} | _ \<Rightarrow> True)"

definition flushFailed :: "goerr \<Rightarrow> ('e StreamUploadSession \<times> 'e, 'a) M" where
  "flushFailed err s =
     (Fail err, (if slotRoutingIsStale err then markSlotsStale (fst s) else fst s, snd s))"

definition on_selector :: "(slotSelector, 'a) M \<Rightarrow> ('e StreamUploadSession \<times> 'e, 'a) M" where
  "on_selector m s =
     (case m (su_slotSelector (fst s)) of (r, sel) \<Rightarrow> (r, ((fst s)\<lparr>su_slotSelector := sel\<rparr>, snd s)))"

definition refreshSlotRouting ::
    "('e \<Rightarrow> nat) \<Rightarrow> slot \<Rightarrow> string \<Rightarrow> string \<Rightarrow> ('e StreamUploadSession \<times> 'e, unit) M" where
  "refreshSlotRouting rnd currentSlot slotNumStr newSlotServer s =
     (case Atoi slotNumStr of
        Ret newSlotNum \<Rightarrow>
          if newSlotNum \<noteq> SlotNum (su_slotSelector (fst s)) then or_mark_stale (reloadSlotNum rnd) s
          else if newSlotServer = [] \<or> newSlotServer = Server currentSlot then (Ret (), s)
          else or_mark_stale (on_selector (UpdateServer (sl_id currentSlot) newSlotServer)) s
      | _ \<Rightarrow> (Ret (), (markSlotsStale (fst s), snd s)))"

subsection \<open>\<open>flushStream\<close>\<close>

text \<open>
  The scheme of an endpoint, as \<open>url.Parse\<close> finds it. The code uses the result of a failed parse, a
  nil dereference.
\<close>

fun getScheme :: "string \<Rightarrow> string \<Rightarrow> string outcome" where
  "getScheme seen [] = Ret []"
| "getScheme seen (c # cs) =
     (if is_letter c then getScheme (seen @ [c]) cs
      else if is_digit c \<or> c \<in> {CHR ''+'', CHR ''-'', CHR ''.''}
        then if seen = [] then Ret [] else getScheme (seen @ [c]) cs
      else if c = CHR '':'' then if seen = [] then Panic NilDereference else Ret (ToLower seen)
      else Ret [])"

definition upload_endpoint :: "'e StreamUploadSession \<Rightarrow> slot \<Rightarrow> string outcome" where
  "upload_endpoint su currentSlot =
     (let endpoint = rc_endpoint (su_RestClient su) in
      if \<not> su_P2PMode su then Ret endpoint
      else if \<not> rc_url_ok (su_RestClient su) endpoint then Panic NilDereference
      else obind (getScheme [] endpoint) (\<lambda>scheme.
        Ret ((if scheme = [] then [] else scheme @ '':'') @ ''//'' @ sl_ip currentSlot)))"

definition upload_headers :: "'e StreamUploadSession \<Rightarrow> slot \<Rightarrow> int \<Rightarrow> Values" where
  "upload_headers su currentSlot dataSize =
     (let h0 = (if dataSize < 0 then getCommonHeaders(HttpHeaderTransferEncoding \<mapsto> ''chunked'')
                else getCommonHeaders(HttpHeaderContentLength \<mapsto> Itoa dataSize));
          h1 = h0(HttpHeaderContentType \<mapsto> ''application/octet-stream'',
                  HttpHeaderOdpsSlotNum \<mapsto> Itoa (SlotNum (su_slotSelector su)));
          h2 = (case su_Compressor su of
                  None \<Rightarrow> h1 | Some c \<Rightarrow> h1(HttpHeaderContentEncoding \<mapsto> Compressor_Name c))
      in h2(HttpHeaderRoutedServer \<mapsto> Server currentSlot))"

definition upload_request :: "'e StreamUploadSession \<Rightarrow> slot \<Rightarrow> int \<Rightarrow> int \<Rightarrow> HttpRequest outcome" where
  "upload_request su currentSlot dataSize recordCount =
     NewRequestWithParamsAndHeaders (su_RestClient su) PutMethod (su_ResourceUrl su)
       (Some ((set_if (su_QuotaName su \<noteq> []) ''quotaName'' (su_QuotaName su)
         (set_if (su_Columns su \<noteq> []) ''zorder_columns'' (Join (su_Columns su) '','')
         (set_if (recordCount > 0) ''record_count'' (Itoa recordCount)
         (set_if (su_partitionKey su \<noteq> []) ''partition'' (su_partitionKey su)
         (set_if (su_schemaVersion su \<ge> 0) ''schema_version'' (Itoa (su_schemaVersion su))
           [''uploadid'' \<mapsto> su_id su, ''slotid'' \<mapsto> sl_id currentSlot])))))
         (''check_latest_schema'' \<mapsto> (if su_allowSchemaMismatch su then ''false'' else ''true''))))
       (upload_headers su currentSlot dataSize)"

text \<open>
  \<open>newUploadConnection\<close>: the request and the client that sends it, whose endpoint is only signed.
\<close>

definition su_newUploadConnection ::
    "'e StreamUploadSession \<Rightarrow> slot \<Rightarrow> int \<Rightarrow> int \<Rightarrow> int \<Rightarrow> (httpConnection \<times> 'e RestClient) outcome" where
  "su_newUploadConnection su currentSlot dataSize recordCount timeout =
     obind (upload_request su currentSlot dataSize recordCount) (\<lambda>req.
     obind (upload_endpoint su currentSlot) (\<lambda>endpoint.
     Ret (newHttpConnection req (su_Compressor su),
       (NewOdpsRestClient (su_RestClient su) endpoint)
         \<lparr>rc_TcpConnectionTimeout := rc_TcpConnectionTimeout (su_RestClient su),
          rc_HttpTimeout := (if timeout > 0 then timeout else rc_HttpTimeout (su_RestClient su))\<rparr>)))"

record 'e upload_env =
  ue_rnd :: "'e \<Rightarrow> nat"
  ue_pipe :: "HttpRequest \<Rightarrow> 'e \<Rightarrow> goerr option \<times> 'e"
  ue_encode :: "encoder option \<Rightarrow> byte list \<Rightarrow> byte list"

text \<open>
  \<open>flushStream\<close> up to the point where the response of the server is at hand. When the bytes could
  not be written the answer of the server, if it is an error, takes precedence.
\<close>

definition send_flush ::
    "'e upload_env \<Rightarrow> byte list \<Rightarrow> int \<Rightarrow> int \<Rightarrow> ('e StreamUploadSession \<times> 'e, slot \<times> HttpResponse \<times> nat) M" where
  "send_flush ue buffer recordCount timeout =
     mseq (reloadSlotsIfStale (ue_rnd ue))
     (mbind (on_selector NextSlot) (\<lambda>currentSlot.
     mbind (mget (\<lambda>s. su_newUploadConnection (fst s) currentSlot (int (length buffer)) recordCount timeout)) (\<lambda>c.
     mbind (mlift c) (\<lambda>(conn, client).
     let encoded = ue_encode ue (hc_encoder conn) buffer;
         req = (hc_request conn)\<lparr>rq_body := encoded\<rparr>
     in mbind (on_env su_RestClient (\<lambda>e. case ue_pipe ue req e of (w, e') \<Rightarrow> (Ret w, e'))) (\<lambda>written.
        mbind (on_env su_RestClient (\<lambda>e. case Do client req e of (r, e') \<Rightarrow> (Ret r, e'))) (\<lambda>rOrE.
        case written of
          Some err \<Rightarrow> (case closeRes rOrE of
              Ret _ \<Rightarrow> flushFailed err | Fail closeError \<Rightarrow> flushFailed closeError | Panic p \<Rightarrow> mpanic p)
        | None \<Rightarrow> (case rOrE of
              Ret res \<Rightarrow> mret (currentSlot, res, length encoded)
            | Fail err \<Rightarrow> flushFailed err | Panic p \<Rightarrow> mpanic p)))))))"

definition flushStream ::
    "'e upload_env \<Rightarrow> byte list \<Rightarrow> int \<Rightarrow> int \<Rightarrow> ('e StreamUploadSession \<times> 'e, string \<times> nat) M" where
  "flushStream ue buffer recordCount timeout =
     mbind (send_flush ue buffer recordCount timeout) (\<lambda>(currentSlot, res, bytesSent).
     mseq (refreshSlotRouting (ue_rnd ue) currentSlot (Header_Get (rs_Header res) HttpHeaderOdpsSlotNum)
             (Header_Get (rs_Header res) HttpHeaderRoutedServer))
       (mret (Header_Get (rs_Header res) HttpHeaderOdpsRequestId, bytesSent)))"

subsection \<open>A flush that reached the server is never reported as failed\<close>

lemma or_mark_stale_not_Fail: "fst (or_mark_stale m s) \<noteq> Fail err"
  by (auto simp: or_mark_stale_def split: prod.splits outcome.splits)

lemma refreshSlotRouting_not_Fail: "refreshSlotRouting rnd sl num server s \<noteq> (Fail err, s')"
  using or_mark_stale_not_Fail [of _ s err]
  by (auto simp: refreshSlotRouting_def split: outcome.splits dest: arg_cong [of _ _ fst])

lemma flush_fails_in_send:
  "flushStream ue buffer n timeout s = (Fail err, s') \<longleftrightarrow> send_flush ue buffer n timeout s = (Fail err, s')"
proof
  assume "flushStream ue buffer n timeout s = (Fail err, s')"
  then show "send_flush ue buffer n timeout s = (Fail err, s')"
    unfolding flushStream_def mseq_def
    by (auto elim!: mbind_FailE simp: mret_def) (metis refreshSlotRouting_not_Fail)
qed (simp add: flushStream_def mbind_def)

subsection \<open>A created session always has a slot\<close>

definition usable :: "'e StreamUploadSession \<Rightarrow> bool" where
  "usable su \<longleftrightarrow> sel_arr (su_slotSelector su) \<noteq> []"

lemma keeps_or_mark_stale [keeps_intros]:
  assumes "\<And>u. P u \<Longrightarrow> P (markSlotsStale u)" "keeps P m"
  shows "keeps P (or_mark_stale m)"
proof (rule keepsI, goal_cases)
  case (1 s)
  then have "P (fst (snd (m s)))" using assms(2) unfolding keeps_def by blast
  then show ?case
    using assms(1) by (cases "m s") (auto simp: or_mark_stale_def split: outcome.split prod.split)
qed

lemma keeps_flushFailed [keeps_intros]:
  "(\<And>u. P u \<Longrightarrow> P (markSlotsStale u)) \<Longrightarrow> keeps P (flushFailed err)"
  by (auto simp: keeps_def flushFailed_def)

lemma usable_simps [simp]:
  "usable (markSlotsStale su) = usable su" "usable (su\<lparr>su_slotsStale := b\<rparr>) = usable su"
  by (simp_all add: usable_def markSlotsStale_def)

lemma usable_loadInformation: "keeps usable (su_loadInformation rnd req inited)"
  unfolding su_loadInformation_def
  by (auto intro!: keeps_intros simp: usable_def Reset_def)

lemma usable_reloadSlotNum: "keeps usable (reloadSlotNum rnd)"
  unfolding reloadSlotNum_def by (intro keeps_intros usable_loadInformation)

lemma usable_reloadSlotsIfStale: "keeps usable (reloadSlotsIfStale rnd)"
proof (rule keepsI, goal_cases)
  case (1 s)
  moreover have "keeps usable (or_mark_stale (reloadSlotNum rnd))"
    by (intro keeps_intros usable_reloadSlotNum) simp
  ultimately show ?case
    by (simp add: reloadSlotsIfStale_def takeSlotsStale_def keeps_def)
qed

lemma UpdateServer_nonempty: "UpdateServer i server sel = (r, sel') \<Longrightarrow> sel_arr sel' = [] \<longleftrightarrow> sel_arr sel = []"
  using UpdateServer_frame_ids [of i server sel] by (auto dest: arg_cong [of _ _ length])

lemma usable_selector: "keeps usable (on_selector NextSlot)" "keeps usable (on_selector (UpdateServer i server))"
  by (auto simp: keeps_def on_selector_def usable_def NextSlot_def Let_def UpdateServer_nonempty
      split: prod.splits)

lemma usable_refreshSlotRouting: "keeps usable (refreshSlotRouting rnd sl num server)"
proof (rule keepsI, goal_cases)
  case (1 s)
  have reload: "keeps usable (or_mark_stale (reloadSlotNum rnd))"
    by (intro keeps_intros usable_reloadSlotNum) simp
  have update: "keeps usable (or_mark_stale (on_selector (UpdateServer (sl_id sl) server)))"
    by (intro keeps_intros usable_selector) simp
  show ?case
    using 1 reload update by (cases s) (auto simp: refreshSlotRouting_def keeps_def split: outcome.split)
qed

lemma usable_send_flush: "keeps usable (send_flush ue buffer n timeout)"
  unfolding send_flush_def Let_def
  by (auto intro!: keeps_intros usable_reloadSlotsIfStale usable_selector split: option.split outcome.split)

lemma usable_flushStream: "keeps usable (flushStream ue buffer n timeout)"
  unfolding flushStream_def
  by (auto intro!: keeps_intros usable_send_flush usable_refreshSlotRouting)

inductive stream_reach :: "'e upload_env \<Rightarrow> 'e StreamUploadSession \<Rightarrow> bool" for ue where
  created: "CreateStreamUploadSession (ue_rnd ue) project table rc opts e = (Ret su, e') \<Longrightarrow> stream_reach ue su"
| flushed: "stream_reach ue su \<Longrightarrow> flushStream ue buffer n timeout (su, e) = (r, (su', e')) \<Longrightarrow> stream_reach ue su'"

lemma loadInformation_inited_usable:
  assumes "su_loadInformation rnd req True (su, e) = (Ret (), (su', e'))"
  shows "usable su'"
  using assms unfolding su_loadInformation_def
  by (auto simp: mbind_Ret_iff mseq_Ret_iff mget_def mlift_def mfail_def on_env_iff on_session_def usable_def Reset_def
      split: if_splits)

lemma stream_reach_usable: "stream_reach ue su \<Longrightarrow> usable su"
proof (induction rule: stream_reach.induct)
  case (created project table rc opts e su e')
  then show ?case
    by (auto simp: CreateStreamUploadSession_def Let_def obind_Ret_iff mbind_Ret_iff mlift_def
        dest!: loadInformation_inited_usable split: prod.splits)
next
  case (flushed su buffer n timeout e r su' e')
  show ?case by (rule keepsD [OF usable_flushStream flushed.IH flushed.hyps(2)])
qed

text \<open>
  C19. A session that was created can always pick a slot: neither failed flushes nor reloads that
  fail, bring an empty list or malformed slots take the routing information away.
\<close>

theorem stream_session_has_slot:
  assumes "stream_reach ue su"
  shows "\<exists>sl sel. NextSlot (su_slotSelector su) = (Ret sl, sel) \<and> sl \<in> set (sel_arr (su_slotSelector su))"
  using stream_reach_usable [OF assms] slots.next_step [of "su_slotSelector su"] slots.pos_less [of "su_slotSelector su"]
  by (auto simp: usable_def)

definition slots_answer :: "(int \<times> string) list \<Rightarrow> json" where
  "slots_answer sls = JObj [(''session_name'', JStr ''s''), (''slots'', JArr (map (\<lambda>(i, a). JArr [JInt i, JStr a]) sls))]"

definition example_upload_env :: "nat upload_env" where
  "example_upload_env = \<lparr>ue_rnd = (\<lambda>n. n), ue_pipe = (\<lambda>req n. (None, n)), ue_encode = (\<lambda>c bs. bs)\<rparr>"

lemma example_address:
  "newSlot i ''h:80'' = Ret \<lparr>sl_id = i, sl_ip = ''h'', sl_port = 80\<rparr>"
  by (simp add: newSlot_def Atoi_def ParseInt_def parse_digits_def is_digit_def digits_val_def digit_val_def less_eq_char_def)

lemma decode_slots_answer:
  "json_Decode StreamResModel_json (Some (slots_answer [(0, ''h:80'')])) zero_StreamResModel =
     Ret (zero_StreamResModel\<lparr>sr_SessionName := ''s'', sr_Slots := [[JInt 0, JStr ''h:80'']]\<rparr>)"
  by (simp add: json_Decode_def slots_answer_def StreamResModel_json_def zero_StreamResModel_def ToLower_def
      to_lower_char_def less_eq_char_def)

definition example_slot :: slot where
  "example_slot = \<lparr>sl_id = ''0'', sl_ip = ''h'', sl_port = 80\<rparr>"

lemma Itoa_0: "Itoa 0 = ''0''"
  by code_simp

lemma example_create:
  assumes "answers 0 = Ret (ok_response (slots_answer [(0, ''h:80'')]))"
  shows "\<exists>su. CreateStreamUploadSession (\<lambda>n. n) ''p'' ''t'' (example_client answers) [] 0 = (Ret su, 1) \<and>
    su_slotSelector su = \<lparr>sel_index = 0, sel_arr = [example_slot]\<rparr> \<and> \<not> su_slotsStale su \<and>
    su_RestClient su = example_client answers \<and> \<not> su_P2PMode su"
  using assms decode_slots_answer
  by (simp add: CreateStreamUploadSession_def newSessionConfig_def Let_def su_newInitiationRequest_def
      NewRequestWithParamsAndHeaders_def NewRequestWithUrlQuery_def mbind_def mseq_def mget_def mlift_def
      mret_def su_loadInformation_def on_env_def on_session_def example_requests example_Do ok_response_def
      zero_StreamResModel_def zero_schemaResModel_def toTableSchema_def newSlotSelect_def Reset_def
      example_address example_slot_def Itoa_0)

theorem stream_session_has_slot_witness:
  "\<exists>su e'. CreateStreamUploadSession (\<lambda>n. n) ''p'' ''t''
      (example_client (\<lambda>n. Ret (ok_response (slots_answer [(0, ''h:80'')])))) [] 0 = (Ret su, e') \<and>
     (\<exists>sl sel. NextSlot (su_slotSelector su) = (Ret sl, sel) \<and> sl \<in> set (sel_arr (su_slotSelector su)))"
proof -
  let ?a = "\<lambda>n. Ret (ok_response (slots_answer [(0, ''h:80'')]))"
  obtain su where su: "CreateStreamUploadSession (\<lambda>n. n) ''p'' ''t'' (example_client ?a) [] 0 = (Ret su, 1)"
    using example_create [of ?a] by auto
  then have "stream_reach example_upload_env su"
    by (intro stream_reach.created) (simp add: example_upload_env_def)
  from stream_session_has_slot [OF this] su show ?thesis by blast
qed

subsection \<open>The stale mark follows the error\<close>

subsection \<open>Where a flush fails\<close>

lemma failed_exchange:
  assumes "flushStream ue buffer n timeout (su, e) = (Fail err, (su', e'))"
    and "usable su" and "\<not> su_slotsStale su" and "\<forall>u. rc_url_ok (su_RestClient su) u"
  obtains sl sel conn client w e1 r where "NextSlot (su_slotSelector su) = (Ret sl, sel)"
    "su_newUploadConnection (su\<lparr>su_slotSelector := sel\<rparr>) sl (int (length buffer)) n timeout = Ret (conn, client)"
    "ue_pipe ue ((hc_request conn)\<lparr>rq_body := ue_encode ue (hc_encoder conn) buffer\<rparr>) e = (w, e1)"
    "Do client ((hc_request conn)\<lparr>rq_body := ue_encode ue (hc_encoder conn) buffer\<rparr>) e1 = (r, e')"
    "w = None \<and> r = Fail err \<or> (\<exists>x. w = Some x \<and> err = (case closeRes r of Fail c \<Rightarrow> c | _ \<Rightarrow> x))"
    "su' = (if slotRoutingIsStale err then markSlotsStale (su\<lparr>su_slotSelector := sel\<rparr>) else su\<lparr>su_slotSelector := sel\<rparr>)"
proof -
  have "\<exists>sl sel. NextSlot (su_slotSelector su) = (Ret sl, sel)"
    using assms(2) slots.next_step [of "su_slotSelector su"] by (auto simp: usable_def)
  then obtain sl sel where slot: "NextSlot (su_slotSelector su) = (Ret sl, sel)" by blast
  define su1 where "su1 = su\<lparr>su_slotSelector := sel\<rparr>"
  have fresh: "su\<lparr>su_slotsStale := False\<rparr> = su" using assms(3) by simp
  have "NewRequest (su_RestClient su) m r \<noteq> Fail x" for m r x
    using assms(4) by (simp add: NewRequest_def Let_def)
  then have "upload_request su1 sl k n \<noteq> Fail x" for k x
    by (auto simp: upload_request_def su1_def NewRequestWithParamsAndHeaders_def NewRequestWithUrlQuery_def
        dest!: obind_chain_not_Fail)
  moreover have "getScheme seen s \<noteq> Fail x" for seen s x by (induction s arbitrary: seen) auto
  ultimately have conn: "su_newUploadConnection su1 sl k n timeout \<noteq> Fail x" for k x
    by (auto simp: su_newUploadConnection_def upload_endpoint_def Let_def dest!: obind_chain_not_Fail split: if_splits)
  have send: "send_flush ue buffer n timeout (su, e) = (Fail err, (su', e'))"
    using assms(1) by (simp add: flush_fails_in_send)
  then obtain conn client where c: "su_newUploadConnection su1 sl (int (length buffer)) n timeout = Ret (conn, client)"
    using assms(3) conn fresh
    by (cases "su_newUploadConnection su1 sl (int (length buffer)) n timeout")
      (auto simp: send_flush_def reloadSlotsIfStale_def takeSlotsStale_def mseq_def mbind_def on_selector_def slot
        mget_def mlift_def su1_def [symmetric])
  let ?req = "(hc_request conn)\<lparr>rq_body := ue_encode ue (hc_encoder conn) buffer\<rparr>"
  obtain w e1 where w: "ue_pipe ue ?req e = (w, e1)" by fastforce
  obtain r e2 where r: "Do client ?req e1 = (r, e2)" by fastforce
  have "e2 = e' \<and> (w = None \<and> r = Fail err \<or> (\<exists>x. w = Some x \<and> err = (case closeRes r of Fail c \<Rightarrow> c | _ \<Rightarrow> x))) \<and>
      su' = (if slotRoutingIsStale err then markSlotsStale su1 else su1)"
    using send assms(3) fresh c w r
    by (auto simp: send_flush_def reloadSlotsIfStale_def takeSlotsStale_def mseq_def mbind_def on_selector_def slot
        mget_def mlift_def mret_def mpanic_def on_env_def flushFailed_def Let_def su1_def [symmetric]
        split: outcome.splits option.splits if_splits)
  then show thesis using that [OF slot] c w r unfolding su1_def by blast
qed

text \<open>
  C18. A flush that returns an error has failed in its exchange with the server: either the whole body was sent and the error is the one
  the exchange ended with, so that no answer of success came, or the body could not be written, and the error is that of the answer or
  of the writing. Nothing is sent after the exchange. What follows a success, the routing headers of the answer and the reload of the
  slots they may cause, never makes a flush fail. The session has a slot and no mark to reload its slots, and its URLs are well-formed.
\<close>

theorem flush_fails_only_in_exchange:
  assumes "flushStream ue buffer n timeout (su, e) = (Fail err, (su', e'))"
    and "usable su" and "\<not> su_slotsStale su" and "\<forall>u. rc_url_ok (su_RestClient su) u"
  shows "\<exists>sl sel conn client w e1 r.
    NextSlot (su_slotSelector su) = (Ret sl, sel) \<and>
    su_newUploadConnection (su\<lparr>su_slotSelector := sel\<rparr>) sl (int (length buffer)) n timeout = Ret (conn, client) \<and>
    ue_pipe ue ((hc_request conn)\<lparr>rq_body := ue_encode ue (hc_encoder conn) buffer\<rparr>) e = (w, e1) \<and>
    Do client ((hc_request conn)\<lparr>rq_body := ue_encode ue (hc_encoder conn) buffer\<rparr>) e1 = (r, e') \<and>
    (w = None \<and> r = Fail err \<or> (\<exists>x. w = Some x \<and> err = (case closeRes r of Fail c \<Rightarrow> c | _ \<Rightarrow> x)))"
  by (rule failed_exchange [OF assms]) blast

text \<open>
  C23. The mark that makes the next flush reload its slots is set precisely by the failures that a reload can cure: after a failed
  flush of a session that has a slot, no mark and well-formed URLs, the mark is set if and only if the error is no answer of the
  server or an answer with the status 308, 502 or 504.
\<close>

theorem flush_failure_marks_stale:
  assumes "flushStream ue buffer n timeout (su, e) = (Fail err, (su', e'))"
    and "usable su" and "\<not> su_slotsStale su" and "\<forall>u. rc_url_ok (su_RestClient su) u"
  shows "su_slotsStale su' \<longleftrightarrow> (\<nexists>code status retry. err = ErrHttp code status retry \<and> code \<noteq> 308 \<and> code \<noteq> 502 \<and> code \<noteq> 504)"
proof -
  obtain sel where "su' = (if slotRoutingIsStale err then markSlotsStale (su\<lparr>su_slotSelector := sel\<rparr>) else su\<lparr>su_slotSelector := sel\<rparr>)"
    by (rule failed_exchange [OF assms])
  then show ?thesis using assms(3) by (cases err) (auto simp: slotRoutingIsStale_def markSlotsStale_def)
qed

definition status_response :: "int \<Rightarrow> HttpResponse" where
  "status_response code = \<lparr>rs_StatusCode = code, rs_Status = [], rs_Header = Map.empty, rs_json = None, rs_xml = None, rs_Body = \<lparr>src_in = [], src_end = ErrEOF\<rparr>\<rparr>"

definition status_error :: "int \<Rightarrow> goerr" where
  "status_error code = ErrHttp code [] []"

lemma example_upload:
  assumes "su_RestClient su = example_client answers" "\<not> su_P2PMode su" "\<not> su_slotsStale su"
    and "su_slotSelector su = \<lparr>sel_index = 0, sel_arr = [example_slot]\<rparr>"
    and "answers n = Ret (status_response code)" "code \<ge> 300"
  shows "\<exists>su'. flushStream example_upload_env buffer count 0 (su, n) = (Fail (status_error code), (su', Suc n))"
  using assms
  by (simp add: flushStream_def send_flush_def reloadSlotsIfStale_def takeSlotsStale_def mseq_def mbind_def mret_def
      on_selector_def NextSlot_def mget_def mlift_def su_newUploadConnection_def upload_request_def upload_endpoint_def
      NewRequestWithParamsAndHeaders_def NewRequestWithUrlQuery_def NewRequest_def on_env_def example_upload_env_def
      Do_def NewOdpsRestClient_def example_client_def mfail_def status_response_def flushFailed_def Let_def
      NewHttpNotOk_def status_error_def Header_Get_def)

lemma example_upload_accepted:
  assumes "su_RestClient su = example_client answers" "\<not> su_P2PMode su" "\<not> su_slotsStale su"
    and "su_slotSelector su = \<lparr>sel_index = 0, sel_arr = [example_slot]\<rparr>"
    and "answers n = Ret (status_response 200)"
  shows "\<exists>su'. flushStream example_upload_env buffer count 0 (su, n) = (Ret ([], length buffer), (su', Suc n))"
proof -
  have "Atoi [] = Fail (ErrMsg ''parsing: invalid syntax'') \<or> (\<exists>e. Atoi [] = Fail e)"
    by (simp add: Atoi_def ParseInt_def parse_digits_def)
  then show ?thesis
    using assms
    by (auto simp: flushStream_def send_flush_def reloadSlotsIfStale_def takeSlotsStale_def mseq_def mbind_def mret_def
      on_selector_def NextSlot_def mget_def mlift_def su_newUploadConnection_def upload_request_def upload_endpoint_def
      NewRequestWithParamsAndHeaders_def NewRequestWithUrlQuery_def NewRequest_def on_env_def example_upload_env_def
      Do_def NewOdpsRestClient_def example_client_def mfail_def status_response_def refreshSlotRouting_def
      Header_Get_def Let_def)
qed

definition gateway_down :: "nat \<Rightarrow> HttpResponse outcome" where
  "gateway_down n = (if n = 0 then Ret (ok_response (slots_answer [(0, ''h:80'')])) else Ret (status_response 502))"

lemma gateway_down_flush:
  obtains su su' where "CreateStreamUploadSession (\<lambda>n. n) ''p'' ''t'' (example_client gateway_down) [] 0 = (Ret su, 1)"
    "flushStream example_upload_env [1, 2] 1 0 (su, 1) = (Fail (status_error 502), (su', 2))"
    "usable su" "\<not> su_slotsStale su" "\<forall>u. rc_url_ok (su_RestClient su) u"
proof -
  obtain su where su: "CreateStreamUploadSession (\<lambda>n. n) ''p'' ''t'' (example_client gateway_down) [] 0 = (Ret su, 1)"
    "su_slotSelector su = \<lparr>sel_index = 0, sel_arr = [example_slot]\<rparr>" "\<not> su_slotsStale su"
    "su_RestClient su = example_client gateway_down" "\<not> su_P2PMode su"
    using example_create [of gateway_down] by (auto simp: gateway_down_def)
  obtain su' where "flushStream example_upload_env [1, 2] 1 0 (su, 1) = (Fail (status_error 502), (su', Suc 1))"
    using example_upload [OF su(4,5,3,2), of 1 502] by (auto simp: gateway_down_def)
  moreover have "\<forall>u. rc_url_ok (su_RestClient su) u" using su(4) by (simp add: example_client_def)
  ultimately show thesis using that su(1-3) by (simp add: usable_def numeral_2_eq_2)
qed

theorem flush_fails_only_in_exchange_witness:
  "\<exists>su su' req client. CreateStreamUploadSession (\<lambda>n. n) ''p'' ''t'' (example_client gateway_down) [] 0 = (Ret su, 1) \<and>
     flushStream example_upload_env [1, 2] 1 0 (su, 1) = (Fail (status_error 502), (su', 2)) \<and>
     Do client req (1 :: nat) = (Fail (status_error 502), 2)"
proof -
  obtain su su' where run: "CreateStreamUploadSession (\<lambda>n. n) ''p'' ''t'' (example_client gateway_down) [] 0 = (Ret su, 1)"
    "flushStream example_upload_env [1, 2] 1 0 (su, 1) = (Fail (status_error 502), (su', 2))"
    "usable su" "\<not> su_slotsStale su" "\<forall>u. rc_url_ok (su_RestClient su) u"
    by (rule gateway_down_flush)
  have "ue_pipe example_upload_env req e = (None, e)" for req e by (simp add: example_upload_env_def)
  with flush_fails_only_in_exchange [OF run(2-5)] obtain req client where "Do client req (1 :: nat) = (Fail (status_error 502), 2)"
    by auto
  with run(1,2) show ?thesis by blast
qed

theorem flush_failure_marks_stale_witness:
  "\<exists>su su'. CreateStreamUploadSession (\<lambda>n. n) ''p'' ''t'' (example_client gateway_down) [] 0 = (Ret su, 1) \<and>
     flushStream example_upload_env [1, 2] 1 0 (su, 1) = (Fail (status_error 502), (su', 2)) \<and> su_slotsStale su'"
proof -
  obtain su su' where run: "CreateStreamUploadSession (\<lambda>n. n) ''p'' ''t'' (example_client gateway_down) [] 0 = (Ret su, 1)"
    "flushStream example_upload_env [1, 2] 1 0 (su, 1) = (Fail (status_error 502), (su', 2))"
    "usable su" "\<not> su_slotsStale su" "\<forall>u. rc_url_ok (su_RestClient su) u"
    by (rule gateway_down_flush)
  with flush_failure_marks_stale [OF run(2-5)] show ?thesis by (auto simp: status_error_def)
qed

subsection \<open>One reload between all concurrent flushes\<close>

text \<open>
  What concurrent flushes of one session do to the mark, as any interleaving of their atomic steps; the
  result of \<open>stale_run\<close> is what each \<open>takeSlotsStale\<close> reported.
\<close>

datatype stale_step = Mark | Take

fun stale_run :: "stale_step list \<Rightarrow> 'e StreamUploadSession \<Rightarrow> bool list \<times> 'e StreamUploadSession" where
  "stale_run [] su = ([], su)"
| "stale_run (Mark # xs) su = stale_run xs (markSlotsStale su)"
| "stale_run (Take # xs) su =
     (case takeSlotsStale su of (stale, su') \<Rightarrow> apfst (Cons stale) (stale_run xs su'))"

text \<open>
  C24. Concurrent flushes share reloads: in every interleaving of the steps that set and take the mark, the
  number of flushes told to reload, plus one if the mark is left set, is at most the number of
  times it was set, counting an initial mark; in particular one mark causes one reload.
\<close>

theorem stale_reloads_bounded:
  "length (filter id (fst (stale_run xs su))) + (if su_slotsStale (snd (stale_run xs su)) then 1 else 0) \<le>
     length (filter (\<lambda>x. x = Mark) xs) + (if su_slotsStale su then 1 else 0)"
proof (induction xs su rule: stale_run.induct)
  case (2 xs su)
  then show ?case by (simp add: markSlotsStale_def split: if_splits)
next
  case (3 xs su)
  then show ?case by (cases "stale_run xs (su\<lparr>su_slotsStale := False\<rparr>)") (auto simp: takeSlotsStale_def)
qed simp

subsection \<open>Where a flush goes\<close>

text \<open>
  Peer-to-peer mode does not change where data goes: for whatever slot, with or without the
  mode, the upload request has the URL made from the client's own endpoint. The address of the
  slot only reaches the endpoint that is signed, and the routing header.
\<close>

theorem upload_ignores_p2p:
  assumes "su_newUploadConnection su sl dataSize recordCount timeout = Ret (conn, client)"
  shows "rq_url (hc_request conn) =
    TrimRightChar (CHR ''/'') (rc_endpoint (su_RestClient su)) @ ''/'' @ TrimLeftChar (CHR ''/'') (su_ResourceUrl su)"
  using assms
  by (auto simp: su_newUploadConnection_def obind_Ret_iff upload_request_def NewRequestWithParamsAndHeaders_def
      NewRequestWithUrlQuery_def NewRequest_def newHttpConnection_def Let_def split: if_splits)

theorem upload_ignores_p2p_witness:
  "\<exists>su conn client. CreateStreamUploadSession (\<lambda>n. n) ''p'' ''t''
      (example_client (\<lambda>n. Ret (ok_response (slots_answer [(0, ''h:80'')])))) [] 0 = (Ret su, 1) \<and>
     su_newUploadConnection (su\<lparr>su_P2PMode := True\<rparr>) example_slot 0 1 0 = Ret (conn, client) \<and>
     rc_endpoint client = ''http://h'' \<and>
     rq_url (hc_request conn) = ''http://service/'' @ TrimLeftChar (CHR ''/'') (su_ResourceUrl su)"
proof -
  let ?a = "\<lambda>n. Ret (ok_response (slots_answer [(0, ''h:80'')]))"
  obtain su where su: "CreateStreamUploadSession (\<lambda>n. n) ''p'' ''t'' (example_client ?a) [] 0 = (Ret su, 1)"
    "su_RestClient su = example_client ?a"
    using example_create [of ?a] by auto
  have http: "getScheme [] ''http://service'' = Ret ''http''"
    by (simp add: is_letter_def is_digit_def less_eq_char_def ToLower_def to_lower_char_def)
  obtain conn client where run: "su_newUploadConnection (su\<lparr>su_P2PMode := True\<rparr>) example_slot 0 1 0 = Ret (conn, client)"
    "rc_endpoint client = ''http://h''"
    using su(2) http
    by (simp add: su_newUploadConnection_def upload_request_def upload_endpoint_def NewRequestWithParamsAndHeaders_def
        NewRequestWithUrlQuery_def example_requests)
      (simp add: example_client_def NewOdpsRestClient_def example_slot_def)
  from upload_ignores_p2p [OF run(1)] su(2) have
    "rq_url (hc_request conn) = ''http://service/'' @ TrimLeftChar (CHR ''/'') (su_ResourceUrl su)"
    by (simp add: example_client_def TrimRightChar_def su_ResourceUrl_def)
  with su(1) run show ?thesis by blast
qed

end
