(* ===== verification/PackWriter.thy ===== *)
theory PackWriter
  imports StreamSessions RecordRoundtrip
begin

section \<open>The pack writer: \<open>record_pack_stream_writer.go\<close>\<close>

text \<open>
  Models \<open>odps/tunnel/record_pack_stream_writer.go\<close>. The writer keeps a pointer to its session, so its
  methods work on the writer, the session and the environment together. Its buffer is the sink of
  the record writer it holds: \<open>bufWriter\<close> hands every write to the buffer, which takes all of it,
  and its \<open>Close\<close> does nothing. An \<open>int64\<close> count does not overflow: every counted record is in memory.
\<close>

subsection \<open>Operations\<close>

record pack_writer =
  pk_protocWriter :: protoc_writer
  pk_flushing :: bool
  pk_recordCount :: nat
  pk_appendErr :: "goerr option"

type_synonym 'e pack_state = "pack_writer \<times> 'e StreamUploadSession \<times> 'e"

definition empty_buffer :: sink where
  "empty_buffer = \<lparr>sk_out = [], sk_script = []\<rparr>"

definition pk_buffer :: "pack_writer \<Rightarrow> byte list" where
  "pk_buffer w = sk_out (wr_sink (pk_protocWriter w))"

definition session_columns :: "'e StreamUploadSession \<Rightarrow> Column list" where
  "session_columns su = ts_Columns (su_schema su)"

definition newRecordStreamHttpWriter :: "'e StreamUploadSession \<Rightarrow> pack_writer" where
  "newRecordStreamHttpWriter su =
     \<lparr>pk_protocWriter = newRecordProtocWriter empty_buffer (session_columns su) (Ret ()), pk_flushing = False,
      pk_recordCount = 0, pk_appendErr = None\<rparr>"

definition schema_mismatch :: "nat \<Rightarrow> Data \<Rightarrow> DataType \<Rightarrow> 'a outcome" where
  "schema_mismatch idx v t =
     obind (Name (Type v)) (\<lambda>n1. obind (Name t) (\<lambda>n2.
       Fail (ErrMsg (''Record schema not match session schema, index: '' @ Itoa (int idx) @ '', record type: '' @ n1 @
         '', session schema type: '' @ n2))))"

fun check_loop :: "nat \<Rightarrow> Record \<Rightarrow> Column list \<Rightarrow> unit outcome" where
  "check_loop idx (d # ds) (c # cs) =
     (if col_Type c = NilType then Panic NilDereference
      else (case d of
          None \<Rightarrow> check_loop (Suc idx) ds cs
        | Some v \<Rightarrow>
            if Type v \<noteq> PrimitiveType NULL \<and> ID (Type v) \<noteq> ID (col_Type c)
            then schema_mismatch idx v (col_Type c) else check_loop (Suc idx) ds cs))"
| "check_loop idx ds cs = Ret ()"

definition checkIfRecordSchemaMatchSessionSchema :: "Record \<Rightarrow> Column list \<Rightarrow> unit outcome" where
  "checkIfRecordSchemaMatchSessionSchema rec schema =
     (if length rec \<noteq> length schema
      then Fail (ErrMsg (''Record schema not match session schema, record len: '' @ Itoa (int (length rec)) @
             '', session schema len: '' @ Itoa (int (length schema))))
      else check_loop 0 rec schema)"

definition pk_Append :: "protowire \<Rightarrow> Record \<Rightarrow> ('e pack_state, unit) M" where
  "pk_Append pw rec = (\<lambda>(w, su, e).
     if pk_flushing w then
       (let err = ErrMsg ''There's an unsuccessful flush called, you should call flush to retry or call Reset to drop the data''
        in (Fail err, (w\<lparr>pk_appendErr := Some err\<rparr>, su, e)))
     else (case (if su_allowSchemaMismatch su then Ret ()
                 else checkIfRecordSchemaMatchSessionSchema rec (session_columns su)) of
         Fail err \<Rightarrow> (Fail err, (w\<lparr>pk_appendErr := Some err\<rparr>, su, e))
       | Panic p \<Rightarrow> (Panic p, (w, su, e))
       | Ret _ \<Rightarrow>
           (case Write_record pw rec (pk_protocWriter w) of
              (Ret _, pr) \<Rightarrow> (Ret (), (w\<lparr>pk_protocWriter := pr, pk_recordCount := pk_recordCount w + 1\<rparr>, su, e))
            | (Fail err, pr) \<Rightarrow> (Fail err, (w\<lparr>pk_protocWriter := pr, pk_appendErr := Some err\<rparr>, su, e))
            | (Panic p, pr) \<Rightarrow> (Panic p, (w\<lparr>pk_protocWriter := pr\<rparr>, su, e)))))"

definition pk_Reset :: "'e StreamUploadSession \<Rightarrow> pack_writer \<Rightarrow> pack_writer" where
  "pk_Reset su w =
     w\<lparr>pk_protocWriter := newRecordProtocWriter empty_buffer (session_columns su) (Ret ()),
       pk_recordCount := 0, pk_appendErr := None\<rparr>"

definition close_pack :: "protowire \<Rightarrow> pack_writer \<Rightarrow> unit outcome \<times> pack_writer" where
  "close_pack pw w =
     (if \<not> pk_flushing w \<and> \<not> wr_closed (pk_protocWriter w)
      then (case Close_writer pw (pk_protocWriter w) of (r, pr) \<Rightarrow> (r, w\<lparr>pk_protocWriter := pr\<rparr>))
      else (Ret (), w))"

definition pk_Flush :: "protowire \<Rightarrow> 'e upload_env \<Rightarrow> int \<Rightarrow> ('e pack_state, string \<times> nat \<times> nat) M" where
  "pk_Flush pw ue timeout = (\<lambda>(w, su, e).
     if pk_appendErr w \<noteq> None
     then (Fail (ErrMsg ''There's an unsuccessful append called before, you should call Reset to drop the data and re-append the data.''),
           (w, su, e))
     else if pk_recordCount w = 0 then (Ret ([], 0, 0), (w, su, e))
     else (case close_pack pw w of
         (Fail err, w1) \<Rightarrow> (Fail err, (w1, su, e))
       | (Panic p, w1) \<Rightarrow> (Panic p, (w1, su, e))
       | (Ret _, w1) \<Rightarrow>
           (let w2 = w1\<lparr>pk_flushing := True\<rparr> in
            case flushStream ue (pk_buffer w2) (int (pk_recordCount w2)) timeout (su, e) of
              (Fail err, (su', e')) \<Rightarrow> (Fail err, (w2, su', e'))
            | (Panic p, (su', e')) \<Rightarrow> (Panic p, (w2, su', e'))
            | (Ret (reqId, bytesSent), (su', e')) \<Rightarrow>
                (Ret (reqId, pk_recordCount w2, bytesSent), (pk_Reset su' (w2\<lparr>pk_flushing := False\<rparr>), su', e')))))"

definition pk_RecordCount :: "pack_writer \<Rightarrow> nat" where
  "pk_RecordCount w = pk_recordCount w"

definition pk_DataSize :: "pack_writer \<Rightarrow> nat" where
  "pk_DataSize w = length (pk_buffer w)"

subsection \<open>Appending\<close>

lemma Append_Ret:
  "pk_Append pw rec (w, su, e) = (Ret (), (w', su', e')) \<Longrightarrow>
     \<not> pk_flushing w \<and> su' = su \<and> e' = e \<and> (\<exists>pr. Write_record pw rec (pk_protocWriter w) = (Ret (), pr) \<and>
       w' = w\<lparr>pk_protocWriter := pr, pk_recordCount := pk_recordCount w + 1\<rparr>)"
  by (auto simp: pk_Append_def Let_def split: if_splits outcome.splits prod.splits)

text \<open>The writer after appending records to a new one.\<close>

lemma Appends_Ret:
  assumes "mfor (pk_Append pw) recs (w, su, e) = (Ret (), (w', su', e'))"
  shows "su' = su \<and> e' = e \<and> pk_flushing w' = pk_flushing w \<and> pk_appendErr w' = pk_appendErr w \<and>
    pk_recordCount w' = pk_recordCount w + length recs \<and>
    mfor (Write_record pw) recs (pk_protocWriter w) = (Ret (), pk_protocWriter w')"
  using assms
proof (induction recs arbitrary: w)
  case Nil
  then show ?case by (simp add: mret_def)
next
  case (Cons rec recs)
  then obtain s1 where s1: "pk_Append pw rec (w, su, e) = (Ret (), s1)" "mfor (pk_Append pw) recs s1 = (Ret (), (w', su', e'))"
    by (auto simp: mseq_Ret_iff)
  obtain w1 su1 e1 where "s1 = (w1, su1, e1)" by (cases s1)
  with Append_Ret [of pw rec w su e w1 su1 e1] s1 Cons.IH [of w1] show ?case by (auto simp: mseq_Ret_iff)
qed

subsection \<open>Flushing\<close>

definition flush_body :: "protowire \<Rightarrow> pack_writer \<Rightarrow> byte list" where
  "flush_body pw w = pk_buffer (snd (close_pack pw w))"

definition open_mark :: "protoc_writer \<Rightarrow> nat" where
  "open_mark p = (if wr_closed p then 0 else 1)"

lemma shrinks_open_mark:
  "shrinks open_mark (on_sink m)" "shrinks open_mark (mget g)"
  by (auto simp: shrinks_def open_mark_def on_sink_def mget_def split: prod.split)

lemma Close_writer_closed: "\<not> wr_closed p \<Longrightarrow> wr_closed (snd (Close_writer pw p))"
proof -
  have "shrinks open_mark (close_writer pw)"
    unfolding close_writer_def by (intro shrinks_mbind shrinks_mseq shrinks_open_mark shrinks_intros)
  then have "wr_closed (snd (close_writer pw (p\<lparr>wr_closed := True\<rparr>)))"
    by (auto simp: shrinks_def open_mark_def split: if_splits dest!: spec [of _ "p\<lparr>wr_closed := True\<rparr>"])
  then show "\<not> wr_closed p \<Longrightarrow> ?thesis"
    by (cases "close_writer pw (p\<lparr>wr_closed := True\<rparr>)")
      (auto simp: Close_writer_def split: outcome.split option.split)
qed

lemma close_pack_again: "close_pack pw w = (r, w1) \<Longrightarrow> close_pack pw w1 = (Ret (), w1)"
  using Close_writer_closed [of "pk_protocWriter w" pw]
  by (auto simp: close_pack_def split: if_splits prod.splits)

lemma close_pack_frame:
  "close_pack pw w = (r, w1) \<Longrightarrow> pk_recordCount w1 = pk_recordCount w \<and> pk_appendErr w1 = pk_appendErr w \<and>
     pk_flushing w1 = pk_flushing w"
  by (auto simp: close_pack_def split: if_splits prod.splits)

lemma flush_body_flushing: "flush_body pw (w\<lparr>pk_flushing := True\<rparr>) = pk_buffer w"
  by (simp add: flush_body_def close_pack_def pk_buffer_def)

text \<open>
  A failed flush loses nothing: the bytes the next flush will send and the number of records it
  will report are those of the flush that failed, so the records can be sent again unchanged.
\<close>

theorem failed_flush_keeps_body:
  assumes "pk_Flush pw ue timeout (w, su, e) = (Fail err, (w', su', e'))"
  shows "flush_body pw w' = flush_body pw w \<and> pk_RecordCount w' = pk_RecordCount w"
proof (cases "close_pack pw w")
  case (Pair r w1)
  then have again: "flush_body pw w1 = flush_body pw w"
    using close_pack_again [OF Pair] by (simp add: flush_body_def)
  have body: "flush_body pw w = pk_buffer w1" using Pair by (simp add: flush_body_def)
  show ?thesis
    using assms again body close_pack_frame [OF Pair] Pair flush_body_flushing [of pw w1]
    by (auto simp: pk_Flush_def pk_RecordCount_def Let_def split: if_splits outcome.splits prod.splits)
qed

text \<open>
  C17. A successful flush sends exactly what was appended: after appending records that fit the columns to a
  new writer, the flush hands the session one body, from which the record reader of the same
  columns returns these records; when the session accepts it, the flush reports their number
  and the writer is as new.
\<close>

theorem flush_sends_appended:
  assumes "protowire_laws pw" and "length (session_columns su) < 33553408"
    and "\<forall>rec \<in> set recs. record_ok (session_columns su) rec" and "recs \<noteq> []"
    and "mfor (pk_Append pw) recs (newRecordStreamHttpWriter su, su, e) = (Ret (), (w, su', e'))"
    and "flushStream ue (flush_body pw w) (int (length recs)) timeout (su', e') = (Ret (reqId, k), (su2, e2))"
  shows "pk_Flush pw ue timeout (w, su', e') = (Ret (reqId, length recs, k), (newRecordStreamHttpWriter su2, su2, e2)) \<and>
    (\<exists>r. Iterator pw (newRecordProtocReader \<lparr>src_in = flush_body pw w, src_end = ErrEOF\<rparr> (session_columns su)) =
      (map (\<lambda>rec. Ret (pad_record (session_columns su) rec)) recs, Ret (), r))"
proof -
  let ?new = "newRecordProtocWriter empty_buffer (session_columns su) (Ret ())"
  have w: "su' = su" "e' = e" "\<not> pk_flushing w" "pk_appendErr w = None" "pk_recordCount w = length recs"
    "mfor (Write_record pw) recs ?new = (Ret (), pk_protocWriter w)"
    using Appends_Ret [OF assms(5)] by (auto simp: newRecordStreamHttpWriter_def)
  have "reliable empty_buffer" by (simp add: reliable_def empty_buffer_def)
  from protoc_stream [OF assms(1,3,2) this] obtain w2 bs r where
    close: "Close_writer pw (pk_protocWriter w) = (Ret (), w2)" and
    out: "sk_out (wr_sink w2) = bs" and it: "Iterator pw (newRecordProtocReader \<lparr>src_in = bs, src_end = ErrEOF\<rparr> (session_columns su)) =
      (map (\<lambda>rec. Ret (pad_record (session_columns su) rec)) recs, Ret (), r)"
    using w(6) by (auto simp: empty_buffer_def)
  have "\<not> wr_closed (pk_protocWriter w)" using close by (auto simp: Close_writer_def)
  with close have c: "close_pack pw w = (Ret (), w\<lparr>pk_protocWriter := w2\<rparr>)" using w(3) by (simp add: close_pack_def)
  then have body: "flush_body pw w = bs" using out by (simp add: flush_body_def pk_buffer_def)
  have "pk_Flush pw ue timeout (w, su', e') = (Ret (reqId, length recs, k), (newRecordStreamHttpWriter su2, su2, e2))"
    using c w(1-5) assms(4,6) body out
    by (simp add: pk_Flush_def pk_buffer_def Let_def pk_Reset_def newRecordStreamHttpWriter_def)
  with it body show ?thesis by blast
qed

lemma Appends_run:
  assumes "su_allowSchemaMismatch su" "\<not> pk_flushing w"
    and "mfor (Write_record pw) recs (pk_protocWriter w) = (Ret (), pr)"
  shows "\<exists>w'. mfor (pk_Append pw) recs (w, su, e) = (Ret (), (w', su, e)) \<and> pk_recordCount w' = pk_recordCount w + length recs"
  using assms(2,3)
proof (induction recs arbitrary: w)
  case Nil
  then show ?case by (simp add: mret_def)
next
  case (Cons rec recs)
  then obtain p1 where p1: "Write_record pw rec (pk_protocWriter w) = (Ret (), p1)" "mfor (Write_record pw) recs p1 = (Ret (), pr)"
    by (auto simp: mseq_Ret_iff)
  let ?w = "w\<lparr>pk_protocWriter := p1, pk_recordCount := pk_recordCount w + 1\<rparr>"
  have "pk_Append pw rec (w, su, e) = (Ret (), (?w, su, e))"
    using p1(1) assms(1) Cons.prems(1) by (simp add: pk_Append_def)
  with Cons.IH [of ?w] Cons.prems(1) p1(2) show ?case by (auto simp: mseq_def mbind_def)
qed

text \<open>A session of the columns of \<open>example_cols\<close> whose server gives the answers \<open>code\<close>.\<close>

lemma example_pack:
  "\<exists>(su :: nat StreamUploadSession) w. session_columns su = example_cols \<and> su_RestClient su = example_client (\<lambda>n. Ret (status_response code)) \<and>
     \<not> su_P2PMode su \<and> \<not> su_slotsStale su \<and> su_slotSelector su = \<lparr>sel_index = 0, sel_arr = [example_slot]\<rparr> \<and>
     mfor (pk_Append protowire_ref) example_records (newRecordStreamHttpWriter su, su, 0) = (Ret (), (w, su, 0))"
proof -
  obtain su0 :: "nat StreamUploadSession" where "su_slotSelector su0 = \<lparr>sel_index = 0, sel_arr = [example_slot]\<rparr>" "\<not> su_slotsStale su0" "\<not> su_P2PMode su0"
    using example_create [of "\<lambda>n. Ret (ok_response (slots_answer [(0, ''h:80'')]))"] by auto
  moreover define su where "su = su0\<lparr>su_schema := zero_TableSchema\<lparr>ts_Columns := example_cols\<rparr>,
      su_RestClient := example_client (\<lambda>n. Ret (status_response code)), su_allowSchemaMismatch := True\<rparr>"
  moreover have "reliable empty_buffer" by (simp add: reliable_def empty_buffer_def)
  from protoc_stream [OF protowire_laws_ref example_ok this] obtain pr where
    "mfor (Write_record protowire_ref) example_records (newRecordProtocWriter empty_buffer example_cols (Ret ())) = (Ret (), pr)"
    by blast
  ultimately show ?thesis
    using Appends_run [of su "newRecordStreamHttpWriter su" protowire_ref example_records pr 0]
    by (auto simp: session_columns_def newRecordStreamHttpWriter_def intro!: exI [of _ su])
qed

theorem flush_sends_appended_witness:
  "\<exists>(su :: nat StreamUploadSession) w su2. session_columns su = example_cols \<and>
     mfor (pk_Append protowire_ref) example_records (newRecordStreamHttpWriter su, su, 0) = (Ret (), (w, su, 0)) \<and>
     pk_Flush protowire_ref example_upload_env 0 (w, su, 0) =
       (Ret ([], 2, length (flush_body protowire_ref w)), (newRecordStreamHttpWriter su2, su2, 1))"
proof -
  obtain su w where su: "session_columns su = example_cols" "su_RestClient su = example_client (\<lambda>n. Ret (status_response 200))"
    "\<not> su_P2PMode su" "\<not> su_slotsStale su" "su_slotSelector su = \<lparr>sel_index = 0, sel_arr = [example_slot]\<rparr>"
    "mfor (pk_Append protowire_ref) example_records (newRecordStreamHttpWriter su, su, 0) = (Ret (), (w, su, 0))"
    using example_pack by blast
  obtain su2 where run: "flushStream example_upload_env (flush_body protowire_ref w) (int (length example_records)) 0 (su, 0) =
      (Ret ([], length (flush_body protowire_ref w)), (su2, 1))"
    using example_upload_accepted [OF su(2-5), where n = 0] by auto
  have "length example_records = 2" by (simp add: example_records_def)
  moreover have "example_records \<noteq> []" by (simp add: example_records_def)
  ultimately show ?thesis
    using flush_sends_appended [OF protowire_laws_ref _ _ _ su(6) run] su(1,6) example_ok by auto
qed

lemma example_failed_flush:
  "\<exists>(su :: nat StreamUploadSession) w w' su'. session_columns su = example_cols \<and>
     mfor (pk_Append protowire_ref) example_records (newRecordStreamHttpWriter su, su, 0) = (Ret (), (w, su, 0)) \<and>
     pk_RecordCount w = 2 \<and> pk_flushing w' \<and>
     pk_Flush protowire_ref example_upload_env 0 (w, su, 0) = (Fail (status_error 500), (w', su', 1))"
proof -
  obtain su w where su: "session_columns su = example_cols" "su_RestClient su = example_client (\<lambda>n. Ret (status_response 500))"
    "\<not> su_P2PMode su" "\<not> su_slotsStale su" "su_slotSelector su = \<lparr>sel_index = 0, sel_arr = [example_slot]\<rparr>"
    "mfor (pk_Append protowire_ref) example_records (newRecordStreamHttpWriter su, su, 0) = (Ret (), (w, su, 0))"
    using example_pack by blast
  have w: "\<not> pk_flushing w" "pk_appendErr w = None" "pk_recordCount w = 2"
    using Appends_Ret [OF su(6)] by (auto simp: newRecordStreamHttpWriter_def example_records_def)
  obtain su' where run: "flushStream example_upload_env (flush_body protowire_ref w) 2 0 (su, 0) = (Fail (status_error 500), (su', 1))"
    using example_upload [OF su(2-5), where n = 0 and code = 500] by auto
  have "reliable empty_buffer" by (simp add: reliable_def empty_buffer_def)
  from protoc_stream [OF protowire_laws_ref example_ok this] su(1) Appends_Ret [OF su(6)]
  obtain w2 where close: "Close_writer protowire_ref (pk_protocWriter w) = (Ret (), w2)"
    by (auto simp: newRecordStreamHttpWriter_def)
  then have c: "close_pack protowire_ref w = (Ret (), w\<lparr>pk_protocWriter := w2\<rparr>)"
    using w(1) by (auto simp: close_pack_def Close_writer_def)
  then have "pk_Flush protowire_ref example_upload_env 0 (w, su, 0) =
      (Fail (status_error 500), (w\<lparr>pk_protocWriter := w2, pk_flushing := True\<rparr>, su', 1))"
    using w run by (simp add: pk_Flush_def flush_body_def pk_buffer_def Let_def)
  with su(1,6) w(3) show ?thesis by (force simp: pk_RecordCount_def)
qed

theorem failed_flush_keeps_body_witness:
  "\<exists>(su :: nat StreamUploadSession) w w' su'. session_columns su = example_cols \<and>
     mfor (pk_Append protowire_ref) example_records (newRecordStreamHttpWriter su, su, 0) = (Ret (), (w, su, 0)) \<and>
     pk_Flush protowire_ref example_upload_env 0 (w, su, 0) = (Fail (status_error 500), (w', su', 1)) \<and>
     flush_body protowire_ref w' = flush_body protowire_ref w \<and> pk_RecordCount w' = 2"
  using example_failed_flush failed_flush_keeps_body by metis

subsection \<open>A writer that is reset after a failed flush\<close>

text \<open>
  What may happen to a writer whose session is shared: the calls of its owner, and any change of the
  session and the environment by others.
\<close>

inductive pack_run :: "protowire \<Rightarrow> 'e upload_env \<Rightarrow> 'e pack_state \<Rightarrow> 'e pack_state \<Rightarrow> bool" for pw ue s where
  start: "pack_run pw ue s s"
| append: "pack_run pw ue s t \<Longrightarrow> pk_Append pw rec t = (r, t') \<Longrightarrow> pack_run pw ue s t'"
| flush: "pack_run pw ue s t \<Longrightarrow> pk_Flush pw ue timeout t = (r, t') \<Longrightarrow> pack_run pw ue s t'"
| reset: "pack_run pw ue s (w, su, e) \<Longrightarrow> pack_run pw ue s (pk_Reset su w, su, e)"
| other: "pack_run pw ue s (w, su, e) \<Longrightarrow> pack_run pw ue s (w, su', e')"

definition stuck :: "pack_writer \<Rightarrow> bool" where
  "stuck w \<longleftrightarrow> pk_flushing w \<and> pk_recordCount w = 0"

lemma stuck_run: "pack_run pw ue s t \<Longrightarrow> stuck (fst s) \<Longrightarrow> stuck (fst t)"
proof (induction rule: pack_run.induct)
  case (append t rec r t')
  then show ?case by (cases t) (auto simp: stuck_def pk_Append_def Let_def)
next
  case (flush t timeout r t')
  then show ?case by (cases t) (auto simp: stuck_def pk_Flush_def split: if_splits)
qed (auto simp: stuck_def pk_Reset_def)

text \<open>
  After a failed flush the data cannot be dropped and the writer used again: \<open>Reset\<close> empties the
  buffer but leaves the writer in its flushing state, and from then on every \<open>Append\<close> returns an
  error and the buffer stays empty, whatever is called and however the session changes,
  although the error tells the caller to call \<open>Reset\<close>.
\<close>

theorem reset_after_failed_flush_is_stuck:
  assumes "pk_Flush pw ue timeout (w, su, e) = (Fail err, (w1, su1, e1))" and "pk_flushing w1"
    and "pack_run pw ue (pk_Reset su1 w1, su1, e1) (w2, su2, e2)"
  shows "(\<exists>msg. fst (pk_Append pw rec (w2, su2, e2)) = Fail (ErrMsg msg)) \<and> pk_RecordCount w2 = 0"
proof -
  have "stuck (pk_Reset su1 w1)" using assms(2) by (simp add: stuck_def pk_Reset_def)
  with stuck_run [OF assms(3)] show ?thesis by (simp add: stuck_def pk_Append_def pk_RecordCount_def Let_def)
qed

theorem reset_after_failed_flush_is_stuck_witness:
  "\<exists>(su :: nat StreamUploadSession) w w1 su1. session_columns su = example_cols \<and>
     mfor (pk_Append protowire_ref) example_records (newRecordStreamHttpWriter su, su, 0) = (Ret (), (w, su, 0)) \<and>
     pk_Flush protowire_ref example_upload_env 0 (w, su, 0) = (Fail (status_error 500), (w1, su1, 1)) \<and>
     (\<exists>msg. fst (pk_Append protowire_ref (hd example_records) (pk_Reset su1 w1, su1, 1)) = Fail (ErrMsg msg))"
  using example_failed_flush reset_after_failed_flush_is_stuck [OF _ _ pack_run.start] by metis

end
