(* ===== verification/ArgQueries.thy ===== *)
theory ArgQueries
  imports Strings
begin

section \<open>Query arguments: \<open>position_arg_query.go\<close>, \<open>named_arg_query.go\<close>\<close>

text \<open>
  Models the two ways in which the SQL driver puts arguments into a query, and the two functions of
  \<open>connection.go\<close> that choose between them. A query is cut into pieces at its placeholders, an argument
  is written into the piece of its placeholder, and the pieces are joined. The two regular expressions
  of the code are the scanners \<open>find_question_marks\<close> and \<open>find_named_args\<close>, which give the
  pairs of start and end that \<open>FindAllStringIndex\<close> gives.
  \<^item> An argument is of any type; \<open>fmt.Sprintf("%v", arg)\<close> is the function \<open>sprintv\<close> of the model.
  \<^item> The order in which Go visits a map is arbitrary: \<open>ng_toSql\<close> takes it as its argument \<open>order\<close>.
\<close>

subsection \<open>Pieces\<close>

text \<open>\<open>s[i:j]\<close> of Go, on indexes in range.\<close>

definition substr :: "string \<Rightarrow> nat \<Rightarrow> nat \<Rightarrow> string" where
  "substr s i j = take (j - i) (drop i s)"

text \<open>The loop both constructors run over the indexes of the placeholders, and the end it leaves.\<close>

fun cut_pieces :: "string \<Rightarrow> nat \<Rightarrow> (nat \<times> nat) list \<Rightarrow> string list \<times> nat" where
  "cut_pieces query s [] = ([], s)"
| "cut_pieces query s ((b, e) # ixs) =
     (case cut_pieces query e ixs of (ps, s') \<Rightarrow> (substr query s b # [] # ps, s'))"

subsection \<open>Arguments by position\<close>

record PositionArgQuery =
  pq_query :: string
  pq_queryPieces :: "string list"
  pq_argPositions :: "nat list"
  pq_lastArgSet :: nat

fun find_question_marks :: "nat \<Rightarrow> string \<Rightarrow> (nat \<times> nat) list" where
  "find_question_marks i [] = []"
| "find_question_marks i (c # cs) =
     (if c = CHR ''?'' then (i, Suc i) # find_question_marks (Suc i) cs else find_question_marks (Suc i) cs)"

definition NewPositionArgQuery :: "string \<Rightarrow> PositionArgQuery" where
  "NewPositionArgQuery query =
     (let indexes = find_question_marks 0 query; (ps, s) = cut_pieces query 0 indexes in
      \<lparr>pq_query = query,
       pq_queryPieces = (if int s < int (length query) - 1 then ps @ [drop s query] else ps),
       pq_argPositions = map (\<lambda>i. 2 * i + 1) [0..<length indexes], pq_lastArgSet = 0\<rparr>)"

fun set_pieces :: "('v \<Rightarrow> string) \<Rightarrow> (nat \<times> 'v) list \<Rightarrow> string list \<Rightarrow> string list" where
  "set_pieces sprintv [] ps = ps"
| "set_pieces sprintv ((i, v) # ivs) ps = set_pieces sprintv ivs (ps[i := sprintv v])"

definition pq_SetArgs :: "('v \<Rightarrow> string) \<Rightarrow> 'v list \<Rightarrow> PositionArgQuery \<Rightarrow> PositionArgQuery" where
  "pq_SetArgs sprintv args p =
     (let n = min (length args) (length (pq_argPositions p)) in
      p\<lparr>pq_queryPieces := set_pieces sprintv (zip (take n (pq_argPositions p)) (take n args)) (pq_queryPieces p),
        pq_lastArgSet := n\<rparr>)"

definition pq_toSql :: "PositionArgQuery \<Rightarrow> string outcome" where
  "pq_toSql p =
     (if pq_lastArgSet p < length (pq_argPositions p)
      then Fail (ErrMsg (Itoa (int (pq_lastArgSet p) + 1) @ ''th arg is not set for '' @ [DQ] @ pq_query p @ [DQ]))
      else Ret (concat (pq_queryPieces p)))"

definition positionArgQueryToSql :: "('v \<Rightarrow> string) \<Rightarrow> string \<Rightarrow> 'v list \<Rightarrow> string outcome" where
  "positionArgQueryToSql sprintv query args =
     pq_toSql (fold (\<lambda>arg. pq_SetArgs sprintv [arg]) args (NewPositionArgQuery query))"

subsection \<open>Arguments by name\<close>

record NamedArgQuery =
  ng_query :: string
  ng_queryPieces :: "string list"
  ng_argPositions :: "string \<Rightarrow> nat list"
  ng_argSetRecord :: "(string \<times> bool) list"

definition word_char :: "char \<Rightarrow> bool" where
  "word_char c \<longleftrightarrow> is_letter c \<or> is_digit c \<or> c = CHR ''_''"

text \<open>The expression \<open>@[a-zA-Z]\w*\<close> at the head of a string: the name it matches, if it does.\<close>

fun named_arg :: "string \<Rightarrow> string option" where
  "named_arg (a # c # cs) =
     (if a = CHR ''@'' \<and> is_letter c then Some (c # takeWhile word_char cs) else None)"
| "named_arg _ = None"

function find_named_args :: "nat \<Rightarrow> string \<Rightarrow> (nat \<times> nat) list" where
  "find_named_args i [] = []"
| "find_named_args i (c # cs) =
     (case named_arg (c # cs) of
        None \<Rightarrow> find_named_args (Suc i) cs
      | Some name \<Rightarrow> (i, i + 1 + length name) # find_named_args (i + 1 + length name) (drop (length name) cs))"
  by pat_completeness auto
termination by (relation "measure (\<lambda>(i, s). length s)") auto

text \<open>A record of \<open>argSetRecord\<close>: the entries of a map in the order in which they were first made.\<close>

definition NewNamedArgQuery :: "string \<Rightarrow> NamedArgQuery" where
  "NewNamedArgQuery query =
     (let indexes = find_named_args 0 query; (ps, s) = cut_pieces query 0 indexes;
          names = map (\<lambda>(b, e). substr query (b + 1) e) indexes in
      \<lparr>ng_query = query,
       ng_queryPieces = (if int s \<le> int (length query) - 1 then ps @ [drop s query] else ps),
       ng_argPositions = (\<lambda>name. [2 * i + 1. i \<leftarrow> [0..<length names], names ! (i - 0) = name]),
       ng_argSetRecord = fold (\<lambda>name. AList.update name False) names []\<rparr>)"

definition ng_SetArg :: "('v \<Rightarrow> string) \<Rightarrow> string \<Rightarrow> 'v \<Rightarrow> NamedArgQuery \<Rightarrow> NamedArgQuery" where
  "ng_SetArg sprintv name v n =
     (let positions = ng_argPositions n name in
      if positions = [] then n
      else n\<lparr>ng_queryPieces := set_pieces sprintv (map (\<lambda>i. (i, v)) positions) (ng_queryPieces n),
             ng_argSetRecord := AList.update name True (ng_argSetRecord n)\<rparr>)"

definition ng_toSql :: "((string \<times> bool) list \<Rightarrow> (string \<times> bool) list) \<Rightarrow> NamedArgQuery \<Rightarrow> string outcome" where
  "ng_toSql order n =
     (let unSetArgs = [arg. (arg, isSet) \<leftarrow> order (ng_argSetRecord n), \<not> isSet] in
      if length unSetArgs > 1
      then Fail (ErrMsg (''value of ['' @ Join unSetArgs '', '' @ ''] are not set for '' @ [DQ] @ ng_query n @ [DQ]))
      else if length unSetArgs = 1
      then Fail (ErrMsg (''value of '' @ hd unSetArgs @ '' is not set for '' @ [DQ] @ ng_query n @ [DQ]))
      else Ret (concat (ng_queryPieces n)))"

text \<open>An argument of \<open>database/sql\<close>: its name, empty for an argument by position, and its value.\<close>

definition namedArgQueryToSql ::
    "((string \<times> bool) list \<Rightarrow> (string \<times> bool) list) \<Rightarrow> ('v \<Rightarrow> string) \<Rightarrow> string \<Rightarrow> (string \<times> 'v) list \<Rightarrow>
       string outcome" where
  "namedArgQueryToSql order sprintv query args =
     (case args of
        [] \<Rightarrow> Ret query
      | (name, v) # _ \<Rightarrow>
          if name = [] then positionArgQueryToSql sprintv query (map snd args)
          else ng_toSql order (fold (\<lambda>(name, v). ng_SetArg sprintv name v) args (NewNamedArgQuery query)))"

subsection \<open>The layout of the pieces\<close>

text \<open>Literal text and values in turn: the pieces of a query between whose literals the values stand.\<close>

fun layout :: "string list \<Rightarrow> string list \<Rightarrow> string list" where
  "layout (l # ls) (v # vs) = l # v # layout ls vs"
| "layout _ _ = []"

lemma length_layout [simp]: "length ls = length vs \<Longrightarrow> length (layout ls vs) = 2 * length vs"
  by (induction ls vs rule: layout.induct) auto

lemma update_in_layout:
  "length pre = 2 * k \<Longrightarrow> (pre @ l # v # rest)[2 * k + 1 := w] = pre @ l # w # rest"
  by (simp add: list_update_append)

lemma upt_length_Cons: "[k..<k + length (x # xs)] = k # [Suc k..<Suc k + length xs]"
  by (simp add: upt_conv_Cons del: upt_Suc)

lemma set_positions:
  assumes "length ls = length vs" "length us = length vs" "length pre = 2 * k"
  shows "set_pieces sprintv (zip (map (\<lambda>i. 2 * i + 1) [k..<k + length vs]) vs) (pre @ layout ls us @ rest) =
    pre @ layout ls (map sprintv vs) @ rest"
  using assms
proof (induction ls us arbitrary: vs pre k rule: list_induct2')
  case (4 l ls u us)
  then obtain v ws where vs: "vs = v # ws" by (cases vs) auto
  have "set_pieces sprintv (zip (map (\<lambda>i. 2 * i + 1) [Suc k..<Suc k + length ws]) ws)
      ((pre @ [l, sprintv v]) @ layout ls us @ rest) = (pre @ [l, sprintv v]) @ layout ls (map sprintv ws) @ rest"
    using "4.IH" [of ws "pre @ [l, sprintv v]" "Suc k"] "4.prems" vs by simp
  then show ?case
    unfolding vs upt_length_Cons using update_in_layout [OF "4.prems"(3), of l u "layout ls us @ rest" "sprintv v"]
    by (simp del: upt_Suc)
qed auto

text \<open>The positions of one name, from the index \<open>k\<close> on.\<close>

definition positions_from :: "nat \<Rightarrow> string list \<Rightarrow> string \<Rightarrow> nat list" where
  "positions_from k names name = [2 * i + 1. i \<leftarrow> [k..<k + length names], names ! (i - k) = name]"

lemma positions_from_Cons:
  "positions_from k (n # ns) name = (if n = name then [2 * k + 1] else []) @ positions_from (Suc k) ns name"
proof -
  have "concat (map (\<lambda>i. if (n # ns) ! (i - k) = name then [2 * i + 1] else []) [Suc k..<Suc k + length ns]) =
      concat (map (\<lambda>i. if ns ! (i - Suc k) = name then [2 * i + 1] else []) [Suc k..<Suc k + length ns])"
    by (intro arg_cong [of _ _ concat] map_cong) (auto simp: nth_Cons')
  then show ?thesis unfolding positions_from_def upt_length_Cons by (simp del: upt_Suc)
qed

lemma set_named:
  assumes "length ls = length names" "length pre = 2 * k"
  shows "set_pieces sprintv (map (\<lambda>i. (i, v)) (positions_from k names name)) (pre @ layout ls (map env names) @ rest) =
    pre @ layout ls (map (env(name := sprintv v)) names) @ rest"
  using assms
proof (induction ls names arbitrary: pre k rule: list_induct2')
  case (4 l ls n ns)
  let ?w = "if n = name then sprintv v else env n"
  have "set_pieces sprintv (map (\<lambda>i. (i, v)) (positions_from (Suc k) ns name))
      ((pre @ [l, ?w]) @ layout ls (map env ns) @ rest) =
      (pre @ [l, ?w]) @ layout ls (map (env(name := sprintv v)) ns) @ rest"
    using "4.IH" [of "pre @ [l, ?w]" "Suc k"] "4.prems" by (simp del: fun_upd_apply)
  moreover have "(env(name := sprintv v)) n = ?w" by simp
  ultimately show ?case
    using update_in_layout [OF "4.prems"(2), of l "env n" "layout ls (map env ns) @ rest" "sprintv v"]
    by (cases "n = name") (simp_all add: positions_from_Cons del: fun_upd_apply)
qed (auto simp: positions_from_def)

lemma concat_layout_Nil: "length ls = n \<Longrightarrow> concat (layout ls (replicate n [])) = concat ls"
  by (induction ls arbitrary: n) auto

subsection \<open>Filling the question marks\<close>

text \<open>The reference: the n-th question mark gives way to the n-th value.\<close>

fun fill :: "string list \<Rightarrow> string \<Rightarrow> string" where
  "fill vs [] = []"
| "fill [] (c # cs) = c # fill [] cs"
| "fill (v # vs) (c # cs) = (if c = CHR ''?'' then v @ fill vs cs else c # fill (v # vs) cs)"

lemma substr_middle: "substr (p @ s @ t) (length p) (length p + length s) = s"
  by (simp add: substr_def)

lemma cut_question_marks:
  assumes "query = p @ seg @ s" "CHR ''?'' \<notin> set seg"
    and "cut_pieces query (length p) (find_question_marks (length p + length seg) s) = (ps, e)"
  shows "ps = layout (butlast (Split CHR ''?'' (seg @ s))) (replicate (length (Split CHR ''?'' (seg @ s)) - 1) []) \<and>
    e \<le> length query \<and> drop e query = last (Split CHR ''?'' (seg @ s))"
  using assms
proof (induction s arbitrary: p seg ps e)
  case Nil
  then show ?case by (simp add: Split_no_sep)
next
  case (Cons c cs)
  show ?case
  proof (cases "c = CHR ''?''")
    case True
    obtain qs where qs: "cut_pieces query (length (p @ seg @ ''?''))
        (find_question_marks (length (p @ seg @ ''?'') + length ([] :: string)) cs) = (qs, e)" "ps = seg # [] # qs"
      using Cons.prems True substr_middle [of p seg "c # cs"] by (auto split: prod.splits)
    obtain x xs where L: "Split CHR ''?'' cs = x # xs" by (cases "Split CHR ''?'' cs") auto
    have "Split CHR ''?'' (seg @ c # cs) = seg # x # xs" using Split_append_sep [OF Cons.prems(2)] True L by simp
    moreover have "query = (p @ seg @ ''?'') @ [] @ cs" using Cons.prems(1) True by simp
    ultimately show ?thesis using Cons.IH [OF _ _ qs(1)] qs(2) L by simp
  next
    case False
    then show ?thesis using Cons.IH [of p "seg @ [c]" ps e] Cons.prems by simp
  qed
qed

lemma length_find_question_marks: "length (find_question_marks i s) = length (Split CHR ''?'' s) - 1"
proof (induction s arbitrary: i)
  case (Cons c cs)
  then show ?case by (cases "Split CHR ''?'' cs") auto
qed simp

lemma fill_Nil: "fill [] s = s"
  by (induction s) auto

lemma fill_layout:
  "length vs = count_list s CHR ''?'' \<Longrightarrow>
     fill (vs @ us) s = concat (layout (butlast (Split CHR ''?'' s)) vs) @ last (Split CHR ''?'' s)"
proof (induction s arbitrary: vs)
  case (Cons c cs)
  obtain x xs where L: "Split CHR ''?'' cs = x # xs" by (cases "Split CHR ''?'' cs") auto
  have len: "length xs = count_list cs CHR ''?''" using length_Split [of "CHR ''?''" cs] L by simp
  show ?case
  proof (cases "c = CHR ''?''")
    case True
    with Cons.prems obtain v ws where "vs = v # ws" "length ws = count_list cs CHR ''?''" by (cases vs) auto
    with Cons.IH [of ws] True L show ?thesis by simp
  next
    case False
    then have v: "length vs = length xs" using Cons.prems len by simp
    show ?thesis
    proof (cases vs)
      case Nil
      with v have "xs = []" by simp
      have "fill us (c # cs) = c # fill us cs" using False by (cases us) auto
      with Cons.IH [of "[]"] False Nil L \<open>xs = []\<close> Cons.prems show ?thesis by simp
    next
      case (Cons v ws)
      with v obtain y ys where "xs = y # ys" by (cases xs) auto
      with Cons.IH [of vs] False Cons L Cons.prems show ?thesis by simp
    qed
  qed
qed simp

text \<open>
  A query whose text after the last placeholder is one byte loses this byte: the constructor keeps the rest
  of the query only when it is longer.
\<close>

definition one_char_tail :: "string \<Rightarrow> bool" where
  "one_char_tail query \<longleftrightarrow> length (last (Split CHR ''?'' query)) = 1"

definition kept_query :: "string \<Rightarrow> string" where
  "kept_query query = (if one_char_tail query then butlast query else query)"

lemma NewPositionArgQuery_pieces:
  "\<exists>rest. pq_queryPieces (NewPositionArgQuery query) =
       layout (butlast (Split CHR ''?'' query)) (replicate (count_list query CHR ''?'') []) @ rest \<and>
     concat rest = (if one_char_tail query then [] else last (Split CHR ''?'' query)) \<and>
     pq_argPositions (NewPositionArgQuery query) = map (\<lambda>i. 2 * i + 1) [0..<count_list query CHR ''?'']"
proof -
  obtain ps e where cut: "cut_pieces query 0 (find_question_marks 0 query) = (ps, e)" by (cases "cut_pieces query 0 (find_question_marks 0 query)")
  from cut_question_marks [of query "[]" "[]" query ps e] cut
  have ps: "ps = layout (butlast (Split CHR ''?'' query)) (replicate (count_list query CHR ''?'') [])"
    "e \<le> length query" "drop e query = last (Split CHR ''?'' query)"
    by (simp_all add: length_Split)
  have "int e < int (length query) - 1 \<longleftrightarrow> length (drop e query) > 1" using ps(2) by auto
  then show ?thesis
    using cut ps length_find_question_marks [of 0 query]
    by (cases "last (Split CHR ''?'' query)") (auto simp: NewPositionArgQuery_def one_char_tail_def length_Split)
qed

lemma NewPositionArgQuery_fields [simp]:
  "pq_lastArgSet (NewPositionArgQuery query) = 0" "pq_query (NewPositionArgQuery query) = query"
  by (simp_all add: NewPositionArgQuery_def Let_def split: prod.split)

lemma Split_snoc:
  "Split sep (s @ [c]) = (if c = sep then Split sep s @ [[]] else butlast (Split sep s) @ [last (Split sep s) @ [c]])"
  by (induction s) (auto split: list.splits)

lemma fill_kept:
  assumes "length vs = count_list query CHR ''?''"
  shows "fill (vs @ us) (kept_query query) =
    concat (layout (butlast (Split CHR ''?'' query)) vs) @ (if one_char_tail query then [] else last (Split CHR ''?'' query))"
proof (cases "one_char_tail query")
  case True
  then have "query \<noteq> []" by (auto simp: one_char_tail_def)
  then obtain q c where q: "query = q @ [c]" by (metis rev_exhaust)
  with True have "c \<noteq> CHR ''?''" "last (Split CHR ''?'' q) = []"
    by (auto simp: one_char_tail_def Split_snoc split: if_splits)
  then show ?thesis
    using q True fill_layout [of vs q us] assms by (simp add: kept_query_def Split_snoc)
next
  case False
  then show ?thesis using fill_layout [OF assms] by (simp add: kept_query_def)
qed

text \<open>
  C33. Arguments by position: when all of them are set at once, the query text is the query
  with every question mark replaced by its argument in order, further arguments ignored, except
  that a single byte after the last placeholder (or a query that is a single byte) is lost; with
  fewer arguments than placeholders there is an error.
\<close>

theorem pq_toSql_spec:
  "pq_toSql (pq_SetArgs sprintv args (NewPositionArgQuery query)) =
     (if length args < count_list query CHR ''?''
      then Fail (ErrMsg (Itoa (int (length args) + 1) @ ''th arg is not set for '' @ [DQ] @ query @ [DQ]))
      else Ret (fill (map sprintv args) (kept_query query)))"
proof -
  let ?n = "count_list query CHR ''?''" and ?p = "NewPositionArgQuery query"
  let ?L = "butlast (Split CHR ''?'' query)"
  obtain rest where p: "pq_queryPieces ?p = layout ?L (replicate ?n []) @ rest"
    "concat rest = (if one_char_tail query then [] else last (Split CHR ''?'' query))"
    "pq_argPositions ?p = map (\<lambda>i. 2 * i + 1) [0..<?n]"
    using NewPositionArgQuery_pieces [of query] by blast
  show ?thesis
  proof (cases "length args < ?n")
    case True
    then show ?thesis using p(3) by (simp add: pq_toSql_def pq_SetArgs_def Let_def)
  next
    case False
    let ?vs = "take ?n args"
    have "set_pieces sprintv (zip (map (\<lambda>i. 2 * i + 1) [0..<0 + length ?vs]) ?vs) ([] @ layout ?L (replicate ?n []) @ rest) =
        [] @ layout ?L (map sprintv ?vs) @ rest"
      by (rule set_positions) (use False in \<open>simp_all add: length_Split\<close>)
    moreover have "fill (map sprintv args) (kept_query query) = concat (layout ?L (map sprintv ?vs)) @ concat rest"
      using fill_kept [of "map sprintv ?vs" query "map sprintv (drop ?n args)"] False p(2)
      by (simp flip: map_append)
    ultimately show ?thesis using False p(1,3) by (simp add: pq_toSql_def pq_SetArgs_def Let_def)
  qed
qed

lemma second_placeholder_refused:
  assumes "count_list query CHR ''?'' \<ge> 2"
  shows "\<exists>msg. positionArgQueryToSql sprintv query args = Fail (ErrMsg msg)"
proof -
  let ?run = "fold (\<lambda>arg. pq_SetArgs sprintv [arg]) args (NewPositionArgQuery query)"
  have "length (pq_argPositions p) \<ge> 2 \<Longrightarrow> pq_lastArgSet p < 2 \<Longrightarrow>
      length (pq_argPositions (fold (\<lambda>arg. pq_SetArgs sprintv [arg]) args p)) \<ge> 2 \<and>
      pq_lastArgSet (fold (\<lambda>arg. pq_SetArgs sprintv [arg]) args p) < 2" for p
    by (induction args arbitrary: p) (simp_all add: pq_SetArgs_def Let_def)
  moreover have "length (pq_argPositions (NewPositionArgQuery query)) \<ge> 2" "pq_lastArgSet (NewPositionArgQuery query) < 2"
    using NewPositionArgQuery_pieces [of query] assms by auto
  ultimately have "length (pq_argPositions ?run) \<ge> 2 \<and> pq_lastArgSet ?run < 2" by blast
  then show ?thesis by (simp add: positionArgQueryToSql_def pq_toSql_def)
qed

text \<open>
  The driver sets the arguments one after the other, and each call starts at the first
  placeholder: a query with two or more placeholders is refused whatever its arguments, although
  the same query with all arguments set at once is accepted.
\<close>

theorem positionArgQueryToSql_second_placeholder:
  assumes "count_list query CHR ''?'' \<ge> 2"
  shows "\<exists>msg. positionArgQueryToSql sprintv query args = Fail (ErrMsg msg)"
  using assms by (rule second_placeholder_refused)

theorem positionArgQueryToSql_second_placeholder_witness:
  "(\<exists>msg. positionArgQueryToSql id ''a=? and b=?'' [''1'', ''2''] = Fail (ErrMsg msg)) \<and>
   pq_toSql (pq_SetArgs id [''1'', ''2''] (NewPositionArgQuery ''a=? and b=?.'')) = Ret ''a=1 and b=2''"
  using positionArgQueryToSql_second_placeholder [of "''a=? and b=?''" id "[''1'', ''2'']"]
  by (simp add: pq_toSql_spec kept_query_def one_char_tail_def)

subsection \<open>Filling the names\<close>

text \<open>The names of a query in their order, and the reference: every occurrence of a name gives way to its value.\<close>

function arg_names :: "string \<Rightarrow> string list" where
  "arg_names [] = []"
| "arg_names (c # cs) =
     (case named_arg (c # cs) of
        None \<Rightarrow> arg_names cs
      | Some name \<Rightarrow> name # arg_names (drop (length name) cs))"
  by pat_completeness auto
termination by (relation "measure length") auto

function subst_args :: "(string \<Rightarrow> string) \<Rightarrow> string \<Rightarrow> string" where
  "subst_args val [] = []"
| "subst_args val (c # cs) =
     (case named_arg (c # cs) of
        None \<Rightarrow> c # subst_args val cs
      | Some name \<Rightarrow> val name @ subst_args val (drop (length name) cs))"
  by pat_completeness auto
termination by (relation "measure (\<lambda>(val, s). length s)") auto

lemma named_arg_text: "named_arg s = Some name \<Longrightarrow> \<exists>r. s = CHR ''@'' # name @ r \<and> name \<noteq> []"
  by (induction s rule: named_arg.induct)
    (auto split: if_splits, metis takeWhile_dropWhile_id)

lemma cut_named_args:
  assumes "query = p @ seg @ s"
    and "cut_pieces query (length p) (find_named_args (length p + length seg) s) = (ps, e)"
  shows "\<exists>ls. length ls = length (arg_names s) \<and> ps = layout ls (replicate (length (arg_names s)) []) \<and> e \<le> length query \<and>
    map (\<lambda>(b, e). substr query (b + 1) e) (find_named_args (length p + length seg) s) = arg_names s \<and>
    (\<forall>val. concat (layout ls (map val (arg_names s))) @ drop e query = seg @ subst_args val s)"
  using assms
proof (induction s arbitrary: p seg ps e rule: arg_names.induct)
  case 1
  then show ?case by (auto intro!: exI [of _ "[]"])
next
  case (2 c cs)
  show ?case
  proof (cases "named_arg (c # cs)")
    case None
    have q: "query = p @ (seg @ [c]) @ cs" using "2.prems"(1) by simp
    have cut: "cut_pieces query (length p) (find_named_args (length p + length (seg @ [c])) cs) = (ps, e)"
      using "2.prems"(2) None by simp
    from "2.IH"(1) [OF None q cut] None show ?thesis by simp
  next
    case (Some name)
    then obtain r where r: "c = CHR ''@''" "cs = name @ r" using named_arg_text by fastforce
    let ?p = "p @ seg @ c # name"
    have q: "query = ?p @ [] @ r" using "2.prems"(1) r by simp
    obtain qs where qs: "cut_pieces query (length ?p) (find_named_args (length ?p + length ([] :: string)) r) = (qs, e)"
      "ps = substr query (length p) (length p + length seg) # [] # qs"
      using "2.prems"(2) Some r by (auto split: prod.splits simp: add.assoc)
    have "substr query (length p) (length p + length seg) = seg"
      "substr query (length p + length seg + 1) (length p + length seg + 1 + length name) = name"
      using "2.prems"(1) r by (simp_all add: substr_def)
    moreover from "2.IH"(2) [OF Some, of ?p "[]" qs e] q qs(1) r obtain ls where
      "length ls = length (arg_names r)" "qs = layout ls (replicate (length (arg_names r)) [])" "e \<le> length query"
      "map (\<lambda>(b, e). substr query (b + 1) e) (find_named_args (length ?p + length ([] :: string)) r) = arg_names r"
      "\<And>val. concat (layout ls (map val (arg_names r))) @ drop e query = subst_args val r"
      by auto
    ultimately show ?thesis using Some r qs(2) by (intro exI [of _ "seg # ls"]) (auto simp: add.assoc)
  qed
qed

text \<open>A query of named arguments whose values are those of \<open>env\<close>, with the marks of the names that are set.\<close>

definition filled :: "string list \<Rightarrow> string list \<Rightarrow> (string \<Rightarrow> string) \<Rightarrow> string set \<Rightarrow> string list \<Rightarrow> NamedArgQuery \<Rightarrow> bool" where
  "filled ls names env sets rest n \<longleftrightarrow>
     length ls = length names \<and> ng_queryPieces n = layout ls (map env names) @ rest \<and>
     ng_argPositions n = positions_from 0 names \<and> distinct (map fst (ng_argSetRecord n)) \<and>
     map_of (ng_argSetRecord n) = (\<lambda>name. if name \<in> set names then Some (name \<in> sets) else None)"

lemma positions_from_Nil: "positions_from k names name = [] \<longleftrightarrow> name \<notin> set names"
  by (induction names arbitrary: k) (auto simp: positions_from_Cons, simp add: positions_from_def)

lemma filled_SetArg:
  assumes "filled ls names env sets rest n"
  shows "filled ls names (env(name := sprintv v)) (insert name sets) rest (ng_SetArg sprintv name v n)"
proof (cases "name \<in> set names")
  case True
  then show ?thesis
    using assms set_named [of ls names "[]" 0 sprintv v name env rest] distinct_update
    by (auto simp: filled_def ng_SetArg_def Let_def positions_from_Nil update_conv' simp del: fun_upd_apply)
       (auto simp: fun_eq_iff)
next
  case False
  then have "map (env(name := sprintv v)) names = map env names" by auto
  with False assms show ?thesis
    by (auto simp: filled_def ng_SetArg_def Let_def positions_from_Nil fun_eq_iff simp del: fun_upd_apply)
qed

lemma filled_New:
  "\<exists>ls rest. filled ls (arg_names query) (\<lambda>_. []) {} rest (NewNamedArgQuery query) \<and>
     (\<forall>val. concat (layout ls (map val (arg_names query)) @ rest) = subst_args val query)"
proof -
  obtain ps e where cut: "cut_pieces query 0 (find_named_args 0 query) = (ps, e)"
    by (cases "cut_pieces query 0 (find_named_args 0 query)")
  let ?names = "arg_names query"
  obtain ls where ls: "length ls = length ?names" "ps = layout ls (replicate (length ?names) [])" "e \<le> length query"
    "map (\<lambda>(b, e). substr query (b + 1) e) (find_named_args 0 query) = ?names"
    "\<And>val. concat (layout ls (map val ?names)) @ drop e query = subst_args val query"
    using cut_named_args [of query "[]" "[]" query ps e] cut by auto
  define rest where "rest = (if int e \<le> int (length query) - 1 then [drop e query] else [])"
  have "concat rest = drop e query" using ls(3) by (simp add: rest_def)
  moreover have marks: "distinct (map fst (fold (\<lambda>name. AList.update name False) ns r))
      \<and> map_of (fold (\<lambda>name. AList.update name False) ns r) =
        (\<lambda>name. if name \<in> set ns then Some False else map_of r name)"
    if "distinct (map fst r)" for ns and r :: "(string \<times> bool) list"
    using that by (induction ns arbitrary: r) (auto simp: distinct_update update_conv' fun_eq_iff)
  have "map (\<lambda>_. []) ?names = replicate (length ?names) []" by (simp add: map_replicate_const)
  moreover have "length (find_named_args 0 query) = length ?names" using ls(4) by (metis length_map)
  ultimately have "filled ls ?names (\<lambda>_. []) {} rest (NewNamedArgQuery query)"
    using cut ls(1,2,4) marks [of "[]" ?names]
    by (auto simp: filled_def NewNamedArgQuery_def Let_def rest_def positions_from_def map_replicate_const fun_eq_iff)
  with ls(5) \<open>concat rest = drop e query\<close> show ?thesis by (intro exI [of _ ls] exI [of _ rest]) simp
qed

lemma filled_SetArgs:
  "filled ls names env sets rest n \<Longrightarrow>
     filled ls names (fold (\<lambda>(name, v) env. env(name := sprintv v)) args env) (sets \<union> fst ` set args) rest
       (fold (\<lambda>(name, v). ng_SetArg sprintv name v) args n)"
proof (induction args arbitrary: env sets n)
  case (Cons a args)
  obtain name v where a: "a = (name, v)" by (cases a)
  show ?case using Cons.IH [OF filled_SetArg [OF Cons.prems, of name sprintv v]] a by simp
qed simp

lemma env_map_of:
  "name \<in> fst ` set args \<Longrightarrow>
     fold (\<lambda>(name, v) env. env(name := sprintv v)) args env name = sprintv (the (map_of (rev args) name))"
proof (induction args arbitrary: env rule: rev_induct)
  case (snoc a args)
  then show ?case by (cases a) (auto simp: map_of_eq_None_iff)
qed simp

lemma subst_args_cong: "(\<And>name. name \<in> set (arg_names s) \<Longrightarrow> f name = g name) \<Longrightarrow> subst_args f s = subst_args g s"
  by (induction s rule: arg_names.induct) (auto split: option.splits)

text \<open>
  C31. Arguments by name: whatever the order in which the marks are visited, the
  query is refused exactly when one of its names has no argument, and otherwise its text has every
  occurrence of every name replaced by the last argument of that name; arguments whose names do
  not occur are ignored.
\<close>

theorem namedArgQueryToSql_spec:
  assumes "\<And>r. set (order r) = set r" and "args \<noteq> []" and "fst (hd args) \<noteq> []"
  shows "if set (arg_names query) \<subseteq> fst ` set args
    then namedArgQueryToSql order sprintv query args =
      Ret (subst_args (\<lambda>name. sprintv (the (map_of (rev args) name))) query)
    else \<exists>msg. namedArgQueryToSql order sprintv query args = Fail (ErrMsg msg)"
proof -
  let ?env = "fold (\<lambda>(name, v) env. env(name := sprintv v)) args (\<lambda>_. [])"
  define n where "n = fold (\<lambda>(name, v). ng_SetArg sprintv name v) args (NewNamedArgQuery query)"
  obtain ls rest where f: "filled ls (arg_names query) ?env (fst ` set args) rest n"
    "\<And>val. concat (layout ls (map val (arg_names query)) @ rest) = subst_args val query"
    using filled_SetArgs [of ls "arg_names query" "\<lambda>_. []" "{}" for ls] filled_New [of query] n_def by fastforce
  obtain name v rs where "args = (name, v) # rs" using assms(2) by (cases args) auto
  then have run: "namedArgQueryToSql order sprintv query args = ng_toSql order n"
    using assms(3) by (simp add: namedArgQueryToSql_def n_def)
  have d: "distinct (map fst (ng_argSetRecord n))" using f(1) by (simp add: filled_def)
  have marks: "(arg, False) \<in> set (ng_argSetRecord n) \<longleftrightarrow> arg \<in> set (arg_names query) - fst ` set args" for arg
    using f(1) map_of_eq_Some_iff [OF d, of arg False] by (auto simp: filled_def split: if_splits)
  define unset where "unset = [arg. (arg, isSet) \<leftarrow> order (ng_argSetRecord n), \<not> isSet]"
  have "arg \<in> set unset \<longleftrightarrow> (arg, False) \<in> set (ng_argSetRecord n)" for arg
    using assms(1) by (auto simp: unset_def split: if_splits)
  with marks have "set unset = set (arg_names query) - fst ` set args" by blast
  then have "unset = [] \<longleftrightarrow> set (arg_names query) \<subseteq> fst ` set args" by (metis Diff_eq_empty_iff set_empty)
  moreover have "concat (ng_queryPieces n) = subst_args ?env query" using f by (simp add: filled_def)
  moreover have "subst_args ?env query = subst_args (\<lambda>name. sprintv (the (map_of (rev args) name))) query"
    if "set (arg_names query) \<subseteq> fst ` set args"
    using that by (intro subst_args_cong env_map_of) auto
  ultimately show ?thesis
    unfolding run ng_toSql_def Let_def unset_def [symmetric] by (cases unset) auto
qed

theorem namedArgQueryToSql_spec_witness:
  "namedArgQueryToSql rev id ''a=@x and b=@y or @x'' [(''x'', ''1''), (''y'', ''2''), (''z'', ''3'')] = Ret ''a=1 and b=2 or 1''"
proof -
  have "arg_names ''a=@x and b=@y or @x'' = [''x'', ''y'', ''x'']" by code_simp
  moreover have "subst_args (\<lambda>name. the (map_of (rev [(''x'', ''1''), (''y'', ''2''), (''z'', ''3'')]) name)) ''a=@x and b=@y or @x'' =
    ''a=1 and b=2 or 1''" by code_simp
  ultimately show ?thesis
    using namedArgQueryToSql_spec [of rev "[(''x'', ''1''), (''y'', ''2''), (''z'', ''3'')]" "''a=@x and b=@y or @x''" id] by simp
qed

end
