(* ===== verification/Urls.thy ===== *)
theory Urls
  imports Resources
begin

section \<open>URLs\<close>

text \<open>
  The parts of \<open>net/url\<close> that the data source names and the log views are made of: \<open>url.Parse\<close>, \<open>URL.String\<close>,
  \<open>Values.Encode\<close> and \<open>ParseQuery\<close>, with their escaping, and that they undo one another. Opaque URLs and the raw forms of
  paths are left out: the code builds its URLs from a scheme, a user, a host, a path and a query. A zone
  of an IPv6 host is not supported.
\<close>

subsection \<open>Escaping\<close>

datatype encoding = EncodePath | EncodeHost | EncodeUserPassword | EncodeQueryComponent | EncodeFragment

definition shouldEscape :: "encoding \<Rightarrow> char \<Rightarrow> bool" where
  "shouldEscape mode c =
     (if unreserved c then False
      else case mode of
        EncodePath \<Rightarrow> c \<notin> set ''$&+,/:;=@''
      | EncodeHost \<Rightarrow> c \<notin> set ''!$&()*+,;=:[]<>'' \<union> {SQ, DQ}
      | EncodeUserPassword \<Rightarrow> c \<notin> set ''$&+,;=''
      | EncodeQueryComponent \<Rightarrow> True
      | EncodeFragment \<Rightarrow> c \<notin> set ''$&+,/:;=?@!()*'')"

definition escape_char :: "encoding \<Rightarrow> char \<Rightarrow> string" where
  "escape_char mode c =
     (if \<not> shouldEscape mode c then [c]
      else if c = CHR '' '' \<and> mode = EncodeQueryComponent then ''+'' else percent c)"

definition url_escape :: "encoding \<Rightarrow> string \<Rightarrow> string" where
  "url_escape mode s = concat (map (escape_char mode) s)"

definition hex_val :: "char \<Rightarrow> nat option" where
  "hex_val c =
     (let n = of_char c :: nat in
      if 48 \<le> n \<and> n \<le> 57 then Some (n - 48) else if 65 \<le> n \<and> n \<le> 70 then Some (n - 55)
      else if 97 \<le> n \<and> n \<le> 102 then Some (n - 87) else None)"

text \<open>In a host only bytes outside ASCII and the percent sign itself may be written with a percent sign.\<close>

fun url_unescape :: "encoding \<Rightarrow> string \<Rightarrow> string outcome" where
  "url_unescape mode [] = Ret []"
| "url_unescape mode (c # cs) =
     (if c = CHR ''%'' then
        (case cs of
           a # b # rest \<Rightarrow>
             (case (hex_val a, hex_val b) of
                (Some m, Some n) \<Rightarrow>
                  if mode = EncodeHost \<and> m < 8 \<and> (m, n) \<noteq> (2, 5) then Fail (ErrMsg ''invalid URL escape'')
                  else omap (\<lambda>r. char_of (16 * m + n) # r) (url_unescape mode rest)
              | _ \<Rightarrow> Fail (ErrMsg ''invalid URL escape''))
         | _ \<Rightarrow> Fail (ErrMsg ''invalid URL escape''))
      else if c = CHR ''+'' \<and> mode = EncodeQueryComponent then omap (\<lambda>r. CHR '' '' # r) (url_unescape mode cs)
      else if mode = EncodeHost \<and> of_char c < (128 :: nat) \<and> shouldEscape mode c then Fail (ErrMsg ''invalid character in host name'')
      else omap (\<lambda>r. c # r) (url_unescape mode cs))"

subsection \<open>Parsing\<close>

text \<open>\<open>strings.Cut\<close> at a character: what is in front of it, and what is behind it if it occurs.\<close>

definition Cut :: "char \<Rightarrow> string \<Rightarrow> string \<times> string option" where
  "Cut c s = (takeWhile (\<lambda>x. x \<noteq> c) s, case dropWhile (\<lambda>x. x \<noteq> c) s of [] \<Rightarrow> None | _ # r \<Rightarrow> Some r)"

text \<open>The text behind the last occurrence of a character, with the text in front of it.\<close>

definition CutLast :: "char \<Rightarrow> string \<Rightarrow> (string \<times> string) option" where
  "CutLast c s = (case Cut c (rev s) of (_, None) \<Rightarrow> None | (b, Some a) \<Rightarrow> Some (rev a, rev b))"

record URL =
  url_Scheme :: string
  url_User :: "(string \<times> string option) option"
  url_Host :: string
  url_Path :: string
  url_RawQuery :: string

definition scheme_char :: "char \<Rightarrow> bool" where
  "scheme_char c \<longleftrightarrow> is_letter c \<or> is_digit c \<or> c \<in> {CHR ''+'', CHR ''-'', CHR ''.''}"

text \<open>The scheme and the rest of a URL.\<close>

definition cut_scheme :: "string \<Rightarrow> (string \<times> string) outcome" where
  "cut_scheme s =
     (let p = takeWhile scheme_char s in
      case dropWhile scheme_char s of
        [] \<Rightarrow> Ret ([], s)
      | c # r \<Rightarrow>
          if p = [] then if c = CHR '':'' then Fail (ErrMsg ''missing protocol scheme'') else Ret ([], s)
          else if is_letter (hd p) \<and> c = CHR '':'' then Ret (p, r) else Ret ([], s))"

definition validOptionalPort :: "string \<Rightarrow> bool" where
  "validOptionalPort port = (case port of [] \<Rightarrow> True | c # ds \<Rightarrow> c = CHR '':'' \<and> list_all is_digit ds)"

definition parseHost :: "string \<Rightarrow> string outcome" where
  "parseHost host =
     (if HasPrefix host ''['' then
        (case CutLast (CHR '']'') host of
           None \<Rightarrow> Fail (ErrMsg ''missing ']' in host'')
         | Some (a, colonPort) \<Rightarrow>
             if validOptionalPort colonPort then url_unescape EncodeHost host else Fail (ErrMsg ''invalid port after host''))
      else (case CutLast (CHR '':'') host of
          None \<Rightarrow> url_unescape EncodeHost host
        | Some (a, port) \<Rightarrow>
            if list_all is_digit port then url_unescape EncodeHost host else Fail (ErrMsg ''invalid port after host'')))"

definition validUserinfo :: "string \<Rightarrow> bool" where
  "validUserinfo s = list_all (\<lambda>c. is_letter c \<or> is_digit c \<or> c \<in> set ''-._:~!$&()*+,;=%@'' \<union> {SQ}) s"

definition parseUserinfo :: "string \<Rightarrow> (string \<times> string option) outcome" where
  "parseUserinfo s =
     (if \<not> validUserinfo s then Fail (ErrMsg ''net/url: invalid userinfo'')
      else case Cut (CHR '':'') s of
        (u, None) \<Rightarrow> omap (\<lambda>n. (n, None)) (url_unescape EncodeUserPassword u)
      | (u, Some p) \<Rightarrow>
          obind (url_unescape EncodeUserPassword u) (\<lambda>n. omap (\<lambda>q. (n, Some q)) (url_unescape EncodeUserPassword p)))"

definition parseAuthority :: "string \<Rightarrow> ((string \<times> string option) option \<times> string) outcome" where
  "parseAuthority authority =
     (case CutLast (CHR ''@'') authority of
        None \<Rightarrow> omap (\<lambda>h. (None, h)) (parseHost authority)
      | Some (userinfo, host) \<Rightarrow> obind (parseHost host) (\<lambda>h. omap (\<lambda>u. (Some u, h)) (parseUserinfo userinfo)))"

definition is_ctl :: "char \<Rightarrow> bool" where
  "is_ctl c \<longleftrightarrow> of_char c < (32 :: nat) \<or> of_char c = (127 :: nat)"

text \<open>
  \<open>url.Parse\<close>. The fragment is only checked. A URL without a scheme whose first segment has a colon is
  refused; an opaque URL has neither host nor path.
\<close>

definition url_Parse :: "string \<Rightarrow> URL outcome" where
  "url_Parse rawURL =
     (let (u, frag) = Cut (CHR ''#'') rawURL in
      obind (omap (\<lambda>_. ()) (case frag of None \<Rightarrow> Ret [] | Some f \<Rightarrow> url_unescape EncodeFragment f)) (\<lambda>_.
      if \<not> list_all (\<lambda>c. \<not> is_ctl c) u then Fail (ErrMsg ''net/url: invalid control character in URL'')
      else obind (cut_scheme u) (\<lambda>(scheme, rest0).
        let (rest, q) = Cut (CHR ''?'') rest0; scheme = ToLower scheme; query = (case q of None \<Rightarrow> [] | Some r \<Rightarrow> r) in
        if \<not> HasPrefix rest ''/'' \<and> scheme \<noteq> []
        then Ret \<lparr>url_Scheme = scheme, url_User = None, url_Host = [], url_Path = [], url_RawQuery = query\<rparr>
        else if \<not> HasPrefix rest ''/'' \<and> CHR '':'' \<in> set (fst (Cut (CHR ''/'') rest))
        then Fail (ErrMsg ''first path segment in URL cannot contain colon'')
        else if (scheme \<noteq> [] \<or> \<not> HasPrefix rest ''///'') \<and> HasPrefix rest ''//''
        then let (authority, p) = Cut (CHR ''/'') (drop 2 rest) in
             obind (parseAuthority authority) (\<lambda>(user, host).
             omap (\<lambda>path. \<lparr>url_Scheme = scheme, url_User = user, url_Host = host, url_Path = path, url_RawQuery = query\<rparr>)
               (url_unescape EncodePath (case p of None \<Rightarrow> [] | Some r \<Rightarrow> CHR ''/'' # r)))
        else omap (\<lambda>path. \<lparr>url_Scheme = scheme, url_User = None, url_Host = [], url_Path = path, url_RawQuery = query\<rparr>)
               (url_unescape EncodePath rest))))"

subsection \<open>Printing\<close>

definition Userinfo_String :: "string \<times> string option \<Rightarrow> string" where
  "Userinfo_String u =
     (case u of (username, password) \<Rightarrow>
      if username \<noteq> [] \<or> (password \<noteq> None \<and> password \<noteq> Some [])
      then url_escape EncodeUserPassword username @
             (case password of None \<Rightarrow> [] | Some p \<Rightarrow> '':'' @ url_escape EncodeUserPassword p)
      else [])"

definition EscapedPath :: "string \<Rightarrow> string" where
  "EscapedPath p = (if p = ''*'' then ''*'' else url_escape EncodePath p)"

text \<open>The text of a URL; a relative path whose first segment has a colon gets \<open>./\<close> in front.\<close>

definition URL_String :: "URL \<Rightarrow> string" where
  "URL_String u =
     (let scheme = (if url_Scheme u \<noteq> [] then url_Scheme u @ '':'' else []);
          auth = (if url_Scheme u \<noteq> [] \<or> url_Host u \<noteq> [] \<or> url_User u \<noteq> None
                  then (if url_Host u \<noteq> [] \<or> url_Path u \<noteq> [] \<or> url_User u \<noteq> None then ''//'' else []) @
                       (case url_User u of None \<Rightarrow> [] | Some ui \<Rightarrow> Userinfo_String ui @ ''@'') @
                       url_escape EncodeHost (url_Host u)
                  else []);
          path = EscapedPath (url_Path u);
          slash = (if path \<noteq> [] \<and> hd path \<noteq> CHR ''/'' \<and> url_Host u \<noteq> [] then ''/'' else []);
          dot = (if scheme @ auth @ slash = [] \<and> CHR '':'' \<in> set (fst (Cut (CHR ''/'') path)) then ''./'' else [])
      in scheme @ auth @ slash @ dot @ path @ (if url_RawQuery u = [] then [] else ''?'' @ url_RawQuery u))"

subsection \<open>Queries\<close>

text \<open>
  \<open>url.Values\<close> as an association list: a key and its values. \<open>ParseQuery\<close> skips the pairs it cannot read;
  \<open>URL.Query\<close> drops its error.
\<close>

type_synonym url_values = "(string \<times> string list) list"

definition uv_Get :: "url_values \<Rightarrow> string \<Rightarrow> string" where
  "uv_Get q k = (case map_of q k of Some (v # _) \<Rightarrow> v | _ \<Rightarrow> [])"

definition uv_Set :: "string \<Rightarrow> string \<Rightarrow> url_values \<Rightarrow> url_values" where
  "uv_Set k v q = AList.update k [v] q"

definition uv_Del :: "string \<Rightarrow> url_values \<Rightarrow> url_values" where
  "uv_Del k q = filter (\<lambda>kv. fst kv \<noteq> k) q"

definition uv_Add :: "string \<Rightarrow> string \<Rightarrow> url_values \<Rightarrow> url_values" where
  "uv_Add k v q = AList.update k ((case map_of q k of None \<Rightarrow> [] | Some vs \<Rightarrow> vs) @ [v]) q"

definition Values_Encode :: "url_values \<Rightarrow> string" where
  "Values_Encode q =
     Join (concat (map (\<lambda>(k, vs). map (\<lambda>v. url_escape EncodeQueryComponent k @ ''='' @ url_escape EncodeQueryComponent v) vs)
            (sort_key fst q))) ''&''"

definition parse_pair :: "string \<Rightarrow> url_values \<Rightarrow> url_values" where
  "parse_pair p q =
     (if CHR '';'' \<in> set p \<or> p = [] then q
      else case Cut (CHR ''='') p of (k, v) \<Rightarrow>
        (case (url_unescape EncodeQueryComponent k, url_unescape EncodeQueryComponent (case v of None \<Rightarrow> [] | Some r \<Rightarrow> r)) of
           (Ret k', Ret v') \<Rightarrow> uv_Add k' v' q
         | _ \<Rightarrow> q))"

definition ParseQuery :: "string \<Rightarrow> url_values" where
  "ParseQuery query = fold parse_pair (Split (CHR ''&'') query) []"

subsection \<open>Cutting\<close>

lemma Cut_at: "c \<notin> set a \<Longrightarrow> Cut c (a @ c # b) = (a, Some b)"
  and Cut_none: "c \<notin> set a \<Longrightarrow> Cut c a = (a, None)"
  by (induction a) (auto simp: Cut_def)

lemma CutLast_at: "c \<notin> set b \<Longrightarrow> CutLast c (a @ c # b) = Some (a, b)"
  using Cut_at [of c "rev b" "rev a"] by (simp add: CutLast_def)

lemma CutLast_none: "c \<notin> set a \<Longrightarrow> CutLast c a = None"
  using Cut_none [of c "rev a"] by (simp add: CutLast_def)

lemma HasPrefix_append: "HasPrefix (p @ r) p"
  by (simp add: HasPrefix_iff)

subsection \<open>Escaped text is read back\<close>

lemma hex_val_digit: "n < 16 \<Longrightarrow> hex_val (hex_digit n) = Some n"
  by (auto simp: hex_val_def hex_digit_def)

lemma escape_char_cases:
  "escape_char mode c = [c] \<and> \<not> shouldEscape mode c \<or> escape_char mode c = percent c \<or>
   escape_char mode c = ''+'' \<and> c = CHR '' '' \<and> mode = EncodeQueryComponent"
  by (simp add: escape_char_def)

lemma shouldEscape_special:
  "shouldEscape mode CHR ''%''" "shouldEscape EncodeQueryComponent CHR ''+''"
  by (cases mode; simp add: shouldEscape_def unreserved_def is_letter_def is_digit_def less_eq_char_def)
    (simp add: shouldEscape_def unreserved_def is_letter_def is_digit_def less_eq_char_def)

lemma unescape_percent:
  assumes "mode \<noteq> EncodeHost"
  shows "url_unescape mode (percent c @ rest) = omap (\<lambda>r. c # r) (url_unescape mode rest)"
proof -
  have "of_char c div 16 < (16 :: nat)" using of_char_less [of c] by (simp add: less_mult_imp_div_less)
  moreover have "char_of (16 * (of_char c div 16) + of_char c mod 16 :: nat) = c" by simp
  ultimately show ?thesis using assms by (simp add: percent_def hex_val_digit)
qed

lemma unescape_escape: "mode \<noteq> EncodeHost \<Longrightarrow> url_unescape mode (url_escape mode s) = Ret s"
proof (induction s)
  case (Cons c s)
  from escape_char_cases [of mode c] show ?case
  proof (elim disjE conjE)
    assume e: "escape_char mode c = [c]" "\<not> shouldEscape mode c"
    then have "c \<noteq> CHR ''%''" "c \<noteq> CHR ''+'' \<or> mode \<noteq> EncodeQueryComponent" using shouldEscape_special by auto
    with e Cons show ?thesis by (auto simp: url_escape_def)
  next
    assume "escape_char mode c = percent c"
    with Cons unescape_percent show ?thesis by (simp add: url_escape_def)
  next
    assume "escape_char mode c = ''+''" "c = CHR '' ''" "mode = EncodeQueryComponent"
    with Cons show ?thesis by (simp add: url_escape_def)
  qed
qed (simp add: url_escape_def)

lemma escape_id: "list_all (\<lambda>c. \<not> shouldEscape mode c) s \<Longrightarrow> url_escape mode s = s"
  by (induction s) (simp_all add: url_escape_def escape_char_def)

text \<open>The characters of an escaped text.\<close>

definition escaped_char :: "encoding \<Rightarrow> char \<Rightarrow> bool" where
  "escaped_char mode c \<longleftrightarrow> \<not> shouldEscape mode c \<or> c = CHR ''%'' \<or> (c = CHR ''+'' \<and> mode = EncodeQueryComponent)"

lemma hex_digit_unreserved: "n < 16 \<Longrightarrow> unreserved (hex_digit n)"
  by (auto simp: hex_digit_def unreserved_def is_letter_def is_digit_def less_eq_char_def)

lemma set_escape: "list_all (escaped_char mode) (url_escape mode s)"
proof (induction s)
  case (Cons c s)
  have "list_all (escaped_char mode) (escape_char mode c)"
  proof -
    have "of_char c div 16 < (16 :: nat)" "of_char c mod 16 < (16 :: nat)"
      using of_char_less [of c] by (simp_all add: less_mult_imp_div_less)
    then have "list_all (escaped_char mode) (percent c)"
      using hex_digit_unreserved by (simp add: percent_def escaped_char_def shouldEscape_def)
    then show ?thesis using escape_char_cases [of mode c] by (auto simp: escaped_char_def)
  qed
  with Cons show ?case by (simp add: url_escape_def)
qed (simp add: url_escape_def)

lemmas url_char_defs = escaped_char_def shouldEscape_def unreserved_def is_letter_def is_digit_def less_eq_char_def

lemma not_escaped_char:
  "\<not> escaped_char EncodeQueryComponent CHR ''&''" "\<not> escaped_char EncodeQueryComponent CHR '';''"
  "\<not> escaped_char EncodeQueryComponent CHR ''=''" "\<not> escaped_char EncodeUserPassword CHR '':''"
  "\<not> escaped_char EncodeUserPassword CHR ''/''" "\<not> escaped_char EncodeUserPassword CHR ''@''"
  "\<not> escaped_char EncodeUserPassword CHR ''?''" "\<not> escaped_char EncodePath CHR ''?''"
  "\<not> escaped_char EncodeHost CHR ''/''" "\<not> escaped_char EncodeHost CHR ''@''" "\<not> escaped_char EncodeHost CHR ''?''"
  "mode \<noteq> EncodeFragment \<Longrightarrow> \<not> escaped_char mode CHR ''#''"
  by (cases mode; simp add: url_char_defs)+

lemma escaped_char_not_ctl:
  assumes "escaped_char mode c"
  shows "\<not> is_ctl c"
proof
  assume c: "is_ctl c"
  then have n: "of_char c < (32 :: nat) \<or> of_char c = (127 :: nat)" by (simp add: is_ctl_def)
  have "c \<noteq> d" if "of_char d \<ge> (32 :: nat)" "of_char d \<noteq> (127 :: nat)" for d using that n by auto
  from this [of "CHR ''%''"] this [of "CHR ''+''"] have ne: "c \<noteq> CHR ''%''" "c \<noteq> CHR ''+''" by simp_all
  have "c \<notin> set cs" if "list_all (\<lambda>d. of_char d \<ge> (32 :: nat) \<and> of_char d \<noteq> (127 :: nat)) cs" for cs
    using that n by (auto simp: list_all_iff)
  then have "c \<notin> set ''$&+,/:;=@''" "c \<notin> set ''!$&()*+,;=:[]<>'' \<union> {SQ, DQ}" "c \<notin> set ''$&+,;=''" "c \<notin> set ''$&+,/:;=?@!()*''"
    using n by (simp_all add: list_all_iff) auto
  moreover have "\<not> unreserved c" using n by (auto simp: unreserved_def is_letter_def is_digit_def less_eq_char_def)
  ultimately have "shouldEscape mode c" unfolding shouldEscape_def by (simp del: set_simps split: encoding.split)
  with assms ne show False by (simp add: escaped_char_def)
qed

subsection \<open>Queries are read back\<close>

lemma parse_pair_encoded:
  "parse_pair (url_escape EncodeQueryComponent k @ ''='' @ url_escape EncodeQueryComponent v) q = uv_Add k v q"
proof -
  let ?e = "url_escape EncodeQueryComponent"
  have no: "\<not> escaped_char EncodeQueryComponent c \<Longrightarrow> c \<notin> set (?e t)" for c t
    using set_escape [of EncodeQueryComponent t] by (auto simp: list_all_iff)
  have "CHR '';'' \<notin> set (?e k @ ''='' @ ?e v)" using no not_escaped_char by simp
  moreover have "Cut CHR ''='' (?e k @ ''='' @ ?e v) = (?e k, Some (?e v))"
    using Cut_at [of "CHR ''=''" "?e k" "?e v"] no not_escaped_char by simp
  ultimately show ?thesis by (simp add: parse_pair_def unescape_escape)
qed

lemma ParseQuery_Join:
  "ParseQuery (Join (map (\<lambda>(k, v). url_escape EncodeQueryComponent k @ ''='' @ url_escape EncodeQueryComponent v) kvs) ''&'') =
     fold (\<lambda>(k, v). uv_Add k v) kvs []"
proof (cases "kvs = []")
  case False
  let ?enc = "\<lambda>(k, v). url_escape EncodeQueryComponent k @ ''='' @ url_escape EncodeQueryComponent v"
  have "CHR ''&'' \<notin> set (url_escape EncodeQueryComponent t)" for t
    using set_escape [of EncodeQueryComponent t] not_escaped_char(1) by (auto simp: list_all_iff)
  then have "\<forall>e \<in> set (map ?enc kvs). CHR ''&'' \<notin> set e" by auto
  with False have "Split CHR ''&'' (Join (map ?enc kvs) ''&'') = map ?enc kvs"
    using Split_Join_inverse [of "map ?enc kvs" "CHR ''&''"] by simp
  moreover have "fold parse_pair (map ?enc kvs) q = fold (\<lambda>(k, v). uv_Add k v) kvs q" for q
    by (induction kvs arbitrary: q) (auto simp: parse_pair_encoded [simplified])
  ultimately show ?thesis by (simp add: ParseQuery_def)
qed (simp add: ParseQuery_def parse_pair_def)

lemma update_new: "k \<notin> fst ` set q \<Longrightarrow> AList.update k v q = q @ [(k, v)]"
  by (induction q) auto

lemma fold_uv_Add_values:
  "k \<notin> fst ` set q \<Longrightarrow> fold (\<lambda>v. uv_Add k v) vs (q @ [(k, us)]) = q @ [(k, us @ vs)]"
proof (induction vs arbitrary: us)
  case (Cons v vs)
  have "uv_Add k v (q @ [(k, us)]) = q @ [(k, us @ [v])]"
  proof -
    have "AList.update k w (q @ [(k, us)]) = q @ [(k, w)]" for w using Cons.prems by (induction q) auto
    moreover have "map_of (q @ [(k, us)]) k = Some us" using Cons.prems by (induction q) auto
    ultimately show ?thesis by (simp add: uv_Add_def)
  qed
  with Cons show ?case by simp
qed simp

lemma fold_uv_Add:
  assumes "distinct (map fst q)" "\<forall>kv \<in> set q. snd kv \<noteq> []" "fst ` set q \<inter> fst ` set q0 = {}"
  shows "fold (\<lambda>(k, v). uv_Add k v) (concat (map (\<lambda>(k, vs). map (Pair k) vs) q)) q0 = q0 @ q"
  using assms
proof (induction q arbitrary: q0)
  case (Cons kv q)
  obtain k v vs where kv: "kv = (k, v # vs)" using Cons.prems(2) by (cases kv; cases "snd kv") auto
  have k: "k \<notin> fst ` set q0" using Cons.prems(3) kv by auto
  then have one: "uv_Add k v q0 = q0 @ [(k, [v])]"
    by (simp add: uv_Add_def update_new map_of_eq_None_iff [THEN iffD2])
  have "fold (\<lambda>(k, v). uv_Add k v) (map (Pair k) vs) r = fold (\<lambda>v. uv_Add k v) vs r" for r
    by (induction vs arbitrary: r) auto
  then have "fold (\<lambda>(k, v). uv_Add k v) (map (Pair k) (v # vs)) q0 = q0 @ [(k, v # vs)]"
    using fold_uv_Add_values [OF k, of vs "[v]"] one by simp
  moreover have "fold (\<lambda>(k, v). uv_Add k v) (concat (map (\<lambda>(k, vs). map (Pair k) vs) q)) (q0 @ [(k, v # vs)]) =
      (q0 @ [(k, v # vs)]) @ q"
    using Cons.prems kv by (intro Cons.IH) auto
  ultimately show ?case by (simp add: kv)
qed simp

text \<open>A query of distinct keys with values comes back in the order of its keys.\<close>

lemma ParseQuery_Encode:
  assumes "distinct (map fst q)" "\<forall>kv \<in> set q. snd kv \<noteq> []"
  shows "ParseQuery (Values_Encode q) = sort_key fst q"
proof -
  let ?q = "sort_key fst q"
  let ?enc = "\<lambda>(k, v). url_escape EncodeQueryComponent k @ ''='' @ url_escape EncodeQueryComponent v"
  have "concat (map (\<lambda>(k, vs). map (\<lambda>v. url_escape EncodeQueryComponent k @ ''='' @ url_escape EncodeQueryComponent v) vs) ?q) =
      map ?enc (concat (map (\<lambda>(k, vs). map (Pair k) vs) ?q))"
    by (simp add: map_concat comp_def case_prod_unfold)
  then have "ParseQuery (Values_Encode q) = fold (\<lambda>(k, v). uv_Add k v) (concat (map (\<lambda>(k, vs). map (Pair k) vs) ?q)) []"
    unfolding Values_Encode_def using ParseQuery_Join by simp
  also have "\<dots> = [] @ ?q"
    using assms by (intro fold_uv_Add) (auto simp: distinct_map inj_on_def)
  finally show ?thesis by simp
qed

lemma map_of_sort_key: "distinct (map fst q) \<Longrightarrow> map_of (sort_key fst q) = map_of q"
  by (subst map_of_inject_set) (auto simp: distinct_map)

text \<open>The characters of an encoded query.\<close>

lemma set_Join: "set (Join xs sep) \<subseteq> \<Union> (set ` set xs) \<union> set sep"
  by (induction xs sep rule: Join.induct) auto

lemma set_Encode: "c \<in> set (Values_Encode q) \<Longrightarrow> escaped_char EncodeQueryComponent c \<or> c = CHR ''='' \<or> c = CHR ''&''"
proof -
  assume "c \<in> set (Values_Encode q)"
  then have "c = CHR ''&'' \<or> (\<exists>k v. c \<in> set (url_escape EncodeQueryComponent k @ ''='' @ url_escape EncodeQueryComponent v))"
    unfolding Values_Encode_def using set_Join by fastforce
  then show ?thesis using set_escape [of EncodeQueryComponent] by (auto simp: list_all_iff)
qed

subsection \<open>URLs are read back\<close>

text \<open>
  A scheme in lower case, a host that needs no escaping and whose port is a number, and an absolute path: the
  parts of the URLs the code builds.
\<close>

definition scheme_ok :: "string \<Rightarrow> bool" where
  "scheme_ok s \<longleftrightarrow> s \<noteq> [] \<and> is_letter (hd s) \<and> list_all scheme_char s \<and> ToLower s = s"

definition host_ok :: "string \<Rightarrow> bool" where
  "host_ok h \<longleftrightarrow> h \<noteq> [] \<and> list_all (\<lambda>c. \<not> shouldEscape EncodeHost c) h \<and> parseHost h = Ret h"

definition path_ok :: "string \<Rightarrow> bool" where
  "path_ok p \<longleftrightarrow> p = [] \<or> hd p = CHR ''/''"

definition url_ok :: "URL \<Rightarrow> bool" where
  "url_ok u \<longleftrightarrow> scheme_ok (url_Scheme u) \<and> host_ok (url_Host u) \<and> path_ok (url_Path u) \<and>
     (case url_User u of None \<Rightarrow> True | Some (n, p) \<Rightarrow> n \<noteq> [] \<and> p \<noteq> None) \<and>
     list_all (\<lambda>c. c \<noteq> CHR ''#'' \<and> \<not> is_ctl c) (url_RawQuery u)"

lemma escape_absolute: "path_ok p \<Longrightarrow> path_ok (url_escape EncodePath p)"
  by (cases p) (auto simp: path_ok_def url_escape_def escape_char_def url_char_defs)

lemma escape_userinfo_valid:
  "list_all (\<lambda>c. is_letter c \<or> is_digit c \<or> c \<in> set ''-._:~!$&()*+,;=%@'' \<union> {SQ}) (url_escape EncodeUserPassword s)"
  using set_escape [of EncodeUserPassword s]
  by (rule list.pred_mono_strong) (auto simp: escaped_char_def shouldEscape_def unreserved_def split: if_splits)

lemma parseUserinfo_String: "n \<noteq> [] \<Longrightarrow> parseUserinfo (Userinfo_String (n, Some p)) = Ret (n, Some p)"
proof -
  assume n: "n \<noteq> []"
  let ?e = "url_escape EncodeUserPassword"
  have "CHR '':'' \<notin> set (?e n)" using set_escape [of EncodeUserPassword n] not_escaped_char by (auto simp: list_all_iff)
  then have "Cut CHR '':'' (?e n @ '':'' @ ?e p) = (?e n, Some (?e p))" using Cut_at [of "CHR '':''" "?e n" "?e p"] by simp
  moreover have "validUserinfo (?e n @ '':'' @ ?e p)" using escape_userinfo_valid by (simp add: validUserinfo_def)
  ultimately show ?thesis using n by (simp add: Userinfo_String_def parseUserinfo_def unescape_escape)
qed

text \<open>The authority of a URL: it holds no slash, and is read back.\<close>

definition authority_text :: "URL \<Rightarrow> string" where
  "authority_text u = (case url_User u of None \<Rightarrow> [] | Some ui \<Rightarrow> Userinfo_String ui @ ''@'') @ url_Host u"

lemma host_chars: "host_ok h \<Longrightarrow> c \<in> set h \<Longrightarrow> escaped_char EncodeHost c"
  by (auto simp: host_ok_def list_all_iff escaped_char_def)

lemma authority_chars:
  assumes "url_ok u" "c \<in> set (authority_text u)"
  shows "escaped_char EncodeHost c \<or> escaped_char EncodeUserPassword c \<or> c = CHR ''@'' \<or> c = CHR '':''"
proof -
  have "c \<in> set (Userinfo_String ui) \<Longrightarrow> escaped_char EncodeUserPassword c \<or> c = CHR '':''" for ui
    using set_escape [of EncodeUserPassword] by (auto simp: Userinfo_String_def list_all_iff split: option.splits if_splits)
  moreover have "c \<in> set (url_Host u) \<Longrightarrow> escaped_char EncodeHost c"
    using assms(1) host_chars [of "url_Host u" c] by (simp add: url_ok_def)
  ultimately show ?thesis using assms(2) by (auto simp: authority_text_def split: option.splits)
qed

lemma authority_no: "url_ok u \<Longrightarrow> c \<in> set ''/?#'' \<Longrightarrow> c \<notin> set (authority_text u)"
  using authority_chars [of u c] by (auto simp: url_char_defs)

lemma parseAuthority_text:
  assumes "url_ok u"
  shows "parseAuthority (authority_text u) = Ret (url_User u, url_Host u)"
proof -
  have h: "parseHost (url_Host u) = Ret (url_Host u)" "CHR ''@'' \<notin> set (url_Host u)"
    using assms host_chars not_escaped_char by (auto simp: url_ok_def host_ok_def)
  show ?thesis
  proof (cases "url_User u")
    case None
    then show ?thesis using h by (simp add: parseAuthority_def authority_text_def CutLast_none)
  next
    case (Some ui)
    then obtain n p where ui: "ui = (n, Some p)" "n \<noteq> []" using assms by (cases ui) (auto simp: url_ok_def)
    have "CutLast CHR ''@'' (Userinfo_String ui @ ''@'' @ url_Host u) = Some (Userinfo_String ui, url_Host u)"
      using CutLast_at [OF h(2)] by simp
    then show ?thesis using Some ui h(1) parseUserinfo_String [of n p] by (simp add: parseAuthority_def authority_text_def)
  qed
qed

lemma URL_String_ok:
  assumes "url_ok u"
  shows "URL_String u = url_Scheme u @ '':'' @ ''//'' @ authority_text u @ url_escape EncodePath (url_Path u) @
    (if url_RawQuery u = [] then [] else ''?'' @ url_RawQuery u)"
proof -
  have h: "url_escape EncodeHost (url_Host u) = url_Host u" "url_Host u \<noteq> []" "url_Scheme u \<noteq> []"
    using assms by (auto simp: url_ok_def host_ok_def scheme_ok_def escape_id)
  have "url_Path u \<noteq> ''*''" using assms by (auto simp: url_ok_def path_ok_def)
  then show ?thesis
    using h escape_absolute [of "url_Path u"] assms
    by (auto simp: URL_String_def Let_def EscapedPath_def authority_text_def url_ok_def path_ok_def split: option.splits)
qed

lemma cut_scheme_ok:
  assumes "scheme_ok s"
  shows "cut_scheme (s @ '':'' @ r) = Ret (s, r)"
proof -
  have "\<not> scheme_char CHR '':''" by (simp add: scheme_char_def is_letter_def is_digit_def less_eq_char_def)
  then have "takeWhile scheme_char (s @ '':'' @ r) = s" "dropWhile scheme_char (s @ '':'' @ r) = CHR '':'' # r"
    using assms by (simp_all add: scheme_ok_def list_all_iff)
  then show ?thesis using assms by (simp add: cut_scheme_def scheme_ok_def)
qed

lemma scheme_char_escaped: "scheme_char c \<Longrightarrow> escaped_char EncodeUserPassword c"
  by (auto simp: scheme_char_def escaped_char_def shouldEscape_def unreserved_def)

lemma url_text_chars:
  assumes "url_ok u" "c \<in> set (URL_String u)"
  shows "c \<noteq> CHR ''#'' \<and> \<not> is_ctl c"
proof -
  have plain: "c \<noteq> CHR ''#'' \<and> \<not> is_ctl c" if "escaped_char mode c" "mode \<noteq> EncodeFragment" for mode
    using that escaped_char_not_ctl not_escaped_char(12) by metis
  have "c \<in> set (url_Scheme u) \<Longrightarrow> c \<noteq> CHR ''#'' \<and> \<not> is_ctl c"
    using assms(1) plain [of EncodeUserPassword] scheme_char_escaped by (simp add: url_ok_def scheme_ok_def list_all_iff)
  moreover have "c \<in> set (authority_text u) \<Longrightarrow> c \<noteq> CHR ''#'' \<and> \<not> is_ctl c"
    using authority_chars [OF assms(1), of c] plain [of EncodeHost] plain [of EncodeUserPassword] by (auto simp: is_ctl_def)
  moreover have "c \<in> set (url_escape EncodePath (url_Path u)) \<Longrightarrow> c \<noteq> CHR ''#'' \<and> \<not> is_ctl c"
    using set_escape [of EncodePath "url_Path u"] plain [of EncodePath] by (auto simp: list_all_iff)
  moreover have "c \<in> set (url_RawQuery u) \<Longrightarrow> c \<noteq> CHR ''#'' \<and> \<not> is_ctl c" using assms(1) by (simp add: url_ok_def list_all_iff)
  moreover have "\<not> is_ctl CHR '':''" "\<not> is_ctl CHR ''/''" "\<not> is_ctl CHR ''?''" by (simp_all add: is_ctl_def)
  ultimately show ?thesis using assms(2) by (auto simp: URL_String_ok [OF assms(1)] split: if_splits)
qed

lemma url_Parse_String:
  assumes "url_ok u"
  shows "url_Parse (URL_String u) = Ret u"
proof -
  let ?p = "url_escape EncodePath (url_Path u)" and ?q = "url_RawQuery u" and ?a = "authority_text u"
  have frag: "Cut CHR ''#'' (URL_String u) = (URL_String u, None)" using url_text_chars [OF assms] by (auto intro: Cut_none)
  have ctl: "list_all (\<lambda>c. \<not> is_ctl c) (URL_String u)" using url_text_chars [OF assms] by (auto simp: list_all_iff)
  have sch: "cut_scheme (URL_String u) = Ret (url_Scheme u, ''//'' @ ?a @ ?p @ (if ?q = [] then [] else ''?'' @ ?q))"
    using cut_scheme_ok [of "url_Scheme u" "''//'' @ ?a @ ?p @ (if ?q = [] then [] else ''?'' @ ?q)"] assms
    by (simp add: URL_String_ok [OF assms] url_ok_def)
  have "CHR ''?'' \<notin> set ?p" using set_escape [of EncodePath "url_Path u"] not_escaped_char(8) by (auto simp: list_all_iff)
  then have "CHR ''?'' \<notin> set (''//'' @ ?a @ ?p)" using authority_no [OF assms] by auto
  then have query: "Cut CHR ''?'' (''//'' @ ?a @ ?p @ (if ?q = [] then [] else ''?'' @ ?q)) =
      (''//'' @ ?a @ ?p, if ?q = [] then None else Some ?q)"
    using Cut_at [of "CHR ''?''" "''//'' @ ?a @ ?p" ?q] Cut_none [of "CHR ''?''" "''//'' @ ?a @ ?p"] by auto
  have slash: "CHR ''/'' \<notin> set ?a" using authority_no [OF assms] by simp
  have path: "Cut CHR ''/'' (?a @ ?p) = (?a, if ?p = [] then None else Some (tl ?p))"
    using Cut_at [OF slash, of "tl ?p"] Cut_none [OF slash] escape_absolute [of "url_Path u"] assms
    by (cases ?p) (auto simp: path_ok_def url_ok_def)
  have "(case if ?p = [] then None else Some (tl ?p) of None \<Rightarrow> [] | Some r \<Rightarrow> CHR ''/'' # r) = ?p"
    using escape_absolute [of "url_Path u"] assms by (cases ?p) (auto simp: path_ok_def url_ok_def)
  with path have unpath: "url_unescape EncodePath (case snd (Cut CHR ''/'' (?a @ ?p)) of None \<Rightarrow> [] | Some r \<Rightarrow> CHR ''/'' # r) =
      Ret (url_Path u)"
    by (simp add: unescape_escape)
  have scheme: "ToLower (url_Scheme u) = url_Scheme u" "url_Scheme u \<noteq> []" using assms by (auto simp: url_ok_def scheme_ok_def)
  show ?thesis
    unfolding url_Parse_def Let_def frag prod.case option.case omap_simps obind.simps sch query
    using ctl scheme path unpath parseAuthority_text [OF assms]
    by simp
qed

end
