(* ===== verification/Xml.thy ===== *)
theory Xml
  imports BatchSessions
begin

section \<open>XML and JSON documents, base64\<close>

text \<open>
  What the REST models need of \<open>encoding/xml\<close>, \<open>encoding/json\<close> and \<open>encoding/base64\<close>, and the calls of
  \<open>odps/restclient/rest_client.go\<close> that send and receive XML. A struct tag \<open>a>b\<close> is the path \<open>[a, b]\<close>;
  as in the library, elements without a field are ignored and a repeated scalar element overwrites the one before.
\<close>

subsection \<open>Reading XML\<close>

fun x_path :: "string list \<Rightarrow> xml \<Rightarrow> xml list" where
  "x_path [] e = [e]"
| "x_path (n # ns) e = concat (map (x_path ns) (filter (\<lambda>c. x_name c = n) (x_children e)))"

definition x_string :: "string list \<Rightarrow> xml \<Rightarrow> string" where
  "x_string path e = (case rev (x_path path e) of [] \<Rightarrow> [] | c # _ \<Rightarrow> x_text c)"

definition x_attr :: "string \<Rightarrow> xml \<Rightarrow> string" where
  "x_attr n e = (case map_of (rev (x_attrs e)) n of None \<Rightarrow> [] | Some v \<Rightarrow> v)"

definition parse_xml_int :: "string \<Rightarrow> int outcome" where
  "parse_xml_int s = (if s = [] then Ret 0 else ParseInt 64 (TrimSpace s))"

text \<open>An integer field is parsed at every occurrence of its element.\<close>

definition x_int :: "string list \<Rightarrow> xml \<Rightarrow> int outcome" where
  "x_int path e = omap (\<lambda>is. case rev is of [] \<Rightarrow> 0 | i # _ \<Rightarrow> i) (omap_list (\<lambda>c. parse_xml_int (x_text c)) (x_path path e))"

text \<open>The decoder on a struct whose \<open>XMLName\<close> has the name \<open>root\<close>.\<close>

definition x_Decode :: "string \<Rightarrow> (xml \<Rightarrow> 'a outcome) \<Rightarrow> xml option \<Rightarrow> 'a outcome" where
  "x_Decode root f doc =
     (case doc of
        None \<Rightarrow> Fail ErrEOF
      | Some e \<Rightarrow> if x_name e = root then f e else Fail (ErrMsg (''expected element type <'' @ root @ ''>'')))"

subsection \<open>Writing XML and JSON\<close>

text \<open>
  The runes of a text, as \<^verbatim>\<open>utf8.DecodeRune\<close> finds them: the number of bytes of the first one, 0 when the bytes are no UTF-8.
\<close>

definition continued :: "nat \<Rightarrow> nat \<Rightarrow> nat \<Rightarrow> nat list \<Rightarrow> bool" where
  "continued n lo hi bs \<longleftrightarrow>
     n \<le> length bs \<and> lo \<le> bs ! 0 \<and> bs ! 0 \<le> hi \<and> list_all (\<lambda>b. 0x80 \<le> b \<and> b \<le> 0xBF) (take n bs)"

definition rune_width :: "string \<Rightarrow> nat" where
  "rune_width s =
     (case map of_char (take 4 s) of
        [] \<Rightarrow> 0
      | b # bs \<Rightarrow>
          if b < 0x80 then 1
          else if 0xC2 \<le> b \<and> b \<le> 0xDF then (if continued 1 0x80 0xBF bs then 2 else 0)
          else if 0xE0 \<le> b \<and> b \<le> 0xEF
            then (if continued 2 (if b = 0xE0 then 0xA0 else 0x80) (if b = 0xED then 0x9F else 0xBF) bs then 3 else 0)
          else if 0xF0 \<le> b \<and> b \<le> 0xF4
            then (if continued 3 (if b = 0xF0 then 0x90 else 0x80) (if b = 0xF4 then 0x8F else 0xBF) bs then 4 else 0)
          else 0)"

definition bytes_text :: "nat list \<Rightarrow> string" where "bytes_text = map char_of"

text \<open>
  \<^verbatim>\<open>xml.EscapeText\<close>: five characters and white space other than the blank are escaped, and what XML does not allow, control
  characters, two runes and bytes that are no UTF-8, becomes the replacement character.
\<close>

definition xml_replacement :: string where "xml_replacement = bytes_text [0xEF, 0xBF, 0xBD]"

definition xml_escape_char :: "char \<Rightarrow> string" where
  "xml_escape_char c =
     (if c = DQ then ''&#34;'' else if c = SQ then ''&#39;'' else if c = CHR ''&'' then ''&amp;''
      else if c = CHR ''<'' then ''&lt;'' else if c = CHR ''>'' then ''&gt;'' else if c = CHR 0x09 then ''&#x9;''
      else if c = NL then ''&#xA;'' else if c = CHR 0x0D then ''&#xD;''
      else if of_char c < (0x20 :: nat) then xml_replacement else [c])"

function xml_escape :: "string \<Rightarrow> string" where
  "xml_escape [] = []"
| "xml_escape (c # cs) =
     (case rune_width (c # cs) of
        0 \<Rightarrow> xml_replacement @ xml_escape cs
      | Suc 0 \<Rightarrow> xml_escape_char c @ xml_escape cs
      | Suc k \<Rightarrow>
          (let r = c # take k cs
           in if r = bytes_text [0xEF, 0xBF, 0xBE] \<or> r = bytes_text [0xEF, 0xBF, 0xBF] then xml_replacement else r) @
          xml_escape (drop k cs))"
  by pat_completeness auto

termination by (relation "measure length") auto

fun xml_Marshal :: "xml \<Rightarrow> string" where
  "xml_Marshal (XElem n as cs t) =
     ''<'' @ n @ concat (map (\<lambda>(k, v). '' '' @ k @ ''='' @ [DQ] @ xml_escape v @ [DQ]) as) @ ''>'' @
     xml_escape t @ concat (map xml_Marshal cs) @ ''</'' @ n @ ''>''"

definition x_text_elem :: "string \<Rightarrow> string \<Rightarrow> xml" where
  "x_text_elem n t = XElem n [] [] t"

definition hex2 :: "nat \<Rightarrow> string" where
  "hex2 n = (let d = (\<lambda>k. if k < 10 then char_of (48 + k) else char_of (87 + k)) in [d (n div 16), d (n mod 16)])"

definition json_escape_char :: "char \<Rightarrow> string" where
  "json_escape_char c =
     (if c = DQ then [BSL, DQ] else if c = BSL then [BSL, BSL] else if c = NL then BSL # ''n''
      else if c = CHR 0x0D then BSL # ''r'' else if c = CHR 0x09 then BSL # ''t''
      else if of_char c < (32 :: nat) \<or> c \<in> {CHR ''<'', CHR ''>'', CHR ''&''} then BSL # ''u00'' @ hex2 (of_char c)
      else [c])"

text \<open>Bytes that are no UTF-8 and the two line separators of JavaScript are escaped too.\<close>

function json_escape :: "string \<Rightarrow> string" where
  "json_escape [] = []"
| "json_escape (c # cs) =
     (case rune_width (c # cs) of
        0 \<Rightarrow> BSL # ''ufffd'' @ json_escape cs
      | Suc 0 \<Rightarrow> json_escape_char c @ json_escape cs
      | Suc k \<Rightarrow>
          (let r = c # take k cs
           in if r = bytes_text [0xE2, 0x80, 0xA8] then BSL # ''u2028''
              else if r = bytes_text [0xE2, 0x80, 0xA9] then BSL # ''u2029'' else r) @
          json_escape (drop k cs))"
  by pat_completeness auto

termination by (relation "measure length") auto

definition json_quote :: "string \<Rightarrow> string" where
  "json_quote s = [DQ] @ json_escape s @ [DQ]"

text \<open>\<open>json.Marshal\<close> of a \<open>map[string]string\<close>: the entries in the order of their keys.\<close>

definition json_Marshal_map :: "(string \<times> string) list \<Rightarrow> string" where
  "json_Marshal_map m = ''{'' @ Join (map (\<lambda>(k, v). json_quote k @ '':'' @ json_quote v) (sort_key fst m)) '','' @ ''}''"

subsection \<open>XML requests\<close>

definition XMLContentType :: string where "XMLContentType = ''application/xml''"

text \<open>
  The code sets headers on the request before it looks at the error of its construction; when the
  construction failed there is no request.
\<close>

definition DoXmlWithParseFunc ::
    "'e RestClient \<Rightarrow> HttpMethod \<Rightarrow> string \<Rightarrow> Values option \<Rightarrow> Values \<Rightarrow> xml \<Rightarrow> (HttpResponse \<Rightarrow> 'a outcome) \<Rightarrow>
       ('e, 'a) M" where
  "DoXmlWithParseFunc c method resource queryArgs headers bodyModel parseFunc =
     (case NewRequestWithUrlQuery c method resource queryArgs of
        Ret req \<Rightarrow>
          DoWithParseFunc c (req\<lparr>rq_header := (rq_header req)(HttpHeaderContentType \<mapsto> XMLContentType) ++ headers,
              rq_body := bytes_of (xml_Marshal bodyModel)\<rparr>) parseFunc
      | _ \<Rightarrow> mpanic NilDereference)"

definition DoXmlWithModel ::
    "'e RestClient \<Rightarrow> HttpMethod \<Rightarrow> string \<Rightarrow> Values option \<Rightarrow> xml \<Rightarrow> (xml option \<Rightarrow> 'a outcome) \<Rightarrow> ('e, 'a) M" where
  "DoXmlWithModel c method resource queryArgs bodyModel decode =
     DoXmlWithParseFunc c method resource queryArgs Map.empty bodyModel (\<lambda>res. decode (rs_xml res))"

definition DoWithModel :: "'e RestClient \<Rightarrow> HttpRequest \<Rightarrow> (xml option \<Rightarrow> 'a outcome) \<Rightarrow> ('e, 'a) M" where
  "DoWithModel c req decode = DoWithParseFunc c req (\<lambda>res. decode (rs_xml res))"

definition GetWithModel ::
    "'e RestClient \<Rightarrow> string \<Rightarrow> Values option \<Rightarrow> Values \<Rightarrow> (xml option \<Rightarrow> 'a outcome) \<Rightarrow> ('e, 'a) M" where
  "GetWithModel c resource queryArgs headers decode =
     mbind (mlift (NewRequestWithParamsAndHeaders c GetMethod resource queryArgs headers)) (\<lambda>req.
       DoWithModel c req decode)"

subsection \<open>Base64\<close>

definition b64_char :: "nat \<Rightarrow> char" where
  "b64_char n =
     (if n < 26 then char_of (65 + n) else if n < 52 then char_of (71 + n) else if n < 62 then char_of (n - 4)
      else if n = 62 then CHR ''+'' else CHR ''/'')"

definition b64_val :: "char \<Rightarrow> nat option" where
  "b64_val c =
     (let n = of_char c :: nat in
      if 65 \<le> n \<and> n \<le> 90 then Some (n - 65) else if 97 \<le> n \<and> n \<le> 122 then Some (n - 71)
      else if 48 \<le> n \<and> n \<le> 57 then Some (n + 4) else if c = CHR ''+'' then Some 62
      else if c = CHR ''/'' then Some 63 else None)"

fun EncodeToString :: "byte list \<Rightarrow> string" where
  "EncodeToString (a # b # c # bs) =
     (let x = unat a; y = unat b; z = unat c in
      [b64_char (x div 4), b64_char (x mod 4 * 16 + y div 16), b64_char (y mod 16 * 4 + z div 64), b64_char (z mod 64)] @
      EncodeToString bs)"
| "EncodeToString [a, b] =
     (let x = unat a; y = unat b in
      [b64_char (x div 4), b64_char (x mod 4 * 16 + y div 16), b64_char (y mod 16 * 4), CHR ''=''])"
| "EncodeToString [a] =
     (let x = unat a in [b64_char (x div 4), b64_char (x mod 4 * 16), CHR ''='', CHR ''=''])"
| "EncodeToString [] = []"

text \<open>
  The bytes that \<open>DecodeString\<close> returns, beside an error or not: those of the groups of four before
  the first that is malformed.
\<close>

fun decode_quanta :: "string \<Rightarrow> byte list" where
  "decode_quanta (a # b # c # d # r) =
     (case (b64_val a, b64_val b) of
        (Some x, Some y) \<Rightarrow>
          (let b1 = word_of_nat (x * 4 + y div 16) in
           case (b64_val c, b64_val d) of
             (Some z, Some w) \<Rightarrow>
               b1 # word_of_nat (y mod 16 * 16 + z div 4) # word_of_nat (z mod 4 * 64 + w) # decode_quanta r
           | (Some z, None) \<Rightarrow> if d = CHR ''='' then [b1, word_of_nat (y mod 16 * 16 + z div 4)] else []
           | (None, _) \<Rightarrow> if c = CHR ''='' \<and> d = CHR ''='' then [b1] else [])
      | _ \<Rightarrow> [])"
| "decode_quanta _ = []"

definition DecodeString :: "string \<Rightarrow> byte list" where
  "DecodeString s = decode_quanta (filter (\<lambda>c. c \<noteq> NL \<and> c \<noteq> CHR 0x0D) s)"

lemma b64_val_char: "n < 64 \<Longrightarrow> b64_val (b64_char n) = Some n"
proof -
  assume "n < 64"
  then consider "n < 26" | "26 \<le> n" "n < 52" | "52 \<le> n" "n < 62" | "n = 62" | "n = 63" by linarith
  then show ?thesis by cases (auto simp: b64_val_def b64_char_def Let_def)
qed

lemma b64_char_plain: "n < 64 \<Longrightarrow> b64_char n \<noteq> NL \<and> b64_char n \<noteq> CHR 0x0D \<and> b64_char n \<noteq> CHR ''=''"
proof -
  have "b64_val NL = None" "b64_val CHR 0x0D = None" "b64_val CHR ''='' = None" by (simp_all add: b64_val_def)
  then show "n < 64 \<Longrightarrow> ?thesis" using b64_val_char [of n] by auto
qed

lemma b64_groups:
  fixes x y z :: nat
  assumes "x < 256" "y < 256" "z < 256"
  shows "x div 4 * 4 + (x mod 4 * 16 + y div 16) div 16 = x"
    "(x mod 4 * 16 + y div 16) mod 16 * 16 + (y mod 16 * 4 + z div 64) div 4 = y"
    "(y mod 16 * 4 + z div 64) mod 4 * 64 + z mod 64 = z"
    "x div 4 < 64" "x mod 4 * 16 + y div 16 < 64" "y mod 16 * 4 + z div 64 < 64" "z mod 64 < 64"
    "x mod 4 * 16 < 64" "y mod 16 * 4 < 64" "x div 4 * 4 + x mod 4 * 16 div 16 = x"
    "(x mod 4 * 16 + y div 16) mod 16 * 16 + y mod 16 * 4 div 4 = y" "y div 16 < 16" "z div 64 < 4"
proof -
  have d: "x div 4 < 64" "y div 16 < 16" "z div 64 < 4" using assms by (simp_all add: div_less_iff_less_mult)
  have m: "x mod 4 < 4" "y mod 16 < 16" by simp_all
  show "x div 4 < 64" "x mod 4 * 16 + y div 16 < 64" "y mod 16 * 4 + z div 64 < 64" "z mod 64 < 64"
    "x mod 4 * 16 < 64" "y mod 16 * 4 < 64"
    using d m by simp_all
  show "x div 4 * 4 + (x mod 4 * 16 + y div 16) div 16 = x" "x div 4 * 4 + x mod 4 * 16 div 16 = x"
    "(x mod 4 * 16 + y div 16) mod 16 * 16 + (y mod 16 * 4 + z div 64) div 4 = y"
    "(x mod 4 * 16 + y div 16) mod 16 * 16 + y mod 16 * 4 div 4 = y"
    "(y mod 16 * 4 + z div 64) mod 4 * 64 + z mod 64 = z" "y div 16 < 16" "z div 64 < 4"
    using d by simp_all
qed

lemmas byte_groups = b64_groups [OF unat_lt2p_8 unat_lt2p_8 unat_lt2p_8]

lemma EncodeToString_plain: "list_all (\<lambda>c. c \<noteq> NL \<and> c \<noteq> CHR 0x0D) (EncodeToString bs)"
  by (induction bs rule: EncodeToString.induct) (simp_all add: Let_def byte_groups b64_char_plain)

text \<open>
  Decoding what was encoded gives the bytes back, whatever their number.
\<close>

lemma DecodeString_EncodeToString: "DecodeString (EncodeToString bs) = bs"
proof -
  have "decode_quanta (EncodeToString bs) = bs"
  proof (induction bs rule: EncodeToString.induct)
    case (1 a b c bs)
    then show ?case
      by (simp add: Let_def b64_val_char byte_groups del: of_nat_add of_nat_mult)
  next
    case (2 a b)
    have "b64_val CHR ''='' = None" by (simp add: b64_val_def)
    then show ?case
      by (simp add: Let_def b64_val_char byte_groups del: of_nat_add of_nat_mult)
  next
    case (3 a)
    have "b64_val CHR ''='' = None" by (simp add: b64_val_def)
    then show ?case
      by (simp add: Let_def b64_val_char byte_groups del: of_nat_add of_nat_mult)
  qed simp
  moreover have "filter (\<lambda>c. c \<noteq> NL \<and> c \<noteq> CHR 0x0D) (EncodeToString bs) = EncodeToString bs"
    using EncodeToString_plain [of bs] by (intro filter_True) (simp add: list_all_iff)
  ultimately show ?thesis by (simp add: DecodeString_def)
qed

text \<open>The copy of the client with a timeout of a minute, for the requests that set one.\<close>

definition minute_client :: "'e RestClient \<Rightarrow> 'e RestClient" where
  "minute_client c = c\<lparr>rc_HttpTimeout := 60 * 1000000000\<rparr>"

end
