(* ===== verification/Accounts.thy ===== *)
theory Accounts
  imports Crypto Urls Xml
begin

section \<open>Accounts: the signing of requests\<close>

text \<open>
  Models \<open>odps/account\<close>.
  \<^item> The text of a request that is signed is built from its method, some headers, its path behind the endpoint's and
    its query; header names are as the code spells them.
  \<^item> The variable \<open>corporation\<close> of the package and the date of the clock are arguments. A credential provider (the package
    \<open>credentials-go\<close> or the caller's code) is the answer it gives; a missing string in it is a nil pointer.
\<close>

datatype Provider = ProviderZero | Taobao | Aliyun | STS | BearToken

fun Provider_String :: "Provider \<Rightarrow> string" where
  "Provider_String Taobao = ''TAOBAO''"
| "Provider_String Aliyun = ''ALIYUN''"
| "Provider_String STS = ''STS''"
| "Provider_String BearToken = ''BEAR_TOKEN''"
| "Provider_String ProviderZero = ''UnknownAccountProvider''"

definition base64HmacSha1 :: "byte list \<Rightarrow> byte list \<Rightarrow> string" where
  "base64HmacSha1 key data = TrimSpace (EncodeToString (hmac sha1 key data))"

definition hmacsha256 :: "byte list \<Rightarrow> byte list \<Rightarrow> byte list" where
  "hmacsha256 key data = hmac sha256 key data"

record AliyunAccount =
  aa_accessId :: string
  aa_accessKey :: string
  aa_regionId :: string

definition NewAliyunAccount :: "string \<Rightarrow> string \<Rightarrow> string list \<Rightarrow> AliyunAccount" where
  "NewAliyunAccount accessId accessKey regionId =
     \<lparr>aa_accessId = accessId, aa_accessKey = accessKey, aa_regionId = (case regionId of [] \<Rightarrow> [] | r # _ \<Rightarrow> r)\<rparr>"

text \<open>The environment: what \<open>os.LookupEnv\<close> finds.\<close>

definition AliyunAccountFromEnv :: "(string \<Rightarrow> string option) \<Rightarrow> AliyunAccount" where
  "AliyunAccountFromEnv env =
     (let get = (\<lambda>n. case env n of None \<Rightarrow> [] | Some v \<Rightarrow> v) in
      \<lparr>aa_accessId = get ''ALIBABA_CLOUD_ACCESS_KEY_ID'', aa_accessKey = get ''ALIBABA_CLOUD_ACCESS_KEY_SECRET'',
       aa_regionId = []\<rparr>)"

subsection \<open>The canonical string\<close>

definition HttpHeaderOdpsPrefix :: string where "HttpHeaderOdpsPrefix = ''x-odps-''"
definition HttpHeaderContentMD5 :: string where "HttpHeaderContentMD5 = ''Content-Md5''"
definition HttpHeaderAuthorization :: string where "HttpHeaderAuthorization = ''Authorization''"
definition HttpHeaderAuthorizationSTSToken :: string where
  "HttpHeaderAuthorizationSTSToken = ''authorization-sts-token''"
definition HttpHeaderAppAuthentication :: string where "HttpHeaderAppAuthentication = ''application-authentication''"
definition HttpHeaderSTSAuthentication :: string where "HttpHeaderSTSAuthentication = ''sts-authentication''"
definition HttpHeaderSTSToken :: string where "HttpHeaderSTSToken = ''sts-token''"
definition HttpHeaderODPSBearerToken :: string where "HttpHeaderODPSBearerToken = ''x-odps-bearer-token''"

fun HttpMethod_String :: "HttpMethod \<Rightarrow> string" where
  "HttpMethod_String GetMethod = ''GET''"
| "HttpMethod_String PutMethod = ''PUT''"
| "HttpMethod_String PostMethod = ''POST''"
| "HttpMethod_String DeleteMethod = ''DELETE''"

definition odps_headers :: "Values \<Rightarrow> string list" where
  "odps_headers h = sort_key ToLower (sorted_list_of_set {k \<in> dom h. HasPrefix (ToLower k) HttpHeaderOdpsPrefix})"

definition buildCanonicalHeaders :: "Values \<Rightarrow> string" where
  "buildCanonicalHeaders h = concat (map (\<lambda>k. ToLower k @ '':'' @ Header_Get h k @ [NL]) (odps_headers h))"

definition query_item :: "Values \<Rightarrow> string \<Rightarrow> string" where
  "query_item q k = k @ (if Header_Get q k = [] then [] else ''='' @ Header_Get q k)"

text \<open>The path behind that of the endpoint; an endpoint that is no URL is a nil pointer.\<close>

definition canonical_path :: "string \<Rightarrow> HttpRequest \<Rightarrow> string outcome" where
  "canonical_path endpoint req =
     (case url_Parse endpoint of
        Ret ep \<Rightarrow>
          omap (\<lambda>u. if HasPrefix (url_Path u) (url_Path ep) then drop (length (url_Path ep)) (url_Path u) else url_Path u)
            (url_Parse (rq_url req))
      | _ \<Rightarrow> Panic NilDereference)"

definition buildCanonicalResource :: "HttpRequest \<Rightarrow> string \<Rightarrow> string outcome" where
  "buildCanonicalResource req endpoint =
     omap (\<lambda>path. path @ (if dom (rq_query req) = {} then []
              else ''?'' @ Join (map (query_item (rq_query req)) (sorted_list_of_set (dom (rq_query req)))) ''&''))
       (canonical_path endpoint req)"

definition buildCanonicalString :: "HttpRequest \<Rightarrow> string \<Rightarrow> string outcome" where
  "buildCanonicalString req endpoint =
     omap (\<lambda>res. HttpMethod_String (rq_method req) @ [NL] @ Header_Get (rq_header req) HttpHeaderContentMD5 @ [NL] @
                 Header_Get (rq_header req) HttpHeaderContentType @ [NL] @ Header_Get (rq_header req) HttpHeaderDate @ [NL] @
                 buildCanonicalHeaders (rq_header req) @ res)
       (buildCanonicalResource req endpoint)"

subsection \<open>Signatures\<close>

definition generateSignatureV2 :: "AliyunAccount \<Rightarrow> byte list \<Rightarrow> string" where
  "generateSignatureV2 a data =
     ''ODPS '' @ aa_accessId a @ '':'' @ base64HmacSha1 (bytes_of (aa_accessKey a)) data"

definition generateSignatureV4 :: "string \<Rightarrow> string \<Rightarrow> AliyunAccount \<Rightarrow> byte list \<Rightarrow> string \<Rightarrow> string" where
  "generateSignatureV4 corporation currentDate a data regionName =
     (let credential = aa_accessId a @ ''/'' @ currentDate @ ''/'' @ regionName @ ''/odps/'' @ corporation @ ''_v4_request'';
          kSecret = bytes_of (corporation @ ''_v4'' @ aa_accessKey a);
          kDate = hmacsha256 kSecret (bytes_of currentDate);
          kRegion = hmacsha256 kDate (bytes_of regionName);
          kService = hmacsha256 kRegion (bytes_of ''odps'');
          signatureKey = hmacsha256 kService (bytes_of (corporation @ ''_v4_request''))
      in ''ODPS '' @ credential @ '':'' @ base64HmacSha1 signatureKey data)"

definition put_header :: "string \<Rightarrow> string \<Rightarrow> HttpRequest \<Rightarrow> HttpRequest" where
  "put_header k v req = req\<lparr>rq_header := (rq_header req)(k \<mapsto> v)\<rparr>"

definition aa_SignRequest :: "string \<Rightarrow> string \<Rightarrow> AliyunAccount \<Rightarrow> HttpRequest \<Rightarrow> string \<Rightarrow> HttpRequest outcome" where
  "aa_SignRequest corporation currentDate a req endpoint =
     omap (\<lambda>canonicalString.
         put_header HttpHeaderAuthorization
           (if aa_regionId a = [] then generateSignatureV2 a (bytes_of canonicalString)
            else generateSignatureV4 corporation currentDate a (bytes_of canonicalString) (aa_regionId a)) req)
       (buildCanonicalString req endpoint)"

subsection \<open>The other accounts\<close>

record CredentialModel =
  cm_AccessKeyId :: "string option"
  cm_AccessKeySecret :: "string option"
  cm_SecurityToken :: "string option"
  cm_BearerToken :: "string option"

datatype Account =
    AccAliyun AliyunAccount
  | StsString string AliyunAccount
  | StsAliyunCredential "CredentialModel outcome" string
  | StsCustomCredential "CredentialModel outcome" string
  | AppAccount AliyunAccount
  | AppStsAccount string AliyunAccount
  | BearerTokenAccount string

fun GetType :: "Account \<Rightarrow> Provider" where
  "GetType (AccAliyun _) = Aliyun"
| "GetType (AppAccount _) = Aliyun"
| "GetType (AppStsAccount _ _) = Aliyun"
| "GetType (BearerTokenAccount _) = BearToken"
| "GetType _ = STS"

definition deref :: "'a option \<Rightarrow> 'a outcome" where
  "deref p = (case p of None \<Rightarrow> Panic NilDereference | Some x \<Rightarrow> Ret x)"

definition credential_account :: "CredentialModel \<Rightarrow> string \<Rightarrow> AliyunAccount outcome" where
  "credential_account cred regionId =
     obind (deref (cm_AccessKeyId cred)) (\<lambda>i. obind (deref (cm_AccessKeySecret cred)) (\<lambda>k.
       Ret (NewAliyunAccount i k [regionId])))"

definition app_signature :: "AliyunAccount \<Rightarrow> HttpRequest \<Rightarrow> string" where
  "app_signature a req =
     ''account_provider:'' @ ToLower (Provider_String Aliyun) @ '',signature_method:hmac-sha1,access_id:'' @ aa_accessId a @
     '',signature:'' @
     base64HmacSha1 (bytes_of (aa_accessKey a)) (bytes_of (Header_Get (rq_header req) HttpHeaderAuthorization))"

definition stsString_signRequest :: "string \<Rightarrow> string \<Rightarrow> string \<Rightarrow> AliyunAccount \<Rightarrow> HttpRequest \<Rightarrow> string \<Rightarrow> HttpRequest outcome" where
  "stsString_signRequest corp date token a req endpoint =
     omap (put_header HttpHeaderAuthorizationSTSToken token) (aa_SignRequest corp date a req endpoint)"

definition stsAliyunCredential_signRequest ::
    "string \<Rightarrow> string \<Rightarrow> CredentialModel outcome \<Rightarrow> string \<Rightarrow> HttpRequest \<Rightarrow> string \<Rightarrow> HttpRequest outcome" where
  "stsAliyunCredential_signRequest corp date credential regionId req endpoint =
     obind credential (\<lambda>cred.
     obind (credential_account cred regionId) (\<lambda>a.
     omap (\<lambda>r. case cm_SecurityToken cred of None \<Rightarrow> r | Some token \<Rightarrow> put_header HttpHeaderAuthorizationSTSToken token r)
       (aa_SignRequest corp date a req endpoint)))"

definition stsCustomCredential_signRequest ::
    "string \<Rightarrow> string \<Rightarrow> CredentialModel outcome \<Rightarrow> string \<Rightarrow> HttpRequest \<Rightarrow> string \<Rightarrow> HttpRequest outcome" where
  "stsCustomCredential_signRequest corp date credential regionId req endpoint =
     obind credential (\<lambda>cred.
     obind (credential_account cred regionId) (\<lambda>a.
     obind (aa_SignRequest corp date a req endpoint) (\<lambda>r.
     obind (deref (cm_BearerToken cred)) (\<lambda>token. Ret (put_header HttpHeaderAuthorizationSTSToken token r)))))"

definition app_SignRequest :: "string \<Rightarrow> string \<Rightarrow> AliyunAccount \<Rightarrow> HttpRequest \<Rightarrow> string \<Rightarrow> HttpRequest outcome" where
  "app_SignRequest corp date a req endpoint =
     omap (\<lambda>r. put_header HttpHeaderAppAuthentication (app_signature a r) r) (aa_SignRequest corp date a req endpoint)"

definition appSts_SignRequest :: "string \<Rightarrow> string \<Rightarrow> string \<Rightarrow> AliyunAccount \<Rightarrow> HttpRequest \<Rightarrow> string \<Rightarrow> HttpRequest outcome" where
  "appSts_SignRequest corp date token a req endpoint =
     omap (\<lambda>r. put_header HttpHeaderSTSToken token (put_header HttpHeaderSTSAuthentication (app_signature a r) r))
       (aa_SignRequest corp date a req endpoint)"

definition bearer_SignRequest :: "string \<Rightarrow> HttpRequest \<Rightarrow> HttpRequest outcome" where
  "bearer_SignRequest token req = Ret (put_header HttpHeaderODPSBearerToken token req)"

fun SignRequest :: "string \<Rightarrow> string \<Rightarrow> Account \<Rightarrow> HttpRequest \<Rightarrow> string \<Rightarrow> HttpRequest outcome" where
  "SignRequest corp date (AccAliyun a) = aa_SignRequest corp date a"
| "SignRequest corp date (StsString token a) = stsString_signRequest corp date token a"
| "SignRequest corp date (StsAliyunCredential credential regionId) = stsAliyunCredential_signRequest corp date credential regionId"
| "SignRequest corp date (StsCustomCredential credential regionId) = stsCustomCredential_signRequest corp date credential regionId"
| "SignRequest corp date (AppAccount a) = app_SignRequest corp date a"
| "SignRequest corp date (AppStsAccount token a) = appSts_SignRequest corp date token a"
| "SignRequest corp date (BearerTokenAccount token) = (\<lambda>req endpoint. bearer_SignRequest token req)"

definition NewStsAccount :: "string \<Rightarrow> string \<Rightarrow> string \<Rightarrow> string list \<Rightarrow> Account" where
  "NewStsAccount accessId accessKey securityToken regionId = StsString securityToken (NewAliyunAccount accessId accessKey regionId)"

definition NewAppAccount :: "string \<Rightarrow> string \<Rightarrow> Account" where
  "NewAppAccount accessId accessKey = AppAccount (NewAliyunAccount accessId accessKey [])"

definition NewAppStsAccount :: "string \<Rightarrow> string \<Rightarrow> string \<Rightarrow> Account" where
  "NewAppStsAccount accessId accessKey stsToken = AppStsAccount stsToken (NewAliyunAccount accessId accessKey [])"

text \<open>The first \<open>found\<close> is overwritten by the second: only the secret has to be set.\<close>

definition AccountFromEnv :: "(string \<Rightarrow> string option) \<Rightarrow> Account option" where
  "AccountFromEnv env =
     (case env ''ALIBABA_CLOUD_ACCESS_KEY_SECRET'' of
        None \<Rightarrow> None
      | Some accessKey \<Rightarrow>
          let accessId = (case env ''ALIBABA_CLOUD_ACCESS_KEY_ID'' of None \<Rightarrow> [] | Some v \<Rightarrow> v)
          in Some (case env ''ALIBABA_CLOUD_SECURITY_TOKEN'' of
               None \<Rightarrow> AccAliyun (NewAliyunAccount accessId accessKey [])
             | Some securityToken \<Rightarrow> NewStsAccount accessId accessKey securityToken []))"

text \<open>\<open>StsAccount.Credential\<close>, for the accounts that have it.\<close>

fun Credential :: "Account \<Rightarrow> CredentialModel outcome" where
  "Credential (StsString token a) =
     Ret \<lparr>cm_AccessKeyId = Some (aa_accessId a), cm_AccessKeySecret = Some (aa_accessKey a), cm_SecurityToken = Some token,
          cm_BearerToken = None\<rparr>"
| "Credential (StsAliyunCredential c _) = c"
| "Credential (StsCustomCredential c _) = c"
| "Credential _ = Panic TypeAssertion"

subsection \<open>What a signature binds\<close>

lemma cut_unique: "(c :: char) \<notin> set a \<Longrightarrow> c \<notin> set b \<Longrightarrow> a @ c # x = b @ c # y \<Longrightarrow> a = b \<and> x = y"
  by (metis Cut_at prod.inject option.inject)

text \<open>Lines that start with a letter, in front of a text that does not, can be told apart.\<close>

lemma lines_unique:
  assumes "\<forall>l \<in> set ls \<union> set ms. NL \<notin> set l \<and> l \<noteq> [] \<and> hd l = x" and "r = [] \<or> hd r \<noteq> x" and "t = [] \<or> hd t \<noteq> x"
    and "concat (map (\<lambda>l. l @ [NL]) ls) @ r = concat (map (\<lambda>l. l @ [NL]) ms) @ t"
  shows "ls = ms \<and> r = t"
  using assms
proof (induction ls arbitrary: ms)
  case Nil
  show ?case
  proof (cases ms)
    case (Cons m ms')
    then have m: "r = m @ NL # (concat (map (\<lambda>l. l @ [NL]) ms') @ t)" "m \<noteq> []" "hd m = x"
      using Nil.prems(1,4) Cons by simp_all
    then have "r \<noteq> [] \<and> hd r = x" by simp
    then show ?thesis using Nil.prems(2) by blast
  qed (use Nil.prems in simp)
next
  case (Cons l ls)
  have l: "NL \<notin> set l" "l \<noteq> []" "hd l = x" using Cons.prems(1) by simp_all
  obtain m ms' where m: "ms = m # ms'"
  proof (cases ms)
    case Nil
    then have "t = l @ NL # (concat (map (\<lambda>l. l @ [NL]) ls) @ r)" using Cons.prems(4) by simp
    then have "t \<noteq> [] \<and> hd t = x" using l by simp
    then show ?thesis using Cons.prems(3) by blast
  qed
  have "NL \<notin> set m" using Cons.prems(1) m by simp
  have "l @ NL # (concat (map (\<lambda>l. l @ [NL]) ls) @ r) = m @ NL # (concat (map (\<lambda>l. l @ [NL]) ms') @ t)"
    using Cons.prems(4) by (simp add: m)
  from cut_unique [OF l(1) \<open>NL \<notin> set m\<close> this]
  have eq: "l = m" "concat (map (\<lambda>l. l @ [NL]) ls) @ r = concat (map (\<lambda>l. l @ [NL]) ms') @ t" by simp_all
  have "\<forall>l \<in> set ls \<union> set ms'. NL \<notin> set l \<and> l \<noteq> [] \<and> hd l = x" using Cons.prems(1) m by simp
  from Cons.IH [OF this Cons.prems(2,3) eq(2)] show ?case using eq(1) m by simp
qed

text \<open>
  A request without the separators of the canonical string where they would be ambiguous: no line breaks in
  the headers, no question mark in the path, no ampersand in the query.
\<close>

definition odps_key :: "string \<Rightarrow> bool" where
  "odps_key k \<longleftrightarrow> HasPrefix (ToLower k) HttpHeaderOdpsPrefix"

definition signed_headers :: "string list" where
  "signed_headers = [HttpHeaderContentMD5, HttpHeaderContentType, HttpHeaderDate]"

definition signable :: "string \<Rightarrow> HttpRequest \<Rightarrow> bool" where
  "signable endpoint req \<longleftrightarrow>
     finite (dom (rq_header req)) \<and> finite (dom (rq_query req)) \<and>
     (\<forall>k \<in> set signed_headers. NL \<notin> set (Header_Get (rq_header req) k)) \<and>
     (\<forall>k \<in> dom (rq_header req). odps_key k \<longrightarrow>
        ToLower k = k \<and> NL \<notin> set k \<and> CHR '':'' \<notin> set k \<and> NL \<notin> set (Header_Get (rq_header req) k)) \<and>
     (\<forall>k \<in> dom (rq_query req). CHR ''='' \<notin> set k \<and> CHR ''&'' \<notin> set k \<and> CHR ''&'' \<notin> set (Header_Get (rq_query req) k)) \<and>
     (case canonical_path endpoint req of Ret p \<Rightarrow> path_ok p \<and> CHR ''?'' \<notin> set p | _ \<Rightarrow> False)"

definition header_line :: "Values \<Rightarrow> string \<Rightarrow> string" where
  "header_line h k = ToLower k @ '':'' @ Header_Get h k"

lemma Header_Get_Some: "k \<in> dom h \<Longrightarrow> h k = Some (Header_Get h k)"
  by (auto simp: Header_Get_def)

lemma set_odps_headers: "finite (dom h) \<Longrightarrow> set (odps_headers h) = {k \<in> dom h. odps_key k}"
  by (simp add: odps_headers_def odps_key_def)

lemma header_line_props:
  assumes "signable endpoint req" "k \<in> set (odps_headers (rq_header req))"
  shows "NL \<notin> set (header_line (rq_header req) k) \<and> header_line (rq_header req) k \<noteq> [] \<and> hd (header_line (rq_header req) k) = CHR ''x''"
proof -
  have k: "k \<in> dom (rq_header req)" "odps_key k" using assms set_odps_headers by (auto simp: signable_def)
  then have p: "ToLower k = k" "NL \<notin> set k" "NL \<notin> set (Header_Get (rq_header req) k)" using assms(1) by (auto simp: signable_def)
  obtain r where "k = CHR ''x'' # r" using k(2) p(1) by (auto simp: odps_key_def HttpHeaderOdpsPrefix_def HasPrefix_iff)
  then show ?thesis using p by (simp add: header_line_def)
qed

lemma header_lines_determine:
  assumes "signable e1 r1" "signable e2 r2"
    and "map (header_line (rq_header r1)) (odps_headers (rq_header r1)) = map (header_line (rq_header r2)) (odps_headers (rq_header r2))"
    and "odps_key k" "k \<in> dom (rq_header r1)"
  shows "rq_header r2 k = rq_header r1 k"
proof -
  have fin: "finite (dom (rq_header r1))" "finite (dom (rq_header r2))" using assms(1,2) by (simp_all add: signable_def)
  have "k \<in> set (odps_headers (rq_header r1))" using set_odps_headers [OF fin(1)] assms(4,5) by blast
  then have "header_line (rq_header r1) k \<in> header_line (rq_header r2) ` set (odps_headers (rq_header r2))"
    using assms(3) by (metis imageI set_map)
  then obtain k' where k': "k' \<in> dom (rq_header r2)" "odps_key k'" "header_line (rq_header r1) k = header_line (rq_header r2) k'"
    using set_odps_headers [OF fin(2)] by blast
  have "ToLower k = k" "CHR '':'' \<notin> set k" "ToLower k' = k'" "CHR '':'' \<notin> set k'"
    using assms(1,2,4,5) k'(1,2) by (simp_all add: signable_def)
  then have "k = k' \<and> Header_Get (rq_header r1) k = Header_Get (rq_header r2) k'"
    using cut_unique [of "CHR '':''" k k'] k'(3) by (simp add: header_line_def)
  then show ?thesis using Header_Get_Some k'(1) assms(5) by metis
qed

lemma query_items_determine:
  assumes "signable e1 r1" "signable e2 r2"
    and "query_item (rq_query r1) ` dom (rq_query r1) \<subseteq> query_item (rq_query r2) ` dom (rq_query r2)" "k \<in> dom (rq_query r1)"
  shows "rq_query r2 k = rq_query r1 k"
proof -
  obtain k' where k': "k' \<in> dom (rq_query r2)" "query_item (rq_query r1) k = query_item (rq_query r2) k'" using assms(3,4) by blast
  have no: "CHR ''='' \<notin> set k" "CHR ''='' \<notin> set k'" using assms(1,2,4) k'(1) by (simp_all add: signable_def)
  have cut: "Cut CHR ''='' (query_item q j) = (j, if Header_Get q j = [] then None else Some (Header_Get q j))"
    if "CHR ''='' \<notin> set j" for q j
    using that Cut_at [OF that, of "Header_Get q j"] Cut_none [OF that] by (simp add: query_item_def)
  from cut [OF no(1), of "rq_query r1"] cut [OF no(2), of "rq_query r2"] k'(2)
  have "k = k' \<and> Header_Get (rq_query r1) k = Header_Get (rq_query r2) k'" by (auto split: if_splits)
  then show ?thesis using Header_Get_Some k'(1) assms(4) by metis
qed

lemma maps_eq: "(\<And>k. k \<in> dom f \<Longrightarrow> g k = f k) \<Longrightarrow> (\<And>k. k \<in> dom g \<Longrightarrow> f k = g k) \<Longrightarrow> f k = g k"
  by (metis domIff)

text \<open>The query of a request without ampersands is cut into its items again.\<close>

lemma query_text_items:
  assumes "signable endpoint req" "dom (rq_query req) \<noteq> {}"
  shows "set (Split CHR ''&'' (Join (map (query_item (rq_query req)) (sorted_list_of_set (dom (rq_query req)))) ''&'')) =
    query_item (rq_query req) ` dom (rq_query req)"
proof -
  let ?items = "map (query_item (rq_query req)) (sorted_list_of_set (dom (rq_query req)))"
  have fin: "finite (dom (rq_query req))" using assms(1) by (simp add: signable_def)
  have "\<forall>i \<in> set ?items. CHR ''&'' \<notin> set i" using assms(1) fin by (auto simp: signable_def query_item_def)
  moreover have "?items \<noteq> []" using assms(2) fin by simp
  ultimately show ?thesis using Split_Join_inverse [of ?items "CHR ''&''"] fin by simp
qed

definition query_text :: "Values \<Rightarrow> string" where
  "query_text q = (if dom q = {} then [] else ''?'' @ Join (map (query_item q) (sorted_list_of_set (dom q))) ''&'')"

lemma query_text_determines:
  assumes "signable e1 r1" "signable e2 r2" "query_text (rq_query r1) = query_text (rq_query r2)"
  shows "rq_query r1 = rq_query r2"
proof -
  have dom: "dom (rq_query r1) = {} \<longleftrightarrow> dom (rq_query r2) = {}" using assms(3) by (auto simp: query_text_def split: if_splits)
  show ?thesis
  proof (cases "dom (rq_query r1) = {}")
    case False
    then have "query_item (rq_query r1) ` dom (rq_query r1) = query_item (rq_query r2) ` dom (rq_query r2)"
      using query_text_items [OF assms(1)] query_text_items [OF assms(2)] dom assms(3) by (simp add: query_text_def)
    then show ?thesis
      using query_items_determine [OF assms(1,2)] query_items_determine [OF assms(2,1)] maps_eq [of "rq_query r1" "rq_query r2"]
      by (metis ext subset_refl)
  qed (use dom in simp)
qed

lemma canonical_string_parts:
  assumes "signable endpoint req"
  obtains p where "canonical_path endpoint req = Ret p" "path_ok p" "CHR ''?'' \<notin> set p"
    "buildCanonicalString req endpoint =
      Ret (HttpMethod_String (rq_method req) @ NL # Header_Get (rq_header req) HttpHeaderContentMD5 @ NL #
           Header_Get (rq_header req) HttpHeaderContentType @ NL # Header_Get (rq_header req) HttpHeaderDate @ NL #
           concat (map (\<lambda>l. l @ [NL]) (map (header_line (rq_header req)) (odps_headers (rq_header req)))) @
           (p @ query_text (rq_query req)))"
proof -
  have "buildCanonicalHeaders h = concat (map (\<lambda>l. l @ [NL]) (map (header_line h) (odps_headers h)))" for h
    by (simp add: buildCanonicalHeaders_def header_line_def comp_def)
  moreover obtain p where "canonical_path endpoint req = Ret p" "path_ok p" "CHR ''?'' \<notin> set p"
    using assms by (auto simp: signable_def split: outcome.splits)
  ultimately show ?thesis
    using that [of p] by (simp add: buildCanonicalString_def buildCanonicalResource_def query_text_def)
qed

lemma path_text_cut: "CHR ''?'' \<notin> set p \<Longrightarrow> Cut CHR ''?'' (p @ query_text q) = (p, if dom q = {} then None else Some (tl (query_text q)))"
  using Cut_at [of "CHR ''?''" p "tl (query_text q)"] Cut_none [of "CHR ''?''" p] by (auto simp: query_text_def)

lemma path_text_start: "path_ok p \<Longrightarrow> p @ query_text q = [] \<or> hd (p @ query_text q) \<noteq> CHR ''x''"
  by (cases p) (auto simp: path_ok_def query_text_def)

lemma head_unique:
  assumes "NL \<notin> set m1 \<and> NL \<notin> set m2" "NL \<notin> set a1 \<and> NL \<notin> set a2" "NL \<notin> set b1 \<and> NL \<notin> set b2"
    "NL \<notin> set d1 \<and> NL \<notin> set d2"
    and "m1 @ NL # a1 @ NL # b1 @ NL # d1 @ NL # x1 = m2 @ NL # a2 @ NL # b2 @ NL # d2 @ NL # x2"
  shows "m1 = m2" "a1 = a2 \<and> b1 = b2 \<and> d1 = d2" "x1 = x2"
  using assms cut_unique by metis+

text \<open>
  C11. A signature binds the request: two requests without ambiguous separators that are signed under the same text
  have the same method, the same content and date headers, the same \<open>x-odps\<close> headers, the same path behind the
  endpoint and the same query. The body is bound by none of the accounts.
\<close>

theorem canonical_string_binds:
  assumes "signable e1 r1" and "signable e2 r2" and "buildCanonicalString r1 e1 = buildCanonicalString r2 e2"
  shows "rq_method r1 = rq_method r2 \<and> map (Header_Get (rq_header r1)) signed_headers = map (Header_Get (rq_header r2)) signed_headers \<and>
    (\<forall>k. odps_key k \<longrightarrow> rq_header r1 k = rq_header r2 k) \<and> canonical_path e1 r1 = canonical_path e2 r2 \<and>
    rq_query r1 = rq_query r2"
proof -
  let ?h1 = "rq_header r1" and ?h2 = "rq_header r2"
  obtain p1 where p1: "canonical_path e1 r1 = Ret p1" "path_ok p1" "CHR ''?'' \<notin> set p1"
    and c1: "buildCanonicalString r1 e1 = Ret (HttpMethod_String (rq_method r1) @ NL # Header_Get ?h1 HttpHeaderContentMD5 @ NL #
           Header_Get ?h1 HttpHeaderContentType @ NL # Header_Get ?h1 HttpHeaderDate @ NL #
           concat (map (\<lambda>l. l @ [NL]) (map (header_line ?h1) (odps_headers ?h1))) @ (p1 @ query_text (rq_query r1)))"
    using canonical_string_parts [OF assms(1)] .
  obtain p2 where p2: "canonical_path e2 r2 = Ret p2" "path_ok p2" "CHR ''?'' \<notin> set p2"
    and c2: "buildCanonicalString r2 e2 = Ret (HttpMethod_String (rq_method r2) @ NL # Header_Get ?h2 HttpHeaderContentMD5 @ NL #
           Header_Get ?h2 HttpHeaderContentType @ NL # Header_Get ?h2 HttpHeaderDate @ NL #
           concat (map (\<lambda>l. l @ [NL]) (map (header_line ?h2) (odps_headers ?h2))) @ (p2 @ query_text (rq_query r2)))"
    using canonical_string_parts [OF assms(2)] .
  have nl: "NL \<notin> set (HttpMethod_String m)" for m by (cases m) simp_all
  have hnl: "NL \<notin> set (Header_Get ?h1 k) \<and> NL \<notin> set (Header_Get ?h2 k)" if "k \<in> set signed_headers" for k
    using assms(1,2) that by (simp add: signable_def)
  note eq = assms(3) [unfolded c1 c2 outcome.inject]
  have "HttpMethod_String (rq_method r1) = HttpMethod_String (rq_method r2)"
    and heads: "map (Header_Get ?h1) signed_headers = map (Header_Get ?h2) signed_headers"
    and r5: "concat (map (\<lambda>l. l @ [NL]) (map (header_line ?h1) (odps_headers ?h1))) @ (p1 @ query_text (rq_query r1)) =
         concat (map (\<lambda>l. l @ [NL]) (map (header_line ?h2) (odps_headers ?h2))) @ (p2 @ query_text (rq_query r2))"
    using head_unique [OF _ _ _ _ eq] hnl nl unfolding signed_headers_def list.map list.inject by (meson list.set_intros)+
  then have meth: "rq_method r1 = rq_method r2" by (cases "rq_method r1"; cases "rq_method r2") simp_all
  have lines: "\<forall>l \<in> set (map (header_line ?h1) (odps_headers ?h1)) \<union> set (map (header_line ?h2) (odps_headers ?h2)).
      NL \<notin> set l \<and> l \<noteq> [] \<and> hd l = CHR ''x''"
    using header_line_props [OF assms(1)] header_line_props [OF assms(2)] by auto
  from lines_unique [OF lines path_text_start [OF p1(2)] path_text_start [OF p2(2)] r5]
  have hs: "map (header_line ?h1) (odps_headers ?h1) = map (header_line ?h2) (odps_headers ?h2)"
    and res: "p1 @ query_text (rq_query r1) = p2 @ query_text (rq_query r2)" by simp_all
  have p: "p1 = p2" using path_text_cut [OF p1(3), of "rq_query r1"] path_text_cut [OF p2(3), of "rq_query r2"] res by simp
  with res have "rq_query r1 = rq_query r2" using query_text_determines [OF assms(1,2)] by simp
  moreover have "?h1 k = ?h2 k" if "odps_key k" for k
    using header_lines_determine [OF assms(1,2) hs that] header_lines_determine [OF assms(2,1) hs [symmetric] that]
    by (metis domIff)
  ultimately show ?thesis using meth heads p p1(1) p2(1) by simp
qed

definition example_signed :: "byte list \<Rightarrow> HttpRequest" where
  "example_signed body =
     \<lparr>rq_method = GetMethod, rq_url = ''http://h.com/api/projects/p'', rq_query = [''b'' \<mapsto> ''2'', ''a'' \<mapsto> []],
      rq_header = [HttpHeaderDate \<mapsto> ''Thu'', HttpHeaderXOdpsUserAgent \<mapsto> ''sdk''], rq_body = body\<rparr>"

lemma example_canonical_path: "canonical_path ''http://h.com/api'' (example_signed body) = Ret ''/projects/p''"
proof -
  have "url_Parse ''http://h.com/api'' =
      Ret \<lparr>url_Scheme = ''http'', url_User = None, url_Host = ''h.com'', url_Path = ''/api'', url_RawQuery = []\<rparr>"
    "url_Parse ''http://h.com/api/projects/p'' =
      Ret \<lparr>url_Scheme = ''http'', url_User = None, url_Host = ''h.com'', url_Path = ''/api/projects/p'', url_RawQuery = []\<rparr>"
    by code_simp+
  then show ?thesis by (simp add: canonical_path_def example_signed_def)
qed

lemma example_signable: "signable ''http://h.com/api'' (example_signed body)"
proof -
  have "ToLower HttpHeaderXOdpsUserAgent = HttpHeaderXOdpsUserAgent" "\<not> odps_key HttpHeaderDate" by code_simp+
  then show ?thesis
    unfolding signable_def example_canonical_path
    by (simp add: example_signed_def path_ok_def signed_headers_def Header_Get_def header_consts
        HttpHeaderContentMD5_def odps_key_def)
qed

theorem canonical_string_binds_witness:
  "buildCanonicalString (example_signed [1]) ''http://h.com/api'' = buildCanonicalString (example_signed [2]) ''http://h.com/api'' \<and>
   rq_query (example_signed [1]) = rq_query (example_signed [2])"
proof -
  have eq: "buildCanonicalString (example_signed [1]) ''http://h.com/api'' = buildCanonicalString (example_signed [2]) ''http://h.com/api''"
    by (simp add: buildCanonicalString_def buildCanonicalResource_def example_canonical_path) (simp add: example_signed_def)
  from canonical_string_binds [OF example_signable example_signable eq] eq show ?thesis by blast
qed

text \<open>
  With an ampersand the text is ambiguous: values are written unescaped, so two parameters are signed under the
  same text as one parameter that holds them both.
\<close>

theorem canonical_string_ambiguous:
  assumes "k < l" and "v \<noteq> []" and "w \<noteq> []"
  shows "buildCanonicalString (req\<lparr>rq_query := [k \<mapsto> v, l \<mapsto> w]\<rparr>) endpoint =
    buildCanonicalString (req\<lparr>rq_query := [k \<mapsto> v @ ''&'' @ l @ ''='' @ w]\<rparr>) endpoint"
proof -
  have "sorted_list_of_set {k, l} = [k, l]" using assms(1) by (simp add: insort_is_Cons less_imp_le)
  then have s: "sorted_list_of_set (insert k {l}) = [k, l]" "sorted_list_of_set (insert l {k}) = [k, l]"
    by (simp_all add: insert_commute)
  have "canonical_path endpoint (req\<lparr>rq_query := q\<rparr>) = canonical_path endpoint req" for q
    by (simp add: canonical_path_def cong: outcome.case_cong)
  moreover have "k \<noteq> l" "l \<noteq> k" using assms(1) by auto
  ultimately show ?thesis
    using assms s by (simp add: buildCanonicalString_def buildCanonicalResource_def query_item_def Header_Get_def)
qed

theorem canonical_string_ambiguous_witness:
  "buildCanonicalString ((example_signed [])\<lparr>rq_query := [''a'' \<mapsto> ''1'', ''b'' \<mapsto> ''2'']\<rparr>) ''http://h.com/api'' =
   buildCanonicalString ((example_signed [])\<lparr>rq_query := [''a'' \<mapsto> ''1&b=2'']\<rparr>) ''http://h.com/api''"
  using canonical_string_ambiguous [of "''a''" "''b''" "''1''" "''2''" "example_signed []" "''http://h.com/api''"]
  by (simp add: less_char_def)

text \<open>
  A custom provider's credential is expected to hold its token as the bearer token: one with a security token,
  as STS credentials have it, makes the signing panic.
\<close>

theorem custom_credential_panics:
  assumes "cm_AccessKeyId cred = Some i" and "cm_AccessKeySecret cred = Some k" and "cm_BearerToken cred = None"
    and "canonical_path endpoint req = Ret p"
  shows "SignRequest corp date (StsCustomCredential (Ret cred) region) req endpoint = Panic NilDereference"
  using assms
  by (simp add: stsCustomCredential_signRequest_def credential_account_def deref_def aa_SignRequest_def buildCanonicalString_def buildCanonicalResource_def)

theorem custom_credential_panics_witness:
  "SignRequest ''aliyun'' ''20240101'' (StsCustomCredential (Ret \<lparr>cm_AccessKeyId = Some ''i'', cm_AccessKeySecret = Some ''k'',
     cm_SecurityToken = Some ''t'', cm_BearerToken = None\<rparr>) []) (example_signed []) ''http://h.com/api'' = Panic NilDereference"
  by (rule custom_credential_panics [OF _ _ _ example_canonical_path]) simp_all

end
