(* ===== verification/Instances.thy ===== *)
theory Instances
  imports Xml
begin

section \<open>Tasks and instances\<close>

text \<open>
  Models \<open>odps/task.go\<close>, \<open>odps/sql_task.go\<close>, \<open>odps/instance_res.go\<close>, \<open>odps/instance.go\<close>, the creation of
  tasks in \<open>odps/instances.go\<close>, the calls of \<open>odps/odps.go\<close> that run SQL and the options of
  \<open>odps/options\<close> they take.
  \<^item> An \<open>Odps\<close> value has its default project, its current schema, its REST client, and what the code
    takes from elsewhere: the parser of HTTP dates, the maker of UUIDs, the clock and the sleep,
    which act on the environment of the client.
  \<^item> A \<open>map[string]string\<close> is its entries with distinct keys; a nil map is \<open>None\<close>.
  \<^item> The start and the end of an instance are kept as the header fields from which the code parses them.
  \<^item> \<open>WaitForSuccess\<close> and \<open>CreateTask\<close> poll in loops without a bound: they are
    \<open>partial_function (option)\<close>, and \<open>None\<close> is a call that does not return.
\<close>

subsection \<open>Status values\<close>

datatype TaskStatus = TaskStatusZero | TaskWaiting | TaskRunning | TaskSuccess | TaskFailed | TaskSuspended | TaskCancelled
  | TaskStatusUnknown

definition TaskStatusFromStr :: "string \<Rightarrow> TaskStatus" where
  "TaskStatusFromStr s =
     (let u = ToUpper s in
      if u = ''WAITING'' then TaskWaiting else if u = ''RUNNING'' then TaskRunning
      else if u = ''SUCCESS'' then TaskSuccess else if u = ''FAILED'' then TaskFailed
      else if u = ''SUSPENDED'' then TaskSuspended else if u = ''CANCELLED'' then TaskCancelled
      else TaskStatusUnknown)"

fun TaskStatus_String :: "TaskStatus \<Rightarrow> string" where
  "TaskStatus_String TaskWaiting = ''WAITING''"
| "TaskStatus_String TaskRunning = ''RUNNING''"
| "TaskStatus_String TaskSuccess = ''SUCCESS''"
| "TaskStatus_String TaskFailed = ''FAILED''"
| "TaskStatus_String TaskSuspended = ''SUSPENDED''"
| "TaskStatus_String TaskCancelled = ''CANCELLED''"
| "TaskStatus_String _ = ''TASK_STATUS_UNKNOWN''"

datatype InstanceStatus = InstanceStatusZero | InstanceRunning | InstanceSuspended | InstanceTerminated | InstanceStatusUnknown

definition InstancesStatusFromStr :: "string \<Rightarrow> InstanceStatus" where
  "InstancesStatusFromStr s =
     (let l = ToLower s in
      if l = ''running'' then InstanceRunning else if l = ''suspended'' then InstanceSuspended
      else if l = ''terminated'' then InstanceTerminated else InstanceStatusUnknown)"

fun InstanceStatus_String :: "InstanceStatus \<Rightarrow> string" where
  "InstanceStatus_String InstanceRunning = ''Running''"
| "InstanceStatus_String InstanceSuspended = ''Suspended''"
| "InstanceStatus_String InstanceTerminated = ''Terminated''"
| "InstanceStatus_String _ = ''InstanceStatusUnknown''"

subsection \<open>What a server answers about tasks\<close>

record TaskInInstance =
  ti_Type :: string
  ti_Name :: string
  ti_StartTime :: "gotime option"
  ti_EndTime :: "gotime option"
  ti_Status :: TaskStatus

record TaskResult =
  tr_Type :: string
  tr_Name :: string
  tr_Status :: TaskStatus
  tr_TransForm :: string
  tr_Format :: string
  tr_Content :: string

text \<open>The zero status is left by a missing element.\<close>

definition x_task_status :: "xml \<Rightarrow> TaskStatus" where
  "x_task_status e = (case rev (x_path [''Status''] e) of [] \<Rightarrow> TaskStatusZero | c # _ \<Rightarrow> TaskStatusFromStr (x_text c))"

definition x_instance_status :: "xml \<Rightarrow> InstanceStatus" where
  "x_instance_status e =
     (case rev (x_path [''Status''] e) of [] \<Rightarrow> InstanceStatusZero | c # _ \<Rightarrow> InstancesStatusFromStr (x_text c))"

definition GMTTime_UnmarshalXML :: "(string \<Rightarrow> gotime outcome) \<Rightarrow> string list \<Rightarrow> xml \<Rightarrow> gotime option outcome" where
  "GMTTime_UnmarshalXML parseDate path e =
     omap (\<lambda>ts. case rev ts of [] \<Rightarrow> None | t # _ \<Rightarrow> t)
       (omap_list (\<lambda>c. if x_text c = [] then Ret None else omap Some (parseDate (x_text c))) (x_path path e))"

definition x_TaskInInstance :: "(string \<Rightarrow> gotime outcome) \<Rightarrow> xml \<Rightarrow> TaskInInstance outcome" where
  "x_TaskInInstance parseDate e =
     obind (GMTTime_UnmarshalXML parseDate [''StartTime''] e) (\<lambda>st.
     obind (GMTTime_UnmarshalXML parseDate [''EndTime''] e) (\<lambda>en.
     Ret \<lparr>ti_Type = x_attr ''Type'' e, ti_Name = x_string [''Name''] e, ti_StartTime = st, ti_EndTime = en,
          ti_Status = x_task_status e\<rparr>))"

definition x_TaskResult :: "xml \<Rightarrow> TaskResult" where
  "x_TaskResult e =
     (let r = (case rev (x_path [''Result''] e) of [] \<Rightarrow> XElem ''Result'' [] [] [] | c # _ \<Rightarrow> c) in
      \<lparr>tr_Type = x_attr ''Type'' e, tr_Name = x_string [''Name''] e, tr_Status = x_task_status e,
       tr_TransForm = x_attr ''Transform'' r, tr_Format = x_attr ''Format'' r, tr_Content = x_text r\<rparr>)"

definition Content :: "TaskResult \<Rightarrow> string" where
  "Content tr = (if tr_TransForm tr = ''Base64'' then string_of (DecodeString (tr_Content tr)) else tr_Content tr)"

subsection \<open>Options\<close>

record FallbackInfo =
  fb_FallbackQuota :: string
  fb_Fallback :: string

record MaxQAOptions =
  mq_UseMaxQA :: bool
  mq_QuotaName :: string
  mq_SessionID :: string
  mq_FallbackInfo :: "FallbackInfo option"

record CreateInstanceOptions =
  co_Priority :: int
  co_JobName :: string
  co_TryWait :: bool
  co_UniqueIdentifyID :: string
  co_MaxQAOptions :: MaxQAOptions

definition NewCreateInstanceOptions :: "(CreateInstanceOptions \<Rightarrow> CreateInstanceOptions) list \<Rightarrow> CreateInstanceOptions" where
  "NewCreateInstanceOptions opts =
     fold (\<lambda>opt. opt) opts \<lparr>co_Priority = 0, co_JobName = [], co_TryWait = False, co_UniqueIdentifyID = [],
       co_MaxQAOptions = \<lparr>mq_UseMaxQA = False, mq_QuotaName = [], mq_SessionID = [], mq_FallbackInfo = None\<rparr>\<rparr>"

definition WithPriority :: "int \<Rightarrow> CreateInstanceOptions \<Rightarrow> CreateInstanceOptions" where
  "WithPriority priority o1 = o1\<lparr>co_Priority := priority\<rparr>"

definition WithUniqueIdentifyID :: "string \<Rightarrow> CreateInstanceOptions \<Rightarrow> CreateInstanceOptions" where
  "WithUniqueIdentifyID uid o1 = o1\<lparr>co_UniqueIdentifyID := uid\<rparr>"

definition WithJobName :: "string \<Rightarrow> CreateInstanceOptions \<Rightarrow> CreateInstanceOptions" where
  "WithJobName jobName o1 = o1\<lparr>co_JobName := jobName\<rparr>"

definition WithTryWait :: "bool \<Rightarrow> CreateInstanceOptions \<Rightarrow> CreateInstanceOptions" where
  "WithTryWait tryWait o1 = o1\<lparr>co_TryWait := tryWait\<rparr>"

definition WithMaxQAOptions :: "(MaxQAOptions \<Rightarrow> MaxQAOptions) list \<Rightarrow> CreateInstanceOptions \<Rightarrow> CreateInstanceOptions" where
  "WithMaxQAOptions opts o1 =
     o1\<lparr>co_MaxQAOptions := fold (\<lambda>opt. opt) opts ((co_MaxQAOptions o1)\<lparr>mq_UseMaxQA := True\<rparr>)\<rparr>"

definition WithMaxQASessionID :: "string \<Rightarrow> MaxQAOptions \<Rightarrow> MaxQAOptions" where
  "WithMaxQASessionID sessionID o1 = o1\<lparr>mq_SessionID := sessionID\<rparr>"

definition WithMaxQAQuotaName :: "string \<Rightarrow> MaxQAOptions \<Rightarrow> MaxQAOptions" where
  "WithMaxQAQuotaName quotaName o1 = o1\<lparr>mq_QuotaName := quotaName\<rparr>"

definition WithMaxQAFallback :: "string \<Rightarrow> bool \<Rightarrow> MaxQAOptions \<Rightarrow> MaxQAOptions" where
  "WithMaxQAFallback fallbackQuota enabled o1 =
     o1\<lparr>mq_FallbackInfo := Some \<lparr>fb_FallbackQuota = fallbackQuota, fb_Fallback = (if enabled then ''true'' else ''false'')\<rparr>\<rparr>"

type_synonym string_map = "(string \<times> string) list"

record SQLTaskOptions =
  so_TaskName :: string
  so_InstanceOption :: "CreateInstanceOptions option"
  so_Hints :: "string_map option"
  so_Aliases :: "string_map option"
  so_Type :: string
  so_DefaultSchema :: string

definition NewSQLTaskOptions :: "(SQLTaskOptions \<Rightarrow> SQLTaskOptions) list \<Rightarrow> SQLTaskOptions" where
  "NewSQLTaskOptions opts =
     fold (\<lambda>opt. opt) opts \<lparr>so_TaskName = ''AnonymousSQLTask'', so_InstanceOption = None, so_Hints = Some [],
       so_Aliases = Some [], so_Type = ''sql'', so_DefaultSchema = []\<rparr>"

definition WithTaskName :: "string \<Rightarrow> SQLTaskOptions \<Rightarrow> SQLTaskOptions" where
  "WithTaskName name o1 = o1\<lparr>so_TaskName := name\<rparr>"

definition WithType :: "string \<Rightarrow> SQLTaskOptions \<Rightarrow> SQLTaskOptions" where
  "WithType t o1 = o1\<lparr>so_Type := t\<rparr>"

definition WithDefaultSchema :: "string \<Rightarrow> SQLTaskOptions \<Rightarrow> SQLTaskOptions" where
  "WithDefaultSchema schema o1 = o1\<lparr>so_DefaultSchema := schema\<rparr>"

definition WithHints :: "string_map \<Rightarrow> SQLTaskOptions \<Rightarrow> SQLTaskOptions" where
  "WithHints hints o1 = o1\<lparr>so_Hints := Some hints\<rparr>"

definition WithAliases :: "string_map \<Rightarrow> SQLTaskOptions \<Rightarrow> SQLTaskOptions" where
  "WithAliases aliases o1 = o1\<lparr>so_Aliases := Some aliases\<rparr>"

definition WithInstanceOption ::
    "(CreateInstanceOptions \<Rightarrow> CreateInstanceOptions) list \<Rightarrow> SQLTaskOptions \<Rightarrow> SQLTaskOptions" where
  "WithInstanceOption opts o1 = o1\<lparr>so_InstanceOption := Some (NewCreateInstanceOptions opts)\<rparr>"

subsection \<open>SQL tasks\<close>

record SQLTask =
  tk_TaskName :: string
  tk_Config :: "(string \<times> string) list"
  tk_Query :: string

definition AddProperty :: "string \<Rightarrow> string \<Rightarrow> SQLTask \<Rightarrow> SQLTask" where
  "AddProperty key v t = t\<lparr>tk_Config := tk_Config t @ [(key, v)]\<rparr>"

definition NewSqlTask :: "string \<Rightarrow> string \<Rightarrow> string_map option \<Rightarrow> SQLTask" where
  "NewSqlTask name query hints =
     \<lparr>tk_TaskName = name,
      tk_Config = (''type'', ''sql'') # (case hints of None \<Rightarrow> [] | Some h \<Rightarrow> [(''settings'', json_Marshal_map h)]),
      tk_Query = query\<rparr>"

definition NewAnonymousSQLTask :: "string \<Rightarrow> string_map option \<Rightarrow> SQLTask" where
  "NewAnonymousSQLTask query hints = NewSqlTask ''AnonymousSQLTask'' query hints"

definition SchemaHint :: string where "SchemaHint = ''odps.default.schema''"

text \<open>
  The entry is written into the caller's map; the second component of the result is the option as
  the call leaves it.
\<close>

definition NewSQLTaskWithOptions :: "string \<Rightarrow> SQLTaskOptions option \<Rightarrow> SQLTask \<times> SQLTaskOptions option" where
  "NewSQLTaskWithOptions query option =
     (case option of
        None \<Rightarrow> (NewAnonymousSQLTask query None, None)
      | Some o1 \<Rightarrow>
          (let taskName = (if so_TaskName o1 = [] then ''AnonymousSQLTask'' else so_TaskName o1);
               taskType = (if so_Type o1 = [] then ''sql'' else so_Type o1);
               hints = (if so_Hints o1 = None \<and> so_DefaultSchema o1 \<noteq> []
                        then Some [(SchemaHint, so_DefaultSchema o1)] else so_Hints o1);
               hints' = map_option (\<lambda>h. if Header_Get (map_of h) SchemaHint = [] \<and> so_DefaultSchema o1 \<noteq> []
                  then AList.update SchemaHint (so_DefaultSchema o1) h else h) hints
           in (\<lparr>tk_TaskName = taskName,
                tk_Config = (''type'', taskType) # (case hints' of None \<Rightarrow> [] | Some h \<Rightarrow> [(''settings'', json_Marshal_map h)]) @
                  (case so_Aliases o1 of None \<Rightarrow> [] | Some a \<Rightarrow> [(''aliases'', json_Marshal_map a)]),
                tk_Query = query\<rparr>,
               Some (o1\<lparr>so_Hints := (if so_Hints o1 = None then None else hints')\<rparr>))))"

text \<open>The element of a task: \<open>encoding/xml\<close> writes its fields in the order of the struct.\<close>

definition SQLTask_xml :: "SQLTask \<Rightarrow> xml" where
  "SQLTask_xml t =
     XElem ''SQL'' []
       [x_text_elem ''Name'' (tk_TaskName t),
        XElem ''Config'' [] (map (\<lambda>(n, v). XElem ''Property'' [] [x_text_elem ''Name'' n, x_text_elem ''Value'' v] [])
          (tk_Config t)) [],
        x_text_elem ''Query'' (tk_Query t)] []"

subsection \<open>\<open>Odps\<close> and \<open>Instance\<close>\<close>

record 'e Odps =
  od_defaultProject :: string
  od_currentSchema :: string
  od_restClient :: "'e RestClient"
  od_ParseRFC1123Date :: "string \<Rightarrow> gotime outcome"
  od_newUuid :: "'e \<Rightarrow> string \<times> 'e"
  od_now :: "'e \<Rightarrow> int"
  od_sleep :: "int \<Rightarrow> 'e \<Rightarrow> 'e"

definition Second :: int where "Second = 1000000000"

record Instance =
  in_projectName :: string
  in_id :: string
  in_owner :: string
  in_startTime :: string
  in_endTime :: string
  in_status :: InstanceStatus
  in_reLoaded :: bool
  in_resourceUrl :: string
  in_taskNameCommitted :: string
  in_taskResults :: "TaskResult list"
  in_isSync :: bool
  in_IsMaxQA :: bool
  in_QueryCookie :: string
  in_SessionID :: string

definition NewInstance :: "string \<Rightarrow> string \<Rightarrow> Instance" where
  "NewInstance projectName instanceId =
     \<lparr>in_projectName = projectName, in_id = instanceId, in_owner = [], in_startTime = [], in_endTime = [],
      in_status = InstanceStatusZero, in_reLoaded = False, in_resourceUrl = rb_Instance \<lparr>rb_ProjectName = projectName\<rparr> instanceId,
      in_taskNameCommitted = [], in_taskResults = [], in_isSync = False, in_IsMaxQA = False, in_QueryCookie = [],
      in_SessionID = []\<rparr>"

definition HttpHeaderOdpsOwner :: string where "HttpHeaderOdpsOwner = ''x-odps-owner''"
definition HttpHeaderOdpsStartTime :: string where "HttpHeaderOdpsStartTime = ''x-odps-start-time''"
definition HttpHeaderOdpsEndTime :: string where "HttpHeaderOdpsEndTime = ''x-odps-end-time''"
definition HttpHeaderLocation :: string where "HttpHeaderLocation = ''Location''"
definition HttpHeaderMaxQAQueryCookie :: string where "HttpHeaderMaxQAQueryCookie = ''x-odps-mcqa-query-cookie''"
definition HttpHeaderMaxQASessionID :: string where "HttpHeaderMaxQASessionID = ''x-odps-mcqa-conn''"
definition HttpHeaderODPSFallbackInfos :: string where "HttpHeaderODPSFallbackInfos = ''x-odps-fallback-infos''"

text \<open>The resource and the headers of a request about an instance, which differ for MaxQA.\<close>

definition mcqa_resource :: "Instance \<Rightarrow> string" where
  "mcqa_resource i = (if in_IsMaxQA i then ''/mcqa'' @ in_resourceUrl i else in_resourceUrl i)"

definition mcqa_headers :: "Instance \<Rightarrow> Values" where
  "mcqa_headers i =
     (if \<not> in_IsMaxQA i then Map.empty
      else if in_QueryCookie i \<noteq> []
      then [HttpHeaderMaxQASessionID \<mapsto> in_SessionID i, HttpHeaderMaxQAQueryCookie \<mapsto> in_QueryCookie i]
      else [HttpHeaderMaxQASessionID \<mapsto> in_SessionID i])"

definition x_tasks :: "(xml \<Rightarrow> 'a outcome) \<Rightarrow> xml \<Rightarrow> 'a list outcome" where
  "x_tasks f e = omap_list f (x_path [''Tasks'', ''Task''] e)"

definition ins_Load :: "'e Odps \<Rightarrow> (Instance \<times> 'e, unit) M" where
  "ins_Load od =
     mbind (mget fst) (\<lambda>i.
     mbind (on_env (\<lambda>_. od_restClient od) (GetWithParseFunc (od_restClient od) (mcqa_resource i)
        (Some (if in_IsMaxQA i then [''instancestatus'' \<mapsto> []] else Map.empty)) (mcqa_headers i) Ret)) (\<lambda>res.
     mseq (on_session (\<lambda>i. i\<lparr>in_owner := Header_Get (rs_Header res) HttpHeaderOdpsOwner,
        in_startTime := Header_Get (rs_Header res) HttpHeaderOdpsStartTime,
        in_endTime := Header_Get (rs_Header res) HttpHeaderOdpsEndTime\<rparr>))
     (mbind (mlift (x_Decode ''Instance''
          (\<lambda>e. omap (\<lambda>rs. (x_instance_status e, rs)) (x_tasks (\<lambda>t. Ret (x_TaskResult t)) e)) (rs_xml res))) (\<lambda>(status, results).
     on_session (\<lambda>i.
       let i1 = i\<lparr>in_status := status\<rparr>;
           i2 = (if results \<noteq> [] then i1\<lparr>in_taskResults := results, in_isSync := True\<rparr> else i1);
           cookie = Header_Get (rs_Header res) HttpHeaderMaxQAQueryCookie
       in if cookie \<noteq> [] then i2\<lparr>in_IsMaxQA := True, in_QueryCookie := cookie\<rparr> else i2)))))"

definition Terminate :: "'e Odps \<Rightarrow> (Instance \<times> 'e, unit) M" where
  "Terminate od =
     mbind (mget fst) (\<lambda>i.
       on_env (\<lambda>_. od_restClient od) (DoXmlWithParseFunc (od_restClient od) PutMethod (mcqa_resource i) None (mcqa_headers i)
         (XElem ''Instance'' [] [x_text_elem ''Status'' (InstanceStatus_String InstanceTerminated)] []) (\<lambda>res. Ret ())))"

definition GetTasks :: "'e Odps \<Rightarrow> (Instance \<times> 'e, TaskInInstance list) M" where
  "GetTasks od =
     mbind (mget fst) (\<lambda>i.
       on_env (\<lambda>_. od_restClient od) (GetWithModel (od_restClient od) (in_resourceUrl i) (Some [''taskstatus'' \<mapsto> []]) Map.empty
         (x_Decode ''Instance'' (x_tasks (x_TaskInInstance (od_ParseRFC1123Date od))))))"

definition GetResult :: "'e Odps \<Rightarrow> (Instance \<times> 'e, TaskResult list) M" where
  "GetResult od =
     mbind (mget fst) (\<lambda>i.
       if in_isSync i then mret (in_taskResults i)
       else if in_IsMaxQA i then mseq (ins_Load od) (mget (\<lambda>s. in_taskResults (fst s)))
       else on_env (\<lambda>_. od_restClient od) (GetWithModel (od_restClient od) (in_resourceUrl i) (Some [''result'' \<mapsto> []]) Map.empty
         (x_Decode ''Instance'' (x_tasks (\<lambda>t. Ret (x_TaskResult t))))))"

subsection \<open>\<open>WaitForSuccess\<close>\<close>

definition task_error :: "string \<Rightarrow> TaskStatus \<Rightarrow> goerr" where
  "task_error name status = ErrMsg (''get task '' @ name @ '' with status '' @ TaskStatus_String status)"

text \<open>The error made of a failed task: the content of the first result, if there is one.\<close>

definition result_error :: "'e Odps \<Rightarrow> string \<Rightarrow> TaskStatus \<Rightarrow> (Instance \<times> 'e, 'a) M" where
  "result_error od name status =
     mbind (GetResult od) (\<lambda>results.
       case results of [] \<Rightarrow> mfail (task_error name status) | r # _ \<Rightarrow> mfail (ErrMsg (Content r)))"

fun check_tasks :: "'e Odps \<Rightarrow> TaskInInstance list \<Rightarrow> bool \<Rightarrow> (Instance \<times> 'e, bool) M" where
  "check_tasks od [] success = mret success"
| "check_tasks od (t # ts) success =
     (if ti_Status t \<in> {TaskFailed, TaskCancelled, TaskSuspended} then result_error od (ti_Name t) (ti_Status t)
      else check_tasks od ts (success \<and> ti_Status t \<notin> {TaskRunning, TaskWaiting}))"

definition sleep_seconds :: "'e Odps \<Rightarrow> int \<Rightarrow> ('u \<times> 'e, unit) M" where
  "sleep_seconds od n s = (Ret (), (fst s, od_sleep od (Second * n) (snd s)))"

text \<open>One turn of the loop: whether it ends, or has slept and goes on.\<close>

definition wait_turn :: "'e Odps \<Rightarrow> (Instance \<times> 'e, bool) M" where
  "wait_turn od =
     mseq (ins_Load od)
     (mbind (GetTasks od) (\<lambda>tasks.
       if tasks = [] then mseq (sleep_seconds od 1) (mret False)
       else mbind (check_tasks od tasks True) (\<lambda>success.
         if success then mret True else mseq (sleep_seconds od 1) (mret False))))"

partial_function (option) wait_loop :: "'e Odps \<Rightarrow> Instance \<times> 'e \<Rightarrow> (unit outcome \<times> Instance \<times> 'e) option" where
  "wait_loop od s =
     (case wait_turn od s of
        (Ret ends, s') \<Rightarrow> if ends then Some (Ret (), s') else wait_loop od s'
      | (Fail err, s') \<Rightarrow> Some (Fail err, s')
      | (Panic p, s') \<Rightarrow> Some (Panic p, s'))"

definition WaitForSuccess :: "'e Odps \<Rightarrow> Instance \<times> 'e \<Rightarrow> (unit outcome \<times> Instance \<times> 'e) option" where
  "WaitForSuccess od s = (if in_isSync (fst s) then Some (Ret (), s) else wait_loop od s)"

subsection \<open>Creating tasks\<close>

definition DefaultJobPriority :: int where "DefaultJobPriority = 9"

record MaxQAConnInfo =
  ci_QuotaName :: string
  ci_ConnInfo :: string
  ci_RegionID :: string

definition MaxQAConnInfo_json :: "(string \<times> MaxQAConnInfo jfield) list" where
  "MaxQAConnInfo_json =
     [(''quotaNickName'', jstring (\<lambda>v. ci_QuotaName_update (\<lambda>_. v))), (''connInfo'', jstring (\<lambda>v. ci_ConnInfo_update (\<lambda>_. v))),
      (''regionId'', jstring (\<lambda>v. ci_RegionID_update (\<lambda>_. v)))]"

definition getMaxQAConnInfo :: "'e Odps \<Rightarrow> string \<Rightarrow> string \<Rightarrow> FallbackInfo option \<Rightarrow> ('e, MaxQAConnInfo) M" where
  "getMaxQAConnInfo od quotaName projectName fallbackInfo =
     (let q1 = [''project'' \<mapsto> projectName];
          q2 = set_if (quotaName \<noteq> []) ''quota'' quotaName q1;
          q3 = (case fallbackInfo of None \<Rightarrow> q2
                | Some f \<Rightarrow> set_if (fb_Fallback f \<noteq> []) ''fallback'' (fb_Fallback f)
                    (set_if (fb_FallbackQuota f \<noteq> []) ''fallbackQuota'' (fb_FallbackQuota f) q2))
      in mbind (mlift (NewRequestWithUrlQuery (od_restClient od) GetMethod ''/connection/mcqa'' (Some q3))) (\<lambda>request.
         mbind (Do (od_restClient od) request) (\<lambda>response.
         mlift (json_Decode MaxQAConnInfo_json (rs_json response) \<lparr>ci_QuotaName = [], ci_ConnInfo = [], ci_RegionID = []\<rparr>))))"

definition FallbackInfo_Marshal :: "FallbackInfo \<Rightarrow> string" where
  "FallbackInfo_Marshal f =
     ''{'' @ json_quote ''FallbackQuota'' @ '':'' @ json_quote (fb_FallbackQuota f) @ '','' @ json_quote ''Fallback'' @ '':'' @
     json_quote (fb_Fallback f) @ ''}''"

definition InstanceCreationModel :: "CreateInstanceOptions \<Rightarrow> SQLTask \<Rightarrow> xml" where
  "InstanceCreationModel opts task =
     (let priority = (if co_Priority opts = 0 then DefaultJobPriority else co_Priority opts) in
      XElem ''Instance'' []
        [XElem ''Job'' []
           ((if co_JobName opts = [] then [] else [x_text_elem ''Name'' (co_JobName opts)]) @
            [x_text_elem ''Priority'' (Itoa priority)] @
            (if co_UniqueIdentifyID opts = [] then [] else [x_text_elem ''Guid'' (co_UniqueIdentifyID opts)]) @
            [XElem ''Tasks'' [] [SQLTask_xml task] []]) []] [])"

text \<open>What one answer to the creation gives: the id, the MaxQA cookie, the results of a synchronous run.\<close>

definition parse_created :: "HttpResponse \<Rightarrow> (string \<times> string \<times> TaskResult list) outcome" where
  "parse_created res =
     (let location = Header_Get (rs_Header res) HttpHeaderLocation;
          tail = rev (takeWhile (\<lambda>c. c \<noteq> CHR ''/'') (rev location))
      in if location = [] then Fail (ErrMsg ''invalid response, Location header required'')
         else if CHR ''/'' \<notin> set location \<or> tail = []
         then Fail (ErrMsg ''invalid response, value of Location header is invalid'')
         else if rs_StatusCode res = 409 then Fail (NewHttpNotOk res)
         else if rs_StatusCode res = 201 then Ret (tail, Header_Get (rs_Header res) HttpHeaderMaxQAQueryCookie, [])
         else omap (\<lambda>results. (tail, [], results))
                (x_Decode ''Instance'' (x_tasks (\<lambda>t. Ret (x_TaskResult t))) (rs_xml res)))"

definition retry_seconds :: "string \<Rightarrow> int" where
  "retry_seconds retryAfter = (if retryAfter = [] then 5 else case Atoi retryAfter of Ret n \<Rightarrow> n | _ \<Rightarrow> 5)"

partial_function (option) create_loop ::
    "'e Odps \<Rightarrow> ('e, 'a) M \<Rightarrow> int \<Rightarrow> 'e \<Rightarrow> ('a outcome \<times> 'e) option" where
  "create_loop od post startTime e =
     (case post e of
        (Fail err, e') \<Rightarrow>
          if od_now od e' - startTime \<ge> 180 * Second then Some (Fail err, e')
          else (case err of
              ErrHttp code status retryAfter \<Rightarrow>
                if code = 409 then create_loop od post startTime (od_sleep od (Second * retry_seconds retryAfter) e')
                else Some (Fail err, e')
            | _ \<Rightarrow> Some (Fail err, e'))
      | (Ret x, e') \<Rightarrow> Some (Ret x, e')
      | (Panic p, e') \<Rightarrow> Some (Panic p, e'))"

text \<open>
  A synchronous instance whose tasks have failed is returned beside an error: the second component. The
  results of the instance are its own, so \<open>GetResult\<close> sends no request here.
\<close>

fun sync_error :: "TaskResult list \<Rightarrow> TaskResult list \<Rightarrow> goerr option" where
  "sync_error results [] = None"
| "sync_error results (t # ts) =
     (if tr_Status t \<in> {TaskFailed, TaskCancelled, TaskSuspended}
      then Some (case results of [] \<Rightarrow> task_error (tr_Name t) (tr_Status t) | r # _ \<Rightarrow> ErrMsg (Content r))
      else sync_error results ts)"

definition created_instance ::
    "string \<Rightarrow> SQLTask \<Rightarrow> MaxQAOptions \<Rightarrow> string \<Rightarrow> string \<Rightarrow> TaskResult list \<Rightarrow> Instance" where
  "created_instance projectName task mq instanceId cookie results =
     (let i = (NewInstance projectName instanceId)\<lparr>in_taskNameCommitted := tk_TaskName task, in_taskResults := results,
            in_isSync := results \<noteq> []\<rparr>
      in if mq_UseMaxQA mq
         then i\<lparr>in_IsMaxQA := True, in_SessionID := mq_SessionID mq, in_QueryCookie := cookie\<rparr> else i)"

text \<open>The MaxQA options with the session the server names, when the caller named none.\<close>

definition resolve_maxqa :: "'e Odps \<Rightarrow> string \<Rightarrow> MaxQAOptions \<Rightarrow> ('e, MaxQAOptions) M" where
  "resolve_maxqa od projectName mq =
     (if mq_UseMaxQA mq \<and> mq_SessionID mq = []
      then mbind (getMaxQAConnInfo od (mq_QuotaName mq) projectName (mq_FallbackInfo mq)) (\<lambda>connInfo.
             mret (mq\<lparr>mq_SessionID := ci_ConnInfo connInfo\<rparr>))
      else mret mq)"

definition post_task :: "'e Odps \<Rightarrow> string \<Rightarrow> CreateInstanceOptions \<Rightarrow> MaxQAOptions \<Rightarrow> SQLTask \<Rightarrow>
    ('e, string \<times> string \<times> TaskResult list) M" where
  "post_task od projectName opts mq task =
     (let resource = (if mq_UseMaxQA mq then ''/mcqa'' else []) @ rb_Instances (NewResourceBuilder projectName);
          headers = (if mq_UseMaxQA mq
            then (case mq_FallbackInfo mq of
                None \<Rightarrow> [HttpHeaderMaxQASessionID \<mapsto> mq_SessionID mq]
              | Some f \<Rightarrow> [HttpHeaderMaxQASessionID \<mapsto> mq_SessionID mq, HttpHeaderODPSFallbackInfos \<mapsto> FallbackInfo_Marshal f])
            else Map.empty)
      in DoXmlWithParseFunc (od_restClient od) PostMethod resource (Some (set_if (co_TryWait opts) ''tryWait'' [] Map.empty))
           headers (InstanceCreationModel opts task) parse_created)"

text \<open>
  \<open>instancesProject\<close> is the project of the \<open>Instances\<close> value, \<open>options\<close> the optional argument. The
  UUID is made once, before the loop.
\<close>

definition CreateTask ::
    "'e Odps \<Rightarrow> string \<Rightarrow> string \<Rightarrow> SQLTask \<Rightarrow> CreateInstanceOptions option \<Rightarrow> 'e \<Rightarrow>
       ((Instance \<times> goerr option) outcome \<times> 'e) option" where
  "CreateTask od instancesProject project task options e =
     (let opts = (case options of None \<Rightarrow> NewCreateInstanceOptions [] | Some o1 \<Rightarrow> o1);
          projectName = (if project = [] then instancesProject else project);
          (uuid, e1) = od_newUuid od e;
          task' = AddProperty ''uuid'' uuid task
      in case resolve_maxqa od projectName (co_MaxQAOptions opts) e1 of
           (Fail err, e2) \<Rightarrow> Some (Fail err, e2)
         | (Panic p, e2) \<Rightarrow> Some (Panic p, e2)
         | (Ret mq, e2) \<Rightarrow>
             map_option (\<lambda>(r, e3). (omap (\<lambda>(instanceId, cookie, results).
                 (created_instance projectName task' mq instanceId cookie results, sync_error results results)) r, e3))
               (create_loop od (post_task od projectName opts mq task') (od_now od e2) e2))"

subsection \<open>Running SQL\<close>

definition exec_options :: "'e Odps \<Rightarrow> SQLTaskOptions \<Rightarrow> SQLTaskOptions" where
  "exec_options od option =
     (let o1 = (if so_Hints option = None then option\<lparr>so_Hints := Some []\<rparr> else option) in
      if od_currentSchema od \<noteq> [] \<and> so_DefaultSchema o1 \<noteq> [] then o1\<lparr>so_DefaultSchema := od_currentSchema od\<rparr> else o1)"

definition ExecSQlWithOption :: "'e Odps \<Rightarrow> string \<Rightarrow> SQLTaskOptions \<Rightarrow> 'e \<Rightarrow> ((Instance \<times> goerr option) outcome \<times> 'e) option" where
  "ExecSQlWithOption od sql option =
     (let o1 = exec_options od option
      in CreateTask od (od_defaultProject od) (od_defaultProject od) (fst (NewSQLTaskWithOptions sql (Some o1)))
           (so_InstanceOption o1))"

definition ExecSQlWithHints :: "'e Odps \<Rightarrow> string \<Rightarrow> string_map option \<Rightarrow> 'e \<Rightarrow> ((Instance \<times> goerr option) outcome \<times> 'e) option" where
  "ExecSQlWithHints od sql hints e =
     (if od_defaultProject od = [] then Some (Fail (ErrMsg ''default project has not been set for odps''), e)
      else ExecSQlWithOption od sql ((NewSQLTaskOptions [])\<lparr>so_Hints := hints\<rparr>) e)"

definition ExecSQl :: "'e Odps \<Rightarrow> string \<Rightarrow> string_map option list \<Rightarrow> 'e \<Rightarrow> ((Instance \<times> goerr option) outcome \<times> 'e) option" where
  "ExecSQl od sql hints = ExecSQlWithHints od sql (case hints of [] \<Rightarrow> None | h # _ \<Rightarrow> h)"

subsection \<open>Waiting\<close>

text \<open>\<open>pending n s t\<close>: \<open>n\<close> turns of the loop from \<open>s\<close>, none of which ends it, lead to \<open>t\<close>.\<close>

inductive pending :: "'e Odps \<Rightarrow> nat \<Rightarrow> Instance \<times> 'e \<Rightarrow> Instance \<times> 'e \<Rightarrow> bool" for od where
  none: "pending od 0 s s"
| turn: "wait_turn od s = (Ret False, t) \<Longrightarrow> pending od n t u \<Longrightarrow> pending od (Suc n) s u"

inductive_simps pending_Suc: "pending od (Suc n) s u"

lemma wait_loop_end: "wait_turn od s = (r, s') \<Longrightarrow> r \<noteq> Ret False \<Longrightarrow> wait_loop od s = Some (omap (\<lambda>_. ()) r, s')"
  by (subst wait_loop.simps) (auto split: outcome.splits)

lemma wait_loop_turn: "wait_turn od s = (Ret False, s') \<Longrightarrow> wait_loop od s = wait_loop od s'"
  by (subst wait_loop.simps) simp

lemma wait_loop_pending: "pending od n s t \<Longrightarrow> wait_loop od s = wait_loop od t"
  by (induction rule: pending.induct) (simp_all add: wait_loop_turn)

lemma wait_loop_Some:
  assumes "wait_loop od s = Some y"
  shows "\<exists>n t q. pending od n s t \<and> wait_turn od t = (q, snd y) \<and> q \<noteq> Ret False \<and> fst y = omap (\<lambda>_. ()) q"
  using assms
proof (induction rule: wait_loop.raw_induct [rotated, consumes 1])
  case (1 wl od s y)
  obtain q u where t: "wait_turn od s = (q, u)" by (cases "wait_turn od s")
  show ?case
  proof (cases "q = Ret False")
    case True
    with 1 t have "wl od u = Some y" by simp
    from 1(1) [OF this] True t show ?thesis by (meson pending.turn)
  next
    case False
    with 1(2) t have "fst y = omap (\<lambda>_. ()) q" "snd y = u" by (auto split: outcome.splits if_splits)
    with False t pending.none show ?thesis by blast
  qed
qed

lemma pending_stops:
  "pending od n s t \<Longrightarrow> wait_turn od t = (q, u) \<Longrightarrow> q \<noteq> Ret False \<Longrightarrow> \<not> pending od (Suc n) s v"
  by (induction rule: pending.induct) (simp_all add: pending_Suc)

lemma wait_loop_None: "wait_loop od s = None \<longleftrightarrow> (\<forall>n. \<exists>t. pending od n s t)"
proof
  have "\<exists>t. pending od n s t" if "wait_loop od s = None" for n
    using that
  proof (induction n arbitrary: s)
    case 0
    then show ?case using pending.none by blast
  next
    case (Suc n)
    obtain r s' where t: "wait_turn od s = (r, s')" by (cases "wait_turn od s")
    with Suc.prems wait_loop_end have "r = Ret False" by fastforce
    with t Suc wait_loop_turn show ?case by (metis pending.turn)
  qed
  then show "wait_loop od s = None \<Longrightarrow> \<forall>n. \<exists>t. pending od n s t" by blast
  show "\<forall>n. \<exists>t. pending od n s t \<Longrightarrow> wait_loop od s = None"
    using wait_loop_Some [of od s] pending_stops by (metis not_Some_eq)
qed

lemma result_error_not_Ret: "result_error od name status s \<noteq> (Ret x, s')"
  by (auto simp: result_error_def mbind_Ret_iff mfail_def split: list.splits)

lemma check_tasks_Ret:
  "check_tasks od ts b s = (Ret b', s') \<Longrightarrow>
     s' = s \<and> (\<forall>t \<in> set ts. ti_Status t \<notin> {TaskFailed, TaskCancelled, TaskSuspended}) \<and>
     (b' \<longleftrightarrow> b \<and> (\<forall>t \<in> set ts. ti_Status t \<notin> {TaskRunning, TaskWaiting}))"
proof (induction ts arbitrary: b)
  case (Cons t ts)
  then show ?case
    by (auto simp: result_error_not_Ret split: if_splits)
qed (simp add: mret_def)

text \<open>
  The polls that an answer does not end, in terms of the answers: both requests succeed, and there is no task yet, or a task runs or
  waits and none has failed, was cancelled or suspended.
\<close>

definition unfinished :: "TaskInInstance list \<Rightarrow> bool" where
  "unfinished tasks \<longleftrightarrow>
     tasks = [] \<or>
     (\<exists>t \<in> set tasks. ti_Status t \<in> {TaskRunning, TaskWaiting}) \<and>
     (\<forall>t \<in> set tasks. ti_Status t \<notin> {TaskFailed, TaskCancelled, TaskSuspended})"

inductive polls :: "'e Odps \<Rightarrow> nat \<Rightarrow> Instance \<times> 'e \<Rightarrow> Instance \<times> 'e \<Rightarrow> bool" for od where
  none: "polls od 0 s s"
| poll: "ins_Load od s = (Ret (), s1) \<Longrightarrow> GetTasks od s1 = (Ret tasks, (i, e)) \<Longrightarrow> unfinished tasks \<Longrightarrow>
    polls od n (i, od_sleep od Second e) t \<Longrightarrow> polls od (Suc n) s t"

inductive_simps polls_Suc: "polls od (Suc n) s t"

lemma check_tasks_unfinished:
  "(\<forall>t \<in> set ts. ti_Status t \<notin> {TaskFailed, TaskCancelled, TaskSuspended}) \<Longrightarrow>
   check_tasks od ts b s = (Ret (b \<and> (\<forall>t \<in> set ts. ti_Status t \<notin> {TaskRunning, TaskWaiting})), s)"
  by (induction ts arbitrary: b) (auto simp: mret_def)

lemma wait_turn_False:
  "wait_turn od s = (Ret False, t) \<longleftrightarrow>
   (\<exists>s1 tasks i e. ins_Load od s = (Ret (), s1) \<and> GetTasks od s1 = (Ret tasks, (i, e)) \<and> unfinished tasks \<and>
      t = (i, od_sleep od Second e))"
proof
  assume "wait_turn od s = (Ret False, t)"
  then obtain s1 tasks s2 s3 where l0: "ins_Load od s = (Ret (), s1)" "GetTasks od s1 = (Ret tasks, s2)" "t = (fst s3, od_sleep od Second (snd s3))"
    "tasks = [] \<and> s3 = s2 \<or> check_tasks od tasks True s2 = (Ret False, s3)"
    by (auto simp: wait_turn_def mseq_Ret_iff mbind_Ret_iff mret_def sleep_seconds_def split: if_splits)
  moreover from l0(4) have "s3 = s2" using check_tasks_Ret by blast
  ultimately obtain i e where l: "ins_Load od s = (Ret (), s1)" "GetTasks od s1 = (Ret tasks, (i, e))" "t = (i, od_sleep od Second e)"
    "tasks = [] \<or> check_tasks od tasks True (i, e) = (Ret False, (i, e))"
    by (cases s2) auto
  then have "unfinished tasks" using check_tasks_Ret [of od tasks True "(i, e)" False "(i, e)"] by (auto simp: unfinished_def)
  with l show "\<exists>s1 tasks i e. ins_Load od s = (Ret (), s1) \<and> GetTasks od s1 = (Ret tasks, (i, e)) \<and> unfinished tasks \<and>
      t = (i, od_sleep od Second e)" by blast
next
  assume "\<exists>s1 tasks i e. ins_Load od s = (Ret (), s1) \<and> GetTasks od s1 = (Ret tasks, (i, e)) \<and> unfinished tasks \<and>
      t = (i, od_sleep od Second e)"
  then obtain s1 tasks i e where l: "ins_Load od s = (Ret (), s1)" "GetTasks od s1 = (Ret tasks, (i, e))" "unfinished tasks"
    "t = (i, od_sleep od Second e)" by blast
  have "tasks \<noteq> [] \<Longrightarrow> check_tasks od tasks True (i, e) = (Ret False, (i, e))"
    using l(3) check_tasks_unfinished [of tasks od True "(i, e)"] by (auto simp: unfinished_def)
  with l show "wait_turn od s = (Ret False, t)"
    by (auto simp: wait_turn_def mseq_def mbind_def mret_def sleep_seconds_def)
qed

lemma pending_polls: "pending od n s t \<longleftrightarrow> polls od n s t"
proof
  show "pending od n s t \<Longrightarrow> polls od n s t"
    by (induction rule: pending.induct) (auto simp: wait_turn_False intro: polls.intros)
  show "polls od n s t \<Longrightarrow> pending od n s t"
    by (induction rule: polls.induct) (auto simp: wait_turn_False intro: pending.intros)
qed

text \<open>
  C28. Waiting ends unless the tasks never do: the call on an asynchronous instance fails to return exactly when every poll, without
  end, is answered and finds an instance without tasks, or one with a task that waits or runs and none that has failed, was cancelled
  or suspended.
\<close>

theorem WaitForSuccess_returns:
  "WaitForSuccess od s = None \<longleftrightarrow> \<not> in_isSync (fst s) \<and> (\<forall>n. \<exists>t. polls od n s t)"
  by (simp add: WaitForSuccess_def wait_loop_None pending_polls)

lemma wait_turn_True:
  assumes "wait_turn od s = (Ret True, s')"
  shows "\<exists>s1 tasks. ins_Load od s = (Ret (), s1) \<and> GetTasks od s1 = (Ret tasks, s') \<and> tasks \<noteq> [] \<and>
    (\<forall>t \<in> set tasks. ti_Status t \<in> {TaskSuccess, TaskStatusUnknown, TaskStatusZero})"
proof -
  from assms obtain s1 tasks s2 where t: "ins_Load od s = (Ret (), s1)" "GetTasks od s1 = (Ret tasks, s2)" "tasks \<noteq> []"
    "check_tasks od tasks True s2 = (Ret True, s')"
    by (auto simp: wait_turn_def mseq_Ret_iff mbind_Ret_iff mret_def sleep_seconds_def split: if_splits)
  from check_tasks_Ret [OF t(4)] have "s' = s2" "\<forall>t \<in> set tasks. ti_Status t \<in> {TaskSuccess, TaskStatusUnknown, TaskStatusZero}"
    by (simp_all, metis TaskStatus.exhaust)
  with t(1-3) show ?thesis by blast
qed

text \<open>
  C32. Success is what the server last said: when waiting for an asynchronous instance returns
  without an error, the last answer had at least one task, and none of its tasks had failed, was cancelled,
  suspended, running or waiting. A status that the code does not know counts as success.
\<close>

theorem WaitForSuccess_success:
  assumes "WaitForSuccess od s = Some (Ret (), s')" and "\<not> in_isSync (fst s)"
  shows "\<exists>n t s1 tasks. pending od n s t \<and> ins_Load od t = (Ret (), s1) \<and> GetTasks od s1 = (Ret tasks, s') \<and> tasks \<noteq> [] \<and>
    (\<forall>k \<in> set tasks. ti_Status k \<in> {TaskSuccess, TaskStatusUnknown, TaskStatusZero})"
proof -
  have "wait_loop od s = Some (Ret (), s')" using assms by (simp add: WaitForSuccess_def)
  from wait_loop_Some [OF this] obtain n t q where q: "pending od n s t" "wait_turn od t = (q, s')" "q \<noteq> Ret False"
    "Ret () = omap (\<lambda>_. ()) q" by auto
  then have "wait_turn od t = (Ret True, s')" by (cases q) auto
  with q(1) wait_turn_True [of od t s'] show ?thesis by blast
qed

text \<open>An instance of one task whose server answers the poll for tasks with the status \<open>status\<close>.\<close>

definition xml_response :: "xml \<Rightarrow> HttpResponse" where
  "xml_response e = \<lparr>rs_StatusCode = 200, rs_Status = ''200 OK'', rs_Header = Map.empty, rs_json = None, rs_xml = Some e,
     rs_Body = \<lparr>src_in = [], src_end = ErrEOF\<rparr>\<rparr>"

definition tasks_answer :: "string \<Rightarrow> nat \<Rightarrow> HttpResponse outcome" where
  "tasks_answer status n =
     Ret (xml_response (XElem ''Instance'' []
       (if n = 0 then [] else [XElem ''Tasks'' [] [XElem ''Task'' [] [x_text_elem ''Status'' status] []] []]) []))"

text \<open>An \<open>Odps\<close> value whose environment counts seconds, and whose server gives the answers \<open>answers\<close>.\<close>

definition example_od :: "(nat \<Rightarrow> HttpResponse outcome) \<Rightarrow> nat Odps" where
  "example_od answers =
     \<lparr>od_defaultProject = ''p'', od_currentSchema = [], od_restClient = example_client answers,
      od_ParseRFC1123Date = (\<lambda>s. Fail (ErrMsg ''cannot parse'')), od_newUuid = (\<lambda>n. (''u'', n)),
      od_now = (\<lambda>n. Second * int n), od_sleep = (\<lambda>k n. n + nat (k div Second) + 1)\<rparr>"

lemmas run_request_defs = GetWithParseFunc_def GetWithModel_def DoWithModel_def NewRequestWithParamsAndHeaders_def
  NewRequestWithUrlQuery_def NewRequest_def DoWithParseFunc_def DoWithParseRes_def Do_def mbind_def mseq_def mlift_def
  mret_def mfail_def mget_def on_env_def on_session_def Let_def

lemma example_wait:
  assumes "TaskStatusFromStr status \<in> {TaskSuccess, TaskStatusUnknown}"
  shows "\<exists>i. WaitForSuccess (example_od (tasks_answer status)) (NewInstance ''p'' ''i'', 0) = Some (Ret (), (i, 2))"
proof -
  have "\<exists>i. wait_turn (example_od (tasks_answer status)) (NewInstance ''p'' ''i'', 0) = (Ret True, (i, 2))"
    using assms
    by (auto simp: wait_turn_def ins_Load_def GetTasks_def run_request_defs example_od_def example_client_def
        NewInstance_def tasks_answer_def xml_response_def x_Decode_def x_tasks_def x_instance_status_def Header_Get_def
        x_TaskInInstance_def GMTTime_UnmarshalXML_def x_text_elem_def x_task_status_def)
  then show ?thesis by (auto simp: WaitForSuccess_def NewInstance_def dest: wait_loop_end)
qed

theorem WaitForSuccess_success_witness:
  "\<exists>i. WaitForSuccess (example_od (tasks_answer ''NO_SUCH_STATUS'')) (NewInstance ''p'' ''i'', 0) = Some (Ret (), (i, 2)) \<and>
     (\<exists>n t s1 tasks. pending (example_od (tasks_answer ''NO_SUCH_STATUS'')) n (NewInstance ''p'' ''i'', 0) t \<and>
        ins_Load (example_od (tasks_answer ''NO_SUCH_STATUS'')) t = (Ret (), s1) \<and>
        GetTasks (example_od (tasks_answer ''NO_SUCH_STATUS'')) s1 = (Ret tasks, (i, 2)) \<and> tasks \<noteq> [] \<and>
        (\<forall>k \<in> set tasks. ti_Status k \<in> {TaskSuccess, TaskStatusUnknown, TaskStatusZero}))"
proof -
  have "TaskStatusFromStr ''NO_SUCH_STATUS'' = TaskStatusUnknown" by code_simp
  with example_wait [of "''NO_SUCH_STATUS''"] obtain i where
    i: "WaitForSuccess (example_od (tasks_answer ''NO_SUCH_STATUS'')) (NewInstance ''p'' ''i'', 0) = Some (Ret (), (i, 2))"
    by auto
  have "\<not> in_isSync (fst (NewInstance ''p'' ''i'', 0 :: nat))" by (simp add: NewInstance_def)
  from WaitForSuccess_success [OF i this] i show ?thesis by blast
qed

subsection \<open>Creating\<close>

lemma create_loop_returns:
  assumes clock: "\<And>e. od_now od e \<le> od_now od (snd (post e))"
    and sleep: "\<And>n e. n > 0 \<Longrightarrow> od_now od e + n \<le> od_now od (od_sleep od n e)"
    and retry: "\<And>e e' status ra. post e = (Fail (ErrHttp 409 status ra), e') \<Longrightarrow> retry_seconds ra \<ge> 1"
  shows "create_loop od post startTime e \<noteq> None"
proof (induction "nat (startTime + 180 * Second - od_now od e)" arbitrary: e rule: less_induct)
  case less
  obtain r e' where r: "post e = (r, e')" by (cases "post e")
  show ?case
  proof (cases "\<exists>status ra. r = Fail (ErrHttp 409 status ra) \<and> od_now od e' - startTime < 180 * Second")
    case True
    then obtain status ra where ra: "r = Fail (ErrHttp 409 status ra)" "od_now od e' - startTime < 180 * Second" by blast
    let ?e = "od_sleep od (Second * retry_seconds ra) e'"
    have "Second * retry_seconds ra > 0" using retry r ra(1) by (fastforce simp: Second_def)
    from sleep [OF this, of e'] have "od_now od e' < od_now od ?e" using \<open>Second * retry_seconds ra > 0\<close> by linarith
    moreover have "od_now od e \<le> od_now od e'" using clock [of e] r by simp
    ultimately have "nat (startTime + 180 * Second - od_now od ?e) < nat (startTime + 180 * Second - od_now od e)"
      using ra(2) by linarith
    from less [OF this] show ?thesis using r ra by (subst create_loop.simps) simp
  next
    case False
    with r show ?thesis by (subst create_loop.simps) (auto split: outcome.splits goerr.splits)
  qed
qed

text \<open>
  Creating a task returns: a clock that does not run backwards and advances over a sleep, and a
  server that never asks to retry at once, bound the attempts, since after 180 seconds the error is
  handed to the caller.
\<close>

theorem CreateTask_returns:
  assumes "\<And>projectName opts mq task e. od_now od e \<le> od_now od (snd (post_task od projectName opts mq task e))"
    and "\<And>n e. n > 0 \<Longrightarrow> od_now od e + n \<le> od_now od (od_sleep od n e)"
    and "\<And>projectName opts mq task e e' status ra.
      post_task od projectName opts mq task e = (Fail (ErrHttp 409 status ra), e') \<Longrightarrow> retry_seconds ra \<ge> 1"
  shows "CreateTask od instancesProject project task options e \<noteq> None"
proof -
  have "create_loop od (post_task od projectName opts mq t) start e1 \<noteq> None" for projectName opts mq t start e1
    by (rule create_loop_returns) (use assms in blast)+
  then show ?thesis
    unfolding CreateTask_def Let_def by (simp split: prod.split outcome.split del: not_None_eq)
qed

definition conflict :: HttpResponse where
  "conflict = \<lparr>rs_StatusCode = 409, rs_Status = ''409 Conflict'', rs_Header = Map.empty, rs_json = None, rs_xml = None,
     rs_Body = \<lparr>src_in = [], src_end = ErrEOF\<rparr>\<rparr>"

lemma post_conflict:
  "post_task (example_od (\<lambda>n. Ret conflict)) projectName opts mq task e = (Fail (ErrHttp 409 ''409 Conflict'' []), Suc e)"
  by (simp add: post_task_def DoXmlWithParseFunc_def NewRequestWithUrlQuery_def NewRequest_def example_od_def Let_def
      example_client_def DoWithParseFunc_def DoWithParseRes_def Do_def mbind_def mlift_def mfail_def conflict_def
      NewHttpNotOk_def Header_Get_def)

theorem CreateTask_returns_witness:
  "CreateTask (example_od (\<lambda>n. Ret conflict)) ''p'' [] (NewAnonymousSQLTask ''select 1;'' None) None 0 \<noteq> None"
proof (rule CreateTask_returns, goal_cases)
  case (1 projectName opts mq task e)
  then show ?case by (simp add: post_conflict) (simp add: example_od_def Second_def)
next
  case (2 n e)
  have "n < Second * (n div Second) + Second" using pos_mod_bound [of Second n] by (simp add: Second_def mult_div_mod_eq [symmetric])
  with 2 show ?case by (simp add: example_od_def algebra_simps Second_def)
next
  case (3 projectName opts mq task e e' status ra)
  then show ?case by (simp add: post_conflict retry_seconds_def)
qed

text \<open>
  The current schema reaches a query only in place of a default schema that the caller named: the
  task for options without a default schema is the same for every current schema, so its statements
  do not run in the current schema, and a default schema that the caller did name is
  overridden by a current schema.
\<close>

theorem ExecSQl_current_schema:
  "(so_DefaultSchema option = [] \<longrightarrow> exec_options (od\<lparr>od_currentSchema := schema\<rparr>) option = exec_options od option) \<and>
   (so_DefaultSchema option \<noteq> [] \<and> schema \<noteq> [] \<longrightarrow>
      so_DefaultSchema (exec_options (od\<lparr>od_currentSchema := schema\<rparr>) option) = schema)"
  by (simp add: exec_options_def Let_def)

theorem ExecSQl_current_schema_witness:
  "exec_options ((example_od (\<lambda>n. Ret conflict))\<lparr>od_currentSchema := ''s''\<rparr>) (NewSQLTaskOptions []) =
     exec_options (example_od (\<lambda>n. Ret conflict)) (NewSQLTaskOptions []) \<and>
   so_DefaultSchema (exec_options ((example_od (\<lambda>n. Ret conflict))\<lparr>od_currentSchema := ''s''\<rparr>)
     (NewSQLTaskOptions [WithDefaultSchema ''mine''])) = ''s''"
  using ExecSQl_current_schema [where option = "NewSQLTaskOptions []" and od = "example_od (\<lambda>n. Ret conflict)"
      and schema = "''s''"]
    ExecSQl_current_schema [where option = "NewSQLTaskOptions [WithDefaultSchema ''mine'']"
      and od = "example_od (\<lambda>n. Ret conflict)" and schema = "''s''"]
  by (simp add: NewSQLTaskOptions_def WithDefaultSchema_def)

text \<open>
  A REST client with an invalid endpoint does not give an error on a call with an XML body: the
  headers are set on the request before the error of its construction is looked at, a nil
  dereference.
\<close>

theorem DoXml_bad_url_panics:
  assumes "\<And>u. \<not> rc_url_ok c u"
  shows "DoXmlWithParseFunc c method resource q headers body f e = (Panic NilDereference, e)"
  using assms by (simp add: DoXmlWithParseFunc_def NewRequestWithUrlQuery_def NewRequest_def Let_def mpanic_def)

theorem DoXml_bad_url_panics_witness:
  "DoXmlWithParseFunc ((example_client (\<lambda>n. Ret conflict))\<lparr>rc_url_ok := (\<lambda>u. False)\<rparr>) PostMethod ''/x'' None Map.empty
     (x_text_elem ''a'' []) (\<lambda>res. Ret ()) 0 = (Panic NilDereference, 0)"
  by (rule DoXml_bad_url_panics) simp

text \<open>The status texts of tasks and instances are read back.\<close>

lemma TaskStatus_roundtrip: "s \<noteq> TaskStatusZero \<Longrightarrow> TaskStatusFromStr (TaskStatus_String s) = s"
  by (cases s) (simp_all add: TaskStatusFromStr_def ToUpper_def to_upper_char_def less_eq_char_def)

lemma InstancesStatusFromStr_texts:
  "InstancesStatusFromStr ''Running'' = InstanceRunning"
  "InstancesStatusFromStr ''Suspended'' = InstanceSuspended"
  "InstancesStatusFromStr ''Terminated'' = InstanceTerminated"
  "InstancesStatusFromStr ''InstanceStatusUnknown'' = InstanceStatusUnknown"
  by code_simp+

lemma InstanceStatus_roundtrip: "s \<noteq> InstanceStatusZero \<Longrightarrow> InstancesStatusFromStr (InstanceStatus_String s) = s"
  by (cases s) (simp_all add: InstancesStatusFromStr_texts)

end
