(* ===== verification/OdpsTables.thy ===== *)
theory OdpsTables
  imports Instances TableSchemas
begin

section \<open>Tables and partitions\<close>

text \<open>
  Models \<open>odps/table.go\<close>, \<open>odps/partition.go\<close>, \<open>odps/tables.go\<close> and the listings of \<open>odps/instances.go\<close>:
  the SQL they generate and run, the labels, the partitions and the paged lists. A \<open>Table\<close> has
  the fields these functions read; loading its metadata as JSON is not modelled.
  \<^item> A call that runs SQL creates a task and waits for it: its result is \<open>None\<close> when one of the two does not return.
  \<^item> A list call returns what it has beside an error; the second component of its result is this error.
\<close>

subsection \<open>Paged lists\<close>

partial_function (option) list_pages ::
    "(Values \<Rightarrow> ('e, 'a list \<times> string) M) \<Rightarrow> Values \<Rightarrow> 'a list \<Rightarrow> 'e \<Rightarrow> (('a list \<times> goerr option) outcome \<times> 'e) option" where
  "list_pages get queryArgs acc e =
     (case get queryArgs e of
        (Fail err, e') \<Rightarrow> Some (Ret (acc, Some err), e')
      | (Panic p, e') \<Rightarrow> Some (Panic p, e')
      | (Ret page, e') \<Rightarrow>
          if snd page \<noteq> [] then list_pages get (queryArgs(''marker'' \<mapsto> snd page)) (acc @ fst page) e'
          else Some (Ret (acc @ fst page, None), e'))"

text \<open>
  The query of the \<open>k\<close>-th page, and a server that serves \<open>pages\<close>: whatever the environment, it answers the
  query of a page with this page and the marker of the one behind it.
\<close>

definition page_query :: "Values \<Rightarrow> (nat \<Rightarrow> string) \<Rightarrow> nat \<Rightarrow> Values" where
  "page_query q marker k = (if k = 0 then q else q(''marker'' \<mapsto> marker k))"

definition serves :: "(Values \<Rightarrow> ('e, 'a list \<times> string) M) \<Rightarrow> Values \<Rightarrow> (nat \<Rightarrow> string) \<Rightarrow> 'a list list \<Rightarrow> bool" where
  "serves get q marker pages \<longleftrightarrow>
     (\<forall>k < length pages. \<forall>e. fst (get (page_query q marker k) e) =
        Ret (pages ! k, if Suc k < length pages then marker (Suc k) else [])) \<and> (\<forall>k. marker (Suc k) \<noteq> [])"

lemma list_pages_from:
  assumes "serves get q marker pages" "k < length pages"
  shows "\<exists>e'. list_pages get (page_query q marker k) acc e = Some (Ret (acc @ concat (drop k pages), None), e')"
  using assms(2)
proof (induction "length pages - k" arbitrary: k acc e)
  case (Suc n)
  obtain e' where e': "get (page_query q marker k) e = (Ret (pages ! k, if Suc k < length pages then marker (Suc k) else []), e')"
    using assms(1) Suc.prems by (metis serves_def prod.collapse)
  have d: "drop k pages = pages ! k # drop (Suc k) pages" using Suc.prems by (simp add: Cons_nth_drop_Suc)
  have n: "n = length pages - Suc k" using Suc.hyps(2) by simp
  show ?case
  proof (cases "Suc k < length pages")
    case True
    have "(page_query q marker k)(''marker'' \<mapsto> marker (Suc k)) = page_query q marker (Suc k)"
      by (simp add: page_query_def)
    moreover have "marker (Suc k) \<noteq> []" using assms(1) by (simp add: serves_def)
    moreover obtain e2 where "list_pages get (page_query q marker (Suc k)) (acc @ pages ! k) e' =
        Some (Ret ((acc @ pages ! k) @ concat (drop (Suc k) pages), None), e2)"
      using Suc.hyps(1) [OF n True, of "acc @ pages ! k" e'] by auto
    ultimately show ?thesis using e' True d by (subst list_pages.simps) simp
  next
    case False
    then show ?thesis using e' d by (subst list_pages.simps) simp
  qed
qed simp

lemma list_pages_all:
  "serves get q marker pages \<Longrightarrow> pages \<noteq> [] \<Longrightarrow> \<exists>e'. list_pages get q [] e = Some (Ret (concat pages, None), e')"
  using list_pages_from [of get q marker pages 0 "[]" e] by (simp add: page_query_def)

subsection \<open>Table types and labels\<close>

datatype TableType = ManagedTable | VirtualView | ExternalTable | MaterializedView | ObjectTable | TableTypeUnknown

definition TableTypeFromStr :: "string \<Rightarrow> TableType" where
  "TableTypeFromStr s =
     (if s = ''MANAGED_TABLE'' then ManagedTable else if s = ''VIRTUAL_VIEW'' then VirtualView
      else if s = ''EXTERNAL_TABLE'' then ExternalTable else if s = ''MATERIALIZED_VIEW'' then MaterializedView
      else if s = ''OBJECT_TABLE'' then ObjectTable else TableTypeUnknown)"

fun TableType_String :: "TableType \<Rightarrow> string" where
  "TableType_String ManagedTable = ''MANAGED_TABLE''"
| "TableType_String VirtualView = ''VIRTUAL_VIEW''"
| "TableType_String ExternalTable = ''EXTERNAL_TABLE''"
| "TableType_String MaterializedView = ''MATERIALIZED_VIEW''"
| "TableType_String ObjectTable = ''OBJECT_TABLE''"
| "TableType_String TableTypeUnknown = ''Unknown''"

record Table =
  tb_Name :: string
  tb_ProjectName :: string
  tb_SchemaName :: string
  tb_Type :: TableType
  tb_Owner :: string
  tb_tableSchema :: TableSchema
  tb_TableLabel :: string
  tb_ExtendedLabel :: "string list"

definition NewTable :: "string \<Rightarrow> string \<Rightarrow> string \<Rightarrow> Table" where
  "NewTable projectName schemaName tableName =
     \<lparr>tb_Name = tableName, tb_ProjectName = projectName, tb_SchemaName = schemaName, tb_Type = ManagedTable, tb_Owner = [],
      tb_tableSchema = zero_TableSchema, tb_TableLabel = [], tb_ExtendedLabel = []\<rparr>"

definition tb_ResourceUrl :: "Table \<Rightarrow> string" where
  "tb_ResourceUrl t = rb_Table \<lparr>rb_ProjectName = tb_ProjectName t\<rparr> [] (tb_Name t)"

definition TableLabel :: "Table \<Rightarrow> string" where
  "TableLabel t = (if tb_TableLabel t = ''0'' then [] else tb_TableLabel t)"

text \<open>The loop of \<open>calculateMaxLabel\<close> with its two variables.\<close>

fun max_label_loop :: "string list \<Rightarrow> int \<Rightarrow> string \<Rightarrow> int \<times> string" where
  "max_label_loop [] maxLevel category = (maxLevel, category)"
| "max_label_loop (label # labels) maxLevel category =
     (if label = [] then max_label_loop labels maxLevel category
      else (case Atoi [last label] of
          Ret num \<Rightarrow>
            (let (maxLevel', category') = (if num > maxLevel then (num, []) else (maxLevel, category)) in
             if butlast label = [] then max_label_loop labels maxLevel' ''L''
             else (let cur = ToLower (butlast label) in
               if category' = [] then max_label_loop labels maxLevel' cur
               else if category' \<noteq> cur then max_label_loop labels maxLevel' ''L''
               else max_label_loop labels maxLevel' category'))
        | _ \<Rightarrow> max_label_loop labels maxLevel category))"

definition calculateMaxLabel :: "string list \<Rightarrow> string" where
  "calculateMaxLabel labels =
     (case max_label_loop labels 0 [] of
        (maxLevel, category) \<Rightarrow>
          if category = [] \<and> maxLevel = 0 then []
          else (if category = [] then ''L'' else category) @ Itoa maxLevel)"

definition column_labels :: "Table \<Rightarrow> string list" where
  "column_labels t = filter (\<lambda>l. l \<noteq> []) (map col_Label (ts_Columns (tb_tableSchema t)))"

definition MaxLabel :: "Table \<Rightarrow> string" where
  "MaxLabel t = calculateMaxLabel ((if TableLabel t \<noteq> [] then [TableLabel t] else []) @ column_labels t)"

definition MaxExtendedLabel :: "Table \<Rightarrow> string" where
  "MaxExtendedLabel t = calculateMaxLabel (tb_ExtendedLabel t @ column_labels t)"

subsection \<open>Running SQL\<close>

definition namespace_hints :: "string \<Rightarrow> string_map" where
  "namespace_hints schemaName = [(''odps.namespace.schema'', if schemaName = [] then ''false'' else ''true'')]"

definition created_error :: "((Instance \<times> goerr option) outcome \<times> 'e) option \<Rightarrow> (Instance outcome \<times> 'e) option" where
  "created_error r =
     map_option (\<lambda>(o1, e). (obind o1 (\<lambda>(i, err). case err of None \<Rightarrow> Ret i | Some er \<Rightarrow> Fail er), e)) r"

text \<open>\<open>CreateTask\<close>, then \<open>WaitForSuccess\<close> on the instance it returned without an error.\<close>

definition run_task :: "'e Odps \<Rightarrow> string \<Rightarrow> SQLTask \<Rightarrow> 'e \<Rightarrow> (unit outcome \<times> 'e) option" where
  "run_task od projectName task e =
     (case created_error (CreateTask od projectName projectName task None e) of
        None \<Rightarrow> None
      | Some (Ret i, e') \<Rightarrow> map_option (\<lambda>(r, (i', e'')). (r, e'')) (WaitForSuccess od (i, e'))
      | Some (Fail err, e') \<Rightarrow> Some (Fail err, e')
      | Some (Panic p, e') \<Rightarrow> Some (Panic p, e'))"

definition tb_ExecSqlWithHints ::
    "'e Odps \<Rightarrow> Table \<Rightarrow> string \<Rightarrow> string \<Rightarrow> string_map option \<Rightarrow> 'e \<Rightarrow> ((Instance \<times> goerr option) outcome \<times> 'e) option" where
  "tb_ExecSqlWithHints od t taskName sql hints =
     CreateTask od (tb_ProjectName t) (tb_ProjectName t) (NewSqlTask taskName sql hints) None"

definition tb_ExecSql :: "'e Odps \<Rightarrow> Table \<Rightarrow> string \<Rightarrow> string \<Rightarrow> 'e \<Rightarrow> ((Instance \<times> goerr option) outcome \<times> 'e) option" where
  "tb_ExecSql od t taskName sql = tb_ExecSqlWithHints od t taskName sql None"

definition run_table_sql :: "'e Odps \<Rightarrow> Table \<Rightarrow> string \<Rightarrow> string \<Rightarrow> 'e \<Rightarrow> (unit outcome \<times> 'e) option" where
  "run_table_sql od t taskName sql =
     run_task od (tb_ProjectName t) (NewSqlTask taskName sql (Some (namespace_hints (tb_SchemaName t))))"

definition executeSql :: "'e Odps \<Rightarrow> Table \<Rightarrow> string \<Rightarrow> 'e \<Rightarrow> (unit outcome \<times> 'e) option" where
  "executeSql od t sql = run_table_sql od t ''AnonymousSQLTask'' sql"

subsection \<open>Changing a table\<close>

definition getFullName :: "Table \<Rightarrow> string" where
  "getFullName t =
     (if tb_SchemaName t = [] then tb_ProjectName t @ ''.'' @ QuoteRef (tb_Name t)
      else tb_ProjectName t @ ''.'' @ QuoteRef (tb_SchemaName t) @ ''.'' @ QuoteRef (tb_Name t))"

definition Delete_sql :: "Table \<Rightarrow> string" where
  "Delete_sql t = ''drop table if exists '' @ getFullName t @ '';''"

definition tb_Delete :: "'e Odps \<Rightarrow> Table \<Rightarrow> 'e \<Rightarrow> (unit outcome \<times> 'e) option" where
  "tb_Delete od t = run_table_sql od t ''SQLDropTableTask'' (Delete_sql t)"

definition SetLifeCycle :: "'e Odps \<Rightarrow> Table \<Rightarrow> int \<Rightarrow> 'e \<Rightarrow> (unit outcome \<times> 'e) option" where
  "SetLifeCycle od t days = executeSql od t (''alter table '' @ getFullName t @ '' set lifecycle '' @ Itoa days @ '';'')"

definition table_or_view :: "Table \<Rightarrow> string" where
  "table_or_view t = (if ts_IsVirtualView (tb_tableSchema t) then ''view'' else ''table'')"

definition generateChangeOwnerSQL :: "Table \<Rightarrow> string \<Rightarrow> string" where
  "generateChangeOwnerSQL t newOwner =
     ''alter '' @ table_or_view t @ '' '' @ getFullName t @ '' changeowner to '' @ QuoteString newOwner @ '';''"

definition ChangeOwner :: "'e Odps \<Rightarrow> Table \<Rightarrow> string \<Rightarrow> 'e \<Rightarrow> (unit outcome \<times> 'e) option" where
  "ChangeOwner od t newOwner = executeSql od t (generateChangeOwnerSQL t newOwner)"

definition generateChangeCommentSQL :: "Table \<Rightarrow> string \<Rightarrow> string" where
  "generateChangeCommentSQL t newComment = ''alter table '' @ getFullName t @ '' set comment '' @ QuoteString newComment @ '';''"

definition ChangeComment :: "'e Odps \<Rightarrow> Table \<Rightarrow> string \<Rightarrow> 'e \<Rightarrow> (unit outcome \<times> 'e) option" where
  "ChangeComment od t newComment = executeSql od t (generateChangeCommentSQL t newComment)"

definition generateTouchTableSQL :: "Table \<Rightarrow> string" where
  "generateTouchTableSQL t = ''alter table '' @ getFullName t @ '' touch;''"

definition Touch :: "'e Odps \<Rightarrow> Table \<Rightarrow> 'e \<Rightarrow> (unit outcome \<times> 'e) option" where
  "Touch od t = executeSql od t (generateTouchTableSQL t)"

definition generateChangeClusterInfoSQL :: "Table \<Rightarrow> ClusterInfo \<Rightarrow> string" where
  "generateChangeClusterInfoSQL t ci =
     ''alter table '' @ getFullName t @
     (if ci_ClusterCols ci = [] then []
      else (if ci_ClusterType ci = ''range'' then '' range'' else []) @ '' clustered by ('' @
        range_sep '', '' QuoteRef (ci_ClusterCols ci) @ '')'') @
     (if ci_SortCols ci = [] then []
      else '' sorted by ('' @ range_sep '', '' (\<lambda>c. QuoteRef (sc_Name c) @ '' '' @ sc_Order c) (ci_SortCols ci) @ '')'') @
     (if ci_BucketNum ci > 0 then '' into '' @ Itoa (ci_BucketNum ci) @ '' buckets'' else []) @ '';''"

definition ChangeClusterInfo :: "'e Odps \<Rightarrow> Table \<Rightarrow> ClusterInfo \<Rightarrow> 'e \<Rightarrow> (unit outcome \<times> 'e) option" where
  "ChangeClusterInfo od t ci = executeSql od t (generateChangeClusterInfoSQL t ci)"

definition generateRenameTableSQL :: "Table \<Rightarrow> string \<Rightarrow> string" where
  "generateRenameTableSQL t newName =
     ''alter '' @ table_or_view t @ '' '' @ getFullName t @ '' rename to '' @ QuoteRef newName @ '';''"

definition Rename :: "'e Odps \<Rightarrow> Table \<Rightarrow> string \<Rightarrow> 'e \<Rightarrow> (unit outcome \<times> 'e) option" where
  "Rename od t newName = executeSql od t (generateRenameTableSQL t newName)"

definition generateTruncateTableSQL :: "Table \<Rightarrow> string" where
  "generateTruncateTableSQL t = ''truncate table '' @ getFullName t @ '';''"

definition tb_Truncate :: "'e Odps \<Rightarrow> Table \<Rightarrow> 'e \<Rightarrow> (unit outcome \<times> 'e) option" where
  "tb_Truncate od t = executeSql od t (generateTruncateTableSQL t)"

text \<open>
  A type printed by \<open>%s\<close>: its \<open>String\<close>, which is its name. The package \<open>fmt\<close> prints a nil interface and a
  panic of the method as text.
\<close>

definition fmt_type :: "DataType \<Rightarrow> string" where
  "fmt_type ty =
     (if ty = NilType then ''%!s(<nil>)''
      else case Name ty of Ret n \<Rightarrow> n
        | _ \<Rightarrow> ''%!s(PANIC=String method: runtime error: invalid memory address or nil pointer dereference)'')"

definition generateAddColumnsSQL :: "Table \<Rightarrow> Column list \<Rightarrow> bool \<Rightarrow> string" where
  "generateAddColumnsSQL t columns ifNotExists =
     ''alter table '' @ getFullName t @ '' add columns '' @ (if ifNotExists then ''if not exists '' else []) @ ''('' @
     range_sep '', '' (\<lambda>c. QuoteRef (col_Name c) @ '' '' @ fmt_type (col_Type c) @
       (if col_Comment c \<noteq> [] then '' comment '' @ QuoteString (col_Comment c) else [])) columns @ '');''"

definition AddColumns :: "'e Odps \<Rightarrow> Table \<Rightarrow> Column list \<Rightarrow> bool \<Rightarrow> 'e \<Rightarrow> (unit outcome \<times> 'e) option" where
  "AddColumns od t columns ifNotExists = executeSql od t (generateAddColumnsSQL t columns ifNotExists)"

definition generateDropColumnsSQL :: "Table \<Rightarrow> string list \<Rightarrow> string" where
  "generateDropColumnsSQL t columnNames =
     ''alter table '' @ getFullName t @ '' drop columns '' @ Join (map QuoteRef columnNames) '', '' @ '';''"

definition DropColumns :: "'e Odps \<Rightarrow> Table \<Rightarrow> string list \<Rightarrow> 'e \<Rightarrow> (unit outcome \<times> 'e) option" where
  "DropColumns od t columnNames = executeSql od t (generateDropColumnsSQL t columnNames)"

definition generateAlterColumnTypeSQL :: "Table \<Rightarrow> string \<Rightarrow> DataType \<Rightarrow> string" where
  "generateAlterColumnTypeSQL t columnName columnType =
     ''alter table '' @ getFullName t @ '' change column '' @ columnName @ '' '' @ columnName @ '' '' @ fmt_type columnType @ '';''"

definition AlterColumnType :: "'e Odps \<Rightarrow> Table \<Rightarrow> string \<Rightarrow> DataType \<Rightarrow> 'e \<Rightarrow> (unit outcome \<times> 'e) option" where
  "AlterColumnType od t columnName columnType = executeSql od t (generateAlterColumnTypeSQL t columnName columnType)"

definition generateChangeColumnNameSQL :: "Table \<Rightarrow> string \<Rightarrow> string \<Rightarrow> string" where
  "generateChangeColumnNameSQL t oldColumnName newColumnName =
     ''alter table '' @ getFullName t @ '' change column '' @ oldColumnName @ '' rename to '' @ newColumnName @ '';''"

definition ChangeColumnName :: "'e Odps \<Rightarrow> Table \<Rightarrow> string \<Rightarrow> string \<Rightarrow> 'e \<Rightarrow> (unit outcome \<times> 'e) option" where
  "ChangeColumnName od t oldColumnName newColumnName =
     executeSql od t (generateChangeColumnNameSQL t oldColumnName newColumnName)"

subsection \<open>Partitions\<close>

text \<open>The part of \<open>s\<close> before the first \<open>=\<close> and the part behind it, up to the next one.\<close>

definition key_value :: "string \<Rightarrow> (string \<times> string) outcome" where
  "key_value s = (case Split CHR ''='' s of k # v # _ \<Rightarrow> Ret (k, v) | _ \<Rightarrow> Panic IndexOutOfRange)"

definition spec_item :: "string \<times> string \<Rightarrow> string" where
  "spec_item kv = fst kv @ ''='' @ [SQ] @ snd kv @ [SQ]"

definition partitionValueToSpec :: "string \<Rightarrow> string outcome" where
  "partitionValueToSpec v = omap (\<lambda>kvs. range_sep '','' spec_item kvs) (omap_list key_value (Split CHR ''/'' v))"

record Partition =
  pt_projectName :: string
  pt_schemaName :: string
  pt_tableName :: string
  pt_Value :: "(string \<times> string) list"
  pt_CreateTime :: int
  pt_LastDDLTime :: int
  pt_LastModifiedTime :: int
  pt_PartitionRecordNum :: int
  pt_PartitionSize :: int

definition new_Partition :: "string \<Rightarrow> string \<Rightarrow> string \<Rightarrow> (string \<times> string) list \<Rightarrow> Partition" where
  "new_Partition projectName schemaName tableName cols =
     \<lparr>pt_projectName = projectName, pt_schemaName = schemaName, pt_tableName = tableName, pt_Value = cols,
      pt_CreateTime = 0, pt_LastDDLTime = 0, pt_LastModifiedTime = 0, pt_PartitionRecordNum = 0, pt_PartitionSize = 0\<rparr>"

definition NewPartition :: "string \<Rightarrow> string \<Rightarrow> string \<Rightarrow> string \<Rightarrow> Partition outcome" where
  "NewPartition projectName schemaName tableName v =
     omap (new_Partition projectName schemaName tableName) (omap_list key_value (Split CHR ''/'' v))"

definition pt_ValueString :: "Partition \<Rightarrow> string" where
  "pt_ValueString p = range_sep ''/'' (\<lambda>(n, v). n @ ''='' @ v) (pt_Value p)"

definition Spec :: "Partition \<Rightarrow> string" where
  "Spec p = range_sep '','' spec_item (pt_Value p)"

text \<open>The statements. Values in a partition are put between quotes as they are.\<close>

definition AddPartitions_sql :: "Table \<Rightarrow> bool \<Rightarrow> string list \<Rightarrow> string outcome" where
  "AddPartitions_sql t ifNotExists partitionValues =
     omap (\<lambda>specs. ''alter table '' @ getFullName t @ '' add'' @ (if ifNotExists then '' if not exists'' @ [NL] else []) @
         concat (map (\<lambda>s. ''partition ('' @ s @ '')'' @ [NL]) specs) @ '';'')
       (omap_list partitionValueToSpec partitionValues)"

definition DeletePartitions_sql :: "Table \<Rightarrow> bool \<Rightarrow> string list \<Rightarrow> string outcome" where
  "DeletePartitions_sql t ifExists partitionValues =
     omap (\<lambda>specs. ''alter table '' @ getFullName t @ '' drop'' @ (if ifExists then '' if exists'' else []) @
         range_sep ('','' @ [NL]) (\<lambda>s. '' partition ('' @ s @ '')'') specs @ '';'')
       (omap_list partitionValueToSpec partitionValues)"

definition with_sql :: "string outcome \<Rightarrow> (string \<Rightarrow> 'e \<Rightarrow> (unit outcome \<times> 'e) option) \<Rightarrow> 'e \<Rightarrow> (unit outcome \<times> 'e) option" where
  "with_sql sql run e =
     (case sql of Ret s \<Rightarrow> run s e | Fail err \<Rightarrow> Some (Fail err, e) | Panic p \<Rightarrow> Some (Panic p, e))"

definition AddPartitions :: "'e Odps \<Rightarrow> Table \<Rightarrow> bool \<Rightarrow> string list \<Rightarrow> 'e \<Rightarrow> (unit outcome \<times> 'e) option" where
  "AddPartitions od t ifNotExists partitionValues =
     with_sql (AddPartitions_sql t ifNotExists partitionValues) (run_table_sql od t ''SQLAddPartitionTask'')"

definition AddPartition :: "'e Odps \<Rightarrow> Table \<Rightarrow> bool \<Rightarrow> string \<Rightarrow> 'e \<Rightarrow> (unit outcome \<times> 'e) option" where
  "AddPartition od t ifNotExists partitionValue = AddPartitions od t ifNotExists [partitionValue]"

definition DeletePartitions :: "'e Odps \<Rightarrow> Table \<Rightarrow> bool \<Rightarrow> string list \<Rightarrow> 'e \<Rightarrow> (unit outcome \<times> 'e) option" where
  "DeletePartitions od t ifExists partitionValues =
     with_sql (DeletePartitions_sql t ifExists partitionValues) (run_table_sql od t ''SQLDropPartitionTask'')"

definition DeletePartition :: "'e Odps \<Rightarrow> Table \<Rightarrow> bool \<Rightarrow> string \<Rightarrow> 'e \<Rightarrow> (unit outcome \<times> 'e) option" where
  "DeletePartition od t ifExists partitionValue = DeletePartitions od t ifExists [partitionValue]"

definition GetPartitionValues :: "'e Odps \<Rightarrow> Table \<Rightarrow> ('e, string list) M" where
  "GetPartitionValues od t =
     GetWithModel (od_restClient od) (tb_ResourceUrl t)
       (Some (set_if (tb_SchemaName t \<noteq> []) ''curr_schema'' (tb_SchemaName t) [''partitions'' \<mapsto> [], ''name'' \<mapsto> []])) Map.empty
       (x_Decode ''Partitions'' (\<lambda>e. Ret (map (x_string [''Name'']) (x_path [''Partition''] e))))"

definition x_Partition :: "Table \<Rightarrow> xml \<Rightarrow> Partition outcome" where
  "x_Partition t e =
     obind (x_int [''CreationTime''] e) (\<lambda>ct. obind (x_int [''LastDDLTime''] e) (\<lambda>dt.
     obind (x_int [''LastModifiedTime''] e) (\<lambda>mt. obind (x_int [''PartitionSize''] e) (\<lambda>sz.
     obind (x_int [''PartitionRecordCount''] e) (\<lambda>rc.
     Ret ((new_Partition (tb_ProjectName t) (tb_SchemaName t) (tb_Name t)
         (map (\<lambda>c. (x_attr ''Name'' c, x_attr ''Value'' c)) (x_path [''Column''] e)))
       \<lparr>pt_CreateTime := ct, pt_LastDDLTime := dt, pt_LastModifiedTime := mt, pt_PartitionSize := sz,
        pt_PartitionRecordNum := rc\<rparr>))))))"

definition partitions_page :: "'e Odps \<Rightarrow> Table \<Rightarrow> Values \<Rightarrow> ('e, Partition list \<times> string) M" where
  "partitions_page od t queryArgs =
     GetWithModel (od_restClient od) (tb_ResourceUrl t) (Some queryArgs) Map.empty
       (x_Decode ''Partitions'' (\<lambda>e. omap (\<lambda>ps. (ps, x_string [''Marker''] e)) (omap_list (x_Partition t) (x_path [''Partition''] e))))"

definition partitions_query :: "Table \<Rightarrow> string \<Rightarrow> Values" where
  "partitions_query t partitionSpec =
     set_if (tb_SchemaName t \<noteq> []) ''curr_schema'' (tb_SchemaName t)
       (set_if (partitionSpec \<noteq> []) ''partition'' partitionSpec
         [''partitions'' \<mapsto> [], ''expectmarker'' \<mapsto> ''true'', ''maxitems'' \<mapsto> ''10000''])"

definition getPartitions ::
    "'e Odps \<Rightarrow> Table \<Rightarrow> string \<Rightarrow> 'e \<Rightarrow> ((Partition list \<times> goerr option) outcome \<times> 'e) option" where
  "getPartitions od t partitionSpec = list_pages (partitions_page od t) (partitions_query t partitionSpec) []"

definition GetPartitions :: "'e Odps \<Rightarrow> Table \<Rightarrow> 'e \<Rightarrow> ((Partition list \<times> goerr option) outcome \<times> 'e) option" where
  "GetPartitions od t = getPartitions od t []"

definition GetPartition :: "'e Odps \<Rightarrow> Table \<Rightarrow> string \<Rightarrow> 'e \<Rightarrow> (Partition outcome \<times> 'e) option" where
  "GetPartition od t partitionValue e =
     (case partitionValueToSpec partitionValue of
        Fail err \<Rightarrow> Some (Fail err, e)
      | Panic p \<Rightarrow> Some (Panic p, e)
      | Ret partitionSpec \<Rightarrow>
          map_option (\<lambda>(r, e'). (obind r (\<lambda>(partitions, err). case err of
              Some er \<Rightarrow> Fail er
            | None \<Rightarrow> (case partitions of
                [] \<Rightarrow> Fail (ErrMsg (''Partition('' @ partitionValue @ '') is not found''))
              | p # _ \<Rightarrow> Ret p)), e')) (getPartitions od t partitionSpec e))"

subsection \<open>The tables of a project\<close>

record Tables =
  tbs_projectName :: string
  tbs_schemaName :: string

definition NewTables :: "'e Odps \<Rightarrow> string \<Rightarrow> string \<Rightarrow> Tables" where
  "NewTables od projectName schemaName =
     \<lparr>tbs_projectName = (if projectName = [] then od_defaultProject od else projectName),
      tbs_schemaName = (if schemaName = [] then od_currentSchema od else schemaName)\<rparr>"

definition TableFilter_Extended :: "Values \<Rightarrow> Values" where
  "TableFilter_Extended q = q(''extended'' \<mapsto> [])"

definition TableFilter_NamePrefix :: "string \<Rightarrow> Values \<Rightarrow> Values" where
  "TableFilter_NamePrefix name q = q(''name'' \<mapsto> name)"

definition TableFilter_Owner :: "string \<Rightarrow> Values \<Rightarrow> Values" where
  "TableFilter_Owner owner q = q(''owner'' \<mapsto> owner)"

definition TableFilter_Type :: "TableType \<Rightarrow> Values \<Rightarrow> Values" where
  "TableFilter_Type ty q = q(''type'' \<mapsto> TableType_String ty)"

definition tables_page :: "'e Odps \<Rightarrow> Tables \<Rightarrow> Values \<Rightarrow> ('e, Table list \<times> string) M" where
  "tables_page od ts queryArgs =
     GetWithModel (od_restClient od) (rb_Tables \<lparr>rb_ProjectName = tbs_projectName ts\<rparr>) (Some queryArgs) Map.empty
       (x_Decode ''Tables'' (\<lambda>e. obind (x_int [''MaxItems''] e) (\<lambda>_.
          Ret (map (\<lambda>m. (NewTable (tbs_projectName ts) (tbs_schemaName ts) (x_string [''Name''] m))\<lparr>tb_Owner := x_string [''Owner''] m\<rparr>)
                 (x_path [''Table''] e), x_string [''Marker''] e))))"

text \<open>The tables handed to the callback in their order; the error is handed to it last.\<close>

definition Tables_List ::
    "'e Odps \<Rightarrow> Tables \<Rightarrow> (Values \<Rightarrow> Values) list \<Rightarrow> 'e \<Rightarrow> ((Table list \<times> goerr option) outcome \<times> 'e) option" where
  "Tables_List od ts filters =
     list_pages (tables_page od ts)
       (fold (\<lambda>f. f) filters [''expectmarker'' \<mapsto> ''true'', ''curr_schema'' \<mapsto> tbs_schemaName ts]) []"

definition Tables_Get :: "Tables \<Rightarrow> string \<Rightarrow> Table" where
  "Tables_Get ts tableName = NewTable (tbs_projectName ts) (tbs_schemaName ts) tableName"

definition create_hints :: "Tables \<Rightarrow> string_map option \<Rightarrow> string_map" where
  "create_hints ts hints =
     AList.update ''odps.namespace.schema'' (if tbs_schemaName ts = [] then ''false'' else ''true'')
       (case hints of None \<Rightarrow> [] | Some h \<Rightarrow> h)"

definition add_aliases :: "string_map option \<Rightarrow> string_map \<Rightarrow> SQLTask \<Rightarrow> SQLTask" where
  "add_aliases alias content task =
     (case alias of None \<Rightarrow> task | Some _ \<Rightarrow> AddProperty ''aliases'' (json_Marshal_map content) task)"

definition create_task :: "Tables \<Rightarrow> string \<Rightarrow> string_map option \<Rightarrow> string_map option \<Rightarrow> SQLTask" where
  "create_task ts sql hints alias =
     add_aliases alias (case alias of None \<Rightarrow> [] | Some a \<Rightarrow> a) (NewSqlTask ''SQLCreateTableTask'' sql (Some (create_hints ts hints)))"

definition Tables_Create ::
    "'e Odps \<Rightarrow> Tables \<Rightarrow> TableSchema \<Rightarrow> bool \<Rightarrow> string_map option \<Rightarrow> string_map option \<Rightarrow> 'e \<Rightarrow> (unit outcome \<times> 'e) option" where
  "Tables_Create od ts schema createIfNotExists hints alias =
     with_sql (ToSQLString schema (tbs_projectName ts) (tbs_schemaName ts) createIfNotExists) (\<lambda>sql.
       run_task od (tbs_projectName ts) (create_task ts sql hints alias))"

text \<open>\<open>CreateExternal\<close> marshals its hints where \<open>Create\<close> marshals the aliases.\<close>

definition external_task :: "Tables \<Rightarrow> string \<Rightarrow> string_map option \<Rightarrow> string_map option \<Rightarrow> SQLTask" where
  "external_task ts sql hints alias =
     add_aliases alias (create_hints ts hints) (NewSqlTask ''SQLCreateExternalTableTask'' sql (Some (create_hints ts hints)))"

definition CreateExternal ::
    "'e Odps \<Rightarrow> Tables \<Rightarrow> TableSchema \<Rightarrow> bool \<Rightarrow> (string \<times> string) list \<Rightarrow> string list \<Rightarrow> string_map option \<Rightarrow> string_map option \<Rightarrow>
       'e \<Rightarrow> (unit outcome \<times> 'e) option" where
  "CreateExternal od ts schema createIfNotExists serdeProperties jars hints alias =
     with_sql (ToExternalSQLString schema (tbs_projectName ts) (tbs_schemaName ts) createIfNotExists serdeProperties jars) (\<lambda>sql.
       run_task od (tbs_projectName ts) (external_task ts sql hints alias))"

definition CreateViewWithHints ::
    "'e Odps \<Rightarrow> Tables \<Rightarrow> TableSchema \<Rightarrow> bool \<Rightarrow> bool \<Rightarrow> bool \<Rightarrow> string_map option \<Rightarrow> 'e \<Rightarrow> (unit outcome \<times> 'e) option" where
  "CreateViewWithHints od ts schema orReplace createIfNotExists buildDeferred hints =
     with_sql (ToViewSQLString schema (tbs_projectName ts) (tbs_schemaName ts) orReplace createIfNotExists buildDeferred) (\<lambda>sql.
       run_task od (tbs_projectName ts) (NewSqlTask ''SQLCreateViewTask'' sql hints))"

definition CreateView ::
    "'e Odps \<Rightarrow> Tables \<Rightarrow> TableSchema \<Rightarrow> bool \<Rightarrow> bool \<Rightarrow> bool \<Rightarrow> 'e \<Rightarrow> (unit outcome \<times> 'e) option" where
  "CreateView od ts schema orReplace createIfNotExists buildDeferred =
     with_sql (ToViewSQLString schema (tbs_projectName ts) (tbs_schemaName ts) orReplace createIfNotExists buildDeferred) (\<lambda>sql.
       run_task od (tbs_projectName ts) (NewSqlTask ''SQLCreateViewTask'' sql None))"

definition CreateWithDataHub ::
    "'e Odps \<Rightarrow> Tables \<Rightarrow> TableSchema \<Rightarrow> bool \<Rightarrow> int \<Rightarrow> int \<Rightarrow> 'e \<Rightarrow> (unit outcome \<times> 'e) option" where
  "CreateWithDataHub od ts schema createIfNotExists shardNum hubLifecycle =
     with_sql (ToBaseSQLString schema (tbs_projectName ts) (tbs_schemaName ts) createIfNotExists False) (\<lambda>sql.
       run_task od (tbs_projectName ts) (NewSqlTask ''SQLCreateTableTaskWithDataHub''
         (sql @ (if ts_Lifecycle schema > 0 then [NL] @ ''lifecycle '' @ Itoa (ts_Lifecycle schema) else []) @
          [NL] @ ''into '' @ Itoa shardNum @ '' shards'' @ [NL] @ ''hubLifecycle '' @ Itoa hubLifecycle @ '';'')
         (Some (namespace_hints (tbs_schemaName ts)))))"

definition Tables_Delete_sql :: "Tables \<Rightarrow> string \<Rightarrow> bool \<Rightarrow> string" where
  "Tables_Delete_sql ts tableName ifExists =
     ''drop table'' @ (if ifExists then '' if exists'' else []) @ '' '' @ tbs_projectName ts @ ''.'' @
     (if tbs_schemaName ts \<noteq> [] then QuoteRef (tbs_schemaName ts) @ ''.'' else []) @ QuoteRef tableName @ '';''"

definition Tables_Delete :: "'e Odps \<Rightarrow> Tables \<Rightarrow> string \<Rightarrow> bool \<Rightarrow> 'e \<Rightarrow> (unit outcome \<times> 'e) option" where
  "Tables_Delete od ts tableName ifExists =
     run_task od (tbs_projectName ts) (NewSqlTask ''SQLDropTableTask'' (Tables_Delete_sql ts tableName ifExists)
       (Some (namespace_hints (tbs_schemaName ts))))"

subsection \<open>The instances of a project\<close>

definition x_ListedInstance :: "'e Odps \<Rightarrow> string \<Rightarrow> xml \<Rightarrow> Instance outcome" where
  "x_ListedInstance od projectName e =
     obind (GMTTime_UnmarshalXML (od_ParseRFC1123Date od) [''StartTime''] e) (\<lambda>_.
     obind (GMTTime_UnmarshalXML (od_ParseRFC1123Date od) [''EndTime''] e) (\<lambda>_.
     Ret ((NewInstance projectName (x_string [''Name''] e))
       \<lparr>in_owner := x_string [''Owner''] e, in_startTime := x_string [''StartTime''] e, in_endTime := x_string [''EndTime''] e,
        in_status := x_instance_status e\<rparr>)))"

definition instances_page :: "'e Odps \<Rightarrow> string \<Rightarrow> Values \<Rightarrow> ('e, Instance list \<times> string) M" where
  "instances_page od projectName queryArgs =
     GetWithModel (od_restClient od) (rb_Instances \<lparr>rb_ProjectName = projectName\<rparr>) (Some queryArgs) Map.empty
       (x_Decode ''Instances'' (\<lambda>e. obind (x_int [''MaxItems''] e) (\<lambda>_.
          omap (\<lambda>is. (is, x_string [''Marker''] e)) (omap_list (x_ListedInstance od projectName) (x_path [''Instance''] e)))))"

definition Instances_List ::
    "'e Odps \<Rightarrow> string \<Rightarrow> (Values \<Rightarrow> Values) list \<Rightarrow> 'e \<Rightarrow> ((Instance list \<times> goerr option) outcome \<times> 'e) option" where
  "Instances_List od projectName filters =
     list_pages (instances_page od projectName) (fold (\<lambda>f. f) filters [''onlyowner'' \<mapsto> ''no'']) []"

definition InstanceFilter_Status :: "InstanceStatus \<Rightarrow> Values \<Rightarrow> Values" where
  "InstanceFilter_Status status q = (if status = InstanceStatusZero then q else q(''status'' \<mapsto> InstanceStatus_String status))"

definition InstanceFilter_OnlyOwner :: "Values \<Rightarrow> Values" where
  "InstanceFilter_OnlyOwner q = q(''onlyowner'' \<mapsto> ''yes'')"

definition InstanceFilter_QuotaIndex :: "string \<Rightarrow> Values \<Rightarrow> Values" where
  "InstanceFilter_QuotaIndex s q = q(''quotaindex'' \<mapsto> s)"

definition InstanceFilter_TimeRange :: "gotime \<Rightarrow> gotime \<Rightarrow> Values \<Rightarrow> Values" where
  "InstanceFilter_TimeRange s e q = q(''daterange'' \<mapsto> Itoa (t_unix s) @ '':'' @ Itoa (t_unix e))"

text \<open>
  The queue information is one text per page; an empty text ends the list, whatever its marker.
\<close>

partial_function (option) queued_pages ::
    "(Values \<Rightarrow> ('e, string \<times> string) M) \<Rightarrow> Values \<Rightarrow> string list \<Rightarrow> 'e \<Rightarrow> ((string list \<times> goerr option) outcome \<times> 'e) option" where
  "queued_pages get queryArgs acc e =
     (case get queryArgs e of
        (Fail err, e') \<Rightarrow> Some (Ret (acc, Some err), e')
      | (Panic p, e') \<Rightarrow> Some (Panic p, e')
      | (Ret page, e') \<Rightarrow>
          if fst page = [] then Some (Ret (acc, None), e')
          else if snd page \<noteq> [] then queued_pages get (queryArgs(''marker'' \<mapsto> snd page)) (acc @ [fst page]) e'
          else Some (Ret (acc @ [fst page], None), e'))"

definition ListInstancesQueued ::
    "'e Odps \<Rightarrow> string \<Rightarrow> (Values \<Rightarrow> Values) list \<Rightarrow> 'e \<Rightarrow> ((string list \<times> goerr option) outcome \<times> 'e) option" where
  "ListInstancesQueued od projectName filters =
     queued_pages (\<lambda>queryArgs. GetWithModel (od_restClient od) (rb_CachedInstances \<lparr>rb_ProjectName = projectName\<rparr>) (Some queryArgs)
         Map.empty (x_Decode ''Instances'' (\<lambda>e. obind (x_int [''MaxItems''] e) (\<lambda>_.
           Ret (x_string [''Content''] e, x_string [''Marker''] e)))))
       (fold (\<lambda>f. f) filters [''onlyowner'' \<mapsto> ''no'']) []"

subsection \<open>Paged lists are complete\<close>

text \<open>
  C30. A list of partitions, tables or instances is complete: against a server that serves its items in
  pages chained by markers, the call returns, without an error, the items of all pages in their order.
\<close>

theorem paged_lists_complete:
  "(serves (partitions_page od t) (partitions_query t spec) marker ps \<and> ps \<noteq> [] \<longrightarrow>
      (\<exists>e'. getPartitions od t spec e = Some (Ret (concat ps, None), e'))) \<and>
   (serves (tables_page od ts) (fold (\<lambda>f. f) filters [''expectmarker'' \<mapsto> ''true'', ''curr_schema'' \<mapsto> tbs_schemaName ts]) marker tabs
      \<and> tabs \<noteq> [] \<longrightarrow> (\<exists>e'. Tables_List od ts filters e = Some (Ret (concat tabs, None), e'))) \<and>
   (serves (instances_page od project) (fold (\<lambda>f. f) filters [''onlyowner'' \<mapsto> ''no'']) marker ins \<and> ins \<noteq> [] \<longrightarrow>
      (\<exists>e'. Instances_List od project filters e = Some (Ret (concat ins, None), e')))"
  by (auto simp: getPartitions_def Tables_List_def Instances_List_def intro!: list_pages_all)

definition example_page :: "string \<Rightarrow> string \<Rightarrow> xml" where
  "example_page name marker =
     XElem ''Tables'' [] ((if marker = [] then [] else [x_text_elem ''Marker'' marker]) @ [XElem ''Table'' [] [x_text_elem ''Name'' name] []]) []"

definition example_paged :: "nat Odps" where
  "example_paged = (example_od (\<lambda>n. Ret conflict))\<lparr>od_restClient := (example_client (\<lambda>n. Ret conflict))
     \<lparr>rc_send := (\<lambda>req n. (Ret (xml_response
        (if rq_query req ''marker'' = None then example_page ''t1'' ''m'' else example_page ''t2'' [])), Suc n))\<rparr>\<rparr>"

lemma example_serves:
  "serves (tables_page example_paged (NewTables example_paged [] [])) [''expectmarker'' \<mapsto> ''true'', ''curr_schema'' \<mapsto> []] (\<lambda>_. ''m'')
     [[NewTable ''p'' [] ''t1''], [NewTable ''p'' [] ''t2'']]"
proof -
  have "k < 2 \<Longrightarrow> k = 0 \<or> k = 1" for k :: nat by linarith
  then show ?thesis
    by (auto simp: serves_def page_query_def tables_page_def run_request_defs example_paged_def example_od_def example_client_def
        xml_response_def example_page_def x_Decode_def x_int_def x_string_def x_text_elem_def NewTables_def NewTable_def prepare_def)
qed

theorem paged_lists_complete_witness:
  "\<exists>e'. Tables_List example_paged (NewTables example_paged [] []) [] 0 =
     Some (Ret ([NewTable ''p'' [] ''t1'', NewTable ''p'' [] ''t2''], None), e')"
  using paged_lists_complete [where od = example_paged and ts = "NewTables example_paged [] []" and filters = "[]"
      and marker = "\<lambda>_. ''m''" and tabs = "[[NewTable ''p'' [] ''t1''], [NewTable ''p'' [] ''t2'']]" and e = 0]
    example_serves
  by (simp add: NewTables_def example_paged_def example_od_def)

subsection \<open>Partition values\<close>

text \<open>
  The two ways to turn a partition value into a partition spec agree: the one of tables, which
  adds, drops and finds partitions, and the one of partition objects, on every value, malformed ones included.
\<close>

theorem NewPartition_Spec: "omap Spec (NewPartition projectName schemaName tableName v) = partitionValueToSpec v"
  by (cases "omap_list key_value (Split CHR ''/'' v)")
    (simp_all add: NewPartition_def partitionValueToSpec_def Spec_def new_Partition_def)

lemma range_sep_Join: "range_sep sep f xs = Join (map f xs) sep"
proof (induction xs)
  case (Cons x xs)
  then show ?case by (cases xs) simp_all
qed simp

lemma key_value_parts: "key_value s = Ret kv \<Longrightarrow> \<exists>r. Split CHR ''='' s = fst kv # snd kv # r"
  by (auto simp: key_value_def split: list.splits)

lemma key_value_set: "key_value s = Ret kv \<Longrightarrow> set (fst kv) \<union> set (snd kv) \<subseteq> set s"
proof -
  assume "key_value s = Ret kv"
  then obtain r where "Split CHR ''='' s = fst kv # snd kv # r" using key_value_parts by blast
  with Join_Split [of "CHR ''=''" s] have "s = fst kv @ ''='' @ Join (snd kv # r) ''=''" by simp
  then show ?thesis by (cases r) auto
qed

lemma key_value_text: "key_value s = Ret (k, v) \<Longrightarrow> (k @ ''='' @ v = s) \<longleftrightarrow> count_list s CHR ''='' = 1"
proof -
  assume "key_value s = Ret (k, v)"
  then obtain r where L: "Split CHR ''='' s = k # v # r" using key_value_parts by fastforce
  then have len: "count_list s CHR ''='' = Suc (length r)" using length_Split [of "CHR ''=''" s] by simp
  have J: "s = k @ ''='' @ Join (v # r) ''=''" using Join_Split [of "CHR ''=''" s] L by (cases r) simp_all
  show ?thesis
  proof (cases r)
    case Nil
    with J len show ?thesis by simp
  next
    case (Cons x xs)
    then have "Join (v # r) ''='' \<noteq> v" by (cases xs) auto
    with J len Cons show ?thesis by simp
  qed
qed

lemma key_value_Ret: "(\<exists>kv. key_value s = Ret kv) \<longleftrightarrow> count_list s CHR ''='' \<ge> 1"
  using length_Split [of "CHR ''=''" s] by (auto simp: key_value_def Suc_le_eq split: list.splits)

lemma omap_list_Ret_iff: "(\<exists>ys. omap_list f xs = Ret ys) \<longleftrightarrow> (\<forall>x \<in> set xs. \<exists>y. f x = Ret y)"
  by (induction xs) (auto simp: obind_Ret_iff)

lemma Split_chars: "p \<in> set (Split sep s) \<Longrightarrow> sep \<notin> set p"
  by (induction s arbitrary: p) (auto split: if_splits list.splits)

lemma omap_list_nth:
  "omap_list f xs = Ret ys \<Longrightarrow> length ys = length xs \<and> (\<forall>i < length xs. f (xs ! i) = Ret (ys ! i))"
  by (induction xs arbitrary: ys) (auto simp: obind_Ret_iff nth_Cons split: nat.splits)

lemma pt_ValueString_iff:
  assumes "omap_list key_value (Split CHR ''/'' v) = Ret kvs"
  shows "pt_ValueString (new_Partition projectName schemaName tableName kvs) = v \<longleftrightarrow>
      list_all (\<lambda>part. count_list part CHR ''='' = 1) (Split CHR ''/'' v)"
proof -
  let ?L = "Split CHR ''/'' v" and ?f = "\<lambda>(n, v). n @ ''='' @ v"
  note n = omap_list_nth [OF assms]
  have part: "?f (kvs ! i) = ?L ! i \<longleftrightarrow> count_list (?L ! i) CHR ''='' = 1" if "i < length ?L" for i
    using n that key_value_text [of "?L ! i" "fst (kvs ! i)" "snd (kvs ! i)"] by (simp add: case_prod_unfold)
  have no: "CHR ''/'' \<notin> set (?f (kvs ! i))" if i: "i < length ?L" for i
  proof -
    have "set (fst (kvs ! i)) \<union> set (snd (kvs ! i)) \<subseteq> set (?L ! i)" using n i key_value_set by blast
    then show ?thesis using Split_chars [of "?L ! i" "CHR ''/''" v] i by (auto simp: case_prod_unfold)
  qed
  have "pt_ValueString (new_Partition projectName schemaName tableName kvs) = v \<longleftrightarrow> Join (map ?f kvs) ''/'' = Join ?L ''/''"
    by (simp add: pt_ValueString_def new_Partition_def range_sep_Join Join_Split)
  also have "\<dots> \<longleftrightarrow> map ?f kvs = ?L"
  proof
    assume "Join (map ?f kvs) ''/'' = Join ?L ''/''"
    moreover have "kvs \<noteq> []" using n Split_nonempty [of "CHR ''/''" v] by (metis length_0_conv)
    moreover have "p \<in> set (map ?f kvs) \<Longrightarrow> CHR ''/'' \<notin> set p" for p
      using no n by (metis (no_types, lifting) in_set_conv_nth length_map nth_map)
    ultimately show "map ?f kvs = ?L"
      using Split_Join_inverse [of "map ?f kvs" "CHR ''/''"] by (metis Join_Split list.map_disc_iff)
  qed simp
  also have "\<dots> \<longleftrightarrow> list_all (\<lambda>part. count_list part CHR ''='' = 1) ?L"
    using part n by (auto simp: list_eq_iff_nth_eq list_all_length)
  finally show ?thesis .
qed

text \<open>
  A partition value is read and written back unchanged exactly when each of its parts, which slashes
  separate, holds one equals sign; a value that itself contains an equals sign is cut at it without an error.
\<close>

theorem NewPartition_Value:
  "(\<exists>p. NewPartition projectName schemaName tableName v = Ret p \<and> pt_ValueString p = v) \<longleftrightarrow>
     list_all (\<lambda>part. count_list part CHR ''='' = 1) (Split CHR ''/'' v)"
proof -
  let ?L = "Split CHR ''/'' v"
  show ?thesis
  proof (cases "omap_list key_value ?L")
    case (Ret kvs)
    then show ?thesis using pt_ValueString_iff [OF Ret] by (simp add: NewPartition_def)
  next
    case (Fail err)
    then have "\<not> list_all (\<lambda>part. count_list part CHR ''='' = 1) ?L"
      using omap_list_Ret_iff [of key_value ?L] key_value_Ret by (fastforce simp: list_all_iff)
    with Fail show ?thesis by (simp add: NewPartition_def)
  next
    case (Panic x)
    then have "\<not> list_all (\<lambda>part. count_list part CHR ''='' = 1) ?L"
      using omap_list_Ret_iff [of key_value ?L] key_value_Ret by (fastforce simp: list_all_iff)
    with Panic show ?thesis by (simp add: NewPartition_def)
  qed
qed

subsection \<open>What the statements say\<close>

text \<open>
  Adding partitions without \<open>if not exists\<close> makes a statement that is no SQL: nothing separates
  \<open>add\<close> from the word \<open>partition\<close> that follows it.
\<close>

theorem AddPartitions_sql_missing_space:
  assumes "AddPartitions_sql t False (v # vs) = Ret sql"
  shows "\<exists>rest. sql = ''alter table '' @ getFullName t @ '' addpartition ('' @ rest"
  using assms by (auto simp: AddPartitions_sql_def obind_Ret_iff omap_def)

theorem AddPartitions_sql_missing_space_witness:
  "AddPartitions_sql (NewTable ''p'' [] ''t'') False [''a=1''] = Ret (''alter table p.`t` addpartition (a='' @ [SQ] @ ''1'' @ [SQ] @ '')'' @ [NL] @ '';'') \<and>
   (\<exists>rest. ''alter table p.`t` addpartition (a='' @ [SQ] @ ''1'' @ [SQ] @ '')'' @ [NL] @ '';'' =
      ''alter table '' @ getFullName (NewTable ''p'' [] ''t'') @ '' addpartition ('' @ rest)"
proof -
  have *: "AddPartitions_sql (NewTable ''p'' [] ''t'') False [''a=1''] =
      Ret (''alter table p.`t` addpartition (a='' @ [SQ] @ ''1'' @ [SQ] @ '')'' @ [NL] @ '';'')"
    by (simp add: AddPartitions_sql_def partitionValueToSpec_def key_value_def spec_item_def getFullName_def NewTable_def QuoteRef_def)
  from * AddPartitions_sql_missing_space [OF *] show ?thesis by blast
qed

text \<open>
  The highest label depends on the order of the labels: a label of a lower level that stands
  behind the highest one changes the category of the result, and the same two labels the other
  way round keep it. The documentation of \<open>MaxLabel\<close> gives the category of the labels of the highest level alone.
\<close>

theorem calculateMaxLabel_order:
  assumes "0 < m" and "m < n" and "n < 10" and "to_lower_char a \<noteq> to_lower_char b"
  shows "calculateMaxLabel [[a, digit_char n], [b, digit_char m]] = ''L'' @ Itoa (int n) \<and>
    calculateMaxLabel [[b, digit_char m], [a, digit_char n]] = to_lower_char a # Itoa (int n)"
proof -
  have d: "Atoi [digit_char k] = Ret (int k)" if "k < 10" for k
  proof -
    have "show_nat k = [digit_char k]" using that by (subst show_nat.simps) simp
    then show ?thesis using ParseInt_show_nat [of k 64] that by (simp add: Atoi_def)
  qed
  show ?thesis using assms d [of n] d [of m] by (simp add: calculateMaxLabel_def ToLower_def)
qed

theorem calculateMaxLabel_order_witness:
  "calculateMaxLabel [''C3'', ''S1''] = ''L3'' \<and> calculateMaxLabel [''S1'', ''C3''] = ''c3''"
proof -
  have d: "digit_char 3 = CHR ''3''" "digit_char (Suc 0) = CHR ''1''" "Itoa 3 = ''3''" by code_simp+
  have l: "to_lower_char CHR ''C'' = CHR ''c''" "to_lower_char CHR ''S'' = CHR ''s''" by code_simp+
  from calculateMaxLabel_order [of 1 3 "CHR ''C''" "CHR ''S''"] show ?thesis by (simp add: d l)
qed

text \<open>
  The aliases given for an external table do not reach the task: two calls that differ
  in their aliases alone create the same task, whose aliases are its hints; the task of an
  ordinary table has the aliases it was given.
\<close>

theorem CreateExternal_ignores_aliases:
  "external_task ts sql hints (Some a) = external_task ts sql hints (Some b) \<and>
   (''aliases'', json_Marshal_map (create_hints ts hints)) \<in> set (tk_Config (external_task ts sql hints (Some a))) \<and>
   (''aliases'', json_Marshal_map a) \<in> set (tk_Config (create_task ts sql hints (Some a)))"
  by (simp add: external_task_def create_task_def add_aliases_def AddProperty_def)

end
