(* ===== verification/Projects.thy ===== *)
theory Projects
  imports OdpsTables StreamSessions
begin

section \<open>Projects and schemas\<close>

text \<open>
  Models \<open>odps/project.go\<close>, \<open>odps/projects.go\<close>, \<open>odps/schema.go\<close>, \<open>odps/schemas.go\<close> and the accessors of \<open>odps/odps.go\<close>.
  \<^item> A slice that XML decoding fills is nil or has elements, so the empty list is the nil slice.
  \<^item> The zero time is \<open>None\<close>. The package's \<open>ParseRFC1123Date\<close> and the schema's own parsing of dates are the parser
    that the \<open>Odps\<close> value carries.
  \<^item> A call that returns an error wraps it, so \<open>err.(restclient.HttpError)\<close> in \<open>Project.Load\<close> never succeeds.
\<close>

subsection \<open>\<open>Odps\<close>\<close>

definition SetDefaultProjectName :: "string \<Rightarrow> 'e Odps \<Rightarrow> 'e Odps" where
  "SetDefaultProjectName projectName od =
     od\<lparr>od_defaultProject := projectName, od_restClient := SetDefaultProject projectName (od_restClient od)\<rparr>"

definition SetCurrentSchemaName :: "string \<Rightarrow> 'e Odps \<Rightarrow> 'e Odps" where
  "SetCurrentSchemaName schemaName od =
     od\<lparr>od_currentSchema := schemaName, od_restClient := SetCurrentSchema schemaName (od_restClient od)\<rparr>"

definition SetTcpConnectTimeout :: "int \<Rightarrow> 'e Odps \<Rightarrow> 'e Odps" where
  "SetTcpConnectTimeout t od = od\<lparr>od_restClient := (od_restClient od)\<lparr>rc_TcpConnectionTimeout := t\<rparr>\<rparr>"

definition SetHttpTimeout :: "int \<Rightarrow> 'e Odps \<Rightarrow> 'e Odps" where
  "SetHttpTimeout t od = od\<lparr>od_restClient := (od_restClient od)\<lparr>rc_HttpTimeout := t\<rparr>\<rparr>"

definition od_Tables :: "'e Odps \<Rightarrow> Tables" where
  "od_Tables od = NewTables od (od_defaultProject od) (od_currentSchema od)"

definition od_Table :: "'e Odps \<Rightarrow> string \<Rightarrow> Table" where
  "od_Table od name = NewTable (od_defaultProject od) (od_currentSchema od) name"

definition od_Instance :: "'e Odps \<Rightarrow> string \<Rightarrow> Instance" where
  "od_Instance od instanceId = NewInstance (od_defaultProject od) instanceId"

subsection \<open>Project status\<close>

datatype ProjectStatus =
    ProjectStatusZero | ProjectStatusAvailable | ProjectStatusReadOnly | ProjectStatusDeleting | ProjectStatusFrozen
  | ProjectStatusUnKnown

definition ProjectStatus_FromStr :: "string \<Rightarrow> ProjectStatus" where
  "ProjectStatus_FromStr s =
     (let u = ToUpper s in
      if u = ''AVAILABLE'' then ProjectStatusAvailable else if u = ''READONLY'' then ProjectStatusReadOnly
      else if u = ''DELETING'' then ProjectStatusDeleting else if u = ''FROZEN'' then ProjectStatusFrozen
      else ProjectStatusUnKnown)"

fun ProjectStatus_String :: "ProjectStatus \<Rightarrow> string" where
  "ProjectStatus_String ProjectStatusAvailable = ''AVAILABLE''"
| "ProjectStatus_String ProjectStatusReadOnly = ''READONLY''"
| "ProjectStatus_String ProjectStatusDeleting = ''DELETING''"
| "ProjectStatus_String ProjectStatusFrozen = ''FROZEN''"
| "ProjectStatus_String _ = ''UNKNOWN''"

definition x_project_status :: "xml \<Rightarrow> ProjectStatus" where
  "x_project_status e =
     (case rev (x_path [''State''] e) of [] \<Rightarrow> ProjectStatusZero | c # _ \<Rightarrow> ProjectStatus_FromStr (x_text c))"

subsection \<open>The model of a project\<close>

record Cluster =
  cl_Name :: string
  cl_QuotaId :: string

record projectModel =
  pm_Name :: string
  pm_Type :: string
  pm_Comment :: string
  pm_Status :: ProjectStatus
  pm_ProjectGroupName :: string
  pm_Properties :: "(string \<times> string) list"
  pm_DefaultCluster :: string
  pm_Clusters :: "Cluster list"
  pm_ExtendedProperties :: "(string \<times> string) list"
  pm_TenantId :: string
  pm_RegionId :: string
  pm_Owner :: string
  pm_CreationTime :: "gotime option"
  pm_LastModifiedTime :: "gotime option"

definition zero_projectModel :: projectModel where
  "zero_projectModel =
     \<lparr>pm_Name = [], pm_Type = [], pm_Comment = [], pm_Status = ProjectStatusZero, pm_ProjectGroupName = [], pm_Properties = [],
      pm_DefaultCluster = [], pm_Clusters = [], pm_ExtendedProperties = [], pm_TenantId = [], pm_RegionId = [],
      pm_Owner = [], pm_CreationTime = None, pm_LastModifiedTime = None\<rparr>"

definition x_Property :: "xml \<Rightarrow> string \<times> string" where
  "x_Property e = (x_string [''Name''] e, x_string [''Value''] e)"

text \<open>
  An element \<open>Quotas\<close> is decoded into a struct whose \<open>XMLName\<close> is \<open>OptionalQuota\<close>, which the decoder refuses.
\<close>

definition x_Cluster :: "xml \<Rightarrow> Cluster outcome" where
  "x_Cluster e =
     (if x_path [''Quotas''] e \<noteq> [] then Fail (ErrMsg ''expected element type <OptionalQuota> but have <Quotas>'')
      else Ret \<lparr>cl_Name = x_string [''Name''] e, cl_QuotaId = x_string [''QuotaId''] e\<rparr>)"

definition x_projectModel :: "(string \<Rightarrow> gotime outcome) \<Rightarrow> xml \<Rightarrow> projectModel outcome" where
  "x_projectModel parseDate e =
     obind (omap_list x_Cluster (x_path [''Clusters''] e)) (\<lambda>clusters.
     obind (GMTTime_UnmarshalXML parseDate [''CreationTime''] e) (\<lambda>ct.
     obind (GMTTime_UnmarshalXML parseDate [''LastModifiedTime''] e) (\<lambda>mt.
     Ret \<lparr>pm_Name = x_string [''Name''] e, pm_Type = x_string [''Type''] e, pm_Comment = x_string [''Comment''] e,
          pm_Status = x_project_status e, pm_ProjectGroupName = x_string [''ProjectGroupName''] e,
          pm_Properties = map x_Property (x_path [''Properties'', ''Property''] e),
          pm_DefaultCluster = x_string [''DefaultCluster''] e, pm_Clusters = clusters,
          pm_ExtendedProperties = map x_Property (x_path [''ExtendedProperties'', ''Property''] e),
          pm_TenantId = x_string [''TenantId''] e, pm_RegionId = x_string [''Region''] e, pm_Owner = x_string [''Owner''] e,
          pm_CreationTime = ct, pm_LastModifiedTime = mt\<rparr>)))"

record Project =
  pj_model :: projectModel
  pj_allProperties :: "(string \<times> string) list"
  pj_exists :: bool
  pj_beLoaded :: bool
  pj_rb :: ResourceBuilder

definition NewProject :: "string \<Rightarrow> Project" where
  "NewProject name =
     \<lparr>pj_model = zero_projectModel\<lparr>pm_Name := name\<rparr>, pj_allProperties = [], pj_exists = False, pj_beLoaded = False,
      pj_rb = \<lparr>rb_ProjectName = name\<rparr>\<rparr>"

definition od_DefaultProject :: "'e Odps \<Rightarrow> Project" where
  "od_DefaultProject od = NewProject (od_defaultProject od)"

record optionalParams =
  usedByGroupApi :: bool
  withAllProperties :: bool
  extendedProperties :: bool

definition no_params :: optionalParams where
  "no_params = \<lparr>usedByGroupApi = False, withAllProperties = False, extendedProperties = False\<rparr>"

definition HttpHeaderOdpsCreationTime :: string where "HttpHeaderOdpsCreationTime = ''x-odps-creation-time''"
definition HttpHeaderLastModified :: string where "HttpHeaderLastModified = ''Last-Modified''"

text \<open>A date of a header; one that cannot be parsed is logged and counts as the zero time.\<close>

definition header_time :: "'e Odps \<Rightarrow> HttpResponse \<Rightarrow> string \<Rightarrow> gotime option \<Rightarrow> gotime option" where
  "header_time od res name old =
     (let s = Header_Get (rs_Header res) name in
      if s = [] then old else (case od_ParseRFC1123Date od s of Ret t \<Rightarrow> Some t | _ \<Rightarrow> None))"

definition loadFromOdps :: "'e Odps \<Rightarrow> optionalParams \<Rightarrow> Project \<Rightarrow> ('e, projectModel) M" where
  "loadFromOdps od params p =
     (let q = set_if (extendedProperties params) ''extended'' []
           (set_if (withAllProperties params) ''properties'' ''all''
             (set_if (usedByGroupApi params) ''isGroupApi'' ''true'' Map.empty))
      in GetWithParseFunc (od_restClient od) (rb_Project (pj_rb p)) (Some q) Map.empty (\<lambda>res.
           obind (x_Decode ''Project'' (x_projectModel (od_ParseRFC1123Date od)) (rs_xml res)) (\<lambda>model.
           Ret (model\<lparr>pm_Owner := Header_Get (rs_Header res) HttpHeaderOdpsOwner,
                 pm_CreationTime := header_time od res HttpHeaderOdpsCreationTime (pm_CreationTime model),
                 pm_LastModifiedTime := header_time od res HttpHeaderLastModified (pm_LastModifiedTime model)\<rparr>))))"

definition pj_fetch :: "'e Odps \<Rightarrow> optionalParams \<Rightarrow> (Project \<times> 'e, projectModel) M" where
  "pj_fetch od params = mbind (mget fst) (\<lambda>p. on_env (\<lambda>_. od_restClient od) (loadFromOdps od params p))"

text \<open>\<open>beLoaded\<close> is set whether or not the request has succeeded.\<close>

definition pj_Load :: "'e Odps \<Rightarrow> (Project \<times> 'e, unit) M" where
  "pj_Load od s =
     (case pj_fetch od no_params s of
        (Ret model, (p, e)) \<Rightarrow> (Ret (), (p\<lparr>pj_beLoaded := True, pj_exists := True, pj_model := model\<rparr>, e))
      | (Fail err, (p, e)) \<Rightarrow> (Fail err, (p\<lparr>pj_beLoaded := True\<rparr>, e))
      | (Panic x, t) \<Rightarrow> (Panic x, t))"

definition GetAllProperties :: "'e Odps \<Rightarrow> (Project \<times> 'e, (string \<times> string) list) M" where
  "GetAllProperties od =
     mbind (mget (\<lambda>s. pj_allProperties (fst s))) (\<lambda>ps. if ps \<noteq> [] then mret ps else
     mbind (pj_fetch od (no_params\<lparr>withAllProperties := True\<rparr>)) (\<lambda>model.
     mseq (on_session (pj_allProperties_update (\<lambda>_. pm_Properties model))) (mret (pm_Properties model))))"

definition set_clusters :: "projectModel \<Rightarrow> Project \<Rightarrow> Project" where
  "set_clusters model p =
     p\<lparr>pj_model := (pj_model p)\<lparr>pm_DefaultCluster := pm_DefaultCluster model, pm_Clusters := pm_Clusters model\<rparr>\<rparr>"

definition GetDefaultCluster :: "'e Odps \<Rightarrow> (Project \<times> 'e, string) M" where
  "GetDefaultCluster od =
     mbind (mget (\<lambda>s. pm_DefaultCluster (pj_model (fst s)))) (\<lambda>c. if c \<noteq> [] then mret c else
     mbind (pj_fetch od (no_params\<lparr>usedByGroupApi := True\<rparr>)) (\<lambda>model.
     mseq (on_session (set_clusters model)) (mret (pm_DefaultCluster model))))"

definition GetClusters :: "'e Odps \<Rightarrow> (Project \<times> 'e, Cluster list) M" where
  "GetClusters od =
     mbind (mget (\<lambda>s. pm_Clusters (pj_model (fst s)))) (\<lambda>c. if c \<noteq> [] then mret c else
     mbind (pj_fetch od (no_params\<lparr>usedByGroupApi := True\<rparr>)) (\<lambda>model.
     mseq (on_session (set_clusters model)) (mret (pm_Clusters model))))"

definition GetExtendedProperties :: "'e Odps \<Rightarrow> (Project \<times> 'e, (string \<times> string) list) M" where
  "GetExtendedProperties od =
     mbind (mget (\<lambda>s. pm_ExtendedProperties (pj_model (fst s)))) (\<lambda>ps. if ps \<noteq> [] then mret ps else
     mbind (pj_fetch od (no_params\<lparr>extendedProperties := True\<rparr>)) (\<lambda>model.
     mseq (on_session (\<lambda>p. p\<lparr>pj_model := (pj_model p)\<lparr>pm_ExtendedProperties := pm_ExtendedProperties model\<rparr>\<rparr>))
       (mret (pm_ExtendedProperties model))))"

text \<open>\<open>ioutil.ReadAll\<close> of a body.\<close>

definition ReadAll :: "source \<Rightarrow> byte list outcome" where
  "ReadAll src = (if src_end src = ErrEOF then Ret (src_in src) else Fail (src_end src))"

text \<open>
  The endpoint for tunnels: the scheme of the request and the host that the server answers. Beside an
  error the code returns a text that its callers drop.
\<close>

definition GetTunnelEndpoint :: "'e Odps \<Rightarrow> string list \<Rightarrow> Project \<Rightarrow> ('e, string) M" where
  "GetTunnelEndpoint od quotaNames p =
     (let q = (case quotaNames of [] \<Rightarrow> [''service'' \<mapsto> []]
               | quotaName # _ \<Rightarrow> set_if (quotaName \<noteq> []) ''quotaName'' quotaName [''service'' \<mapsto> []])
      in mbind (mlift (NewRequestWithUrlQuery (od_restClient od) GetMethod (rb_Tunnel (pj_rb p)) (Some q))) (\<lambda>req.
         mbind (DoWithParseFunc (od_restClient od) req (\<lambda>res. omap string_of (ReadAll (rs_Body res)))) (\<lambda>tunnelEndpoint.
         mret ((case getScheme [] (rq_url req) of Ret scheme \<Rightarrow> scheme | _ \<Rightarrow> []) @ ''://'' @ tunnelEndpoint))))"

definition pj_Update :: "'e Odps \<Rightarrow> (string \<times> string) list \<Rightarrow> Project \<Rightarrow> ('e, unit) M" where
  "pj_Update od properties p =
     DoXmlWithModel (od_restClient od) PutMethod (rb_Project (pj_rb p)) None
       (XElem ''Project'' [] (x_text_elem ''Name'' (pm_Name (pj_model p)) #
          (if properties = [] then []
           else [XElem ''Properties'' [] (map (\<lambda>(k, v). XElem ''Property'' [] [x_text_elem ''Name'' k, x_text_elem ''Value'' v] [])
                   properties) []])) [])
       (\<lambda>_. Ret ())"

subsection \<open>The projects of an account\<close>

definition projects_page :: "'e Odps \<Rightarrow> Values \<Rightarrow> ('e, Project list \<times> string) M" where
  "projects_page od queryArgs =
     GetWithModel (od_restClient od) (rb_Projects \<lparr>rb_ProjectName = od_defaultProject od\<rparr>) (Some queryArgs) Map.empty
       (x_Decode ''Projects'' (\<lambda>e. obind (x_int [''MaxItems''] e) (\<lambda>_.
          omap (\<lambda>ms. (map (\<lambda>m. (NewProject (pm_Name m))\<lparr>pj_model := m\<rparr>) ms, x_string [''Marker''] e))
            (omap_list (x_projectModel (od_ParseRFC1123Date od)) (x_path [''Project''] e)))))"

definition Projects_List :: "'e Odps \<Rightarrow> (Values \<Rightarrow> Values) list \<Rightarrow> 'e \<Rightarrow> ((Project list \<times> goerr option) outcome \<times> 'e) option" where
  "Projects_List od filters = list_pages (projects_page od) (fold (\<lambda>f. f) filters Map.empty) []"

definition Projects_Exists :: "'e Odps \<Rightarrow> string \<Rightarrow> ('e, bool) M" where
  "Projects_Exists od projectName e =
     (case pj_Load od (NewProject projectName, e) of (r, (p, e')) \<Rightarrow> (omap (\<lambda>_. pj_exists p) r, e'))"

definition withProjectNamePrefix :: "string \<Rightarrow> Values \<Rightarrow> Values" where
  "withProjectNamePrefix name q = q(''name'' \<mapsto> name)"

definition withProjectOwner :: "string \<Rightarrow> Values \<Rightarrow> Values" where
  "withProjectOwner owner q = q(''owner'' \<mapsto> owner)"

definition withUserInProject :: "string \<Rightarrow> Values \<Rightarrow> Values" where
  "withUserInProject user q = q(''user'' \<mapsto> user)"

definition withProjectGroup :: "string \<Rightarrow> Values \<Rightarrow> Values" where
  "withProjectGroup grp q = q(''group'' \<mapsto> grp)"

subsection \<open>Schemas\<close>

record schemaModel =
  sm_Name :: string
  sm_ProjectName :: string
  sm_Comment :: string
  sm_Type :: string
  sm_CreateTime :: "gotime option"
  sm_ModifiedTime :: "gotime option"
  sm_IfNotExists :: bool
  sm_Owner :: string

record Schema =
  sh_model :: schemaModel
  sh_beLoaded :: bool

definition NewSchema :: "string \<Rightarrow> string \<Rightarrow> Schema" where
  "NewSchema projectName schemaName =
     \<lparr>sh_model = \<lparr>sm_Name = schemaName, sm_ProjectName = projectName, sm_Comment = [], sm_Type = [], sm_CreateTime = None,
        sm_ModifiedTime = None, sm_IfNotExists = False, sm_Owner = []\<rparr>, sh_beLoaded = False\<rparr>"

definition sh_Tables :: "'e Odps \<Rightarrow> Schema \<Rightarrow> Tables" where
  "sh_Tables od s = NewTables od (sm_ProjectName (sh_model s)) (sm_Name (sh_model s))"

definition sh_ResourceUrl :: "Schema \<Rightarrow> string" where
  "sh_ResourceUrl s = rb_Schema \<lparr>rb_ProjectName = sm_ProjectName (sh_model s)\<rparr> (sm_Name (sh_model s))"

definition ParseBool :: "string \<Rightarrow> bool outcome" where
  "ParseBool s =
     (if s \<in> {''1'', ''t'', ''T'', ''true'', ''TRUE'', ''True''} then Ret True
      else if s \<in> {''0'', ''f'', ''F'', ''false'', ''FALSE'', ''False''} then Ret False
      else Fail (ErrMsg ''invalid syntax''))"

text \<open>
  The decoder works on the schema's own model: an element sets its field, and an error leaves the fields
  that were set before. The two fields for times are named after elements that do not exist.
\<close>

definition decode_schema_field :: "xml \<Rightarrow> (Schema \<times> 'e, unit) M" where
  "decode_schema_field c =
     (let put = (\<lambda>f. on_session (sh_model_update f)); t = x_text c; n = x_name c in
      if n = ''Name'' then put (sm_Name_update (\<lambda>_. t))
      else if n = ''Project'' then put (sm_ProjectName_update (\<lambda>_. t))
      else if n = ''Comment'' then put (sm_Comment_update (\<lambda>_. t))
      else if n = ''Type'' then put (sm_Type_update (\<lambda>_. t))
      else if n = ''Owner'' then put (sm_Owner_update (\<lambda>_. t))
      else if n = ''IfNotExists'' then
        mbind (mlift (if t = [] then Ret False else ParseBool (TrimSpace t))) (\<lambda>b. put (sm_IfNotExists_update (\<lambda>_. b)))
      else mret ())"

text \<open>Both dates are stored; the error that is returned is that of the second.\<close>

definition sh_Load :: "'e Odps \<Rightarrow> (Schema \<times> 'e, unit) M" where
  "sh_Load od =
     mbind (mget fst) (\<lambda>s.
     mseq (on_session (sh_beLoaded_update (\<lambda>_. True)))
     (mbind (on_env (\<lambda>_. od_restClient od) (GetWithParseFunc (od_restClient od) (sh_ResourceUrl s) None Map.empty Ret)) (\<lambda>res.
      mseq (mbind (mlift (x_Decode ''Schema'' Ret (rs_xml res))) (\<lambda>e. mfor decode_schema_field (x_children e)))
     (let date = (\<lambda>n. od_ParseRFC1123Date od (Header_Get (rs_Header res) n));
          time = (\<lambda>r. case r of Ret t \<Rightarrow> Some t | _ \<Rightarrow> None)
      in mseq (on_session (sh_model_update (\<lambda>m. m\<lparr>sm_CreateTime := time (date HttpHeaderOdpsCreationTime),
                 sm_ModifiedTime := time (date HttpHeaderLastModified)\<rparr>)))
           (mlift (omap (\<lambda>_. ()) (date HttpHeaderLastModified)))))))"

text \<open>Only an HTTP error is looked at: after any other error of \<open>Load\<close> the schema is said to exist.\<close>

definition sh_Exists :: "'e Odps \<Rightarrow> (Schema \<times> 'e, bool) M" where
  "sh_Exists od s =
     (case sh_Load od s of
        (Fail (ErrHttp code status ra), s') \<Rightarrow>
          (if status = ''404 Not Found'' then (Ret False, s') else (Fail (ErrHttp code status ra), s'))
      | (Panic p, s') \<Rightarrow> (Panic p, s')
      | (_, s') \<Rightarrow> (Ret True, s'))"

definition sh_generateChangeCommentSQL :: "Schema \<Rightarrow> string \<Rightarrow> string" where
  "sh_generateChangeCommentSQL s newComment =
     ''alter schema '' @ QuoteRef (sm_ProjectName (sh_model s)) @ ''.'' @ QuoteRef (sm_Name (sh_model s)) @ '' set comment '' @
     QuoteString newComment @ '';''"

definition sh_generateChangeOwnerSQL :: "Schema \<Rightarrow> string \<Rightarrow> string" where
  "sh_generateChangeOwnerSQL s newOwner =
     ''alter schema '' @ QuoteRef (sm_ProjectName (sh_model s)) @ ''.'' @ QuoteRef (sm_Name (sh_model s)) @ '' changeowner to '' @
     QuoteString newOwner @ '';''"

definition executeSQL :: "'e Odps \<Rightarrow> string \<Rightarrow> 'e \<Rightarrow> (unit outcome \<times> 'e) option" where
  "executeSQL od sql e =
     (case created_error (ExecSQlWithHints od sql (Some [(''odps.namespace.schema'', ''true'')]) e) of
        None \<Rightarrow> None
      | Some (Ret i, e') \<Rightarrow> map_option (\<lambda>(r, (i', e'')). (r, e'')) (WaitForSuccess od (i, e'))
      | Some (Fail err, e') \<Rightarrow> Some (Fail err, e')
      | Some (Panic p, e') \<Rightarrow> Some (Panic p, e'))"

definition sh_ChangeComment :: "'e Odps \<Rightarrow> Schema \<Rightarrow> string \<Rightarrow> 'e \<Rightarrow> (unit outcome \<times> 'e) option" where
  "sh_ChangeComment od s newComment = executeSQL od (sh_generateChangeCommentSQL s newComment)"

definition sh_ChangeOwner :: "'e Odps \<Rightarrow> Schema \<Rightarrow> string \<Rightarrow> 'e \<Rightarrow> (unit outcome \<times> 'e) option" where
  "sh_ChangeOwner od s newOwner = executeSQL od (sh_generateChangeOwnerSQL s newOwner)"

text \<open>The collection of schemas is the name of its project.\<close>

definition NewSchemas :: "'e Odps \<Rightarrow> string \<Rightarrow> string" where
  "NewSchemas od projectName = (if projectName = [] then od_defaultProject od else projectName)"

definition schemas_page :: "'e Odps \<Rightarrow> string \<Rightarrow> Values \<Rightarrow> ('e, Schema list \<times> string) M" where
  "schemas_page od projectName queryArgs =
     GetWithModel (od_restClient od) (rb_Schemas \<lparr>rb_ProjectName = projectName\<rparr>) (Some queryArgs) Map.empty
       (x_Decode ''Schemas'' (\<lambda>e. obind (x_int [''MaxItems''] e) (\<lambda>_.
          obind (omap_list (\<lambda>c. if x_text c = [] then Ret False else ParseBool (TrimSpace (x_text c)))
                   (x_path [''Schema'', ''IfNotExists''] e)) (\<lambda>_.
          Ret (map (\<lambda>m. NewSchema projectName (x_string [''Name''] m)) (x_path [''Schema''] e), x_string [''Marker''] e)))))"

text \<open>The schemas handed to the callback in their order; the error is handed to it last and returned.\<close>

definition Schemas_ListWithFilter ::
    "'e Odps \<Rightarrow> string \<Rightarrow> (Values \<Rightarrow> Values) list \<Rightarrow> 'e \<Rightarrow> ((Schema list \<times> goerr option) outcome \<times> 'e) option" where
  "Schemas_ListWithFilter od projectName filters =
     list_pages (schemas_page od projectName) (fold (\<lambda>f. f) filters [''expectmarker'' \<mapsto> ''true'']) []"

definition Schemas_List :: "'e Odps \<Rightarrow> string \<Rightarrow> 'e \<Rightarrow> ((Schema list \<times> goerr option) outcome \<times> 'e) option" where
  "Schemas_List od projectName = Schemas_ListWithFilter od projectName []"

definition Schemas_Create :: "'e Odps \<Rightarrow> string \<Rightarrow> string \<Rightarrow> bool \<Rightarrow> string \<Rightarrow> ('e, unit) M" where
  "Schemas_Create od projectName schemaName createIfNotExists comment =
     DoXmlWithModel (od_restClient od) PostMethod (rb_Schemas \<lparr>rb_ProjectName = projectName\<rparr>) None
       (XElem ''Schema'' [] [x_text_elem ''Project'' projectName, x_text_elem ''Name'' schemaName, x_text_elem ''Comment'' comment,
          x_text_elem ''IfNotExists'' (if createIfNotExists then ''true'' else ''false'')] [])
       (\<lambda>_. Ret ())"

definition Schemas_Delete :: "'e Odps \<Rightarrow> string \<Rightarrow> string \<Rightarrow> ('e, unit) M" where
  "Schemas_Delete od projectName schemaName =
     mbind (mlift (NewRequestWithUrlQuery (od_restClient od) DeleteMethod (rb_Schema \<lparr>rb_ProjectName = projectName\<rparr> schemaName) None))
       (\<lambda>req. DoWithParseFunc (od_restClient od) req (\<lambda>_. Ret ()))"

subsection \<open>Properties\<close>

text \<open>Whether a project or a schema exists: what the two calls answer when the service cannot tell.\<close>

lemma pj_fetch_frame: "pj_fetch od params (p, e) = (r, (p', e')) \<Longrightarrow> p' = p"
  unfolding pj_fetch_def by (auto simp: on_env_iff run_simps)

lemma pj_Load_Ret: "pj_Load od (p, e) = (Ret u, (p', e')) \<Longrightarrow> pj_exists p'"
  by (auto simp: pj_Load_def split: prod.splits outcome.splits)

text \<open>
  \<open>Projects.Exists\<close> never answers that a project does not exist: a project that the service does not know is
  an error, since \<open>Load\<close> looks for the HTTP error under a wrapping it does not remove. For the same
  reason a failed \<open>Load\<close> only sets the loaded mark: a project that existed once is said to exist for ever.
\<close>

theorem project_never_missing:
  "fst (Projects_Exists od projectName e) \<noteq> Ret False \<and>
   (case pj_Load od (p, e) of (Fail err, (p', e')) \<Rightarrow> p' = p\<lparr>pj_beLoaded := True\<rparr> | _ \<Rightarrow> True)"
proof
  show "fst (Projects_Exists od projectName e) \<noteq> Ret False"
    using pj_Load_Ret [of od "NewProject projectName" e]
    by (cases "fst (pj_Load od (NewProject projectName, e))") (auto simp: Projects_Exists_def split: prod.splits)
  show "case pj_Load od (p, e) of (Fail err, (p', e')) \<Rightarrow> p' = p\<lparr>pj_beLoaded := True\<rparr> | _ \<Rightarrow> True"
    using pj_fetch_frame [of od no_params p e] by (auto simp: pj_Load_def split: prod.splits outcome.splits)
qed

text \<open>
  \<open>Schema.Exists\<close> takes every failure that is not an HTTP error, a server that cannot be reached or an answer
  that cannot be read, for a schema that exists.
\<close>

theorem schema_exists_without_server:
  assumes "sh_Load od s = (Fail err, s')" and "\<And>code status ra. err \<noteq> ErrHttp code status ra"
  shows "sh_Exists od s = (Ret True, s')"
proof (cases err)
  case (ErrHttp code status ra)
  with assms(2) show ?thesis by blast
qed (use assms(1) in \<open>simp_all add: sh_Exists_def\<close>)

theorem schema_exists_without_server_witness:
  "fst (sh_Exists (example_od (\<lambda>n. Fail (ErrIO ''no route to host''))) (NewSchema ''p'' ''s'', 0)) = Ret True"
proof -
  have "\<exists>s'. sh_Load (example_od (\<lambda>n. Fail (ErrIO ''no route to host''))) (NewSchema ''p'' ''s'', 0) = (Fail (ErrIO ''no route to host''), s')"
    by (simp add: sh_Load_def example_od_def example_client_def run_request_defs run_simps)
  then show ?thesis using schema_exists_without_server by (metis fst_conv goerr.distinct)
qed

text \<open>A project remembers the answers it was asked for: a property list, once known, is given without a request.\<close>

lemma GetAllProperties_cached:
  "GetAllProperties od (p, e) = (Ret ps, (p', e')) \<Longrightarrow> ps \<noteq> [] \<Longrightarrow> GetAllProperties od (p', e'') = (Ret ps, (p', e''))"
  using pj_fetch_frame [of od "no_params\<lparr>withAllProperties := True\<rparr>" p e]
  by (auto simp: GetAllProperties_def mbind_def mseq_def mget_def mret_def on_session_def split: prod.splits outcome.splits if_splits)

lemma project_lists_complete:
  "(serves (projects_page od) (fold (\<lambda>f. f) filters Map.empty) marker ps \<and> ps \<noteq> [] \<longrightarrow>
      (\<exists>e'. Projects_List od filters e = Some (Ret (concat ps, None), e'))) \<and>
   (serves (schemas_page od projectName) (fold (\<lambda>f. f) filters [''expectmarker'' \<mapsto> ''true'']) marker ss \<and> ss \<noteq> [] \<longrightarrow>
      (\<exists>e'. Schemas_ListWithFilter od projectName filters e = Some (Ret (concat ss, None), e')))"
  by (auto simp: Projects_List_def Schemas_ListWithFilter_def intro!: list_pages_all)

lemma ProjectStatus_roundtrip: "s \<noteq> ProjectStatusZero \<Longrightarrow> ProjectStatus_FromStr (ProjectStatus_String s) = s"
  by (cases s) (simp_all add: ProjectStatus_FromStr_def ToUpper_def to_upper_char_def less_eq_char_def)

end
