(* ===== verification/Dsn.thy ===== *)
theory Dsn
  imports Accounts Projects
begin

section \<open>Configurations and data source names\<close>

text \<open>
  Models \<open>odps/config.go\<close> and \<open>sqldriver/dsn.go\<close>.
  \<^item> A duration is its nanoseconds. A \<open>map[string]string\<close> is its entries with distinct keys in iteration order; a nil map is
    \<open>None\<close>.
  \<^item> The environment of the process is a function from names to values, the empty string for a name that is not set.
  \<^item> The file of \<open>NewConfigFromIni\<close> is its section \<open>odps\<close>, the keys with their values, as the package \<open>ini\<close> reads it.
\<close>

record Config =
  cf_AccessId :: string
  cf_AccessKey :: string
  cf_StsToken :: string
  cf_Endpoint :: string
  cf_ProjectName :: string
  cf_TcpConnectionTimeout :: int
  cf_HttpTimeout :: int
  cf_TunnelEndpoint :: string
  cf_TunnelQuotaName :: string
  cf_Hints :: "(string \<times> string) list option"
  cf_Others :: "(string \<times> string) list option"

definition NewConfig :: Config where
  "NewConfig =
     \<lparr>cf_AccessId = [], cf_AccessKey = [], cf_StsToken = [], cf_Endpoint = [], cf_ProjectName = [],
      cf_TcpConnectionTimeout = 30 * Second, cf_HttpTimeout = 0, cf_TunnelEndpoint = [], cf_TunnelQuotaName = [],
      cf_Hints = None, cf_Others = None\<rparr>"

text \<open>A timeout given in seconds; a text that is not a 32-bit number leaves the timeout that was there.\<close>

definition seconds_or :: "int \<Rightarrow> string \<Rightarrow> int" where
  "seconds_or old s = (if s = [] then old else case ParseInt 32 s of Ret n \<Rightarrow> n * Second | _ \<Rightarrow> old)"

subsection \<open>From an ini file\<close>

definition ini_get :: "string \<Rightarrow> (string \<times> string) list \<Rightarrow> string outcome" where
  "ini_get k section = (case map_of section k of None \<Rightarrow> Fail (ErrMsg ''key not exists'') | Some v \<Rightarrow> Ret v)"

definition ini_delete :: "string list \<Rightarrow> (string \<times> string) list \<Rightarrow> (string \<times> string) list" where
  "ini_delete ks section = filter (\<lambda>kv. fst kv \<notin> set ks) section"

text \<open>A key with the prefix \<open>hints\<close> is a hint named behind the first dot; without a dot the slice is too short.\<close>

definition ini_hint :: "string \<times> string \<Rightarrow> (string \<times> string) outcome" where
  "ini_hint kv =
     (if HasPrefix (fst kv) ''hints''
      then (case Cut CHR ''.'' (fst kv) of (_, None) \<Rightarrow> Panic IndexOutOfRange | (_, Some n) \<Rightarrow> Ret (n, snd kv))
      else Ret kv)"

definition NewConfigFromIni :: "(string \<times> string) list outcome \<Rightarrow> Config outcome" where
  "NewConfigFromIni file =
     obind file (\<lambda>section.
     obind (ini_get ''access_id'' section) (\<lambda>accessId.
     obind (ini_get ''access_key'' section) (\<lambda>accessKey.
     obind (ini_get ''endpoint'' section) (\<lambda>endpoint.
     obind (ini_get ''project'' section) (\<lambda>project.
     obind (url_Parse endpoint) (\<lambda>_.
     let opt = (\<lambda>k. case map_of section k of None \<Rightarrow> [] | Some v \<Rightarrow> v);
         rest = ini_delete [''access_id'', ''access_key'', ''endpoint'', ''project'', ''sts_token'', ''tcp_connection_timeout'',
                  ''http_timeout'', ''tunnel_endpoint'', ''tunnel_quota_name'', ''enableLogview''] section
     in omap (\<lambda>hints. NewConfig\<lparr>cf_AccessId := accessId, cf_AccessKey := accessKey, cf_Endpoint := endpoint,
          cf_ProjectName := project, cf_StsToken := opt ''sts_token'',
          cf_TcpConnectionTimeout := seconds_or (30 * Second) (opt ''tcp_connection_timeout''),
          cf_HttpTimeout := seconds_or 0 (opt ''http_timeout''),
          cf_TunnelEndpoint := opt ''tunnel_endpoint'', cf_TunnelQuotaName := opt ''tunnel_quota_name'',
          cf_Others := Some (case map_of section ''enableLogview'' of None \<Rightarrow> [] | Some v \<Rightarrow> [(''enableLogview'', v)]),
          cf_Hints := Some (fold (\<lambda>(k, v). AList.update k v) hints [])\<rparr>)
        (omap_list ini_hint rest)))))))"

subsection \<open>What a configuration makes\<close>

definition GenAccount :: "Config \<Rightarrow> Account" where
  "GenAccount c =
     (if cf_StsToken c = [] then AccAliyun (NewAliyunAccount (cf_AccessId c) (cf_AccessKey c) [])
      else NewStsAccount (cf_AccessId c) (cf_AccessKey c) (cf_StsToken c) [])"

text \<open>
  A client over the transport of \<open>base\<close> that signs with the account; \<open>corporation\<close> and the current date are those
  of the signing.
\<close>

definition account_client :: "string \<Rightarrow> string \<Rightarrow> 'e RestClient \<Rightarrow> Account \<Rightarrow> string \<Rightarrow> 'e RestClient" where
  "account_client corporation date base account endpoint =
     NewOdpsRestClient (base\<lparr>rc_SignRequest := SignRequest corporation date account\<rparr>) endpoint"

definition GenRestClient :: "string \<Rightarrow> string \<Rightarrow> 'e RestClient \<Rightarrow> Config \<Rightarrow> 'e RestClient" where
  "GenRestClient corporation date base c =
     (account_client corporation date base (GenAccount c) (cf_Endpoint c))
       \<lparr>rc_TcpConnectionTimeout := cf_TcpConnectionTimeout c, rc_HttpTimeout := cf_HttpTimeout c\<rparr>"

definition NewOdps :: "string \<Rightarrow> string \<Rightarrow> 'e Odps \<Rightarrow> Account \<Rightarrow> string \<Rightarrow> 'e Odps" where
  "NewOdps corporation date base account endpoint =
     base\<lparr>od_defaultProject := [], od_currentSchema := [],
          od_restClient := account_client corporation date (od_restClient base) account endpoint\<rparr>"

definition GenOdps :: "string \<Rightarrow> string \<Rightarrow> 'e Odps \<Rightarrow> Config \<Rightarrow> 'e Odps" where
  "GenOdps corporation date base c =
     SetDefaultProjectName (cf_ProjectName c) (SetHttpTimeout (cf_HttpTimeout c) (SetTcpConnectTimeout (cf_TcpConnectionTimeout c)
       (NewOdps corporation date base (GenAccount c) (cf_Endpoint c))))"

subsection \<open>Formatting and parsing\<close>

definition set_all :: "(string \<times> string) list option \<Rightarrow> url_values \<Rightarrow> url_values" where
  "set_all m q = (case m of None \<Rightarrow> q | Some kvs \<Rightarrow> fold (\<lambda>(k, v). uv_Set k v) kvs q)"

definition set_when :: "bool \<Rightarrow> string \<Rightarrow> string \<Rightarrow> url_values \<Rightarrow> url_values" where
  "set_when b k v q = (if b then uv_Set k v q else q)"

definition dsn_values :: "Config \<Rightarrow> url_values" where
  "dsn_values c =
     set_all (cf_Others c) (set_all (cf_Hints c)
       (set_when (cf_TunnelEndpoint c \<noteq> []) ''tunnelEndpoint'' (cf_TunnelEndpoint c)
       (set_when (cf_TunnelQuotaName c \<noteq> []) ''tunnelQuotaName'' (cf_TunnelQuotaName c)
       (set_when (cf_TcpConnectionTimeout c > 0) ''tcpConnectionTimeout'' (Itoa (cf_TcpConnectionTimeout c sdiv Second))
       (set_when (cf_HttpTimeout c > 0) ''httpTimeout'' (Itoa (cf_HttpTimeout c sdiv Second))
       (set_when (cf_StsToken c \<noteq> []) ''stsToken'' (cf_StsToken c)
       (uv_Set ''project'' (cf_ProjectName c) [])))))))"

definition FormatDsn :: "Config \<Rightarrow> string outcome" where
  "FormatDsn c =
     (case url_Parse (cf_Endpoint c) of
        Ret u \<Rightarrow> Ret (URL_String \<lparr>url_Scheme = url_Scheme u, url_User = Some (cf_AccessId c, Some (cf_AccessKey c)),
                   url_Host = url_Host u, url_Path = url_Path u, url_RawQuery = Values_Encode (dsn_values c)\<rparr>)
      | _ \<Rightarrow> Panic NilDereference)"

definition or_env :: "(string \<Rightarrow> string) \<Rightarrow> string \<Rightarrow> string \<Rightarrow> string" where
  "or_env env name v = (if v = [] then env name else v)"

definition ParseDSN :: "(string \<Rightarrow> string) \<Rightarrow> string \<Rightarrow> Config outcome" where
  "ParseDSN env dsn =
     obind (url_Parse dsn) (\<lambda>u.
     let (user, password) = (case url_User u of None \<Rightarrow> ([], []) | Some (n, p) \<Rightarrow> (n, case p of None \<Rightarrow> [] | Some q \<Rightarrow> q));
         accessId = or_env env ''ALIBABA_CLOUD_ACCESS_KEY_ID'' user;
         accessKey = or_env env ''ALIBABA_CLOUD_ACCESS_KEY_SECRET'' password;
         q = ParseQuery (url_RawQuery u) in
     if accessId = [] then Fail (ErrMsg ''AccessId is not set'')
     else if accessKey = [] then Fail (ErrMsg ''AccessKey is not set'')
     else if uv_Get q ''project'' = [] then Fail (ErrMsg ''project name is not set'')
     else
       let q1 = fold uv_Del [''project'', ''stsToken'', ''tcpConnectionTimeout'', ''httpTimeout'', ''tunnelEndpoint'', ''tunnelQuotaName''] q;
           logview = uv_Get q1 ''enableLogview'';
           q2 = (if logview = [] then q1 else uv_Del ''enableLogview'' q1)
       in Ret (NewConfig\<lparr>cf_AccessId := accessId, cf_AccessKey := accessKey,
            cf_Endpoint := URL_String \<lparr>url_Scheme = url_Scheme u, url_User = None, url_Host = url_Host u, url_Path = url_Path u,
              url_RawQuery = []\<rparr>,
            cf_ProjectName := uv_Get q ''project'',
            cf_StsToken := or_env env ''ALIBABA_CLOUD_SECURITY_TOKEN'' (uv_Get q ''stsToken''),
            cf_TcpConnectionTimeout := seconds_or (30 * Second) (uv_Get q ''tcpConnectionTimeout''),
            cf_HttpTimeout := seconds_or 0 (uv_Get q ''httpTimeout''),
            cf_TunnelEndpoint := uv_Get q ''tunnelEndpoint'', cf_TunnelQuotaName := uv_Get q ''tunnelQuotaName'',
            cf_Others := Some (if logview = [] then [] else [(''enableLogview'', logview)]),
            cf_Hints := Some (map (\<lambda>(k, vs). (k, hd vs)) q2)\<rparr>))"

subsection \<open>A formatted configuration is parsed back\<close>

definition reserved_keys :: "string list" where
  "reserved_keys = [''project'', ''stsToken'', ''tcpConnectionTimeout'', ''httpTimeout'', ''tunnelEndpoint'', ''tunnelQuotaName'']"

text \<open>
  The configurations a data source name can express: an endpoint of scheme, host and path, timeouts of whole
  seconds, hints beside the names the format reserves, and no other parameter than \<open>enableLogview\<close>.
\<close>

definition seconds_ok :: "int \<Rightarrow> bool" where
  "seconds_ok d \<longleftrightarrow> d mod Second = 0 \<and> 0 < d \<and> d < 2 ^ 31 * Second"

definition config_ok :: "URL \<Rightarrow> Config \<Rightarrow> bool" where
  "config_ok ep c \<longleftrightarrow>
     url_ok ep \<and> url_User ep = None \<and> url_RawQuery ep = [] \<and> cf_Endpoint c = URL_String ep \<and>
     cf_AccessId c \<noteq> [] \<and> cf_AccessKey c \<noteq> [] \<and> cf_ProjectName c \<noteq> [] \<and>
     seconds_ok (cf_TcpConnectionTimeout c) \<and> (cf_HttpTimeout c = 0 \<or> seconds_ok (cf_HttpTimeout c)) \<and>
     (case cf_Hints c of None \<Rightarrow> False | Some h \<Rightarrow>
        distinct (map fst h) \<and> list_all (\<lambda>k. k \<notin> set reserved_keys \<and> k \<noteq> ''enableLogview'') (map fst h)) \<and>
     (case cf_Others c of None \<Rightarrow> False | Some m \<Rightarrow> m = [] \<or> (\<exists>v. v \<noteq> [] \<and> m = [(''enableLogview'', v)]))"

lemma map_of_uv_Set: "map_of (uv_Set k v q) j = (if j = k then Some [v] else map_of q j)"
  by (simp add: uv_Set_def update_conv')

lemma map_of_set_when: "map_of (set_when b k v q) j = (if j = k \<and> b then Some [v] else map_of q j)"
  by (simp add: set_when_def map_of_uv_Set)

lemma map_of_set_all:
  "distinct (map fst m) \<Longrightarrow>
     map_of (set_all (Some m) q) j = (case map_of m j of None \<Rightarrow> map_of q j | Some v \<Rightarrow> Some [v])"
  unfolding set_all_def option.case
proof (induction m arbitrary: q)
  case (Cons kv m)
  obtain k v where kv: "kv = (k, v)" by (cases kv)
  have "map_of m k = None" using Cons.prems by (simp add: kv map_of_eq_None_iff)
  then show ?case using Cons by (auto simp: kv map_of_uv_Set split: option.splits)
qed simp

definition uv_wf :: "url_values \<Rightarrow> bool" where
  "uv_wf q \<longleftrightarrow> distinct (map fst q) \<and> list_all (\<lambda>kv. snd kv \<noteq> []) q"

lemma uv_wf_Set: "uv_wf q \<Longrightarrow> uv_wf (uv_Set k v q)"
proof -
  have "list_all (\<lambda>kv. snd kv \<noteq> []) q \<Longrightarrow> list_all (\<lambda>kv. snd kv \<noteq> []) (AList.update k [v] q)" by (induction q) auto
  then show "uv_wf q \<Longrightarrow> uv_wf (uv_Set k v q)" using distinct_update [of q k "[v]"] by (simp add: uv_wf_def uv_Set_def)
qed

lemma uv_wf_ops: "uv_wf []" "uv_wf q \<Longrightarrow> uv_wf (set_when b k v q)" "uv_wf q \<Longrightarrow> uv_wf (set_all m q)"
proof -
  have "uv_wf q \<Longrightarrow> uv_wf (fold (\<lambda>(k, v). uv_Set k v) kvs q)" for kvs
    by (induction kvs arbitrary: q) (auto simp: uv_wf_Set)
  then show "uv_wf q \<Longrightarrow> uv_wf (set_all m q)" by (simp add: set_all_def split: option.split)
qed (simp_all add: uv_wf_def set_when_def uv_wf_Set [unfolded uv_wf_def])

lemma dsn_values_wf: "uv_wf (dsn_values c)"
  unfolding dsn_values_def by (intro uv_wf_ops uv_wf_Set)

text \<open>What the formatted query holds under a key.\<close>

definition dsn_base :: "Config \<Rightarrow> string \<Rightarrow> string option" where
  "dsn_base c k =
     (if k = ''tunnelEndpoint'' \<and> cf_TunnelEndpoint c \<noteq> [] then Some (cf_TunnelEndpoint c)
      else if k = ''tunnelQuotaName'' \<and> cf_TunnelQuotaName c \<noteq> [] then Some (cf_TunnelQuotaName c)
      else if k = ''tcpConnectionTimeout'' \<and> cf_TcpConnectionTimeout c > 0 then Some (Itoa (cf_TcpConnectionTimeout c sdiv Second))
      else if k = ''httpTimeout'' \<and> cf_HttpTimeout c > 0 then Some (Itoa (cf_HttpTimeout c sdiv Second))
      else if k = ''stsToken'' \<and> cf_StsToken c \<noteq> [] then Some (cf_StsToken c)
      else if k = ''project'' then Some (cf_ProjectName c) else None)"

lemma map_of_dsn_values:
  assumes "cf_Hints c = Some h" "distinct (map fst h)" "cf_Others c = Some m" "distinct (map fst m)"
  shows "map_of (dsn_values c) k = map_option (\<lambda>v. [v])
    (case map_of m k of Some v \<Rightarrow> Some v | None \<Rightarrow> (case map_of h k of Some v \<Rightarrow> Some v | None \<Rightarrow> dsn_base c k))"
  unfolding dsn_values_def assms(1,3) map_of_set_all [OF assms(4)] map_of_set_all [OF assms(2)] map_of_set_when map_of_uv_Set
    dsn_base_def
  by (cases "map_of m k"; cases "map_of h k")
    (simp_all only: option.case option.map map_of.simps if_distrib [of "map_option (\<lambda>v. [v])"])

text \<open>Reading a query that holds the values in the order of its keys.\<close>

lemma uv_Get_sorted: "distinct (map fst q) \<Longrightarrow> uv_Get (sort_key fst q) k = (case map_of q k of Some (v # _) \<Rightarrow> v | _ \<Rightarrow> [])"
  by (simp add: uv_Get_def map_of_sort_key)

lemma map_of_uv_Del: "map_of (uv_Del k q) j = (if j = k then None else map_of q j)"
  by (induction q) (auto simp: uv_Del_def)

lemma map_of_hd_values: "map_of (map (\<lambda>(k, vs). (k, hd vs)) q) j = map_option hd (map_of q j)"
  by (induction q) auto

lemma seconds_roundtrip: "seconds_ok d \<Longrightarrow> seconds_or old (Itoa (d sdiv Second)) = d"
proof -
  assume d: "seconds_ok d"
  then have "d sdiv Second = d div Second" by (simp add: seconds_ok_def sdiv_pos Second_def)
  moreover have "0 \<le> d div Second" "d div Second < 2 ^ 31" "d div Second * Second = d"
    using d by (auto simp: seconds_ok_def Second_def)
  moreover have "Itoa i \<noteq> []" for i by (simp add: Itoa_def)
  ultimately show ?thesis using ParseInt_Itoa [of 32 "d div Second"] by (simp add: seconds_or_def)
qed

lemma map_of_fold_Del: "map_of (fold uv_Del ks q) j = (if j \<in> set ks then None else map_of q j)"
  by (induction ks arbitrary: q) (auto simp: map_of_uv_Del)

lemma dsn_base_at:
  "dsn_base c ''project'' = Some (cf_ProjectName c)"
  "dsn_base c ''stsToken'' = (if cf_StsToken c = [] then None else Some (cf_StsToken c))"
  "dsn_base c ''httpTimeout'' = (if cf_HttpTimeout c > 0 then Some (Itoa (cf_HttpTimeout c sdiv Second)) else None)"
  "dsn_base c ''tcpConnectionTimeout'' =
     (if cf_TcpConnectionTimeout c > 0 then Some (Itoa (cf_TcpConnectionTimeout c sdiv Second)) else None)"
  "dsn_base c ''tunnelQuotaName'' = (if cf_TunnelQuotaName c = [] then None else Some (cf_TunnelQuotaName c))"
  "dsn_base c ''tunnelEndpoint'' = (if cf_TunnelEndpoint c = [] then None else Some (cf_TunnelEndpoint c))"
  by (simp_all add: dsn_base_def)

lemma dsn_base_other: "k \<notin> set reserved_keys \<Longrightarrow> dsn_base c k = None"
  by (simp add: dsn_base_def reserved_keys_def)

text \<open>The parser on a query it knows by its values.\<close>

lemma ParseDSN_query:
  assumes "url_Parse dsn = Ret u" "url_User u = Some (accessId, Some accessKey)" "accessId \<noteq> []" "accessKey \<noteq> []"
    and get: "\<And>k. uv_Get (ParseQuery (url_RawQuery u)) k = (case D k of None \<Rightarrow> [] | Some v \<Rightarrow> v)"
    and vals: "\<And>k. map_of (ParseQuery (url_RawQuery u)) k = map_option (\<lambda>v. [v]) (D k)"
    and project: "D ''project'' = Some p" "p \<noteq> []" and logview: "D ''enableLogview'' \<noteq> Some []"
  shows "\<exists>hints. ParseDSN env dsn = Ret (NewConfig\<lparr>cf_AccessId := accessId, cf_AccessKey := accessKey,
      cf_Endpoint := URL_String (u\<lparr>url_User := None, url_RawQuery := []\<rparr>), cf_ProjectName := p,
      cf_StsToken := or_env env ''ALIBABA_CLOUD_SECURITY_TOKEN'' (case D ''stsToken'' of None \<Rightarrow> [] | Some v \<Rightarrow> v),
      cf_TcpConnectionTimeout := seconds_or (30 * Second) (case D ''tcpConnectionTimeout'' of None \<Rightarrow> [] | Some v \<Rightarrow> v),
      cf_HttpTimeout := seconds_or 0 (case D ''httpTimeout'' of None \<Rightarrow> [] | Some v \<Rightarrow> v),
      cf_TunnelEndpoint := (case D ''tunnelEndpoint'' of None \<Rightarrow> [] | Some v \<Rightarrow> v),
      cf_TunnelQuotaName := (case D ''tunnelQuotaName'' of None \<Rightarrow> [] | Some v \<Rightarrow> v),
      cf_Others := Some (case D ''enableLogview'' of None \<Rightarrow> [] | Some v \<Rightarrow> [(''enableLogview'', v)]), cf_Hints := Some hints\<rparr>) \<and>
    (\<forall>k. map_of hints k = (if k \<in> set reserved_keys \<or> k = ''enableLogview'' then None else D k))"
proof -
  let ?q = "ParseQuery (url_RawQuery u)"
  define q1 where "q1 = fold uv_Del reserved_keys ?q"
  have q1: "map_of q1 k = (if k \<in> set reserved_keys then None else map_option (\<lambda>v. [v]) (D k))" for k
    by (simp add: q1_def map_of_fold_Del vals)
  have lv: "uv_Get q1 ''enableLogview'' = (case D ''enableLogview'' of None \<Rightarrow> [] | Some v \<Rightarrow> v)"
    by (simp add: uv_Get_def q1 reserved_keys_def split: option.split)
  define q2 where "q2 = (if uv_Get q1 ''enableLogview'' = [] then q1 else uv_Del ''enableLogview'' q1)"
  have q2: "map_of q2 k = (if k \<in> set reserved_keys \<or> k = ''enableLogview'' then None else map_option (\<lambda>v. [v]) (D k))" for k
    using lv logview by (auto simp: q2_def q1 map_of_uv_Del split: option.splits)
  have p: "uv_Get ?q ''project'' = p" using get project by simp
  have others: "(if uv_Get q1 ''enableLogview'' = [] then [] else [(''enableLogview'', uv_Get q1 ''enableLogview'')]) =
      (case D ''enableLogview'' of None \<Rightarrow> [] | Some v \<Rightarrow> [(''enableLogview'', v)])"
    using lv logview by (auto split: option.splits)
  have "map_of (map (\<lambda>(k, vs). (k, hd vs)) q2) k = (if k \<in> set reserved_keys \<or> k = ''enableLogview'' then None else D k)" for k
    by (simp add: map_of_hd_values q2 option.map_comp comp_def option.map_ident)
  moreover have "URL_String (u\<lparr>url_User := None, url_RawQuery := []\<rparr>) =
      URL_String \<lparr>url_Scheme = url_Scheme u, url_User = None, url_Host = url_Host u, url_Path = url_Path u, url_RawQuery = []\<rparr>"
    by (cases u) simp
  ultimately show ?thesis
    unfolding ParseDSN_def assms(1) obind.simps assms(2) option.case prod.case Let_def q1_def [unfolded reserved_keys_def, symmetric]
      q2_def [symmetric] p others get [of "''stsToken''"] get [of "''tcpConnectionTimeout''"] get [of "''httpTimeout''"]
      get [of "''tunnelEndpoint''"] get [of "''tunnelQuotaName''"]
    using assms(3,4) project(2) by (auto simp: or_env_def)
qed

text \<open>What a configuration that can be expressed stores under a key.\<close>

definition dsn_lookup :: "Config \<Rightarrow> string \<Rightarrow> string option" where
  "dsn_lookup c k = (case map_of (the (cf_Others c)) k of Some v \<Rightarrow> Some v
     | None \<Rightarrow> (case map_of (the (cf_Hints c)) k of Some v \<Rightarrow> Some v | None \<Rightarrow> dsn_base c k))"

lemma dsn_lookup:
  assumes "config_ok ep c"
  shows "map_of (dsn_values c) k = map_option (\<lambda>v. [v]) (dsn_lookup c k)"
    and "k \<in> set reserved_keys \<Longrightarrow> dsn_lookup c k = dsn_base c k"
    and "map_of (the (cf_Hints c)) k = (if k \<in> set reserved_keys \<or> k = ''enableLogview'' then None else dsn_lookup c k)"
    and "cf_Others c = Some (case dsn_lookup c ''enableLogview'' of None \<Rightarrow> [] | Some v \<Rightarrow> [(''enableLogview'', v)])"
    and "dsn_lookup c ''enableLogview'' \<noteq> Some []"
proof -
  obtain h m where h: "cf_Hints c = Some h" "distinct (map fst h)"
      "list_all (\<lambda>k. k \<notin> set reserved_keys \<and> k \<noteq> ''enableLogview'') (map fst h)"
    and m: "cf_Others c = Some m" "m = [] \<or> (\<exists>v. v \<noteq> [] \<and> m = [(''enableLogview'', v)])"
    using assms by (auto simp: config_ok_def split: option.splits)
  have dm: "distinct (map fst m)" using m(2) by auto
  have L: "dsn_lookup c j = (case map_of m j of Some v \<Rightarrow> Some v
      | None \<Rightarrow> (case map_of h j of Some v \<Rightarrow> Some v | None \<Rightarrow> dsn_base c j))" for j
    by (simp only: dsn_lookup_def h(1) m(1) option.sel)
  show "map_of (dsn_values c) k = map_option (\<lambda>v. [v]) (dsn_lookup c k)"
    unfolding L by (rule map_of_dsn_values [OF h(1,2) m(1) dm])
  have hk: "map_of h j = None" if "j \<in> set reserved_keys \<or> j = ''enableLogview''" for j
    using that h(3) by (auto simp: map_of_eq_None_iff list_all_iff)
  have mk: "map_of m j = None" if "j \<noteq> ''enableLogview''" for j using that m(2) by auto
  have el: "''enableLogview'' \<notin> set reserved_keys" by (simp add: reserved_keys_def)
  show "dsn_lookup c k = dsn_base c k" if "k \<in> set reserved_keys"
    using that el hk [of k] mk [of k] by (cases "k = ''enableLogview''") (simp_all add: L)
  show "map_of (the (cf_Hints c)) k = (if k \<in> set reserved_keys \<or> k = ''enableLogview'' then None else dsn_lookup c k)"
    using hk [of k] mk [of k] dsn_base_other [of k] by (auto simp: L h(1) split: option.split)
  have "dsn_lookup c ''enableLogview'' = map_of m ''enableLogview''"
    using hk [of "''enableLogview''"] dsn_base_other [OF el] by (simp add: L split: option.split)
  then show "cf_Others c = Some (case dsn_lookup c ''enableLogview'' of None \<Rightarrow> [] | Some v \<Rightarrow> [(''enableLogview'', v)])"
    and "dsn_lookup c ''enableLogview'' \<noteq> Some []"
    using m by auto
qed

lemma dsn_timeouts:
  assumes "config_ok ep c"
  shows "seconds_or (30 * Second) (case dsn_base c ''tcpConnectionTimeout'' of None \<Rightarrow> [] | Some v \<Rightarrow> v) = cf_TcpConnectionTimeout c"
    and "seconds_or 0 (case dsn_base c ''httpTimeout'' of None \<Rightarrow> [] | Some v \<Rightarrow> v) = cf_HttpTimeout c"
  using assms seconds_roundtrip by (auto simp: config_ok_def dsn_base_at seconds_ok_def) (simp_all add: seconds_or_def)

text \<open>The URL of a formatted configuration.\<close>

lemma dsn_url:
  assumes "config_ok ep c"
  defines "u \<equiv> ep\<lparr>url_User := Some (cf_AccessId c, Some (cf_AccessKey c)), url_RawQuery := Values_Encode (dsn_values c)\<rparr>"
  shows "FormatDsn c = Ret (URL_String u)" "url_Parse (URL_String u) = Ret u"
proof -
  have ep: "url_ok ep" "cf_AccessId c \<noteq> []" "cf_Endpoint c = URL_String ep" using assms(1) by (simp_all add: config_ok_def)
  have "list_all (\<lambda>c. c \<noteq> CHR ''#'' \<and> \<not> is_ctl c) (Values_Encode (dsn_values c))"
    unfolding list_all_iff using set_Encode escaped_char_not_ctl not_escaped_char(12) [of EncodeQueryComponent]
    by (fastforce simp: is_ctl_def)
  then have "url_ok u" using ep(1,2) by (simp add: u_def url_ok_def)
  then show "url_Parse (URL_String u) = Ret u" by (rule url_Parse_String)
  have "\<lparr>url_Scheme = url_Scheme ep, url_User = Some (cf_AccessId c, Some (cf_AccessKey c)), url_Host = url_Host ep,
      url_Path = url_Path ep, url_RawQuery = Values_Encode (dsn_values c)\<rparr> = u"
    by (cases ep) (simp add: u_def)
  then show "FormatDsn c = Ret (URL_String u)" by (simp add: FormatDsn_def ep(3) url_Parse_String [OF ep(1)])
qed

text \<open>
  C12. What \<open>FormatDsn\<close> writes, \<open>ParseDSN\<close> reads: a configuration comes back from its data source name, whatever characters its keys,
  names and values have, its hints as the same map. It has an endpoint of scheme, host and path, both keys and a project; a TCP timeout
  of whole seconds above 0, since 0 comes back as the default, and an HTTP timeout of whole seconds or 0; hints under names of their own;
  among the other settings \<^verbatim>\<open>enableLogview\<close> with a value, or none; and a security token, unless the environment has none either, since
  an empty one is taken from there.
\<close>

theorem ParseDSN_FormatDsn:
  assumes "config_ok ep c" and "cf_StsToken c \<noteq> [] \<or> env ''ALIBABA_CLOUD_SECURITY_TOKEN'' = []"
  shows "\<exists>dsn hints. FormatDsn c = Ret dsn \<and> ParseDSN env dsn = Ret (c\<lparr>cf_Hints := Some hints\<rparr>) \<and>
    map_of hints = map_of (the (cf_Hints c))"
proof -
  define u where "u = ep\<lparr>url_User := Some (cf_AccessId c, Some (cf_AccessKey c)), url_RawQuery := Values_Encode (dsn_values c)\<rparr>"
  note url = dsn_url [OF assms(1), folded u_def] and D = dsn_lookup [OF assms(1)]
  have wf: "distinct (map fst (dsn_values c))" "\<forall>kv \<in> set (dsn_values c). snd kv \<noteq> []"
    using dsn_values_wf [of c] by (auto simp: uv_wf_def list_all_iff)
  have parsed: "ParseQuery (url_RawQuery u) = sort_key fst (dsn_values c)" by (simp add: u_def ParseQuery_Encode [OF wf])
  have vals: "map_of (ParseQuery (url_RawQuery u)) k = map_option (\<lambda>v. [v]) (dsn_lookup c k)" for k
    unfolding parsed map_of_sort_key [OF wf(1)] by (rule D(1))
  then have get: "uv_Get (ParseQuery (url_RawQuery u)) k = (case dsn_lookup c k of None \<Rightarrow> [] | Some v \<Rightarrow> v)" for k
    by (simp add: uv_Get_def split: option.split)
  have D_at: "dsn_lookup c ''project'' = dsn_base c ''project''" "dsn_lookup c ''stsToken'' = dsn_base c ''stsToken''"
    "dsn_lookup c ''tcpConnectionTimeout'' = dsn_base c ''tcpConnectionTimeout''" "dsn_lookup c ''httpTimeout'' = dsn_base c ''httpTimeout''"
    "dsn_lookup c ''tunnelEndpoint'' = dsn_base c ''tunnelEndpoint''" "dsn_lookup c ''tunnelQuotaName'' = dsn_base c ''tunnelQuotaName''"
    by (simp_all add: D(2) reserved_keys_def)
  have user: "url_User u = Some (cf_AccessId c, Some (cf_AccessKey c))" "cf_AccessId c \<noteq> []" "cf_AccessKey c \<noteq> []"
    "dsn_lookup c ''project'' = Some (cf_ProjectName c)" "cf_ProjectName c \<noteq> []"
    "URL_String (u\<lparr>url_User := None, url_RawQuery := []\<rparr>) = cf_Endpoint c"
    using assms(1) by (cases ep; simp add: u_def config_ok_def D_at dsn_base_at)+
  obtain hints where p: "ParseDSN env (URL_String u) = Ret (NewConfig\<lparr>cf_AccessId := cf_AccessId c, cf_AccessKey := cf_AccessKey c,
      cf_Endpoint := cf_Endpoint c, cf_ProjectName := cf_ProjectName c,
      cf_StsToken := or_env env ''ALIBABA_CLOUD_SECURITY_TOKEN'' (case dsn_base c ''stsToken'' of None \<Rightarrow> [] | Some v \<Rightarrow> v),
      cf_TcpConnectionTimeout := cf_TcpConnectionTimeout c, cf_HttpTimeout := cf_HttpTimeout c,
      cf_TunnelEndpoint := (case dsn_base c ''tunnelEndpoint'' of None \<Rightarrow> [] | Some v \<Rightarrow> v),
      cf_TunnelQuotaName := (case dsn_base c ''tunnelQuotaName'' of None \<Rightarrow> [] | Some v \<Rightarrow> v),
      cf_Others := cf_Others c, cf_Hints := Some hints\<rparr>)"
    and hints: "\<And>k. map_of hints k = (if k \<in> set reserved_keys \<or> k = ''enableLogview'' then None else dsn_lookup c k)"
    using ParseDSN_query [OF url(2) user(1-3) get vals user(4,5) D(5), of env]
    unfolding D_at user(6) dsn_timeouts [OF assms(1)] D(4) [symmetric] by blast
  have "map_of hints = map_of (the (cf_Hints c))" by (rule ext) (simp only: hints D(3))
  then show ?thesis
    using url(1) p assms(2) by (intro exI [of _ "URL_String u"] exI [of _ hints]) (cases c; auto simp: dsn_base_at or_env_def NewConfig_def)
qed

definition example_endpoint :: URL where
  "example_endpoint = \<lparr>url_Scheme = ''http'', url_User = None, url_Host = ''h.com:80'', url_Path = ''/a b'', url_RawQuery = []\<rparr>"

definition example_config :: Config where
  "example_config = NewConfig\<lparr>cf_AccessId := ''id'', cf_AccessKey := ''k:/@'', cf_Endpoint := URL_String example_endpoint,
     cf_ProjectName := ''p&q'', cf_HttpTimeout := 5 * Second, cf_Hints := Some [(''b'', ''=1''), (''a'', [])],
     cf_Others := Some [(''enableLogview'', ''true'')]\<rparr>"

lemma example_config_ok: "config_ok example_endpoint example_config"
proof -
  have "url_ok example_endpoint" by code_simp
  then show ?thesis
    by (simp add: config_ok_def example_config_def NewConfig_def seconds_ok_def Second_def reserved_keys_def)
      (simp add: example_endpoint_def)
qed

theorem ParseDSN_FormatDsn_witness:
  "\<exists>dsn hints. FormatDsn example_config = Ret dsn \<and>
     ParseDSN (\<lambda>_. []) dsn = Ret (example_config\<lparr>cf_Hints := Some hints\<rparr>) \<and> map_of hints ''b'' = Some ''=1''"
proof -
  have "map_of (the (cf_Hints example_config)) ''b'' = Some ''=1''" by (simp add: example_config_def)
  moreover obtain dsn hints where "FormatDsn example_config = Ret dsn"
    "ParseDSN (\<lambda>_. []) dsn = Ret (example_config\<lparr>cf_Hints := Some hints\<rparr>)"
    "map_of hints = map_of (the (cf_Hints example_config))"
    using ParseDSN_FormatDsn [OF example_config_ok, of "\<lambda>_. []"] by auto
  ultimately show ?thesis by metis
qed

text \<open>
  The two ways in which a name can say something else: no connection timeout comes back as the default one, and a hint
  under a reserved name takes the place of the setting itself.
\<close>

lemma dsn_drops_zero_timeout: "cf_TcpConnectionTimeout c \<le> 0 \<Longrightarrow> dsn_base c ''tcpConnectionTimeout'' = None"
  by (simp add: dsn_base_at)

lemma hint_overrides_project:
  assumes "cf_Hints c = Some h" "distinct (map fst h)" "cf_Others c = Some []" "map_of h ''project'' = Some p"
  shows "map_of (dsn_values c) ''project'' = Some [p]"
  using map_of_dsn_values [OF assms(1,2,3)] assms(4) by simp

end
