(* ===== verification/Tunnels.thy ===== *)
theory Tunnels
  imports Projects
begin

section \<open>Tunnels\<close>

text \<open>
  Models \<open>odps/tunnel/tunnel.go\<close> but for \<open>Preview\<close>. A tunnel keeps the endpoint it has been given or has asked a
  project for; every session it makes gets a client for this endpoint. Its methods work on the tunnel and the environment.
\<close>

record 'e Tunnel =
  tn_odpsIns :: "'e Odps"
  tn_endpoint :: string
  tn_quotaName :: string
  tn_httpTimeout :: int
  tn_tcpConnectionTimeout :: int
  tn_odpsUserAgent :: string

definition NewTunnel :: "'e Odps \<Rightarrow> string list \<Rightarrow> 'e Tunnel" where
  "NewTunnel od endpoint =
     \<lparr>tn_odpsIns = od, tn_endpoint = (case endpoint of [] \<Rightarrow> [] | e # _ \<Rightarrow> e), tn_quotaName = [], tn_httpTimeout = 0,
      tn_tcpConnectionTimeout = 0, tn_odpsUserAgent = []\<rparr>"

definition NewTunnelFromProject :: "'e Odps \<Rightarrow> Project \<Rightarrow> ('e, 'e Tunnel) M" where
  "NewTunnelFromProject od project =
     mbind (GetTunnelEndpoint od [] project) (\<lambda>endpoint. mret (NewTunnel od [endpoint]))"

definition DefaultTcpConnectionTimeout :: int where "DefaultTcpConnectionTimeout = 10 * Second"

definition tn_TcpConnectionTimeout :: "'e Tunnel \<Rightarrow> int" where
  "tn_TcpConnectionTimeout t =
     (if tn_tcpConnectionTimeout t = 0 then DefaultTcpConnectionTimeout else tn_tcpConnectionTimeout t)"

definition SetQuotaName :: "string \<Rightarrow> 'e Tunnel \<Rightarrow> 'e Tunnel" where
  "SetQuotaName quotaName t = t\<lparr>tn_quotaName := quotaName\<rparr>"

definition getRestClient :: "string \<Rightarrow> ('e Tunnel \<times> 'e, 'e RestClient) M" where
  "getRestClient projectName =
     mbind (mget fst) (\<lambda>t.
     mseq (if tn_endpoint t \<noteq> [] then mret ()
           else mbind (on_env (\<lambda>_. od_restClient (tn_odpsIns t))
                  (GetTunnelEndpoint (tn_odpsIns t) [tn_quotaName t] (NewProject projectName))) (\<lambda>endpoint.
                on_session (tn_endpoint_update (\<lambda>_. endpoint))))
     (mget (\<lambda>(t, _). SetUserAgent (tn_odpsUserAgent t)
        ((NewOdpsRestClient (od_restClient (tn_odpsIns t)) (tn_endpoint t))
           \<lparr>rc_HttpTimeout := tn_httpTimeout t, rc_TcpConnectionTimeout := tn_TcpConnectionTimeout t\<rparr>))))"

text \<open>A session made with the client of the tunnel and its quota.\<close>

definition with_client ::
    "string \<Rightarrow> ('e Tunnel \<Rightarrow> 'e RestClient \<Rightarrow> 'e \<Rightarrow> 's outcome \<times> 'e) \<Rightarrow> ('e Tunnel \<times> 'e, 's) M" where
  "with_client projectName mk =
     mbind (getRestClient projectName) (\<lambda>client.
     mbind (mget fst) (\<lambda>t. on_env (\<lambda>_. client) (mk t client)))"

definition tn_CreateUploadSession :: "string \<Rightarrow> string \<Rightarrow> Option list \<Rightarrow> ('e Tunnel \<times> 'e, 'e UploadSession) M" where
  "tn_CreateUploadSession projectName tableName opts =
     with_client projectName (\<lambda>t client. CreateUploadSession projectName tableName (tn_quotaName t) client opts)"

definition tn_CreateStreamUploadSession ::
    "('e \<Rightarrow> nat) \<Rightarrow> string \<Rightarrow> string \<Rightarrow> Option list \<Rightarrow> ('e Tunnel \<times> 'e, 'e StreamUploadSession) M" where
  "tn_CreateStreamUploadSession rnd projectName tableName opts =
     with_client projectName (\<lambda>t client. CreateStreamUploadSession rnd projectName tableName client opts)"

definition tn_AttachToExistedUploadSession ::
    "string \<Rightarrow> string \<Rightarrow> string \<Rightarrow> Option list \<Rightarrow> ('e Tunnel \<times> 'e, 'e UploadSession) M" where
  "tn_AttachToExistedUploadSession projectName tableName sessionId opts =
     with_client projectName (\<lambda>t client. AttachToExistedUploadSession sessionId projectName tableName client opts)"

definition tn_CreateDownloadSession :: "string \<Rightarrow> string \<Rightarrow> Option list \<Rightarrow> ('e Tunnel \<times> 'e, 'e DownloadSession) M" where
  "tn_CreateDownloadSession projectName tableName opts =
     with_client projectName (\<lambda>t client. CreateDownloadSession projectName tableName (tn_quotaName t) client opts)"

definition tn_AttachToExistedDownloadSession ::
    "string \<Rightarrow> string \<Rightarrow> string \<Rightarrow> Option list \<Rightarrow> ('e Tunnel \<times> 'e, 'e DownloadSession) M" where
  "tn_AttachToExistedDownloadSession projectName tableName sessionId opts =
     with_client projectName (\<lambda>t client. AttachToExistedDownloadSession sessionId projectName tableName client opts)"

definition tn_CreateInstanceResultDownloadSession ::
    "string \<Rightarrow> string \<Rightarrow> InstanceOption list \<Rightarrow> ('e Tunnel \<times> 'e, 'e InstanceResultDownloadSession) M" where
  "tn_CreateInstanceResultDownloadSession projectName instanceId opts =
     with_client projectName (\<lambda>t client. CreateInstanceResultDownloadSession projectName instanceId (tn_quotaName t) client opts)"

subsection \<open>One endpoint for ever\<close>

lemma GetTunnelEndpoint_not_empty: "GetTunnelEndpoint od q p e = (Ret ep, e') \<Longrightarrow> ep \<noteq> []"
  by (auto simp: GetTunnelEndpoint_def mbind_Ret_iff mret_def)

lemma getRestClient_frame:
  assumes "getRestClient p (t, e) = (r, (t', e'))"
  shows "\<exists>ep. t' = t\<lparr>tn_endpoint := ep\<rparr> \<and> (tn_endpoint t \<noteq> [] \<longrightarrow> ep = tn_endpoint t)"
proof -
  have keep: "t = t\<lparr>tn_endpoint := tn_endpoint t\<rparr>" by simp
  show ?thesis
  proof (cases "tn_endpoint t = []")
    case False
    then have "t' = t" using assms by (simp add: getRestClient_def mbind_def mseq_def mget_def mret_def)
    then show ?thesis using keep by metis
  next
    case True
    obtain r0 e0 where "GetTunnelEndpoint (tn_odpsIns t) [tn_quotaName t] (NewProject p) e = (r0, e0)" by (meson surj_pair)
    then have "t' = t \<or> (\<exists>ep. t' = t\<lparr>tn_endpoint := ep\<rparr>)"
      using assms True
      by (cases r0) (auto simp: getRestClient_def mbind_def mseq_def mget_def mret_def on_env_def on_session_def)
    then show ?thesis using True keep by metis
  qed
qed

lemma getRestClient_known:
  "tn_endpoint t \<noteq> [] \<Longrightarrow> getRestClient p (t, e) = (Ret (SetUserAgent (tn_odpsUserAgent t)
     ((NewOdpsRestClient (od_restClient (tn_odpsIns t)) (tn_endpoint t))
        \<lparr>rc_HttpTimeout := tn_httpTimeout t, rc_TcpConnectionTimeout := tn_TcpConnectionTimeout t\<rparr>)), (t, e))"
  by (simp add: getRestClient_def run_simps)

lemma with_client_frame:
  assumes "with_client p mk (t, e) = (r, (t', e'))"
  shows "\<exists>ep. t' = t\<lparr>tn_endpoint := ep\<rparr> \<and> (tn_endpoint t \<noteq> [] \<longrightarrow> ep = tn_endpoint t)"
proof -
  obtain r0 t0 e0 where g: "getRestClient p (t, e) = (r0, (t0, e0))" by (metis prod.collapse)
  then have "t' = t0"
    using assms by (cases r0) (auto simp: with_client_def mbind_def mget_def on_env_def split: prod.splits)
  with getRestClient_frame [OF g] show ?thesis by simp
qed

text \<open>
  The calls that a program makes on a tunnel, in any order, with any outcome.
\<close>

inductive tunnel_step :: "'e Tunnel \<times> 'e \<Rightarrow> 'e Tunnel \<times> 'e \<Rightarrow> bool" where
  upload: "tn_CreateUploadSession p tab opts s = (r, s') \<Longrightarrow> tunnel_step s s'"
| stream_upload: "tn_CreateStreamUploadSession rnd p tab opts s = (r, s') \<Longrightarrow> tunnel_step s s'"
| attach_upload: "tn_AttachToExistedUploadSession p tab i opts s = (r, s') \<Longrightarrow> tunnel_step s s'"
| download: "tn_CreateDownloadSession p tab opts s = (r, s') \<Longrightarrow> tunnel_step s s'"
| attach_download: "tn_AttachToExistedDownloadSession p tab i opts s = (r, s') \<Longrightarrow> tunnel_step s s'"
| instance_result: "tn_CreateInstanceResultDownloadSession p i iopts s = (r, s') \<Longrightarrow> tunnel_step s s'"
| quota: "tunnel_step (t, e) (SetQuotaName q t, e)"
| others: "tunnel_step (t, e) (t, e')"

lemma tunnel_step_frame:
  assumes "tunnel_step (t, e) (t', e')"
  shows "tn_odpsIns t' = tn_odpsIns t \<and> (tn_endpoint t \<noteq> [] \<longrightarrow> tn_endpoint t' = tn_endpoint t)"
proof -
  have frame: "tn_odpsIns t' = tn_odpsIns t \<and> (tn_endpoint t \<noteq> [] \<longrightarrow> tn_endpoint t' = tn_endpoint t)"
    if "with_client p mk (t, e) = (r, (t', e'))" for p and mk :: "'a Tunnel \<Rightarrow> 'a RestClient \<Rightarrow> 'a \<Rightarrow> 's outcome \<times> 'a" and r
    using with_client_frame [OF that] by auto
  from assms show ?thesis
    by cases (auto simp: tn_CreateUploadSession_def tn_CreateStreamUploadSession_def tn_AttachToExistedUploadSession_def
      tn_CreateDownloadSession_def tn_AttachToExistedDownloadSession_def tn_CreateInstanceResultDownloadSession_def
      SetQuotaName_def dest: frame)
qed

lemma tunnel_steps_frame:
  "tunnel_step\<^sup>*\<^sup>* s s' \<Longrightarrow> tn_odpsIns (fst s') = tn_odpsIns (fst s) \<and>
     (tn_endpoint (fst s) \<noteq> [] \<longrightarrow> tn_endpoint (fst s') = tn_endpoint (fst s))"
proof (induction rule: rtranclp_induct)
  case (step s1 s2)
  then show ?case using tunnel_step_frame [of "fst s1" "snd s1" "fst s2" "snd s2"] by simp
qed simp

text \<open>
  C20. Once a tunnel has an endpoint, given or asked for, no sequence of calls changes it: every client it hands to
  a session from then on is for this endpoint and comes without a request, whatever the project of
  the session and whatever quota has been set in between.
\<close>

theorem tunnel_one_endpoint:
  assumes "getRestClient p s0 = (Ret c, s1)" and "tunnel_step\<^sup>*\<^sup>* s1 s2"
  shows "rc_endpoint c \<noteq> [] \<and> (\<exists>c'. getRestClient p' s2 = (Ret c', s2) \<and> rc_endpoint c' = rc_endpoint c)"
proof -
  obtain t0 e0 t1 e1 t2 e2 where s: "s0 = (t0, e0)" "s1 = (t1, e1)" "s2 = (t2, e2)" by (metis prod.collapse)
  have c: "rc_endpoint c = tn_endpoint t1 \<and> tn_endpoint t1 \<noteq> []"
  proof (cases "tn_endpoint t0 = []")
    case True
    obtain ep where "GetTunnelEndpoint (tn_odpsIns t0) [tn_quotaName t0] (NewProject p) e0 = (Ret ep, e1)" "t1 = t0\<lparr>tn_endpoint := ep\<rparr>"
      "rc_endpoint c = ep"
      using assms(1) True s
      by (auto simp: getRestClient_def mbind_Ret_iff mseq_Ret_iff mget_def on_env_def on_session_def SetUserAgent_def
          NewOdpsRestClient_def split: prod.splits)
    then show ?thesis using GetTunnelEndpoint_not_empty by fastforce
  next
    case False
    then show ?thesis using assms(1) s getRestClient_known [of t0 p e0]
      by (auto simp: SetUserAgent_def NewOdpsRestClient_def)
  qed
  moreover have "tn_endpoint t2 = tn_endpoint t1" using tunnel_steps_frame [OF assms(2)] s c by simp
  ultimately show ?thesis
    using getRestClient_known [of t2 p' e2] s by (auto simp: SetUserAgent_def NewOdpsRestClient_def)
qed


theorem tunnel_one_endpoint_witness:
  "\<exists>c. getRestClient ''q'' (SetQuotaName ''fast'' (NewTunnel (example_od (\<lambda>n. Ret conflict)) [''http://dt'']), 7) =
     (Ret c, (SetQuotaName ''fast'' (NewTunnel (example_od (\<lambda>n. Ret conflict)) [''http://dt'']), 7)) \<and> rc_endpoint c = ''http://dt''"
proof -
  let ?t = "NewTunnel (example_od (\<lambda>n. Ret conflict)) [''http://dt'']"
  obtain c where c: "getRestClient ''p'' (?t, 7) = (Ret c, (?t, 7))" "rc_endpoint c = ''http://dt''"
    using getRestClient_known [of ?t "''p''" 7] by (auto simp: NewTunnel_def SetUserAgent_def NewOdpsRestClient_def)
  have "tunnel_step (?t, 7) (SetQuotaName ''fast'' ?t, 7)" by (rule tunnel_step.quota)
  then have "tunnel_step\<^sup>*\<^sup>* (?t, 7) (SetQuotaName ''fast'' ?t, 7)" by blast
  from tunnel_one_endpoint [OF c(1) this, of "''q''"] c(2) show ?thesis by auto
qed

end
