(* ===== verification/Rows.thy ===== *)
theory Rows
  imports RecordRoundtrip
begin

section \<open>Rows of a query: \<open>sqldriver/row.go\<close>, \<open>sqldriver/data.go\<close>\<close>

text \<open>
  Models how the SQL driver hands records to \<open>database/sql\<close>: \<open>rowsReader\<close> reads a record and turns each
  value into a driver value, and the scan types take a driver value in.
  \<^item> A \<open>driver.Value\<close> is a \<open>dval\<close>: the Go types that \<open>Next\<close> stores, \<open>VData\<close> for a value of the package \<open>data\<close> stored as
    it is, whether by value or as a pointer.
  \<^item> A variable that a program scans into is a \<open>scan_cell\<close>, one constructor per type that \<open>ColumnTypeScanType\<close> reports.
  \<^item> \<open>convertAssign\<close> of \<open>database/sql\<close> is modelled for the kinds of values that the driver stores in such a
    variable; what it does with a value of an unlike kind (a text for a number, say) is the argument \<open>conv\<close>.
\<close>

datatype dval =
    VNil
  | VInt64 i64
  | VInt i64
  | VInt16 i16
  | VInt8 i8
  | VFloat64 u64
  | VFloat32 u32
  | VString string
  | VBytes "byte list"
  | VBool bool
  | VTime gotime
  | VData Data

subsection \<open>Reading rows\<close>

record rowsReader =
  rr_columns :: "Column list"
  rr_inner :: protoc_reader

definition rr_Columns :: "rowsReader \<Rightarrow> string list" where
  "rr_Columns rr = map col_Name (rr_columns rr)"

text \<open>The value that \<open>Next\<close> stores for one field of a record. A Go \<open>int\<close> has 64 bits.\<close>

fun driver_value :: "Data option \<Rightarrow> dval" where
  "driver_value None = VNil"
| "driver_value (Some (DBigInt i)) = VInt64 i"
| "driver_value (Some (DInt i)) = VInt (scast i)"
| "driver_value (Some (DSmallInt i)) = VInt16 i"
| "driver_value (Some (DTinyInt i)) = VInt8 i"
| "driver_value (Some (DDouble d)) = VFloat64 d"
| "driver_value (Some (DFloat f)) = VFloat32 f"
| "driver_value (Some (DString s)) = VString s"
| "driver_value (Some (DChar n s)) = VString s"
| "driver_value (Some (DVarChar n s)) = VString s"
| "driver_value (Some (DBinary b)) = VBytes b"
| "driver_value (Some (DBool b)) = VBool b"
| "driver_value (Some (DDateTime t)) = VTime t"
| "driver_value (Some (DDate t)) = VTime t"
| "driver_value (Some (DTimestamp t)) = VTime t"
| "driver_value (Some (DTimestampNtz t)) = VTime t"
| "driver_value (Some d) = VData d"

text \<open>\<open>Next\<close> on a slice of \<open>n\<close> values: the values it stores, all of them new, when it returns no error.\<close>

definition rr_Next :: "protowire \<Rightarrow> nat \<Rightarrow> (rowsReader, dval list) M" where
  "rr_Next pw n rr =
     (case Read_record pw (rr_inner rr) of
        (Ret rec, r') \<Rightarrow>
          (if length rec \<noteq> n
           then Fail (ErrMsg (''expect '' @ Itoa (int n) @ '' columns, but get '' @ Itoa (int (length rec))))
           else Ret (map driver_value rec), rr\<lparr>rr_inner := r'\<rparr>)
      | (Fail e, r') \<Rightarrow> (Fail e, rr\<lparr>rr_inner := r'\<rparr>)
      | (Panic p, r') \<Rightarrow> (Panic p, rr\<lparr>rr_inner := r'\<rparr>))"

definition ColumnTypeDatabaseTypeName :: "rowsReader \<Rightarrow> nat \<Rightarrow> string outcome" where
  "ColumnTypeDatabaseTypeName rr i =
     (if i < length (rr_columns rr) then Name (col_Type (rr_columns rr ! i)) else Panic IndexOutOfRange)"

datatype scan_type =
    T_NullInt64 | T_NullInt32 | T_NullInt16 | T_NullInt8 | T_NullFloat64 | T_NullFloat32 | T_NullString | T_NullBool
  | T_NullDateTime | T_NullDate | T_NullTimeStamp | T_NullTimeStampNtz
  | T_int64 | T_int | T_int16 | T_int8 | T_float64 | T_float32 | T_string | T_bool
  | T_Binary | T_Decimal | T_Map | T_Array | T_Struct | T_Json | T_NullData | T_IntervalDayTime | T_IntervalYearMonth

fun scan_type_of :: "TypeID \<Rightarrow> bool \<Rightarrow> scan_type option" where
  "scan_type_of BIGINT nullable = Some (if nullable then T_NullInt64 else T_int64)"
| "scan_type_of INTID nullable = Some (if nullable then T_NullInt32 else T_int)"
| "scan_type_of SMALLINT nullable = Some (if nullable then T_NullInt16 else T_int16)"
| "scan_type_of TINYINT nullable = Some (if nullable then T_NullInt8 else T_int8)"
| "scan_type_of DOUBLE nullable = Some (if nullable then T_NullFloat64 else T_float64)"
| "scan_type_of FLOAT nullable = Some (if nullable then T_NullFloat32 else T_float32)"
| "scan_type_of STRING nullable = Some (if nullable then T_NullString else T_string)"
| "scan_type_of CHARID nullable = Some (if nullable then T_NullString else T_string)"
| "scan_type_of VARCHAR nullable = Some (if nullable then T_NullString else T_string)"
| "scan_type_of BINARY nullable = Some T_Binary"
| "scan_type_of BOOLEAN nullable = Some (if nullable then T_NullBool else T_bool)"
| "scan_type_of DATETIME nullable = Some T_NullDateTime"
| "scan_type_of DATE nullable = Some T_NullDate"
| "scan_type_of TIMESTAMP nullable = Some T_NullTimeStamp"
| "scan_type_of TIMESTAMP_NTZ nullable = Some T_NullTimeStampNtz"
| "scan_type_of DECIMAL nullable = Some T_Decimal"
| "scan_type_of MAP nullable = Some T_Map"
| "scan_type_of ARRAY nullable = Some T_Array"
| "scan_type_of STRUCT nullable = Some T_Struct"
| "scan_type_of JSON nullable = Some T_Json"
| "scan_type_of VOID nullable = Some T_NullData"
| "scan_type_of IntervalDayTime nullable = Some T_IntervalDayTime"
| "scan_type_of IntervalYearMonth nullable = Some T_IntervalYearMonth"
| "scan_type_of _ nullable = None"

definition ColumnTypeScanType :: "rowsReader \<Rightarrow> nat \<Rightarrow> scan_type option outcome" where
  "ColumnTypeScanType rr i =
     (if i < length (rr_columns rr)
      then let c = rr_columns rr ! i in
           if col_Type c = NilType then Panic NilDereference else Ret (scan_type_of (ID (col_Type c)) (\<not> col_NotNull c))
      else Panic IndexOutOfRange)"


subsection \<open>Scanning a value\<close>

text \<open>
  A variable of a scan type. \<open>C_Data\<close> is a variable of \<open>Decimal\<close>, \<open>Map\<close>, \<open>Array\<close>, \<open>Struct\<close>, \<open>Json\<close> or of a
  type of the package \<open>data\<close>; a nil \<open>Binary\<close> is \<open>None\<close>.
\<close>

datatype scan_cell =
    C_NullInt64 i64 bool
  | C_NullInt32 i32 bool
  | C_NullInt16 i16 bool
  | C_NullInt8 i8 bool
  | C_NullFloat64 u64 bool
  | C_NullFloat32 u32 bool
  | C_NullString string bool
  | C_NullBool bool bool
  | C_NullTime gotime bool
  | C_int64 i64
  | C_int i64
  | C_int16 i16
  | C_int8 i8
  | C_float64 u64
  | C_float32 u32
  | C_string string
  | C_bool bool
  | C_Binary "byte list option"
  | C_Data Data

text \<open>
  \<open>convertAssign\<close> for values of unlike kinds: what it puts into an integer of some number of bits, into a
  float, a text, a bool or a time, given the value.
\<close>

record conversions =
  cv_int :: "nat \<Rightarrow> dval \<Rightarrow> int outcome"
  cv_float64 :: "dval \<Rightarrow> u64 outcome"
  cv_float32 :: "dval \<Rightarrow> u32 outcome"
  cv_string :: "dval \<Rightarrow> string outcome"
  cv_bool :: "dval \<Rightarrow> bool outcome"
  cv_time :: "dval \<Rightarrow> gotime outcome"

definition null_error :: "string \<Rightarrow> goerr" where
  "null_error t = ErrMsg (''converting NULL to '' @ t @ '' is unsupported'')"

text \<open>An integer, by its decimal text, into an integer of \<open>bits\<close> bits.\<close>

definition assign_int :: "conversions \<Rightarrow> nat \<Rightarrow> string \<Rightarrow> dval \<Rightarrow> int outcome" where
  "assign_int conv bits t v =
     (let parsed = (\<lambda>i. if - (2 ^ (bits - 1)) \<le> i \<and> i < 2 ^ (bits - 1) then Ret i
           else Fail (ErrMsg (''converting driver.Value to a '' @ t @ '': value out of range''))) in
      case v of VNil \<Rightarrow> Fail (null_error t) | VInt64 i \<Rightarrow> parsed (sint i) | VInt i \<Rightarrow> parsed (sint i)
      | VInt16 i \<Rightarrow> parsed (sint i) | VInt8 i \<Rightarrow> parsed (sint i) | _ \<Rightarrow> cv_int conv bits v)"

definition assign_float64 :: "conversions \<Rightarrow> dval \<Rightarrow> u64 outcome" where
  "assign_float64 conv v =
     (case v of VNil \<Rightarrow> Fail (null_error ''float64'') | VFloat64 d \<Rightarrow> Ret d | _ \<Rightarrow> cv_float64 conv v)"

definition assign_float32 :: "conversions \<Rightarrow> dval \<Rightarrow> u32 outcome" where
  "assign_float32 conv v =
     (case v of VNil \<Rightarrow> Fail (null_error ''float32'') | VFloat32 d \<Rightarrow> Ret d | _ \<Rightarrow> cv_float32 conv v)"

definition assign_string :: "conversions \<Rightarrow> dval \<Rightarrow> string outcome" where
  "assign_string conv v =
     (case v of VNil \<Rightarrow> Fail (null_error ''string'') | VString s \<Rightarrow> Ret s | VBytes b \<Rightarrow> Ret (string_of b) | _ \<Rightarrow> cv_string conv v)"

definition assign_bool :: "conversions \<Rightarrow> dval \<Rightarrow> bool outcome" where
  "assign_bool conv v = (case v of VBool b \<Rightarrow> Ret b | _ \<Rightarrow> cv_bool conv v)"

definition assign_time :: "conversions \<Rightarrow> dval \<Rightarrow> gotime outcome" where
  "assign_time conv v = (case v of VTime t \<Rightarrow> Ret t | _ \<Rightarrow> cv_time conv v)"

text \<open>The name of the Go type of a value of the package \<open>data\<close>.\<close>

fun go_name :: "Data \<Rightarrow> string" where
  "go_name DNull = ''NullData''"
| "go_name (DBool b) = ''Bool''"
| "go_name (DTinyInt i) = ''TinyInt''"
| "go_name (DSmallInt i) = ''SmallInt''"
| "go_name (DInt i) = ''Int''"
| "go_name (DBigInt i) = ''BigInt''"
| "go_name (DFloat f) = ''Float''"
| "go_name (DDouble d) = ''Double''"
| "go_name (DString s) = ''String''"
| "go_name (DChar n s) = ''Char''"
| "go_name (DVarChar n s) = ''VarChar''"
| "go_name (DBinary b) = ''Binary''"
| "go_name (DGeography g) = ''Geography''"
| "go_name (DDate t) = ''Date''"
| "go_name (DDateTime t) = ''DateTime''"
| "go_name (DTimestamp t) = ''Timestamp''"
| "go_name (DTimestampNtz t) = ''TimestampNtz''"
| "go_name (DIntervalDayTime s n) = ''IntervalDayTime''"
| "go_name (DIntervalYearMonth m) = ''IntervalYearMonth''"
| "go_name (DDecimal d) = ''Decimal''"
| "go_name (DJson s v) = ''Json''"
| "go_name (DArray e xs v) = ''Array''"
| "go_name (DMap k w kvs v) = ''Map''"
| "go_name (DStruct ts fs ix v) = ''Struct''"

fun dval_name :: "dval \<Rightarrow> string" where
  "dval_name (VData d) = go_name d"
| "dval_name (VInt64 i) = ''int64''"
| "dval_name (VInt i) = ''int''"
| "dval_name (VInt16 i) = ''int16''"
| "dval_name (VInt8 i) = ''int8''"
| "dval_name (VFloat64 d) = ''float64''"
| "dval_name (VFloat32 f) = ''float32''"
| "dval_name (VString s) = ''string''"
| "dval_name (VBool b) = ''bool''"
| "dval_name (VTime t) = ''Time''"
| "dval_name _ = []"

text \<open>
  \<open>tryConvertType(src, dst)\<close> on a variable \<open>dst\<close>: a nil source leaves it as it is; the value of a source of the
  variable's type, or a plain \<open>[]byte\<close> for the types made of it, is assigned. \<open>NullData.Scan\<close> does nothing.
\<close>

definition tryConvertType :: "dval \<Rightarrow> Data \<Rightarrow> Data outcome" where
  "tryConvertType src dst =
     (let error = Fail (ErrMsg (''cannot convert '' @ dval_name src @ '' to '' @ go_name dst)) in
      case src of
        VNil \<Rightarrow> Ret dst
      | VData d \<Rightarrow> if go_name d = go_name dst then Ret d else error
      | VBytes b \<Rightarrow> (case dst of DBinary _ \<Rightarrow> Ret (DBinary b) | DGeography _ \<Rightarrow> Ret (DGeography b) | _ \<Rightarrow> error)
      | _ \<Rightarrow> error)"

definition Data_Scan :: "dval \<Rightarrow> Data \<Rightarrow> Data outcome" where
  "Data_Scan src dst = (case dst of DNull \<Rightarrow> Ret DNull | _ \<Rightarrow> tryConvertType src dst)"

definition newConvertError :: "dval \<Rightarrow> string \<Rightarrow> goerr" where
  "newConvertError src t = ErrMsg (''cannot convert '' @ dval_name src @ '' to '' @ t)"

text \<open>
  \<open>Rows.Scan\<close> into one variable. A type with a method \<open>Scan\<close> does it by itself; the types made of those of
  \<open>database/sql\<close> set \<open>Valid\<close> and then convert, so that an error leaves them valid with the old value.
\<close>

definition null_scan :: "('a \<Rightarrow> bool \<Rightarrow> scan_cell) \<Rightarrow> 'a \<Rightarrow> 'a \<Rightarrow> dval \<Rightarrow> 'a outcome \<Rightarrow> unit outcome \<times> scan_cell" where
  "null_scan C zero old v r =
     (if v = VNil then (Ret (), C zero False)
      else case r of Ret x \<Rightarrow> (Ret (), C x True) | Fail e \<Rightarrow> (Fail e, C old True) | Panic p \<Rightarrow> (Panic p, C old True))"

definition plain_scan :: "('a \<Rightarrow> scan_cell) \<Rightarrow> 'a \<Rightarrow> 'a outcome \<Rightarrow> unit outcome \<times> scan_cell" where
  "plain_scan C old r = (case r of Ret x \<Rightarrow> (Ret (), C x) | Fail e \<Rightarrow> (Fail e, C old) | Panic p \<Rightarrow> (Panic p, C old))"

fun cell_Scan :: "conversions \<Rightarrow> dval \<Rightarrow> scan_cell \<Rightarrow> unit outcome \<times> scan_cell" where
  "cell_Scan conv v (C_NullInt64 i ok) = null_scan C_NullInt64 0 i v (omap word_of_int (assign_int conv 64 ''int64'' v))"
| "cell_Scan conv v (C_NullInt32 i ok) = null_scan C_NullInt32 0 i v (omap word_of_int (assign_int conv 32 ''int32'' v))"
| "cell_Scan conv v (C_NullInt16 i ok) =
     null_scan C_NullInt16 0 i v (case v of VInt16 j \<Rightarrow> Ret j | _ \<Rightarrow> Fail (newConvertError v ''NullInt16''))"
| "cell_Scan conv v (C_NullInt8 i ok) =
     null_scan C_NullInt8 0 i v (case v of VInt8 j \<Rightarrow> Ret j | _ \<Rightarrow> Fail (newConvertError v ''NullInt8''))"
| "cell_Scan conv v (C_NullFloat64 d ok) = null_scan C_NullFloat64 0 d v (assign_float64 conv v)"
| "cell_Scan conv v (C_NullFloat32 d ok) =
     null_scan C_NullFloat32 0 d v (case v of VFloat32 f \<Rightarrow> Ret f | _ \<Rightarrow> Fail (newConvertError v ''NullFloat32''))"
| "cell_Scan conv v (C_NullString s ok) = null_scan C_NullString [] s v (assign_string conv v)"
| "cell_Scan conv v (C_NullBool b ok) = null_scan C_NullBool False b v (assign_bool conv v)"
| "cell_Scan conv v (C_NullTime t ok) = null_scan C_NullTime (GoTime (- 62135596800) 0) t v (assign_time conv v)"
| "cell_Scan conv v (C_int64 i) = plain_scan C_int64 i (omap word_of_int (assign_int conv 64 ''int64'' v))"
| "cell_Scan conv v (C_int i) = plain_scan C_int i (omap word_of_int (assign_int conv 64 ''int'' v))"
| "cell_Scan conv v (C_int16 i) = plain_scan C_int16 i (omap word_of_int (assign_int conv 16 ''int16'' v))"
| "cell_Scan conv v (C_int8 i) = plain_scan C_int8 i (omap word_of_int (assign_int conv 8 ''int8'' v))"
| "cell_Scan conv v (C_float64 d) = plain_scan C_float64 d (assign_float64 conv v)"
| "cell_Scan conv v (C_float32 f) = plain_scan C_float32 f (assign_float32 conv v)"
| "cell_Scan conv v (C_string s) = plain_scan C_string s (assign_string conv v)"
| "cell_Scan conv v (C_bool b) = plain_scan C_bool b (assign_bool conv v)"
| "cell_Scan conv v (C_Binary b) =
     (case v of VNil \<Rightarrow> (Ret (), C_Binary None)
      | VBytes d \<Rightarrow> (Ret (), C_Binary (Some d))
      | _ \<Rightarrow> (Fail (ErrMsg (''cannt convert '' @ dval_name v @ '' to sqldriver.Binary'')), C_Binary b))"
| "cell_Scan conv v (C_Data d) = plain_scan C_Data d (Data_Scan v d)"


subsection \<open>What a row leaves in the variables\<close>

text \<open>The scan types whose variable a value is, and what the variable says of the field of a column of type \<open>t\<close>.\<close>

fun data_scan_type :: "Data \<Rightarrow> scan_type option" where
  "data_scan_type DNull = Some T_NullData"
| "data_scan_type (DDecimal d) = Some T_Decimal"
| "data_scan_type (DMap k w kvs v) = Some T_Map"
| "data_scan_type (DArray e xs v) = Some T_Array"
| "data_scan_type (DStruct ts fs ix v) = Some T_Struct"
| "data_scan_type (DJson s v) = Some T_Json"
| "data_scan_type (DIntervalDayTime s n) = Some T_IntervalDayTime"
| "data_scan_type (DIntervalYearMonth m) = Some T_IntervalYearMonth"
| "data_scan_type _ = None"

fun cell_types :: "scan_cell \<Rightarrow> scan_type set" where
  "cell_types (C_NullInt64 i ok) = {T_NullInt64}"
| "cell_types (C_NullInt32 i ok) = {T_NullInt32}"
| "cell_types (C_NullInt16 i ok) = {T_NullInt16}"
| "cell_types (C_NullInt8 i ok) = {T_NullInt8}"
| "cell_types (C_NullFloat64 d ok) = {T_NullFloat64}"
| "cell_types (C_NullFloat32 d ok) = {T_NullFloat32}"
| "cell_types (C_NullString s ok) = {T_NullString}"
| "cell_types (C_NullBool b ok) = {T_NullBool}"
| "cell_types (C_NullTime t ok) = {T_NullDateTime, T_NullDate, T_NullTimeStamp, T_NullTimeStampNtz}"
| "cell_types (C_int64 i) = {T_int64}"
| "cell_types (C_int i) = {T_int}"
| "cell_types (C_int16 i) = {T_int16}"
| "cell_types (C_int8 i) = {T_int8}"
| "cell_types (C_float64 d) = {T_float64}"
| "cell_types (C_float32 f) = {T_float32}"
| "cell_types (C_string s) = {T_string}"
| "cell_types (C_bool b) = {T_bool}"
| "cell_types (C_Binary b) = {T_Binary}"
| "cell_types (C_Data d) = set_option (data_scan_type d)"

definition text_data :: "DataType \<Rightarrow> string \<Rightarrow> Data" where
  "text_data t s = (case t of CharType n \<Rightarrow> DChar n s | VarcharType n \<Rightarrow> DVarChar n s | _ \<Rightarrow> DString s)"

definition time_data :: "DataType \<Rightarrow> gotime \<Rightarrow> Data" where
  "time_data t x =
     (if t = PrimitiveType DATE then DDate x else if t = PrimitiveType TIMESTAMP then DTimestamp x
      else if t = PrimitiveType TIMESTAMP_NTZ then DTimestampNtz x else DDateTime x)"

fun cell_data :: "DataType \<Rightarrow> scan_cell \<Rightarrow> Data option" where
  "cell_data t (C_NullInt64 i ok) = (if ok then Some (DBigInt i) else None)"
| "cell_data t (C_NullInt32 i ok) = (if ok then Some (DInt i) else None)"
| "cell_data t (C_NullInt16 i ok) = (if ok then Some (DSmallInt i) else None)"
| "cell_data t (C_NullInt8 i ok) = (if ok then Some (DTinyInt i) else None)"
| "cell_data t (C_NullFloat64 d ok) = (if ok then Some (DDouble d) else None)"
| "cell_data t (C_NullFloat32 d ok) = (if ok then Some (DFloat d) else None)"
| "cell_data t (C_NullString s ok) = (if ok then Some (text_data t s) else None)"
| "cell_data t (C_NullBool b ok) = (if ok then Some (DBool b) else None)"
| "cell_data t (C_NullTime x ok) = (if ok then Some (time_data t x) else None)"
| "cell_data t (C_int64 i) = Some (DBigInt i)"
| "cell_data t (C_int i) = Some (DInt (scast i))"
| "cell_data t (C_int16 i) = Some (DSmallInt i)"
| "cell_data t (C_int8 i) = Some (DTinyInt i)"
| "cell_data t (C_float64 d) = Some (DDouble d)"
| "cell_data t (C_float32 f) = Some (DFloat f)"
| "cell_data t (C_string s) = Some (text_data t s)"
| "cell_data t (C_bool b) = Some (DBool b)"
| "cell_data t (C_Binary b) = map_option DBinary b"
| "cell_data t (C_Data d) = Some d"

text \<open>The types whose \<open>Scan\<close> leaves the variable alone when the field is nil.\<close>

definition keeps_old :: "scan_type \<Rightarrow> bool" where
  "keeps_old st \<longleftrightarrow> st \<in> {T_Decimal, T_Map, T_Array, T_Struct, T_Json, T_NullData, T_IntervalDayTime, T_IntervalYearMonth}"

lemma sint_bounds:
  "- 9223372036854775808 \<le> sint (i :: i64)" "sint (i :: i64) < 9223372036854775808"
  "- 2147483648 \<le> sint (j :: i32)" "sint (j :: i32) < 2147483648"
  "- 32768 \<le> sint (k :: i16)" "sint (k :: i16) < 32768"
  "- 128 \<le> sint (l :: i8)" "sint (l :: i8) < 128"
  "- 9223372036854775808 \<le> sint (j :: i32)" "sint (j :: i32) < 9223372036854775808"
  using sint_range_size [of i] sint_range_size [of j] sint_range_size [of k] sint_range_size [of l]
  by (simp_all add: word_size)

lemma scast_i32_i64 [simp]: "scast (scast (i :: i32) :: i64) = i" "sint (scast (i :: i32) :: i64) = sint i"
  by (simp_all add: scast_down_scast_id sint_up_scast is_up is_down)

lemmas scan_simps = null_scan_def plain_scan_def assign_int_def assign_float64_def assign_float32_def assign_string_def
  assign_bool_def assign_time_def Data_Scan_def tryConvertType_def text_data_def time_data_def keeps_old_def

lemma nil_scans:
  assumes "scan_type_of (ID t) True = Some st" "st \<in> cell_types c"
  shows "\<exists>c'. cell_Scan conv VNil c = (Ret (), c') \<and> cell_data t c' = (if keeps_old st then cell_data t c else None)"
proof (cases "keeps_old st")
  case True
  then obtain d where "c = C_Data d" using assms(2) by (cases c) (auto simp: keeps_old_def)
  then show ?thesis using True by (cases d) (simp_all add: scan_simps)
next
  case False
  have "st \<notin> {T_int64, T_int, T_int16, T_int8, T_float64, T_float32, T_string, T_bool}"
    using assms(1) by (cases "ID t") auto
  with False assms(2) show ?thesis
    by (cases c) (auto simp: null_scan_def elim: data_scan_type.elims simp: keeps_old_def)
qed

lemma value_scans:
  assumes "scan_type_of (ID (Type d)) nullable = Some st" "st \<in> cell_types c"
  shows "\<exists>c'. cell_Scan conv (driver_value (Some d)) c = (Ret (), c') \<and> cell_data (Type d) c' = Some d"
  using assms sint_bounds
  by (cases d; cases c) (auto simp: scan_simps not_le elim!: data_scan_type.elims split: if_splits)


text \<open>\<open>Rows.Scan\<close> of \<open>database/sql\<close>: a variable for every column, in order, up to the first error.\<close>

fun row_Scan :: "conversions \<Rightarrow> dval list \<Rightarrow> scan_cell list \<Rightarrow> unit outcome \<times> scan_cell list" where
  "row_Scan conv (v # vs) (c # cs) =
     (case cell_Scan conv v c of
        (Ret _, c') \<Rightarrow> (case row_Scan conv vs cs of (r, cs') \<Rightarrow> (r, c' # cs'))
      | (r, c') \<Rightarrow> (r, c' # cs))"
| "row_Scan conv [] [] = (Ret (), [])"
| "row_Scan conv vs cs = (Fail (ErrMsg ''sql: wrong number of destination arguments in Scan''), cs)"

text \<open>A field that a column can have, and a variable of the type that the driver reports for a column.\<close>

definition field_ok :: "Column \<Rightarrow> Data option \<Rightarrow> bool" where
  "field_ok c v \<longleftrightarrow> (case v of None \<Rightarrow> \<not> col_NotNull c | Some d \<Rightarrow> Type d = col_Type c)"

definition reported_cell :: "Column \<Rightarrow> scan_cell \<Rightarrow> bool" where
  "reported_cell c x \<longleftrightarrow>
     (case scan_type_of (ID (col_Type c)) (\<not> col_NotNull c) of None \<Rightarrow> False | Some st \<Rightarrow> st \<in> cell_types x)"

definition cell_after :: "Column \<Rightarrow> Data option \<Rightarrow> scan_cell \<Rightarrow> Data option" where
  "cell_after c v x =
     (case scan_type_of (ID (col_Type c)) (\<not> col_NotNull c) of
        Some st \<Rightarrow> if v = None \<and> keeps_old st then cell_data (col_Type c) x else v
      | None \<Rightarrow> v)"

lemma field_scans:
  assumes "field_ok c v" "reported_cell c x"
  shows "\<exists>x'. cell_Scan conv (driver_value v) x = (Ret (), x') \<and> cell_data (col_Type c) x' = cell_after c v x"
proof (cases v)
  case None
  with assms show ?thesis using nil_scans [of "col_Type c" _ x conv]
    by (auto simp: field_ok_def reported_cell_def cell_after_def split: option.splits)
next
  case (Some d)
  then have t: "Type d = col_Type c" using assms(1) by (simp add: field_ok_def)
  show ?thesis using value_scans [of d _ _ x conv, unfolded t] assms(2) Some
    by (auto simp: reported_cell_def cell_after_def split: option.splits)
qed

lemma row_scans:
  assumes "list_all2 field_ok cols rec" "list_all2 reported_cell cols cells"
  shows "\<exists>cells'. row_Scan conv (map driver_value rec) cells = (Ret (), cells') \<and> length cells' = length cols \<and>
    (\<forall>i < length cols. cell_data (col_Type (cols ! i)) (cells' ! i) = cell_after (cols ! i) (rec ! i) (cells ! i))"
  using assms
proof (induction arbitrary: cells rule: list_all2_induct)
  case (Cons c cols v rec)
  obtain x xs where x: "cells = x # xs" "reported_cell c x" "list_all2 reported_cell cols xs"
    using Cons.prems by (auto simp: list_all2_Cons1)
  obtain x' where "cell_Scan conv (driver_value v) x = (Ret (), x')" "cell_data (col_Type c) x' = cell_after c v x"
    using field_scans [OF Cons.hyps(1) x(2)] by blast
  moreover obtain xs' where "row_Scan conv (map driver_value rec) xs = (Ret (), xs')" "length xs' = length cols"
    "\<forall>i < length cols. cell_data (col_Type (cols ! i)) (xs' ! i) = cell_after (cols ! i) (rec ! i) (xs ! i)"
    using Cons.IH [OF x(3)] by blast
  ultimately show ?case using x(1) by (auto simp: less_Suc_eq_0_disj)
qed simp

text \<open>
  C8. Scanning a row into variables of the types that the driver reports for its columns succeeds and loses
  nothing: every variable then stands for the field of its column, a null number, text, bool, time or
  binary included. Where the column holds a decimal, a container, a JSON value or an interval, a null field
  leaves in the variable what the last row had put there, and nothing tells the two apart.
\<close>

theorem reported_types_scan:
  assumes "list_all2 field_ok cols rec" "list_all2 reported_cell cols cells"
  shows "\<exists>cells'. row_Scan conv (map driver_value rec) cells = (Ret (), cells') \<and> length cells' = length cols \<and>
    (\<forall>i < length cols. cell_data (col_Type (cols ! i)) (cells' ! i) = cell_after (cols ! i) (rec ! i) (cells ! i))"
  using assms by (rule row_scans)

definition example_conversions :: conversions where
  "example_conversions =
     \<lparr>cv_int = (\<lambda>bits v. Fail (ErrMsg ''unsupported Scan'')), cv_float64 = (\<lambda>v. Fail (ErrMsg ''unsupported Scan'')),
      cv_float32 = (\<lambda>v. Fail (ErrMsg ''unsupported Scan'')), cv_string = (\<lambda>v. Fail (ErrMsg ''unsupported Scan'')),
      cv_bool = (\<lambda>v. Fail (ErrMsg ''unsupported Scan'')), cv_time = (\<lambda>v. Fail (ErrMsg ''unsupported Scan''))\<rparr>"

definition example_column :: "string \<Rightarrow> DataType \<Rightarrow> Column" where
  "example_column n t = \<lparr>col_Name = n, col_Type = t, col_Comment = [], col_Label = [],
     col_NotNull = False, col_HasDefaultValue = False, col_DefaultValue = [], col_ExtendedLabels = [],
     col_GenerateExpression = None\<rparr>"

text \<open>The second column of this row is null, and its variable still holds the price of the row before.\<close>

theorem reported_types_scan_witness:
  "\<exists>cells'. row_Scan example_conversions (map driver_value [Some (DInt (- 3)), None])
       [C_NullInt32 0 False, C_Data (DDecimal (NewDecimal 4 2 ''9.99''))] = (Ret (), cells') \<and>
     cell_data (PrimitiveType INTID) (cells' ! 0) = Some (DInt (- 3)) \<and>
     cell_data (DecimalType 4 2) (cells' ! 1) = Some (DDecimal (NewDecimal 4 2 ''9.99''))"
proof -
  let ?cols = "[example_column ''n'' (PrimitiveType INTID), example_column ''price'' (DecimalType 4 2)]"
  have "list_all2 field_ok ?cols [Some (DInt (- 3)), None]"
    "list_all2 reported_cell ?cols [C_NullInt32 0 False, C_Data (DDecimal (NewDecimal 4 2 ''9.99''))]"
    by (simp_all add: field_ok_def reported_cell_def example_column_def)
  from reported_types_scan [OF this, of example_conversions] show ?thesis
    by (auto simp: example_column_def cell_after_def keeps_old_def less_Suc_eq numeral_2_eq_2)
qed

subsection \<open>All rows of a result\<close>

lemma rr_Next_shrinks: "rr_Next pw n rr = (Ret vs, rr') \<Longrightarrow> rd_len (rr_inner rr') < rd_len (rr_inner rr)"
  using Read_loop_length by (auto simp: rr_Next_def Read_record_def split: prod.splits outcome.splits if_splits)

text \<open>The rows a program sees: \<open>Rows.Next\<close> of \<open>database/sql\<close>, called until it says that there are no more, and \<open>Rows.Err\<close>.\<close>

function rows_read :: "protowire \<Rightarrow> rowsReader \<Rightarrow> dval list list \<times> unit outcome" where
  "rows_read pw rr =
     (case rr_Next pw (length (rr_Columns rr)) rr of
        (Ret vs, rr') \<Rightarrow> (case rows_read pw rr' of (rows, r) \<Rightarrow> (vs # rows, r))
      | (Fail e, rr') \<Rightarrow> ([], if e = ErrEOF then Ret () else Fail e)
      | (Panic p, rr') \<Rightarrow> ([], Panic p))"
  by pat_completeness auto
termination
  by (relation "measure (\<lambda>(pw, rr). rd_len (rr_inner rr))") (simp_all, metis rr_Next_shrinks)

declare rows_read.simps [simp del]

lemma rows_read_Iterator:
  assumes "Iterator pw r = (map Ret recs, Ret (), r')" "\<forall>rec \<in> set recs. length rec = length cols"
  shows "rows_read pw \<lparr>rr_columns = cols, rr_inner = r\<rparr> = (map (map driver_value) recs, Ret ())"
  using assms
proof (induction recs arbitrary: r)
  case Nil
  then have "\<exists>r1. Read_record pw r = (Fail ErrEOF, r1)"
    by (subst (asm) Iterator.simps) (auto split: prod.splits outcome.splits if_splits)
  then show ?case by (subst rows_read.simps) (auto simp: rr_Next_def)
next
  case (Cons rec recs)
  then obtain r1 where "Read_record pw r = (Ret rec, r1)" "Iterator pw r1 = (map Ret recs, Ret (), r')"
    by (subst (asm) (2) Iterator.simps) (auto split: prod.splits outcome.splits if_splits)
  with Cons show ?case by (subst rows_read.simps) (simp add: rr_Next_def rr_Columns_def)
qed


text \<open>
  What a row delivers for a record: nil for the null fields and for these only, and every scan of it into variables of the types that
  the driver reports succeeds and leaves the fields of the record in the variables, where \<open>cell_data\<close> reads them.
\<close>

definition delivers :: "conversions \<Rightarrow> Column list \<Rightarrow> dval list \<Rightarrow> Record \<Rightarrow> bool" where
  "delivers conv cols row rec \<longleftrightarrow>
     length row = length cols \<and> (\<forall>k < length cols. row ! k = VNil \<longleftrightarrow> rec ! k = None) \<and>
     (\<forall>cells. list_all2 reported_cell cols cells \<longrightarrow>
        (\<exists>cells'. row_Scan conv row cells = (Ret (), cells') \<and> length cells' = length cols \<and>
           (\<forall>k < length cols. cell_data (col_Type (cols ! k)) (cells' ! k) = cell_after (cols ! k) (rec ! k) (cells ! k))))"

lemma driver_value_nil: "driver_value v = VNil \<longleftrightarrow> v = None"
  by (cases v rule: driver_value.cases) auto

lemma record_delivered: "list_all2 field_ok cols rec \<Longrightarrow> delivers conv cols (map driver_value rec) rec"
  using row_scans [of cols rec _ conv] by (auto simp: delivers_def driver_value_nil dest: list_all2_lengthD)



end
