(* ===== verification/Polling.thy ===== *)
theory Polling
  imports Prelude
begin

section \<open>Loops that poll a server\<close>

text \<open>
  A loop without an exit of its own: turn after turn until one has a result, fails or panics. A turn that ends
  with \<open>Ret None\<close> goes on. The loop is \<open>None\<close> when no turn ever ends it. The lemmas are those that a caller needs:
  the loop does not return exactly when it goes on for ever, and what it returns comes from its last turn.
\<close>

partial_function (option) poll :: "('s, 'a option) M \<Rightarrow> 's \<Rightarrow> ('a outcome \<times> 's) option" where
  "poll turn s =
     (case turn s of
        (Ret (Some x), s') \<Rightarrow> Some (Ret x, s')
      | (Ret None, s') \<Rightarrow> poll turn s'
      | (Fail err, s') \<Rightarrow> Some (Fail err, s')
      | (Panic p, s') \<Rightarrow> Some (Panic p, s'))"

text \<open>\<open>turns turn n s t\<close>: \<open>n\<close> turns from \<open>s\<close>, none of which ends the loop, lead to \<open>t\<close>.\<close>

inductive turns :: "('s, 'a option) M \<Rightarrow> nat \<Rightarrow> 's \<Rightarrow> 's \<Rightarrow> bool" for turn where
  here: "turns turn 0 s s"
| more: "turn s = (Ret None, t) \<Longrightarrow> turns turn n t u \<Longrightarrow> turns turn (Suc n) s u"

inductive_simps turns_Suc: "turns turn (Suc n) s u"

lemma poll_ends: "turn s = (r, s') \<Longrightarrow> r \<noteq> Ret None \<Longrightarrow> poll turn s = Some (omap the r, s')"
  by (subst poll.simps) (auto split: outcome.splits option.splits)

lemma poll_turn: "turn s = (Ret None, s') \<Longrightarrow> poll turn s = poll turn s'"
  by (subst poll.simps) simp

lemma poll_turns: "turns turn n s t \<Longrightarrow> poll turn s = poll turn t"
  by (induction rule: turns.induct) (simp_all add: poll_turn)

lemma poll_Some:
  assumes "poll turn s = Some y"
  shows "\<exists>n t q. turns turn n s t \<and> turn t = (q, snd y) \<and> q \<noteq> Ret None \<and> fst y = omap the q"
  using assms
proof (induction rule: poll.raw_induct [rotated, consumes 1])
  case (1 pl turn s y)
  obtain q u where t: "turn s = (q, u)" by (cases "turn s")
  show ?case
  proof (cases "q = Ret None")
    case True
    with 1 t have "pl turn u = Some y" by simp
    from 1(1) [OF this] True t show ?thesis by (meson turns.more)
  next
    case False
    with 1(2) t have "fst y = omap the q" "snd y = u" by (auto split: outcome.splits option.splits)
    with False t turns.here [of turn s] show ?thesis by metis
  qed
qed

lemma turns_stop: "turns turn n s t \<Longrightarrow> turn t = (q, u) \<Longrightarrow> q \<noteq> Ret None \<Longrightarrow> \<not> turns turn (Suc n) s v"
  by (induction rule: turns.induct) (simp_all add: turns_Suc)

lemma poll_None: "poll turn s = None \<longleftrightarrow> (\<forall>n. \<exists>t. turns turn n s t)"
proof
  assume "poll turn s = None"
  then have "\<exists>t. turns turn n s t" for n
  proof (induction n arbitrary: s)
    case 0
    show ?case by (rule exI) (rule turns.here)
  next
    case (Suc n)
    obtain r s' where t: "turn s = (r, s')" by (cases "turn s")
    with Suc.prems poll_ends have "r = Ret None" by fastforce
    with t Suc poll_turn show ?case by (metis turns.more)
  qed
  then show "\<forall>n. \<exists>t. turns turn n s t" ..
next
  assume "\<forall>n. \<exists>t. turns turn n s t"
  then show "poll turn s = None" using poll_Some [of turn s] turns_stop by (metis not_Some_eq)
qed

lemma poll_Ret_iff: "poll turn s = Some (Ret x, s') \<longleftrightarrow> (\<exists>n t. turns turn n s t \<and> turn t = (Ret (Some x), s'))"
proof
  assume "poll turn s = Some (Ret x, s')"
  from poll_Some [OF this] obtain n t q where "turns turn n s t" "turn t = (q, s')" "q \<noteq> Ret None" "Ret x = omap the q"
    by auto
  then show "\<exists>n t. turns turn n s t \<and> turn t = (Ret (Some x), s')" by (cases q) auto
qed (auto simp: poll_turns poll_ends)

end
