(* ===== verification/Security.thy ===== *)
theory Security
  imports Projects Polling
begin

section \<open>Security of a project: \<open>odps/security\<close>\<close>

text \<open>
  Models \<open>manager.go\<close>, \<open>config.go\<close>, \<open>auth_query_instance.go\<close>, \<open>user.go\<close>, \<open>role.go\<close>, \<open>permission.go\<close> and
  \<open>permission_const.go\<close>. A method with a pointer receiver works on the receiver and the environment.
  \<open>time.Sleep\<close> is an argument.
\<close>

subsection \<open>Users and roles\<close>

record 'e User =
  us_restClient :: "'e RestClient"
  us_projectName :: string
  us_ID :: string
  us_DisplayName :: string
  us_Comment :: string

record 'e Role =
  ro_restClient :: "'e RestClient"
  ro_projectName :: string
  ro_Name :: string
  ro_Comment :: string

definition NewUser :: "string \<Rightarrow> 'e RestClient \<Rightarrow> string \<Rightarrow> 'e User" where
  "NewUser userId c projectName =
     \<lparr>us_restClient = c, us_projectName = projectName, us_ID = userId, us_DisplayName = [], us_Comment = []\<rparr>"

definition NewRole :: "string \<Rightarrow> 'e RestClient \<Rightarrow> string \<Rightarrow> 'e Role" where
  "NewRole name c projectName = \<lparr>ro_restClient = c, ro_projectName = projectName, ro_Name = name, ro_Comment = []\<rparr>"

text \<open>The text of an element that is there; without one the field stays as it was.\<close>

definition x_string_or :: "string \<Rightarrow> string \<Rightarrow> xml \<Rightarrow> string" where
  "x_string_or old n e = (case rev (x_path [n] e) of [] \<Rightarrow> old | c # _ \<Rightarrow> x_text c)"

definition read_user :: "xml \<Rightarrow> 'e User \<Rightarrow> 'e User" where
  "read_user e u = u\<lparr>us_ID := x_string_or (us_ID u) ''ID'' e, us_DisplayName := x_string_or (us_DisplayName u) ''DisplayName'' e,
     us_Comment := x_string_or (us_Comment u) ''Comment'' e\<rparr>"

definition read_role :: "xml \<Rightarrow> 'e Role \<Rightarrow> 'e Role" where
  "read_role e r = r\<lparr>ro_Name := x_string_or (ro_Name r) ''Name'' e, ro_Comment := x_string_or (ro_Comment r) ''Comment'' e\<rparr>"

definition us_Load :: "('e User \<times> 'e, unit) M" where
  "us_Load =
     mbind (mget fst) (\<lambda>u.
     mbind (on_env us_restClient
       (GetWithModel (us_restClient u) (rb_User (NewResourceBuilder (us_projectName u)) (us_ID u)) None Map.empty
          (x_Decode ''User'' Ret))) (\<lambda>e.
     on_session (read_user e)))"

definition ro_Load :: "('e Role \<times> 'e, unit) M" where
  "ro_Load =
     mbind (mget fst) (\<lambda>r.
     mbind (on_env ro_restClient
       (GetWithModel (ro_restClient r) (rb_Role (NewResourceBuilder (ro_projectName r)) (ro_Name r)) None Map.empty
          (x_Decode ''Role'' Ret))) (\<lambda>e.
     on_session (read_role e)))"

subsection \<open>Permissions\<close>

datatype PermissionObjectType =
    ObjectTypeZero | ObjectTypeProject | ObjectTypeTable | ObjectTypeFunction | ObjectTypeResource | ObjectTypeInstance

fun PermissionObjectType_String :: "PermissionObjectType \<Rightarrow> string" where
  "PermissionObjectType_String ObjectTypeProject = ''Project''"
| "PermissionObjectType_String ObjectTypeTable = ''Table''"
| "PermissionObjectType_String ObjectTypeFunction = ''Function''"
| "PermissionObjectType_String ObjectTypeResource = ''Resource''"
| "PermissionObjectType_String ObjectTypeInstance = ''Instance''"
| "PermissionObjectType_String ObjectTypeZero = ''UnknownObjectType''"

datatype PermissionActionType =
    ActionTypeZero | ActionTypeRead | ActionTypeWrite | ActionTypeList | ActionTypeCreateTable | ActionTypeCreateInstance
  | ActionTypeCreateFunction | ActionTypeCreateResource | ActionTypeAll | ActionTypeDescribe | ActionTypeSelect
  | ActionTypeAlter | ActionTypeUpdate | ActionTypeDrop | ActionTypeExecute | ActionTypeDelete | ActionTypeDownload

fun PermissionActionType_String :: "PermissionActionType \<Rightarrow> string" where
  "PermissionActionType_String ActionTypeRead = ''Read''"
| "PermissionActionType_String ActionTypeWrite = ''Write''"
| "PermissionActionType_String ActionTypeList = ''List''"
| "PermissionActionType_String ActionTypeCreateTable = ''CreateTable''"
| "PermissionActionType_String ActionTypeCreateInstance = ''CreateInstance''"
| "PermissionActionType_String ActionTypeCreateFunction = ''CreateFunction''"
| "PermissionActionType_String ActionTypeCreateResource = ''CreateResource''"
| "PermissionActionType_String ActionTypeAll = ''All''"
| "PermissionActionType_String ActionTypeDescribe = ''Describe''"
| "PermissionActionType_String ActionTypeSelect = ''Select''"
| "PermissionActionType_String ActionTypeAlter = ''Alter''"
| "PermissionActionType_String ActionTypeUpdate = ''Update''"
| "PermissionActionType_String ActionTypeDrop = ''Drop''"
| "PermissionActionType_String ActionTypeExecute = ''Execute''"
| "PermissionActionType_String ActionTypeDelete = ''Delete''"
| "PermissionActionType_String ActionTypeDownload = ''Download''"
| "PermissionActionType_String ActionTypeZero = ''UnknownActionType''"

text \<open>The parameters are a map: its entries with distinct keys.\<close>

record Permission =
  pm_ProjectName :: string
  pm_ObjectType :: PermissionObjectType
  pm_ObjectName :: string
  pm_ActionType :: PermissionActionType
  pm_Params :: "(string \<times> string) list"

definition NewPermission :: "string \<Rightarrow> PermissionObjectType \<Rightarrow> string \<Rightarrow> PermissionActionType \<Rightarrow> Permission" where
  "NewPermission projectName objectType objectName actionType =
     \<lparr>pm_ProjectName = projectName, pm_ObjectType = objectType, pm_ObjectName = objectName, pm_ActionType = actionType,
      pm_Params = []\<rparr>"

text \<open>A nil slice of columns is JSON's \<open>null\<close>.\<close>

definition SetColumns :: "string list option \<Rightarrow> Permission \<Rightarrow> Permission" where
  "SetColumns columns p =
     p\<lparr>pm_Params := AList.update ''odps:SelectColumn''
         (case columns of None \<Rightarrow> ''null'' | Some cs \<Rightarrow> ''['' @ Join (map json_quote cs) '','' @ '']'') (pm_Params p)\<rparr>"

definition pm_Resource :: "Permission \<Rightarrow> string" where
  "pm_Resource p =
     (let rb = NewResourceBuilder (pm_ProjectName p) in
      case pm_ObjectType p of
        ObjectTypeProject \<Rightarrow> rb_Project rb
      | ObjectTypeTable \<Rightarrow> rb_Table rb [] (pm_ObjectName p)
      | ObjectTypeFunction \<Rightarrow> rb_Function rb (pm_ObjectName p)
      | ObjectTypeInstance \<Rightarrow> rb_Function rb (pm_ProjectName p)
      | ObjectTypeResource \<Rightarrow> rb_Resource rb (pm_ObjectName p)
      | ObjectTypeZero \<Rightarrow> [])"

definition pm_MarshalJSON :: "Permission \<Rightarrow> string" where
  "pm_MarshalJSON p =
     (let m = fold (\<lambda>(k, v). AList.update k v) (pm_Params p)
            [(''Action'', PermissionActionType_String (pm_ActionType p)), (''Resource'', pm_Resource p)]
      in ''['' @ json_Marshal_map m @ '']'')"

record PermissionCheckResult =
  pc_Result :: string
  pc_Message :: string

definition x_PermissionCheckResult :: "xml \<Rightarrow> PermissionCheckResult" where
  "x_PermissionCheckResult e = \<lparr>pc_Result = x_string [''Result''] e, pc_Message = x_string [''Message''] e\<rparr>"


subsection \<open>The security configuration\<close>

record securityConfigModel =
  sg_CheckPermissionUsingAcl :: bool
  sg_CheckPermissionUsingPolicy :: bool
  sg_LabelSecurity :: bool
  sg_ObjectCreatorHasAccessPermission :: bool
  sg_ObjectCreatorHasGrantPermission :: bool
  sg_CheckPermissionUsingAclV2 :: bool
  sg_CheckPermissionUsingPackageV2 :: bool
  sg_SupportACL :: bool
  sg_SupportPolicy :: bool
  sg_SupportPackage :: bool
  sg_SupportACLV2 :: bool
  sg_SupportPackageV2 :: bool
  sg_CheckPermissionUsingPackage :: bool
  sg_CreatePackage :: bool
  sg_CreatePackageV2 :: bool
  sg_AuthorizationVersion :: string
  sg_EnableDownloadPrivilege :: bool
  sg_GrammarVersion :: string
  sg_Protected :: string
  sg_Exceptions :: string

text \<open>The fields in their order, each with how it is read and how it is set.\<close>

datatype config_field =
    BoolField "securityConfigModel \<Rightarrow> bool" "bool \<Rightarrow> securityConfigModel \<Rightarrow> securityConfigModel"
  | TextField "securityConfigModel \<Rightarrow> string" "string \<Rightarrow> securityConfigModel \<Rightarrow> securityConfigModel"

definition config_fields :: "(string \<times> config_field) list" where
  "config_fields =
     [(''CheckPermissionUsingAcl'', BoolField sg_CheckPermissionUsingAcl (\<lambda>b. sg_CheckPermissionUsingAcl_update (\<lambda>_. b))),
      (''CheckPermissionUsingPolicy'', BoolField sg_CheckPermissionUsingPolicy (\<lambda>b. sg_CheckPermissionUsingPolicy_update (\<lambda>_. b))),
      (''LabelSecurity'', BoolField sg_LabelSecurity (\<lambda>b. sg_LabelSecurity_update (\<lambda>_. b))),
      (''ObjectCreatorHasAccessPermission'',
         BoolField sg_ObjectCreatorHasAccessPermission (\<lambda>b. sg_ObjectCreatorHasAccessPermission_update (\<lambda>_. b))),
      (''ObjectCreatorHasGrantPermission'',
         BoolField sg_ObjectCreatorHasGrantPermission (\<lambda>b. sg_ObjectCreatorHasGrantPermission_update (\<lambda>_. b))),
      (''CheckPermissionUsingAclV2'', BoolField sg_CheckPermissionUsingAclV2 (\<lambda>b. sg_CheckPermissionUsingAclV2_update (\<lambda>_. b))),
      (''CheckPermissionUsingPackageV2'',
         BoolField sg_CheckPermissionUsingPackageV2 (\<lambda>b. sg_CheckPermissionUsingPackageV2_update (\<lambda>_. b))),
      (''SupportACL'', BoolField sg_SupportACL (\<lambda>b. sg_SupportACL_update (\<lambda>_. b))),
      (''SupportPolicy'', BoolField sg_SupportPolicy (\<lambda>b. sg_SupportPolicy_update (\<lambda>_. b))),
      (''SupportPackage'', BoolField sg_SupportPackage (\<lambda>b. sg_SupportPackage_update (\<lambda>_. b))),
      (''SupportACLV2'', BoolField sg_SupportACLV2 (\<lambda>b. sg_SupportACLV2_update (\<lambda>_. b))),
      (''SupportPackageV2'', BoolField sg_SupportPackageV2 (\<lambda>b. sg_SupportPackageV2_update (\<lambda>_. b))),
      (''CheckPermissionUsingPackage'',
         BoolField sg_CheckPermissionUsingPackage (\<lambda>b. sg_CheckPermissionUsingPackage_update (\<lambda>_. b))),
      (''CreatePackage'', BoolField sg_CreatePackage (\<lambda>b. sg_CreatePackage_update (\<lambda>_. b))),
      (''CreatePackageV2'', BoolField sg_CreatePackageV2 (\<lambda>b. sg_CreatePackageV2_update (\<lambda>_. b))),
      (''AuthorizationVersion'', TextField sg_AuthorizationVersion (\<lambda>t. sg_AuthorizationVersion_update (\<lambda>_. t))),
      (''EnableDownloadPrivilege'', BoolField sg_EnableDownloadPrivilege (\<lambda>b. sg_EnableDownloadPrivilege_update (\<lambda>_. b))),
      (''GrammarVersion'', TextField sg_GrammarVersion (\<lambda>t. sg_GrammarVersion_update (\<lambda>_. t)))]"

definition zero_securityConfigModel :: securityConfigModel where
  "zero_securityConfigModel =
     \<lparr>sg_CheckPermissionUsingAcl = False, sg_CheckPermissionUsingPolicy = False, sg_LabelSecurity = False,
      sg_ObjectCreatorHasAccessPermission = False, sg_ObjectCreatorHasGrantPermission = False,
      sg_CheckPermissionUsingAclV2 = False, sg_CheckPermissionUsingPackageV2 = False, sg_SupportACL = False,
      sg_SupportPolicy = False, sg_SupportPackage = False, sg_SupportACLV2 = False, sg_SupportPackageV2 = False,
      sg_CheckPermissionUsingPackage = False, sg_CreatePackage = False, sg_CreatePackageV2 = False,
      sg_AuthorizationVersion = [], sg_EnableDownloadPrivilege = False, sg_GrammarVersion = [], sg_Protected = [],
      sg_Exceptions = []\<rparr>"

text \<open>The decoder sets the fields one by one; an error leaves those that it has set.\<close>

definition decode_config_field :: "xml \<Rightarrow> (securityConfigModel, unit) M" where
  "decode_config_field c m =
     (if x_name c = ''ProjectProtection''
      then (Ret (), m\<lparr>sg_Protected := x_string_or (sg_Protected m) ''Protected'' c,
                      sg_Exceptions := x_string_or (sg_Exceptions m) ''Exceptions'' c\<rparr>)
      else case map_of config_fields (x_name c) of
        None \<Rightarrow> (Ret (), m)
      | Some (TextField get put) \<Rightarrow> (Ret (), put (x_text c) m)
      | Some (BoolField get put) \<Rightarrow>
          (case (if x_text c = [] then Ret False else ParseBool (TrimSpace (x_text c))) of
             Ret b \<Rightarrow> (Ret (), put b m) | Fail err \<Rightarrow> (Fail err, m) | Panic p \<Rightarrow> (Panic p, m)))"

definition marshal_config :: "securityConfigModel \<Rightarrow> xml" where
  "marshal_config m =
     XElem ''securityConfigModel'' []
       (map (\<lambda>(n, f). x_text_elem n (case f of TextField get put \<Rightarrow> get m | BoolField get put \<Rightarrow> if get m then ''true'' else ''false''))
          config_fields @
        [XElem ''ProjectProtection'' [] [x_text_elem ''Protected'' (sg_Protected m), x_text_elem ''Exceptions'' (sg_Exceptions m)] []]) []"

record 'e SecurityConfig =
  sc_restClient :: "'e RestClient"
  sc_projectName :: string
  sc_withoutExceptionPolicy :: bool
  sc_model :: securityConfigModel
  sc_beLoaded :: bool

definition NewSecurityConfig :: "'e RestClient \<Rightarrow> bool \<Rightarrow> string \<Rightarrow> 'e SecurityConfig" where
  "NewSecurityConfig c withoutExceptionPolicy projectName =
     \<lparr>sc_restClient = c, sc_projectName = projectName, sc_withoutExceptionPolicy = withoutExceptionPolicy,
      sc_model = zero_securityConfigModel, sc_beLoaded = False\<rparr>"

text \<open>The model, decoded in place, and \<open>beLoaded\<close>, which is set when the request or the decoder has failed.\<close>

definition on_model :: "(securityConfigModel, unit) M \<Rightarrow> ('e SecurityConfig \<times> 'e, unit) M" where
  "on_model f s = (case f (sc_model (fst s)) of (r, m) \<Rightarrow> (r, (fst s)\<lparr>sc_model := m\<rparr>, snd s))"

definition sc_fetch :: "('e SecurityConfig \<times> 'e, unit) M" where
  "sc_fetch =
     mbind (mget fst) (\<lambda>sc.
     mbind (on_env sc_restClient
       (GetWithModel (sc_restClient sc) (rb_Project (NewResourceBuilder (sc_projectName sc)))
          (Some (if sc_withoutExceptionPolicy sc then [''security_configuration_without_exception_policy'' \<mapsto> []]
                 else [''security_configuration'' \<mapsto> []])) Map.empty
          (\<lambda>doc. case doc of None \<Rightarrow> Fail ErrEOF | Some e \<Rightarrow> Ret e))) (\<lambda>e.
     mfor (\<lambda>c. on_model (decode_config_field c)) (x_children e)))"

definition sc_Load :: "('e SecurityConfig \<times> 'e, unit) M" where
  "sc_Load s =
     (case sc_fetch s of
        (Fail err, (sc, e)) \<Rightarrow> (Fail err, (sc\<lparr>sc_beLoaded := True\<rparr>, e))
      | r \<Rightarrow> r)"

definition HttpHeaderOdpsSupervisionToken :: string where "HttpHeaderOdpsSupervisionToken = ''odps-x-supervision-token''"

definition sc_Update :: "string \<Rightarrow> 'e SecurityConfig \<Rightarrow> ('e, unit) M" where
  "sc_Update supervisionToken sc =
     (let c = sc_restClient sc in
      mbind (mlift (NewRequestWithUrlQuery c PutMethod (rb_Project (NewResourceBuilder (sc_projectName sc)))
                      (Some [''security_configuration'' \<mapsto> []]))) (\<lambda>req.
      DoWithParseFunc c (req\<lparr>rq_body := bytes_of (xml_Marshal (marshal_config (sc_model sc))),
          rq_header := set_if (supervisionToken \<noteq> []) HttpHeaderOdpsSupervisionToken supervisionToken (rq_header req)\<rparr>)
        (\<lambda>_. Ret ())))"


text \<open>The switches of the configuration. The way they are written, turning project protection off turns it on.\<close>

definition EnableProjectProtection :: "'e SecurityConfig \<Rightarrow> 'e SecurityConfig" where
  "EnableProjectProtection sc = sc\<lparr>sc_model := (sc_model sc)\<lparr>sg_Protected := ''true'', sg_Exceptions := []\<rparr>\<rparr>"

definition EnableProjectProtectionWithExceptionPolicy :: "string \<Rightarrow> 'e SecurityConfig \<Rightarrow> 'e SecurityConfig" where
  "EnableProjectProtectionWithExceptionPolicy exceptionPolicy sc =
     sc\<lparr>sc_model := (sc_model sc)\<lparr>sg_Protected := ''true'', sg_Exceptions := exceptionPolicy\<rparr>\<rparr>"

definition DisableProjectProtection :: "'e SecurityConfig \<Rightarrow> 'e SecurityConfig" where
  "DisableProjectProtection sc = sc\<lparr>sc_model := (sc_model sc)\<lparr>sg_Protected := ''true'', sg_Exceptions := []\<rparr>\<rparr>"

definition ProjectProtection :: "'e SecurityConfig \<Rightarrow> bool" where
  "ProjectProtection sc \<longleftrightarrow> sg_Protected (sc_model sc) = ''true''"

subsection \<open>The manager\<close>

record 'e Manager =
  mg_restClient :: "'e RestClient"
  mg_projectName :: string
  mg_securityConfig :: "'e SecurityConfig"

definition NewSecurityManager :: "'e RestClient \<Rightarrow> string \<Rightarrow> 'e Manager" where
  "NewSecurityManager c projectName =
     \<lparr>mg_restClient = c, mg_projectName = projectName, mg_securityConfig = NewSecurityConfig c False projectName\<rparr>"

definition mg_rb :: "'e Manager \<Rightarrow> ResourceBuilder" where "mg_rb sm = NewResourceBuilder (mg_projectName sm)"

definition on_config :: "('e SecurityConfig \<times> 'e, 'a) M \<Rightarrow> ('e Manager \<times> 'e, 'a) M" where
  "on_config m s = (case m (mg_securityConfig (fst s), snd s) of (r, (sc, e)) \<Rightarrow> (r, ((fst s)\<lparr>mg_securityConfig := sc\<rparr>, e)))"

text \<open>The configuration is returned beside an error too: it is the one of the manager.\<close>

definition GetSecurityConfig :: "bool \<Rightarrow> ('e Manager \<times> 'e, 'e SecurityConfig) M" where
  "GetSecurityConfig withoutExceptionPolicy =
     mbind (mget (\<lambda>s. mg_securityConfig (fst s))) (\<lambda>sc.
     if sc_beLoaded sc then mret sc
     else mseq (on_session (\<lambda>sm. sm\<lparr>mg_securityConfig := sc\<lparr>sc_withoutExceptionPolicy := withoutExceptionPolicy\<rparr>\<rparr>))
          (mseq (on_config sc_Load) (mget (\<lambda>s. mg_securityConfig (fst s)))))"

definition SetSecurityConfig :: "'e SecurityConfig \<Rightarrow> string \<Rightarrow> ('e Manager \<times> 'e, unit) M" where
  "SetSecurityConfig config supervisionToken s =
     (case sc_Update supervisionToken config (snd s) of (r, e) \<Rightarrow> (r, ((fst s)\<lparr>mg_securityConfig := config\<rparr>, e)))"

text \<open>\<open>CheckPermissionV1\<close> sets a header on the request before anything looks at the error of its construction.\<close>

definition CheckPermissionV1 :: "'e Manager \<Rightarrow> Permission \<Rightarrow> ('e, PermissionCheckResult) M" where
  "CheckPermissionV1 sm p =
     (let c = mg_restClient sm in
      case NewRequest c PostMethod (rb_Auth (mg_rb sm)) of
        Ret req \<Rightarrow> DoWithModel c (req\<lparr>rq_body := bytes_of (pm_MarshalJSON p),
            rq_header := (rq_header req)(HttpHeaderContentType \<mapsto> ''application/json'')\<rparr>)
          (x_Decode ''Auth'' (\<lambda>e. Ret (x_PermissionCheckResult e)))
      | _ \<Rightarrow> mpanic NilDereference)"

definition CheckPermissionV0 ::
    "'e Manager \<Rightarrow> PermissionObjectType \<Rightarrow> string \<Rightarrow> PermissionActionType \<Rightarrow> string list \<Rightarrow> ('e, PermissionCheckResult) M" where
  "CheckPermissionV0 sm objectType objectName actionType columns =
     GetWithModel (mg_restClient sm) (rb_Auth (mg_rb sm))
       (Some (set_if (columns \<noteq> []) ''columns'' (Join columns '','')
         [''type'' \<mapsto> PermissionObjectType_String objectType, ''name'' \<mapsto> objectName,
          ''grantee'' \<mapsto> PermissionActionType_String actionType])) Map.empty
       (x_Decode ''Auth'' (\<lambda>e. Ret (x_PermissionCheckResult e)))"

definition mg_getPolicy :: "'e Manager \<Rightarrow> string \<Rightarrow> string \<Rightarrow> ('e, byte list) M" where
  "mg_getPolicy sm resource policyType =
     GetWithParseFunc (mg_restClient sm) resource (Some [policyType \<mapsto> []]) Map.empty (\<lambda>res. ReadAll (rs_Body res))"

definition mg_setPolicy :: "'e Manager \<Rightarrow> string \<Rightarrow> string \<Rightarrow> string \<Rightarrow> ('e, unit) M" where
  "mg_setPolicy sm resource policyType policy =
     mbind (mlift (NewRequestWithUrlQuery (mg_restClient sm) PutMethod resource (Some [policyType \<mapsto> []]))) (\<lambda>req.
     DoWithParseFunc (mg_restClient sm) (req\<lparr>rq_body := bytes_of policy,
         rq_header := set_if (policyType = ''security_policy'') HttpHeaderContentType ''application/json'' (rq_header req)\<rparr>)
       (\<lambda>_. Ret ()))"

definition mg_GetPolicy :: "'e Manager \<Rightarrow> ('e, byte list) M" where
  "mg_GetPolicy sm = mg_getPolicy sm (rb_Project (mg_rb sm)) ''policy''"

definition mg_SetPolicy :: "'e Manager \<Rightarrow> string \<Rightarrow> ('e, unit) M" where
  "mg_SetPolicy sm policy = mg_setPolicy sm (rb_Project (mg_rb sm)) ''policy'' policy"

definition mg_GetSecurityPolicy :: "'e Manager \<Rightarrow> ('e, byte list) M" where
  "mg_GetSecurityPolicy sm = mg_getPolicy sm (rb_Project (mg_rb sm)) ''security_policy''"

definition mg_SetSecurityPolicy :: "'e Manager \<Rightarrow> string \<Rightarrow> ('e, unit) M" where
  "mg_SetSecurityPolicy sm policy = mg_setPolicy sm (rb_Project (mg_rb sm)) ''security_policy'' policy"

definition mg_GetRolePolicy :: "'e Manager \<Rightarrow> string \<Rightarrow> ('e, byte list) M" where
  "mg_GetRolePolicy sm roleName = mg_getPolicy sm (rb_Role (mg_rb sm) roleName) ''policy''"

definition mg_SetRolePolicy :: "'e Manager \<Rightarrow> string \<Rightarrow> string \<Rightarrow> ('e, unit) M" where
  "mg_SetRolePolicy sm roleName policy = mg_setPolicy sm (rb_Role (mg_rb sm) roleName) ''policy'' policy"

text \<open>The lists of users and of roles; the elements are read like a single user or role, into fresh values.\<close>

definition x_users :: "'e Manager \<Rightarrow> xml \<Rightarrow> 'e User list" where
  "x_users sm e = map (\<lambda>u. read_user u (NewUser [] (mg_restClient sm) (mg_projectName sm))) (x_path [''User''] e)"

definition x_roles :: "'e Manager \<Rightarrow> xml \<Rightarrow> 'e Role list" where
  "x_roles sm e = map (\<lambda>r. read_role r (NewRole [] (mg_restClient sm) (mg_projectName sm))) (x_path [''Role''] e)"

definition mg_ListUsers :: "'e Manager \<Rightarrow> ('e, 'e User list) M" where
  "mg_ListUsers sm =
     GetWithModel (mg_restClient sm) (rb_Users (mg_rb sm)) None Map.empty (x_Decode ''Users'' (\<lambda>e. Ret (x_users sm e)))"

definition mg_ListRoles :: "'e Manager \<Rightarrow> ('e, 'e Role list) M" where
  "mg_ListRoles sm =
     GetWithModel (mg_restClient sm) (rb_Roles (mg_rb sm)) None Map.empty (x_Decode ''Roles'' (\<lambda>e. Ret (x_roles sm e)))"

definition mg_listRolesForUser :: "'e Manager \<Rightarrow> string \<Rightarrow> string \<Rightarrow> ('e, 'e Role list) M" where
  "mg_listRolesForUser sm userIdOrName typ =
     GetWithModel (mg_restClient sm) (rb_User (mg_rb sm) userIdOrName) (Some (set_if (typ \<noteq> []) ''type'' typ [''role'' \<mapsto> []])) Map.empty
       (x_Decode ''Roles'' (\<lambda>e. Ret (x_roles sm e)))"

definition ListRolesForUserWithName :: "'e Manager \<Rightarrow> string \<Rightarrow> ('e, 'e Role list) M" where
  "ListRolesForUserWithName sm userName = mg_listRolesForUser sm userName ''displayname''"

text \<open>The type is not passed on.\<close>

definition ListRolesForUserWithId :: "'e Manager \<Rightarrow> string \<Rightarrow> string \<Rightarrow> ('e, 'e Role list) M" where
  "ListRolesForUserWithId sm userId typ = mg_listRolesForUser sm userId []"

definition ListUsersForRole :: "'e Manager \<Rightarrow> string \<Rightarrow> ('e, 'e User list) M" where
  "ListUsersForRole sm roleName =
     GetWithModel (mg_restClient sm) (rb_Role (mg_rb sm) roleName) (Some [''usesrs'' \<mapsto> []]) Map.empty
       (x_Decode ''Users'' (\<lambda>e. Ret (x_users sm e)))"

definition GenerateAuthorizationToken :: "'e Manager \<Rightarrow> string \<Rightarrow> ('e, string) M" where
  "GenerateAuthorizationToken sm policy =
     mbind (mlift (NewRequestWithUrlQuery (mg_restClient sm) PostMethod (rb_Authorization (mg_rb sm))
                     (Some [''sign_bearer_token'' \<mapsto> []]))) (\<lambda>req.
     DoWithModel (mg_restClient sm) (req\<lparr>rq_body := bytes_of policy,
         rq_header := (rq_header req)(HttpHeaderContentType \<mapsto> ''application/json'')\<rparr>)
       (x_Decode ''Authorization'' (\<lambda>e. Ret (x_string [''Result''] e))))"

subsection \<open>Authorization queries\<close>

record 'e AuthQueryInstance =
  aq_result :: string
  aq_sm :: "'e Manager option"
  aq_authId :: string
  aq_isSync :: bool

definition newAuthQueryInstance :: "'e Manager \<Rightarrow> string \<Rightarrow> 'e AuthQueryInstance" where
  "newAuthQueryInstance sm authId = \<lparr>aq_result = [], aq_sm = Some sm, aq_authId = authId, aq_isSync = False\<rparr>"

definition newAuthQueryInstanceWithResult :: "string \<Rightarrow> 'e AuthQueryInstance" where
  "newAuthQueryInstanceWithResult r = \<lparr>aq_result = r, aq_sm = None, aq_authId = [], aq_isSync = True\<rparr>"

definition mg_Run :: "'e Manager \<Rightarrow> string \<Rightarrow> bool \<Rightarrow> string \<Rightarrow> ('e, 'e AuthQueryInstance) M" where
  "mg_Run sm query jsonOutput supervisionToken =
     DoXmlWithParseFunc (mg_restClient sm) PostMethod (rb_Authorization (mg_rb sm)) None
       (set_if (supervisionToken \<noteq> []) HttpHeaderOdpsSupervisionToken supervisionToken Map.empty)
       (XElem ''Authorization'' [] [x_text_elem ''Query'' query,
          x_text_elem ''ResponseInJsonFormat'' (if jsonOutput then ''true'' else ''false'')] [])
       (\<lambda>res. x_Decode ''Authorization'' (\<lambda>e. Ret (if rs_StatusCode res = 200
            then newAuthQueryInstanceWithResult (x_string [''Result''] e)
            else newAuthQueryInstance sm (x_string [''Result''] e))) (rs_xml res))"

text \<open>
  One turn of the loop that waits, on the result and the status that the turns before have left in
  the model: what it returns, or nothing, after a sleep.
\<close>

definition auth_turn ::
    "(int \<Rightarrow> 'e \<Rightarrow> 'e) \<Rightarrow> 'e Manager \<Rightarrow> string \<Rightarrow> ((string \<times> string) \<times> 'e, string option) M" where
  "auth_turn sleep sm authId =
     mbind (mget fst) (\<lambda>(result, status).
     mbind (on_env (\<lambda>_. mg_restClient sm)
       (GetWithModel (mg_restClient sm) (rb_AuthorizationId (mg_rb sm) authId) None Map.empty
         (x_Decode ''AuthorizationQuery'' (\<lambda>e. Ret (x_string_or result ''Result'' e, x_string_or status ''Status'' e))))) (\<lambda>(r, st).
     if st = ''Terminated'' then mret (Some r)
     else if st = ''Failed'' then mfail (ErrMsg (''Authorization query failed: '' @ r))
     else (\<lambda>s. (Ret None, ((r, st), sleep Second (snd s))))))"

definition aq_WaitForSuccess :: "(int \<Rightarrow> 'e \<Rightarrow> 'e) \<Rightarrow> 'e AuthQueryInstance \<Rightarrow> 'e \<Rightarrow> (string outcome \<times> 'e) option" where
  "aq_WaitForSuccess sleep ai e =
     (if aq_isSync ai then Some (Ret (aq_result ai), e)
      else case aq_sm ai of
        None \<Rightarrow> Some (Panic NilDereference, e)
      | Some sm \<Rightarrow> map_option (\<lambda>(r, s). (r, snd s)) (poll (auth_turn sleep sm (aq_authId ai)) (([], []), e)))"

definition RunQuery :: "(int \<Rightarrow> 'e \<Rightarrow> 'e) \<Rightarrow> 'e Manager \<Rightarrow> string \<Rightarrow> bool \<Rightarrow> string \<Rightarrow> 'e \<Rightarrow> (string outcome \<times> 'e) option" where
  "RunQuery sleep sm query jsonOutput supervisionToken e =
     (case mg_Run sm query jsonOutput supervisionToken e of
        (Ret ai, e') \<Rightarrow> aq_WaitForSuccess sleep ai e'
      | (Fail err, e') \<Rightarrow> Some (Fail err, e')
      | (Panic p, e') \<Rightarrow> Some (Panic p, e'))"


subsection \<open>Properties\<close>

lemma on_model_keeps: "on_model f s = (r, s') \<Longrightarrow> sc_beLoaded (fst s') = sc_beLoaded (fst s)"
  by (auto simp: on_model_def split: prod.splits)

lemma decode_keeps:
  "mfor (\<lambda>c. on_model (decode_config_field c)) cs s = (r, s') \<Longrightarrow> sc_beLoaded (fst s') = sc_beLoaded (fst s)"
proof (induction cs arbitrary: s)
  case (Cons c cs)
  obtain r1 s1 where s1: "on_model (decode_config_field c) s = (r1, s1)" by (cases "on_model (decode_config_field c) s")
  with Cons.prems have "s' = s1 \<or> mfor (\<lambda>c. on_model (decode_config_field c)) cs s1 = (r, s')"
    by (cases r1) (auto simp: mseq_def mbind_def)
  with Cons.IH on_model_keeps [OF s1] show ?case by fastforce
qed (simp add: mret_def)

lemma sc_fetch_keeps: "sc_fetch (sc, e) = (r, (sc', e')) \<Longrightarrow> sc_beLoaded sc' = sc_beLoaded sc"
  by (auto simp: sc_fetch_def mbind_def mget_def on_env_def split: prod.splits outcome.splits dest: decode_keeps)

lemma sc_Load_loaded:
  "sc_Load (sc, e) = (r, (sc', e')) \<Longrightarrow> sc_beLoaded sc' \<longleftrightarrow> sc_beLoaded sc \<or> (\<exists>err. r = Fail err)"
  using sc_fetch_keeps by (fastforce simp: sc_Load_def split: prod.splits outcome.splits)

text \<open>
  The cache of a project's security configuration works the wrong way round. A configuration that could not be
  loaded is remembered: the next call returns it, with whatever the failed load left in it, without asking the
  server and without an error. A configuration that was loaded is not remembered.
\<close>

theorem security_config_cache:
  assumes "GetSecurityConfig w (sm, e) = (r, (sm', e'))" and "\<not> sc_beLoaded (mg_securityConfig sm)"
  shows "(\<exists>err. r = Fail err) \<longleftrightarrow> GetSecurityConfig w' (sm', e'') = (Ret (mg_securityConfig sm'), (sm', e'')) \<and>
      sc_beLoaded (mg_securityConfig sm')"
proof -
  let ?sc = "(mg_securityConfig sm)\<lparr>sc_withoutExceptionPolicy := w\<rparr>"
  obtain r0 sc' e0 where l: "sc_Load (?sc, e) = (r0, (sc', e0))" by (metis prod.collapse)
  then have "mg_securityConfig sm' = sc' \<and> (\<exists>err. r = Fail err) = (\<exists>err. r0 = Fail err)"
    using assms by (cases r0) (auto simp: GetSecurityConfig_def mseq_def mbind_def mget_def on_session_def on_config_def)
  with sc_Load_loaded [OF l] assms(2) show ?thesis
    by (auto simp: GetSecurityConfig_def mbind_def mget_def mret_def)
qed

lemma DisableProjectProtection_protects: "ProjectProtection (DisableProjectProtection sc)"
  by (simp add: DisableProjectProtection_def ProjectProtection_def)

lemma instance_permission_ignores_instance:
  "pm_ObjectType p = ObjectTypeInstance \<Longrightarrow> pm_Resource (p\<lparr>pm_ObjectName := i\<rparr>) = rb_Function (NewResourceBuilder (pm_ProjectName p)) (pm_ProjectName p)"
  by (simp add: pm_Resource_def)

text \<open>
  The answers that do not end an authorization query, with what they have put into the model: a result and a status, of which an answer
  without the element leaves the old one, and no status that is \<open>Terminated\<close> or \<open>Failed\<close>.
\<close>

definition auth_answer :: "'e Manager \<Rightarrow> string \<Rightarrow> string \<times> string \<Rightarrow> ('e, string \<times> string) M" where
  "auth_answer sm authId old =
     GetWithModel (mg_restClient sm) (rb_AuthorizationId (mg_rb sm) authId) None Map.empty
       (x_Decode ''AuthorizationQuery'' (\<lambda>d. Ret (x_string_or (fst old) ''Result'' d, x_string_or (snd old) ''Status'' d)))"

inductive unanswered :: "(int \<Rightarrow> 'e \<Rightarrow> 'e) \<Rightarrow> 'e Manager \<Rightarrow> string \<Rightarrow> nat \<Rightarrow>
    (string \<times> string) \<times> 'e \<Rightarrow> (string \<times> string) \<times> 'e \<Rightarrow> bool" for sleep sm authId where
  here: "unanswered sleep sm authId 0 s s"
| more: "auth_answer sm authId old e = (Ret (result, status), e') \<Longrightarrow> status \<noteq> ''Terminated'' \<Longrightarrow> status \<noteq> ''Failed'' \<Longrightarrow>
    unanswered sleep sm authId n ((result, status), sleep Second e') t \<Longrightarrow> unanswered sleep sm authId (Suc n) (old, e) t"

lemma auth_turn_iff:
  "auth_turn sleep sm i (old, e) = (Ret None, t) \<longleftrightarrow>
     (\<exists>result status e'. auth_answer sm i old e = (Ret (result, status), e') \<and> status \<noteq> ''Terminated'' \<and> status \<noteq> ''Failed'' \<and>
        t = ((result, status), sleep Second e'))"
  "auth_turn sleep sm i (old, e) = (Ret (Some x), t) \<longleftrightarrow>
     (\<exists>e'. auth_answer sm i old e = (Ret (x, ''Terminated''), e') \<and> t = (old, e'))"
  "auth_answer sm i old e = (Ret (x, ''Failed''), e') \<Longrightarrow>
     auth_turn sleep sm i (old, e) = (Fail (ErrMsg (''Authorization query failed: '' @ x)), (old, e'))"
  by (cases old; auto simp: auth_turn_def auth_answer_def mbind_def mget_def mret_def mfail_def on_env_def
      split: prod.splits outcome.splits if_splits)+

lemma turns_unanswered: "turns (auth_turn sleep sm i) n s t \<longleftrightarrow> unanswered sleep sm i n s t"
proof
  show "turns (auth_turn sleep sm i) n s t \<Longrightarrow> unanswered sleep sm i n s t"
  proof (induction rule: turns.induct)
    case (more s t n u)
    then show ?case by (cases s) (auto simp: auth_turn_iff intro: unanswered.intros)
  qed (rule unanswered.here)
  show "unanswered sleep sm i n s t \<Longrightarrow> turns (auth_turn sleep sm i) n s t"
    by (induction rule: unanswered.induct) (auto simp: auth_turn_iff intro: turns.intros)
qed

text \<open>
  C29. An authorization query that was not answered at once returns what the server said when it said that the query was over. It
  returns a text exactly when this is the result in the answer that made the status \<open>Terminated\<close>, after answers none of which had
  made it \<open>Terminated\<close> or \<open>Failed\<close>; an answer that makes it \<open>Failed\<close> ends it with an error; and it does not return only when every
  request is answered and the status never becomes one of the two.
\<close>

theorem authorization_query_waits:
  assumes "\<not> aq_isSync ai" and "aq_sm ai = Some sm"
  shows "(aq_WaitForSuccess sleep ai e = None \<longleftrightarrow> (\<forall>n. \<exists>t. unanswered sleep sm (aq_authId ai) n (([], []), e) t)) \<and>
    (aq_WaitForSuccess sleep ai e = Some (Ret x, e') \<longleftrightarrow>
       (\<exists>n old e1. unanswered sleep sm (aq_authId ai) n (([], []), e) (old, e1) \<and>
          auth_answer sm (aq_authId ai) old e1 = (Ret (x, ''Terminated''), e'))) \<and>
    (\<forall>n old e1. unanswered sleep sm (aq_authId ai) n (([], []), e) (old, e1) \<and>
          auth_answer sm (aq_authId ai) old e1 = (Ret (x, ''Failed''), e') \<longrightarrow>
       aq_WaitForSuccess sleep ai e = Some (Fail (ErrMsg (''Authorization query failed: '' @ x)), e'))"
proof -
  let ?turn = "auth_turn sleep sm (aq_authId ai)"
  have w: "aq_WaitForSuccess sleep ai e = map_option (\<lambda>(r, s). (r, snd s)) (poll ?turn (([], []), e))"
    using assms by (simp add: aq_WaitForSuccess_def)
  have "aq_WaitForSuccess sleep ai e = Some (Ret x, e') \<longleftrightarrow>
       (\<exists>n old e1. unanswered sleep sm (aq_authId ai) n (([], []), e) (old, e1) \<and>
          auth_answer sm (aq_authId ai) old e1 = (Ret (x, ''Terminated''), e'))"
    by (auto simp: w poll_Ret_iff turns_unanswered auth_turn_iff)
  moreover have "aq_WaitForSuccess sleep ai e = Some (Fail (ErrMsg (''Authorization query failed: '' @ x)), e')"
    if "unanswered sleep sm (aq_authId ai) n (([], []), e) (old, e1)" "auth_answer sm (aq_authId ai) old e1 = (Ret (x, ''Failed''), e')"
    for n old e1
  proof -
    have "poll ?turn (([], []), e) = poll ?turn (old, e1)" using poll_turns that(1) by (simp add: turns_unanswered [symmetric])
    then show ?thesis using poll_ends [of ?turn "(old, e1)"] auth_turn_iff(3) [OF that(2), of sleep] by (simp add: w)
  qed
  ultimately show ?thesis by (simp add: w poll_None turns_unanswered) blast
qed

definition example_manager :: "(nat \<Rightarrow> HttpResponse outcome) \<Rightarrow> nat Manager" where
  "example_manager answers = NewSecurityManager (example_client answers) ''p''"

theorem security_config_cache_witness:
  "\<exists>sm'. GetSecurityConfig False (example_manager (\<lambda>n. Fail (ErrIO ''reset'')), 0) = (Fail (ErrIO ''reset''), (sm', 1)) \<and>
     GetSecurityConfig False (sm', 5) = (Ret (mg_securityConfig sm'), (sm', 5))"
proof -
  obtain sm' where g: "GetSecurityConfig False (example_manager (\<lambda>n. Fail (ErrIO ''reset'')), 0) = (Fail (ErrIO ''reset''), (sm', 1))"
    by (simp add: GetSecurityConfig_def sc_Load_def sc_fetch_def on_config_def example_manager_def example_client_def
        NewSecurityManager_def NewSecurityConfig_def run_request_defs)
  moreover have "\<not> sc_beLoaded (mg_securityConfig (example_manager (\<lambda>n. Fail (ErrIO ''reset''))))"
    by (simp add: example_manager_def NewSecurityManager_def NewSecurityConfig_def)
  ultimately show ?thesis using security_config_cache [OF g, of False 5] by blast
qed

definition auth_answers :: "nat \<Rightarrow> HttpResponse outcome" where
  "auth_answers n =
     Ret (xml_response (XElem ''AuthorizationQuery'' []
       (if n = 0 then [x_text_elem ''Status'' ''Running''] else [x_text_elem ''Result'' ''OK'', x_text_elem ''Status'' ''Terminated'']) []))"

theorem authorization_query_waits_witness:
  "aq_WaitForSuccess (\<lambda>k n. n) (newAuthQueryInstance (example_manager auth_answers) ''a'') 0 = Some (Ret ''OK'', 2)"
proof -
  let ?ai = "newAuthQueryInstance (example_manager auth_answers) ''a''"
  have a: "auth_answer (example_manager auth_answers) ''a'' ([], []) 0 = (Ret ([], ''Running''), 1)"
    "auth_answer (example_manager auth_answers) ''a'' ([], ''Running'') 1 = (Ret (''OK'', ''Terminated''), 2)"
    by (simp_all add: auth_answer_def example_manager_def NewSecurityManager_def example_client_def run_request_defs auth_answers_def
        xml_response_def x_Decode_def x_string_or_def x_text_elem_def)
  have "unanswered (\<lambda>k n. n) (example_manager auth_answers) ''a'' (Suc 0) (([], []), 0) (([], ''Running''), 1)"
    by (rule unanswered.more [OF a(1) _ _ unanswered.here]) simp_all
  with a(2) show ?thesis
    using authorization_query_waits [of ?ai "example_manager auth_answers" "\<lambda>k n. n" 0 "''OK''" 2]
    by (auto simp: newAuthQueryInstance_def)
qed

end
