(* ===== verification/LogViews.thy ===== *)
theory LogViews
  imports Security Dsn
begin

section \<open>Log views: \<open>odps/logview.go\<close>\<close>

text \<open>
  A log view keeps the hosts that the server has told it and works on the options of its \<open>Odps\<close> value, which are a
  field of the model's record: the Go record reaches them through a pointer, and \<open>RegionId\<close> of \<open>odps.go\<close>
  changes them. A host is taken to be the text of a URL without fragment that is not an opaque one.
  Errors that are only logged are dropped.
\<close>

record OdpsOptions =
  oo_LogViewVersion :: int
  oo_RegionId :: string

definition NewOdpsOptions :: "(OdpsOptions \<Rightarrow> OdpsOptions) list \<Rightarrow> OdpsOptions" where
  "NewOdpsOptions opts = fold (\<lambda>opt. opt) opts \<lparr>oo_LogViewVersion = 0, oo_RegionId = ''cn''\<rparr>"

definition WithRegionId :: "string \<Rightarrow> OdpsOptions \<Rightarrow> OdpsOptions" where
  "WithRegionId regionId opts = opts\<lparr>oo_RegionId := regionId\<rparr>"

definition WithLogViewVersion :: "int \<Rightarrow> OdpsOptions \<Rightarrow> OdpsOptions" where
  "WithLogViewVersion version opts = opts\<lparr>oo_LogViewVersion := version\<rparr>"

definition LogViewHostDefault :: string where "LogViewHostDefault = ''https://logview.alibaba-inc.com''"
definition JobInsightHostDefault :: string where "JobInsightHostDefault = ''https://maxcompute.console.aliyun.com''"

record 'e LogView =
  lv_odpsIns :: "'e Odps"
  lv_Options :: OdpsOptions
  lv_logViewHost :: "string option"
  lv_jobInsightHost :: "string option"
  lv_version :: int

text \<open>The host that the server names, asked for while none is known; no host when the request fails or the answer is blank.\<close>

definition fetch_host ::
    "string \<Rightarrow> ('e LogView \<Rightarrow> string option) \<Rightarrow> (string \<Rightarrow> 'e LogView \<Rightarrow> 'e LogView) \<Rightarrow> ('e LogView \<times> 'e, string option) M" where
  "fetch_host resource get put s =
     (case get (fst s) of
        Some h \<Rightarrow> (Ret (Some h), s)
      | None \<Rightarrow>
          (case GetWithParseFunc (od_restClient (lv_odpsIns (fst s))) resource None Map.empty
                  (\<lambda>res. omap string_of (ReadAll (rs_Body res))) (snd s) of
             (Ret result, e) \<Rightarrow> if TrimSpace result = [] then (Ret None, (fst s, e)) else (Ret (Some result), (put result (fst s), e))
           | (Fail _, e) \<Rightarrow> (Ret None, (fst s, e))
           | (Panic p, e) \<Rightarrow> (Panic p, (fst s, e))))"

definition getLogViewHost :: "('e LogView \<times> 'e, string option) M" where
  "getLogViewHost = fetch_host ''/logview/host'' lv_logViewHost (\<lambda>h. lv_logViewHost_update (\<lambda>_. Some h))"

definition getJobInsightHost :: "('e LogView \<times> 'e, string option) M" where
  "getJobInsightHost = fetch_host ''/webconsole/host'' lv_jobInsightHost (\<lambda>h. lv_jobInsightHost_update (\<lambda>_. Some h))"

definition NewLogView :: "OdpsOptions \<Rightarrow> 'e Odps \<Rightarrow> ('e, 'e LogView) M" where
  "NewLogView options od e =
     (let lv = \<lparr>lv_odpsIns = od, lv_Options = options, lv_logViewHost = None, lv_jobInsightHost = None, lv_version = 0\<rparr> in
      if oo_LogViewVersion options = 0
      then (case getJobInsightHost (lv, e) of
              (r, (_, e')) \<Rightarrow> (omap (\<lambda>h. lv\<lparr>lv_version := (if h = None then 1 else 2)\<rparr>) r, e'))
      else (Ret (lv\<lparr>lv_version := oo_LogViewVersion options\<rparr>), e))"

definition unknown_version :: "'e LogView \<Rightarrow> string" where
  "unknown_version lv = ''Unknown LogView Version '' @ Itoa (lv_version lv)"

definition host_or :: "string \<Rightarrow> string option \<Rightarrow> string" where
  "host_or d h = (case h of None \<Rightarrow> d | Some x \<Rightarrow> x)"

definition LogViewHost :: "('e LogView \<times> 'e, string) M" where
  "LogViewHost =
     mbind (mget fst) (\<lambda>lv.
     if lv_version lv = 1 then mbind getLogViewHost (\<lambda>h. mret (host_or LogViewHostDefault h))
     else if lv_version lv = 2 then mbind getJobInsightHost (\<lambda>h. mret (host_or JobInsightHostDefault h))
     else mret (unknown_version lv))"

definition SetLogViewHost :: "string \<Rightarrow> 'e LogView \<Rightarrow> 'e LogView" where
  "SetLogViewHost h lv = lv\<lparr>lv_logViewHost := Some h\<rparr>"

definition SetJobInsightHost :: "string \<Rightarrow> 'e LogView \<Rightarrow> 'e LogView" where
  "SetJobInsightHost h lv = lv\<lparr>lv_jobInsightHost := Some h\<rparr>"

text \<open>\<open>RegionId\<close> of \<open>Odps\<close>: the default region is replaced by that of the default project, once it could be loaded.\<close>

definition RegionId :: "('e LogView \<times> 'e, string) M" where
  "RegionId s =
     (let (lv, e) = s in
      if oo_RegionId (lv_Options lv) = ''cn''
      then (case pj_Load (lv_odpsIns lv) (od_DefaultProject (lv_odpsIns lv), e) of
              (Ret _, (p, e')) \<Rightarrow>
                (Ret (pm_RegionId (pj_model p)), (lv\<lparr>lv_Options := WithRegionId (pm_RegionId (pj_model p)) (lv_Options lv)\<rparr>, e'))
            | (Fail _, (_, e')) \<Rightarrow> (Ret ''cn'', (lv, e'))
            | (Panic x, (_, e')) \<Rightarrow> (Panic x, (lv, e')))
      else (Ret (oo_RegionId (lv_Options lv)), s))"

text \<open>The arguments of a view: the endpoint, the project, the instance.\<close>

definition view_args :: "'e Odps \<Rightarrow> Instance \<Rightarrow> url_values \<Rightarrow> url_values" where
  "view_args od ins q =
     uv_Set ''i'' (in_id ins) (uv_Set ''p'' (in_projectName ins) (uv_Set ''h'' (rc_endpoint (od_restClient od)) q))"

definition token_policy :: "Instance \<Rightarrow> int \<Rightarrow> string" where
  "token_policy ins hours =
     (let q = (\<lambda>s. DQ # s @ [DQ]); nl = (\<lambda>ws l. NL # ws @ l); tab = CHR 0x09 in
      ''{'' @ nl (tab # ''  '') (q ''expires_in_hours'' @ '': '' @ Itoa hours @ '','') @
      nl (tab # ''  '') (q ''policy'' @ '': {'') @
      nl (tab # ''      '') (q ''Statement'' @ '': [{'') @
      nl (tab # ''          '') (q ''Action'' @ '': ['' @ q ''odps:Read'' @ ''],'') @
      nl (tab # ''          '') (q ''Effect'' @ '': '' @ q ''Allow'' @ '','') @
      nl ''              '' (q ''Resource'' @ '': '' @
        q (''acs:odps:*:projects/'' @ in_projectName ins @ ''/instances/'' @ in_id ins)) @
      nl [tab] ''        }],'' @
      nl [tab] (''        '' @ q ''Version'' @ '': '' @ q ''1'') @
      nl ''      '' ''}}'')"

definition generateInstanceToken :: "'e LogView \<Rightarrow> Instance \<Rightarrow> int \<Rightarrow> ('e, string) M" where
  "generateInstanceToken lv ins hours =
     GenerateAuthorizationToken (NewSecurityManager (od_restClient (lv_odpsIns lv)) (in_projectName ins)) (token_policy ins hours)"

definition generateLogView :: "Instance \<Rightarrow> int \<Rightarrow> ('e LogView \<times> 'e, string) M" where
  "generateLogView ins hours =
     mbind (mget fst) (\<lambda>lv.
     mbind (on_env (\<lambda>_. od_restClient (lv_odpsIns lv)) (generateInstanceToken lv ins hours)) (\<lambda>token.
     mbind getLogViewHost (\<lambda>h.
     mbind (mlift (url_Parse (host_or LogViewHostDefault h))) (\<lambda>u.
     mret (URL_String (u\<lparr>url_Path := ''logview'',
       url_RawQuery := Values_Encode (uv_Set ''token'' token (view_args (lv_odpsIns lv) ins (ParseQuery (url_RawQuery u))))\<rparr>))))))"

definition generateJobInsight :: "Instance \<Rightarrow> ('e LogView \<times> 'e, string) M" where
  "generateJobInsight ins =
     mbind (mget fst) (\<lambda>lv.
     mbind getJobInsightHost (\<lambda>h.
     mbind (mlift (url_Parse (host_or JobInsightHostDefault h))) (\<lambda>u.
     mbind RegionId (\<lambda>regionId.
     mret (URL_String (u\<lparr>url_Path := regionId @ ''/job-insights'',
       url_RawQuery := Values_Encode (view_args (lv_odpsIns lv) ins (ParseQuery (url_RawQuery u)))\<rparr>))))))"

definition GenerateLogView :: "Instance \<Rightarrow> int \<Rightarrow> ('e LogView \<times> 'e, string) M" where
  "GenerateLogView ins hours =
     mbind (mget fst) (\<lambda>lv.
     if lv_version lv = 2 then generateJobInsight ins
     else if lv_version lv = 1 then generateLogView ins hours
     else mfail (ErrMsg (unknown_version lv)))"

definition GenerateLogViewV2 :: "'e Odps \<Rightarrow> Instance \<Rightarrow> string \<Rightarrow> string" where
  "GenerateLogViewV2 od ins regionID =
     JobInsightHostDefault @ ''/'' @ regionID @ ''/job-insights?h='' @ rc_endpoint (od_restClient od) @ ''&p='' @
     in_projectName ins @ ''&i='' @ in_id ins"


subsection \<open>What a link says\<close>

lemma uv_wf_Add: "uv_wf q \<Longrightarrow> uv_wf (uv_Add k v q)"
proof -
  assume q: "uv_wf q"
  have "set (AList.update k vs q) \<subseteq> set q \<union> {(k, vs)}" for vs
    by (induction q) auto
  moreover have "(case map_of q k of None \<Rightarrow> [] | Some vs \<Rightarrow> vs) @ [v] \<noteq> []" by simp
  ultimately have "list_all (\<lambda>kv. snd kv \<noteq> []) (uv_Add k v q)"
    using q unfolding uv_Add_def uv_wf_def list_all_iff by fastforce
  then show ?thesis using q distinct_update [of q k] by (simp add: uv_wf_def uv_Add_def)
qed

lemma uv_wf_parse_pair: "uv_wf q \<Longrightarrow> uv_wf (parse_pair p q)"
  by (auto simp: parse_pair_def uv_wf_Add split: outcome.splits prod.splits)

lemma uv_wf_ParseQuery: "uv_wf (ParseQuery s)"
proof -
  have "uv_wf q \<Longrightarrow> uv_wf (fold parse_pair ps q)" for ps q
    by (induction ps arbitrary: q) (simp_all add: uv_wf_parse_pair)
  then show ?thesis unfolding ParseQuery_def using uv_wf_ops(1) by blast
qed

lemma Encode_chars: "list_all (\<lambda>c. c \<noteq> CHR ''#'' \<and> \<not> is_ctl c) (Values_Encode q)"
  unfolding list_all_iff using set_Encode escaped_char_not_ctl not_escaped_char(12) [of EncodeQueryComponent]
  by (fastforce simp: is_ctl_def)

lemma URL_String_relative:
  assumes "url_Host u \<noteq> []" "p \<noteq> []" "hd p \<noteq> CHR ''/''" "p \<noteq> ''*''"
  shows "URL_String (u\<lparr>url_Path := p\<rparr>) = URL_String (u\<lparr>url_Path := ''/'' @ p\<rparr>)"
proof -
  have slash: "url_escape EncodePath (CHR ''/'' # p) = CHR ''/'' # url_escape EncodePath p"
    by (simp add: url_escape_def escape_char_def shouldEscape_def)
  have "url_escape EncodePath p \<noteq> [] \<and> hd (url_escape EncodePath p) \<noteq> CHR ''/''"
    using assms(2,3) by (cases p) (auto simp: url_escape_def escape_char_def percent_def)
  then show ?thesis using assms by (simp add: URL_String_def EscapedPath_def slash)
qed

definition names :: "url_values \<Rightarrow> (string \<times> string) list \<Rightarrow> bool" where
  "names q kvs \<longleftrightarrow> list_all (\<lambda>(k, v). uv_Get q k = v) kvs"

definition view_names :: "'e Odps \<Rightarrow> Instance \<Rightarrow> (string \<times> string) list" where
  "view_names od ins = [(''h'', rc_endpoint (od_restClient od)), (''p'', in_projectName ins), (''i'', in_id ins)]"

lemma names_tl: "names q (kv # kvs) \<Longrightarrow> names q kvs"
  by (simp add: names_def)

lemma link_parses:
  assumes "url_ok u" "p \<noteq> []" "p \<noteq> ''*''" "uv_wf q"
  shows "\<exists>v. url_Parse (URL_String (u\<lparr>url_Path := p, url_RawQuery := Values_Encode q\<rparr>)) = Ret v \<and> url_Host v = url_Host u \<and>
    ParseQuery (url_RawQuery v) = sort_key fst q"
proof -
  let ?p = "if hd p = CHR ''/'' then p else ''/'' @ p"
  let ?v = "u\<lparr>url_RawQuery := Values_Encode q, url_Path := ?p\<rparr>"
  have swap: "u\<lparr>url_Path := p, url_RawQuery := r\<rparr> = u\<lparr>url_RawQuery := r, url_Path := p\<rparr>" for r by simp
  have u: "URL_String (u\<lparr>url_Path := p, url_RawQuery := Values_Encode q\<rparr>) = URL_String ?v"
    unfolding swap using URL_String_relative [of "u\<lparr>url_RawQuery := Values_Encode q\<rparr>" p] assms(1-3)
    by (simp add: url_ok_def host_ok_def)
  have "url_ok ?v" using assms(1,2) Encode_chars by (simp add: url_ok_def path_ok_def)
  then show ?thesis using u url_Parse_String [of ?v] ParseQuery_Encode [of q] assms(4)
    by (simp add: uv_wf_def list_all_iff)
qed

lemma view_args_names:
  assumes "uv_wf q"
  shows "names (sort_key fst (view_args od ins q)) (view_names od ins)"
    and "names (sort_key fst (uv_Set ''token'' t (view_args od ins q))) ((''token'', t) # view_names od ins)"
proof -
  have "uv_wf (view_args od ins q)" "uv_wf (uv_Set ''token'' t (view_args od ins q))"
    by (simp_all add: view_args_def uv_wf_Set assms)
  then have d: "distinct (map fst (view_args od ins q))" "distinct (map fst (uv_Set ''token'' t (view_args od ins q)))"
    by (simp_all add: uv_wf_def)
  show "names (sort_key fst (view_args od ins q)) (view_names od ins)"
    "names (sort_key fst (uv_Set ''token'' t (view_args od ins q))) ((''token'', t) # view_names od ins)"
    by (simp_all add: names_def view_names_def uv_Get_sorted [OF d(1)] uv_Get_sorted [OF d(2)]) (simp_all add: view_args_def map_of_uv_Set)
qed

text \<open>
  C27. A log view link names the run it was made for: read back as a URL it has the host that the log view knows, and its query gives
  exactly the endpoint, the project and the instance, whatever characters they have and whatever query the host had.
\<close>

theorem log_view_link:
  assumes "GenerateLogView ins hours (lv, e) = (Ret s, t)"
    and "lv_logViewHost lv = Some (URL_String u1)" and "url_ok u1"
    and "lv_jobInsightHost lv = Some (URL_String u2)" and "url_ok u2"
  shows "\<exists>v. url_Parse s = Ret v \<and> url_Host v = url_Host (if lv_version lv = 2 then u2 else u1) \<and>
    names (ParseQuery (url_RawQuery v)) (view_names (lv_odpsIns lv) ins)"
proof -
  have qs: "uv_wf (view_args (lv_odpsIns lv) ins (ParseQuery x))"
    "uv_wf (uv_Set ''token'' tok (view_args (lv_odpsIns lv) ins (ParseQuery x)))" for x tok
    by (simp_all add: view_args_def uv_wf_Set uv_wf_ParseQuery)
  have nm: "names (sort_key fst (view_args (lv_odpsIns lv) ins (ParseQuery x))) (view_names (lv_odpsIns lv) ins)"
    "names (sort_key fst (uv_Set ''token'' tok (view_args (lv_odpsIns lv) ins (ParseQuery x)))) (view_names (lv_odpsIns lv) ins)"
    for x tok
    using view_args_names [OF uv_wf_ParseQuery [of x]] names_tl by blast+
  show ?thesis
  proof (cases "lv_version lv = 2")
    case True
    then obtain r where "s = URL_String (u2\<lparr>url_Path := r @ ''/job-insights'',
        url_RawQuery := Values_Encode (view_args (lv_odpsIns lv) ins (ParseQuery (url_RawQuery u2)))\<rparr>)"
      using assms(1,4,5) url_Parse_String [OF assms(5)]
      by (auto simp: GenerateLogView_def generateJobInsight_def mbind_Ret_iff mget_def getJobInsightHost_def fetch_host_def host_or_def
          mlift_def mret_def)
    with link_parses [OF assms(5) _ _ qs(1), of "r @ ''/job-insights''"] nm(1) True show ?thesis by force
  next
    case False
    then obtain tok where "s = URL_String (u1\<lparr>url_Path := ''logview'',
        url_RawQuery := Values_Encode (uv_Set ''token'' tok (view_args (lv_odpsIns lv) ins (ParseQuery (url_RawQuery u1))))\<rparr>)"
      using assms(1-3) url_Parse_String [OF assms(3)]
      by (auto simp: GenerateLogView_def generateLogView_def mbind_Ret_iff mget_def getLogViewHost_def fetch_host_def host_or_def
          on_env_def mfail_def mlift_def mret_def split: if_splits prod.splits)
    with link_parses [OF assms(3) _ _ qs(2), of "''logview''"] nm(2) False show ?thesis by force
  qed
qed


theorem log_view_link_witness:
  "\<exists>s v lv. GenerateLogView (NewInstance ''p&i=0'' ''i d'') 10 (lv, 3) = (Ret s, (lv, 3 :: nat)) \<and> url_Parse s = Ret v \<and>
     url_Host v = ''h.com:80'' \<and> uv_Get (ParseQuery (url_RawQuery v)) ''p'' = ''p&i=0'' \<and>
     uv_Get (ParseQuery (url_RawQuery v)) ''i'' = ''i d''"
proof -
  let ?lv = "\<lparr>lv_odpsIns = example_od (\<lambda>n. Ret conflict), lv_Options = NewOdpsOptions [WithRegionId ''eu''],
     lv_logViewHost = Some (URL_String example_endpoint), lv_jobInsightHost = Some (URL_String example_endpoint), lv_version = 2\<rparr>"
  let ?ins = "NewInstance ''p&i=0'' ''i d''"
  have ok: "url_ok example_endpoint" using example_config_ok by (simp add: config_ok_def)
  obtain s where s: "GenerateLogView ?ins 10 (?lv, 3) = (Ret s, (?lv, 3 :: nat))"
    by (simp add: GenerateLogView_def generateJobInsight_def getJobInsightHost_def fetch_host_def host_or_def RegionId_def
        NewOdpsOptions_def WithRegionId_def url_Parse_String [OF ok] mbind_def mget_def mlift_def mret_def)
  from log_view_link [OF s _ ok _ ok] obtain v where "url_Parse s = Ret v" "url_Host v = ''h.com:80''"
    "names (ParseQuery (url_RawQuery v)) (view_names (lv_odpsIns ?lv) ?ins)"
    by (auto simp: example_endpoint_def)
  with s show ?thesis by (auto simp: names_def view_names_def NewInstance_def)
qed

end
