(* ===== verification/Connections.thy ===== *)
theory Connections
  imports LogViews Tunnels Rows ArgQueries
begin

section \<open>Connections of the SQL driver: \<open>sqldriver/connection.go\<close>, \<open>sqldriver/driver.go\<close>\<close>

text \<open>
  A query of the driver from end to end: the arguments are put into the text, the text runs as a task, the task is
  waited for, a tunnel is found and the result is opened through it. A call is \<open>None\<close> when it never returns.
  \<^item> The pointer \<open>odpsIns\<close> is the \<open>Odps\<close> value with its options.
  \<^item> The link of a log view is only printed; asking for it can fail and can take requests.
  \<^item> \<open>decode\<close> turns a compressed body into its bytes.
\<close>

record 'e connection =
  cn_odpsIns :: "'e Odps"
  cn_Options :: OdpsOptions
  cn_config :: Config

text \<open>The options that \<open>NewOdps\<close> makes: an account may come with a region.\<close>

definition account_options :: "Account \<Rightarrow> OdpsOptions" where
  "account_options account =
     (case account of
        AccAliyun a \<Rightarrow> if aa_regionId a \<noteq> [] then WithRegionId (aa_regionId a) (NewOdpsOptions []) else NewOdpsOptions []
      | _ \<Rightarrow> NewOdpsOptions [])"

definition newConnection :: "string \<Rightarrow> string \<Rightarrow> 'e Odps \<Rightarrow> Config \<Rightarrow> 'e connection" where
  "newConnection corporation date base config =
     \<lparr>cn_odpsIns = GenOdps corporation date base config, cn_Options = account_options (GenAccount config), cn_config = config\<rparr>"

definition OdpsDriver_Open ::
    "string \<Rightarrow> string \<Rightarrow> 'e Odps \<Rightarrow> (string \<Rightarrow> string) \<Rightarrow> string \<Rightarrow> 'e connection outcome" where
  "OdpsDriver_Open corporation date base env name = omap (newConnection corporation date base) (ParseDSN env name)"

text \<open>Run a text and wait for it: the instance, as it is after the wait.\<close>

definition run_sql :: "'e connection \<Rightarrow> string \<Rightarrow> 'e \<Rightarrow> (Instance outcome \<times> 'e) option" where
  "run_sql cn query e =
     (case ExecSQlWithHints (cn_odpsIns cn) query (cf_Hints (cn_config cn)) e of
        None \<Rightarrow> None
      | Some (Ret (ins, None), e1) \<Rightarrow>
          map_option (\<lambda>(r, s). (omap (\<lambda>_. fst s) r, snd s)) (WaitForSuccess (cn_odpsIns cn) (ins, e1))
      | Some (Ret (ins, Some err), e1) \<Rightarrow> Some (Fail err, e1)
      | Some (Fail err, e1) \<Rightarrow> Some (Fail err, e1)
      | Some (Panic p, e1) \<Rightarrow> Some (Panic p, e1))"

definition print_log_view :: "'e connection \<Rightarrow> Instance \<Rightarrow> ('e, unit) M" where
  "print_log_view cn ins =
     (if (case cf_Others (cn_config cn) of None \<Rightarrow> False
          | Some m \<Rightarrow> case map_of m ''enableLogview'' of None \<Rightarrow> False | Some v \<Rightarrow> ToLower v = ''true'')
      then mbind (NewLogView (cn_Options cn) (cn_odpsIns cn)) (\<lambda>lv.
           (\<lambda>e. case GenerateLogView ins 10 (lv, e) of (r, (_, e')) \<Rightarrow> (omap (\<lambda>_. ()) r, e')))
      else mret ())"

definition both_configured :: goerr where
  "both_configured =
     ErrMsg ([DQ] @ ''tunnelEndpoint'' @ [DQ] @ '' and '' @ [DQ] @ ''tunnelQuotaName'' @ [DQ] @ '' cannot be configured both'')"

definition cn_tunnelEndpoint :: "'e connection \<Rightarrow> ('e, string) M" where
  "cn_tunnelEndpoint cn =
     (let ep = cf_TunnelEndpoint (cn_config cn); quota = cf_TunnelQuotaName (cn_config cn); od = cn_odpsIns cn in
      if ep \<noteq> [] \<and> quota \<noteq> [] then mfail both_configured
      else mbind (if quota \<noteq> [] then GetTunnelEndpoint od [quota] (od_DefaultProject od) else mret ep) (\<lambda>ep1.
           if ep1 = [] then GetTunnelEndpoint od [] (od_DefaultProject od) else mret ep1))"

text \<open>Open the result of an instance. A result of no records is asked for as one.\<close>

definition open_result ::
    "(decoder \<Rightarrow> source \<Rightarrow> source) \<Rightarrow> 'e connection \<Rightarrow> Instance \<Rightarrow> ('e, rowsReader) M" where
  "open_result decode cn ins =
     mbind (cn_tunnelEndpoint cn) (\<lambda>ep.
     mbind (\<lambda>e. case tn_CreateInstanceResultDownloadSession (od_defaultProject (cn_odpsIns cn)) (in_id ins) []
                      (NewTunnel (cn_odpsIns cn) [ep], e) of (r, (_, e')) \<Rightarrow> (r, e')) (\<lambda>session.
     mbind (is_OpenRecordReader decode session 0 (if is_recordCount session = 0 then 1 else is_recordCount session) 0 []) (\<lambda>reader.
     mret \<lparr>rr_columns = ts_Columns (is_schema session), rr_inner = reader\<rparr>)))"

definition cn_query :: "(decoder \<Rightarrow> source \<Rightarrow> source) \<Rightarrow> 'e connection \<Rightarrow> string \<Rightarrow> 'e \<Rightarrow> (rowsReader outcome \<times> 'e) option" where
  "cn_query decode cn query e =
     (case run_sql cn query e of
        None \<Rightarrow> None
      | Some (Ret ins, e1) \<Rightarrow> Some (mseq (print_log_view cn ins) (open_result decode cn ins) e1)
      | Some (Fail err, e1) \<Rightarrow> Some (Fail err, e1)
      | Some (Panic p, e1) \<Rightarrow> Some (Panic p, e1))"

text \<open>The driver result that \<open>exec\<close> returns is always nil.\<close>

definition cn_exec :: "'e connection \<Rightarrow> string \<Rightarrow> 'e \<Rightarrow> (unit outcome \<times> 'e) option" where
  "cn_exec cn query e = map_option (\<lambda>(r, e'). (omap (\<lambda>_. ()) r, e')) (run_sql cn query e)"

definition after_args :: "string outcome \<Rightarrow> (string \<Rightarrow> 'e \<Rightarrow> ('a outcome \<times> 'e) option) \<Rightarrow> 'e \<Rightarrow> ('a outcome \<times> 'e) option" where
  "after_args sqlStr run e =
     (case sqlStr of Ret q \<Rightarrow> run q e | Fail err \<Rightarrow> Some (Fail err, e) | Panic p \<Rightarrow> Some (Panic p, e))"

definition cn_QueryContext ::
    "((string \<times> bool) list \<Rightarrow> (string \<times> bool) list) \<Rightarrow> ('v \<Rightarrow> string) \<Rightarrow> (decoder \<Rightarrow> source \<Rightarrow> source) \<Rightarrow> 'e connection \<Rightarrow>
       string \<Rightarrow> (string \<times> 'v) list \<Rightarrow> 'e \<Rightarrow> (rowsReader outcome \<times> 'e) option" where
  "cn_QueryContext order sprintv decode cn query args = after_args (namedArgQueryToSql order sprintv query args) (cn_query decode cn)"

definition cn_Query ::
    "('v \<Rightarrow> string) \<Rightarrow> (decoder \<Rightarrow> source \<Rightarrow> source) \<Rightarrow> 'e connection \<Rightarrow> string \<Rightarrow> 'v list \<Rightarrow>
       'e \<Rightarrow> (rowsReader outcome \<times> 'e) option" where
  "cn_Query sprintv decode cn query args = after_args (positionArgQueryToSql sprintv query args) (cn_query decode cn)"

definition cn_ExecContext ::
    "((string \<times> bool) list \<Rightarrow> (string \<times> bool) list) \<Rightarrow> ('v \<Rightarrow> string) \<Rightarrow> 'e connection \<Rightarrow>
       string \<Rightarrow> (string \<times> 'v) list \<Rightarrow> 'e \<Rightarrow> (unit outcome \<times> 'e) option" where
  "cn_ExecContext order sprintv cn query args = after_args (namedArgQueryToSql order sprintv query args) (cn_exec cn)"

definition cn_Exec :: "('v \<Rightarrow> string) \<Rightarrow> 'e connection \<Rightarrow> string \<Rightarrow> 'v list \<Rightarrow> 'e \<Rightarrow> (unit outcome \<times> 'e) option" where
  "cn_Exec sprintv cn query args = after_args (positionArgQueryToSql sprintv query args) (cn_exec cn)"


subsection \<open>What a query promises\<close>

lemma run_sql_Ret:
  assumes "run_sql cn q e = Some (Ret ins, e1)"
  shows "\<exists>ins0 e0. ExecSQlWithHints (cn_odpsIns cn) q (cf_Hints (cn_config cn)) e = Some (Ret (ins0, None), e0) \<and>
    WaitForSuccess (cn_odpsIns cn) (ins0, e0) = Some (Ret (), (ins, e1))"
proof -
  have "omap (\<lambda>_. x) r = Ret y \<longleftrightarrow> r = Ret () \<and> x = y" for r :: "unit outcome" and x y :: Instance
    by (cases r) auto
  with assms show ?thesis by (auto simp: run_sql_def split: option.splits outcome.splits prod.splits)
qed

lemma FieldByName_loop_distinct: "distinct (map col_Name cs) \<Longrightarrow> c \<in> set cs \<Longrightarrow> FieldByName_loop (col_Name c) cs = Some c"
  by (induction cs) auto

lemma find_columns_self: "distinct (map col_Name (ts_Columns s)) \<Longrightarrow> find_columns s (map col_Name (ts_Columns s)) = Ret (ts_Columns s)"
proof -
  assume d: "distinct (map col_Name (ts_Columns s))"
  have "omap_list (\<lambda>n. case FieldByName s n of Some c \<Rightarrow> Ret c | None \<Rightarrow> Fail (ErrMsg (''no column names '' @ n @ '' in table'')))
     (map col_Name cs) = Ret cs" if "set cs \<subseteq> set (ts_Columns s)" for cs
    using that
  proof (induction cs)
    case (Cons c cs)
    then have "FieldByName s (col_Name c) = Some c" using d by (simp add: FieldByName_def FieldByName_loop_distinct)
    with Cons show ?case by simp
  qed simp
  then show ?thesis by (simp add: find_columns_def)
qed


lemma open_result_Ret:
  assumes "open_result decode cn ins e = (Ret rows, e')"
  shows "\<not> (cf_TunnelEndpoint (cn_config cn) \<noteq> [] \<and> cf_TunnelQuotaName (cn_config cn) \<noteq> []) \<and>
    (\<exists>ep e1 session body columns. cn_tunnelEndpoint cn e = (Ret ep, e1) \<and>
       fst (tn_CreateInstanceResultDownloadSession (od_defaultProject (cn_odpsIns cn)) (in_id ins) []
              (NewTunnel (cn_odpsIns cn) [ep], e1)) = Ret session \<and>
       find_columns (is_schema session) (map col_Name (ts_Columns (is_schema session))) = Ret columns \<and>
       rows = \<lparr>rr_columns = ts_Columns (is_schema session), rr_inner = newRecordProtocReader body columns\<rparr>)"
proof -
  from assms obtain ep e1 where ep: "cn_tunnelEndpoint cn e = (Ret ep, e1)"
    and rest: "mbind (\<lambda>e. case tn_CreateInstanceResultDownloadSession (od_defaultProject (cn_odpsIns cn)) (in_id ins) []
                      (NewTunnel (cn_odpsIns cn) [ep], e) of (r, (_, e')) \<Rightarrow> (r, e')) (\<lambda>session.
     mbind (is_OpenRecordReader decode session 0 (if is_recordCount session = 0 then 1 else is_recordCount session) 0 []) (\<lambda>reader.
     mret \<lparr>rr_columns = ts_Columns (is_schema session), rr_inner = reader\<rparr>)) e1 = (Ret rows, e')"
    by (auto simp: open_result_def mbind_Ret_iff)
  from rest obtain session e2 reader where s: "fst (tn_CreateInstanceResultDownloadSession (od_defaultProject (cn_odpsIns cn))
      (in_id ins) [] (NewTunnel (cn_odpsIns cn) [ep], e1)) = Ret session"
    "is_OpenRecordReader decode session 0 (if is_recordCount session = 0 then 1 else is_recordCount session) 0 [] e2 = (Ret reader, e')"
    "rows = \<lparr>rr_columns = ts_Columns (is_schema session), rr_inner = reader\<rparr>"
    by (auto simp: mbind_Ret_iff mret_def split: prod.splits)
  from s(2) obtain body columns where "find_columns (is_schema session) (map col_Name (ts_Columns (is_schema session))) = Ret columns"
    "reader = newRecordProtocReader body columns"
    by (auto simp: is_OpenRecordReader_def requested_columns_def mbind_Ret_iff mlift_def mret_def)
  moreover have "\<not> (cf_TunnelEndpoint (cn_config cn) \<noteq> [] \<and> cf_TunnelQuotaName (cn_config cn) \<noteq> [])"
  proof
    assume "cf_TunnelEndpoint (cn_config cn) \<noteq> [] \<and> cf_TunnelQuotaName (cn_config cn) \<noteq> []"
    with ep show False by (simp add: cn_tunnelEndpoint_def Let_def mfail_def)
  qed
  ultimately show ?thesis using ep s by blast
qed


text \<open>
  A configuration with both a tunnel endpoint and a tunnel quota is refused too late: the text has been run and waited
  for, with all its effects, before the driver looks at the two and answers with an error instead of rows.
\<close>

theorem query_conflict_after_run:
  assumes "cf_TunnelEndpoint (cn_config cn) \<noteq> []" and "cf_TunnelQuotaName (cn_config cn) \<noteq> []"
    and "cf_Others (cn_config cn) = Some []"
  shows "cn_query decode cn q e = map_option (\<lambda>(r, e'). (obind r (\<lambda>_. Fail both_configured), e')) (run_sql cn q e)"
  using assms
  by (auto simp: cn_query_def print_log_view_def open_result_def cn_tunnelEndpoint_def mseq_def mbind_def mret_def mfail_def
      split: option.splits outcome.splits prod.splits)

text \<open>
  With two placeholders or more a query by position never reaches the server: the driver answers with an error, whatever the
  arguments, and the environment stays as it is.
\<close>

theorem positional_query_not_sent:
  assumes "count_list query CHR ''?'' \<ge> 2"
  shows "\<exists>msg. cn_Query sprintv decode cn query args e = Some (Fail (ErrMsg msg), e) \<and>
    cn_Exec sprintv cn query args e = Some (Fail (ErrMsg msg), e)"
  using second_placeholder_refused [OF assms, of sprintv args] by (auto simp: cn_Query_def cn_Exec_def after_args_def)


text \<open>A server for one query without a result: the created instance, its two polls, the session and an empty body.\<close>

definition query_answer :: "nat \<Rightarrow> HttpResponse outcome" where
  "query_answer n =
     (if n = 0 then Ret (conflict\<lparr>rs_StatusCode := 201, rs_Header := [HttpHeaderLocation \<mapsto> ''http://s/instances/i'']\<rparr>)
      else if n < 3 then tasks_answer ''SUCCESS'' (n - 1)
      else if n = 3 then Ret (ok_response (JObj [(''DownloadID'', JStr ''d''), (''RecordCount'', JInt 0)]))
      else Ret (ok_response JNull))"

definition example_connection :: "Config \<Rightarrow> nat connection" where
  "example_connection c = \<lparr>cn_odpsIns = example_od query_answer, cn_Options = NewOdpsOptions [], cn_config = c\<rparr>"

lemma example_posted: "post_task (example_od query_answer) projectName opts mq task 0 = (Ret (''i'', [], []), 1)"
  by (simp add: post_task_def DoXmlWithParseFunc_def run_request_defs example_od_def example_client_def query_answer_def
      conflict_def parse_created_def Header_Get_def HttpHeaderLocation_def HttpHeaderMaxQAQueryCookie_def)

lemma example_created:
  "ExecSQlWithHints (example_od query_answer) q None 0 =
     Some (Ret ((NewInstance ''p'' ''i'')\<lparr>in_taskNameCommitted := ''AnonymousSQLTask''\<rparr>, None), 1)"
proof -
  have loop: "create_loop (example_od query_answer) (post_task (example_od query_answer) projectName opts mq task) t 0 =
      Some (Ret (''i'', [], []), 1)" for projectName opts mq task t
    by (subst create_loop.simps) (simp add: example_posted)
  have od: "od_defaultProject (example_od query_answer) = ''p''" "od_currentSchema (example_od query_answer) = []"
    "od_newUuid (example_od query_answer) 0 = (''u'', 0)" by (simp_all add: example_od_def)
  show ?thesis
    by (simp add: ExecSQlWithHints_def ExecSQlWithOption_def exec_options_def CreateTask_def od loop resolve_maxqa_def mret_def
        NewSQLTaskOptions_def NewCreateInstanceOptions_def NewSQLTaskWithOptions_def created_instance_def AddProperty_def
        NewInstance_def Let_def)
qed

lemma example_waited:
  "\<exists>i. in_id i = ''i'' \<and> WaitForSuccess (example_od query_answer) ((NewInstance ''p'' ''i'')\<lparr>in_taskNameCommitted := n\<rparr>, 1) = Some (Ret (), (i, 3))"
proof -
  have success: "TaskStatusFromStr ''SUCCESS'' = TaskSuccess" by code_simp
  have "\<exists>i. in_id i = ''i'' \<and> wait_turn (example_od query_answer) ((NewInstance ''p'' ''i'')\<lparr>in_taskNameCommitted := n\<rparr>, 1) = (Ret True, (i, 3))"
    by (auto simp: wait_turn_def ins_Load_def GetTasks_def run_request_defs example_od_def example_client_def query_answer_def
        NewInstance_def tasks_answer_def xml_response_def x_Decode_def x_tasks_def x_instance_status_def Header_Get_def
        x_TaskInInstance_def GMTTime_UnmarshalXML_def x_text_elem_def x_task_status_def success)
  then show ?thesis by (auto simp: WaitForSuccess_def NewInstance_def dest: wait_loop_end)
qed

definition example_session_client :: "nat RestClient" where
  "example_session_client =
     SetUserAgent [] ((NewOdpsRestClient (example_client query_answer) ''http://dt'')
       \<lparr>rc_HttpTimeout := 0, rc_TcpConnectionTimeout := DefaultTcpConnectionTimeout\<rparr>)"

lemma example_session_Do:
  "Do example_session_client req 3 = (Ret (ok_response (JObj [(''DownloadID'', JStr ''d''), (''RecordCount'', JInt 0)])), 4)"
  "Do example_session_client req 4 = (Ret (ok_response JNull), 5)"
  by (simp_all add: Do_def run_simps example_session_client_def SetUserAgent_def NewOdpsRestClient_def example_client_def
      query_answer_def ok_response_def)

lemma example_session_url_ok: "rc_url_ok example_session_client u"
  by (simp add: example_session_client_def SetUserAgent_def NewOdpsRestClient_def example_client_def)

lemmas example_session_run = NewRequestWithUrlQuery_def NewRequest_def example_session_url_ok example_session_Do mbind_def mseq_def
  mget_def mlift_def mret_def on_env_def on_session_def Let_def

lemma example_decoded:
  "json_Decode DownloadResModel_json (Some (JObj [(''DownloadID'', JStr ''d''), (''RecordCount'', JInt 0)])) zero_DownloadResModel =
     Ret (zero_DownloadResModel\<lparr>dr_DownloadID := ''d''\<rparr>)"
  by (simp add: json_Decode_def DownloadResModel_json_def zero_DownloadResModel_def ToLower_def to_lower_char_def less_eq_char_def)

lemma example_session_made:
  "\<exists>s t. tn_CreateInstanceResultDownloadSession ''p'' ''i'' [] (NewTunnel (example_od query_answer) [''http://dt''], 3) = (Ret s, (t, 4)) \<and>
     is_RestClient s = example_session_client \<and> is_recordCount s = 0 \<and> ts_Columns (is_schema s) = [] \<and> is_Compressor s = None"
proof -
  let ?t = "NewTunnel (example_od query_answer) [''http://dt'']"
  have "getRestClient ''p'' (?t, 3) = (Ret example_session_client, (?t, 3))"
    by (subst getRestClient_known) (simp_all add: NewTunnel_def example_session_client_def example_od_def tn_TcpConnectionTimeout_def)
  then show ?thesis
    by (simp add: tn_CreateInstanceResultDownloadSession_def with_client_def example_session_run
        CreateInstanceResultDownloadSession_def new_InstanceResultDownloadSession_def newInstanceSessionConfig_def
        is_newInitiationRequest_def is_loadInformation_def example_decoded ok_response_def)
      (simp add: zero_DownloadResModel_def zero_schemaResModel_def toTableSchema_def zero_TableSchema_def mret_def on_session_def)
qed

lemma example_opened:
  assumes "in_id i = ''i''"
  shows "open_result decode (example_connection (NewConfig\<lparr>cf_TunnelEndpoint := ''http://dt''\<rparr>)) i 3 =
       (Ret \<lparr>rr_columns = [], rr_inner = newRecordProtocReader \<lparr>src_in = [], src_end = ErrEOF\<rparr> []\<rparr>, 5)"
proof -
  obtain s t where s: "tn_CreateInstanceResultDownloadSession ''p'' ''i'' [] (NewTunnel (example_od query_answer) [''http://dt''], 3) = (Ret s, (t, 4))"
    "is_RestClient s = example_session_client" "is_recordCount s = 0" "ts_Columns (is_schema s) = []" "is_Compressor s = None"
    using example_session_made by blast
  then have "is_OpenRecordReader decode s 0 1 0 [] 4 = (Ret (newRecordProtocReader \<lparr>src_in = [], src_end = ErrEOF\<rparr> []), 5)"
    by (simp add: is_OpenRecordReader_def requested_columns_def find_columns_def is_newDownloadConnection_def example_session_run
        retried_def Retry_def numeral_3_eq_3 ok_response_def decoder_of_def Header_Get_def)
  moreover have "od_defaultProject (example_od query_answer) = ''p''" by (simp add: example_od_def)
  ultimately show ?thesis using s assms
    by (simp add: open_result_def cn_tunnelEndpoint_def example_connection_def NewConfig_def Let_def mbind_def mret_def)
qed

definition example_dsn :: Config where
  "example_dsn = NewConfig\<lparr>cf_TunnelEndpoint := ''http://dt''\<rparr>"

definition no_rows :: rowsReader where
  "no_rows = \<lparr>rr_columns = [], rr_inner = newRecordProtocReader \<lparr>src_in = [], src_end = ErrEOF\<rparr> []\<rparr>"

lemma example_run:
  "cf_Hints c = None \<Longrightarrow> \<exists>i. in_id i = ''i'' \<and> run_sql (example_connection c) q 0 = Some (Ret i, 3)"
  using example_created [of q] example_waited [of "''AnonymousSQLTask''"] by (auto simp: run_sql_def example_connection_def)

lemma example_query: "cn_query decode (example_connection example_dsn) q 0 = Some (Ret no_rows, 5)"
proof -
  obtain i where "in_id i = ''i''" "run_sql (example_connection example_dsn) q 0 = Some (Ret i, 3)"
    using example_run [of example_dsn q] by (auto simp: example_dsn_def NewConfig_def)
  moreover have "print_log_view (example_connection example_dsn) i = mret ()" for i
    by (simp add: print_log_view_def example_connection_def example_dsn_def NewConfig_def)
  ultimately show ?thesis
    using example_opened [of i decode] by (simp add: cn_query_def mseq_def mbind_def mret_def example_dsn_def no_rows_def)
qed


theorem query_conflict_after_run_witness:
  "cn_query (\<lambda>d s. s) (example_connection (example_dsn\<lparr>cf_TunnelQuotaName := ''fast'', cf_Others := Some []\<rparr>)) ''drop table t;'' 0 =
     Some (Fail both_configured, 3)"
proof -
  let ?c = "example_dsn\<lparr>cf_TunnelQuotaName := ''fast'', cf_Others := Some []\<rparr>"
  obtain i where "run_sql (example_connection ?c) ''drop table t;'' 0 = Some (Ret i, 3)"
    using example_run [of ?c] by (auto simp: example_dsn_def NewConfig_def)
  then show ?thesis
    using query_conflict_after_run [of "example_connection ?c" "\<lambda>d s. s" "''drop table t;''" 0]
    by (simp add: example_connection_def example_dsn_def NewConfig_def)
qed

theorem positional_query_not_sent_witness:
  "\<exists>msg. cn_Query id (\<lambda>d s. s) (example_connection example_dsn) ''select ? + ?;'' [''1'', ''2''] 0 = Some (Fail (ErrMsg msg), 0)"
  using positional_query_not_sent [of "''select ? + ?;''" id "\<lambda>d s. s" "example_connection example_dsn" "[''1'', ''2'']" 0] by auto

end
