(* ===== verification/Dates.thy ===== *)
theory Dates
  imports Columns
begin

section \<open>Dates and times as text\<close>

text \<open>
  Models \<^verbatim>\<open>odps/data/datetime.go\<close>: the four values that hold a \<^verbatim>\<open>time.Time\<close>, their text and the
  functions that read it. \<^verbatim>\<open>Format\<close> and \<^verbatim>\<open>ParseInLocation\<close> of package \<^verbatim>\<open>time\<close> are written out for the three
  layouts \<^verbatim>\<open>2006-01-02\<close>, \<^verbatim>\<open>2006-01-02 15:04:05\<close> and \<^verbatim>\<open>2006-01-02 15:04:05.000\<close>. A zone is an
  argument: the offset in seconds that a value's location has at its instant when it is printed, and
  the function from wall clock seconds to Unix seconds of \<^verbatim>\<open>time.Local\<close> when text is read. The content of
  an error of package \<^verbatim>\<open>time\<close> is not modelled.

  The arithmetic of the calendar is \<open>civil_of_days\<close> of \<open>Columns\<close>; here is its inverse, with both directions.
\<close>

subsection \<open>The calendar\<close>

definition leap_year :: "int \<Rightarrow> bool" where
  "leap_year y \<longleftrightarrow> y mod 4 = 0 \<and> (y mod 100 \<noteq> 0 \<or> y mod 400 = 0)"

definition days_in_month :: "int \<Rightarrow> int \<Rightarrow> int" where
  "days_in_month y m =
     (if m = 2 then (if leap_year y then 29 else 28)
      else if m = 4 \<or> m = 6 \<or> m = 9 \<or> m = 11 then 30 else 31)"

definition civil_ok :: "int \<Rightarrow> int \<Rightarrow> int \<Rightarrow> bool" where
  "civil_ok y m d \<longleftrightarrow> 1 \<le> m \<and> m \<le> 12 \<and> 1 \<le> d \<and> d \<le> days_in_month y m"

text \<open>Years begin in March here, so that the leap day is the last of its year.\<close>

definition march_year :: "int \<Rightarrow> int \<Rightarrow> int" where
  "march_year y m = (if m \<le> 2 then y - 1 else y)"

definition day_of_year :: "int \<Rightarrow> int \<Rightarrow> int" where
  "day_of_year m d = (153 * (if m \<le> 2 then m + 9 else m - 3) + 2) div 5 + d - 1"

definition days_of_civil :: "int \<Rightarrow> int \<Rightarrow> int \<Rightarrow> int" where
  "days_of_civil y m d =
     (let y' = march_year y m; yoe = y' mod 400
      in y' div 400 * 146097 + (365 * yoe + yoe div 4 - yoe div 100 + day_of_year m d) - 719468)"

text \<open>
  A day of an era of 400 years is a century \<open>q\<close>, a cycle of four years \<open>u\<close>, a year \<open>s\<close> of the cycle and a day
  \<open>r\<close> of the year.
\<close>

definition era_day_ok :: "int \<Rightarrow> int \<Rightarrow> int \<Rightarrow> int \<Rightarrow> bool" where
  "era_day_ok q u s r \<longleftrightarrow>
     0 \<le> q \<and> q \<le> 3 \<and> 0 \<le> u \<and> u \<le> 24 \<and> 0 \<le> s \<and> s \<le> 3 \<and> 0 \<le> r \<and>
     (r \<le> 364 \<or> (r = 365 \<and> s = 3 \<and> (u \<noteq> 24 \<or> q = 3)))"

definition era_day :: "int \<Rightarrow> int \<Rightarrow> int \<Rightarrow> int \<Rightarrow> int" where
  "era_day q u s r = 36524 * q + 1461 * u + 365 * s + r"

lemma era_day_bounds:
  assumes "era_day_ok q u s r"
  shows "0 \<le> era_day q u s r" "era_day q u s r < 146097"
  using assms by (auto simp: era_day_ok_def era_day_def)

lemma era_day_year:
  assumes "era_day_ok q u s r"
  defines "doe \<equiv> era_day q u s r"
  shows "(doe - doe div 1460 + doe div 36524 - doe div 146096) div 365 = 100 * q + 4 * u + s"
proof (cases "doe = 146096")
  case True
  then have "q = 3" "u = 24" "s = 3"
    using assms by (auto simp: era_day_ok_def era_day_def)
  then show ?thesis using True by simp
next
  case False
  have rest: "1461 * u + 365 * s + r < 36524"
    using assms False by (auto simp: era_day_ok_def era_day_def)
  have b: "doe div 36524 = q"
    using rest assms by (intro int_div_pos_eq [where r = "1461 * u + 365 * s + r"])
      (auto simp: era_day_ok_def era_day_def)
  have c: "doe div 146096 = 0"
    using era_day_bounds [OF assms(1)] False by (simp add: doe_def)
  let ?t = "24 * q + u + 365 * s + r"
  define e :: int where "e = (if 1460 \<le> ?t then 1 else 0)"
  have a: "doe div 1460 = 25 * q + u + e"
    using assms by (intro int_div_pos_eq [where r = "?t - 1460 * e"])
      (auto simp: era_day_ok_def era_day_def e_def)
  have "(doe - doe div 1460 + q) div 365 = 100 * q + 4 * u + s"
    unfolding a using assms
    by (intro int_div_pos_eq [where r = "r - e"])
      (auto simp: era_day_ok_def era_day_def e_def split: if_splits)
  then show ?thesis unfolding b c by simp
qed

lemma era_day_ex:
  assumes "0 \<le> doe" "doe < 146097"
  obtains q u s r where "era_day_ok q u s r" "era_day q u s r = doe"
proof -
  define q where "q = min 3 (doe div 36524)"
  define r1 where "r1 = doe - 36524 * q"
  have q: "0 \<le> q" "q \<le> 3" using assms by (auto simp: q_def pos_imp_zdiv_nonneg_iff)
  have r1: "0 \<le> r1" "r1 < 36525" "q \<noteq> 3 \<Longrightarrow> r1 < 36524"
    using assms by (auto simp: r1_def q_def min_def)
  define u where "u = r1 div 1461"
  define r2 where "r2 = r1 - 1461 * u"
  have u: "0 \<le> u" "u \<le> 24" using r1 by (auto simp: u_def pos_imp_zdiv_nonneg_iff)
  have r2: "0 \<le> r2" "r2 < 1461" by (auto simp: r2_def u_def)
  define s where "s = min 3 (r2 div 365)"
  define r where "r = r2 - 365 * s"
  have s: "0 \<le> s" "s \<le> 3" using r2 by (auto simp: s_def pos_imp_zdiv_nonneg_iff)
  have r: "0 \<le> r" "r \<le> 365" "s \<noteq> 3 \<Longrightarrow> r \<le> 364"
    using r2 by (auto simp: r_def s_def min_def)
  have leap: "u \<noteq> 24 \<or> q = 3" if "r = 365"
  proof (rule ccontr)
    assume "\<not> ?thesis"
    then have "u = 24" "r1 < 36524" using r1 by auto
    moreover have "s = 3" using that r by auto
    then have "r2 = 1460" using that by (simp add: r_def)
    ultimately show False by (simp add: r2_def)
  qed
  have "era_day_ok q u s r" using q u s r leap by (auto simp: era_day_ok_def)
  moreover have "era_day q u s r = doe" by (simp add: era_day_def r_def r2_def r1_def)
  ultimately show thesis using that by blast
qed

text \<open>The month and the day of a day of the year, by the two formulas of \<open>civil_of_days\<close>.\<close>

definition month_day :: "int \<Rightarrow> int \<times> int" where
  "month_day r =
     (let mp = (5 * r + 2) div 153
      in (if mp < 10 then mp + 3 else mp - 9, r - (153 * mp + 2) div 5 + 1))"

definition month_day_ok :: "int \<Rightarrow> bool" where
  "month_day_ok r =
     (case month_day r of (m, d) \<Rightarrow>
        day_of_year m d = r \<and> 1 \<le> m \<and> m \<le> 12 \<and> 1 \<le> d \<and>
        (if m = 2 then d \<le> 29 \<and> (d = 29 \<longleftrightarrow> r = 365)
         else d \<le> (if m = 4 \<or> m = 6 \<or> m = 9 \<or> m = 11 then 30 else 31) \<and> r \<noteq> 365))"

lemma month_day_all: "list_all month_day_ok [0..365]"
  by code_simp

lemma month_day_ok: "0 \<le> r \<Longrightarrow> r \<le> 365 \<Longrightarrow> month_day_ok r"
  using month_day_all by (simp add: list_all_iff)

lemma day_of_year_all:
  "list_all (\<lambda>m. list_all (\<lambda>d. (m = 2 \<longrightarrow> d \<le> 29) \<longrightarrow> (m \<in> {4, 6, 9, 11} \<longrightarrow> d \<le> 30) \<longrightarrow>
     month_day (day_of_year m d) = (m, d) \<and> 0 \<le> day_of_year m d \<and> day_of_year m d \<le> 365 \<and>
     (day_of_year m d = 365 \<longleftrightarrow> m = 2 \<and> d = 29)) [1..31]) [1..12]"
  by code_simp

lemma day_of_year_props:
  assumes "civil_ok y m d"
  shows "month_day (day_of_year m d) = (m, d)" "0 \<le> day_of_year m d" "day_of_year m d \<le> 365"
    "day_of_year m d = 365 \<longleftrightarrow> m = 2 \<and> d = 29"
proof -
  have "m \<in> set [1..12]" "d \<in> set [1..31]" "m = 2 \<longrightarrow> d \<le> 29" "m \<in> {4, 6, 9, 11} \<longrightarrow> d \<le> 30"
    using assms by (auto simp: civil_ok_def days_in_month_def split: if_splits)
  with day_of_year_all show "month_day (day_of_year m d) = (m, d)" "0 \<le> day_of_year m d"
    "day_of_year m d \<le> 365" "day_of_year m d = 365 \<longleftrightarrow> m = 2 \<and> d = 29"
    unfolding list_all_iff by blast+
qed

text \<open>The Gregorian year in which a year that begins in March ends is a leap year when the last day is its leap day.\<close>

lemma mod_end:
  fixes k n c :: int
  assumes "1 \<le> k" "k \<le> n"
  shows "(k + n * c) mod n = 0 \<longleftrightarrow> k = n"
  using assms by (cases "k = n") auto

lemma leap_year_era:
  assumes "0 \<le> q" "q \<le> 3" "0 \<le> u" "u \<le> 24" "0 \<le> s" "s \<le> 3"
  shows "leap_year (100 * q + 4 * u + s + 1 + era * 400) \<longleftrightarrow> s = 3 \<and> (u \<noteq> 24 \<or> q = 3)"
proof -
  let ?y = "100 * q + 4 * u + s + 1"
  have m4: "(?y + era * 400) mod 4 = 0 \<longleftrightarrow> s = 3"
    using mod_end [of "s + 1" 4 "25 * q + u + 100 * era"] assms by (simp add: algebra_simps)
  have m400: "(?y + era * 400) mod 400 = 0 \<longleftrightarrow> ?y = 400"
    using mod_end [of ?y 400 era] assms by (simp add: algebra_simps)
  have m100: "(?y + era * 400) mod 100 = 0 \<longleftrightarrow> 4 * u + s + 1 = 100"
    using mod_end [of "4 * u + s + 1" 100 "q + 4 * era"] assms by (simp add: algebra_simps)
  show ?thesis unfolding leap_year_def m4 m100 m400 using assms by auto
qed

lemma civil_of_era_day:
  assumes "era_day_ok q u s r" "month_day r = (m, d)"
  shows "civil_of_days (146097 * era + era_day q u s r - 719468) =
    (100 * q + 4 * u + s + era * 400 + (if m \<le> 2 then 1 else 0), m, d)"
proof -
  let ?doe = "era_day q u s r"
  let ?y = "100 * q + 4 * u + s"
  have z: "146097 * era + ?doe - 719468 + 719468 = 146097 * era + ?doe" by simp
  have e: "(146097 * era + ?doe) div 146097 = era" "(146097 * era + ?doe) mod 146097 = ?doe"
    using era_day_bounds [OF assms(1)] by (simp_all add: div_pos_pos_trivial)
  have b: "0 \<le> q" "q \<le> 3" "0 \<le> u" "u \<le> 24" "0 \<le> s" "s \<le> 3"
    using assms(1) by (auto simp: era_day_ok_def)
  have y4: "?y div 4 = 25 * q + u" using b by (intro int_div_pos_eq [where r = s]) auto
  have y100: "?y div 100 = q" using b by (intro int_div_pos_eq [where r = "4 * u + s"]) auto
  have r: "?doe - (365 * ?y + ?y div 4 - ?y div 100) = r"
    unfolding y4 y100 by (simp add: era_day_def)
  show ?thesis
    unfolding civil_of_days_def z e Let_def era_day_year [OF assms(1)] r
    using assms(2) by (auto simp: month_day_def Let_def)
qed

lemma year_split:
  assumes "0 \<le> yoe" "yoe < (400 :: int)"
  obtains q u s where "0 \<le> q" "q \<le> 3" "0 \<le> u" "u \<le> 24" "0 \<le> s" "s \<le> 3" "yoe = 100 * q + 4 * u + s"
proof -
  have "yoe = 100 * (yoe div 100) + 4 * (yoe mod 100 div 4) + yoe mod 100 mod 4" by simp
  moreover have "0 \<le> yoe div 100" "yoe div 100 \<le> 3" using assms by auto
  moreover have "0 \<le> yoe mod 100 div 4" "yoe mod 100 div 4 \<le> 24" by auto
  moreover have "0 \<le> yoe mod 100 mod 4" "yoe mod 100 mod 4 \<le> 3" by auto
  ultimately show thesis using that by blast
qed

lemma era_day_sum:
  assumes "0 \<le> q" "q \<le> 3" "0 \<le> u" "u \<le> 24" "0 \<le> s" "s \<le> (3 :: int)"
  defines "y \<equiv> 100 * q + 4 * u + s"
  shows "365 * y + y div 4 - y div 100 + r = era_day q u s r"
proof -
  have "y div 4 = 25 * q + u" unfolding y_def using assms by (intro int_div_pos_eq [where r = s]) auto
  moreover have "y div 100 = q"
    unfolding y_def using assms by (intro int_div_pos_eq [where r = "4 * u + s"]) auto
  ultimately show ?thesis by (simp add: era_day_def y_def)
qed

theorem civil_of_days_of_civil:
  assumes "civil_ok y m d"
  shows "civil_of_days (days_of_civil y m d) = (y, m, d)"
proof -
  let ?y' = "march_year y m" and ?r = "day_of_year m d"
  obtain q u s where b: "0 \<le> q" "q \<le> 3" "0 \<le> u" "u \<le> 24" "0 \<le> s" "s \<le> 3"
    and yoe: "?y' mod 400 = 100 * q + 4 * u + s"
    using year_split [of "?y' mod 400"] by auto
  have y': "100 * q + 4 * u + s + ?y' div 400 * 400 = ?y'"
    using yoe mod_div_mult_eq [of ?y' 400] by simp
  have "?r = 365 \<longrightarrow> s = 3 \<and> (u \<noteq> 24 \<or> q = 3)"
  proof
    assume "?r = 365"
    then have m: "m = 2" "d = 29" using day_of_year_props(4) [OF assms] by auto
    then have "leap_year y" using assms by (auto simp: civil_ok_def days_in_month_def split: if_splits)
    moreover have "y = 100 * q + 4 * u + s + 1 + ?y' div 400 * 400"
      using y' m by (simp add: march_year_def)
    ultimately show "s = 3 \<and> (u \<noteq> 24 \<or> q = 3)" using leap_year_era [OF b] by metis
  qed
  then have ok: "era_day_ok q u s ?r"
    using b day_of_year_props(2,3) [OF assms] by (auto simp: era_day_ok_def)
  have "days_of_civil y m d = 146097 * (?y' div 400) + era_day q u s ?r - 719468"
    unfolding days_of_civil_def Let_def yoe era_day_sum [OF b, symmetric] by simp
  then show ?thesis
    using civil_of_era_day [OF ok day_of_year_props(1) [OF assms], of "?y' div 400"] y'
    by (simp add: march_year_def split: if_splits)
qed

theorem days_of_civil_of_days:
  assumes "civil_of_days z = (y, m, d)"
  shows "days_of_civil y m d = z \<and> civil_ok y m d"
proof -
  let ?e = "(z + 719468) div 146097"
  obtain q u s r where ok: "era_day_ok q u s r" and doe: "era_day q u s r = (z + 719468) mod 146097"
    by (rule era_day_ex [of "(z + 719468) mod 146097"]) auto
  have z: "z = 146097 * ?e + era_day q u s r - 719468" unfolding doe by simp
  obtain m' d' where md: "month_day r = (m', d')" by fastforce
  let ?Y = "100 * q + 4 * u + s"
  have ymd: "y = ?Y + ?e * 400 + (if m \<le> 2 then 1 else 0)" "m' = m" "d' = d"
    using civil_of_era_day [OF ok md, of ?e] assms z by auto
  have b: "0 \<le> q" "q \<le> 3" "0 \<le> u" "u \<le> 24" "0 \<le> s" "s \<le> 3" "0 \<le> r" "r \<le> 365"
    using ok by (auto simp: era_day_ok_def)
  have my: "march_year y m = ?Y + ?e * 400" using ymd by (auto simp: march_year_def)
  have yd: "march_year y m div 400 = ?e" "march_year y m mod 400 = ?Y"
    unfolding my using b by (simp_all add: div_pos_pos_trivial)
  have mok: "month_day_ok r" using b month_day_ok by blast
  then have doy: "day_of_year m d = r" using md ymd by (simp add: month_day_ok_def)
  have "days_of_civil y m d = z"
    unfolding days_of_civil_def Let_def yd doy era_day_sum [OF b(1-6)] using z by simp
  moreover have "leap_year y" if "r = 365"
  proof -
    have "m = 2" using mok md ymd that by (auto simp: month_day_ok_def split: if_splits)
    then show ?thesis
      using leap_year_era [OF b(1-6), of ?e] ok that ymd by (auto simp: era_day_ok_def algebra_simps)
  qed
  then have "civil_ok y m d"
    using mok md ymd by (auto simp: month_day_ok_def civil_ok_def days_in_month_def split: if_splits)
  ultimately show ?thesis by simp
qed

subsection \<open>\<open>time.Format\<close> and \<open>time.Parse\<close>\<close>

text \<open>Texts of a wall clock second and of the nanoseconds behind it.\<close>

definition date_text :: "int \<Rightarrow> string" where
  "date_text w =
     (case civil_of_days (w div 86400) of
        (y, m, d) \<Rightarrow> pad_int 4 y @ ''-'' @ pad_int 2 m @ ''-'' @ pad_int 2 d)"

definition clock_text :: "int \<Rightarrow> string" where
  "clock_text w =
     (let t = w mod 86400
      in pad_int 2 (t div 3600) @ '':'' @ pad_int 2 (t mod 3600 div 60) @ '':'' @ pad_int 2 (t mod 60))"

definition millis_text :: "int \<Rightarrow> string" where
  "millis_text ns = ''.'' @ pad_int 3 (ns div 1000000)"

definition time_error :: goerr where
  "time_error = ErrMsg ''parsing time''"

fun skip_char :: "char \<Rightarrow> string \<Rightarrow> string outcome" where
  "skip_char c (x # s) = (if x = c then Ret s else Fail time_error)"
| "skip_char c [] = Fail time_error"

text \<open>A space of the layout stands for any number of spaces, and for none at the end of the text.\<close>

definition skip_space :: "string \<Rightarrow> string outcome" where
  "skip_space s =
     (if s \<noteq> [] \<and> s ! 0 \<noteq> CHR '' '' then Fail time_error else Ret (dropWhile (\<lambda>c. c = CHR '' '') s))"

definition getnum :: "bool \<Rightarrow> string \<Rightarrow> (int \<times> string) outcome" where
  "getnum fixed s =
     (if s = [] \<or> \<not> is_digit (s ! 0) then Fail time_error
      else if length s < 2 \<or> \<not> is_digit (s ! 1) then
        (if fixed then Fail time_error else Ret (int (digits_val (take 1 s)), drop 1 s))
      else Ret (int (digits_val (take 2 s)), drop 2 s))"

definition get_year :: "string \<Rightarrow> (int \<times> string) outcome" where
  "get_year s =
     (if length s < 4 \<or> \<not> list_all is_digit (take 4 s) then Fail time_error
      else Ret (int (digits_val (take 4 s)), drop 4 s))"

text \<open>A number with an upper bound, the months from one and the parts of the clock from zero.\<close>

definition get_part :: "bool \<Rightarrow> int \<Rightarrow> int \<Rightarrow> string \<Rightarrow> (int \<times> string) outcome" where
  "get_part fixed lo hi s =
     obind (getnum fixed s) (\<lambda>(n, s). if n < lo \<or> hi < n then Fail time_error else Ret (n, s))"

definition parse_date :: "string \<Rightarrow> ((int \<times> int \<times> int) \<times> string) outcome" where
  "parse_date s =
     obind (get_year s) (\<lambda>(y, s). obind (skip_char CHR ''-'' s) (\<lambda>s.
     obind (get_part True 1 12 s) (\<lambda>(m, s). obind (skip_char CHR ''-'' s) (\<lambda>s.
     obind (getnum True s) (\<lambda>(d, s). Ret ((y, m, d), s))))))"

definition parse_clock :: "string \<Rightarrow> (int \<times> string) outcome" where
  "parse_clock s =
     obind (get_part False 0 23 s) (\<lambda>(h, s). obind (skip_char CHR '':'' s) (\<lambda>s.
     obind (get_part True 0 59 s) (\<lambda>(mi, s). obind (skip_char CHR '':'' s) (\<lambda>s.
     obind (get_part True 0 59 s) (\<lambda>(se, s). Ret (h * 3600 + mi * 60 + se, s))))))"

definition comma_or_period :: "char \<Rightarrow> bool" where
  "comma_or_period c \<longleftrightarrow> c = CHR ''.'' \<or> c = CHR '',''"

text \<open>
  \<^verbatim>\<open>parseNanoseconds(value, nbytes)\<close>: a separator and at most nine places. \<^verbatim>\<open>atoi\<close> takes a sign.
\<close>

definition parse_nanos :: "string \<Rightarrow> nat \<Rightarrow> int outcome" where
  "parse_nanos v nbytes =
     (if \<not> comma_or_period (v ! 0) then Fail time_error
      else
        let n = min nbytes 10; t = take (n - 1) (drop 1 v);
            sign = t \<noteq> [] \<and> (t ! 0 = CHR ''-'' \<or> t ! 0 = CHR ''+''); ds = (if sign then drop 1 t else t);
            ns = (if sign \<and> t ! 0 = CHR ''-'' then - int (digits_val ds) else int (digits_val ds))
        in if \<not> list_all is_digit ds \<or> ns < 0 then Fail time_error else Ret (ns * 10 ^ (10 - n)))"

text \<open>A fraction of a second that the layout does not have is read all the same.\<close>

definition parse_fraction :: "string \<Rightarrow> (int \<times> string) outcome" where
  "parse_fraction s =
     (if 2 \<le> length s \<and> comma_or_period (s ! 0) \<and> is_digit (s ! 1) then
        let n = 1 + length (takeWhile is_digit (drop 1 s))
        in obind (parse_nanos s n) (\<lambda>ns. Ret (ns, drop n s))
      else Ret (0, s))"

text \<open>The fraction \<^verbatim>\<open>.000\<close> of a layout.\<close>

definition parse_millis :: "string \<Rightarrow> (int \<times> string) outcome" where
  "parse_millis s =
     (if length s < 4 then Fail time_error
      else obind (parse_nanos s 4) (\<lambda>ns. Ret (ns, drop 4 s)))"

definition wall_seconds :: "int \<times> int \<times> int \<Rightarrow> int \<Rightarrow> int" where
  "wall_seconds ymd t = (case ymd of (y, m, d) \<Rightarrow> days_of_civil y m d * 86400 + t)"

definition parse_end :: "int \<times> int \<times> int \<Rightarrow> int \<Rightarrow> int \<Rightarrow> string \<Rightarrow> (int \<times> int) outcome" where
  "parse_end ymd t ns s =
     (case ymd of (y, m, d) \<Rightarrow>
        if s \<noteq> [] \<or> d < 1 \<or> days_in_month y m < d then Fail time_error
        else Ret (wall_seconds ymd t, ns))"

definition parse_DateFormat :: "string \<Rightarrow> (int \<times> int) outcome" where
  "parse_DateFormat s = obind (parse_date s) (\<lambda>(ymd, s). parse_end ymd 0 0 s)"

definition parse_DateTimeFormat :: "string \<Rightarrow> (int \<times> int) outcome" where
  "parse_DateTimeFormat s =
     obind (parse_date s) (\<lambda>(ymd, s). obind (skip_space s) (\<lambda>s.
     obind (parse_clock s) (\<lambda>(t, s). obind (parse_fraction s) (\<lambda>(ns, s). parse_end ymd t ns s))))"

definition parse_TimeStampFormat :: "string \<Rightarrow> (int \<times> int) outcome" where
  "parse_TimeStampFormat s =
     obind (parse_date s) (\<lambda>(ymd, s). obind (skip_space s) (\<lambda>s.
     obind (parse_clock s) (\<lambda>(t, s). obind (parse_millis s) (\<lambda>(ns, s). parse_end ymd t ns s))))"

subsection \<open>The values\<close>

definition NewDate :: "string \<Rightarrow> Data outcome" where
  "NewDate s = omap (\<lambda>(w, ns). DDate (GoTime w ns)) (parse_DateFormat s)"

definition NewDateTime :: "(int \<Rightarrow> int) \<Rightarrow> string \<Rightarrow> Data outcome" where
  "NewDateTime Local s = omap (\<lambda>(w, ns). DDateTime (GoTime (Local w) ns)) (parse_DateTimeFormat s)"

definition NewTimestamp :: "(int \<Rightarrow> int) \<Rightarrow> string \<Rightarrow> Data outcome" where
  "NewTimestamp Local s = omap (\<lambda>(w, ns). DTimestamp (GoTime (Local w) ns)) (parse_TimeStampFormat s)"

definition NewTimestampNtz :: "string \<Rightarrow> Data outcome" where
  "NewTimestampNtz s = omap (\<lambda>(w, ns). DTimestampNtz (GoTime w ns)) (parse_TimeStampFormat s)"

definition Date_String :: "int \<Rightarrow> gotime \<Rightarrow> string" where
  "Date_String off t = date_text (t_unix t + off)"

definition DateTime_String :: "int \<Rightarrow> gotime \<Rightarrow> string" where
  "DateTime_String off t = date_text (t_unix t + off) @ '' '' @ clock_text (t_unix t + off)"

definition Timestamp_String :: "int \<Rightarrow> gotime \<Rightarrow> string" where
  "Timestamp_String off t =
     date_text (t_unix t + off) @ '' '' @ clock_text (t_unix t + off) @ millis_text (t_nsec t)"

definition TimestampNtz_String :: "int \<Rightarrow> gotime \<Rightarrow> string" where
  "TimestampNtz_String off t =
     date_text (t_unix t + off) @ '' '' @ clock_text (t_unix t + off) @ millis_text (t_nsec t)"

definition Date_Sql :: "int \<Rightarrow> gotime \<Rightarrow> string" where
  "Date_Sql off t = ''date'' @ [SQ] @ Date_String off t @ [SQ]"

definition DateTime_Sql :: "int \<Rightarrow> gotime \<Rightarrow> string" where
  "DateTime_Sql off t = ''datetime'' @ [SQ] @ DateTime_String off t @ [SQ]"

definition Timestamp_Sql :: "int \<Rightarrow> gotime \<Rightarrow> string" where
  "Timestamp_Sql off t = ''timestamp'' @ [SQ] @ Timestamp_String off t @ [SQ]"

definition TimestampNtz_Sql :: "int \<Rightarrow> gotime \<Rightarrow> string" where
  "TimestampNtz_Sql off t = ''timestamp_ntz'' @ [SQ] @ TimestampNtz_String off t @ [SQ]"

subsection \<open>Numbers of a fixed width\<close>

lemma digit_char_val: "is_digit c \<Longrightarrow> digit_char (digit_val c) = c"
  by (auto simp: is_digit_def digit_char_def digit_val_def less_eq_char_def)

lemma digit_val_less: "is_digit c \<Longrightarrow> digit_val c < 10"
  by (auto simp: is_digit_def digit_val_def less_eq_char_def)

lemma digits_val_bound: "list_all is_digit t \<Longrightarrow> digits_val t < 10 ^ length t"
proof (induction t rule: rev_induct)
  case Nil
  then show ?case by (simp add: digits_val_def)
next
  case (snoc c t)
  then show ?case using digit_val_less [of c] by (simp add: digits_val_snoc)
qed

lemma digits_val_inj:
  "list_all is_digit s \<Longrightarrow> list_all is_digit t \<Longrightarrow> length s = length t \<Longrightarrow>
   digits_val s = digits_val t \<Longrightarrow> s = t"
proof (induction s arbitrary: t rule: rev_induct)
  case (snoc c s)
  obtain t' d where t: "t = t' @ [d]" using snoc.prems(3) by (cases t rule: rev_cases) auto
  have "digit_val c < 10" "digit_val d < 10" using snoc.prems t by (auto intro: digit_val_less)
  moreover have "10 * digits_val s + digit_val c = 10 * digits_val t' + digit_val d"
    using snoc.prems(4) by (simp add: t digits_val_snoc)
  ultimately have "digits_val s = digits_val t'" "digit_val c = digit_val d"
    by presburger+
  moreover have "is_digit c" "is_digit d" using snoc.prems t by auto
  then have "c = d" using \<open>digit_val c = digit_val d\<close> digit_char_val by metis
  ultimately show ?case using snoc.IH [of t'] snoc.prems t by simp
qed simp

lemma digits_val_zeros: "digits_val (replicate k CHR ''0'' @ s) = digits_val s"
  by (induction k) (auto simp: digits_val_def digit_val_def)

lemma show_nat_length: "n < 10 ^ w \<Longrightarrow> 0 < w \<Longrightarrow> length (show_nat n) \<le> w"
proof (induction n arbitrary: w rule: show_nat.induct)
  case (1 n)
  show ?case
  proof (cases "n < 10")
    case True
    then show ?thesis using 1 by (subst show_nat.simps) simp
  next
    case False
    then obtain v where w: "w = Suc v" "0 < v"
      using 1(2,3) by (cases w; cases "w = 1") auto
    then have "n div 10 < 10 ^ v" using 1(2) by (simp add: less_mult_imp_div_less)
    then show ?thesis using 1(1) [of v] False w by (subst show_nat.simps) simp
  qed
qed

text \<open>What \<open>pad_int\<close> prints within its width is the one text of that length with the same value.\<close>

lemma pad_int_props:
  assumes "0 \<le> i" "i < 10 ^ w" "0 < w"
  shows "length (pad_int w i) = w" "list_all is_digit (pad_int w i)" "digits_val (pad_int w i) = nat i"
proof -
  have "nat i < 10 ^ w" using assms by (simp add: nat_less_iff)
  then have "length (show_nat (nat i)) \<le> w" using assms show_nat_length by blast
  moreover have "is_digit CHR ''0''" by (simp add: is_digit_def less_eq_char_def)
  ultimately show "length (pad_int w i) = w" "list_all is_digit (pad_int w i)"
    "digits_val (pad_int w i) = nat i"
    using assms by (simp_all add: pad_int_def pad_zeros_def Itoa_def digits_val_zeros list_all_iff [of _ "replicate _ _"])
qed

lemma pad_int_digits_val:
  assumes "list_all is_digit t" "length t = w" "0 < w"
  shows "pad_int w (int (digits_val t)) = t"
proof -
  have "digits_val t < 10 ^ w" using digits_val_bound [OF assms(1)] assms(2) by simp
  then have "int (digits_val t) < 10 ^ w" by (metis of_nat_less_iff of_nat_numeral of_nat_power)
  then show ?thesis using pad_int_props [of "int (digits_val t)" w] assms
    by (intro digits_val_inj) auto
qed

lemma getnum_pad [simp]:
  assumes "0 \<le> n" "n < 100"
  shows "getnum fixed (pad_int 2 n @ s) = Ret (n, s)"
proof -
  note p = pad_int_props [of n 2]
  obtain a b where "pad_int 2 n = [a, b]"
    using p(1) assms by (auto simp: length_Suc_conv numeral_2_eq_2)
  then show ?thesis using p assms by (auto simp: getnum_def)
qed

lemma get_part_pad [simp]:
  assumes "0 \<le> lo" "lo \<le> n" "n \<le> hi" "hi < 100"
  shows "get_part fixed lo hi (pad_int 2 n @ s) = Ret (n, s)"
  using assms by (simp add: get_part_def)

lemma get_year_pad [simp]:
  assumes "0 \<le> y" "y \<le> 9999"
  shows "get_year (pad_int 4 y @ s) = Ret (y, s)"
  using pad_int_props [of y 4] assms by (simp add: get_year_def)

subsection \<open>Printing and reading\<close>

text \<open>The first second of the year 0 and the first of the year 10000.\<close>

definition year_printable :: "int \<Rightarrow> bool" where
  "year_printable w \<longleftrightarrow> (case civil_of_days (w div 86400) of (y, m, d) \<Rightarrow> 0 \<le> y \<and> y \<le> 9999)"

lemma civil_ok_parts:
  assumes "civil_ok y m d"
  shows "1 \<le> m" "m \<le> 12" "1 \<le> d" "d \<le> days_in_month y m" "0 \<le> d" "d < 100"
  using assms by (auto simp: civil_ok_def days_in_month_def split: if_splits)

lemma parse_date_text:
  assumes "civil_of_days (w div 86400) = (y, m, d)" "0 \<le> y" "y \<le> 9999"
  shows "parse_date (date_text w @ s) = Ret ((y, m, d), s)"
proof -
  have "civil_ok y m d" using days_of_civil_of_days [OF assms(1)] by simp
  note p = civil_ok_parts [OF this]
  show ?thesis using assms p by (simp add: parse_date_def date_text_def)
qed

lemma parse_clock_parts:
  assumes "0 \<le> h" "h \<le> 23" "0 \<le> mi" "mi \<le> 59" "0 \<le> se" "se \<le> 59"
  shows "parse_clock (pad_int 2 h @ '':'' @ pad_int 2 mi @ '':'' @ pad_int 2 se @ s) =
    Ret (h * 3600 + mi * 60 + se, s)"
  using assms by (simp add: parse_clock_def)

lemma parse_clock_text: "parse_clock (clock_text w @ s) = Ret (w mod 86400, s)"
proof -
  let ?t = "w mod 86400"
  have "?t mod 3600 mod 60 = ?t mod 60" by (simp add: mod_mod_cancel)
  then have "?t mod 3600 = ?t mod 3600 div 60 * 60 + ?t mod 60" using div_mult_mod_eq by metis
  then have "?t div 3600 * 3600 + ?t mod 3600 div 60 * 60 + ?t mod 60 = ?t"
    using div_mult_mod_eq [of ?t 3600] by linarith
  moreover have "0 \<le> ?t div 3600" "?t div 3600 \<le> 23" "0 \<le> ?t mod 3600 div 60" "?t mod 3600 div 60 \<le> 59"
    "0 \<le> ?t mod 60" "?t mod 60 \<le> 59"
    by (auto simp: pos_imp_zdiv_nonneg_iff)
  note parse_clock_parts [OF this, of s]
  ultimately show ?thesis by (simp only: clock_text_def Let_def append_assoc)
qed

lemma skip_space_one: "s = [] \<or> s ! 0 \<noteq> CHR '' '' \<Longrightarrow> skip_space (CHR '' '' # s) = Ret s"
  by (cases s) (auto simp: skip_space_def)

lemma digit_not_space: "is_digit c \<Longrightarrow> c \<noteq> CHR '' ''"
  by (auto simp: is_digit_def less_eq_char_def)

lemma clock_text_start: "clock_text w @ s \<noteq> [] \<and> (clock_text w @ s) ! 0 \<noteq> CHR '' ''"
proof -
  let ?h = "pad_int 2 (w mod 86400 div 3600)"
  have h: "length ?h = 2" "list_all is_digit ?h" using pad_int_props [of "w mod 86400 div 3600" 2] by auto
  then obtain a b where "?h = [a, b]" by (auto simp: length_Suc_conv numeral_2_eq_2)
  then show ?thesis using h digit_not_space by (auto simp: clock_text_def Let_def)
qed

lemma parse_millis_text:
  assumes "0 \<le> ns" "ns < 1000000000"
  shows "parse_millis (millis_text ns @ s) = Ret (ns div 1000000 * 1000000, s)"
proof -
  note p = pad_int_props [of "ns div 1000000" 3]
  have b: "0 \<le> ns div 1000000" "ns div 1000000 < 10 ^ 3" using assms by auto
  then obtain a b c where abc: "pad_int 3 (ns div 1000000) = [a, b, c]"
    using p(1) by (auto simp: length_Suc_conv numeral_3_eq_3)
  then have d: "list_all is_digit [a, b, c]" "digits_val [a, b, c] = nat (ns div 1000000)"
    using p(2,3) b by auto
  then have "a \<noteq> CHR ''-''" "a \<noteq> CHR ''+''" by (auto simp: is_digit_def less_eq_char_def)
  then show ?thesis
    using d abc b by (simp add: parse_millis_def millis_text_def parse_nanos_def comma_or_period_def Let_def)
qed

lemma parse_end_civil:
  assumes "civil_of_days (w div 86400) = (y, m, d)"
  shows "parse_end (y, m, d) (w mod 86400) ns [] = Ret (w, ns)"
    and "w mod 86400 = 0 \<Longrightarrow> parse_end (y, m, d) 0 ns [] = Ret (w, ns)"
proof -
  have a: "days_of_civil y m d = w div 86400" "civil_ok y m d"
    using days_of_civil_of_days [OF assms] by auto
  have "w div 86400 * 86400 + w mod 86400 = w" by simp
  with civil_ok_parts [OF a(2)] a(1) show "parse_end (y, m, d) (w mod 86400) ns [] = Ret (w, ns)"
    and "w mod 86400 = 0 \<Longrightarrow> parse_end (y, m, d) 0 ns [] = Ret (w, ns)"
    by (auto simp: parse_end_def wall_seconds_def)
qed

text \<open>Each reader of a fixed width takes only what the printer of that width prints.\<close>

lemma get_year_Ret:
  assumes "get_year s = Ret (y, s')"
  shows "s = pad_int 4 y @ s' \<and> 0 \<le> y \<and> y \<le> 9999"
proof -
  have t: "list_all is_digit (take 4 s)" "length (take 4 s) = 4" "y = int (digits_val (take 4 s))" "s' = drop 4 s"
    using assms by (auto simp: get_year_def split: if_splits)
  then show ?thesis using pad_int_digits_val [of "take 4 s" 4] digits_val_bound [of "take 4 s"] by auto
qed

lemma getnum_Ret:
  assumes "getnum True s = Ret (n, s')"
  shows "s = pad_int 2 n @ s' \<and> 0 \<le> n \<and> n < 100"
proof -
  obtain a b r where s: "s = a # b # r"
    using assms by (cases s; cases "tl s") (auto simp: getnum_def split: if_splits)
  then have t: "list_all is_digit [a, b]" "n = int (digits_val [a, b])" "s' = r"
    using assms by (auto simp: getnum_def split: if_splits)
  then show ?thesis using s pad_int_digits_val [of "[a, b]" 2] digits_val_bound [of "[a, b]"] by auto
qed

lemma skip_char_Ret: "skip_char c s = Ret s' \<longleftrightarrow> s = c # s'"
  by (cases s) auto

lemma parse_date_Ret:
  assumes "parse_date s = Ret ((y, m, d), s')"
  shows "s = pad_int 4 y @ ''-'' @ pad_int 2 m @ ''-'' @ pad_int 2 d @ s' \<and> 0 \<le> y \<and> y \<le> 9999 \<and>
    1 \<le> m \<and> m \<le> 12"
  using assms
  by (auto simp: parse_date_def get_part_def obind_Ret_iff skip_char_Ret split: if_splits
      dest!: get_year_Ret getnum_Ret)

lemma days_of_civil_div:
  assumes "civil_ok y m d" "w = days_of_civil y m d * 86400"
  shows "civil_of_days (w div 86400) = (y, m, d)" "w mod 86400 = 0"
  using assms civil_of_days_of_civil by auto

text \<open>
  C38. \<open>NewDate\<close> reads exactly what \<open>Date.String\<close> prints for midnight (UTC) of a day of the years 0 to 9999, and gives
  that day back: no other text is taken, neither a day that the month does not have nor another way to
  write it, and every such day is.
\<close>

theorem NewDate_iff:
  "NewDate s = Ret (DDate t) \<longleftrightarrow>
     t_nsec t = 0 \<and> t_unix t mod 86400 = 0 \<and> year_printable (t_unix t) \<and> s = Date_String 0 t"
proof
  assume "NewDate s = Ret (DDate t)"
  then have "parse_DateFormat s = Ret (t_unix t, t_nsec t)"
    by (auto simp: NewDate_def omap_def obind_Ret_iff split: prod.splits)
  then obtain y m d s' where p: "parse_date s = Ret ((y, m, d), s')"
    and e: "parse_end (y, m, d) 0 0 s' = Ret (t_unix t, t_nsec t)"
    by (auto simp: parse_DateFormat_def obind_Ret_iff)
  note p = parse_date_Ret [OF p]
  have e: "s' = []" "t_nsec t = 0" "t_unix t = days_of_civil y m d * 86400" "civil_ok y m d"
    using e p by (auto simp: parse_end_def wall_seconds_def civil_ok_def split: if_splits)
  note c = days_of_civil_div [OF e(4,3)]
  then show "t_nsec t = 0 \<and> t_unix t mod 86400 = 0 \<and> year_printable (t_unix t) \<and> s = Date_String 0 t"
    using p e by (simp add: year_printable_def Date_String_def date_text_def)
next
  assume a: "t_nsec t = 0 \<and> t_unix t mod 86400 = 0 \<and> year_printable (t_unix t) \<and> s = Date_String 0 t"
  obtain y m d where c: "civil_of_days (t_unix t div 86400) = (y, m, d)" by (metis prod_cases3)
  then have "parse_date s = Ret ((y, m, d), [])"
    using a parse_date_text [OF c, of "[]"] by (simp add: year_printable_def Date_String_def)
  then have "parse_DateFormat s = Ret (t_unix t, t_nsec t)"
    using a parse_end_civil(2) [OF c] by (simp add: parse_DateFormat_def)
  then show "NewDate s = Ret (DDate t)" by (simp add: NewDate_def)
qed

lemma parse_TimeStampFormat_text:
  assumes "year_printable w" "0 \<le> ns" "ns < 1000000000"
  shows "parse_TimeStampFormat (date_text w @ '' '' @ clock_text w @ millis_text ns) =
    Ret (w, ns div 1000000 * 1000000)"
proof -
  obtain y m d where c: "civil_of_days (w div 86400) = (y, m, d)" by (metis prod_cases3)
  have "skip_space (CHR '' '' # clock_text w @ millis_text ns) = Ret (clock_text w @ millis_text ns)"
    using clock_text_start by (intro skip_space_one) blast
  then show ?thesis
    using parse_date_text [OF c] parse_millis_text [OF assms(2,3), of "[]"] parse_end_civil(1) [OF c] assms(1) c
    by (simp add: parse_TimeStampFormat_def year_printable_def parse_clock_text)
qed

text \<open>
  C25. A text printed from a time stamp is read back with its milliseconds: what lies below is cut off, and nothing else is lost.
  The zone of the process must give the wall clock of the value back.
\<close>

theorem Timestamp_text_roundtrip:
  assumes "year_printable (t_unix t + off)" "0 \<le> t_nsec t" "t_nsec t < 1000000000"
    "Local (t_unix t + off) = t_unix t"
  shows "NewTimestamp Local (Timestamp_String off t) =
      Ret (DTimestamp (GoTime (t_unix t) (t_nsec t div 1000000 * 1000000))) \<and>
    NewTimestampNtz (TimestampNtz_String off t) =
      Ret (DTimestampNtz (GoTime (t_unix t + off) (t_nsec t div 1000000 * 1000000)))"
  using parse_TimeStampFormat_text [OF assms(1-3)] assms(4)
  by (simp add: NewTimestamp_def Timestamp_String_def NewTimestampNtz_def TimestampNtz_String_def)

lemma example_year: "year_printable 951811200"
  by code_simp

theorem Timestamp_text_roundtrip_witness:
  "NewTimestamp (\<lambda>w. w - 28800) (Timestamp_String 28800 (GoTime 951782400 123456789)) =
      Ret (DTimestamp (GoTime 951782400 123000000)) \<and>
    NewTimestampNtz (TimestampNtz_String 28800 (GoTime 951782400 123456789)) =
      Ret (DTimestampNtz (GoTime 951811200 123000000))"
  using Timestamp_text_roundtrip [of "GoTime 951782400 123456789" 28800 "\<lambda>w. w - 28800"]
    example_year
  by simp

text \<open>The text of a \<open>DateTime\<close> has no fraction, but one that is given is read.\<close>

lemma NewDateTime_fraction:
  "NewDateTime (\<lambda>w. w) ''2024-02-29 1:02:03,5'' = Ret (DDateTime (GoTime 1709168523 500000000))"
  by code_simp

lemma NewDate_rejects:
  "NewDate ''2023-02-29'' = Fail time_error"
  "NewDate ''2024-2-29'' = Fail time_error"
  by code_simp+

end
