(* ===== verification/DataText.thy ===== *)
theory DataText
  imports Dates Containers
begin

section \<open>Values as text and as SQL\<close>

text \<open>
  Models the methods \<^verbatim>\<open>String\<close> and \<^verbatim>\<open>Sql\<close> of every value of \<^verbatim>\<open>odps/data\<close>. A value's \<^verbatim>\<open>Sql\<close> is pasted into queries, so
  the properties here say when it is one closed expression and when a value breaks out of it.
  The float verb \<^verbatim>\<open>%E\<close> of \<^verbatim>\<open>fmt\<close> and the zone in which a value's instant is printed are a \<open>printer\<close>.
  A nil element panics where the code calls a method of it.
\<close>

record printer =
  E32 :: "u32 \<Rightarrow> string"
  E64 :: "u64 \<Rightarrow> string"
  zone :: "Data \<Rightarrow> int"

definition hex_upper :: "nat \<Rightarrow> char" where
  "hex_upper n = (if n < 10 then char_of (48 + n) else char_of (55 + n))"

text \<open>\<open>fmt.Sprintf("%X", bytes)\<close>\<close>

definition hex_text :: "byte list \<Rightarrow> string" where
  "hex_text bs = concat (map (\<lambda>b. [hex_upper (unat b div 16), hex_upper (unat b mod 16)]) bs)"

definition Binary_String :: "byte list \<Rightarrow> string" where
  "Binary_String b = ''unhex('' @ [SQ] @ hex_text b @ [SQ] @ '')''"

definition Geography_Sql :: "byte list \<Rightarrow> string" where
  "Geography_Sql g = ''ST_GEOGFROMWKB(unhex('' @ [SQ] @ hex_text g @ [SQ] @ ''))''"

definition Bool_String :: "bool \<Rightarrow> string" where
  "Bool_String b = (if b then ''true'' else ''false'')"

definition TinyInt_Sql :: "i8 \<Rightarrow> string" where
  "TinyInt_Sql i = Itoa (sint i) @ ''Y''"

definition SmallInt_Sql :: "i16 \<Rightarrow> string" where
  "SmallInt_Sql i = Itoa (sint i) @ ''s''"

definition BigInt_Sql :: "i64 \<Rightarrow> string" where
  "BigInt_Sql i = Itoa (sint i) @ ''L''"

lemmas int_sql = TinyInt_Sql_def SmallInt_Sql_def BigInt_Sql_def

definition Float_Sql :: "string \<Rightarrow> string" where
  "Float_Sql t = ''cast('' @ t @ '' as float)''"

definition String_Sql :: "string \<Rightarrow> string" where
  "String_Sql s = [SQ] @ s @ [SQ]"

definition Char_Sql :: "int \<Rightarrow> string \<Rightarrow> string" where
  "Char_Sql len s = ''cast('' @ [SQ] @ s @ [SQ] @ '' as char('' @ Itoa len @ ''))''"

definition VarChar_Sql :: "int \<Rightarrow> string \<Rightarrow> string" where
  "VarChar_Sql len s = ''cast('' @ [SQ] @ s @ [SQ] @ '' as varchar('' @ Itoa len @ ''))''"

definition Json_Sql :: "string \<Rightarrow> string" where
  "Json_Sql s = ''JSON'' @ [SQ] @ s @ [SQ]"

definition IntervalYearMonth_String :: "i32 \<Rightarrow> string" where
  "IntervalYearMonth_String i = Itoa (sint i) @ '' months''"

text \<open>
  The texts of containers, over the text of an element. A nil element is the word \<^verbatim>\<open>null\<close> in SQL, except for the key
  of a map; printed as text, the elements of arrays and structs are not checked for nil.
\<close>

definition Array_Sql :: "(Data \<Rightarrow> string outcome) \<Rightarrow> Data option list \<Rightarrow> string outcome" where
  "Array_Sql sql xs =
     omap (\<lambda>ts. ''array('' @ Join ts '', '' @ '')'')
       (omap_list (\<lambda>x. case x of None \<Rightarrow> Ret ''null'' | Some d \<Rightarrow> sql d) xs)"

definition Array_String :: "(Data \<Rightarrow> string outcome) \<Rightarrow> Data option list \<Rightarrow> string outcome" where
  "Array_String show xs =
     omap (\<lambda>ts. ''array('' @ Join ts '', '' @ '')'')
       (omap_list (\<lambda>x. case x of None \<Rightarrow> Panic NilDereference | Some d \<Rightarrow> show d) xs)"

definition Map_Sql :: "(Data \<Rightarrow> string outcome) \<Rightarrow> (Data option \<times> Data option) list \<Rightarrow> string outcome" where
  "Map_Sql sql kvs =
     omap (\<lambda>ts. ''map('' @ Join ts '', '' @ '')'') (omap_list (\<lambda>kv.
       obind (case fst kv of None \<Rightarrow> Panic NilDereference | Some d \<Rightarrow> sql d) (\<lambda>kt.
       obind (case snd kv of None \<Rightarrow> Ret ''null'' | Some d \<Rightarrow> sql d) (\<lambda>vt.
       Ret (kt @ '', '' @ vt)))) kvs)"

definition Struct_Sql :: "(Data \<Rightarrow> string outcome) \<Rightarrow> (string \<times> Data option) list \<Rightarrow> string outcome" where
  "Struct_Sql sql fs =
     omap (\<lambda>ts. ''named_struct('' @ Join ts '', '' @ '')'') (omap_list (\<lambda>f.
       obind (case snd f of None \<Rightarrow> Ret ''null'' | Some d \<Rightarrow> sql d) (\<lambda>t.
       Ret ([SQ] @ fst f @ [SQ] @ '', '' @ t))) fs)"

definition Struct_String :: "(Data \<Rightarrow> string outcome) \<Rightarrow> (string \<times> Data option) list \<Rightarrow> string outcome" where
  "Struct_String show fs =
     omap (\<lambda>ts. ''struct<'' @ Join ts '','' @ ''>'') (omap_list (\<lambda>f.
       obind (case snd f of None \<Rightarrow> Panic NilDereference | Some d \<Rightarrow> show d) (\<lambda>t.
       Ret (fst f @ '':'' @ t))) fs)"

lemma Array_Sql_cong [fundef_cong]:
  "xs = ys \<Longrightarrow> (\<And>d. Some d \<in> set ys \<Longrightarrow> f d = g d) \<Longrightarrow> Array_Sql f xs = Array_Sql g ys"
  unfolding Array_Sql_def by (rule arg_cong [where f = "omap _"], rule omap_list_cong) (auto split: option.splits)

lemma Array_String_cong [fundef_cong]:
  "xs = ys \<Longrightarrow> (\<And>d. Some d \<in> set ys \<Longrightarrow> f d = g d) \<Longrightarrow> Array_String f xs = Array_String g ys"
  unfolding Array_String_def by (rule arg_cong [where f = "omap _"], rule omap_list_cong) (auto split: option.splits)

lemma Map_Sql_cong [fundef_cong]:
  assumes "kvs = kvs'" "\<And>kv d. kv \<in> set kvs' \<Longrightarrow> fst kv = Some d \<or> snd kv = Some d \<Longrightarrow> f d = g d"
  shows "Map_Sql f kvs = Map_Sql g kvs'"
  unfolding Map_Sql_def
  by (rule arg_cong [where f = "omap _"], rule omap_list_cong) (use assms in \<open>auto split: option.splits intro!: obind_cong\<close>)

lemma Struct_Sql_cong [fundef_cong]:
  assumes "fs = fs'" "\<And>x d. x \<in> set fs' \<Longrightarrow> snd x = Some d \<Longrightarrow> f d = g d"
  shows "Struct_Sql f fs = Struct_Sql g fs'"
  unfolding Struct_Sql_def
  by (rule arg_cong [where f = "omap _"], rule omap_list_cong) (use assms in \<open>auto split: option.splits intro!: obind_cong\<close>)

lemma Struct_String_cong [fundef_cong]:
  assumes "fs = fs'" "\<And>x d. x \<in> set fs' \<Longrightarrow> snd x = Some d \<Longrightarrow> f d = g d"
  shows "Struct_String f fs = Struct_String g fs'"
  unfolding Struct_String_def
  by (rule arg_cong [where f = "omap _"], rule omap_list_cong) (use assms in \<open>auto split: option.splits intro!: obind_cong\<close>)

lemmas container_text = Array_Sql_def Array_String_def Map_Sql_def Struct_Sql_def Struct_String_def

lemma element_size [termination_simp]:
  "Some d \<in> set xs \<Longrightarrow> size d < Suc (size_list (size_option size) xs)"
  "kv \<in> set kvs \<Longrightarrow> fst kv = Some d \<or> snd kv = Some d \<Longrightarrow>
   size d < Suc (size_list (size_prod (size_option size) (size_option size)) kvs)"
  "x \<in> set fs \<Longrightarrow> snd x = Some d \<Longrightarrow>
   size d < Suc (size_list (size_prod (\<lambda>_. 0) (size_option size)) fs)"
  subgoal by (induction xs) auto
  subgoal by (induction kvs) auto
  subgoal by (induction fs) auto
  done

fun Data_Sql :: "printer \<Rightarrow> Data \<Rightarrow> string outcome" where
  "Data_Sql P DNull = Ret ''NULL''"
| "Data_Sql P (DBool b) = Ret (Bool_String b)"
| "Data_Sql P (DTinyInt i) = Ret (TinyInt_Sql i)"
| "Data_Sql P (DSmallInt i) = Ret (SmallInt_Sql i)"
| "Data_Sql P (DInt i) = Ret (Itoa (sint i))"
| "Data_Sql P (DBigInt i) = Ret (BigInt_Sql i)"
| "Data_Sql P (DFloat f) = Ret (Float_Sql (E32 P f))"
| "Data_Sql P (DDouble d) = Ret (E64 P d)"
| "Data_Sql P (DString s) = Ret (String_Sql s)"
| "Data_Sql P (DChar n s) = Ret (Char_Sql n s)"
| "Data_Sql P (DVarChar n s) = Ret (VarChar_Sql n s)"
| "Data_Sql P (DBinary b) = Ret (Binary_String b)"
| "Data_Sql P (DGeography g) = Ret (Geography_Sql g)"
| "Data_Sql P (DDate t) = Ret (Date_Sql (zone P (DDate t)) t)"
| "Data_Sql P (DDateTime t) = Ret (DateTime_Sql (zone P (DDateTime t)) t)"
| "Data_Sql P (DTimestamp t) = Ret (Timestamp_Sql (zone P (DTimestamp t)) t)"
| "Data_Sql P (DTimestampNtz t) = Ret (TimestampNtz_Sql (zone P (DTimestampNtz t)) t)"
| "Data_Sql P (DIntervalDayTime s n) = Ret (IntervalDayTime_String s n)"
| "Data_Sql P (DIntervalYearMonth m) = Ret (IntervalYearMonth_String m)"
| "Data_Sql P (DDecimal d) = Decimal_Sql d"
| "Data_Sql P (DJson s v) = Ret (Json_Sql s)"
| "Data_Sql P (DArray e xs v) = Array_Sql (Data_Sql P) xs"
| "Data_Sql P (DMap k w kvs v) = Map_Sql (Data_Sql P) kvs"
| "Data_Sql P (DStruct ts fs ix v) = Struct_Sql (Data_Sql P) fs"

fun Data_String :: "printer \<Rightarrow> Data \<Rightarrow> string outcome" where
  "Data_String P DNull = Ret ''NULL''"
| "Data_String P (DBool b) = Ret (Bool_String b)"
| "Data_String P (DTinyInt i) = Ret (Itoa (sint i))"
| "Data_String P (DSmallInt i) = Ret (Itoa (sint i))"
| "Data_String P (DInt i) = Ret (Itoa (sint i))"
| "Data_String P (DBigInt i) = Ret (Itoa (sint i))"
| "Data_String P (DFloat f) = Ret (E32 P f)"
| "Data_String P (DDouble d) = Ret (E64 P d)"
| "Data_String P (DString s) = Ret s"
| "Data_String P (DChar n s) = Ret s"
| "Data_String P (DVarChar n s) = Ret s"
| "Data_String P (DBinary b) = Ret (Binary_String b)"
| "Data_String P (DGeography g) = Ret (Binary_String g)"
| "Data_String P (DDate t) = Ret (Date_String (zone P (DDate t)) t)"
| "Data_String P (DDateTime t) = Ret (DateTime_String (zone P (DDateTime t)) t)"
| "Data_String P (DTimestamp t) = Ret (Timestamp_String (zone P (DTimestamp t)) t)"
| "Data_String P (DTimestampNtz t) = Ret (TimestampNtz_String (zone P (DTimestampNtz t)) t)"
| "Data_String P (DIntervalDayTime s n) = Ret (IntervalDayTime_String s n)"
| "Data_String P (DIntervalYearMonth m) = Ret (IntervalYearMonth_String m)"
| "Data_String P (DDecimal d) = Decimal_String d"
| "Data_String P (DJson s v) = Ret s"
| "Data_String P (DArray e xs v) = Array_String (Data_String P) xs"
| "Data_String P (DMap k w kvs v) = Data_Sql P (DMap k w kvs v)"
| "Data_String P (DStruct ts fs ix v) = Struct_String (Data_String P) fs"

definition Record_String :: "printer \<Rightarrow> Record \<Rightarrow> string outcome" where
  "Record_String P r =
     omap (\<lambda>ts. ''['' @ Join ts '', '' @ '']'')
       (omap_list (\<lambda>x. case x of None \<Rightarrow> Panic NilDereference | Some d \<Rightarrow> Data_String P d) r)"

subsection \<open>SQL that stays one expression\<close>

text \<open>
  How a lexer of SQL sees a text: whether it is inside a quoted string, in which a backslash escapes the next
  character, and how deep it is in parentheses. A text that is one closed expression brings the lexer
  back to where it was and never leaves a parenthesis that it did not enter.
\<close>

fun sql_scan :: "bool \<Rightarrow> nat \<Rightarrow> string \<Rightarrow> (bool \<times> nat) option" where
  "sql_scan q k [] = Some (q, k)"
| "sql_scan True k (c # s) =
     (if c = SQ then sql_scan False k s
      else if c = BSL then (case s of [] \<Rightarrow> None | x # s' \<Rightarrow> sql_scan True k s')
      else sql_scan True k s)"
| "sql_scan False k (c # s) =
     (if c = SQ then sql_scan True k s
      else if c = CHR ''('' then sql_scan False (Suc k) s
      else if c = CHR '')'' then (if k = 0 then None else sql_scan False (k - 1) s)
      else sql_scan False k s)"

definition closed_sql :: "string \<Rightarrow> bool" where
  "closed_sql s \<longleftrightarrow> (\<forall>k t. sql_scan False k (s @ t) = sql_scan False k t)"

definition plain_text :: "string \<Rightarrow> bool" where
  "plain_text s \<longleftrightarrow> list_all (\<lambda>c. c \<noteq> SQ \<and> c \<noteq> BSL) s"

definition bare_text :: "string \<Rightarrow> bool" where
  "bare_text s \<longleftrightarrow> list_all (\<lambda>c. c \<noteq> SQ \<and> c \<noteq> CHR ''('' \<and> c \<noteq> CHR '')'') s"

text \<open>The texts inside a value have no quote, no backslash, and its numbers no parenthesis; no key is nil.\<close>

fun sql_plain :: "printer \<Rightarrow> Data \<Rightarrow> bool" where
  "sql_plain P (DString s) = plain_text s"
| "sql_plain P (DChar n s) = plain_text s"
| "sql_plain P (DVarChar n s) = plain_text s"
| "sql_plain P (DJson s v) = plain_text s"
| "sql_plain P (DFloat f) = bare_text (E32 P f)"
| "sql_plain P (DDouble d) = bare_text (E64 P d)"
| "sql_plain P (DDecimal d) = (case Decimal_String d of Ret t \<Rightarrow> bare_text t | _ \<Rightarrow> False)"
| "sql_plain P (DArray e xs v) = list_all (\<lambda>x. case x of None \<Rightarrow> True | Some d \<Rightarrow> sql_plain P d) xs"
| "sql_plain P (DMap k w kvs v) =
     list_all (\<lambda>kv. (case fst kv of None \<Rightarrow> False | Some d \<Rightarrow> sql_plain P d) \<and>
       (case snd kv of None \<Rightarrow> True | Some d \<Rightarrow> sql_plain P d)) kvs"
| "sql_plain P (DStruct ts fs ix v) =
     list_all (\<lambda>f. plain_text (fst f) \<and> (case snd f of None \<Rightarrow> True | Some d \<Rightarrow> sql_plain P d)) fs"
| "sql_plain P d = True"

named_theorems closed \<open>closed SQL texts\<close>

lemma closed_sql_append [closed]: "closed_sql s \<Longrightarrow> closed_sql t \<Longrightarrow> closed_sql (s @ t)"
  by (simp add: closed_sql_def)

lemma closed_sql_Nil [closed]: "closed_sql []"
  by (simp add: closed_sql_def)

lemma bare_closed: "bare_text s \<Longrightarrow> closed_sql s"
proof (induction s)
  case (Cons c s)
  then show ?case by (simp add: bare_text_def closed_sql_def)
qed (simp add: closed_sql_def)

lemma closed_parens:
  assumes "closed_sql s" "bare_text f"
  shows "closed_sql (f @ ''('' @ s @ '')'')"
proof -
  have "closed_sql (''('' @ s @ '')'')" using assms(1) by (simp add: closed_sql_def)
  then show ?thesis using closed_sql_append bare_closed [OF assms(2)] by simp
qed

lemma plain_scan: "plain_text s \<Longrightarrow> sql_scan True k (s @ t) = sql_scan True k t"
  by (induction s) (auto simp: plain_text_def)

lemma closed_quoted [closed]: "plain_text s \<Longrightarrow> closed_sql ([SQ] @ s @ [SQ])"
  by (simp add: closed_sql_def plain_scan)

lemma closed_Join: "list_all closed_sql ts \<Longrightarrow> bare_text sep \<Longrightarrow> closed_sql (Join ts sep)"
  by (induction ts sep rule: Join.induct) (auto intro: closed bare_closed)

text \<open>Digits are harmless inside quotes and outside.\<close>

lemma digit_plain: "is_digit c \<Longrightarrow> c \<noteq> SQ \<and> c \<noteq> BSL \<and> c \<noteq> CHR ''('' \<and> c \<noteq> CHR '')''"
  by (auto simp: is_digit_def less_eq_char_def)

lemma digits_plain: "list_all is_digit s \<Longrightarrow> plain_text s \<and> bare_text s"
  by (induction s) (auto simp: plain_text_def bare_text_def dest: digit_plain)

lemma plain_append [simp]: "plain_text (s @ t) \<longleftrightarrow> plain_text s \<and> plain_text t"
  "bare_text (s @ t) \<longleftrightarrow> bare_text s \<and> bare_text t"
  by (simp_all add: plain_text_def bare_text_def)

lemma Itoa_plain [simp]: "plain_text (Itoa i)" "bare_text (Itoa i)"
  using digits_plain [of "show_nat (nat i)"] digits_plain [of "show_nat (nat (- i))"]
  by (auto simp: Itoa_def plain_text_def bare_text_def)

lemma plain_Cons [simp]: "plain_text (c # s) \<longleftrightarrow> c \<noteq> SQ \<and> c \<noteq> BSL \<and> plain_text s" "plain_text []"
  by (simp_all add: plain_text_def)

lemma zeros_plain: "plain_text (replicate n CHR ''0'')"
  by (induction n) auto

lemma pad_int_plain [simp]: "plain_text (pad_int w i)"
  by (simp add: pad_int_def pad_zeros_def zeros_plain)

lemma time_text_plain [simp]: "plain_text (date_text w)" "plain_text (clock_text w)" "plain_text (millis_text n)"
  by (auto simp: date_text_def clock_text_def millis_text_def Let_def split: prod.splits)

lemma unat_div_lt: "unat (b :: byte) div 16 < 16"
proof -
  have "unat b < 256" using unsigned_less [of b, where ?'a = nat] by simp
  then show ?thesis by simp
qed

lemma hex_text_plain [simp]: "plain_text (hex_text bs)"
proof -
  have "hex_upper n \<noteq> SQ \<and> hex_upper n \<noteq> BSL" if "n < 16" for n
  proof -
    have "n \<in> set [0..<16]" using that by simp
    moreover have "list_all (\<lambda>n. hex_upper n \<noteq> SQ \<and> hex_upper n \<noteq> BSL) [0..<16]" by code_simp
    ultimately show ?thesis by (simp add: list_all_iff)
  qed
  moreover have "unat b div 16 < 16" for b :: byte by (metis unat_div_lt)
  ultimately show ?thesis by (induction bs) (auto simp: hex_text_def plain_text_def)
qed

lemma omap_list_ex:
  assumes "\<And>x. x \<in> set xs \<Longrightarrow> \<exists>y. f x = Ret y \<and> Q y"
  shows "\<exists>ys. omap_list f xs = Ret ys \<and> list_all Q ys"
  using assms
proof (induction xs)
  case (Cons x xs)
  obtain y where "f x = Ret y" "Q y" using Cons.prems by auto
  moreover obtain ys where "omap_list f xs = Ret ys" "list_all Q ys" using Cons by fastforce
  ultimately show ?case by simp
qed simp

lemma closed_list:
  assumes "list_all closed_sql ts" "bare_text f"
  shows "closed_sql (f @ ''('' @ Join ts '', '' @ '')'')"
  using closed_parens [OF closed_Join [OF assms(1)] assms(2), of "'', ''"] by (simp add: bare_text_def)

lemma closed_cast:
  assumes "plain_text s" "bare_text w"
  shows "closed_sql (''cast('' @ [SQ] @ s @ [SQ] @ '' as '' @ w @ ''('' @ Itoa n @ ''))'')"
proof -
  have "closed_sql (w @ ''('' @ Itoa n @ '')'')" using assms(2) by (intro closed_parens bare_closed) simp_all
  moreover have "closed_sql '' as ''" by (rule bare_closed) (simp add: bare_text_def)
  ultimately have "closed_sql (([SQ] @ s @ [SQ]) @ '' as '' @ w @ ''('' @ Itoa n @ '')'')"
    using closed_quoted [OF assms(1)] closed_sql_append by blast
  from closed_parens [OF this, of "''cast''"] show ?thesis by (simp add: bare_text_def)
qed

lemma closed_prefixed:
  assumes "plain_text s" "bare_text f"
  shows "closed_sql (f @ [SQ] @ s @ [SQ])"
  using closed_sql_append [OF bare_closed [OF assms(2)] closed_quoted [OF assms(1)]] .

lemma closed_unhex: "closed_sql (''unhex('' @ [SQ] @ hex_text b @ [SQ] @ '')'')"
  using closed_parens [OF closed_quoted [of "hex_text b"], of "''unhex''"] by (simp add: bare_text_def)

text \<open>The flat values first.\<close>

lemma flat_closed:
  "closed_sql (Bool_String b)" "closed_sql ''NULL''" "closed_sql ''null''"
  "closed_sql (Itoa i @ ''Y'')" "closed_sql (Itoa i @ ''s'')" "closed_sql (Itoa i @ ''L'')" "closed_sql (Itoa i)"
  "closed_sql (IntervalDayTime_String s n)" "closed_sql (IntervalYearMonth_String m)"
  "closed_sql (Binary_String bs)" "closed_sql (Geography_Sql bs)"
  "closed_sql (Date_Sql off t)" "closed_sql (DateTime_Sql off t)"
  "closed_sql (Timestamp_Sql off t)" "closed_sql (TimestampNtz_Sql off t)"
proof -
  have w: "bare_text ''Y''" "bare_text ''s''" "bare_text ''L''" "bare_text ''NULL''" "bare_text ''null''"
    "bare_text '' days, ''" "bare_text '' ms''" "bare_text '' months''" "bare_text ''true''" "bare_text ''false''"
    "bare_text ''date''" "bare_text ''datetime''" "bare_text ''timestamp''" "bare_text ''timestamp_ntz''"
    by (simp_all add: bare_text_def)
  show "closed_sql (Bool_String b)" "closed_sql ''NULL''" "closed_sql ''null''"
    "closed_sql (Itoa i @ ''Y'')" "closed_sql (Itoa i @ ''s'')" "closed_sql (Itoa i @ ''L'')" "closed_sql (Itoa i)"
    "closed_sql (IntervalDayTime_String s n)" "closed_sql (IntervalYearMonth_String m)"
    using w by (auto intro!: bare_closed simp: Bool_String_def IntervalDayTime_String_def IntervalYearMonth_String_def
        simp del: append.simps)
  show "closed_sql (Binary_String bs)" unfolding Binary_String_def by (rule closed_unhex)
  show "closed_sql (Geography_Sql bs)"
    using closed_parens [OF closed_unhex, of "''ST_GEOGFROMWKB''" bs] by (simp add: Geography_Sql_def bare_text_def)
  show "closed_sql (Date_Sql off t)" "closed_sql (DateTime_Sql off t)"
    "closed_sql (Timestamp_Sql off t)" "closed_sql (TimestampNtz_Sql off t)"
    unfolding Date_Sql_def DateTime_Sql_def Timestamp_Sql_def TimestampNtz_Sql_def
    by (rule closed_prefixed;
        simp add: w Date_String_def DateTime_String_def Timestamp_String_def TimestampNtz_String_def)+
qed

lemma text_closed:
  "plain_text s \<Longrightarrow> closed_sql (String_Sql s)" "plain_text s \<Longrightarrow> closed_sql (Json_Sql s)"
  "plain_text s \<Longrightarrow> closed_sql (Char_Sql n s)" "plain_text s \<Longrightarrow> closed_sql (VarChar_Sql n s)"
  "bare_text f \<Longrightarrow> closed_sql (Float_Sql f)"
  subgoal using closed_quoted [of s] by (simp add: String_Sql_def)
  subgoal using closed_prefixed [of s "''JSON''"] by (simp add: Json_Sql_def bare_text_def)
  subgoal using closed_cast [of s "''char''" n] by (simp add: Char_Sql_def bare_text_def)
  subgoal using closed_cast [of s "''varchar''" n] by (simp add: VarChar_Sql_def bare_text_def)
  subgoal using closed_parens [of "f @ '' as float''" "''cast''"] bare_closed [of "f @ '' as float''"]
    by (simp add: Float_Sql_def bare_text_def)
  done

text \<open>
  C35. The SQL of a value whose texts hold no quote and no backslash is one closed expression: pasted into a query, it
  ends where it should, outside every string and at the depth of parentheses where it began.
\<close>

theorem Data_Sql_closed: "sql_plain P d \<Longrightarrow> \<exists>s. Data_Sql P d = Ret s \<and> closed_sql s"
proof (induction P d rule: sql_plain.induct)
  case (8 P e xs v)
  have "\<exists>ts. omap_list (\<lambda>x. case x of None \<Rightarrow> Ret ''null'' | Some d \<Rightarrow> Data_Sql P d) xs = Ret ts \<and> list_all closed_sql ts"
    using 8 flat_closed(3) by (intro omap_list_ex) (fastforce simp: list_all_iff split: option.splits)
  then show ?case using closed_list [of _ "''array''"] by (auto simp: container_text bare_text_def)
next
  case (9 P k w kvs v)
  have sep: "closed_sql '', ''" by (rule bare_closed) (simp add: bare_text_def)
  let ?f = "\<lambda>kv. obind (case fst kv of None \<Rightarrow> Panic NilDereference | Some d \<Rightarrow> Data_Sql P d) (\<lambda>kt.
       obind (case snd kv of None \<Rightarrow> Ret ''null'' | Some d \<Rightarrow> Data_Sql P d) (\<lambda>vt. Ret (kt @ '', '' @ vt)))"
  have "\<exists>t. ?f kv = Ret t \<and> closed_sql t" if kv: "kv \<in> set kvs" for kv
  proof -
    obtain a where a: "fst kv = Some a" "sql_plain P a"
      using kv 9(3) by (cases "fst kv") (auto simp: list_all_iff)
    then obtain kt where kt: "Data_Sql P a = Ret kt" "closed_sql kt" using 9(1) [OF kv a(1)] by blast
    moreover obtain vt where "(case snd kv of None \<Rightarrow> Ret ''null'' | Some d \<Rightarrow> Data_Sql P d) = Ret vt" "closed_sql vt"
      using kv 9(2) [OF kv] 9(3) flat_closed(3) by (cases "snd kv") (fastforce simp: list_all_iff)+
    ultimately show ?thesis
      using a sep closed_sql_append [of kt "'', '' @ vt"] closed_sql_append [of "'', ''" vt] by auto
  qed
  then have "\<exists>ts. omap_list ?f kvs = Ret ts \<and> list_all closed_sql ts" by (rule omap_list_ex)
  then show ?case
    using closed_list [of _ "''map''"] by (auto simp: container_text bare_text_def)
next
  case (10 P ts fs ix v)
  have sep: "closed_sql '', ''" by (rule bare_closed) (simp add: bare_text_def)
  let ?f = "\<lambda>f. obind (case snd f of None \<Rightarrow> Ret ''null'' | Some d \<Rightarrow> Data_Sql P d) (\<lambda>t.
       Ret ([SQ] @ fst f @ [SQ] @ '', '' @ t))"
  have "\<exists>t. ?f f = Ret t \<and> closed_sql t" if f: "f \<in> set fs" for f
  proof -
    have "plain_text (fst f)" using f 10(2) by (auto simp: list_all_iff)
    note closed_quoted [OF this]
    moreover obtain t where "(case snd f of None \<Rightarrow> Ret ''null'' | Some d \<Rightarrow> Data_Sql P d) = Ret t" "closed_sql t"
      using f 10(1) [OF f] 10(2) flat_closed(3) by (cases "snd f") (fastforce simp: list_all_iff)+
    ultimately show ?thesis using sep closed_sql_append [of "[SQ] @ fst f @ [SQ]" "'', '' @ t"]
      closed_sql_append [of "'', ''" t] by auto
  qed
  then have "\<exists>ts. omap_list ?f fs = Ret ts \<and> list_all closed_sql ts" by (rule omap_list_ex)
  then show ?case
    using closed_list [of _ "''named_struct''"] by (auto simp: container_text bare_text_def)
next
  case (7 P d)
  have "bare_text ''BD''" by (simp add: bare_text_def)
  then show ?case using 7 closed_sql_append bare_closed
    by (auto simp: Decimal_Sql_def split: outcome.splits)
qed (use flat_closed text_closed bare_closed in \<open>auto simp: int_sql\<close>)

theorem Data_Sql_closed_witness:
  "sql_plain \<lparr>E32 = (\<lambda>_. []), E64 = (\<lambda>_. []), zone = (\<lambda>_. 0)\<rparr>
     (DArray NilType [Some (DString ''a''), None, Some (DChar 5 ''b(c'')] True) \<and>
   (\<exists>s. Data_Sql \<lparr>E32 = (\<lambda>_. []), E64 = (\<lambda>_. []), zone = (\<lambda>_. 0)\<rparr>
     (DArray NilType [Some (DString ''a''), None, Some (DChar 5 ''b(c'')] True) = Ret s \<and> closed_sql s)"
  using Data_Sql_closed [of "\<lparr>E32 = (\<lambda>_. []), E64 = (\<lambda>_. []), zone = (\<lambda>_. 0)\<rparr>"
      "DArray NilType [Some (DString ''a''), None, Some (DChar 5 ''b(c'')] True"]
  by (simp add: plain_text_def)

text \<open>
  A string is not escaped: what it holds between two quotes of its own is SQL, for every piece of SQL \<open>e\<close> that is closed
  in itself. So a value can leave its literal and the result is still well formed.
\<close>

theorem String_Sql_injection:
  "String_Sql (x @ [SQ] @ e @ [SQ] @ y) = String_Sql x @ e @ String_Sql y \<and>
   (plain_text x \<longrightarrow> plain_text y \<longrightarrow> closed_sql e \<longrightarrow> closed_sql (String_Sql (x @ [SQ] @ e @ [SQ] @ y)))"
proof -
  have e: "String_Sql (x @ [SQ] @ e @ [SQ] @ y) = String_Sql x @ e @ String_Sql y"
    by (simp add: String_Sql_def)
  then show ?thesis using text_closed(1) closed_sql_append by metis
qed

subsection \<open>Nil elements\<close>

fun nil_key :: "Data \<Rightarrow> bool" where
  "nil_key (DArray e xs v) = list_ex (\<lambda>x. case x of None \<Rightarrow> False | Some d \<Rightarrow> nil_key d) xs"
| "nil_key (DMap k w kvs v) =
     list_ex (\<lambda>kv. (case fst kv of None \<Rightarrow> True | Some d \<Rightarrow> nil_key d) \<or>
       (case snd kv of None \<Rightarrow> False | Some d \<Rightarrow> nil_key d)) kvs"
| "nil_key (DStruct ts fs ix v) = list_ex (\<lambda>f. case snd f of None \<Rightarrow> False | Some d \<Rightarrow> nil_key d) fs"
| "nil_key d = False"

fun nil_shown :: "Data \<Rightarrow> bool" where
  "nil_shown (DArray e xs v) = list_ex (\<lambda>x. case x of None \<Rightarrow> True | Some d \<Rightarrow> nil_shown d) xs"
| "nil_shown (DStruct ts fs ix v) = list_ex (\<lambda>f. case snd f of None \<Rightarrow> True | Some d \<Rightarrow> nil_shown d) fs"
| "nil_shown d = nil_key d"

lemma omap_list_panics:
  assumes "\<And>x. x \<in> set xs \<Longrightarrow> (if Q x then f x = Panic p else \<exists>y. f x = Ret y)"
  shows "if list_ex Q xs then omap_list f xs = Panic p else \<exists>ys. omap_list f xs = Ret ys"
  using assms
proof (induction xs)
  case (Cons x xs)
  have "if Q x then f x = Panic p else \<exists>y. f x = Ret y" by (rule Cons.prems) simp
  moreover have "if list_ex Q xs then omap_list f xs = Panic p else \<exists>ys. omap_list f xs = Ret ys"
    by (rule Cons.IH) (use Cons.prems in simp)
  ultimately show ?case by (auto split: if_splits)
qed simp

lemma Decimal_String_Ret: "\<exists>s. Decimal_String d = Ret s"
  by (auto simp: Decimal_String_def Let_def split: option.splits)

lemma Data_Sql_panics:
  "if nil_key d then Data_Sql P d = Panic NilDereference else \<exists>s. Data_Sql P d = Ret s"
proof (induction d rule: nil_key.induct)
  case (1 e xs v)
  let ?f = "\<lambda>x. case x of None \<Rightarrow> Ret ''null'' | Some d \<Rightarrow> Data_Sql P d"
  have "if list_ex (\<lambda>x. case x of None \<Rightarrow> False | Some d \<Rightarrow> nil_key d) xs then omap_list ?f xs = Panic NilDereference
    else \<exists>ys. omap_list ?f xs = Ret ys"
    using 1 by (intro omap_list_panics) (auto split: option.splits)
  then show ?case by (auto simp: container_text split: if_splits)
next
  case (2 k w kvs v)
  let ?f = "\<lambda>kv. obind (case fst kv of None \<Rightarrow> Panic NilDereference | Some d \<Rightarrow> Data_Sql P d) (\<lambda>kt.
       obind (case snd kv of None \<Rightarrow> Ret ''null'' | Some d \<Rightarrow> Data_Sql P d) (\<lambda>vt. Ret (kt @ '', '' @ vt)))"
  have "if list_ex (\<lambda>kv. (case fst kv of None \<Rightarrow> True | Some d \<Rightarrow> nil_key d) \<or>
       (case snd kv of None \<Rightarrow> False | Some d \<Rightarrow> nil_key d)) kvs then omap_list ?f kvs = Panic NilDereference
    else \<exists>ys. omap_list ?f kvs = Ret ys"
  proof (rule omap_list_panics)
    fix kv assume kv: "kv \<in> set kvs"
    show "if (case fst kv of None \<Rightarrow> True | Some d \<Rightarrow> nil_key d) \<or> (case snd kv of None \<Rightarrow> False | Some d \<Rightarrow> nil_key d)
      then ?f kv = Panic NilDereference else \<exists>y. ?f kv = Ret y"
    proof (cases "fst kv")
      case (Some a)
      show ?thesis using 2(1) [OF kv Some] 2(2) [OF kv] Some
        by (cases "snd kv") (force split: if_splits)+
    qed simp
  qed
  then show ?case by (auto simp: container_text split: if_splits)
next
  case (3 ts fs ix v)
  let ?f = "\<lambda>f. obind (case snd f of None \<Rightarrow> Ret ''null'' | Some d \<Rightarrow> Data_Sql P d) (\<lambda>t.
       Ret ([SQ] @ fst f @ [SQ] @ '', '' @ t))"
  have "if list_ex (\<lambda>f. case snd f of None \<Rightarrow> False | Some d \<Rightarrow> nil_key d) fs then omap_list ?f fs = Panic NilDereference
    else \<exists>ys. omap_list ?f fs = Ret ys"
    using 3 by (intro omap_list_panics) (force split: option.splits if_splits)
  then show ?case by (auto simp: container_text split: if_splits)
qed (use Decimal_String_Ret in \<open>auto simp: Decimal_Sql_def omap_def obind_Ret_iff\<close>)

text \<open>
  Printing a value panics exactly when an array, a struct or the key of a map in it is nil, maps aside: a map prints its SQL, in which
  only a nil key panics. The same nil elements are the word \<^verbatim>\<open>null\<close> in the value's SQL, and every other value
  prints. A record prints when none of its cells is nil, so a new record never does.
\<close>

lemma Data_String_panics_step:
  "if nil_shown d then Data_String P d = Panic NilDereference else \<exists>s. Data_String P d = Ret s"
proof (induction d rule: nil_shown.induct)
  case (1 e xs v)
  let ?f = "\<lambda>x. case x of None \<Rightarrow> Panic NilDereference | Some d \<Rightarrow> Data_String P d"
  have "if list_ex (\<lambda>x. case x of None \<Rightarrow> True | Some d \<Rightarrow> nil_shown d) xs then omap_list ?f xs = Panic NilDereference
    else \<exists>ys. omap_list ?f xs = Ret ys"
    using 1 by (intro omap_list_panics) (auto split: option.splits)
  then show ?case by (auto simp: container_text split: if_splits)
next
  case (2 ts fs ix v)
  let ?f = "\<lambda>f. obind (case snd f of None \<Rightarrow> Panic NilDereference | Some d \<Rightarrow> Data_String P d) (\<lambda>t.
       Ret (fst f @ '':'' @ t))"
  have "if list_ex (\<lambda>f. case snd f of None \<Rightarrow> True | Some d \<Rightarrow> nil_shown d) fs then omap_list ?f fs = Panic NilDereference
    else \<exists>ys. omap_list ?f fs = Ret ys"
    using 2 by (intro omap_list_panics) (force split: option.splits if_splits)
  then show ?case by (auto simp: container_text split: if_splits)
qed (use Data_Sql_panics [of "DMap _ _ _ _" P] Decimal_String_Ret in \<open>auto simp del: nil_key.simps(2) Data_Sql.simps(23)\<close>)

theorem Data_String_panics:
  "(if nil_shown d then Data_String P d = Panic NilDereference else \<exists>s. Data_String P d = Ret s) \<and>
   (if nil_key d then Data_Sql P d = Panic NilDereference else \<exists>s. Data_Sql P d = Ret s) \<and>
   Record_String P (NewRecord (Suc n)) = Panic NilDereference"
  using Data_String_panics_step Data_Sql_panics by (simp add: Record_String_def NewRecord_def)

end
