(* ===== verification/DnsCache.thy ===== *)
theory DnsCache
  imports Strings "HOL-Library.Multiset"
begin

section \<open>The name cache of the REST client\<close>

text \<open>
  Models \<^verbatim>\<open>odps/restclient/dnscache.go\<close>. A \<open>Resolver\<close> keeps the addresses of a host for some seconds; a \<open>Dialer\<close> tries them in
  a random order and falls back to dialing the host's name.
  \<^item> What the network answers is a parameter of each call: the answer of the system's resolver, the two readings of
    the clock, the order that \<^verbatim>\<open>rand.Shuffle\<close> puts a slice in, and dialing an address.
  \<^item> The slice that \<^verbatim>\<open>Lookup\<close> returns is the one in the cache, and \<^verbatim>\<open>Shuffle\<close> works in place: so the
    order of a dial stays in the cache.
  \<^item> The lock makes each read and each write of the map one step; the calls here run one after the other.
\<close>

record cacheEntry =
  ips :: "string list"
  createTime :: int

record Resolver =
  cache :: "string \<rightharpoonup> cacheEntry"
  CacheTimeSeconds :: int

record network =
  LookupIPAddr :: "string \<Rightarrow> string list outcome"
  now_before :: int
  now_after :: int
  shuffle :: "string list \<Rightarrow> string list"

definition NewResolver :: "int \<Rightarrow> Resolver" where
  "NewResolver cacheTime = \<lparr>cache = Map.empty, CacheTimeSeconds = cacheTime\<rparr>"

text \<open>A query of the system's resolver: failures and empty answers are not kept.\<close>

definition rs_lookup :: "network \<Rightarrow> string \<Rightarrow> (Resolver, string list) M" where
  "rs_lookup net host r =
     (case LookupIPAddr net host of
        Ret xs \<Rightarrow>
          if xs = [] then (Ret [], r)
          else (Ret xs, r\<lparr>cache := (cache r)(host \<mapsto> \<lparr>ips = xs, createTime = now_after net\<rparr>)\<rparr>)
      | Fail e \<Rightarrow> (Fail e, r)
      | Panic p \<Rightarrow> (Panic p, r))"

definition Resolver_Lookup :: "network \<Rightarrow> string \<Rightarrow> (Resolver, string list) M" where
  "Resolver_Lookup net host r =
     (case cache r host of
        Some ce \<Rightarrow>
          if now_before net - createTime ce \<ge> CacheTimeSeconds r then rs_lookup net host r
          else (Ret (ips ce), r)
      | None \<Rightarrow> rs_lookup net host r)"

text \<open>\<open>net.SplitHostPort\<close>, with one error for its six messages.\<close>

definition split_error :: goerr where
  "split_error = ErrMsg ''missing port in address''"

definition SplitHostPort :: "string \<Rightarrow> (string \<times> string) outcome" where
  "SplitHostPort hostport =
     (let port = rev (takeWhile (\<lambda>c. c \<noteq> CHR '':'') (rev hostport));
          before = take (length hostport - Suc (length port)) hostport
      in if CHR '':'' \<notin> set hostport then Fail split_error
         else if hostport ! 0 = CHR ''['' then
           (let host = takeWhile (\<lambda>c. c \<noteq> CHR '']'') (drop 1 hostport) in
            if before \<noteq> ''['' @ host @ '']'' \<or> CHR ''['' \<in> set (drop 1 hostport) \<or> CHR '']'' \<in> set port
            then Fail split_error else Ret (host, port))
         else if CHR '':'' \<in> set before \<or> CHR ''['' \<in> set hostport \<or> CHR '']'' \<in> set hostport then Fail split_error
         else Ret (before, port))"

text \<open>The first address that answers.\<close>

fun dial_first :: "(string \<Rightarrow> 'c outcome) \<Rightarrow> string \<Rightarrow> string list \<Rightarrow> 'c outcome option" where
  "dial_first dial port [] = None"
| "dial_first dial port (ip # rest) =
     (case dial (ip @ '':'' @ port) of
        Ret c \<Rightarrow> Some (Ret c)
      | Panic p \<Rightarrow> Some (Panic p)
      | Fail e \<Rightarrow> dial_first dial port rest)"

definition keep_order :: "string \<Rightarrow> string list \<Rightarrow> Resolver \<Rightarrow> Resolver" where
  "keep_order host xs r =
     (case cache r host of
        Some ce \<Rightarrow> r\<lparr>cache := (cache r)(host \<mapsto> ce\<lparr>ips := xs\<rparr>)\<rparr>
      | None \<Rightarrow> r)"

definition DialContext :: "network \<Rightarrow> (string \<Rightarrow> 'c outcome) \<Rightarrow> string \<Rightarrow> (Resolver, 'c) M" where
  "DialContext net dial address r =
     (case SplitHostPort address of
        Fail e \<Rightarrow> (Fail e, r)
      | Panic p \<Rightarrow> (Panic p, r)
      | Ret (host, port) \<Rightarrow>
          (case Resolver_Lookup net host r of
             (Panic p, r') \<Rightarrow> (Panic p, r')
           | (ans, r') \<Rightarrow>
               (let found = (case ans of Ret xs \<Rightarrow> xs | _ \<Rightarrow> []);
                    order = (if found = [] then [] else shuffle net found);
                    r'' = (if found = [] then r' else keep_order host order r')
                in (case dial_first dial port order of
                      Some c \<Rightarrow> (c, r'')
                    | None \<Rightarrow> (dial address, r'')))))"

subsection \<open>Sequences of dials\<close>

text \<open>A history of dials, each with its network, its dial function and its address.\<close>

inductive dialled ::
  "Resolver \<Rightarrow> (network \<times> (string \<Rightarrow> 'c outcome) \<times> string) list \<Rightarrow> Resolver \<Rightarrow> bool" where
  dialled_none: "dialled r [] r"
| dialled_one: "dialled r evs r' \<Longrightarrow> DialContext net dial address r' = (c, r'') \<Longrightarrow>
    dialled r (evs @ [(net, dial, address)]) r''"

inductive_cases dialled_snocE: "dialled r (evs @ [ev]) r'"

definition permutes_slices :: "network \<Rightarrow> bool" where
  "permutes_slices net \<longleftrightarrow> (\<forall>xs. mset (shuffle net xs) = mset xs)"

text \<open>The entry \<open>e\<close> of host \<open>h\<close> is an answer to one of the dials, in some order.\<close>

definition answered ::
  "(network \<times> (string \<Rightarrow> 'c outcome) \<times> string) list \<Rightarrow> string \<Rightarrow> cacheEntry \<Rightarrow> bool" where
  "answered evs h e \<longleftrightarrow>
     (\<exists>(net, dial, address) \<in> set evs. \<exists>port xs. SplitHostPort address = Ret (h, port) \<and>
        LookupIPAddr net h = Ret xs \<and> mset (ips e) = mset xs \<and> createTime e = now_after net)"

lemma answered_mono: "answered evs h e \<Longrightarrow> answered (evs @ evs2) h e"
  by (auto simp: answered_def)

lemma answered_mset: "answered evs h e \<Longrightarrow> mset xs = mset (ips e) \<Longrightarrow> answered evs h (e\<lparr>ips := xs\<rparr>)"
  by (auto simp: answered_def split: prod.splits)

text \<open>What one lookup does to the cache and where its answer comes from.\<close>

lemma Resolver_Lookup_cases:
  assumes "Resolver_Lookup net h r = (ans, r')"
  obtains (hit) ce where "cache r h = Some ce" "now_before net - createTime ce < CacheTimeSeconds r"
      "ans = Ret (ips ce)" "r' = r"
  | (new) xs where "LookupIPAddr net h = Ret xs" "ans = Ret xs" "xs \<noteq> []"
      "r' = r\<lparr>cache := (cache r)(h \<mapsto> \<lparr>ips = xs, createTime = now_after net\<rparr>)\<rparr>"
  | (kept) "r' = r" "\<forall>xs. ans = Ret xs \<longrightarrow> xs = []"
proof -
  have "(\<exists>ce. cache r h = Some ce \<and> now_before net - createTime ce < CacheTimeSeconds r \<and> ans = Ret (ips ce) \<and> r' = r) \<or>
    (\<exists>xs. LookupIPAddr net h = Ret xs \<and> ans = Ret xs \<and> xs \<noteq> [] \<and>
       r' = r\<lparr>cache := (cache r)(h \<mapsto> \<lparr>ips = xs, createTime = now_after net\<rparr>)\<rparr>) \<or>
    (r' = r \<and> (\<forall>xs. ans = Ret xs \<longrightarrow> xs = []))"
    using assms
    by (cases "LookupIPAddr net h"; cases "cache r h")
      (auto simp: Resolver_Lookup_def rs_lookup_def split: if_splits)
  then show thesis using hit new kept by blast
qed

lemma DialContext_answered:
  assumes "DialContext net dial address r = (c, r')" "permutes_slices net"
    and inv: "\<And>h e. cache r h = Some e \<Longrightarrow> answered evs h e"
    and e: "cache r' h = Some e"
  shows "answered (evs @ [(net, dial, address)]) h e"
proof (cases "SplitHostPort address")
  case (Ret hp)
  obtain host port where hp: "hp = (host, port)" by fastforce
  obtain ans r1 where look: "Resolver_Lookup net host r = (ans, r1)" by fastforce
  let ?evs = "evs @ [(net, dial, address)]"
  have one: "answered ?evs h e" if "cache r1 h = Some e" for h e
    using look
  proof (cases rule: Resolver_Lookup_cases)
    case (new xs)
    show ?thesis
    proof (cases "h = host")
      case True
      then show ?thesis using that new Ret hp by (auto simp: answered_def)
    next
      case False
      then have "cache r h = Some e" using that new by simp
      then show ?thesis using inv answered_mono by blast
    qed
  qed (use that inv answered_mono in blast)+
  have ret: "ans = Ret xs \<Longrightarrow> xs \<noteq> [] \<Longrightarrow> \<exists>ce. cache r1 host = Some ce \<and> ips ce = xs" for xs
    using look by (cases rule: Resolver_Lookup_cases) auto
  have "answered ?evs h e" if "ans = Ret xs" "xs \<noteq> []" "cache (keep_order host (shuffle net xs) r1) h = Some e" for xs
  proof -
    have "\<exists>ce. cache r1 host = Some ce \<and> ips ce = xs" using ret that by blast
    then obtain ce where "cache r1 host = Some ce" "ips ce = xs" by blast
    then show ?thesis
      using that one [of host ce] one [of h e] answered_mset [of ?evs host ce "shuffle net xs"] assms(2)
      by (cases "h = host") (auto simp: keep_order_def permutes_slices_def)
  qed
  then show ?thesis
    using assms(1) e look Ret hp one
    by (cases ans) (auto simp: DialContext_def Let_def split: option.splits if_splits)
qed (use assms(1) e answered_mono [OF inv] in \<open>auto simp: DialContext_def\<close>)

lemma dialled_answered:
  assumes "dialled r0 evs r" "cache r0 = Map.empty"
    and "list_all (\<lambda>ev. permutes_slices (fst ev)) evs"
    and "cache r h = Some e"
  shows "answered evs h e"
  using assms
proof (induction arbitrary: h e rule: dialled.induct)
  case (dialled_one r evs r' net dial address c r'')
  show ?case
    by (rule DialContext_answered [OF dialled_one.hyps(2) _ dialled_one.IH])
      (use dialled_one.prems in auto)
qed simp

lemma dialled_ttl: "dialled r0 evs r \<Longrightarrow> CacheTimeSeconds r = CacheTimeSeconds r0"
proof (induction rule: dialled.induct)
  case (dialled_one r evs r' net dial address c r'')
  have "CacheTimeSeconds (snd (Resolver_Lookup net h r')) = CacheTimeSeconds r'" for h
    by (auto simp: Resolver_Lookup_def rs_lookup_def split: option.splits outcome.splits)
  then have "CacheTimeSeconds (snd (DialContext net dial address r')) = CacheTimeSeconds r'"
    by (auto simp: DialContext_def Let_def keep_order_def split: outcome.splits option.splits prod.splits)
      (metis snd_conv)+
  then show ?case using dialled_one by simp
qed simp

subsection \<open>Properties\<close>

text \<open>
  C36. Whatever was dialed before, in whatever order, an address that a lookup gives comes from the resolver's answer
  for the very same host: the answer of now, or that of an earlier dial less than \<open>CacheTimeSeconds\<close> ago, all of its
  addresses and no other, in an order that later shuffles chose.
\<close>

theorem lookup_fresh:
  assumes "dialled (NewResolver ttl) evs r" "list_all (\<lambda>ev. permutes_slices (fst ev)) evs"
    and "Resolver_Lookup net h r = (Ret xs, r')" "xs \<noteq> []"
  shows "LookupIPAddr net h = Ret xs \<or>
    (\<exists>(net', dial, address) \<in> set evs. \<exists>port ys. SplitHostPort address = Ret (h, port) \<and>
       LookupIPAddr net' h = Ret ys \<and> mset xs = mset ys \<and> now_before net - now_after net' < ttl)"
  using assms(3)
proof (cases rule: Resolver_Lookup_cases)
  case (hit ce)
  have "answered evs h ce"
    using dialled_answered [OF assms(1) _ assms(2) hit(1)] by (simp add: NewResolver_def)
  moreover have "CacheTimeSeconds r = ttl" using dialled_ttl [OF assms(1)] by (simp add: NewResolver_def)
  ultimately show ?thesis using hit by (fastforce simp: answered_def)
qed (use assms(4) in auto)

definition example_network :: "int \<Rightarrow> network" where
  "example_network t =
     \<lparr>LookupIPAddr = (\<lambda>h. if t < 10 then Ret [''10.0.0.1'', ''10.0.0.2''] else Fail ErrEOF),
      now_before = t, now_after = t, shuffle = rev\<rparr>"

lemma example_dialled:
  "dialled (NewResolver 600) [(example_network 0, \<lambda>_. Ret (), ''odps:80'')]
     ((NewResolver 600)\<lparr>cache := [''odps'' \<mapsto> \<lparr>ips = [''10.0.0.2'', ''10.0.0.1''], createTime = 0\<rparr>]\<rparr>)"
proof -
  have "SplitHostPort ''odps:80'' = Ret (''odps'', ''80'')" by code_simp
  then have "DialContext (example_network 0) (\<lambda>_. Ret ()) ''odps:80'' (NewResolver 600) =
    (Ret (), (NewResolver 600)\<lparr>cache := [''odps'' \<mapsto> \<lparr>ips = [''10.0.0.2'', ''10.0.0.1''], createTime = 0\<rparr>]\<rparr>)"
    by (simp add: DialContext_def Resolver_Lookup_def rs_lookup_def NewResolver_def example_network_def keep_order_def)
  from dialled_one [OF dialled_none this] show ?thesis by simp
qed

theorem lookup_fresh_witness:
  "\<exists>ys. mset [''10.0.0.2'', ''10.0.0.1''] = mset ys \<and> LookupIPAddr (example_network 0) ''odps'' = Ret ys \<and>
     now_before (example_network 500) - now_after (example_network 0) < 600"
proof -
  let ?r = "(NewResolver 600)\<lparr>cache := [''odps'' \<mapsto> \<lparr>ips = [''10.0.0.2'', ''10.0.0.1''], createTime = 0\<rparr>]\<rparr>"
  have "Resolver_Lookup (example_network 500) ''odps'' ?r = (Ret [''10.0.0.2'', ''10.0.0.1''], ?r)"
    by (simp add: Resolver_Lookup_def NewResolver_def example_network_def)
  from lookup_fresh [OF example_dialled _ this] show ?thesis
    by (simp add: permutes_slices_def example_network_def)
qed

text \<open>
  A dial whose answers all fail ends in dialing the address by its name, whatever the name service said; a dial that
  fails has failed there too.
\<close>

lemma dial_first_None: "dial_first dial port xs = None \<longleftrightarrow> (\<forall>ip \<in> set xs. \<exists>e. dial (ip @ '':'' @ port) = Fail e)"
  by (induction xs) (auto split: outcome.splits)

lemma dial_first_Some: "dial_first dial port xs = Some c \<Longrightarrow> \<exists>ip \<in> set xs. c = dial (ip @ '':'' @ port) \<and> (\<forall>e. c \<noteq> Fail e)"
  by (induction xs) (auto split: outcome.splits)

theorem DialContext_fails:
  assumes "SplitHostPort address = Ret (h, port)"
  shows "fst (DialContext net dial address r) = Fail e \<Longrightarrow> dial address = Fail e"
  using assms
  by (auto simp: DialContext_def Let_def split: outcome.splits option.splits prod.splits if_splits dest: dial_first_Some)

text \<open>
  An address of version 6 has colons: put before the port without brackets it is no address, so the cache's answers are
  never dialed and only the name is.
\<close>

lemma v6_address_refused:
  assumes "CHR '':'' \<in> set ip" "ip ! 0 \<noteq> CHR ''[''" "CHR '':'' \<notin> set port"
  shows "SplitHostPort (ip @ '':'' @ port) = Fail split_error"
proof -
  have ne: "ip \<noteq> []" using assms(1) by auto
  have "takeWhile (\<lambda>c. c \<noteq> CHR '':'') (rev (ip @ '':'' @ port)) = rev port"
    using assms(3) by (auto simp: takeWhile_append2 takeWhile_tail)
  then have "(ip @ '':'' @ port) ! 0 \<noteq> CHR ''[''" using assms(2) ne by (simp add: nth_append)
  with \<open>takeWhile _ _ = _\<close> show ?thesis using assms(1) by (simp add: SplitHostPort_def Let_def)
qed

theorem v6_addresses_never_dialed:
  assumes "SplitHostPort address = Ret (h, port)" "CHR '':'' \<notin> set port"
    and "LookupIPAddr net h = Ret xs" "cache r h = None"
    and "permutes_slices net" "list_all (\<lambda>ip. CHR '':'' \<in> set ip \<and> ip ! 0 \<noteq> CHR ''['') xs"
    and "\<And>a e. SplitHostPort a = Fail e \<Longrightarrow> dial a = Fail e"
  shows "fst (DialContext net dial address r) = dial address"
proof -
  have "mset (shuffle net xs) = mset xs" using assms(5) by (simp add: permutes_slices_def)
  then have "set (shuffle net xs) = set xs" by (metis set_mset_mset)
  then have "dial_first dial port (shuffle net xs) = None"
    using assms(2,6,7) v6_address_refused by (auto simp: dial_first_None list_all_iff)
  then show ?thesis
    using assms(1,3,4) by (simp add: DialContext_def Resolver_Lookup_def rs_lookup_def Let_def)
qed

theorem v6_addresses_never_dialed_witness:
  "fst (DialContext ((example_network 0)\<lparr>LookupIPAddr := \<lambda>_. Ret [''::1'']\<rparr>)
     (\<lambda>a. case SplitHostPort a of Ret _ \<Rightarrow> Ret a | Fail e \<Rightarrow> Fail e | Panic p \<Rightarrow> Panic p) ''odps:80'' (NewResolver 600)) =
   Ret ''odps:80''"
proof -
  have s: "SplitHostPort ''odps:80'' = Ret (''odps'', ''80'')" by code_simp
  show ?thesis
    by (subst v6_addresses_never_dialed [OF s, where xs = "[''::1'']"])
      (simp_all add: s NewResolver_def example_network_def permutes_slices_def)
qed

end
