(* ===== verification/TableMeta.thy ===== *)
theory TableMeta
  imports OdpsTables
begin

section \<open>Loading the metadata of tables and partitions\<close>

text \<open>
  Models the decoding of a table's schema (\<^verbatim>\<open>TableSchema.UnmarshalJSON\<close> of \<^verbatim>\<open>odps/tableschema/table_schema.go\<close>), loading in
  \<^verbatim>\<open>odps/table.go\<close> and \<^verbatim>\<open>odps/partition.go\<close>, and \<^verbatim>\<open>BatchLoadTables\<close> of \<^verbatim>\<open>odps/tables.go\<close>.
  \<^item> A document is decoded into the value the table already has: a field that it does not have keeps what was there, and an
    object is merged into the map that is there.
  \<^item> The parser of package \<^verbatim>\<open>encoding/json\<close> is a parameter, as is what a decoding leaves behind that ends with an
    error (the library writes fields as it goes): \<open>decoders\<close>.
\<close>

record SchemaInfo =
  si_schema :: TableSchema
  si_CreateTime :: gotime
  si_ExtendedLabel :: "string list"
  si_HubLifecycle :: int
  si_IsExternal :: bool
  si_IsMaterializedViewOutdated :: bool
  si_LastDDLTime :: gotime
  si_LastModifiedTime :: gotime
  si_LastAccessTime :: gotime
  si_Owner :: string
  si_RecordNum :: int
  si_ShardExist :: bool
  si_ShardInfo :: string
  si_Size :: int
  si_TableLabel :: string
  si_ViewExpandedText :: string
  si_FileNum :: int
  si_IsArchived :: bool
  si_PhysicalSize :: int
  si_Reserved :: string
  si_Transactional :: bool
  si_SerDeProperties :: "(string \<times> string) list"
  si_Props :: string
  si_RefreshHistory :: string

definition zero_time :: gotime where "zero_time = GoTime (- 62135596800) 0"

definition zero_SchemaInfo :: SchemaInfo where
  "zero_SchemaInfo =
     \<lparr>si_schema = zero_TableSchema, si_CreateTime = zero_time, si_ExtendedLabel = [], si_HubLifecycle = 0,
      si_IsExternal = False, si_IsMaterializedViewOutdated = False, si_LastDDLTime = zero_time,
      si_LastModifiedTime = zero_time, si_LastAccessTime = zero_time, si_Owner = [], si_RecordNum = 0,
      si_ShardExist = False, si_ShardInfo = [], si_Size = 0, si_TableLabel = [], si_ViewExpandedText = [],
      si_FileNum = 0, si_IsArchived = False, si_PhysicalSize = 0, si_Reserved = [], si_Transactional = False,
      si_SerDeProperties = [], si_Props = [], si_RefreshHistory = []\<rparr>"

record decoders =
  js_parse :: "string \<Rightarrow> json option"
  js_expressions :: "string \<Rightarrow> expressionItem list outcome"
  js_partial :: "json \<Rightarrow> SchemaInfo \<Rightarrow> SchemaInfo"

subsection \<open>JSON fields\<close>

text \<open>\<^verbatim>\<open>GMTTime.UnmarshalJSON\<close> reads Unix seconds; it is called for a null too, which it takes for 0.\<close>

fun jtime :: "(gotime \<Rightarrow> 's \<Rightarrow> 's) \<Rightarrow> 's jfield" where
  "jtime upd JNull s = Ret (upd (time_Unix 0 0) s)"
| "jtime upd j s = jint (\<lambda>i. upd (time_Unix i 0)) j s"

fun jtext :: "json \<Rightarrow> string outcome" where
  "jtext (JStr v) = Ret v"
| "jtext JNull = Ret []"
| "jtext _ = Fail json_type_error"

definition jstrings :: "(string list \<Rightarrow> 's \<Rightarrow> 's) \<Rightarrow> 's jfield" where
  "jstrings = jlist jtext"

text \<open>An object merges into a map of strings; a null makes the map nil.\<close>

fun jmap :: "json \<Rightarrow> (string \<times> string) list \<Rightarrow> (string \<times> string) list outcome" where
  "jmap (JObj kvs) m =
     obind (omap_list (\<lambda>kv. omap (Pair (fst kv)) (jtext (snd kv))) kvs) (\<lambda>xs.
       Ret (fold (\<lambda>(k, v). AList.update k v) xs m))"
| "jmap JNull m = Ret []"
| "jmap _ m = Fail json_type_error"

definition zero_ColumnShadow :: ColumnShadow where
  "zero_ColumnShadow =
     \<lparr>sh_Name = [], sh_Type = [], sh_Comment = [], sh_Label = [], sh_IsNullable = False, sh_HasDefaultValue = False,
      sh_DefaultValue = [], sh_ExtendedLabels = [], sh_HasGenerateExpression = False, sh_GenerateExpression = []\<rparr>"

definition ColumnShadow_json :: "(string \<times> ColumnShadow jfield) list" where
  "ColumnShadow_json =
     [(''Name'', jstring (\<lambda>v. sh_Name_update (\<lambda>_. v))), (''Type'', jstring (\<lambda>v. sh_Type_update (\<lambda>_. v))),
      (''Comment'', jstring (\<lambda>v. sh_Comment_update (\<lambda>_. v))), (''Label'', jstring (\<lambda>v. sh_Label_update (\<lambda>_. v))),
      (''IsNullable'', jbool (\<lambda>v. sh_IsNullable_update (\<lambda>_. v))),
      (''HasDefaultValue'', jbool (\<lambda>v. sh_HasDefaultValue_update (\<lambda>_. v))),
      (''DefaultValue'', jstring (\<lambda>v. sh_DefaultValue_update (\<lambda>_. v))),
      (''ExtendedLabels'', jstrings (\<lambda>v. sh_ExtendedLabels_update (\<lambda>_. v))),
      (''HasGenerateExpression'', jbool (\<lambda>v. sh_HasGenerateExpression_update (\<lambda>_. v))),
      (''GenerateExpression'', jstring (\<lambda>v. sh_GenerateExpression_update (\<lambda>_. v)))]"

definition jcolumn :: "decoders \<Rightarrow> json \<Rightarrow> Column outcome" where
  "jcolumn D j = obind (jstruct ColumnShadow_json j zero_ColumnShadow) (Column_UnmarshalJSON (js_expressions D))"

definition SortColumn_json :: "(string \<times> SortColumn jfield) list" where
  "SortColumn_json =
     [(''Name'', jstring (\<lambda>v. sc_Name_update (\<lambda>_. v))), (''Order'', jstring (\<lambda>v. sc_Order_update (\<lambda>_. v)))]"

definition ClusterInfo_json :: "(string \<times> ClusterInfo jfield) list" where
  "ClusterInfo_json =
     [(''ClusterType'', jstring (\<lambda>v. ci_ClusterType_update (\<lambda>_. v))),
      (''ClusterCols'', jstrings (\<lambda>v. ci_ClusterCols_update (\<lambda>_. v))),
      (''SortCols'', jlist (\<lambda>j. jstruct SortColumn_json j \<lparr>sc_Name = [], sc_Order = []\<rparr>) (\<lambda>v. ci_SortCols_update (\<lambda>_. v))),
      (''BucketNum'', jint (\<lambda>v. ci_BucketNum_update (\<lambda>_. v)))]"

definition zero_ClusterInfo :: ClusterInfo where
  "zero_ClusterInfo = \<lparr>ci_ClusterType = [], ci_ClusterCols = [], ci_SortCols = [], ci_BucketNum = 0\<rparr>"

record reservedJSON =
  rj_ClusterInfo :: ClusterInfo
  rj_Transactional :: string
  rj_PrimaryKeys :: "string list"

text \<open>The fields of the embedded \<open>ClusterInfo\<close> are fields of \<open>reservedJSON\<close>.\<close>

definition on_cluster :: "ClusterInfo jfield \<Rightarrow> reservedJSON jfield" where
  "on_cluster f j r = omap (\<lambda>c. r\<lparr>rj_ClusterInfo := c\<rparr>) (f j (rj_ClusterInfo r))"

definition reservedJSON_json :: "(string \<times> reservedJSON jfield) list" where
  "reservedJSON_json =
     map (\<lambda>(n, f). (n, on_cluster f)) ClusterInfo_json @
     [(''Transactional'', jstring (\<lambda>v. rj_Transactional_update (\<lambda>_. v))),
      (''PrimaryKey'', jstrings (\<lambda>v. rj_PrimaryKeys_update (\<lambda>_. v)))]"

subsection \<open>\<open>TableSchema.UnmarshalJSON\<close>\<close>

record tempSchema =
  tmp_Alias :: SchemaInfo
  tmp_SerDeProperties :: "string option"
  tmp_MvProperties :: "string option"
  tmp_RewriteEnabled :: "string option"
  tmp_Outdated :: "string option"

fun jstring_ptr :: "(string option \<Rightarrow> 's \<Rightarrow> 's) \<Rightarrow> 's jfield" where
  "jstring_ptr upd (JStr v) s = Ret (upd (Some v) s)"
| "jstring_ptr upd JNull s = Ret (upd None s)"
| "jstring_ptr upd _ s = Fail json_type_error"

definition on_schema :: "(TableSchema \<Rightarrow> TableSchema) \<Rightarrow> SchemaInfo \<Rightarrow> SchemaInfo" where
  "on_schema f s = s\<lparr>si_schema := f (si_schema s)\<rparr>"

definition jcluster :: "SchemaInfo jfield" where
  "jcluster j s =
     omap (\<lambda>c. on_schema (ts_ClusterInfo_update (\<lambda>_. c)) s) (jstruct ClusterInfo_json j (ts_ClusterInfo (si_schema s)))"

definition TableSchema_json :: "decoders \<Rightarrow> (string \<times> SchemaInfo jfield) list" where
  "TableSchema_json D =
     [(''TableName'', jstring (\<lambda>v. on_schema (ts_TableName_update (\<lambda>_. v)))),
      (''Columns'', jlist (jcolumn D) (\<lambda>v. on_schema (ts_Columns_update (\<lambda>_. v)))),
      (''Comment'', jstring (\<lambda>v. on_schema (ts_Comment_update (\<lambda>_. v)))),
      (''CreateTime'', jtime (\<lambda>v. si_CreateTime_update (\<lambda>_. v))),
      (''ExtendedLabel'', jstrings (\<lambda>v. si_ExtendedLabel_update (\<lambda>_. v))),
      (''HubLifecycle'', jint (\<lambda>v. si_HubLifecycle_update (\<lambda>_. v))),
      (''IsExternal'', jbool (\<lambda>v. si_IsExternal_update (\<lambda>_. v))),
      (''IsMaterializedView'', jbool (\<lambda>v. on_schema (ts_IsMaterializedView_update (\<lambda>_. v)))),
      (''IsVirtualView'', jbool (\<lambda>v. on_schema (ts_IsVirtualView_update (\<lambda>_. v)))),
      (''LastDDLTime'', jtime (\<lambda>v. si_LastDDLTime_update (\<lambda>_. v))),
      (''LastModifiedTime'', jtime (\<lambda>v. si_LastModifiedTime_update (\<lambda>_. v))),
      (''LastAccessTime'', jtime (\<lambda>v. si_LastAccessTime_update (\<lambda>_. v))),
      (''Lifecycle'', jint (\<lambda>v. on_schema (ts_Lifecycle_update (\<lambda>_. v)))),
      (''Owner'', jstring (\<lambda>v. si_Owner_update (\<lambda>_. v))),
      (''PartitionKeys'', jlist (jcolumn D) (\<lambda>v. on_schema (ts_PartitionColumns_update (\<lambda>_. v)))),
      (''RecordNum'', jint (\<lambda>v. si_RecordNum_update (\<lambda>_. v))),
      (''ShardExist'', jbool (\<lambda>v. si_ShardExist_update (\<lambda>_. v))),
      (''ShardInfo'', jstring (\<lambda>v. si_ShardInfo_update (\<lambda>_. v))),
      (''Size'', jint (\<lambda>v. si_Size_update (\<lambda>_. v))),
      (''TableLabel'', jstring (\<lambda>v. si_TableLabel_update (\<lambda>_. v))),
      (''ViewText'', jstring (\<lambda>v. on_schema (ts_ViewText_update (\<lambda>_. v)))),
      (''ViewExpandedText'', jstring (\<lambda>v. si_ViewExpandedText_update (\<lambda>_. v))),
      (''FileNum'', jint (\<lambda>v. si_FileNum_update (\<lambda>_. v))),
      (''IsArchived'', jbool (\<lambda>v. si_IsArchived_update (\<lambda>_. v))),
      (''PhysicalSize'', jint (\<lambda>v. si_PhysicalSize_update (\<lambda>_. v))),
      (''Reserved'', jstring (\<lambda>v. si_Reserved_update (\<lambda>_. v))),
      (''PrimaryKeys'', jstrings (\<lambda>v. on_schema (ts_PrimaryKeys_update (\<lambda>_. v)))),
      (''Transactional'', jbool (\<lambda>v. si_Transactional_update (\<lambda>_. v))),
      (''StorageHandler'', jstring (\<lambda>v. on_schema (ts_StorageHandler_update (\<lambda>_. v)))),
      (''Location'', jstring (\<lambda>v. on_schema (ts_Location_update (\<lambda>_. v)))),
      (''Props'', jstring (\<lambda>v. si_Props_update (\<lambda>_. v))),
      (''RefreshHistory'', jstring (\<lambda>v. si_RefreshHistory_update (\<lambda>_. v))),
      (''ClusterInfo'', jcluster)]"

definition on_alias :: "SchemaInfo jfield \<Rightarrow> tempSchema jfield" where
  "on_alias f j t = omap (\<lambda>s. t\<lparr>tmp_Alias := s\<rparr>) (f j (tmp_Alias t))"

definition tempSchema_json :: "decoders \<Rightarrow> (string \<times> tempSchema jfield) list" where
  "tempSchema_json D =
     [(''serDeProperties'', jstring_ptr (\<lambda>v. tmp_SerDeProperties_update (\<lambda>_. v))),
      (''mvProperties'', jstring_ptr (\<lambda>v. tmp_MvProperties_update (\<lambda>_. v))),
      (''isMaterializedViewRewriteEnabled'', jstring_ptr (\<lambda>v. tmp_RewriteEnabled_update (\<lambda>_. v))),
      (''isMaterializedViewOutdated'', jstring_ptr (\<lambda>v. tmp_Outdated_update (\<lambda>_. v)))] @
     map (\<lambda>(n, f). (n, on_alias f)) (TableSchema_json D)"

definition json_syntax_error :: goerr where "json_syntax_error = ErrMsg ''unexpected end of JSON input''"

text \<open>A text inside a document that is a document itself, when it is there.\<close>

definition inner_map :: "decoders \<Rightarrow> string option \<Rightarrow> (string \<times> string) list \<Rightarrow> (string \<times> string) list outcome" where
  "inner_map D text m =
     (case text of
        None \<Rightarrow> Ret m
      | Some t \<Rightarrow> (case js_parse D t of None \<Rightarrow> Fail json_syntax_error | Some j \<Rightarrow> jmap j m))"

definition zero_reservedJSON :: reservedJSON where
  "zero_reservedJSON = \<lparr>rj_ClusterInfo = zero_ClusterInfo, rj_Transactional = [], rj_PrimaryKeys = []\<rparr>"

definition apply_reserved :: "decoders \<Rightarrow> SchemaInfo \<Rightarrow> SchemaInfo outcome" where
  "apply_reserved D s =
     (if si_Reserved s = [] then Ret s
      else (case js_parse D (si_Reserved s) of
          None \<Rightarrow> Fail json_syntax_error
        | Some j \<Rightarrow> obind (jstruct reservedJSON_json j zero_reservedJSON) (\<lambda>r.
            Ret (on_schema (\<lambda>ts. ts\<lparr>ts_ClusterInfo := rj_ClusterInfo r, ts_PrimaryKeys := rj_PrimaryKeys r\<rparr>)
                  (s\<lparr>si_Transactional := StringToBool (rj_Transactional r)\<rparr>)))))"

definition set_flag :: "string option \<Rightarrow> (bool \<Rightarrow> SchemaInfo \<Rightarrow> SchemaInfo) \<Rightarrow> SchemaInfo \<Rightarrow> SchemaInfo" where
  "set_flag text upd s = (case text of None \<Rightarrow> s | Some t \<Rightarrow> upd (StringToBool t) s)"

text \<open>The document \<open>null\<close> makes the pointer that it is decoded into nil, and the next line reads through it.\<close>

definition TableSchema_UnmarshalJSON :: "decoders \<Rightarrow> json \<Rightarrow> SchemaInfo \<Rightarrow> SchemaInfo outcome" where
  "TableSchema_UnmarshalJSON D j s =
     (if j = JNull then Panic NilDereference
      else
        obind (jstruct (tempSchema_json D) j
            \<lparr>tmp_Alias = s, tmp_SerDeProperties = None, tmp_MvProperties = None, tmp_RewriteEnabled = None, tmp_Outdated = None\<rparr>)
          (\<lambda>t.
        obind (inner_map D (tmp_SerDeProperties t) (si_SerDeProperties (tmp_Alias t))) (\<lambda>serde.
        obind (inner_map D (tmp_MvProperties t) (ts_MvProperties (si_schema (tmp_Alias t)))) (\<lambda>mv.
        apply_reserved D
          (set_flag (tmp_Outdated t) (\<lambda>b. si_IsMaterializedViewOutdated_update (\<lambda>_. b))
            (set_flag (tmp_RewriteEnabled t) (\<lambda>b. on_schema (ts_IsMaterializedViewRewriteEnabled_update (\<lambda>_. b)))
              (on_schema (ts_MvProperties_update (\<lambda>_. mv))
                ((tmp_Alias t)\<lparr>si_SerDeProperties := serde\<rparr>))))))))"

text \<open>\<open>json.Unmarshal\<close> of a text into the schema that is there, with what is left of it after an error.\<close>

definition schema_Unmarshal :: "decoders \<Rightarrow> string \<Rightarrow> (SchemaInfo, unit) M" where
  "schema_Unmarshal D text s =
     (case js_parse D text of
        None \<Rightarrow> (Fail json_syntax_error, s)
      | Some j \<Rightarrow> (case TableSchema_UnmarshalJSON D j s of
            Ret s' \<Rightarrow> (Ret (), s')
          | Fail e \<Rightarrow> (Fail e, js_partial D j s)
          | Panic p \<Rightarrow> (Panic p, js_partial D j s)))"

subsection \<open>Tables\<close>

record ColumnMaskInfo =
  mi_Name :: string
  mi_PolicyNameList :: "string list"

record tableModel =
  tm_Name :: string
  tm_TableID :: string
  tm_Format :: string
  tm_Schema :: string
  tm_Comment :: string
  tm_Owner :: string
  tm_ProjectName :: string
  tm_SchemaName :: string
  tm_TableLabel :: string
  tm_CryptoAlgo :: string
  tm_TableMaskInfo :: string
  tm_ColumnMaskInfos :: "ColumnMaskInfo list option"
  tm_Type :: TableType

record TableInfo =
  ti_model :: tableModel
  ti_tableSchema :: SchemaInfo
  ti_beLoaded :: bool
  ti_beLoadedExtended :: bool

definition zero_tableModel :: tableModel where
  "zero_tableModel =
     \<lparr>tm_Name = [], tm_TableID = [], tm_Format = [], tm_Schema = [], tm_Comment = [], tm_Owner = [], tm_ProjectName = [],
      tm_SchemaName = [], tm_TableLabel = [], tm_CryptoAlgo = [], tm_TableMaskInfo = [], tm_ColumnMaskInfos = None,
      tm_Type = ManagedTable\<rparr>"

definition new_TableInfo :: "string \<Rightarrow> string \<Rightarrow> string \<Rightarrow> TableInfo" where
  "new_TableInfo projectName schemaName tableName =
     \<lparr>ti_model = zero_tableModel\<lparr>tm_ProjectName := projectName, tm_SchemaName := schemaName, tm_Name := tableName\<rparr>,
      ti_tableSchema = zero_SchemaInfo, ti_beLoaded = False, ti_beLoadedExtended = False\<rparr>"

text \<open>A scalar element overwrites the field, and its absence leaves it. Elements of a slice are appended.\<close>

definition x_keep :: "string list \<Rightarrow> xml \<Rightarrow> string \<Rightarrow> string" where
  "x_keep path e old = (case rev (x_path path e) of [] \<Rightarrow> old | c # _ \<Rightarrow> x_text c)"

definition x_mask_infos :: "xml \<Rightarrow> ColumnMaskInfo list option \<Rightarrow> ColumnMaskInfo list option" where
  "x_mask_infos e old =
     (case map (\<lambda>c. \<lparr>mi_Name = x_string [''Name''] c, mi_PolicyNameList = map x_text (x_path [''PolicyNameList''] c)\<rparr>)
             (x_path [''ColumnMaskInfos''] e) of
        [] \<Rightarrow> old
      | xs \<Rightarrow> Some ((case old of None \<Rightarrow> [] | Some ys \<Rightarrow> ys) @ xs))"

definition x_table_type :: "xml \<Rightarrow> TableType \<Rightarrow> TableType" where
  "x_table_type e old = (case rev (x_path [''Type''] e) of [] \<Rightarrow> old | c # _ \<Rightarrow> TableTypeFromStr (x_text c))"

definition x_tableModel :: "tableModel \<Rightarrow> xml \<Rightarrow> tableModel" where
  "x_tableModel m e =
     \<lparr>tm_Name = x_keep [''Name''] e (tm_Name m), tm_TableID = x_keep [''TableId''] e (tm_TableID m),
      tm_Format = x_keep [''Format''] e (tm_Format m), tm_Schema = x_keep [''Schema''] e (tm_Schema m),
      tm_Comment = x_keep [''Comment''] e (tm_Comment m), tm_Owner = x_keep [''Owner''] e (tm_Owner m),
      tm_ProjectName = x_keep [''Project''] e (tm_ProjectName m), tm_SchemaName = x_keep [''SchemaName''] e (tm_SchemaName m),
      tm_TableLabel = x_keep [''TableLabel''] e (tm_TableLabel m), tm_CryptoAlgo = x_keep [''CryptoAlgo''] e (tm_CryptoAlgo m),
      tm_TableMaskInfo = x_keep [''TableMaskInfo''] e (tm_TableMaskInfo m),
      tm_ColumnMaskInfos = x_mask_infos e (tm_ColumnMaskInfos m), tm_Type = x_table_type e (tm_Type m)\<rparr>"

definition ti_ResourceUrl :: "TableInfo \<Rightarrow> string" where
  "ti_ResourceUrl t = rb_Table \<lparr>rb_ProjectName = tm_ProjectName (ti_model t)\<rparr> [] (tm_Name (ti_model t))"

definition ti_SchemaName :: "TableInfo \<Rightarrow> string" where
  "ti_SchemaName t = tm_SchemaName (ti_model t)"

definition ti_query :: "TableInfo \<Rightarrow> Values \<Rightarrow> Values" where
  "ti_query t q = set_if (ti_SchemaName t \<noteq> []) ''curr_schema'' (ti_SchemaName t) q"

text \<open>A request for the table's document, decoded into the model \<open>m\<close>.\<close>

definition get_table :: "'e Odps \<Rightarrow> Values \<Rightarrow> tableModel \<Rightarrow> (TableInfo \<times> 'e, tableModel) M" where
  "get_table od q m =
     mbind (mget fst) (\<lambda>t. on_env (\<lambda>_. od_restClient od)
       (GetWithModel (od_restClient od) (ti_ResourceUrl t) (Some (ti_query t q)) Map.empty
         (x_Decode ''Table'' (\<lambda>e. Ret (x_tableModel m e)))))"

definition into_schema :: "decoders \<Rightarrow> string \<Rightarrow> (TableInfo \<times> 'e, unit) M" where
  "into_schema D text s =
     (case schema_Unmarshal D text (ti_tableSchema (fst s)) of
        (r, si) \<Rightarrow> (r, ((fst s)\<lparr>ti_tableSchema := si\<rparr>, snd s)))"

definition LoadExtendedInfo :: "decoders \<Rightarrow> 'e Odps \<Rightarrow> (TableInfo \<times> 'e, unit) M" where
  "LoadExtendedInfo D od =
     mbind (get_table od [''extended'' \<mapsto> []] zero_tableModel) (\<lambda>model.
     mseq (into_schema D (tm_Schema model)) (on_session (ti_beLoadedExtended_update (\<lambda>_. True))))"

text \<open>\<open>beLoaded\<close> is set before anything is asked of the server.\<close>

definition tb_Load :: "decoders \<Rightarrow> 'e Odps \<Rightarrow> (TableInfo \<times> 'e, unit) M" where
  "tb_Load D od =
     mseq (on_session (ti_beLoaded_update (\<lambda>_. True)))
     (mbind (mget (\<lambda>s. ti_model (fst s))) (\<lambda>m.
      mbind (get_table od Map.empty m) (\<lambda>model.
      mseq (on_session (ti_model_update (\<lambda>_. model)))
      (mseq (into_schema D (tm_Schema model)) (LoadExtendedInfo D od)))))"

definition tb_IsLoaded :: "TableInfo \<Rightarrow> bool" where
  "tb_IsLoaded t = ti_beLoaded t"

definition tb_IsLoadedExtended :: "TableInfo \<Rightarrow> bool" where
  "tb_IsLoadedExtended t = ti_beLoaded t"

definition tb_Exists :: "decoders \<Rightarrow> 'e Odps \<Rightarrow> (TableInfo \<times> 'e, bool) M" where
  "tb_Exists D od s =
     (case tb_Load D od s of
        (Ret _, s') \<Rightarrow> (Ret True, s')
      | (Fail err, s') \<Rightarrow>
          (case err of
             ErrHttp code status retry \<Rightarrow> if status = ''404 Not Found'' then (Ret False, s') else (Fail err, s')
           | _ \<Rightarrow> (Fail err, s'))
      | (Panic p, s') \<Rightarrow> (Panic p, s'))"

definition newTableWithModel :: "decoders \<Rightarrow> tableModel \<Rightarrow> TableInfo outcome" where
  "newTableWithModel D model =
     (case schema_Unmarshal D (tm_Schema model) zero_SchemaInfo of
        (Ret _, si) \<Rightarrow> Ret \<lparr>ti_model = model, ti_tableSchema = si, ti_beLoaded = True, ti_beLoadedExtended = False\<rparr>
      | (Fail e, _) \<Rightarrow> Fail e
      | (Panic p, _) \<Rightarrow> Panic p)"

definition batch_body :: "Tables \<Rightarrow> string list \<Rightarrow> xml" where
  "batch_body ts tableNames =
     XElem ''Tables'' [] (map (\<lambda>n. XElem ''Table'' []
       [x_text_elem ''Project'' (tbs_projectName ts), x_text_elem ''Name'' n, x_text_elem ''Schema'' (tbs_schemaName ts)] [])
       tableNames) []"

text \<open>One table that cannot be decoded fails the whole batch. Each \<open>Table\<close> element must have that name.\<close>

definition BatchLoadTables :: "decoders \<Rightarrow> 'e Odps \<Rightarrow> Tables \<Rightarrow> string list \<Rightarrow> ('e, TableInfo list) M" where
  "BatchLoadTables D od ts tableNames =
     mbind (DoXmlWithModel (od_restClient od) PostMethod (rb_Tables \<lparr>rb_ProjectName = tbs_projectName ts\<rparr>)
         (Some (set_if (tbs_schemaName ts \<noteq> []) ''curr_schema'' (tbs_schemaName ts) [''query'' \<mapsto> []]))
         (batch_body ts tableNames)
         (x_Decode ''Tables'' (\<lambda>e. Ret (map (x_tableModel zero_tableModel) (x_path [''Table''] e)))))
       (\<lambda>models. mlift (omap_list (newTableWithModel D) models))"

text \<open>The policies of the columns are decoded once and kept.\<close>

definition ColumnMaskInfo_json :: "(string \<times> ColumnMaskInfo jfield) list" where
  "ColumnMaskInfo_json =
     [(''Name'', jstring (\<lambda>v. mi_Name_update (\<lambda>_. v))),
      (''PolicyNameList'', jstrings (\<lambda>v. mi_PolicyNameList_update (\<lambda>_. v)))]"

definition mask_list_json :: "(string \<times> ColumnMaskInfo list option jfield) list" where
  "mask_list_json =
     [(''columnMaskInfoList'', \<lambda>j s. case j of
         JNull \<Rightarrow> Ret None
       | _ \<Rightarrow> jlist (\<lambda>j. jstruct ColumnMaskInfo_json j \<lparr>mi_Name = [], mi_PolicyNameList = []\<rparr>) (\<lambda>v _. Some v) j s)]"

definition ColumnMaskInfos :: "decoders \<Rightarrow> (TableInfo, ColumnMaskInfo list option) M" where
  "ColumnMaskInfos D t =
     (if tm_ColumnMaskInfos (ti_model t) \<noteq> None then (Ret (tm_ColumnMaskInfos (ti_model t)), t)
      else if tm_TableMaskInfo (ti_model t) = [] then (Ret None, t)
      else (case js_parse D (tm_TableMaskInfo (ti_model t)) of
          None \<Rightarrow> (Fail json_syntax_error, t)
        | Some j \<Rightarrow> (case jstruct mask_list_json j None of
              Ret infos \<Rightarrow> (Ret infos, t\<lparr>ti_model := (ti_model t)\<lparr>tm_ColumnMaskInfos := infos\<rparr>\<rparr>)
            | Fail e \<Rightarrow> (Fail e, t)
            | Panic p \<Rightarrow> (Panic p, t))))"

subsection \<open>Partitions\<close>

record partitionExtendedModel =
  pe_FileNum :: int
  pe_IsArchived :: bool
  pe_IsExStore :: bool
  pe_LifeCycle :: int
  pe_PhysicalSize :: int
  pe_Reserved :: string

record partitionModel =
  pl_Value :: "(string \<times> string) list"
  pl_CreateTime :: gotime
  pl_LastDDLTime :: gotime
  pl_LastAccessTime :: gotime
  pl_LastModifiedTime :: gotime
  pl_PartitionRecordNum :: int
  pl_PartitionSize :: int

record PartitionInfo =
  pi_projectName :: string
  pi_schemaName :: string
  pi_tableName :: string
  pi_model :: partitionModel
  pi_extendedModel :: partitionExtendedModel

definition jpair :: "json \<Rightarrow> (string \<times> string) outcome" where
  "jpair j = jstruct [(''Name'', jstring (\<lambda>v. apfst (\<lambda>_. v))), (''Value'', jstring (\<lambda>v. apsnd (\<lambda>_. v)))] j ([], [])"

definition partitionModel_json :: "(string \<times> partitionModel jfield) list" where
  "partitionModel_json =
     [(''column'', jlist jpair (\<lambda>v. pl_Value_update (\<lambda>_. v))),
      (''createTime'', jtime (\<lambda>v. pl_CreateTime_update (\<lambda>_. v))),
      (''lastDDLTime'', jtime (\<lambda>v. pl_LastDDLTime_update (\<lambda>_. v))),
      (''lastAccessTime'', jtime (\<lambda>v. pl_LastAccessTime_update (\<lambda>_. v))),
      (''lastModifiedTime'', jtime (\<lambda>v. pl_LastModifiedTime_update (\<lambda>_. v))),
      (''partitionRecordNum'', jint (\<lambda>v. pl_PartitionRecordNum_update (\<lambda>_. v))),
      (''partitionSize'', jint (\<lambda>v. pl_PartitionSize_update (\<lambda>_. v)))]"

definition zero_partitionModel :: partitionModel where
  "zero_partitionModel =
     \<lparr>pl_Value = [], pl_CreateTime = zero_time, pl_LastDDLTime = zero_time, pl_LastAccessTime = zero_time,
      pl_LastModifiedTime = zero_time, pl_PartitionRecordNum = 0, pl_PartitionSize = 0\<rparr>"

definition partitionExtendedModel_json :: "(string \<times> partitionExtendedModel jfield) list" where
  "partitionExtendedModel_json =
     [(''FileNum'', jint (\<lambda>v. pe_FileNum_update (\<lambda>_. v))), (''IsArchived'', jbool (\<lambda>v. pe_IsArchived_update (\<lambda>_. v))),
      (''IsExstore'', jbool (\<lambda>v. pe_IsExStore_update (\<lambda>_. v))), (''LifeCycle'', jint (\<lambda>v. pe_LifeCycle_update (\<lambda>_. v))),
      (''PhysicalSize'', jint (\<lambda>v. pe_PhysicalSize_update (\<lambda>_. v))), (''Reserved'', jstring (\<lambda>v. pe_Reserved_update (\<lambda>_. v)))]"

definition zero_partitionExtendedModel :: partitionExtendedModel where
  "zero_partitionExtendedModel =
     \<lparr>pe_FileNum = 0, pe_IsArchived = False, pe_IsExStore = False, pe_LifeCycle = 0, pe_PhysicalSize = 0, pe_Reserved = []\<rparr>"

definition pi_Spec :: "PartitionInfo \<Rightarrow> string" where
  "pi_Spec p = range_sep '','' spec_item (pl_Value (pi_model p))"

text \<open>The \<open>Schema\<close> text of a partition's document, decoded into a fresh model.\<close>

definition get_partition ::
    "decoders \<Rightarrow> 'e Odps \<Rightarrow> Values \<Rightarrow> (string \<times> 'm jfield) list \<Rightarrow> 'm \<Rightarrow> (PartitionInfo \<times> 'e, 'm) M" where
  "get_partition D od extra decs zero =
     mbind (mget fst) (\<lambda>p.
     mbind (on_env (\<lambda>_. od_restClient od)
       (GetWithModel (od_restClient od) (rb_Table (NewResourceBuilder (pi_projectName p)) [] (pi_tableName p))
         (Some (set_if (pi_schemaName p \<noteq> []) ''curr_schema'' (pi_schemaName p) (extra(''partition'' \<mapsto> pi_Spec p))))
         Map.empty (x_Decode ''Partition'' (\<lambda>e. Ret (x_string [''Schema''] e))))) (\<lambda>text.
     mlift (case js_parse D text of None \<Rightarrow> Fail json_syntax_error | Some j \<Rightarrow> jstruct decs j zero)))"

definition pt_Load :: "decoders \<Rightarrow> 'e Odps \<Rightarrow> (PartitionInfo \<times> 'e, unit) M" where
  "pt_Load D od =
     mbind (get_partition D od Map.empty partitionModel_json zero_partitionModel) (\<lambda>model.
       on_session (\<lambda>p. p\<lparr>pi_model := model\<lparr>pl_Value := pl_Value (pi_model p)\<rparr>\<rparr>))"

definition pt_LoadExtended :: "decoders \<Rightarrow> 'e Odps \<Rightarrow> (PartitionInfo \<times> 'e, unit) M" where
  "pt_LoadExtended D od =
     mbind (get_partition D od [''extended'' \<mapsto> []] partitionExtendedModel_json zero_partitionExtendedModel) (\<lambda>model.
       on_session (pi_extendedModel_update (\<lambda>_. model)))"

subsection \<open>Properties\<close>

text \<open>What no field of a list of decoders changes, the decoding of a document does not change.\<close>

lemma find_field_in: "find_field k fs = Some f \<Longrightarrow> \<exists>n. (n, f) \<in> set fs"
  by (induction k fs rule: find_field.induct) (auto split: if_splits)

lemma jentries_keeps:
  assumes "list_all (\<lambda>(n, f). \<forall>j s s'. f j s = Ret s' \<longrightarrow> g s' = g s) fs" "jentries fs kvs s = Ret s'"
  shows "g s' = g s"
  using assms(2)
proof (induction kvs arbitrary: s)
  case (Cons kv kvs)
  then show ?case
    using assms(1) find_field_in [of "fst kv" fs]
    by (cases kv) (auto simp: obind_Ret_iff list_all_iff split: option.splits; metis case_prodD)
qed simp

lemma jstruct_keeps:
  assumes "list_all (\<lambda>(n, f). \<forall>j s s'. f j s = Ret s' \<longrightarrow> g s' = g s) fs" "jstruct fs j s = Ret s'"
  shows "g s' = g s"
  using assms jentries_keeps [OF assms(1)] by (cases j) auto

text \<open>A field decoder that only applies an update which keeps \<open>g\<close>.\<close>

lemma field_keeps:
  shows "jstring upds j s = Ret s' \<Longrightarrow> (\<And>v s. g (upds v s) = g s) \<Longrightarrow> g s' = g s"
    "jbool updb j s = Ret s' \<Longrightarrow> (\<And>v s. g (updb v s) = g s) \<Longrightarrow> g s' = g s"
    "jint updi j s = Ret s' \<Longrightarrow> (\<And>v s. g (updi v s) = g s) \<Longrightarrow> g s' = g s"
    "jlist el updl j s = Ret s' \<Longrightarrow> (\<And>v s. g (updl v s) = g s) \<Longrightarrow> g s' = g s"
    "jtime updt j s = Ret s' \<Longrightarrow> (\<And>v s. g (updt v s) = g s) \<Longrightarrow> g s' = g s"
  by (cases j; auto simp: obind_Ret_iff split: if_splits)+

lemma serde_schema [simp]: "si_SerDeProperties (on_schema f s) = si_SerDeProperties s"
  by (simp add: on_schema_def)

lemma serde_jcluster: "jcluster j s = Ret s' \<Longrightarrow> si_SerDeProperties s' = si_SerDeProperties s"
  by (auto simp: jcluster_def omap_def obind_Ret_iff)

lemma TableSchema_json_serde:
  "list_all (\<lambda>(n, f). \<forall>j s s'. f j s = Ret s' \<longrightarrow> si_SerDeProperties s' = si_SerDeProperties s) (TableSchema_json D)"
  unfolding TableSchema_json_def jstrings_def
  by (simp only: list.pred_inject prod.case; intro conjI allI impI TrueI; (rule serde_jcluster, assumption)?;
      erule field_keeps; simp)

lemma tempSchema_json_serde:
  "list_all (\<lambda>(n, f). \<forall>j s s'. f j s = Ret s' \<longrightarrow>
     si_SerDeProperties (tmp_Alias s') = si_SerDeProperties (tmp_Alias s)) (tempSchema_json D)"
proof -
  have ptr: "jstring_ptr upd j s = Ret s' \<Longrightarrow> (\<And>v s. tmp_Alias (upd v s) = tmp_Alias s) \<Longrightarrow> tmp_Alias s' = tmp_Alias s"
    for upd j s s'
    by (cases j) auto
  have al: "on_alias f j s = Ret s' \<Longrightarrow> \<exists>a. f j (tmp_Alias s) = Ret a \<and> tmp_Alias s' = a" for f j s s'
    by (auto simp: on_alias_def omap_def obind_Ret_iff)
  have "list_all (\<lambda>(n, f). \<forall>j s s'. f j s = Ret s' \<longrightarrow>
      si_SerDeProperties (tmp_Alias s') = si_SerDeProperties (tmp_Alias s))
      (map (\<lambda>(n, f). (n, on_alias f)) (TableSchema_json D))"
    using TableSchema_json_serde [of D] by (fastforce simp: list_all_iff dest!: al)
  moreover have "si_SerDeProperties (tmp_Alias s') = si_SerDeProperties (tmp_Alias s)"
    if "jstring_ptr upd j s = Ret s'" "\<And>v s. tmp_Alias (upd v s) = tmp_Alias s" for upd j and s s' :: tempSchema
    using ptr [OF that] by simp
  ultimately show ?thesis unfolding tempSchema_json_def list_all_append
    by (simp only: list.pred_inject prod.case) (intro conjI allI impI TrueI; simp)
qed

lemma apply_reserved_serde: "apply_reserved D s = Ret s' \<Longrightarrow> si_SerDeProperties s' = si_SerDeProperties s"
  by (auto simp: apply_reserved_def obind_Ret_iff split: if_splits option.splits)

lemma set_flag_serde: "(\<And>b s. si_SerDeProperties (upd b s) = si_SerDeProperties s) \<Longrightarrow>
    si_SerDeProperties (set_flag t upd s) = si_SerDeProperties s"
  by (simp add: set_flag_def split: option.splits)

lemma jmap_grows:
  assumes "jmap j m = Ret m'" "j \<noteq> JNull"
  shows "fst ` set m \<subseteq> fst ` set m'"
proof -
  have upd: "fst ` set m \<subseteq> fst ` set (AList.update k v m)" for k v and m :: "(string \<times> string) list"
    by (metis dom_map_of_conv_image_fst dom_fun_upd option.distinct(1) subset_insertI update_conv')
  have "fst ` set m \<subseteq> fst ` set (fold (\<lambda>(k, v). AList.update k v) xs m)" for xs :: "(string \<times> string) list" and m
  proof (induction xs arbitrary: m)
    case (Cons kv xs)
    then show ?case using upd [of m "fst kv" "snd kv"] by (cases kv) (simp, blast)
  qed simp
  then show ?thesis using assms by (cases j) (simp_all add: obind_Ret_iff, blast)
qed

text \<open>
  A schema is decoded into the one that the table holds, and the SerDe properties are merged into the map that is there. So a property
  that a server has dropped stays: loading a table again never removes a key, unless the server sends a null for the
  whole map.
\<close>

definition serde_null :: "decoders \<Rightarrow> string \<Rightarrow> SchemaInfo \<Rightarrow> bool" where
  "serde_null D text s \<longleftrightarrow>
     (\<exists>j t tx. js_parse D text = Some j \<and>
        jstruct (tempSchema_json D) j
          \<lparr>tmp_Alias = s, tmp_SerDeProperties = None, tmp_MvProperties = None, tmp_RewriteEnabled = None, tmp_Outdated = None\<rparr> = Ret t \<and>
        tmp_SerDeProperties t = Some tx \<and> js_parse D tx = Some JNull)"

theorem serde_properties_stay:
  assumes "schema_Unmarshal D text s = (Ret (), s')" "\<not> serde_null D text s"
  shows "fst ` set (si_SerDeProperties s) \<subseteq> fst ` set (si_SerDeProperties s')"
proof -
  obtain j where j: "js_parse D text = Some j" "TableSchema_UnmarshalJSON D j s = Ret s'"
    using assms(1) by (auto simp: schema_Unmarshal_def split: option.splits outcome.splits)
  then obtain t serde mv where t: "jstruct (tempSchema_json D) j
        \<lparr>tmp_Alias = s, tmp_SerDeProperties = None, tmp_MvProperties = None, tmp_RewriteEnabled = None, tmp_Outdated = None\<rparr> = Ret t"
    and serde: "inner_map D (tmp_SerDeProperties t) (si_SerDeProperties (tmp_Alias t)) = Ret serde"
    and res: "apply_reserved D (set_flag (tmp_Outdated t) (\<lambda>b. si_IsMaterializedViewOutdated_update (\<lambda>_. b))
            (set_flag (tmp_RewriteEnabled t) (\<lambda>b. on_schema (ts_IsMaterializedViewRewriteEnabled_update (\<lambda>_. b)))
              (on_schema (ts_MvProperties_update (\<lambda>_. mv)) ((tmp_Alias t)\<lparr>si_SerDeProperties := serde\<rparr>)))) = Ret s'"
    by (auto simp: TableSchema_UnmarshalJSON_def obind_Ret_iff split: if_splits)
  have "si_SerDeProperties (tmp_Alias t) = si_SerDeProperties s"
    using jstruct_keeps [OF tempSchema_json_serde t] by simp
  moreover have "si_SerDeProperties s' = serde"
    using apply_reserved_serde [OF res] by (simp add: set_flag_serde)
  moreover have "fst ` set m \<subseteq> fst ` set m'" if m: "inner_map D (tmp_SerDeProperties t) m = Ret m'" for m m'
  proof (cases "tmp_SerDeProperties t")
    case (Some tx)
    then obtain k where "js_parse D tx = Some k" "jmap k m = Ret m'"
      using m by (auto simp: inner_map_def split: option.splits)
    moreover then have "k \<noteq> JNull" using assms(2) j t Some by (auto simp: serde_null_def)
    ultimately show ?thesis using jmap_grows by metis
  qed (use m in \<open>simp add: inner_map_def\<close>)
  ultimately show ?thesis using serde by metis
qed

definition example_decoders :: decoders where
  "example_decoders =
     \<lparr>js_parse = (\<lambda>t. if t = ''S'' then Some (JObj [(''serDeProperties'', JStr ''P'')])
        else if t = ''P'' then Some (JObj [(''b'', JStr ''2'')]) else None),
      js_expressions = (\<lambda>_. Ret []), js_partial = (\<lambda>_ s. s)\<rparr>"

definition example_loaded :: SchemaInfo where
  "example_loaded = zero_SchemaInfo\<lparr>si_SerDeProperties := [(''a'', ''1'')]\<rparr>"

lemma example_serde_load:
  "schema_Unmarshal example_decoders ''S'' example_loaded =
     (Ret (), example_loaded\<lparr>si_SerDeProperties := [(''a'', ''1''), (''b'', ''2'')]\<rparr>)"
proof -
  have f: "find_field ''serDeProperties'' (tempSchema_json example_decoders) =
      Some (jstring_ptr (\<lambda>v. tmp_SerDeProperties_update (\<lambda>_. v)))"
    by (simp add: tempSchema_json_def)
  have p: "js_parse example_decoders ''S'' = Some (JObj [(''serDeProperties'', JStr ''P'')])"
    "js_parse example_decoders ''P'' = Some (JObj [(''b'', JStr ''2'')])"
    by (simp_all add: example_decoders_def)
  have t: "jstruct (tempSchema_json example_decoders) (JObj [(''serDeProperties'', JStr ''P'')])
      \<lparr>tmp_Alias = s, tmp_SerDeProperties = None, tmp_MvProperties = None, tmp_RewriteEnabled = None, tmp_Outdated = None\<rparr> =
    Ret \<lparr>tmp_Alias = s, tmp_SerDeProperties = Some ''P'', tmp_MvProperties = None, tmp_RewriteEnabled = None, tmp_Outdated = None\<rparr>"
    for s
    by (simp only: jstruct.simps jentries.simps f option.case jstring_ptr.simps obind.simps) simp
  have m: "inner_map example_decoders (Some ''P'') [(''a'', ''1'')] = Ret [(''a'', ''1''), (''b'', ''2'')]"
    by (simp add: inner_map_def p)
  have r: "si_Reserved example_loaded = []" "si_SerDeProperties example_loaded = [(''a'', ''1'')]"
    by (simp_all add: example_loaded_def zero_SchemaInfo_def)
  show ?thesis
    unfolding schema_Unmarshal_def TableSchema_UnmarshalJSON_def p option.case t obind.simps tempSchema.simps r m
    by (simp add: inner_map_def apply_reserved_def set_flag_def on_schema_def r)
qed

theorem serde_properties_stay_witness:
  "{''a''} \<subseteq> fst ` set (si_SerDeProperties (example_loaded\<lparr>si_SerDeProperties := [(''a'', ''1''), (''b'', ''2'')]\<rparr>))"
proof -
  have "\<not> serde_null example_decoders ''S'' example_loaded"
    by (auto simp: serde_null_def example_decoders_def split: if_splits)
  from serde_properties_stay [OF example_serde_load this] show ?thesis by (simp add: example_loaded_def)
qed

lemma mseq_on_session: "mseq (on_session f) m s = m (f (fst s), snd s)"
  by (simp add: mseq_def mbind_def on_session_def)

lemma keeps_load [keeps_intros]:
  "keeps ti_beLoaded (get_table od q m)" "keeps ti_beLoaded (into_schema D tx)"
proof -
  show "keeps ti_beLoaded (get_table od q m)" unfolding get_table_def by (intro keeps_intros)
  show "keeps ti_beLoaded (into_schema D tx)" by (simp add: keeps_def into_schema_def split: prod.splits)
qed

lemma keeps_LoadExtendedInfo [keeps_intros]: "keeps ti_beLoaded (LoadExtendedInfo D od)"
  unfolding LoadExtendedInfo_def by (intro keeps_intros) simp

lemma tb_Load_beLoaded: "ti_beLoaded (fst (snd (tb_Load D od s)))"
proof -
  have "keeps ti_beLoaded (mbind (mget (\<lambda>s. ti_model (fst s))) (\<lambda>m.
      mbind (get_table od Map.empty m) (\<lambda>model.
      mseq (on_session (ti_model_update (\<lambda>_. model)))
      (mseq (into_schema D (tm_Schema model)) (LoadExtendedInfo D od)))))"
    by (intro keeps_intros) simp
  then show ?thesis unfolding tb_Load_def mseq_on_session by (simp add: keeps_def)
qed

text \<open>
  Loading sets \<open>beLoaded\<close> whatever happens: after a load that has failed the table counts as loaded, and as loaded with
  its extended information, which is asked of the same flag. The table exists for \<open>Exists\<close> when \<open>Load\<close> succeeds, it does not when
  \<open>Load\<close> fails with the status line \<^verbatim>\<open>404 Not Found\<close>, and every other failure is an error.
\<close>

theorem table_exists:
  "(fst (tb_Exists D od s) = Ret True \<longleftrightarrow> fst (tb_Load D od s) = Ret ()) \<and>
   (fst (tb_Exists D od s) = Ret False \<longleftrightarrow>
      (\<exists>code retry. fst (tb_Load D od s) = Fail (ErrHttp code ''404 Not Found'' retry))) \<and>
   tb_IsLoaded (fst (snd (tb_Exists D od s))) \<and> tb_IsLoadedExtended (fst (snd (tb_Exists D od s)))"
proof -
  have "snd (tb_Exists D od s) = snd (tb_Load D od s)"
    by (auto simp: tb_Exists_def split: prod.splits outcome.splits goerr.splits)
  then show ?thesis
    using tb_Load_beLoaded [of D od s]
    by (auto simp: tb_Exists_def tb_IsLoaded_def tb_IsLoadedExtended_def split: prod.splits outcome.splits goerr.splits)
qed

text \<open>The tables of a batch have not been asked for their extended information, but count as if they had.\<close>

lemma BatchLoadTables_extended:
  assumes "BatchLoadTables D od ts names e = (Ret tables, e')" "t \<in> set tables"
  shows "tb_IsLoadedExtended t \<and> \<not> ti_beLoadedExtended t"
proof -
  obtain models where "omap_list (newTableWithModel D) models = Ret tables"
    using assms(1) by (auto simp: BatchLoadTables_def mbind_def mlift_def split: outcome.splits prod.splits)
  then obtain m where "newTableWithModel D m = Ret t"
    using assms(2) by (induction models arbitrary: tables) (auto simp: obind_Ret_iff)
  then show ?thesis by (auto simp: newTableWithModel_def tb_IsLoadedExtended_def split: prod.splits outcome.splits)
qed

lemma pt_Load_keeps_value: "keeps (\<lambda>p. pl_Value (pi_model p) = v) (pt_Load D od)"
  unfolding pt_Load_def get_partition_def by (intro keeps_intros) simp

text \<open>A column whose document does not say that it may be null is not null.\<close>

lemma jcolumn_not_null:
  "omap col_NotNull (jcolumn example_decoders (JObj [(''name'', JStr ''a''), (''type'', JStr ''bigint'')])) = Ret True"
  by code_simp

end
