(* ===== verification/FileResources.thy ===== *)
theory FileResources
  imports Projects Accounts Dates
begin

section \<open>Resources of a project and the upload of files\<close>

text \<open>
  Models \<^verbatim>\<open>odps/resource.go\<close> and \<^verbatim>\<open>odps/resources.go\<close>.
  \<^item> A reader is the list of what its calls of \<^verbatim>\<open>Read\<close> give: some bytes, and an error or none beside them. After the list comes
    the end of the file.
  \<^item> \<^verbatim>\<open>md5\<close> with its text in hexadecimal digits is an argument, \<open>md5_hex\<close>.
  \<^item> A file is sent in parts, one for each call of \<^verbatim>\<open>Read\<close>, and a last request names the parts that make it up.
\<close>

subsection \<open>Types of resources\<close>

type_synonym ResourceType = string

definition ResourceTypeFile :: ResourceType where "ResourceTypeFile = ''file''"
definition ResourceTypeJar :: ResourceType where "ResourceTypeJar = ''jar''"
definition ResourceTypeArchive :: ResourceType where "ResourceTypeArchive = ''archive''"
definition ResourceTypePy :: ResourceType where "ResourceTypePy = ''py''"
definition ResourceTypeTable :: ResourceType where "ResourceTypeTable = ''table''"
definition ResourceTypeVolumeFile :: ResourceType where "ResourceTypeVolumeFile = ''volume_file''"
definition ResourceTypeVolumeArchive :: ResourceType where "ResourceTypeVolumeArchive = ''volume_archive''"
definition ResourceTypeUnknown :: ResourceType where "ResourceTypeUnknown = ''unknown''"

lemmas resource_types = ResourceTypeFile_def ResourceTypeJar_def ResourceTypeArchive_def ResourceTypePy_def
  ResourceTypeTable_def ResourceTypeVolumeFile_def ResourceTypeVolumeArchive_def ResourceTypeUnknown_def

definition ResourceTypeFromStr :: "string \<Rightarrow> ResourceType" where
  "ResourceTypeFromStr str =
     (let lstr = ToLower str in
      if lstr = ''file'' then ResourceTypeFile
      else if lstr = ''jar'' then ResourceTypeJar
      else if lstr = ''archive'' then ResourceTypeArchive
      else if lstr = ''py'' then ResourceTypePy
      else if lstr = ''table'' then ResourceTypeTable
      else if lstr = ''volume_file'' then ResourceTypeVolumeFile
      else if lstr = ''volume_archive'' then ResourceTypeVolumeArchive
      else ResourceTypeUnknown)"

definition ResourceTypeToStr :: "ResourceType \<Rightarrow> string" where
  "ResourceTypeToStr t =
     (if t = ResourceTypeFile then ''file''
      else if t = ResourceTypeJar then ''jar''
      else if t = ResourceTypeArchive then ''archive''
      else if t = ResourceTypePy then ''py''
      else if t = ResourceTypeTable then ''table''
      else ''unknown'')"

subsection \<open>A resource and its metadata\<close>

record resourceModel =
  re_SchemaName :: string
  re_Name :: string
  re_Owner :: string
  re_Comment :: string
  re_ResourceType :: ResourceType
  re_LocalPath :: string
  re_CreationTime :: string
  re_LastModifiedTime :: string
  re_LastUpdator :: string
  re_ResourceSize :: int
  re_SourceTableName :: string
  re_ContentMD5 :: string
  re_IsTempResource :: bool
  re_VolumePath :: string
  re_TableName :: string

record Resource =
  re_Model :: resourceModel
  re_ProjectName :: string
  re_beLoaded :: bool

definition zero_resourceModel :: resourceModel where
  "zero_resourceModel =
     \<lparr>re_SchemaName = [], re_Name = [], re_Owner = [], re_Comment = [], re_ResourceType = [], re_LocalPath = [],
      re_CreationTime = [], re_LastModifiedTime = [], re_LastUpdator = [], re_ResourceSize = 0, re_SourceTableName = [],
      re_ContentMD5 = [], re_IsTempResource = False, re_VolumePath = [], re_TableName = []\<rparr>"

definition NewResource :: "resourceModel \<Rightarrow> string \<Rightarrow> Resource" where
  "NewResource model projectName = \<lparr>re_Model = model, re_ProjectName = projectName, re_beLoaded = False\<rparr>"

definition HttpHeaderOdpsResourceName :: string where "HttpHeaderOdpsResourceName = ''x-odps-resource-name''"
definition HttpHeaderOdpsResourceType :: string where "HttpHeaderOdpsResourceType = ''x-odps-resource-type''"
definition HttpHeaderOdpsComment :: string where "HttpHeaderOdpsComment = ''x-odps-comment''"
definition HttpHeaderOdpsResourceIsTemp :: string where "HttpHeaderOdpsResourceIsTemp = ''x-odps-resource-istemp''"
definition HttpHeaderOdpsResourceMergeTotalBytes :: string where
  "HttpHeaderOdpsResourceMergeTotalBytes = ''x-odps-resource-merge-total-bytes''"
definition HttpHeaderOdpsCopyTableSource :: string where
  "HttpHeaderOdpsCopyTableSource = ''x-odps-copy-table-source''"
definition HttpHeaderContentDisposition :: string where "HttpHeaderContentDisposition = ''Content-Disposition''"

text \<open>What is left of \<^verbatim>\<open>strconv.ParseInt\<close> when its error is dropped: 0, or the nearest value in range.\<close>

definition int_or_bound :: "string \<Rightarrow> int" where
  "int_or_bound s =
     (case ParseInt 64 s of
        Ret i \<Rightarrow> i
      | Fail e \<Rightarrow>
          if e = ErrMsg ''value out of range'' then (if s ! 0 = CHR ''-'' then - (2 ^ 63) else 2 ^ 63 - 1) else 0
      | Panic p \<Rightarrow> 0)"

definition bool_or_false :: "string \<Rightarrow> bool" where
  "bool_or_false s = (case ParseBool s of Ret b \<Rightarrow> b | _ \<Rightarrow> False)"

text \<open>The fields that a load sets from the headers of the answer. The type is stored as the name of a table too.\<close>

definition resource_headers :: "HttpResponse \<Rightarrow> resourceModel \<Rightarrow> resourceModel" where
  "resource_headers res m =
     (let h = Header_Get (rs_Header res); temp = h HttpHeaderOdpsResourceIsTemp in
      m\<lparr>re_SchemaName := h ''schema-name'', re_Name := h HttpHeaderOdpsResourceName, re_Owner := h HttpHeaderOdpsOwner,
        re_Comment := h HttpHeaderOdpsComment, re_CreationTime := h HttpHeaderOdpsCreationTime,
        re_LastModifiedTime := h HttpHeaderLastModified, re_LastUpdator := h ''x-odps-updator'',
        re_ResourceType := ResourceTypeFromStr (h HttpHeaderOdpsResourceType), re_TableName := h HttpHeaderOdpsResourceType,
        re_ResourceSize := int_or_bound (h ''x-odps-resource-size''), re_ContentMD5 := h HttpHeaderContentMD5,
        re_SourceTableName := h HttpHeaderOdpsCopyTableSource, re_VolumePath := h ''x-odps-copy-file-source'',
        re_IsTempResource := (if temp \<noteq> [] then bool_or_false temp else re_IsTempResource m)\<rparr>)"

definition re_Load :: "'e Odps \<Rightarrow> (Resource \<times> 'e, unit) M" where
  "re_Load od =
     mseq (on_session (re_beLoaded_update (\<lambda>_. True)))
     (mbind (mget fst) (\<lambda>r. let m = re_Model r in
      mbind (on_env (\<lambda>_. od_restClient od)
        (GetWithParseFunc (od_restClient od) (rb_Resource \<lparr>rb_ProjectName = re_ProjectName r\<rparr> (re_Name m))
          (Some ((set_if (re_SchemaName m \<noteq> []) ''curr_schema'' (re_SchemaName m) Map.empty)(''meta'' \<mapsto> [])))
          Map.empty Ret)) (\<lambda>res.
      on_session (re_Model_update (resource_headers res)))))"

text \<open>An error that is no answer of the server is dropped, and the resource counts as there.\<close>

definition re_Exist :: "'e Odps \<Rightarrow> (Resource \<times> 'e, bool) M" where
  "re_Exist od s =
     (case re_Load od s of
        (Fail (ErrHttp code status retry), s') \<Rightarrow>
          if status = ''404 Not Found'' then (Ret False, s') else (Fail (ErrHttp code status retry), s')
      | (Panic p, s') \<Rightarrow> (Panic p, s')
      | (_, s') \<Rightarrow> (Ret True, s'))"

definition NewTableResource :: "string \<Rightarrow> string \<Rightarrow> string \<Rightarrow> resourceModel" where
  "NewTableResource projectName tableName part =
     zero_resourceModel\<lparr>
       re_SourceTableName := (if projectName \<noteq> [] then projectName @ ''.'' @ tableName else tableName) @
         (if part \<noteq> [] then '' partition('' @ part @ '')'' else []),
       re_ResourceType := ResourceTypeTable\<rparr>"

definition NewFileResource :: "string \<Rightarrow> resourceModel" where
  "NewFileResource resourceName = zero_resourceModel\<lparr>re_Name := resourceName, re_ResourceType := ResourceTypeFile\<rparr>"

definition NewJarResource :: "string \<Rightarrow> resourceModel" where
  "NewJarResource resourceName = zero_resourceModel\<lparr>re_Name := resourceName, re_ResourceType := ResourceTypeJar\<rparr>"

definition NewPyResource :: "string \<Rightarrow> resourceModel" where
  "NewPyResource resourceName = zero_resourceModel\<lparr>re_Name := resourceName, re_ResourceType := ResourceTypePy\<rparr>"

definition NewArchiveResource :: "string \<Rightarrow> resourceModel" where
  "NewArchiveResource resourceName = zero_resourceModel\<lparr>re_Name := resourceName, re_ResourceType := ResourceTypeArchive\<rparr>"

subsection \<open>Uploading a file\<close>

record FileSource =
  fs_Name :: string
  fs_Comment :: string
  fs_IsTempResource :: bool
  fs_ResourceType :: ResourceType
  fs_Reader :: "(byte list \<times> goerr option) list option"

record ResourceClient =
  rl_ProjectName :: string
  rl_schemaName :: string

definition NewResources :: "'e Odps \<Rightarrow> ResourceClient" where
  "NewResources od = \<lparr>rl_ProjectName = od_defaultProject od, rl_schemaName = od_currentSchema od\<rparr>"

definition FormatBool :: "bool \<Rightarrow> string" where
  "FormatBool b = (if b then ''true'' else ''false'')"

text \<open>The name of a part: the number of the part is padded with zeros to six digits.\<close>

definition part_name :: "string \<Rightarrow> string \<Rightarrow> nat \<Rightarrow> string" where
  "part_name schemaName name cnt =
     (if schemaName \<noteq> [] then schemaName @ ''.'' else []) @ name @ ''.part.tmp.'' @ pad_int 6 (int cnt)"

definition file_headers :: "string \<Rightarrow> ResourceType \<Rightarrow> string \<Rightarrow> Values" where
  "file_headers name ty comment =
     set_if (comment \<noteq> []) HttpHeaderOdpsComment comment
       [HttpHeaderContentType \<mapsto> ''application/octet-stream'',
        HttpHeaderContentDisposition \<mapsto> ''attachment;filename='' @ name,
        HttpHeaderOdpsResourceType \<mapsto> ResourceTypeToStr ty,
        HttpHeaderOdpsResourceName \<mapsto> name]"

text \<open>A request with a body of which only the status 201 counts as success; other answers are errors with their body.\<close>

definition post_created ::
    "'e RestClient \<Rightarrow> HttpMethod \<Rightarrow> string \<Rightarrow> Values \<Rightarrow> Values \<Rightarrow> byte list \<Rightarrow> ('e, unit) M" where
  "post_created client method resource queryArgs headers body =
     mbind (mlift (NewRequestWithParamsAndHeaders client method resource (Some queryArgs) headers)) (\<lambda>req.
     mbind (Do client (req\<lparr>rq_body := body\<rparr>)) (\<lambda>res.
       if rs_StatusCode res \<noteq> 201 then mfail (ErrMsg (string_of (src_in (rs_Body res)))) else mret ()))"

definition schema_arg :: "string \<Rightarrow> Values" where
  "schema_arg schemaName = set_if (schemaName \<noteq> []) ''curr_schema'' schemaName Map.empty"

definition createTempPartFile ::
    "(byte list \<Rightarrow> string) \<Rightarrow> 'e Odps \<Rightarrow> string \<Rightarrow> string \<Rightarrow> string \<Rightarrow> byte list \<Rightarrow> ('e, unit) M" where
  "createTempPartFile md5_hex od projectName schemaName name content =
     (if name = [] then mfail (ErrMsg ''Temp part resource name cannot be empty'')
      else post_created (minute_client (od_restClient od)) PostMethod (rb_Resources \<lparr>rb_ProjectName = projectName\<rparr>)
        ((schema_arg schemaName)(''rIsPart'' \<mapsto> ''true''))
        ((file_headers name ResourceTypeFile [])(HttpHeaderOdpsResourceIsTemp \<mapsto> FormatBool True,
           HttpHeaderContentLength \<mapsto> Itoa (int (length content)), HttpHeaderContentMD5 \<mapsto> md5_hex content))
        content)"

text \<open>
  The loop over the reader. Its results are the names of the parts, the bytes that were hashed and their number. The
  bytes that come together with the end of the file are not looked at.
\<close>

fun upload_parts ::
    "(byte list \<Rightarrow> string) \<Rightarrow> 'e Odps \<Rightarrow> string \<Rightarrow> string \<Rightarrow> string \<Rightarrow> nat \<Rightarrow>
       (byte list \<times> goerr option) list \<Rightarrow> ('e, string list \<times> byte list) M" where
  "upload_parts md5_hex od projectName schemaName name cnt [] = mret ([], [])"
| "upload_parts md5_hex od projectName schemaName name cnt ((bs, Some err) # more_reads) =
     (if err = ErrEOF then mret ([], []) else mfail err)"
| "upload_parts md5_hex od projectName schemaName name cnt ((bs, None) # more_reads) =
     (let tmpName = part_name schemaName name cnt in
      mseq (createTempPartFile md5_hex od projectName schemaName tmpName bs)
      (mbind (upload_parts md5_hex od projectName schemaName name (Suc cnt) more_reads) (\<lambda>(tmpFiles, hashed).
        mret (tmpName # tmpFiles, bs @ hashed))))"

definition mergeTempPartFile ::
    "(byte list \<Rightarrow> string) \<Rightarrow> 'e Odps \<Rightarrow> string \<Rightarrow> string \<Rightarrow> FileSource \<Rightarrow> bool \<Rightarrow> byte list \<Rightarrow> int \<Rightarrow> ('e, unit) M" where
  "mergeTempPartFile md5_hex od projectName schemaName f overwrite commit totalBytes =
     (if fs_Name f = [] then mfail (ErrMsg ''File resource name cannot be empty'')
      else post_created (od_restClient od) (if overwrite then PutMethod else PostMethod)
        (if overwrite then rb_Resource (NewResourceBuilder projectName) (fs_Name f)
         else rb_Resources (NewResourceBuilder projectName))
        ((schema_arg schemaName)(''rOpMerge'' \<mapsto> ''true''))
        (set_if (fs_IsTempResource f) HttpHeaderOdpsResourceIsTemp (FormatBool True)
          ((file_headers (fs_Name f) (fs_ResourceType f) (fs_Comment f))
             (HttpHeaderOdpsResourceMergeTotalBytes \<mapsto> Itoa totalBytes, HttpHeaderContentLength \<mapsto> Itoa totalBytes,
              HttpHeaderContentMD5 \<mapsto> md5_hex commit)))
        commit)"

definition commit_content :: "(byte list \<Rightarrow> string) \<Rightarrow> string list \<Rightarrow> byte list \<Rightarrow> byte list" where
  "commit_content md5_hex tmpFiles hashed = bytes_of (md5_hex hashed @ ''|'' @ Join tmpFiles '','')"

definition CreateFileResource ::
    "(byte list \<Rightarrow> string) \<Rightarrow> 'e Odps \<Rightarrow> ResourceClient \<Rightarrow> string \<Rightarrow> string \<Rightarrow> FileSource \<Rightarrow> bool \<Rightarrow> ('e, unit) M" where
  "CreateFileResource md5_hex od r projectName0 schemaName0 f overwrite =
     (let projectName = (if projectName0 = [] then rl_ProjectName r else projectName0);
          schemaName = (if schemaName0 = [] then rl_schemaName r else schemaName0)
      in if fs_Name f = [] then mfail (ErrMsg ''resource name cannot be empty'')
         else case fs_Reader f of
           None \<Rightarrow> mfail (ErrMsg ''reader cannot be nil'')
         | Some calls \<Rightarrow>
             mbind (upload_parts md5_hex od projectName schemaName (fs_Name f) 0 calls) (\<lambda>(tmpFiles, hashed).
               mergeTempPartFile md5_hex od projectName schemaName f overwrite
                 (commit_content md5_hex tmpFiles hashed) (int (length hashed))))"

definition UpdateFileResource ::
    "(byte list \<Rightarrow> string) \<Rightarrow> 'e Odps \<Rightarrow> ResourceClient \<Rightarrow> string \<Rightarrow> string \<Rightarrow> FileSource \<Rightarrow> ('e, unit) M" where
  "UpdateFileResource md5_hex od r projectName schemaName f =
     CreateFileResource md5_hex od r projectName schemaName f True"

subsection \<open>Table resources, deletion, lists\<close>

definition Resources_Delete :: "'e Odps \<Rightarrow> ResourceClient \<Rightarrow> string \<Rightarrow> ('e, unit) M" where
  "Resources_Delete od r resourceName =
     mbind (mlift (NewRequestWithUrlQuery (od_restClient od) DeleteMethod
         (rb_Resource (NewResourceBuilder (rl_ProjectName r)) resourceName) (Some (schema_arg (rl_schemaName r))))) (\<lambda>req.
     mbind (Do (minute_client (od_restClient od)) req) (\<lambda>_. mret ()))"

text \<open>A table resource that has no source asks the server for it once, and drops the error.\<close>

definition getSourceTableName :: "'e Odps option \<Rightarrow> Resource \<Rightarrow> 'e \<Rightarrow> string outcome \<times> 'e" where
  "getSourceTableName owner r e =
     (case owner of
        Some od \<Rightarrow>
          if re_SourceTableName (re_Model r) = [] then
            (case re_Load od (r, e) of
               (Panic p, (_, e')) \<Rightarrow> (Panic p, e')
             | (_, (r', e')) \<Rightarrow> (Ret (re_SourceTableName (re_Model r')), e'))
          else (Ret (re_SourceTableName (re_Model r)), e)
      | None \<Rightarrow> (Ret (re_SourceTableName (re_Model r)), e))"

definition CreateTableResource ::
    "'e Odps \<Rightarrow> ResourceClient \<Rightarrow> string \<Rightarrow> string \<Rightarrow> 'e Odps option \<Rightarrow> Resource \<Rightarrow> bool \<Rightarrow> ('e, unit) M" where
  "CreateTableResource od r projectName0 schemaName0 owner tr overwrite =
     (let projectName = (if projectName0 = [] then rl_ProjectName r else projectName0);
          schemaName = (if schemaName0 = [] then rl_schemaName r else schemaName0);
          name = re_Name (re_Model tr); comment = re_Comment (re_Model tr)
      in if name = [] then mfail (ErrMsg ''resource name cannot be empty'')
         else
           mbind (getSourceTableName owner tr) (\<lambda>source.
           post_created (minute_client (od_restClient od)) (if overwrite then PutMethod else PostMethod)
             (if overwrite then rb_Resource (NewResourceBuilder projectName) name
              else rb_Resources (NewResourceBuilder projectName))
             (schema_arg schemaName)
             (set_if (comment \<noteq> []) HttpHeaderOdpsComment comment
               [HttpHeaderContentType \<mapsto> ''text/plain'',
                HttpHeaderOdpsResourceType \<mapsto> ResourceTypeToStr (re_ResourceType (re_Model tr)),
                HttpHeaderOdpsResourceName \<mapsto> name, HttpHeaderOdpsCopyTableSource \<mapsto> source])
             []))"

definition ResourceFilter_NamePrefix :: "string \<Rightarrow> Values \<Rightarrow> Values" where
  "ResourceFilter_NamePrefix name q = q(''name'' \<mapsto> name)"

definition x_resourceModel :: "xml \<Rightarrow> resourceModel outcome" where
  "x_resourceModel e =
     obind (x_int [''ResourceSize''] e) (\<lambda>size.
     obind (let t = x_string [''IsTempResource''] e in if t = [] then Ret False else ParseBool (TrimSpace t)) (\<lambda>temp.
     Ret \<lparr>re_SchemaName = x_string [''SchemaName''] e, re_Name = x_string [''Name''] e, re_Owner = x_string [''Owner''] e,
          re_Comment = x_string [''Comment''] e, re_ResourceType = x_string [''ResourceType''] e,
          re_LocalPath = x_string [''LocalPath''] e, re_CreationTime = x_string [''CreationTime''] e,
          re_LastModifiedTime = x_string [''LastModifiedTime''] e, re_LastUpdator = x_string [''LastUpdator''] e,
          re_ResourceSize = size, re_SourceTableName = x_string [''SourceTableName''] e,
          re_ContentMD5 = x_string [''ContentMD5''] e, re_IsTempResource = temp,
          re_VolumePath = x_string [''VolumePath''] e, re_TableName = x_string [''TableName''] e\<rparr>))"

definition resources_page :: "'e Odps \<Rightarrow> ResourceClient \<Rightarrow> Values \<Rightarrow> ('e, Resource list \<times> string) M" where
  "resources_page od r queryArgs =
     GetWithModel (od_restClient od) (rb_Resources \<lparr>rb_ProjectName = rl_ProjectName r\<rparr>) (Some queryArgs) Map.empty
       (x_Decode ''Resources'' (\<lambda>e. obind (x_int [''MaxItems''] e) (\<lambda>_.
          omap (\<lambda>ms. (map (\<lambda>m. (NewResource m (rl_ProjectName r))\<lparr>re_beLoaded := True\<rparr>) ms, x_string [''Marker''] e))
            (omap_list x_resourceModel (x_path [''Resource''] e)))))"

definition Resources_List ::
    "'e Odps \<Rightarrow> ResourceClient \<Rightarrow> (Values \<Rightarrow> Values) list \<Rightarrow> 'e \<Rightarrow> ((Resource list \<times> goerr option) outcome \<times> 'e) option" where
  "Resources_List od r filters =
     list_pages (resources_page od r)
       (fold (\<lambda>f. f) filters [''expectmarker'' \<mapsto> ''true'', ''curr_schema'' \<mapsto> rl_schemaName r]) []"

definition Resources_Get :: "ResourceClient \<Rightarrow> string \<Rightarrow> Resource" where
  "Resources_Get r resourceName = NewResource (zero_resourceModel\<lparr>re_Name := resourceName\<rparr>) (rl_ProjectName r)"

subsection \<open>What the server can put together\<close>

text \<open>
  The file as a server assembles it: the last request names the parts, separated by commas behind the checksum, and the
  bytes are the bodies of the requests of these names.
\<close>

definition part_body :: "HttpRequest list \<Rightarrow> string \<Rightarrow> byte list" where
  "part_body log name =
     (case filter (\<lambda>q. rq_header q HttpHeaderOdpsResourceName = Some name) log of [] \<Rightarrow> [] | q # _ \<Rightarrow> rq_body q)"

definition assemble :: "HttpRequest list \<Rightarrow> byte list" where
  "assemble log =
     (let commit = string_of (rq_body (last log)); list = drop 1 (dropWhile (\<lambda>c. c \<noteq> CHR ''|'') commit)
      in concat (map (part_body (butlast log)) (if list = [] then [] else Split CHR '','' list)))"

definition committed_checksum :: "HttpRequest list \<Rightarrow> string" where
  "committed_checksum log = takeWhile (\<lambda>c. c \<noteq> CHR ''|'') (string_of (rq_body (last log)))"

text \<open>
  A client whose requests all reach a server that answers 201 and remembers them. Signing a request leaves its body and the name of the
  resource alone, as every account of the SDK does.
\<close>

definition signs_around :: "HttpRequest list RestClient \<Rightarrow> bool" where
  "signs_around c \<longleftrightarrow>
     (\<forall>q e q'. rc_SignRequest c q e = Ret q' \<longrightarrow>
        rq_body q' = rq_body q \<and> rq_header q' HttpHeaderOdpsResourceName = rq_header q HttpHeaderOdpsResourceName)"

definition recording :: "HttpRequest list RestClient \<Rightarrow> bool" where
  "recording c \<longleftrightarrow>
     (\<forall>u. rc_url_ok c u) \<and> signs_around c \<and>
     (\<forall>q log. \<exists>res. rc_send c q log = (Ret res, log @ [q]) \<and> rs_StatusCode res = 201)"

definition always_signs :: "HttpRequest list RestClient \<Rightarrow> bool" where
  "always_signs c \<longleftrightarrow> (\<forall>q e. \<exists>q'. rc_SignRequest c q e = Ret q')"

lemma minute_client_recording [simp]:
  "recording (minute_client c) = recording c" "always_signs (minute_client c) = always_signs c"
  by (simp_all add: recording_def signs_around_def always_signs_def minute_client_def)

lemma omap_Ret_iff: "omap f x = Ret y \<longleftrightarrow> (\<exists>z. x = Ret z \<and> y = f z)"
  by (cases x) auto

lemma accounts_sign_around:
  "SignRequest corp date acc q e = Ret q' \<Longrightarrow>
   rq_body q' = rq_body q \<and> rq_header q' HttpHeaderOdpsResourceName = rq_header q HttpHeaderOdpsResourceName"
proof -
  note defs = omap_Ret_iff obind_Ret_iff put_header_def HttpHeaderOdpsResourceName_def HttpHeaderAuthorization_def
    HttpHeaderAuthorizationSTSToken_def HttpHeaderAppAuthentication_def HttpHeaderODPSBearerToken_def HttpHeaderSTSToken_def
    HttpHeaderSTSAuthentication_def
  have a: "aa_SignRequest corp date a q e = Ret r \<Longrightarrow>
      rq_body r = rq_body q \<and> rq_header r HttpHeaderOdpsResourceName = rq_header q HttpHeaderOdpsResourceName" for a q r
    by (auto simp: aa_SignRequest_def defs)
  show "SignRequest corp date acc q e = Ret q' \<Longrightarrow>
      rq_body q' = rq_body q \<and> rq_header q' HttpHeaderOdpsResourceName = rq_header q HttpHeaderOdpsResourceName"
    by (cases acc) (auto simp: defs stsString_signRequest_def stsAliyunCredential_signRequest_def stsCustomCredential_signRequest_def
        app_SignRequest_def appSts_SignRequest_def bearer_SignRequest_def split: option.splits dest!: a)
qed

lemma post_created_recording:
  assumes "recording c" and "post_created c method resource queryArgs headers body log = (Ret (), log')"
  shows "\<exists>q. log' = log @ [q] \<and> rq_body q = body \<and> rq_header q HttpHeaderOdpsResourceName = headers HttpHeaderOdpsResourceName"
proof -
  obtain req where req: "NewRequestWithParamsAndHeaders c method resource (Some queryArgs) headers = Ret req"
      "rq_header req = headers"
    using assms(1) by (auto simp: recording_def NewRequestWithParamsAndHeaders_def NewRequestWithUrlQuery_def NewRequest_def Let_def)
  let ?p = "prepare c (req\<lparr>rq_body := body\<rparr>)"
  obtain q where q: "rc_SignRequest c ?p (rc_endpoint c) = Ret q"
    using assms(2) req by (cases "rc_SignRequest c ?p (rc_endpoint c)") (simp_all add: post_created_def Do_def mbind_def mlift_def)
  obtain res where "rc_send c q log = (Ret res, log @ [q])" "rs_StatusCode res = 201"
    using assms(1) unfolding recording_def by blast
  then have "log' = log @ [q]"
    using assms(2) req q by (simp add: post_created_def Do_def mlift_def mbind_def mret_def)
  moreover have "rq_body q = rq_body ?p \<and> rq_header q HttpHeaderOdpsResourceName = rq_header ?p HttpHeaderOdpsResourceName"
    using assms(1) q by (simp add: recording_def signs_around_def)
  ultimately show ?thesis
    using req by (simp add: prepare_def HttpHeaderOdpsResourceName_def HttpHeaderUserAgent_def HttpHeaderXOdpsUserAgent_def HttpHeaderDate_def)
qed

lemma post_created_total:
  assumes "recording c" "always_signs c"
  shows "\<exists>log'. post_created c method resource queryArgs headers body log = (Ret (), log')"
proof -
  obtain req where req: "NewRequestWithParamsAndHeaders c method resource (Some queryArgs) headers = Ret req"
    using assms(1) by (auto simp: recording_def NewRequestWithParamsAndHeaders_def NewRequestWithUrlQuery_def NewRequest_def Let_def)
  obtain q where q: "rc_SignRequest c (prepare c (req\<lparr>rq_body := body\<rparr>)) (rc_endpoint c) = Ret q"
    using assms(2) unfolding always_signs_def by blast
  obtain res where "rc_send c q log = (Ret res, log @ [q])" "rs_StatusCode res = 201"
    using assms(1) unfolding recording_def by blast
  then show ?thesis using req q by (simp add: post_created_def Do_def mlift_def mbind_def mret_def)
qed

text \<open>The parts of a file have different names.\<close>

lemma part_name_inj: "part_name s n i = part_name s n j \<Longrightarrow> i = j"
proof -
  have "digits_val (pad_int 6 (int k)) = k" for k
    by (simp add: pad_int_def pad_zeros_def Itoa_def digits_val_zeros)
  then show "part_name s n i = part_name s n j \<Longrightarrow> i = j"
    unfolding part_name_def by (metis append_same_eq same_append_eq)
qed

lemma createTempPartFile_recording:
  assumes "recording (od_restClient od)" "createTempPartFile md5_hex od p s name content log = (Ret (), log')"
  shows "\<exists>q. log' = log @ [q] \<and> rq_body q = content \<and> rq_header q HttpHeaderOdpsResourceName = Some name"
proof -
  let ?H = "(file_headers name ResourceTypeFile [])(HttpHeaderOdpsResourceIsTemp \<mapsto> FormatBool True,
      HttpHeaderContentLength \<mapsto> Itoa (int (length content)), HttpHeaderContentMD5 \<mapsto> md5_hex content)"
  have "?H HttpHeaderOdpsResourceName = Some name"
    by (simp add: file_headers_def set_if_def HttpHeaderOdpsResourceIsTemp_def HttpHeaderContentLength_def
        HttpHeaderContentMD5_def HttpHeaderOdpsResourceName_def HttpHeaderOdpsComment_def)
  moreover have "name \<noteq> []" using assms(2) by (auto simp: createTempPartFile_def mfail_def)
  ultimately show ?thesis
    using assms post_created_recording [of "minute_client (od_restClient od)" PostMethod "rb_Resources \<lparr>rb_ProjectName = p\<rparr>"
        "(schema_arg s)(''rIsPart'' \<mapsto> ''true'')" ?H content log log']
    by (simp only: createTempPartFile_def if_False minute_client_recording)
qed

lemma upt_from: "map (\<lambda>i. f (cnt + i)) [0..<Suc n] = f cnt # map (\<lambda>i. f (Suc cnt + i)) [0..<n]"
  by (induction n) simp_all

lemma upload_parts_recording:
  assumes "recording (od_restClient od)"
  shows "upload_parts md5_hex od p s name cnt (map (\<lambda>b. (b, None)) chunks) log = (Ret (parts, hashed), log') \<Longrightarrow>
    parts = map (\<lambda>i. part_name s name (cnt + i)) [0..<length chunks] \<and> hashed = concat chunks \<and>
    (\<exists>qs. log' = log @ qs \<and> map rq_body qs = chunks \<and>
       map (\<lambda>q. rq_header q HttpHeaderOdpsResourceName) qs = map (\<lambda>i. Some (part_name s name (cnt + i))) [0..<length chunks])"
proof (induction chunks arbitrary: cnt log parts hashed)
  case (Cons b chunks)
  from Cons.prems obtain l1 parts' hashed' where l: "createTempPartFile md5_hex od p s (part_name s name cnt) b log = (Ret (), l1)"
    "upload_parts md5_hex od p s name (Suc cnt) (map (\<lambda>b. (b, None)) chunks) l1 = (Ret (parts', hashed'), log')"
    "parts = part_name s name cnt # parts'" "hashed = b @ hashed'"
    by (auto simp: mseq_def mbind_def mret_def Let_def split: prod.splits outcome.splits)
  obtain q where q: "l1 = log @ [q]" "rq_body q = b" "rq_header q HttpHeaderOdpsResourceName = Some (part_name s name cnt)"
    using createTempPartFile_recording [OF assms l(1)] by blast
  from Cons.IH [OF l(2)] obtain qs where "parts' = map (\<lambda>i. part_name s name (Suc cnt + i)) [0..<length chunks]" "hashed' = concat chunks"
    "log' = l1 @ qs" "map rq_body qs = chunks"
    "map (\<lambda>q. rq_header q HttpHeaderOdpsResourceName) qs = map (\<lambda>i. Some (part_name s name (Suc cnt + i))) [0..<length chunks]"
    by blast
  with q l(3,4) show ?case
    by (intro conjI exI [of _ "q # qs"])
      (simp_all add: upt_from [of "part_name s name"] upt_from [of "\<lambda>k. Some (part_name s name k)"] del: upt_Suc)
qed (simp add: mret_def)

lemma upload_parts_total:
  assumes "recording (od_restClient od)" "always_signs (od_restClient od)"
  shows "\<exists>x log'. upload_parts md5_hex od p s name cnt (map (\<lambda>b. (b, None)) chunks) log = (Ret x, log')"
proof (induction chunks arbitrary: cnt log)
  case (Cons b chunks)
  have "part_name s name cnt \<noteq> []" by (simp add: part_name_def)
  then obtain l1 where "createTempPartFile md5_hex od p s (part_name s name cnt) b log = (Ret (), l1)"
    using post_created_total [of "minute_client (od_restClient od)"] assms unfolding createTempPartFile_def
    by (simp only: if_False minute_client_recording) blast
  moreover obtain x l2 where "upload_parts md5_hex od p s name (Suc cnt) (map (\<lambda>b. (b, None)) chunks) l1 = (Ret x, l2)"
    using Cons by blast
  ultimately show ?case by (cases x) (simp add: mseq_def mbind_def mret_def Let_def)
qed (simp add: mret_def)

lemma Split_of_Join:
  assumes "ps \<noteq> []" "list_all (\<lambda>p. sep \<notin> set p) ps"
  shows "Split sep (Join ps [sep]) = ps"
  using assms
proof (induction ps "[sep]" rule: Join.induct)
  case (2 x)
  then show ?case by (induction x) auto
next
  case (3 x y xs)
  have "sep \<notin> set x \<Longrightarrow> Split sep (x @ sep # t) = x # Split sep t" for t by (induction x) auto
  then show ?case using 3 by simp
qed simp

lemma filter_hit: "x \<in> set xs \<Longrightarrow> P x \<Longrightarrow> \<exists>y ys. filter P xs = y # ys \<and> y \<in> set xs \<and> P y"
  by (induction xs) auto

lemma part_body_nth:
  assumes "map (\<lambda>q. rq_header q HttpHeaderOdpsResourceName) qs = map (\<lambda>i. Some (f i)) [0..<n]"
    "map rq_body qs = chunks" "inj f" "i < n"
  shows "part_body qs (f i) = chunks ! i"
proof -
  have l: "length qs = n" using assms(1) by (metis length_map length_upt minus_nat.diff_0)
  have h: "rq_header (qs ! k) HttpHeaderOdpsResourceName = Some (f k)" if "k < n" for k
    using arg_cong [OF assms(1), of "\<lambda>l. l ! k"] that l by simp
  let ?g = "\<lambda>q. rq_header q HttpHeaderOdpsResourceName = Some (f i)"
  have "qs ! i \<in> set qs" "?g (qs ! i)" using h [OF assms(4)] assms(4) l by simp_all
  then obtain q r where q: "filter ?g qs = q # r" "q \<in> set qs" "?g q"
    using filter_hit [of "qs ! i" qs ?g] by auto
  then obtain k where k: "k < n" "qs ! k = q" using l by (auto simp: in_set_conv_nth)
  then have "k = i" using h [of k] q(3) assms(3) by (metis injD option.inject)
  moreover have "rq_body (qs ! i) = chunks ! i" using assms(2,4) l by (metis nth_map)
  ultimately show ?thesis using q k by (simp add: part_body_def)
qed

lemma mergeTempPartFile_recording:
  assumes "recording (od_restClient od)" "mergeTempPartFile md5_hex od p s f overwrite commit totalBytes log = (Ret (), log')"
  shows "\<exists>q. log' = log @ [q] \<and> rq_body q = commit"
proof (cases "fs_Name f = []")
  case False
  then show ?thesis using assms(2) post_created_recording [OF assms(1)] unfolding mergeTempPartFile_def
    by (simp only: if_False) blast
qed (use assms(2) in \<open>simp add: mergeTempPartFile_def mfail_def\<close>)

lemma mergeTempPartFile_total:
  assumes "recording (od_restClient od)" "always_signs (od_restClient od)" "fs_Name f \<noteq> []"
  shows "\<exists>log'. mergeTempPartFile md5_hex od p s f overwrite commit totalBytes log = (Ret (), log')"
  using post_created_total [OF assms(1,2)] assms(3) unfolding mergeTempPartFile_def by simp

lemma cut_at_bar:
  "c \<notin> set h \<Longrightarrow> takeWhile (\<lambda>x. x \<noteq> c) (h @ c # t) = h"
  "c \<notin> set h \<Longrightarrow> dropWhile (\<lambda>x. x \<noteq> c) (h @ c # t) = c # t"
  by (induction h) auto

lemma part_name_no_comma:
  assumes "CHR '','' \<notin> set s" "CHR '','' \<notin> set n"
  shows "CHR '','' \<notin> set (part_name s n k)"
proof -
  have "list_all is_digit (pad_int 6 (int k))"
    by (auto simp: pad_int_def pad_zeros_def Itoa_def list_all_iff [of _ "replicate _ _"] is_digit_def less_eq_char_def)
  then have "CHR '','' \<notin> set (pad_int 6 (int k))" by (auto simp: list_all_iff is_digit_def less_eq_char_def)
  then show ?thesis using assms by (simp add: part_name_def)
qed

text \<open>
  C40. A file comes to the server as the reader gave it. Let every call of \<^verbatim>\<open>Read\<close> give bytes without an error until the end, let the
  server answer 201 to every request it gets, and let the name of the file and the schema have no comma, which separates the parts in
  the last request. When the call succeeds, the last request names all the parts in their order and the checksum of the whole, and
  the parts of those names put together are the bytes that were read; and it succeeds when the account can sign every request.
\<close>

theorem uploaded_file_assembles:
  assumes "recording (od_restClient od)" "fs_Name f \<noteq> []" "fs_Reader f = Some (map (\<lambda>b. (b, None)) chunks)"
    and "CHR '','' \<notin> set (fs_Name f)" "CHR '','' \<notin> set s" "CHR '','' \<notin> set (rl_schemaName r)"
    and "\<And>b. CHR ''|'' \<notin> set (md5_hex b)"
  shows "(\<forall>log. CreateFileResource md5_hex od r p s f overwrite [] = (Ret (), log) \<longrightarrow>
      assemble log = concat chunks \<and> committed_checksum log = md5_hex (concat chunks)) \<and>
    (always_signs (od_restClient od) \<longrightarrow> (\<exists>log. CreateFileResource md5_hex od r p s f overwrite [] = (Ret (), log)))"
proof -
  define S where "S = (if s = [] then rl_schemaName r else s)"
  define pn where "pn = part_name S (fs_Name f)"
  define P where "P = (if p = [] then rl_ProjectName r else p)"
  let ?parts = "map pn [0..<length chunks]"
  let ?commit = "commit_content md5_hex ?parts (concat chunks)"
  have run: "CreateFileResource md5_hex od r p s f overwrite [] =
      mbind (upload_parts md5_hex od P S (fs_Name f) 0 (map (\<lambda>b. (b, None)) chunks)) (\<lambda>(tmpFiles, hashed).
        mergeTempPartFile md5_hex od P S f overwrite (commit_content md5_hex tmpFiles hashed) (int (length hashed))) []"
    using assms(2,3) by (simp add: CreateFileResource_def Let_def P_def [symmetric] S_def [symmetric])
  have "assemble log = concat chunks \<and> committed_checksum log = md5_hex (concat chunks)"
    if succ: "CreateFileResource md5_hex od r p s f overwrite [] = (Ret (), log)" for log
  proof -
    obtain parts hashed l1 where up: "upload_parts md5_hex od P S (fs_Name f) 0 (map (\<lambda>b. (b, None)) chunks) [] = (Ret (parts, hashed), l1)"
      "mergeTempPartFile md5_hex od P S f overwrite (commit_content md5_hex parts hashed) (int (length hashed)) l1 = (Ret (), log)"
      using succ unfolding run by (auto simp: mbind_def split: prod.splits outcome.splits)
    from upload_parts_recording [OF assms(1) up(1)] have parts: "parts = ?parts" "hashed = concat chunks"
      and bodies: "map rq_body l1 = chunks"
      and names: "map (\<lambda>q. rq_header q HttpHeaderOdpsResourceName) l1 = map (\<lambda>i. Some (pn i)) [0..<length chunks]"
      by (auto simp: pn_def)
    obtain q where q: "log = l1 @ [q]" "rq_body q = ?commit"
      using mergeTempPartFile_recording [OF assms(1) up(2)] parts by auto
    have tx: "string_of (rq_body q) = md5_hex (concat chunks) @ CHR ''|'' # Join ?parts '',''"
      using q(2) by (simp add: commit_content_def)
    have "CHR '','' \<notin> set (pn k)" for k using assms(4-6) part_name_no_comma by (simp add: pn_def S_def)
    then have "Split CHR '','' (Join ?parts '','') = ?parts" if "chunks \<noteq> []"
      using that by (intro Split_of_Join) (simp_all add: list_all_iff)
    moreover have "Join ?parts '','' \<noteq> []" if ne: "chunks \<noteq> []"
    proof -
      obtain k where "[0..<length chunks] = 0 # k" using ne by (metis length_greater_0_conv upt_conv_Cons)
      then show ?thesis using assms(2) by (cases "map pn k") (auto simp: pn_def part_name_def)
    qed
    moreover have "inj pn" by (auto simp: inj_def pn_def dest: part_name_inj)
    then have "map (part_body l1) ?parts = chunks"
      using part_body_nth [OF names bodies] by (intro nth_equalityI) auto
    ultimately have "assemble log = concat chunks"
      by (cases "chunks = []") (simp_all add: assemble_def q(1) tx cut_at_bar [OF assms(7)] Let_def)
    then show ?thesis by (simp add: committed_checksum_def q(1) tx cut_at_bar [OF assms(7)])
  qed
  moreover have "\<exists>log. CreateFileResource md5_hex od r p s f overwrite [] = (Ret (), log)" if signs: "always_signs (od_restClient od)"
  proof -
    obtain x l1 where "upload_parts md5_hex od P S (fs_Name f) 0 (map (\<lambda>b. (b, None)) chunks) [] = (Ret x, l1)"
      using upload_parts_total [OF assms(1) signs] by blast
    then show ?thesis using mergeTempPartFile_total [OF assms(1) signs assms(2)] unfolding run by (cases x) (simp add: mbind_def)
  qed
  ultimately show ?thesis by blast
qed

text \<open>A client with the account of a bearer token.\<close>

definition recording_od :: "HttpRequest list Odps" where
  "recording_od =
     \<lparr>od_defaultProject = ''p'', od_currentSchema = [], od_restClient =
        \<lparr>rc_SignRequest = SignRequest ''aliyun'' ''20240101'' (BearerTokenAccount ''t''),
         rc_send = (\<lambda>req log. (Ret ((ok_response JNull)\<lparr>rs_StatusCode := 201\<rparr>), log @ [req])),
         rc_url_ok = (\<lambda>u. True), rc_now = [], rc_sdkUserAgent = ''go-sdk'', rc_HttpTimeout = 0,
         rc_TcpConnectionTimeout = 0, rc_DnsCacheExpireTime = 0, rc_DisableCompression = True,
         rc_defaultProject = [], rc_currentSchema = [], rc_endpoint = ''http://service'', rc_userAgent = []\<rparr>,
      od_ParseRFC1123Date = (\<lambda>s. Fail time_error), od_newUuid = (\<lambda>log. (''u'', log)), od_now = (\<lambda>log. 0),
      od_sleep = (\<lambda>k log. log)\<rparr>"

lemma recording_od: "recording (od_restClient recording_od)" "always_signs (od_restClient recording_od)"
proof -
  have "signs_around (od_restClient recording_od)"
    unfolding signs_around_def recording_od_def Odps.simps RestClient.simps using accounts_sign_around by blast
  then show "recording (od_restClient recording_od)" by (simp add: recording_def recording_od_def ok_response_def)
  show "always_signs (od_restClient recording_od)"
    by (simp add: always_signs_def recording_od_def bearer_SignRequest_def)
qed

definition example_file :: FileSource where
  "example_file =
     \<lparr>fs_Name = ''f.py'', fs_Comment = [], fs_IsTempResource = False, fs_ResourceType = ResourceTypePy,
      fs_Reader = Some [([1, 2], None), ([3], None)]\<rparr>"

theorem uploaded_file_assembles_witness:
  "\<exists>log. CreateFileResource (\<lambda>_. ''d41d'') recording_od (NewResources recording_od) ''p'' ''s'' example_file False [] =
     (Ret (), log) \<and> assemble log = [1, 2, 3] \<and> committed_checksum log = ''d41d''"
  using uploaded_file_assembles [OF recording_od(1), of example_file "[[1, 2], [3]]" "''s''" "NewResources recording_od"
      "\<lambda>_. ''d41d''" "''p''" False] recording_od(2)
  by (auto simp: example_file_def NewResources_def recording_od_def [THEN arg_cong, where f = od_currentSchema])

text \<open>
  C39. \<^verbatim>\<open>io.Reader\<close> may give the last bytes together with the end of the file. The loop stops at the error first, so those bytes are
  neither sent nor hashed, and the shorter file is committed without an error.
\<close>

theorem last_bytes_dropped:
  "CreateFileResource md5_hex od r p s (f\<lparr>fs_Reader := Some (calls @ [(bs, Some ErrEOF)])\<rparr>) overwrite =
   CreateFileResource md5_hex od r p s (f\<lparr>fs_Reader := Some calls\<rparr>) overwrite"
proof -
  have "upload_parts md5_hex od P S n cnt (calls @ [(bs, Some ErrEOF)]) = upload_parts md5_hex od P S n cnt calls" for P S n cnt
  proof (induction calls arbitrary: cnt)
    case (Cons call calls)
    obtain b e where call: "call = (b, e)" by fastforce
    show ?case using Cons by (cases e) (simp_all add: call Let_def)
  qed simp
  then show ?thesis by (simp add: CreateFileResource_def mergeTempPartFile_def Let_def)
qed

text \<open>
  \<open>Exist\<close> looks only at answers of the server: when no answer comes at all, because the connection fails or the URL is bad, the
  resource is said to exist.
\<close>

theorem resource_exists_without_server:
  assumes "re_Load od s = (Fail err, s')" "\<And>code status retry. err \<noteq> ErrHttp code status retry"
  shows "re_Exist od s = (Ret True, s')"
  using assms by (cases err) (auto simp: re_Exist_def)

text \<open>The types that are read from a server's answer and not written back as they were.\<close>

lemma ResourceType_roundtrip:
  "ResourceTypeFromStr (ResourceTypeToStr t) = t \<longleftrightarrow>
     t \<in> {ResourceTypeFile, ResourceTypeJar, ResourceTypeArchive, ResourceTypePy, ResourceTypeTable, ResourceTypeUnknown}"
  by (auto simp: ResourceTypeToStr_def ResourceTypeFromStr_def Let_def resource_types ToLower_def to_lower_char_def)

end
