(* ===== verification/Functions.thy ===== *)
theory Functions
  imports TableMeta Projects
begin

section \<open>Functions, tenants and what a server tells about a task\<close>

text \<open>
  Models \<^verbatim>\<open>odps/function.go\<close>, \<^verbatim>\<open>odps/functions.go\<close>, \<^verbatim>\<open>odps/tenant.go\<close> and the rest of \<^verbatim>\<open>odps/instance.go\<close>, \<^verbatim>\<open>odps/sql_task.go\<close> and
  \<^verbatim>\<open>odps/task.go\<close>. A document is decoded into the model that an object holds, and the elements of a slice are appended
  to the slice that is there. Reading a line of CSV is an argument.
\<close>

subsection \<open>Functions\<close>

record functionModel =
  fn_SchemaName :: string
  fn_Name :: string
  fn_Owner :: string
  fn_CreationTime :: string
  fn_ClassPath :: string
  fn_Resources :: "string list"
  fn_IsSQLFunction :: bool
  fn_SQLDefinitionText :: string
  fn_IsEmbeddedFunction :: bool
  fn_ProgramLanguage :: string
  fn_Code :: string
  fn_FileName :: string

record Function =
  fu_ProjectName :: string
  fu_beLoaded :: bool
  fu_Model :: functionModel

definition x_keep_bool :: "string list \<Rightarrow> xml \<Rightarrow> bool \<Rightarrow> bool outcome" where
  "x_keep_bool path e old =
     (case rev (x_path path e) of
        [] \<Rightarrow> Ret old
      | c # _ \<Rightarrow> if x_text c = [] then Ret False else ParseBool (TrimSpace (x_text c)))"

definition x_functionModel :: "functionModel \<Rightarrow> xml \<Rightarrow> functionModel outcome" where
  "x_functionModel m e =
     obind (x_keep_bool [''IsSqlFunction''] e (fn_IsSQLFunction m)) (\<lambda>sql.
     obind (x_keep_bool [''IsEmbeddedFunction''] e (fn_IsEmbeddedFunction m)) (\<lambda>emb.
     Ret \<lparr>fn_SchemaName = x_keep [''SchemaName''] e (fn_SchemaName m), fn_Name = x_keep [''Alias''] e (fn_Name m),
          fn_Owner = x_keep [''Owner''] e (fn_Owner m), fn_CreationTime = x_keep [''CreationTime''] e (fn_CreationTime m),
          fn_ClassPath = x_keep [''ClassType''] e (fn_ClassPath m),
          fn_Resources = fn_Resources m @ map (x_string [''ResourceName'']) (x_path [''Resources''] e),
          fn_IsSQLFunction = sql, fn_SQLDefinitionText = x_keep [''SqlDefinitionText''] e (fn_SQLDefinitionText m),
          fn_IsEmbeddedFunction = emb, fn_ProgramLanguage = x_keep [''ProgramLanguage''] e (fn_ProgramLanguage m),
          fn_Code = x_keep [''Code''] e (fn_Code m), fn_FileName = x_keep [''FileName''] e (fn_FileName m)\<rparr>))"

text \<open>The XML of a model: fields that are empty are left out.\<close>

definition omitempty :: "string \<Rightarrow> string \<Rightarrow> xml list" where
  "omitempty n t = (if t = [] then [] else [x_text_elem n t])"

definition omit_false :: "string \<Rightarrow> bool \<Rightarrow> xml list" where
  "omit_false n b = (if b then [x_text_elem n ''true''] else [])"

definition functionModel_xml :: "functionModel \<Rightarrow> xml" where
  "functionModel_xml m =
     XElem ''Function'' []
       (omitempty ''SchemaName'' (fn_SchemaName m) @ omitempty ''Alias'' (fn_Name m) @ omitempty ''Owner'' (fn_Owner m) @
        omitempty ''CreationTime'' (fn_CreationTime m) @ omitempty ''ClassType'' (fn_ClassPath m) @
        map (\<lambda>r. XElem ''Resources'' [] (omitempty ''ResourceName'' r) []) (fn_Resources m) @
        omit_false ''IsSqlFunction'' (fn_IsSQLFunction m) @ omitempty ''SqlDefinitionText'' (fn_SQLDefinitionText m) @
        omit_false ''IsEmbeddedFunction'' (fn_IsEmbeddedFunction m) @ omitempty ''ProgramLanguage'' (fn_ProgramLanguage m) @
        omitempty ''Code'' (fn_Code m) @ omitempty ''FileName'' (fn_FileName m)) []"

definition fu_Load :: "'e Odps \<Rightarrow> (Function \<times> 'e, unit) M" where
  "fu_Load od =
     mbind (mget fst) (\<lambda>f. let m = fu_Model f in
     mbind (on_env (\<lambda>_. od_restClient od)
       (GetWithModel (od_restClient od) (rb_Function (NewResourceBuilder (fu_ProjectName f)) (fn_Name m))
         (Some (set_if (fn_SchemaName m \<noteq> []) ''curr_schema'' (fn_SchemaName m) Map.empty)) Map.empty
         (x_Decode ''Function'' (x_functionModel m)))) (\<lambda>model.
     on_session (\<lambda>f. f\<lparr>fu_Model := model, fu_beLoaded := True\<rparr>)))"

definition fu_Exist :: "'e Odps \<Rightarrow> (Function \<times> 'e, bool) M" where
  "fu_Exist od s =
     (case fu_Load od s of
        (Fail (ErrHttp code status retry), s') \<Rightarrow>
          if status = ''404 Not Found'' then (Ret False, s') else (Fail (ErrHttp code status retry), s')
      | (Panic p, s') \<Rightarrow> (Panic p, s')
      | (_, s') \<Rightarrow> (Ret True, s'))"

definition SetResources :: "string list option \<Rightarrow> Function \<Rightarrow> Function" where
  "SetResources resources f =
     (case resources of None \<Rightarrow> f | Some rs \<Rightarrow> f\<lparr>fu_Model := (fu_Model f)\<lparr>fn_Resources := rs\<rparr>\<rparr>)"

definition zero_functionModel :: functionModel where
  "zero_functionModel =
     \<lparr>fn_SchemaName = [], fn_Name = [], fn_Owner = [], fn_CreationTime = [], fn_ClassPath = [], fn_Resources = [],
      fn_IsSQLFunction = False, fn_SQLDefinitionText = [], fn_IsEmbeddedFunction = False, fn_ProgramLanguage = [],
      fn_Code = [], fn_FileName = []\<rparr>"

text \<open>A builder is a model and a project: each of its methods sets one field.\<close>

record FunctionBuilder =
  fb_projectName :: string
  fb_model :: functionModel

definition NewFunctionBuilder :: FunctionBuilder where
  "NewFunctionBuilder = \<lparr>fb_projectName = [], fb_model = zero_functionModel\<rparr>"

definition fb_Build :: "FunctionBuilder \<Rightarrow> Function" where
  "fb_Build fb = \<lparr>fu_ProjectName = fb_projectName fb, fu_beLoaded = False, fu_Model = fb_model fb\<rparr>"

record FunctionsClient =
  fc_projectName :: string
  fc_schemaName :: string

definition NewFunctions :: "'e Odps \<Rightarrow> FunctionsClient" where
  "NewFunctions od = \<lparr>fc_projectName = od_defaultProject od, fc_schemaName = od_currentSchema od\<rparr>"

definition xml_header :: string where
  "xml_header = ''<?xml version='' @ [DQ] @ ''1.0'' @ [DQ] @ '' encoding='' @ [DQ] @ ''UTF-8'' @ [DQ] @ ''?>'' @ [NL]"

definition send_function ::
    "'e Odps \<Rightarrow> HttpMethod \<Rightarrow> string \<Rightarrow> Values \<Rightarrow> Function \<Rightarrow> ('e, unit) M" where
  "send_function od method resource queryArgs f =
     mbind (mlift (NewRequestWithParamsAndHeaders (od_restClient od) method resource (Some queryArgs)
         [''Content-Type'' \<mapsto> ''application/xml''])) (\<lambda>req.
     mbind (Do (minute_client (od_restClient od))
         (req\<lparr>rq_body := bytes_of (xml_header @ xml_Marshal (functionModel_xml (fu_Model f)))\<rparr>)) (\<lambda>_.
     mret ()))"

definition Functions_Create :: "'e Odps \<Rightarrow> FunctionsClient \<Rightarrow> string \<Rightarrow> string \<Rightarrow> Function \<Rightarrow> ('e, unit) M" where
  "Functions_Create od fc projectName schemaName f =
     (let p = (if projectName = [] then fc_projectName fc else projectName);
          s = (if schemaName = [] then fc_schemaName fc else schemaName)
      in if fn_Name (fu_Model f) = [] then mfail (ErrMsg ''function name cannot be empty'')
         else send_function od PostMethod (rb_Functions (NewResourceBuilder p)) (set_if (s \<noteq> []) ''curr_schema'' s Map.empty) f)"

text \<open>An update names the schema by another argument than all the other calls.\<close>

definition Functions_Update :: "'e Odps \<Rightarrow> FunctionsClient \<Rightarrow> string \<Rightarrow> string \<Rightarrow> Function \<Rightarrow> ('e, unit) M" where
  "Functions_Update od fc projectName schemaName f =
     (let p = (if projectName = [] then fc_projectName fc else projectName);
          s = (if schemaName = [] then fc_schemaName fc else schemaName)
      in if fn_Name (fu_Model f) = [] then mfail (ErrMsg ''function name cannot be empty'')
         else send_function od PutMethod (rb_Function (NewResourceBuilder p) (fn_Name (fu_Model f)))
           (set_if (s \<noteq> []) ''schema'' s Map.empty) f)"

definition Functions_Get :: "FunctionsClient \<Rightarrow> string \<Rightarrow> Function outcome" where
  "Functions_Get fc functionName =
     (if functionName = [] then Fail (ErrMsg ''function name is not set'')
      else Ret (fb_Build (NewFunctionBuilder\<lparr>fb_projectName := fc_projectName fc,
             fb_model := zero_functionModel\<lparr>fn_Name := functionName\<rparr>\<rparr>)))"

definition Functions_Delete :: "'e Odps \<Rightarrow> FunctionsClient \<Rightarrow> string \<Rightarrow> ('e, unit) M" where
  "Functions_Delete od fc functionName =
     (if functionName = [] then mfail (ErrMsg ''function name is not set'')
      else
        mbind (mlift (NewRequestWithUrlQuery (od_restClient od) DeleteMethod
            (rb_Function (NewResourceBuilder (fc_projectName fc)) functionName)
            (Some (set_if (fc_schemaName fc \<noteq> []) ''curr_schema'' (fc_schemaName fc) Map.empty)))) (\<lambda>req.
        mbind (Do (minute_client (od_restClient od)) req) (\<lambda>_. mret ())))"

subsection \<open>Properties of functions\<close>

lemma x_path_one: "x_path [n] (XElem r as cs t) = filter (\<lambda>c. x_name c = n) cs"
proof -
  have "x_path [] = (\<lambda>e. [e])" by (rule ext) simp
  then show ?thesis by simp
qed

lemma filter_optional [simp]:
  "filter (\<lambda>c. x_name c = n) (omitempty n' t) = (if n = n' then omitempty n' t else [])"
  "filter (\<lambda>c. x_name c = n) (omit_false n' b) = (if n = n' then omit_false n' b else [])"
  by (simp_all add: omitempty_def omit_false_def x_text_elem_def)

lemma filter_named: "filter (\<lambda>c. x_name c = n) (map (\<lambda>r. XElem n' as (f r) t) rs) = (if n = n' then map (\<lambda>r. XElem n' as (f r) t) rs else [])"
  by (induction rs) auto

lemma optional_text:
  "(case rev (omitempty n t) of [] \<Rightarrow> [] | c # _ \<Rightarrow> x_text c) = t"
  "(case rev (omit_false n b) of [] \<Rightarrow> Ret False | c # _ \<Rightarrow> if x_text c = [] then Ret False else ParseBool (TrimSpace (x_text c))) = Ret b"
proof -
  have "ParseBool (TrimSpace ''true'') = Ret True" by code_simp
  then show "(case rev (omit_false n b) of [] \<Rightarrow> Ret False | c # _ \<Rightarrow> if x_text c = [] then Ret False else ParseBool (TrimSpace (x_text c))) = Ret b"
    by (simp add: omit_false_def x_text_elem_def)
  show "(case rev (omitempty n t) of [] \<Rightarrow> [] | c # _ \<Rightarrow> x_text c) = t"
    by (simp add: omitempty_def x_text_elem_def)
qed

lemma zero_functionModel_fields:
  "fn_SchemaName zero_functionModel = []" "fn_Name zero_functionModel = []" "fn_Owner zero_functionModel = []"
  "fn_CreationTime zero_functionModel = []" "fn_ClassPath zero_functionModel = []" "fn_Resources zero_functionModel = []"
  "fn_IsSQLFunction zero_functionModel = False" "fn_SQLDefinitionText zero_functionModel = []"
  "fn_IsEmbeddedFunction zero_functionModel = False" "fn_ProgramLanguage zero_functionModel = []"
  "fn_Code zero_functionModel = []" "fn_FileName zero_functionModel = []"
  by (simp_all add: zero_functionModel_def)

text \<open>
  The XML that a function is created with holds all of it: decoded into a fresh model it gives the model back, whatever
  fields are empty.
\<close>

theorem functionModel_roundtrip: "x_functionModel zero_functionModel (functionModel_xml m) = Ret m"
proof -
  have r: "x_string [''ResourceName''] (XElem ''Resources'' [] (omitempty ''ResourceName'' r) []) = r" for r
    unfolding x_string_def x_path_one by (simp add: optional_text(1))
  show ?thesis
    unfolding x_functionModel_def functionModel_xml_def x_keep_def x_keep_bool_def x_path_one zero_functionModel_fields
    by (simp add: filter_named optional_text r comp_def)
qed

lemma x_functionModel_resources:
  "x_functionModel m e = Ret m' \<Longrightarrow>
   fn_Resources m' = fn_Resources m @ map (x_string [''ResourceName'']) (x_path [''Resources''] e)"
  by (auto simp: x_functionModel_def obind_Ret_iff simp del: x_path.simps)

text \<open>
  Loading a function appends the server's resources to those it holds: after a second load (\<open>Exist\<close> is one) every resource is
  listed twice.
\<close>

theorem function_reload_appends:
  assumes "fu_Load od (f, e) = (Ret (), (f', e'))"
  shows "\<exists>doc. fn_Resources (fu_Model f') = fn_Resources (fu_Model f) @ map (x_string [''ResourceName'']) (x_path [''Resources''] doc)"
proof -
  obtain model e1 where m: "GetWithModel (od_restClient od) (rb_Function (NewResourceBuilder (fu_ProjectName f)) (fn_Name (fu_Model f)))
         (Some (set_if (fn_SchemaName (fu_Model f) \<noteq> []) ''curr_schema'' (fn_SchemaName (fu_Model f)) Map.empty)) Map.empty
         (x_Decode ''Function'' (x_functionModel (fu_Model f))) e = (Ret model, e1)" "fu_Model f' = model"
    using assms
    by (auto simp: fu_Load_def mbind_def mget_def on_env_def on_session_def Let_def split: prod.splits outcome.splits)
  then obtain doc where "x_functionModel (fu_Model f) doc = Ret model"
    by (auto simp: GetWithModel_def DoWithModel_def DoWithParseFunc_def DoWithParseRes_def mbind_def mlift_def x_Decode_def
        split: prod.splits outcome.splits option.splits if_splits)
  then show ?thesis using m x_functionModel_resources by blast
qed

lemma function_exists_without_server:
  assumes "fu_Load od s = (Fail err, s')" "\<And>code status retry. err \<noteq> ErrHttp code status retry"
  shows "fu_Exist od s = (Ret True, s')"
  using assms by (cases err) (auto simp: fu_Exist_def)


subsection \<open>Tenants\<close>

datatype TenantState = StateNormal | StateSuspended | StateDeleting | StateDeleted

text \<open>\<^verbatim>\<open>UnmarshalJSON\<close> is called for a null too, which leaves the text empty.\<close>

definition TenantState_UnmarshalJSON :: "json \<Rightarrow> TenantState outcome" where
  "TenantState_UnmarshalJSON j =
     obind (jtext j) (\<lambda>stateStr. let u = ToUpper stateStr in
       if u = ''NORMAL'' then Ret StateNormal else if u = ''SUSPENDED'' then Ret StateSuspended
       else if u = ''DELETING'' then Ret StateDeleting else if u = ''DELETED'' then Ret StateDeleted
       else Fail (ErrMsg (''invalid tenant state: '' @ stateStr)))"

record tenantModel =
  te_Name :: string
  te_OwnerId :: string
  te_TenantId :: string
  te_State :: TenantState
  te_CreationTime :: "gotime option"
  te_LastModifiedTime :: "gotime option"
  te_TenantMeta :: string
  te_Parameters :: "(string \<times> string) list"

definition zero_tenantModel :: tenantModel where
  "zero_tenantModel =
     \<lparr>te_Name = [], te_OwnerId = [], te_TenantId = [], te_State = StateNormal, te_CreationTime = None,
      te_LastModifiedTime = None, te_TenantMeta = [], te_Parameters = []\<rparr>"

definition tenantModel_json :: "(string \<times> tenantModel jfield) list" where
  "tenantModel_json =
     [(''Name'', jstring (\<lambda>v. te_Name_update (\<lambda>_. v))), (''OwnerId'', jstring (\<lambda>v. te_OwnerId_update (\<lambda>_. v))),
      (''TenantId'', jstring (\<lambda>v. te_TenantId_update (\<lambda>_. v))),
      (''State'', \<lambda>j m. omap (\<lambda>v. m\<lparr>te_State := v\<rparr>) (TenantState_UnmarshalJSON j)),
      (''CreateTime'', jtime (\<lambda>v. te_CreationTime_update (\<lambda>_. Some v))),
      (''UpdateTime'', jtime (\<lambda>v. te_LastModifiedTime_update (\<lambda>_. Some v))),
      (''TenantMeta'', jstring (\<lambda>v. te_TenantMeta_update (\<lambda>_. v))),
      (''Parameters'', \<lambda>j m. omap (\<lambda>v. m\<lparr>te_Parameters := v\<rparr>) (jmap j (te_Parameters m)))]"

text \<open>The model is a pointer: an answer without a tenant, or with a null, is decoded into nil.\<close>

definition tenantResponse_json :: "(string \<times> tenantModel option jfield) list" where
  "tenantResponse_json =
     [(''Tenant'', \<lambda>j m. if j = JNull then Ret None
        else omap Some (jstruct tenantModel_json j (case m of None \<Rightarrow> zero_tenantModel | Some t \<Rightarrow> t)))]"

record Tenant =
  te_model :: "tenantModel option"

definition NewTenant :: Tenant where
  "NewTenant = \<lparr>te_model = Some zero_tenantModel\<rparr>"

definition te_Load :: "'e Odps \<Rightarrow> (Tenant \<times> 'e, unit) M" where
  "te_Load od =
     mbind (on_env (\<lambda>_. od_restClient od) (GetWithParseFunc (od_restClient od) ''/tenants'' None Map.empty
       (\<lambda>res. json_Decode tenantResponse_json (rs_json res) None))) (\<lambda>model.
     on_session (\<lambda>t. t\<lparr>te_model := model\<rparr>))"

text \<open>Every getter dereferences the model.\<close>

definition te_get :: "(tenantModel \<Rightarrow> 'a) \<Rightarrow> Tenant \<Rightarrow> 'a outcome" where
  "te_get f t = (case te_model t of None \<Rightarrow> Panic NilDereference | Some m \<Rightarrow> Ret (f m))"

definition te_GetProperty :: "string \<Rightarrow> Tenant \<Rightarrow> string outcome" where
  "te_GetProperty key = te_get (\<lambda>m. Header_Get (map_of (te_Parameters m)) key)"

definition tenantIDPlaceHolder :: string where "tenantIDPlaceHolder = ''_empty_tenant_''"

definition role_resource :: "string \<Rightarrow> string" where
  "role_resource roleName = ''/tenants/'' @ tenantIDPlaceHolder @ ''/authorization/roles/'' @ roleName"

definition GetTenantRolePolicy :: "'e Odps \<Rightarrow> string \<Rightarrow> ('e, string) M" where
  "GetTenantRolePolicy od roleName =
     (if roleName = [] then mfail (ErrMsg ''roleName cannot be empty'')
      else GetWithParseFunc (od_restClient od) (role_resource roleName) (Some [''policy'' \<mapsto> []]) Map.empty
             (\<lambda>res. json_Decode [(''Policy'', jstring (\<lambda>v _. v))] (rs_json res) []))"

definition PutTenantRolePolicy :: "'e Odps \<Rightarrow> string \<Rightarrow> string \<Rightarrow> ('e, unit) M" where
  "PutTenantRolePolicy od roleName policy =
     (if roleName = [] then mfail (ErrMsg ''roleName cannot be empty'')
      else if policy = [] then mfail (ErrMsg ''policy cannot be empty'')
      else
        mbind (mlift (NewRequestWithUrlQuery (od_restClient od) PutMethod (role_resource roleName) (Some [''policy'' \<mapsto> []]))) (\<lambda>req.
          DoWithParseFunc (od_restClient od) (req\<lparr>rq_body := bytes_of policy\<rparr>) (\<lambda>_. Ret ())))"

text \<open>
  An answer without a tenant loads without an error and leaves nothing to ask: after it every getter panics.
\<close>

theorem tenant_missing_panics:
  assumes "rc_url_ok (od_restClient od) = (\<lambda>_. True)" "rc_SignRequest (od_restClient od) = (\<lambda>req _. Ret req)"
    and "\<And>req e. rc_send (od_restClient od) req e = (Ret res, e)" "rs_StatusCode res = 200"
    and "rs_json res = Some (JObj kvs)" "\<forall>kv \<in> set kvs. ToLower (fst kv) \<noteq> ''tenant''"
  shows "\<exists>t'. te_Load od (t, e) = (Ret (), (t', e)) \<and> te_get f t' = Panic NilDereference"
proof -
  have "ToLower ''Tenant'' = ''tenant''" by code_simp
  then have "jentries tenantResponse_json kvs None = Ret None" using assms(6)
    by (induction kvs) (auto simp: tenantResponse_json_def)
  then show ?thesis using assms(1-5)
    by (auto simp: te_Load_def te_get_def GetWithParseFunc_def NewRequestWithParamsAndHeaders_def NewRequestWithUrlQuery_def
        NewRequest_def DoWithParseFunc_def DoWithParseRes_def Do_def mbind_def mlift_def mret_def on_env_def on_session_def json_Decode_def
        Let_def split: prod.splits outcome.splits)
qed

subsection \<open>What a server tells about a task\<close>

record TaskProgressStage =
  ps_ID :: string
  ps_Status :: string
  ps_BackupWorkers :: string
  ps_TerminatedWorkers :: string
  ps_RunningWorkers :: string
  ps_TotalWorkers :: string
  ps_InputRecords :: int
  ps_OutRecords :: int
  ps_FinishedPercentage :: int

definition x_TaskProgressStage :: "xml \<Rightarrow> TaskProgressStage outcome" where
  "x_TaskProgressStage e =
     obind (x_int [''InputRecords''] e) (\<lambda>inp. obind (x_int [''OutRecords''] e) (\<lambda>out.
     obind (x_int [''FinishedPercentage''] e) (\<lambda>pct.
     Ret \<lparr>ps_ID = x_attr ''ID'' e, ps_Status = x_string [''Status''] e, ps_BackupWorkers = x_string [''BackupWorkers''] e,
          ps_TerminatedWorkers = x_string [''TerminatedWorkers''] e, ps_RunningWorkers = x_string [''RunningWorkers''] e,
          ps_TotalWorkers = x_string [''TotalWorkers''] e, ps_InputRecords = inp, ps_OutRecords = out,
          ps_FinishedPercentage = pct\<rparr>)))"

definition GetTaskProgress :: "'e Odps \<Rightarrow> string \<Rightarrow> Instance \<Rightarrow> ('e, TaskProgressStage list) M" where
  "GetTaskProgress od taskName i =
     GetWithModel (od_restClient od) (mcqa_resource i) (Some [''instanceprogress'' \<mapsto> [], ''taskname'' \<mapsto> taskName]) (mcqa_headers i)
       (x_Decode ''Progress'' (\<lambda>e. omap_list x_TaskProgressStage (x_path [''Stage''] e)))"

text \<open>Beside an error the code returns the bytes that were read before it.\<close>

definition GetTaskDetail :: "'e Odps \<Rightarrow> string \<Rightarrow> Instance \<Rightarrow> ('e, byte list) M" where
  "GetTaskDetail od taskName i =
     GetWithParseFunc (od_restClient od) (mcqa_resource i) (Some [''instancedetail'' \<mapsto> [], ''taskname'' \<mapsto> taskName]) (mcqa_headers i)
       (\<lambda>res. ReadAll (rs_Body res))"

record TaskSummary =
  su_JsonSummary :: string
  su_Summary :: string

definition TaskSummary_json :: "(string \<times> TaskSummary jfield) list" where
  "TaskSummary_json =
     [(''Instance'', jstruct [(''JsonSummary'', jstring (\<lambda>v. su_JsonSummary_update (\<lambda>_. v))),
                             (''Summary'', jstring (\<lambda>v. su_Summary_update (\<lambda>_. v)))])]"

text \<open>The next three ask at the resource of an instance that is not of MaxQA, whatever the instance is.\<close>

definition GetTaskSummary :: "'e Odps \<Rightarrow> string \<Rightarrow> Instance \<Rightarrow> ('e, TaskSummary) M" where
  "GetTaskSummary od taskName i =
     GetWithParseFunc (od_restClient od) (in_resourceUrl i) (Some [''instancesummary'' \<mapsto> [], ''taskname'' \<mapsto> taskName]) Map.empty
       (\<lambda>res. json_Decode TaskSummary_json (rs_json res) \<lparr>su_JsonSummary = [], su_Summary = []\<rparr>)"

definition GetTaskQuotaJson :: "'e Odps \<Rightarrow> string \<Rightarrow> Instance \<Rightarrow> ('e, string) M" where
  "GetTaskQuotaJson od taskName i =
     GetWithParseFunc (od_restClient od) (in_resourceUrl i) (Some [''instancequota'' \<mapsto> [], ''taskname'' \<mapsto> taskName]) Map.empty
       (\<lambda>res. omap string_of (ReadAll (rs_Body res)))"

definition GetCachedInfo :: "'e Odps \<Rightarrow> Instance \<Rightarrow> ('e, string) M" where
  "GetCachedInfo od i =
     GetWithParseFunc (od_restClient od) (in_resourceUrl i) (Some [''cached'' \<mapsto> []]) Map.empty
       (\<lambda>res. omap string_of (ReadAll (rs_Body res)))"


text \<open>
  A summary is asked for without the prefix and the session of MaxQA, with which the progress of the same task is asked for: the
  requests go to different resources.
\<close>

lemma maxqa_resources_differ:
  assumes "in_IsMaxQA i"
  shows "mcqa_resource i \<noteq> in_resourceUrl i"
  using assms by (simp add: mcqa_resource_def)

subsection \<open>Reading CSV\<close>

text \<open>
  \<^verbatim>\<open>encoding/csv\<close> with its defaults: the reader holds the text that is left and the number of fields of the first record.
\<close>

record csv_Reader =
  cr_in :: string
  cr_FieldsPerRecord :: nat

definition csv_NewReader :: "string \<Rightarrow> csv_Reader" where
  "csv_NewReader t = \<lparr>cr_in = t, cr_FieldsPerRecord = 0\<rparr>"

abbreviation CR :: char where "CR \<equiv> CHR 0x0D"

definition drop_last_CR :: "string \<Rightarrow> string" where
  "drop_last_CR l = (if l \<noteq> [] \<and> last l = CR then butlast l else l)"

text \<open>One line with its line feed; CR LF becomes LF, and a CR before the end of the text is dropped.\<close>

definition csv_readLine :: "string \<Rightarrow> (string \<times> string) option" where
  "csv_readLine s =
     (if s = [] then None
      else let l = takeWhile (\<lambda>c. c \<noteq> NL) s; rest = dropWhile (\<lambda>c. c \<noteq> NL) s
           in case rest of [] \<Rightarrow> Some (drop_last_CR l, []) | _ # rest' \<Rightarrow> Some (drop_last_CR l @ [NL], rest'))"

lemma csv_readLine_length: "csv_readLine s = Some (l, rest) \<Longrightarrow> length l + length rest \<le> length s \<and> length rest < length s"
proof -
  assume r: "csv_readLine s = Some (l, rest)"
  have d: "length (drop_last_CR x) \<le> length x" for x by (simp add: drop_last_CR_def)
  have "length (takeWhile (\<lambda>c. c \<noteq> NL) s) + length (dropWhile (\<lambda>c. c \<noteq> NL) s) = length s"
    by (metis length_append takeWhile_dropWhile_id)
  then show ?thesis using r d [of "takeWhile (\<lambda>c. c \<noteq> NL) s"]
    by (auto simp: csv_readLine_def Let_def split: if_splits list.splits)
qed

text \<open>A quoted field may go over lines. The result: its text, the rest of its line when a comma follows, and the text after the line.\<close>

definition ErrQuote :: goerr where "ErrQuote = ErrMsg ''extraneous or missing quote in quoted-field''"
definition ErrBareQuote :: goerr where "ErrBareQuote = ErrMsg ''bare quote in non-quoted-field''"
definition ErrFieldCount :: goerr where "ErrFieldCount = ErrMsg ''wrong number of fields''"

function csv_quoted :: "string \<Rightarrow> string \<Rightarrow> string \<Rightarrow> (string \<times> string option) outcome \<times> string" where
  "csv_quoted acc [] rest =
     (case csv_readLine rest of
        None \<Rightarrow> (Fail ErrQuote, rest)
      | Some (l, rest') \<Rightarrow> if l = [] then (Fail ErrQuote, rest') else csv_quoted acc l rest')"
| "csv_quoted acc (c # line) rest =
     (if c \<noteq> DQ then csv_quoted (acc @ [c]) line rest
      else case line of
          [] \<Rightarrow> (Ret (acc, None), rest)
        | d # line' \<Rightarrow>
            if d = DQ then csv_quoted (acc @ [DQ]) line' rest
            else if d = CHR '','' then (Ret (acc, Some line'), rest)
            else if line = [NL] then (Ret (acc, None), rest)
            else (Fail ErrQuote, rest))"
  by pat_completeness auto

termination
proof (relation "measure (\<lambda>(acc, line, rest). length line + length rest + length rest)", goal_cases)
  case (2 acc rest x l rest')
  then show ?case using csv_readLine_length by fastforce
qed simp_all

definition without_NL :: "string \<Rightarrow> string" where
  "without_NL l = (if l \<noteq> [] \<and> last l = NL then butlast l else l)"

text \<open>The fields of a record from the rest of its first line: every field leaves fewer characters.\<close>

function csv_fields :: "string list \<Rightarrow> string \<Rightarrow> string \<Rightarrow> (string list \<times> goerr option) \<times> string" where
  "csv_fields acc line rest =
     (if line \<noteq> [] \<and> hd line = DQ
      then (case csv_quoted [] (tl line) rest of
              (Ret (f, Some line'), rest') \<Rightarrow>
                if length line' + length rest' < length line + length rest then csv_fields (acc @ [f]) line' rest'
                else ((acc @ [f], None), rest')
            | (Ret (f, None), rest') \<Rightarrow> ((acc @ [f], None), rest')
            | (Fail err, rest') \<Rightarrow> ((acc, Some err), rest')
            | (Panic p, rest') \<Rightarrow> ((acc, None), rest'))
      else let f = takeWhile (\<lambda>c. c \<noteq> CHR '','') line; after = dropWhile (\<lambda>c. c \<noteq> CHR '','') line
           in if DQ \<in> set (if after = [] then without_NL f else f) then ((acc, Some ErrBareQuote), rest)
              else case after of
                  [] \<Rightarrow> ((acc @ [without_NL f], None), rest)
                | _ # line' \<Rightarrow> csv_fields (acc @ [f]) line' rest)"
  by pat_completeness auto

termination
proof (relation "measure (\<lambda>(acc, line, rest). length line + length rest)", goal_cases)
  case (3 acc line rest f after x line')
  then have "length (f @ x # line') = length line" by (metis takeWhile_dropWhile_id)
  then show ?case by simp
qed simp_all


declare csv_fields.simps [simp del]

lemma csv_quoted_length:
  "csv_quoted acc line rest = (Ret (f, Some line'), rest') \<Longrightarrow>
   length line' + length rest' < length line + length rest \<or> line = [] \<and> length line' + length rest' < length rest"
proof (induction acc line rest rule: csv_quoted.induct)
  case (1 acc rest)
  then show ?case using csv_readLine_length [of rest] by (fastforce split: option.splits if_splits prod.splits)
next
  case (2 acc c line rest)
  then show ?case by (fastforce split: if_splits list.splits)
qed

text \<open>So the test in \<open>csv_fields\<close> never fails: it is there for the termination of the function only.\<close>

lemma csv_fields_quoted:
  assumes "csv_quoted [] line rest = (Ret (f, Some line'), rest')"
  shows "csv_fields acc (DQ # line) rest = csv_fields (acc @ [f]) line' rest'"
  using assms csv_quoted_length [OF assms] by (subst csv_fields.simps) auto

function csv_start :: "string \<Rightarrow> (string \<times> string) option" where
  "csv_start s =
     (case csv_readLine s of
        None \<Rightarrow> None
      | Some (l, rest) \<Rightarrow> if l = [] \<or> l = [NL] then csv_start rest else Some (l, rest))"
  by pat_completeness auto

termination
proof (relation "measure length", goal_cases)
  case (2 s x l rest)
  then show ?case using csv_readLine_length by fastforce
qed simp

declare csv_start.simps [simp del]

text \<open>A call of \<open>Read\<close>: the fields, the error if there is one, and the reader after it.\<close>

definition csv_Read :: "csv_Reader \<Rightarrow> (string list \<times> goerr option) \<times> csv_Reader" where
  "csv_Read r =
     (case csv_start (cr_in r) of
        None \<Rightarrow> (([], Some ErrEOF), r\<lparr>cr_in := []\<rparr>)
      | Some (line, rest) \<Rightarrow>
          (case csv_fields [] line rest of
             ((fs, err), rest') \<Rightarrow>
               if cr_FieldsPerRecord r > 0
               then ((fs, if length fs \<noteq> cr_FieldsPerRecord r \<and> err = None then Some ErrFieldCount else err), r\<lparr>cr_in := rest'\<rparr>)
               else ((fs, err), \<lparr>cr_in = rest', cr_FieldsPerRecord = length fs\<rparr>)))"

subsection \<open>Tasks\<close>

definition tk_RunInOdps ::
    "'e Odps \<Rightarrow> string \<Rightarrow> SQLTask \<Rightarrow> 'e \<Rightarrow> ((Instance \<times> goerr option) outcome \<times> 'e) option" where
  "tk_RunInOdps od projectName t = CreateTask od (od_defaultProject od) projectName t None"

definition GetSelectResultAsCsv :: "'e Odps \<Rightarrow> bool \<Rightarrow> (Instance \<times> 'e, csv_Reader) M" where
  "GetSelectResultAsCsv od withColumnName =
     mbind (GetResult od) (\<lambda>results.
     mbind (mget fst) (\<lambda>i.
       case results of
         [] \<Rightarrow> mfail (ErrMsg (''failed to get result from instance '' @ in_id i))
       | r # _ \<Rightarrow> mret (let reader = csv_NewReader (Content r) in if withColumnName then reader else snd (csv_Read reader))))"

text \<open>A cost task passes a map with the mode and the settings to the SQL task as its hints.\<close>

definition NewSQLCostTask :: "string \<Rightarrow> string \<Rightarrow> string_map option \<Rightarrow> SQLTask" where
  "NewSQLCostTask name query hints =
     NewSqlTask name query
       (Some ((''sqlcostmode'', ''sqlcostmode'') # (case hints of None \<Rightarrow> [] | Some h \<Rightarrow> [(''settings'', json_Marshal_map h)])))"

record MergeTask =
  mt_TaskName :: string
  mt_Comment :: string
  mt_Tables :: "string list"
  mt_Config :: "(string \<times> string) list"

definition mt_AddTask :: "string \<Rightarrow> MergeTask \<Rightarrow> MergeTask" where
  "mt_AddTask taskName t = t\<lparr>mt_Tables := mt_Tables t @ [taskName]\<rparr>"

record AdminTask =
  at_TaskName :: string
  at_Config :: "(string \<times> string) list"
  at_Command :: string

definition NewAdminTask :: "string \<Rightarrow> string \<Rightarrow> AdminTask" where
  "NewAdminTask name command = \<lparr>at_TaskName = name, at_Config = [], at_Command = command\<rparr>"

definition SQL_TaskType :: string where "SQL_TaskType = ''SQL''"
definition SQLCost_TaskType :: string where "SQLCost_TaskType = ''SQLCost''"
definition SQLPlan_TaskType :: string where "SQLPlan_TaskType = ''SQLPlan''"
definition SQLRT_TaskType :: string where "SQLRT_TaskType = ''SQLRT''"
definition Merge_TaskType :: string where "Merge_TaskType = ''Merge''"
definition Admin_TaskType :: string where "Admin_TaskType = ''AdminTask''"

subsection \<open>The column names are skipped\<close>

definition plain_text :: "string \<Rightarrow> bool" where
  "plain_text t \<longleftrightarrow> DQ \<notin> set t \<and> CHR '','' \<notin> set t \<and> NL \<notin> set t \<and> CR \<notin> set t"

lemma takeWhile_stop: "x \<notin> set f \<Longrightarrow> takeWhile (\<lambda>c. c \<noteq> x) (f @ x # t) = f" "x \<notin> set f \<Longrightarrow> dropWhile (\<lambda>c. c \<noteq> x) (f @ x # t) = x # t"
  by (induction f) auto

lemma Join_set: "set (Join fs sep) \<subseteq> set sep \<union> (\<Union>f\<in>set fs. set f)"
  by (induction fs sep rule: Join.induct) auto


lemma csv_fields_plain:
  assumes "fs \<noteq> []" "\<forall>f \<in> set fs. plain_text f"
  shows "csv_fields acc (Join fs '','' @ [NL]) rest = ((acc @ fs, None), rest)"
  using assms
proof (induction fs "'',''" arbitrary: acc rule: Join.induct)
  case (2 f)
  then have p: "DQ \<notin> set f" "CHR '','' \<notin> set (f @ [NL])" by (auto simp: plain_text_def)
  then have "takeWhile (\<lambda>c. c \<noteq> CHR '','') (f @ [NL]) = f @ [NL]" "dropWhile (\<lambda>c. c \<noteq> CHR '','') (f @ [NL]) = []"
    by (auto simp: takeWhile_eq_all_conv simp del: set_append dropWhile_append takeWhile_append)
  moreover have "hd (f @ [NL]) \<noteq> DQ" using p by (cases f) auto
  ultimately show ?case using p by (subst csv_fields.simps) (simp add: without_NL_def)
next
  case (3 f g fs)
  then have p: "DQ \<notin> set f" "CHR '','' \<notin> set f" by (auto simp: plain_text_def)
  let ?rest = "Join (g # fs) '','' @ [NL]"
  have "hd (f @ CHR '','' # ?rest) \<noteq> DQ" using p by (cases f) auto
  moreover have "csv_fields (acc @ [f]) ?rest rest = ((acc @ f # g # fs, None), rest)" using 3 by simp
  ultimately show ?case using p takeWhile_stop [OF p(2), of ?rest]
    by (subst csv_fields.simps) simp
qed simp

lemma csv_Read_plain:
  assumes "cols \<noteq> []" "cols \<noteq> [[]]" "\<forall>f \<in> set cols. plain_text f"
  shows "csv_Read (csv_NewReader (Join cols '','' @ NL # t)) = ((cols, None), \<lparr>cr_in = t, cr_FieldsPerRecord = length cols\<rparr>)"
proof -
  let ?l = "Join cols '',''"
  have s: "NL \<notin> set ?l" "CR \<notin> set ?l" using assms(3) Join_set [of cols "'',''"] by (auto simp: plain_text_def)
  have "?l \<noteq> []" using assms(1,2) by (cases cols rule: remdups_adj.cases) auto
  moreover from s have "drop_last_CR ?l = ?l" by (metis drop_last_CR_def last_in_set)
  ultimately have "csv_readLine (?l @ NL # t) = Some (?l @ [NL], t)"
    using s by (simp add: csv_readLine_def Let_def takeWhile_stop)
  with \<open>?l \<noteq> []\<close> have "csv_start (?l @ NL # t) = Some (?l @ [NL], t)" by (subst csv_start.simps) simp
  then show ?thesis using csv_fields_plain [OF assms(1,3)] by (simp add: csv_Read_def csv_NewReader_def)
qed

text \<open>
  A result read without the column names starts at the second record, when the names are plain, and every record that is read from
  it must have as many fields as there are names.
\<close>

theorem csv_header_skipped:
  assumes "GetResult od s = (Ret (r # rs), s')" "Content r = Join cols '','' @ NL # t"
    and "cols \<noteq> []" "cols \<noteq> [[]]" "\<forall>f \<in> set cols. plain_text f"
  shows "GetSelectResultAsCsv od False s = (Ret \<lparr>cr_in = t, cr_FieldsPerRecord = length cols\<rparr>, s')"
  using assms csv_Read_plain [of cols t] by (simp add: GetSelectResultAsCsv_def mbind_def mget_def mret_def Let_def)


definition csv_instance :: Instance where
  "csv_instance =
     (NewInstance ''p'' ''i'')\<lparr>in_isSync := True,
        in_taskResults := [\<lparr>tr_Type = ''SQL'', tr_Name = ''t'', tr_Status = TaskSuccess, tr_TransForm = [], tr_Format = ''csv'',
          tr_Content = ''a,b'' @ NL # ''1,2''\<rparr>]\<rparr>"

theorem csv_header_skipped_witness:
  "\<forall>od :: nat Odps. GetSelectResultAsCsv od False (csv_instance, 0) = (Ret \<lparr>cr_in = ''1,2'', cr_FieldsPerRecord = 2\<rparr>, (csv_instance, 0))"
proof
  fix od :: "nat Odps"
  have "GetResult od (csv_instance, 0) = (Ret (hd (in_taskResults csv_instance) # []), (csv_instance, 0))"
    by (simp add: GetResult_def mbind_def mget_def mret_def csv_instance_def)
  moreover have "Content (hd (in_taskResults csv_instance)) = Join [''a'', ''b''] '','' @ NL # ''1,2''"
    by (simp add: Content_def csv_instance_def)
  moreover have "\<forall>f \<in> set [''a'', ''b'']. plain_text f" by (simp add: plain_text_def)
  ultimately show "GetSelectResultAsCsv od False (csv_instance, 0) = (Ret \<lparr>cr_in = ''1,2'', cr_FieldsPerRecord = 2\<rparr>, (csv_instance, 0))"
    using csv_header_skipped [of od "(csv_instance, 0)" "hd (in_taskResults csv_instance)" "[]" "(csv_instance, 0)" "[''a'', ''b'']" "''1,2''"]
    by simp
qed

end
