(* ===== verification/ArrowBits.thy ===== *)
theory ArrowBits
  imports Prelude
begin

section \<open>Bitmaps of arrow arrays\<close>

text \<open>
  Models \<^verbatim>\<open>arrow/bitutil/bitutil.go\<close> and \<^verbatim>\<open>arrow/bitutil/bitmaps.go\<close>: tests and updates of single bits, counting over 64-bit words,
  filling a range, and copying between bitmaps of different alignment by whole words. A bitmap is a list of bytes; bit \<open>i\<close> is bit
  \<open>i mod 8\<close> of byte \<open>i div 8\<close>. Words are read as on a little-endian machine, the one that the code is built for unless its build
  tags say otherwise. A slice has no capacity beyond its length; one that an operation writes through is a part of the bitmap that the
  operation returns.
\<close>

subsection \<open>Bits of a buffer\<close>

definition bit_at :: "byte list \<Rightarrow> nat \<Rightarrow> bool" where
  "bit_at buf i = bit (buf ! (i div 8)) (i mod 8)"

definition BitMask :: "byte list" where "BitMask = [1, 2, 4, 8, 16, 32, 64, 128]"
definition FlippedBitMask :: "byte list" where "FlippedBitMask = [254, 253, 251, 247, 239, 223, 191, 127]"
definition PrecedingBitmask :: "byte list" where "PrecedingBitmask = [0, 1, 3, 7, 15, 31, 63, 127]"
definition TrailingBitmask :: "byte list" where "TrailingBitmask = [255, 254, 252, 248, 240, 224, 192, 128]"

definition BytesForBits :: "int \<Rightarrow> int" where "BytesForBits n = drop_bit 3 (n + 7)"
definition CeilByte :: "int \<Rightarrow> int" where "CeilByte n = (n + 7) AND NOT 7"
definition IsMultipleOf8 :: "int \<Rightarrow> bool" where "IsMultipleOf8 v \<longleftrightarrow> v AND 7 = 0"
definition IsMultipleOf64 :: "int \<Rightarrow> bool" where "IsMultipleOf64 v \<longleftrightarrow> v AND 63 = 0"

text \<open>\<^verbatim>\<open>bits.Len\<close> of an unsigned number.\<close>

fun bits_Len :: "nat \<Rightarrow> nat" where
  "bits_Len n = (if n = 0 then 0 else Suc (bits_Len (n div 2)))"

declare bits_Len.simps [simp del]

definition NextPowerOf2 :: "nat \<Rightarrow> nat" where "NextPowerOf2 x = 2 ^ bits_Len x"

text \<open>An index that is negative is a large unsigned number, past the end of every buffer.\<close>

definition in_buf :: "byte list \<Rightarrow> int \<Rightarrow> bool" where
  "in_buf buf i \<longleftrightarrow> 0 \<le> i \<and> nat i div 8 < length buf"

definition BitIsSet :: "byte list \<Rightarrow> int \<Rightarrow> bool outcome" where
  "BitIsSet buf i =
     (if in_buf buf i then Ret (buf ! (nat i div 8) AND BitMask ! (nat i mod 8) \<noteq> 0) else Panic IndexOutOfRange)"

definition BitIsNotSet :: "byte list \<Rightarrow> int \<Rightarrow> bool outcome" where
  "BitIsNotSet buf i =
     (if in_buf buf i then Ret (buf ! (nat i div 8) AND BitMask ! (nat i mod 8) = 0) else Panic IndexOutOfRange)"

definition SetBit :: "byte list \<Rightarrow> int \<Rightarrow> byte list outcome" where
  "SetBit buf i =
     (if in_buf buf i then Ret (buf[nat i div 8 := buf ! (nat i div 8) OR BitMask ! (nat i mod 8)]) else Panic IndexOutOfRange)"

definition ClearBit :: "byte list \<Rightarrow> int \<Rightarrow> byte list outcome" where
  "ClearBit buf i =
     (if in_buf buf i then Ret (buf[nat i div 8 := buf ! (nat i div 8) AND FlippedBitMask ! (nat i mod 8)])
      else Panic IndexOutOfRange)"

definition SetBitTo :: "byte list \<Rightarrow> int \<Rightarrow> bool \<Rightarrow> byte list outcome" where
  "SetBitTo buf i val = (if val then SetBit buf i else ClearBit buf i)"

subsection \<open>Counting\<close>

definition OnesCount :: "'a::len word \<Rightarrow> int" where
  "OnesCount w = int (length (filter (bit w) [0..<LENGTH('a)]))"

fun le_word :: "byte list \<Rightarrow> u64" where
  "le_word [] = 0"
| "le_word (b # bs) = ucast b OR push_bit 8 (le_word bs)"

fun bytesToUint64 :: "byte list \<Rightarrow> u64 list" where
  "bytesToUint64 bs = (if length bs < 8 then [] else le_word (take 8 bs) # bytesToUint64 (drop 8 bs))"

declare bytesToUint64.simps [simp del]

text \<open>A loop that counts the bits that are set from \<open>i\<close> on, \<open>k\<close> of them.\<close>

fun count_bits :: "byte list \<Rightarrow> int \<Rightarrow> nat \<Rightarrow> int \<Rightarrow> int outcome" where
  "count_bits buf i 0 count = Ret count"
| "count_bits buf i (Suc k) count =
     obind (BitIsSet buf i) (\<lambda>b. count_bits buf (i + 1) k (if b then count + 1 else count))"

definition roundUp :: "int \<Rightarrow> int \<Rightarrow> int" where "roundUp v f = (v + (f - 1)) div f * f"

definition countSetBitsWithOffset :: "byte list \<Rightarrow> int \<Rightarrow> int \<Rightarrow> int outcome" where
  "countSetBitsWithOffset buf offset n =
     (let end = offset + n;
          begU8 = roundUp offset 64;
          init = min n (begU8 - offset)
      in obind (count_bits buf offset (nat init) 0) (\<lambda>count.
         let nU64 = (n - init) div 64;
             begU64 = begU8 div 64;
             endU64 = begU64 + nU64;
             bufU64 = bytesToUint64 buf
         in obind (if begU64 < int (length bufU64)
                   then if endU64 < begU64 \<or> endU64 > int (length bufU64) then Panic IndexOutOfRange
                        else Ret (count + sum_list (map OnesCount (take (nat nU64) (drop (nat begU64) bufU64))))
                   else Ret count) (\<lambda>count.
            let tail = offset + init + nU64 * 64
            in count_bits buf tail (nat (end - tail)) count)))"

definition CountSetBits :: "byte list \<Rightarrow> int \<Rightarrow> int \<Rightarrow> int outcome" where
  "CountSetBits buf offset n =
     (if offset > 0 then countSetBitsWithOffset buf offset n
      else
        let uint64Bytes = n div 64 * 8
        in if n < 0 \<or> uint64Bytes > int (length buf) \<or> n div 8 > int (length buf) then Panic IndexOutOfRange
           else
             let count = sum_list (map OnesCount (bytesToUint64 (take (nat uint64Bytes) buf))) +
                         sum_list (map OnesCount (drop (nat uint64Bytes) (take (nat (n div 8)) buf)));
                 tail = n AND NOT 7
             in count_bits buf tail (nat (n - tail)) count)"


subsection \<open>Single bits\<close>

lemma BitMask_nth: "k < 8 \<Longrightarrow> BitMask ! k = push_bit k 1"
proof -
  assume "k < 8"
  then have "k \<in> {0, 1, 2, 3, 4, 5, 6, 7}" by auto
  then show ?thesis by (auto simp: BitMask_def push_bit_eq_mult)
qed

lemma mask_bits:
  assumes "k < 8" "j < 8"
  shows "bit (BitMask ! k) j \<longleftrightarrow> j = k" "bit (FlippedBitMask ! k) j \<longleftrightarrow> j \<noteq> k"
    "bit (PrecedingBitmask ! k) j \<longleftrightarrow> j < k" "bit (TrailingBitmask ! k) j \<longleftrightarrow> k \<le> j"
proof -
  have "list_all (\<lambda>k. list_all (\<lambda>j. (bit (BitMask ! k) j \<longleftrightarrow> j = k) \<and> (bit (FlippedBitMask ! k) j \<longleftrightarrow> j \<noteq> k) \<and>
      (bit (PrecedingBitmask ! k) j \<longleftrightarrow> j < k) \<and> (bit (TrailingBitmask ! k) j \<longleftrightarrow> k \<le> j)) [0..<8]) [0..<8]"
    by code_simp
  with assms show "bit (BitMask ! k) j \<longleftrightarrow> j = k" "bit (FlippedBitMask ! k) j \<longleftrightarrow> j \<noteq> k"
    "bit (PrecedingBitmask ! k) j \<longleftrightarrow> j < k" "bit (TrailingBitmask ! k) j \<longleftrightarrow> k \<le> j"
    by (simp_all add: list_all_iff)
qed

lemma BitMask_test: "k < 8 \<Longrightarrow> (b :: byte) AND BitMask ! k \<noteq> 0 \<longleftrightarrow> bit b k"
  by (simp add: BitMask_nth bit_iff_and_push_bit_not_eq_0)

text \<open>A buffer whose bits \<open>i\<close> below \<open>8 * length buf\<close> are those that \<open>f\<close> names.\<close>

definition same_bits :: "byte list \<Rightarrow> byte list \<Rightarrow> (nat \<Rightarrow> bool) \<Rightarrow> bool" where
  "same_bits buf buf' f \<longleftrightarrow> length buf' = length buf \<and> (\<forall>i < 8 * length buf. bit_at buf' i = f i)"

lemma bit_at_update:
  assumes "k < length buf"
  shows "bit_at (buf[k := b]) i = (if i div 8 = k then bit b (i mod 8) else bit_at buf i)"
  using assms by (simp add: bit_at_def nth_list_update)

lemma SetBitTo_bits:
  assumes "i < 8 * length buf"
  shows "\<exists>buf'. SetBitTo buf (int i) val = Ret buf' \<and> same_bits buf buf' (\<lambda>j. if j = i then val else bit_at buf j)"
proof -
  have k: "i div 8 < length buf" using assms by (simp add: less_mult_imp_div_less mult.commute)
  have eq: "j = i \<longleftrightarrow> j div 8 = i div 8 \<and> j mod 8 = i mod 8" for j
    by (metis div_mult_mod_eq)
  show ?thesis
    using k by (auto simp: SetBitTo_def SetBit_def ClearBit_def in_buf_def same_bits_def bit_at_update bit_or_iff bit_and_iff
        mask_bits eq) (auto simp: bit_at_def)
qed

lemma BitIsSet_bits:
  assumes "i < 8 * length buf"
  shows "BitIsSet buf (int i) = Ret (bit_at buf i)" "BitIsNotSet buf (int i) = Ret (\<not> bit_at buf i)"
proof -
  have "i div 8 < length buf" using assms by (simp add: less_mult_imp_div_less mult.commute)
  then show "BitIsSet buf (int i) = Ret (bit_at buf i)" "BitIsNotSet buf (int i) = Ret (\<not> bit_at buf i)"
    using BitMask_test [of "i mod 8" "buf ! (i div 8)"] by (auto simp: BitIsSet_def BitIsNotSet_def in_buf_def bit_at_def)
qed


subsection \<open>Counting is counting\<close>

text \<open>The reference: the number of indexes of a range whose bit is set.\<close>

definition set_bits_in :: "byte list \<Rightarrow> nat \<Rightarrow> nat \<Rightarrow> int" where
  "set_bits_in buf i j = int (length (filter (bit_at buf) [i..<j]))"

lemma set_bits_in_split: "i \<le> j \<Longrightarrow> j \<le> k \<Longrightarrow> set_bits_in buf i j + set_bits_in buf j k = set_bits_in buf i k"
proof -
  assume "i \<le> j" "j \<le> k"
  then have "[i..<k] = [i..<j] @ [j..<k]" using upt_add_eq_append [of i j "k - j"] by simp
  then show ?thesis by (simp add: set_bits_in_def)
qed

lemma set_bits_in_one: "set_bits_in buf i (Suc i) = (if bit_at buf i then 1 else 0)"
  by (simp add: set_bits_in_def)

lemma set_bits_in_shift:
  assumes "\<And>x. x < n \<Longrightarrow> bit_at buf (i + x) \<longleftrightarrow> P x"
  shows "set_bits_in buf i (i + n) = int (length (filter P [0..<n]))"
proof -
  have "[i..<i + n] = map (\<lambda>x. i + x) [0..<n]" by (simp add: map_add_upt add.commute)
  then show ?thesis using assms by (auto simp: set_bits_in_def filter_map comp_def intro!: arg_cong [of _ _ length] filter_cong)
qed

lemma count_bits_spec:
  "i + k \<le> 8 * length buf \<Longrightarrow> count_bits buf (int i) k count = Ret (count + set_bits_in buf i (i + k))"
proof (induction k arbitrary: i count)
  case 0
  then show ?case by (simp add: set_bits_in_def)
next
  case (Suc k)
  have "int i + 1 = int (Suc i)" by simp
  moreover have "set_bits_in buf i (i + Suc k) = (if bit_at buf i then 1 else 0) + set_bits_in buf (Suc i) (Suc i + k)"
    using set_bits_in_split [of i "Suc i" "i + Suc k" buf] set_bits_in_one [of buf i] by simp
  ultimately show ?case using Suc.prems Suc.IH [of "Suc i"] BitIsSet_bits(1) [of i buf] by (simp add: ac_simps)
qed

lemma bit_le_word: "bit (le_word bs) j \<longleftrightarrow> j < 64 \<and> j < 8 * length bs \<and> bit_at bs j"
proof (induction bs arbitrary: j)
  case (Cons b bs)
  show ?case
  proof (cases "j < 8")
    case False
    then have "j div 8 = Suc ((j - 8) div 8)" "(j - 8) mod 8 = j mod 8"
      by (metis le_div_geq not_less zero_less_numeral) (metis False le_mod_geq not_less)
    then show ?thesis using False Cons.IH [of "j - 8"]
      by (auto simp: bit_simps bit_at_def dest: bit_imp_le_length)
  qed (auto simp: bit_simps bit_at_def)
qed simp

lemma bit_at_take_drop: "j < 8 * n \<Longrightarrow> bit_at (take n (drop m bs)) j = bit_at (drop m bs) j"
  by (simp add: bit_at_def less_mult_imp_div_less mult.commute)

lemma bit_at_drop: "m \<le> length bs \<Longrightarrow> bit_at (drop m bs) j = bit_at bs (8 * m + j)"
  by (simp add: bit_at_def)

lemma bytesToUint64_nth:
  "length (bytesToUint64 bs) = length bs div 8"
  "k < length bs div 8 \<Longrightarrow> bytesToUint64 bs ! k = le_word (take 8 (drop (8 * k) bs))"
proof (induction bs arbitrary: k rule: bytesToUint64.induct)
  case (1 bs)
  { case 1 then show ?case using "1.IH"(1) by (subst bytesToUint64.simps) (simp add: le_div_geq) }
  { case 2
    show ?case
    proof (cases "length bs < 8")
      case False
      then show ?thesis using "1.IH"(2) [OF False, of "k - 1"] 2
        by (subst bytesToUint64.simps) (cases k; simp add: le_div_geq add.commute)
    qed (use 2 in simp) }
qed

lemma OnesCount_le_word:
  assumes "64 * m + 64 \<le> 8 * length buf"
  shows "OnesCount (le_word (take 8 (drop (8 * m) buf))) = set_bits_in buf (64 * m) (64 * m + 64)"
proof -
  have "bit_at buf (64 * m + x) \<longleftrightarrow> bit (le_word (take 8 (drop (8 * m) buf))) x" if "x < 64" for x
    using that assms bit_at_take_drop [of x 8 "8 * m" buf] bit_at_drop [of "8 * m" buf x] by (simp add: bit_le_word)
  from set_bits_in_shift [OF this] show ?thesis by (simp add: OnesCount_def)
qed

lemma OnesCount_words:
  "m + n \<le> length buf div 8 \<Longrightarrow>
   sum_list (map OnesCount (take n (drop m (bytesToUint64 buf)))) = set_bits_in buf (64 * m) (64 * (m + n))"
proof (induction n)
  case (Suc n)
  then have b: "m + n < length (bytesToUint64 buf)" "64 * (m + n) + 64 \<le> 8 * length buf" by (auto simp: bytesToUint64_nth(1))
  then have "take (Suc n) (drop m (bytesToUint64 buf)) = take n (drop m (bytesToUint64 buf)) @ [bytesToUint64 buf ! (m + n)]"
    by (simp add: take_Suc_conv_app_nth)
  then show ?case using Suc b set_bits_in_split [of "64 * m" "64 * (m + n)" "64 * (m + n) + 64" buf] OnesCount_le_word [OF b(2)]
    by (simp add: bytesToUint64_nth algebra_simps)
qed (simp add: set_bits_in_def)

lemma OnesCount_bytes:
  "n \<le> length buf \<Longrightarrow> m \<le> n \<Longrightarrow>
   sum_list (map OnesCount (drop m (take n buf))) = set_bits_in buf (8 * m) (8 * n)"
proof (induction n)
  case (Suc n)
  show ?case
  proof (cases "m = Suc n")
    case False
    have "bit_at buf (8 * n + x) \<longleftrightarrow> bit (buf ! n) x" if "x < 8" for x using that by (simp add: bit_at_def)
    from set_bits_in_shift [OF this] have "OnesCount (buf ! n) = set_bits_in buf (8 * n) (8 * n + 8)" by (simp add: OnesCount_def)
    then show ?thesis using False Suc set_bits_in_split [of "8 * m" "8 * n" "8 * n + 8" buf] by (simp add: take_Suc_conv_app_nth add.commute)
  qed (simp add: set_bits_in_def)
qed (simp add: set_bits_in_def)


text \<open>
  C21. Counting the bits of a range by whole 64-bit words, with single bits before and after them, gives the number of bits that are set, for
  every alignment of the range.
\<close>

theorem CountSetBits_spec:
  assumes "offset + n \<le> 8 * length buf"
  shows "CountSetBits buf (int offset) (int n) = Ret (set_bits_in buf offset (offset + n))"
proof (cases "offset = 0")
  case True
  define m where "m = n div 64"
  have b: "8 * m \<le> n div 8" "n div 8 \<le> length buf" "m \<le> length buf div 8" using assms by (auto simp: m_def True)
  have n8: "int n AND NOT 7 = int (8 * (n div 8))"
  proof -
    have "int n AND NOT 7 = int n AND NOT (mask 3)" by (simp add: mask_eq_exp_minus_1)
    also have "\<dots> = push_bit 3 (drop_bit 3 (int n))" by (rule bit_eqI) (auto simp: bit_simps)
    also have "\<dots> = int (8 * (n div 8))" by (simp add: push_bit_eq_mult drop_bit_eq_div zdiv_int)
    finally show ?thesis .
  qed
  have w: "sum_list (map OnesCount (bytesToUint64 (take (8 * m) buf))) = set_bits_in buf 0 (64 * m)"
  proof -
    have l: "length (take (8 * m) buf) = 8 * m" "length (bytesToUint64 (take (8 * m) buf)) = m" using b
      by (simp_all add: bytesToUint64_nth(1))
    have "set_bits_in (take (8 * m) buf) 0 (64 * m) = set_bits_in buf 0 (64 * m)"
    proof -
      have "bit_at (take (8 * m) buf) x = bit_at buf x" if "x < 64 * m" for x
      proof -
        have "x div 8 < 8 * m" using that div_mult_mod_eq [of x 8] by linarith
        then show ?thesis by (simp add: bit_at_def)
      qed
      then show ?thesis by (auto simp: set_bits_in_def intro!: arg_cong [of _ _ length] filter_cong)
    qed
    then show ?thesis using OnesCount_words [of 0 m "take (8 * m) buf"] l by simp
  qed
  have "count_bits buf (int (8 * (n div 8))) (n mod 8) (set_bits_in buf 0 (64 * m) + set_bits_in buf (64 * m) (8 * (n div 8))) =
      Ret (set_bits_in buf 0 n)"
    using count_bits_spec [of "8 * (n div 8)" "n mod 8" buf] assms True b set_bits_in_split [of 0 "64 * m" "8 * (n div 8)" buf]
      set_bits_in_split [of 0 "8 * (n div 8)" n buf] by simp
  moreover have f: "int n div 64 * 8 = int (8 * m)" "int n div 8 = int (n div 8)" "nat (int n - int (8 * (n div 8))) = n mod 8"
    by (simp_all add: m_def zdiv_int minus_mult_div_eq_mod nat_mod_as_int flip: of_nat_diff)
  ultimately show ?thesis
    using w OnesCount_bytes [OF b(2) b(1)] b unfolding CountSetBits_def Let_def n8 f True by (simp add: nat_mult_distrib)
next
  case False
  define u where "u = (offset + 63) div 64"
  define i0 where "i0 = min n (64 * u - offset)"
  define q where "q = (n - i0) div 64"
  have u: "roundUp (int offset) 64 = int (64 * u)" by (simp add: roundUp_def u_def zdiv_int)
  have le: "offset \<le> 64 * u" "i0 \<le> n" unfolding u_def i0_def by simp_all
  have i: "min (int n) (int (64 * u) - int offset) = int i0" using le(1) by (simp add: i0_def)
  have q: "(int n - int i0) div 64 = int q" using le(2) by (simp add: q_def zdiv_int)
  have qb: "offset + i0 + 64 * q \<le> offset + n" using le(2) by (simp add: q_def)
  have c0: "count_bits buf (int offset) i0 0 = Ret (set_bits_in buf offset (offset + i0))"
    using count_bits_spec [of offset i0 buf 0] assms le by simp
  have c1: "u + q \<le> length buf div 8 \<and>
      set_bits_in buf offset (offset + i0) + sum_list (map OnesCount (take q (drop u (bytesToUint64 buf)))) =
      set_bits_in buf offset (offset + i0 + 64 * q)" if "u < length buf div 8"
  proof (cases "q = 0")
    case False
    then have e: "offset + i0 = 64 * u" using le by (auto simp: q_def i0_def min_def split: if_splits)
    then have "u + q \<le> length buf div 8" using qb assms by simp
    then show ?thesis
      using OnesCount_words [of u q buf] e set_bits_in_split [of offset "64 * u" "64 * (u + q)" buf] le(1) by (simp add: algebra_simps)
  qed (use that in simp)
  have c2: "\<not> u < length buf div 8 \<Longrightarrow> q = 0"
    using qb assms by (auto simp: q_def i0_def min_def split: if_splits)
  have c3: "count_bits buf (int (offset + i0 + 64 * q)) (n - (i0 + 64 * q)) (set_bits_in buf offset (offset + i0 + 64 * q)) =
      Ret (set_bits_in buf offset (offset + n))"
    using count_bits_spec [of "offset + i0 + 64 * q" "n - (i0 + 64 * q)" buf] qb assms
      set_bits_in_split [of offset "offset + i0 + 64 * q" "offset + n" buf] by simp
  have f: "int (64 * u) div 64 = int u" "int offset + int i0 + int q * 64 = int (offset + i0 + 64 * q)"
    "nat (int offset + int n - int (offset + i0 + 64 * q)) = n - (i0 + 64 * q)"
    using qb by (simp_all flip: of_nat_diff)
  show ?thesis
  proof (cases "u < length buf div 8")
    case True
    then show ?thesis using False c0 c1 c3 unfolding CountSetBits_def countSetBitsWithOffset_def Let_def u i q f
      by (simp add: bytesToUint64_nth)
  next
    case u0: False
    then show ?thesis using False c0 c2 [OF u0] c3 unfolding CountSetBits_def countSetBitsWithOffset_def Let_def u i q f
      by (simp add: bytesToUint64_nth)
  qed
qed


subsection \<open>Filling a range\<close>

definition mask_at :: "byte list \<Rightarrow> int \<Rightarrow> byte outcome" where
  "mask_at masks i = (if 0 \<le> i \<and> i < 8 then Ret (masks ! nat i) else Panic IndexOutOfRange)"

definition write_masked :: "byte list \<Rightarrow> int \<Rightarrow> byte \<Rightarrow> byte \<Rightarrow> byte list outcome" where
  "write_masked buf k m fill =
     (if 0 \<le> k \<and> nat k < length buf then Ret (buf[nat k := (buf ! nat k AND m) OR (fill AND NOT m)]) else Panic IndexOutOfRange)"

definition memory_Set :: "byte list \<Rightarrow> int \<Rightarrow> int \<Rightarrow> byte \<Rightarrow> byte list outcome" where
  "memory_Set buf i j c =
     (if 0 \<le> i \<and> i \<le> j \<and> nat j \<le> length buf
      then Ret (take (nat i) buf @ replicate (nat (j - i)) c @ drop (nat j) buf) else Panic IndexOutOfRange)"

definition SetBitsTo :: "byte list \<Rightarrow> int \<Rightarrow> int \<Rightarrow> bool \<Rightarrow> byte list outcome" where
  "SetBitsTo buf startOffset n areSet =
     (if n = 0 then Ret buf
      else
        let end = startOffset + n; fill = (if areSet then 255 else 0);
            byteBeg = startOffset sdiv 8; byteEnd = end sdiv 8 + 1
        in obind (mask_at PrecedingBitmask (startOffset smod 8)) (\<lambda>firstByteMask.
           obind (mask_at TrailingBitmask (end smod 8)) (\<lambda>lastByteMask.
             if byteEnd = byteBeg + 1
             then write_masked buf byteBeg (if end smod 8 \<noteq> 0 then firstByteMask OR lastByteMask else firstByteMask) fill
             else
               obind (write_masked buf byteBeg firstByteMask fill) (\<lambda>buf1.
               obind (if byteEnd - byteBeg > 2 then memory_Set buf1 (byteBeg + 1) (byteEnd - 1) fill else Ret buf1) (\<lambda>buf2.
               if end smod 8 = 0 then Ret buf2 else write_masked buf2 (byteEnd - 1) lastByteMask fill)))))"

lemma write_masked_bits:
  assumes "k < length buf"
  shows "\<exists>buf'. write_masked buf (int k) m (if areSet then 255 else 0) = Ret buf' \<and>
    same_bits buf buf' (\<lambda>i. if i div 8 = k \<and> \<not> bit m (i mod 8) then areSet else bit_at buf i)"
proof -
  have "bit (255 :: byte) j" if "j < 8" for j
  proof -
    have "list_all (bit (255 :: byte)) [0..<8]" by code_simp
    with that show ?thesis by (simp add: list_all_iff)
  qed
  then show ?thesis using assms
    by (auto simp: write_masked_def same_bits_def bit_at_update bit_or_iff bit_and_iff bit_not_iff) (auto simp: bit_at_def)
qed

lemma memory_Set_bits:
  assumes "a \<le> b" "b \<le> length buf"
  shows "\<exists>buf'. memory_Set buf (int a) (int b) (if areSet then 255 else 0) = Ret buf' \<and>
    same_bits buf buf' (\<lambda>i. if a \<le> i div 8 \<and> i div 8 < b then areSet else bit_at buf i)"
proof -
  have f: "bit (255 :: byte) j" if "j < 8" for j
  proof -
    have "list_all (bit (255 :: byte)) [0..<8]" by code_simp
    with that show ?thesis by (simp add: list_all_iff)
  qed
  let ?buf = "take a buf @ replicate (b - a) (if areSet then 255 else 0) @ drop b buf"
  have "?buf ! k = (if a \<le> k \<and> k < b then (if areSet then 255 else 0) else buf ! k)" if "k < length buf" for k
    using that assms by (auto simp: nth_append min_def)
  moreover have "i div 8 < length buf" if "i < 8 * length buf" for i using that div_mult_mod_eq [of i 8] by linarith
  ultimately show ?thesis
    using assms f by (auto simp: memory_Set_def same_bits_def bit_at_def nat_diff_distrib')
qed

lemma same_bits_trans:
  "same_bits buf buf1 f \<Longrightarrow> same_bits buf1 buf2 g \<Longrightarrow> (\<And>i. i < 8 * length buf \<Longrightarrow> g i = h i) \<Longrightarrow> same_bits buf buf2 h"
  by (simp add: same_bits_def)


lemma sdiv_nat: "int a sdiv 8 = int (a div 8)" "int a smod 8 = int (a mod 8)"
  by (cases a; simp add: signed_divide_int_def signed_modulo_int_def zdiv_int zmod_int)+

lemma mask_at_nat: "k < 8 \<Longrightarrow> mask_at ms (int k) = Ret (ms ! k)"
  by (simp add: mask_at_def)

lemma lex8:
  "r < 8 \<Longrightarrow> s < 8 \<Longrightarrow> 8 * b + r \<le> 8 * q + s \<longleftrightarrow> b < q \<or> b = q \<and> r \<le> (s :: nat)"
  "r < 8 \<Longrightarrow> s < 8 \<Longrightarrow> 8 * b + r < 8 * q + s \<longleftrightarrow> b < q \<or> b = q \<and> r < (s :: nat)"
  by auto

lemma le_div8:
  "(i :: nat) \<le> j \<longleftrightarrow> i div 8 < j div 8 \<or> i div 8 = j div 8 \<and> i mod 8 \<le> j mod 8"
  "(i :: nat) < j \<longleftrightarrow> i div 8 < j div 8 \<or> i div 8 = j div 8 \<and> i mod 8 < j mod 8"
  using lex8 [of "i mod 8" "j mod 8" "i div 8" "j div 8"] by simp_all

text \<open>
  Filling a range of bits by masked bytes sets every bit in it and leaves every other bit of the buffer, for every start and end
  inside it.
\<close>

theorem SetBitsTo_spec:
  assumes "start + n \<le> 8 * length buf"
  shows "\<exists>buf'. SetBitsTo buf (int start) (int n) areSet = Ret buf' \<and>
    same_bits buf buf' (\<lambda>i. if start \<le> i \<and> i < start + n then areSet else bit_at buf i)"
proof (cases "n = 0")
  case False
  let ?b = "start div 8" and ?e = "(start + n) div 8" and ?fill = "if areSet then 255 else 0 :: byte"
  let ?spec = "\<lambda>i. if start \<le> i \<and> i < start + n then areSet else bit_at buf i"
  have inj: "int start + int n = int (start + n)" "int ?e + 1 = int (?e + 1)" "int ?b + 1 = int (?b + 1)" by simp_all
  have r: "start mod 8 < 8" "(start + n) mod 8 < 8" by simp_all
  have bl: "?b < length buf" using assms False div_mult_mod_eq [of start 8] by linarith
  have le: "?b \<le> ?e" by (simp add: div_le_mono)
  have mb: "bit (PrecedingBitmask ! (start mod 8)) (i mod 8) \<longleftrightarrow> i mod 8 < start mod 8"
    "bit (TrailingBitmask ! ((start + n) mod 8)) (i mod 8) \<longleftrightarrow> (start + n) mod 8 \<le> i mod 8" for i
    using mask_bits(3,4) [of _ "i mod 8"] r by simp_all
  show ?thesis
  proof (cases "?e = ?b")
    case True
    then have "start mod 8 < (start + n) mod 8" using False le_div8(2) [of start "start + n"] by simp
    let ?m = "PrecedingBitmask ! (start mod 8) OR TrailingBitmask ! ((start + n) mod 8)"
    obtain buf1 where b1: "write_masked buf (int ?b) ?m ?fill = Ret buf1"
      "same_bits buf buf1 (\<lambda>i. if i div 8 = ?b \<and> start mod 8 \<le> i mod 8 \<and> i mod 8 < (start + n) mod 8 then areSet else bit_at buf i)"
      using write_masked_bits [OF bl, of ?m areSet] by (auto simp: bit_or_iff mb not_less not_le)
    have "same_bits buf buf1 ?spec"
      using b1(2) True by (auto simp: same_bits_def le_div8(1) [of start] le_div8(2) [of _ "start + n"])
    moreover have "SetBitsTo buf (int start) (int n) areSet = Ret buf1"
      using b1(1) True \<open>start mod 8 < (start + n) mod 8\<close> r False
      unfolding SetBitsTo_def Let_def inj(1) sdiv_nat by (simp add: mask_at_nat)
    ultimately show ?thesis by blast
  next
    case ne: False
    then have lt: "?b < ?e" using le by simp
    have el: "?e \<le> length buf" "(start + n) mod 8 \<noteq> 0 \<Longrightarrow> ?e < length buf"
      using assms div_mult_mod_eq [of "start + n" 8] by linarith+
    obtain buf1 where b1: "write_masked buf (int ?b) (PrecedingBitmask ! (start mod 8)) ?fill = Ret buf1"
      "same_bits buf buf1 (\<lambda>i. if i div 8 = ?b \<and> start mod 8 \<le> i mod 8 then areSet else bit_at buf i)"
      using write_masked_bits [OF bl, of "PrecedingBitmask ! (start mod 8)" areSet] by (auto simp: mb not_less)
    then have l1: "length buf1 = length buf" by (simp add: same_bits_def)
    obtain buf2 where b2: "(if ?b + 1 < ?e then memory_Set buf1 (int (?b + 1)) (int ?e) ?fill else Ret buf1) = Ret buf2"
      "same_bits buf1 buf2 (\<lambda>i. if ?b + 1 \<le> i div 8 \<and> i div 8 < ?e then areSet else bit_at buf1 i)"
    proof (cases "?b + 1 < ?e")
      case True
      then show ?thesis using memory_Set_bits [of "?b + 1" ?e buf1 areSet] el(1) l1 that by auto
    qed (rule that [of buf1]; auto simp: same_bits_def)
    have s2: "same_bits buf buf2 (\<lambda>i. if start \<le> i \<and> i div 8 < ?e then areSet else bit_at buf i)"
      using b1(2) b2(2) lt by (auto simp: same_bits_def le_div8(1) [of start])
    obtain buf3 where b3: "(if (start + n) mod 8 = 0 then Ret buf2
        else write_masked buf2 (int ?e) (TrailingBitmask ! ((start + n) mod 8)) ?fill) = Ret buf3"
      "same_bits buf2 buf3 (\<lambda>i. if i div 8 = ?e \<and> i mod 8 < (start + n) mod 8 then areSet else bit_at buf2 i)"
    proof (cases "(start + n) mod 8 = 0")
      case False
      then show ?thesis using that write_masked_bits [of ?e buf2 "TrailingBitmask ! ((start + n) mod 8)" areSet] el(2) s2
        by (auto simp: mb not_le same_bits_def)
    qed (use that in \<open>simp add: same_bits_def\<close>)
    have "same_bits buf buf3 ?spec"
      using s2 b3(2) lt by (auto simp: same_bits_def le_div8(1) [of start] le_div8(2) [of _ "start + n"])
    moreover have "SetBitsTo buf (int start) (int n) areSet = Ret buf3"
      using b1(1) b2(1) b3(1) lt r False
      unfolding SetBitsTo_def Let_def inj(1) sdiv_nat by (simp add: mask_at_nat add.commute split: if_splits)
    ultimately show ?thesis by blast
  qed
qed (auto simp: SetBitsTo_def same_bits_def)


theorem CountSetBits_spec_witness: "CountSetBits [0xF0, 0x0F, 0xFF] (int 3) (int 18) = Ret (set_bits_in [0xF0, 0x0F, 0xFF] 3 21)"
  using CountSetBits_spec [of 3 18 "[0xF0, 0x0F, 0xFF]"] by simp

theorem SetBitsTo_spec_witness:
  "\<exists>buf'. SetBitsTo [0, 0, 0] (int 3) (int 14) True = Ret buf' \<and>
     same_bits [0, 0, 0] buf' (\<lambda>i. if 3 \<le> i \<and> i < 3 + 14 then True else bit_at [0, 0, 0] i)"
  using SetBitsTo_spec [of 3 14 "[0, 0, 0]" True] by simp

end
