(* ===== verification/ArrowBitmaps.thy ===== *)
theory ArrowBitmaps
  imports ArrowBits
begin

section \<open>Readers and writers of bitmaps\<close>

text \<open>
  Models \<^verbatim>\<open>arrow/bitutil/bitmaps.go\<close>: readers and writers of single bits and of 64-bit words at any offset into a byte, and
  \<open>CopyBitmap\<close>, which moves a range of bits by words. Offsets and lengths are those of arrays, never negative. A word writer holds
  the buffer in two parts: what lies before its slice, and its slice.
\<close>

subsection \<open>One bit at a time\<close>

record BitmapReader =
  br_bitmap :: "byte list"
  br_pos :: nat
  br_len :: nat
  br_current :: byte
  br_byteOffset :: nat
  br_bitOffset :: nat

text \<open>A nil bitmap is an empty one here.\<close>

definition NewBitmapReader :: "byte list \<Rightarrow> nat \<Rightarrow> nat \<Rightarrow> BitmapReader outcome" where
  "NewBitmapReader bitmap offset n =
     obind (if n > 0 \<and> bitmap \<noteq> []
            then if offset div 8 < length bitmap then Ret (bitmap ! (offset div 8)) else Panic IndexOutOfRange
            else Ret 0) (\<lambda>curbyte.
     Ret \<lparr>br_bitmap = bitmap, br_pos = 0, br_len = n, br_current = curbyte, br_byteOffset = offset div 8,
          br_bitOffset = offset mod 8\<rparr>)"

definition br_Set :: "BitmapReader \<Rightarrow> bool" where
  "br_Set r \<longleftrightarrow> br_current r AND push_bit (br_bitOffset r) 1 \<noteq> 0"

definition br_NotSet :: "BitmapReader \<Rightarrow> bool" where
  "br_NotSet r \<longleftrightarrow> br_current r AND push_bit (br_bitOffset r) 1 = 0"

definition br_Next :: "BitmapReader \<Rightarrow> BitmapReader outcome" where
  "br_Next r =
     (let r1 = r\<lparr>br_bitOffset := br_bitOffset r + 1, br_pos := br_pos r + 1\<rparr>
      in if br_bitOffset r1 \<noteq> 8 then Ret r1
         else
           let r2 = r1\<lparr>br_bitOffset := 0, br_byteOffset := br_byteOffset r1 + 1\<rparr>
           in if br_pos r2 < br_len r2
              then if br_byteOffset r2 < length (br_bitmap r2)
                   then Ret (r2\<lparr>br_current := br_bitmap r2 ! br_byteOffset r2\<rparr>) else Panic IndexOutOfRange
              else Ret r2)"

record BitmapWriter =
  bw_buf :: "byte list"
  bw_pos :: nat
  bw_length :: nat
  bw_curByte :: byte
  bw_bitMask :: byte
  bw_byteOffset :: nat

definition bw_Reset :: "nat \<Rightarrow> nat \<Rightarrow> BitmapWriter \<Rightarrow> BitmapWriter outcome" where
  "bw_Reset start n w =
     (let w1 = w\<lparr>bw_pos := 0, bw_byteOffset := start div 8, bw_bitMask := BitMask ! (start mod 8), bw_length := n\<rparr>
      in if n > 0
         then if start div 8 < length (bw_buf w) then Ret (w1\<lparr>bw_curByte := bw_buf w ! (start div 8)\<rparr>) else Panic IndexOutOfRange
         else Ret w1)"

definition NewBitmapWriter :: "byte list \<Rightarrow> nat \<Rightarrow> nat \<Rightarrow> BitmapWriter outcome" where
  "NewBitmapWriter bitmap start n =
     bw_Reset start n \<lparr>bw_buf = bitmap, bw_pos = 0, bw_length = 0, bw_curByte = 0, bw_bitMask = 0, bw_byteOffset = 0\<rparr>"

definition bw_Set :: "BitmapWriter \<Rightarrow> BitmapWriter" where
  "bw_Set w = w\<lparr>bw_curByte := bw_curByte w OR bw_bitMask w\<rparr>"

definition bw_Clear :: "BitmapWriter \<Rightarrow> BitmapWriter" where
  "bw_Clear w = w\<lparr>bw_curByte := bw_curByte w AND NOT (bw_bitMask w)\<rparr>"

definition bw_Next :: "BitmapWriter \<Rightarrow> BitmapWriter outcome" where
  "bw_Next w =
     (let w1 = w\<lparr>bw_bitMask := push_bit 1 (bw_bitMask w), bw_pos := bw_pos w + 1\<rparr>
      in if bw_bitMask w1 \<noteq> 0 then Ret w1
         else if bw_byteOffset w1 \<ge> length (bw_buf w1) then Panic IndexOutOfRange
         else
           let w2 = w1\<lparr>bw_bitMask := 1, bw_buf := (bw_buf w1)[bw_byteOffset w1 := bw_curByte w1],
                       bw_byteOffset := bw_byteOffset w1 + 1\<rparr>
           in if bw_pos w2 < bw_length w2
              then if bw_byteOffset w2 < length (bw_buf w2)
                   then Ret (w2\<lparr>bw_curByte := bw_buf w2 ! bw_byteOffset w2\<rparr>) else Panic IndexOutOfRange
              else Ret w2)"

definition bw_Finish :: "BitmapWriter \<Rightarrow> BitmapWriter outcome" where
  "bw_Finish w =
     (if bw_length w > 0 \<and> (bw_bitMask w \<noteq> 1 \<or> bw_pos w < bw_length w)
      then if bw_byteOffset w < length (bw_buf w) then Ret (w\<lparr>bw_buf := (bw_buf w)[bw_byteOffset w := bw_curByte w]\<rparr>)
           else Panic IndexOutOfRange
      else Ret w)"

text \<open>\<^verbatim>\<open>bits.TrailingZeros32\<close>, which is 32 for zero.\<close>

definition TrailingZeros32 :: "u32 \<Rightarrow> nat" where
  "TrailingZeros32 x = length (takeWhile (\<lambda>i. \<not> bit x i) [0..<32])"

fun set_bools :: "byte list \<Rightarrow> int \<Rightarrow> bool list \<Rightarrow> byte list outcome" where
  "set_bools buf i [] = Ret buf"
| "set_bools buf i (b # bs) = obind (SetBitTo buf i b) (\<lambda>buf'. set_bools buf' (i + 1) bs)"

text \<open>The number of bits written, and the writer after it.\<close>

definition AppendBools :: "bool list \<Rightarrow> BitmapWriter \<Rightarrow> (int \<times> BitmapWriter) outcome" where
  "AppendBools xs w =
     (let space = min (int (bw_length w) - int (bw_pos w)) (int (length xs))
      in if space = 0 then Ret (0, w)
         else if space < 0 then Panic IndexOutOfRange
         else
           let bitOffset = TrailingZeros32 (ucast (bw_bitMask w));
               n = nat (BytesForBits (int bitOffset + space));
               k = bw_byteOffset w
           in if k + n > length (bw_buf w) then Panic IndexOutOfRange
              else
                obind (set_bools ((take n (drop k (bw_buf w)))[0 := bw_curByte w]) (int bitOffset) (take (nat space) xs)) (\<lambda>appslice.
                Ret (space, w\<lparr>bw_buf := take k (bw_buf w) @ appslice @ drop (k + n) (bw_buf w),
                   bw_pos := bw_pos w + nat space, bw_bitMask := BitMask ! ((bitOffset + nat space) mod 8),
                   bw_byteOffset := k + (bitOffset + nat space) div 8, bw_curByte := last appslice\<rparr>)))"

subsection \<open>One word at a time\<close>

definition Uint64 :: "byte list \<Rightarrow> u64 outcome" where
  "Uint64 bs = (if length bs < 8 then Panic IndexOutOfRange else Ret (le_word (take 8 bs)))"

definition PutUint64 :: "byte list \<Rightarrow> u64 \<Rightarrow> byte list outcome" where
  "PutUint64 bs w =
     (if length bs < 8 then Panic IndexOutOfRange else Ret (map (\<lambda>k. ucast (drop_bit (8 * k) w)) [0..<8] @ drop 8 bs))"

definition getLSB :: "u64 \<Rightarrow> byte" where "getLSB w = ucast w"

definition setLSB :: "u64 \<Rightarrow> byte \<Rightarrow> u64" where "setLSB w b = (w AND NOT (mask 8)) OR ucast b"

record BitmapWordReader =
  wr_bitmap :: "byte list"
  wr_offset :: nat
  wr_nwords :: nat
  wr_trailingBits :: nat
  wr_trailingBytes :: nat
  wr_curword :: u64

definition NewBitmapWordReader :: "byte list \<Rightarrow> nat \<Rightarrow> nat \<Rightarrow> BitmapWordReader outcome" where
  "NewBitmapWordReader bitmap offset n =
     (let bitoffset = offset mod 8; byteOffset = offset div 8;
          nbytes = nat (BytesForBits (int (bitoffset + n)));
          nwords = n div 64 - 1;
          trailingBits = n - nwords * 64
      in if byteOffset + nbytes > length bitmap then Panic IndexOutOfRange
         else
           let bm = take nbytes (drop byteOffset bitmap)
           in obind (if nwords > 0 then Uint64 bm
                     else if bm = [] then Panic IndexOutOfRange else Ret (setLSB 0 (bm ! 0))) (\<lambda>curword.
              Ret \<lparr>wr_bitmap = bm, wr_offset = bitoffset, wr_nwords = nwords, wr_trailingBits = trailingBits,
                   wr_trailingBytes = nat (BytesForBits (int trailingBits)), wr_curword = curword\<rparr>))"

definition NextWord :: "BitmapWordReader \<Rightarrow> (u64 \<times> BitmapWordReader) outcome" where
  "NextWord r =
     (if length (wr_bitmap r) < 8 then Panic IndexOutOfRange
      else
        let bm = drop 8 (wr_bitmap r); o1 = wr_offset r; cur = wr_curword r
        in obind (Uint64 bm) (\<lambda>nextWord.
           Ret (if o1 \<noteq> 0 then drop_bit o1 cur OR push_bit (64 - o1) nextWord else cur,
                r\<lparr>wr_bitmap := bm, wr_curword := nextWord\<rparr>)))"

text \<open>The loop over the last byte: the bits come in from the top.\<close>

fun last_bits :: "BitmapReader \<Rightarrow> nat \<Rightarrow> byte \<Rightarrow> byte outcome" where
  "last_bits rdr 0 val = Ret val"
| "last_bits rdr (Suc k) val =
     (let v = drop_bit 1 val; v' = (if br_Set rdr then v OR 0x80 else v)
      in obind (br_Next rdr) (\<lambda>rdr'. last_bits rdr' k v'))"

definition NextTrailingByte :: "BitmapWordReader \<Rightarrow> (byte \<times> nat \<times> BitmapWordReader) outcome" where
  "NextTrailingByte r =
     (if wr_trailingBits r \<le> 8
      then
        let validBits = wr_trailingBits r
        in obind (NewBitmapReader (wr_bitmap r) (wr_offset r) validBits) (\<lambda>rdr.
           obind (last_bits rdr validBits 0) (\<lambda>val.
           Ret (drop_bit (8 - validBits) val, validBits, r\<lparr>wr_trailingBits := 0\<rparr>)))
      else if length (wr_bitmap r) < 2 then Panic IndexOutOfRange
      else
        let bm = drop 1 (wr_bitmap r); nextByte = bm ! 0; o1 = wr_offset r; v = getLSB (wr_curword r)
        in Ret (if o1 \<noteq> 0 then drop_bit o1 v OR push_bit (8 - o1) nextByte else v, 8,
                r\<lparr>wr_bitmap := bm, wr_curword := setLSB (wr_curword r) nextByte, wr_trailingBits := wr_trailingBits r - 8,
                   wr_trailingBytes := wr_trailingBytes r - 1\<rparr>))"

record BitmapWordWriter =
  ww_before :: "byte list"
  ww_bitmap :: "byte list"
  ww_offset :: nat
  ww_len :: nat
  ww_bitMask :: u64
  ww_currentWord :: u64

definition NewBitmapWordWriter :: "byte list \<Rightarrow> nat \<Rightarrow> nat \<Rightarrow> BitmapWordWriter outcome" where
  "NewBitmapWordWriter bitmap start n =
     (if start div 8 > length bitmap then Panic IndexOutOfRange
      else
        let bm = drop (start div 8) bitmap; o1 = start mod 8
        in obind (if o1 \<noteq> 0
                  then if n \<ge> 64 then Uint64 bm
                       else if n > 0 then if bm = [] then Panic IndexOutOfRange else Ret (setLSB 0 (bm ! 0))
                       else Ret 0
                  else Ret 0) (\<lambda>cur.
           Ret \<lparr>ww_before = take (start div 8) bitmap, ww_bitmap = bm, ww_offset = o1, ww_len = n, ww_bitMask = push_bit o1 1 - 1,
                ww_currentWord = cur\<rparr>))"

definition PutNextWord :: "u64 \<Rightarrow> BitmapWordWriter \<Rightarrow> BitmapWordWriter outcome" where
  "PutNextWord word1 w =
     (let o1 = ww_offset w; m = ww_bitMask w; bm = ww_bitmap w in
      obind
        (if o1 \<noteq> 0
         then
           let word2 = push_bit o1 word1 OR drop_bit (64 - o1) word1
           in if length bm < 8 then Panic IndexOutOfRange
              else obind (Uint64 (drop 8 bm)) (\<lambda>next1.
                let cur = (ww_currentWord w AND m) OR (word2 AND NOT m);
                    next2 = (next1 AND NOT m) OR (word2 AND m)
                in obind (PutUint64 bm cur) (\<lambda>bm1.
                   obind (PutUint64 (drop 8 bm1) next2) (\<lambda>rest. Ret (take 8 bm1 @ rest, next2))))
         else obind (PutUint64 bm word1) (\<lambda>bm1. Ret (bm1, ww_currentWord w)))
        (\<lambda>(bm1, cur). Ret (w\<lparr>ww_before := ww_before w @ take 8 bm1, ww_bitmap := drop 8 bm1, ww_currentWord := cur\<rparr>)))"

fun put_bits :: "byte \<Rightarrow> nat \<Rightarrow> BitmapWriter \<Rightarrow> BitmapWriter outcome" where
  "put_bits b 0 wr = Ret wr"
| "put_bits b (Suc k) wr = obind (bw_Next (if b AND 1 \<noteq> 0 then bw_Set wr else bw_Clear wr)) (put_bits (drop_bit 1 b) k)"

definition PutNextTrailingByte :: "byte \<Rightarrow> nat \<Rightarrow> BitmapWordWriter \<Rightarrow> BitmapWordWriter outcome" where
  "PutNextTrailingByte b validBits w =
     (let o1 = ww_offset w; m = ucast (ww_bitMask w) :: byte; bm = ww_bitmap w; curbyte = getLSB (ww_currentWord w) in
      if validBits = 8
      then
        obind
          (if o1 \<noteq> 0
           then if length bm < 2 then Panic IndexOutOfRange
                else
                  let b2 = push_bit o1 b OR drop_bit (8 - o1) b;
                      curbyte2 = (curbyte AND m) OR (b2 AND NOT m);
                      next2 = (bm ! 1 AND NOT m) OR (b2 AND m)
                  in Ret (bm[0 := curbyte2, 1 := next2], ucast next2)
           else if bm = [] then Panic IndexOutOfRange else Ret (bm[0 := b], ww_currentWord w))
          (\<lambda>(bm1, cur). Ret (w\<lparr>ww_before := ww_before w @ take 1 bm1, ww_bitmap := drop 1 bm1, ww_currentWord := cur\<rparr>))
      else
        obind (NewBitmapWriter bm o1 validBits) (\<lambda>wr.
        obind (put_bits b validBits wr) (\<lambda>wr'.
        obind (bw_Finish wr') (\<lambda>wr''. Ret (w\<lparr>ww_bitmap := bw_buf wr''\<rparr>)))))"

subsection \<open>Copying\<close>

fun copy_words :: "nat \<Rightarrow> BitmapWordReader \<Rightarrow> BitmapWordWriter \<Rightarrow> (BitmapWordReader \<times> BitmapWordWriter) outcome" where
  "copy_words 0 r w = Ret (r, w)"
| "copy_words (Suc k) r w = obind (NextWord r) (\<lambda>(word1, r'). obind (PutNextWord word1 w) (copy_words k r'))"

fun copy_trailing :: "nat \<Rightarrow> BitmapWordReader \<Rightarrow> BitmapWordWriter \<Rightarrow> BitmapWordWriter outcome" where
  "copy_trailing 0 r w = Ret w"
| "copy_trailing (Suc k) r w =
     obind (NextTrailingByte r) (\<lambda>(bt, validBits, r'). obind (PutNextTrailingByte bt validBits w) (copy_trailing k r'))"

text \<open>\<^verbatim>\<open>copy\<close> stops at the end of the shorter slice. The two bitmaps do not share memory.\<close>

definition CopyBitmap :: "byte list \<Rightarrow> nat \<Rightarrow> nat \<Rightarrow> byte list \<Rightarrow> nat \<Rightarrow> byte list outcome" where
  "CopyBitmap src srcOffset n dst dstOffset =
     (if n = 0 then Ret dst
      else if srcOffset mod 8 \<noteq> 0 \<or> dstOffset mod 8 \<noteq> 0
      then
        obind (NewBitmapWordReader src srcOffset n) (\<lambda>rdr.
        obind (NewBitmapWordWriter dst dstOffset n) (\<lambda>wr.
        obind (copy_words (wr_nwords rdr) rdr wr) (\<lambda>(rdr', wr').
        obind (copy_trailing (wr_trailingBytes rdr') rdr' wr') (\<lambda>wr''.
        Ret (ww_before wr'' @ ww_bitmap wr'')))))
      else
        let nbytes = nat (BytesForBits (int n)); s = srcOffset div 8; d = dstOffset div 8
        in if s > length src \<or> d > length dst \<or> s + nbytes > length src then Panic IndexOutOfRange
           else
             let trailingBits = nbytes * 8 - n;
                 trailMask = push_bit (8 - trailingBits) 1 - 1 :: byte;
                 chunk = take (length dst - d) (take (nbytes - 1) (drop s src));
                 dst1 = take d dst @ chunk @ drop (d + length chunk) dst;
                 lastData = src ! (s + nbytes - 1)
             in if d + nbytes > length dst then Panic IndexOutOfRange
                else Ret (dst1[d + nbytes - 1 := (dst1 ! (d + nbytes - 1) AND NOT trailMask) OR (lastData AND trailMask)]))"


subsection \<open>Words in a buffer\<close>

lemma bit_at_append:
  "bit_at (xs @ ys) i = (if i < 8 * length xs then bit_at xs i else bit_at ys (i - 8 * length xs))"
proof -
  have "i div 8 < length xs \<longleftrightarrow> i < 8 * length xs" by auto
  moreover have "8 * length xs \<le> i \<Longrightarrow> (i - 8 * length xs) div 8 = i div 8 - length xs"
    "8 * length xs \<le> i \<Longrightarrow> (i - 8 * length xs) mod 8 = i mod 8" by (auto simp: le_iff_add)
  ultimately show ?thesis by (auto simp: bit_at_def nth_append)
qed

lemma bit_at_take: "i < 8 * n \<Longrightarrow> bit_at (take n bs) i = bit_at bs i"
  using bit_at_take_drop [of i n 0 bs] by simp

lemma Uint64_bits:
  assumes "8 \<le> length bs"
  shows "Uint64 bs = Ret (le_word (take 8 bs))" "j < 64 \<Longrightarrow> bit (le_word (take 8 bs)) j = bit_at bs j"
  using assms by (simp_all add: Uint64_def bit_le_word bit_at_take)

lemma PutUint64_bits:
  assumes "8 \<le> length bs"
  shows "\<exists>bs'. PutUint64 bs w = Ret bs' \<and> same_bits bs bs' (\<lambda>i. if i < 64 then bit w i else bit_at bs i)"
proof -
  let ?front = "map (\<lambda>k. ucast (drop_bit (8 * k) w)) [0..<8] :: byte list"
  have "bit_at ?front i = bit w i" if "i < 64" for i
  proof -
    have "i div 8 < 8" using that by simp
    then show ?thesis by (simp add: bit_at_def bit_simps)
  qed
  moreover have "bit_at (drop 8 bs) (i - 64) = bit_at bs i" if "64 \<le> i" for i
    using bit_at_drop [OF assms, of "i - 64"] that by simp
  ultimately show ?thesis using assms
    by (auto simp: PutUint64_def same_bits_def bit_at_append simp del: map_upt_eqI)
qed

lemma mask_word: "push_bit k 1 - 1 = (mask k :: 'a :: len word)"
  by (simp add: mask_eq_exp_minus_1)

lemma bit_mask_word: "bit (mask k :: 'a :: len word) j \<longleftrightarrow> j < k \<and> j < LENGTH('a)"
  by (auto simp: bit_mask_iff)

subsection \<open>Reading\<close>

text \<open>\<open>word_view r n\<close>: the current word holds the first \<open>n\<close> bits of the slice.\<close>

definition word_view :: "BitmapWordReader \<Rightarrow> nat \<Rightarrow> bool" where
  "word_view r n \<longleftrightarrow> wr_offset r < 8 \<and> (\<forall>j < n. bit (wr_curword r) j = bit_at (wr_bitmap r) j)"

lemma NextWord_bits:
  assumes "word_view r 64" "16 \<le> length (wr_bitmap r)"
  shows "\<exists>w r'. NextWord r = Ret (w, r') \<and> (\<forall>j < 64. bit w j = bit_at (wr_bitmap r) (wr_offset r + j)) \<and>
    word_view r' 64 \<and> wr_bitmap r' = drop 8 (wr_bitmap r) \<and> wr_offset r' = wr_offset r \<and> wr_trailingBits r' = wr_trailingBits r \<and>
    wr_trailingBytes r' = wr_trailingBytes r"
proof -
  let ?bm = "wr_bitmap r" and ?o = "wr_offset r"
  have l: "8 \<le> length (drop 8 ?bm)" "8 \<le> length ?bm" using assms(2) by simp_all
  let ?w = "if ?o \<noteq> 0 then drop_bit ?o (wr_curword r) OR push_bit (64 - ?o) (le_word (take 8 (drop 8 ?bm))) else wr_curword r"
  have "bit ?w j = bit_at ?bm (?o + j)" if "j < 64" for j
  proof (cases "?o + j < 64")
    case True
    then show ?thesis using assms(1) that by (auto simp: word_view_def bit_simps)
  next
    case False
    then have "?o + j - 64 < 64" "64 - ?o \<le> j" "j - (64 - ?o) = ?o + j - 64" using that assms(1) by (auto simp: word_view_def)
    then show ?thesis using False that bit_imp_le_length [of "wr_curword r" "?o + j"] bit_at_drop [OF l(2), of "?o + j - 64"]
        Uint64_bits(2) [OF l(1), of "?o + j - 64"]
      by (auto simp: bit_simps)
  qed
  then show ?thesis using assms l Uint64_bits [OF l(1)] by (auto simp: NextWord_def Let_def word_view_def)
qed

lemma getLSB_bits: "j < 8 \<Longrightarrow> bit (getLSB w) j = bit w j"
  by (simp add: getLSB_def bit_simps)

lemma setLSB_bits: "j < 8 \<Longrightarrow> bit (setLSB w b) j = bit b j"
  by (simp add: setLSB_def bit_simps)

lemma NextTrailingByte_full:
  assumes "word_view r 8" "2 \<le> length (wr_bitmap r)" "8 < wr_trailingBits r"
  shows "\<exists>v r'. NextTrailingByte r = Ret (v, 8, r') \<and> (\<forall>j < 8. bit v j = bit_at (wr_bitmap r) (wr_offset r + j)) \<and>
    word_view r' 8 \<and> wr_bitmap r' = drop 1 (wr_bitmap r) \<and> wr_offset r' = wr_offset r \<and>
    wr_trailingBits r' = wr_trailingBits r - 8"
proof -
  let ?bm = "wr_bitmap r" and ?o = "wr_offset r" and ?v = "getLSB (wr_curword r)"
  let ?w = "if ?o \<noteq> 0 then drop_bit ?o ?v OR push_bit (8 - ?o) (drop 1 ?bm ! 0) else ?v"
  have "bit ?w j = bit_at ?bm (?o + j)" if "j < 8" for j
  proof (cases "?o + j < 8")
    case True
    then show ?thesis using assms(1) that getLSB_bits [of "?o + j"] by (auto simp: word_view_def bit_simps)
  next
    case False
    then have "?o + j - 8 < 8" "8 - ?o \<le> j" "j - (8 - ?o) = ?o + j - 8" "(?o + j) div 8 = 1" "(?o + j) mod 8 = ?o + j - 8"
      using that assms(1) by (auto simp: word_view_def mod_if)
    then show ?thesis using False that bit_imp_le_length [of ?v "?o + j"] assms(2)
      by (auto simp: bit_simps bit_at_def)
  qed
  then show ?thesis using assms
    by (auto simp: NextTrailingByte_def Let_def word_view_def setLSB_bits bit_at_def)
qed


text \<open>A bit reader at bit \<open>q\<close> of its bitmap.\<close>

definition at_bit :: "BitmapReader \<Rightarrow> nat \<Rightarrow> bool" where
  "at_bit r q \<longleftrightarrow> br_bitOffset r = q mod 8 \<and> br_byteOffset r = q div 8 \<and>
     (br_pos r < br_len r \<longrightarrow> br_current r = br_bitmap r ! (q div 8) \<and> q + (br_len r - br_pos r) \<le> 8 * length (br_bitmap r))"

lemma br_Set_bit: "at_bit r q \<Longrightarrow> br_pos r < br_len r \<Longrightarrow> br_Set r \<longleftrightarrow> bit_at (br_bitmap r) q"
  by (simp add: at_bit_def br_Set_def bit_at_def bit_iff_and_push_bit_not_eq_0)

lemma next_byte: "q mod 8 = 7 \<Longrightarrow> Suc q < 8 * n \<Longrightarrow> Suc (q div 8) < (n :: nat)"
  using div_mult_mod_eq [of q 8] by linarith

lemma br_Next_bit:
  assumes "at_bit r q" "br_pos r < br_len r"
  shows "\<exists>r'. br_Next r = Ret r' \<and> at_bit r' (Suc q) \<and> br_pos r' = Suc (br_pos r) \<and> br_len r' = br_len r \<and> br_bitmap r' = br_bitmap r"
proof (cases "Suc (q mod 8) = 8")
  case True
  then have "Suc q mod 8 = 0" "Suc q div 8 = Suc (q div 8)" by (simp_all add: mod_Suc div_Suc)
  moreover have "Suc (q div 8) < length (br_bitmap r)" if "Suc (br_pos r) < br_len r"
    using assms that True by (intro next_byte) (auto simp: at_bit_def)
  ultimately show ?thesis using assms True by (auto simp: br_Next_def at_bit_def Let_def)
next
  case False
  then have "Suc q mod 8 = Suc (q mod 8)" "Suc q div 8 = q div 8" by (simp_all add: mod_Suc div_Suc)
  then show ?thesis using assms False by (auto simp: br_Next_def at_bit_def Let_def)
qed

lemma last_bits_bits:
  "at_bit r q \<Longrightarrow> br_pos r + k = br_len r \<Longrightarrow> k \<le> 8 \<Longrightarrow>
   \<exists>v. last_bits r k val = Ret v \<and>
     (\<forall>j < 8. bit v j = (if j + k < 8 then bit val (j + k) else bit_at (br_bitmap r) (q + (j + k - 8))))"
proof (induction k arbitrary: r q val)
  case (Suc k)
  then have lt: "br_pos r < br_len r" by simp
  let ?v = "if br_Set r then drop_bit 1 val OR 0x80 else drop_bit 1 val"
  have "bit (0x80 :: byte) j \<longleftrightarrow> j = 7" if "j < 8" for j
    using mask_bits(1) [of 7 j] that by (simp add: BitMask_def)
  then have v: "bit ?v j = (if j = 7 then bit_at (br_bitmap r) q else bit val (Suc j))" if "j < 8" for j
    using that br_Set_bit [OF Suc.prems(1) lt] bit_imp_le_length [of val 8] by (auto simp: bit_simps)
  obtain r' where r': "br_Next r = Ret r'" "at_bit r' (Suc q)" "br_pos r' = Suc (br_pos r)" "br_len r' = br_len r"
    "br_bitmap r' = br_bitmap r"
    using br_Next_bit [OF Suc.prems(1) lt] by blast
  obtain v' where v': "last_bits r' k ?v = Ret v'"
    "\<forall>j < 8. bit v' j = (if j + k < 8 then bit ?v (j + k) else bit_at (br_bitmap r) (Suc q + (j + k - 8)))"
    using Suc.IH [OF r'(2), of ?v] Suc.prems(2,3) r'(3-5) by auto
  have "bit v' j = (if j + Suc k < 8 then bit val (j + Suc k) else bit_at (br_bitmap r) (q + (j + Suc k - 8)))" if "j < 8" for j
  proof -
    consider "j + k < 7" | "j + k = 7" | "8 \<le> j + k" by linarith
    then show ?thesis
    proof cases
      case 3
      then have "Suc q + (j + k - 8) = q + (j + Suc k - 8)" by simp
      then show ?thesis using v'(2) that 3 by simp
    qed (use v'(2) that v [of "j + k"] in simp_all)
  qed
  then show ?case using r'(1) v'(1) by (auto simp: Let_def)
qed simp

lemma NextTrailingByte_last:
  assumes "wr_offset r < 8" "0 < wr_trailingBits r" "wr_trailingBits r \<le> 8"
    and "wr_offset r + wr_trailingBits r \<le> 8 * length (wr_bitmap r)"
  shows "\<exists>v. NextTrailingByte r = Ret (v, wr_trailingBits r, r\<lparr>wr_trailingBits := 0\<rparr>) \<and>
    (\<forall>j < wr_trailingBits r. bit v j = bit_at (wr_bitmap r) (wr_offset r + j))"
proof -
  let ?bm = "wr_bitmap r" and ?o = "wr_offset r" and ?t = "wr_trailingBits r"
  have l: "0 < length ?bm" using assms by auto
  obtain rdr where rdr: "NewBitmapReader ?bm ?o ?t = Ret rdr" "at_bit rdr ?o" "br_pos rdr + ?t = br_len rdr" "br_bitmap rdr = ?bm"
    using assms l by (auto simp: NewBitmapReader_def at_bit_def)
  obtain v where v: "last_bits rdr ?t 0 = Ret v"
    "\<forall>j < 8. bit v j = (if j + ?t < 8 then bit (0 :: byte) (j + ?t) else bit_at ?bm (?o + (j + ?t - 8)))"
    using last_bits_bits [OF rdr(2,3) assms(3), of 0] rdr(4) by auto
  have "bit (drop_bit (8 - ?t) v) j = bit_at ?bm (?o + j)" if "j < ?t" for j
  proof -
    have "8 - ?t + j < 8" "\<not> 8 - ?t + j + ?t < 8" "8 - ?t + j + ?t - 8 = j" using that assms(3) by auto
    then show ?thesis using v(2) by (simp add: bit_simps)
  qed
  then show ?thesis using rdr(1) v(1) assms(3) by (auto simp: NextTrailingByte_def Let_def)
qed

subsection \<open>Writing single bits\<close>

text \<open>The buffer as it will be when the current byte has been written.\<close>

definition bw_view :: "BitmapWriter \<Rightarrow> byte list" where
  "bw_view w =
     (if bw_bitMask w \<noteq> 1 \<or> bw_pos w < bw_length w then (bw_buf w)[bw_byteOffset w := bw_curByte w] else bw_buf w)"

definition bw_at :: "BitmapWriter \<Rightarrow> nat \<Rightarrow> bool" where
  "bw_at w q \<longleftrightarrow> bw_bitMask w = BitMask ! (q mod 8) \<and> bw_byteOffset w = q div 8 \<and> bw_pos w \<le> bw_length w \<and>
     q + (bw_length w - bw_pos w) \<le> 8 * length (bw_buf w)"

lemma BitMask_Suc: "k < 7 \<Longrightarrow> push_bit 1 (BitMask ! k) = BitMask ! Suc k" "k < 7 \<Longrightarrow> BitMask ! Suc k \<noteq> 0"
  "push_bit 1 (BitMask ! 7) = 0"
proof -
  have "list_all (\<lambda>k. push_bit 1 (BitMask ! k) = BitMask ! Suc k \<and> BitMask ! Suc k \<noteq> 0) [0..<7]" by code_simp
  then show "k < 7 \<Longrightarrow> push_bit 1 (BitMask ! k) = BitMask ! Suc k" "k < 7 \<Longrightarrow> BitMask ! Suc k \<noteq> 0"
    by (simp_all add: list_all_iff)
  show "push_bit 1 (BitMask ! 7) = 0" by code_simp
qed

lemma BitMask_one: "k < 8 \<Longrightarrow> BitMask ! k = 1 \<longleftrightarrow> k = 0"
proof -
  have "list_all (\<lambda>k. BitMask ! k = 1 \<longleftrightarrow> k = 0) [0..<8]" by code_simp
  then show "k < 8 \<Longrightarrow> BitMask ! k = 1 \<longleftrightarrow> k = 0" by (simp add: list_all_iff)
qed


definition bw_Put :: "bool \<Rightarrow> BitmapWriter \<Rightarrow> BitmapWriter" where
  "bw_Put b w = (if b then bw_Set w else bw_Clear w)"

lemma bw_Put_bits:
  assumes "bw_at w q" "bw_pos w < bw_length w"
  shows "bw_at (bw_Put b w) q" "bw_pos (bw_Put b w) = bw_pos w" "bw_length (bw_Put b w) = bw_length w"
    "same_bits (bw_view w) (bw_view (bw_Put b w)) (\<lambda>i. if i = q then b else bit_at (bw_view w) i)"
proof -
  have k: "q div 8 < length (bw_buf w)" using assms by (auto simp: bw_at_def)
  have eq: "i = q \<longleftrightarrow> i div 8 = q div 8 \<and> i mod 8 = q mod 8" for i by (metis div_mult_mod_eq)
  show "same_bits (bw_view w) (bw_view (bw_Put b w)) (\<lambda>i. if i = q then b else bit_at (bw_view w) i)"
    using assms k by (auto simp: bw_view_def bw_Put_def bw_Set_def bw_Clear_def bw_at_def same_bits_def bit_at_update bit_simps
        mask_bits(1) eq)
qed (use assms in \<open>auto simp: bw_Put_def bw_Set_def bw_Clear_def bw_at_def\<close>)

lemma list_update_other: "i \<noteq> j \<Longrightarrow> xs[i := x, j := xs ! j] = xs[i := x]"
  by (metis list_update_id nth_list_update_neq)

lemma bw_Next_view:
  assumes "bw_at w q" "bw_pos w < bw_length w"
  shows "\<exists>w'. bw_Next w = Ret w' \<and> bw_at w' (Suc q) \<and> bw_pos w' = Suc (bw_pos w) \<and> bw_length w' = bw_length w \<and>
    bw_view w' = bw_view w"
proof (cases "q mod 8 = 7")
  case True
  then have s: "Suc q mod 8 = 0" "Suc q div 8 = Suc (q div 8)" by (simp_all add: mod_Suc div_Suc)
  have "q div 8 < length (bw_buf w)" using assms by (auto simp: bw_at_def)
  moreover have "Suc (q div 8) < length (bw_buf w)" if "Suc (bw_pos w) < bw_length w"
    using assms that True by (intro next_byte) (auto simp: bw_at_def)
  moreover have "BitMask ! 0 = 1" by (simp add: BitMask_def)
  ultimately show ?thesis using assms True s BitMask_Suc(3) by (auto simp: bw_Next_def bw_at_def bw_view_def Let_def list_update_other)
next
  case False
  then have l: "q mod 8 < 7" using mod_less_divisor [of 8 q] by linarith
  then have s: "Suc q mod 8 = Suc (q mod 8)" "Suc q div 8 = q div 8" by (simp_all add: mod_Suc div_Suc)
  have "BitMask ! Suc (q mod 8) \<noteq> 1" using BitMask_one [of "Suc (q mod 8)"] l by simp
  then show ?thesis using assms s BitMask_Suc(1,2) [OF l] by (auto simp: bw_Next_def bw_at_def bw_view_def Let_def)
qed

lemma put_bits_bits:
  "bw_at w q \<Longrightarrow> bw_pos w + k \<le> bw_length w \<Longrightarrow>
   \<exists>w'. put_bits b k w = Ret w' \<and> bw_at w' (q + k) \<and> bw_length w' = bw_length w \<and> bw_pos w' = bw_pos w + k \<and>
     same_bits (bw_view w) (bw_view w') (\<lambda>i. if q \<le> i \<and> i < q + k then bit b (i - q) else bit_at (bw_view w) i)"
proof (induction k arbitrary: w q b)
  case 0
  then show ?case by (auto simp: same_bits_def)
next
  case (Suc k)
  then have lt: "bw_pos w < bw_length w" by simp
  have b0: "b AND 1 \<noteq> 0 \<longleftrightarrow> bit b 0" using bit_iff_and_push_bit_not_eq_0 [of b 0] by simp
  note p = bw_Put_bits [OF Suc.prems(1) lt, of "bit b 0"]
  obtain w1 where w1: "bw_Next (bw_Put (bit b 0) w) = Ret w1" "bw_at w1 (Suc q)" "bw_pos w1 = Suc (bw_pos w)"
    "bw_length w1 = bw_length w" "bw_view w1 = bw_view (bw_Put (bit b 0) w)"
    using bw_Next_view [OF p(1)] p lt by auto
  obtain w' where w': "put_bits (drop_bit 1 b) k w1 = Ret w'" "bw_at w' (Suc q + k)" "bw_length w' = bw_length w1"
    "bw_pos w' = bw_pos w1 + k" "same_bits (bw_view w1) (bw_view w')
       (\<lambda>i. if Suc q \<le> i \<and> i < Suc q + k then bit (drop_bit 1 b) (i - Suc q) else bit_at (bw_view w1) i)"
    using Suc.IH [OF w1(2), of "drop_bit 1 b"] Suc.prems(2) w1(3,4) by auto
  have "same_bits (bw_view w) (bw_view w') (\<lambda>i. if q \<le> i \<and> i < q + Suc k then bit b (i - q) else bit_at (bw_view w) i)"
    by (rule same_bits_trans [OF p(4) [folded w1(5)] w'(5)])
      (use p(4) w1(5) in \<open>auto simp: bit_simps Suc_diff_Suc same_bits_def\<close>)
  then show ?case using w1 w' b0 by (auto simp: bw_Put_def)
qed

lemma bw_Finish_view:
  assumes "bw_at w q" "0 < bw_length w"
  shows "\<exists>w'. bw_Finish w = Ret w' \<and> bw_buf w' = bw_view w"
proof -
  have "q div 8 < length (bw_buf w)" if "bw_bitMask w \<noteq> 1 \<or> bw_pos w < bw_length w"
  proof (cases "bw_pos w < bw_length w")
    case False
    then have "q mod 8 \<noteq> 0" by (rule_tac ccontr) (use that assms BitMask_one [of 0] in \<open>simp add: bw_at_def\<close>)
    moreover have "q \<le> 8 * length (bw_buf w)" using assms by (auto simp: bw_at_def)
    ultimately show ?thesis using div_mult_mod_eq [of q 8] by linarith
  qed (use assms in \<open>auto simp: bw_at_def\<close>)
  then show ?thesis using assms by (auto simp: bw_Finish_def bw_view_def bw_at_def)
qed

lemma NewBitmapWriter_view:
  assumes "start + n \<le> 8 * length bm" "0 < n"
  shows "\<exists>w. NewBitmapWriter bm start n = Ret w \<and> bw_at w start \<and> bw_pos w = 0 \<and> bw_length w = n \<and> bw_view w = bm"
proof -
  have "start div 8 < length bm" using assms by auto
  then show ?thesis using assms
    by (auto simp: NewBitmapWriter_def bw_Reset_def bw_at_def bw_view_def Let_def)
qed


subsection \<open>Writing words\<close>

definition ww_total :: "BitmapWordWriter \<Rightarrow> byte list" where
  "ww_total w = ww_before w @ ww_bitmap w"

definition ww_pos :: "BitmapWordWriter \<Rightarrow> nat" where
  "ww_pos w = 8 * length (ww_before w) + ww_offset w"

text \<open>The current word holds the bits before the position in the first byte of the slice.\<close>

definition ww_ok :: "BitmapWordWriter \<Rightarrow> bool" where
  "ww_ok w \<longleftrightarrow> ww_offset w < 8 \<and> ww_bitMask w = mask (ww_offset w) \<and>
     (\<forall>i < ww_offset w. bit (ww_currentWord w) i = bit_at (ww_bitmap w) i)"

text \<open>Writing into the slice writes into the whole buffer, whose slice moves on by \<open>n\<close> bytes.\<close>

lemma same_bits_total:
  assumes "same_bits (ww_bitmap w) bm (\<lambda>i. if ww_offset w \<le> i \<and> i < ww_offset w + k then f (i - ww_offset w) else bit_at (ww_bitmap w) i)"
    and "ww_before w' = ww_before w @ take n bm" "ww_bitmap w' = drop n bm" "ww_offset w' = ww_offset w"
    and "n \<le> length (ww_bitmap w)"
  shows "same_bits (ww_total w) (ww_total w') (\<lambda>i. if ww_pos w \<le> i \<and> i < ww_pos w + k then f (i - ww_pos w) else bit_at (ww_total w) i)"
    "ww_pos w' = ww_pos w + 8 * n"
proof -
  have l: "length bm = length (ww_bitmap w)" using assms(1) by (simp add: same_bits_def)
  have "bit_at bm (i - 8 * length (ww_before w)) = (if ww_pos w \<le> i \<and> i < ww_pos w + k then f (i - ww_pos w)
      else bit_at (ww_bitmap w) (i - 8 * length (ww_before w)))"
    if "8 * length (ww_before w) \<le> i" "i < 8 * length (ww_before w) + 8 * length (ww_bitmap w)" for i
  proof -
    let ?j = "i - 8 * length (ww_before w)"
    have "?j < 8 * length (ww_bitmap w)" "ww_pos w \<le> i \<longleftrightarrow> ww_offset w \<le> ?j" "i < ww_pos w + k \<longleftrightarrow> ?j < ww_offset w + k"
      "i - ww_pos w = ?j - ww_offset w" using that by (auto simp: ww_pos_def)
    then show ?thesis using assms(1) by (simp add: same_bits_def)
  qed
  then show "same_bits (ww_total w) (ww_total w') (\<lambda>i. if ww_pos w \<le> i \<and> i < ww_pos w + k then f (i - ww_pos w) else bit_at (ww_total w) i)"
    using l assms(2,3) by (auto simp: same_bits_def ww_total_def bit_at_append ww_pos_def)
  show "ww_pos w' = ww_pos w + 8 * n" using l assms(2,4,5) by (simp add: ww_pos_def)
qed

lemma PutNextWord_bits:
  assumes "ww_ok w" "8 \<le> length (ww_bitmap w)" "ww_offset w \<noteq> 0 \<Longrightarrow> 16 \<le> length (ww_bitmap w)"
  shows "\<exists>w'. PutNextWord x w = Ret w' \<and> ww_ok w' \<and> ww_offset w' = ww_offset w \<and> ww_pos w' = ww_pos w + 64 \<and>
    length (ww_bitmap w') + 8 = length (ww_bitmap w) \<and>
    same_bits (ww_total w) (ww_total w') (\<lambda>i. if ww_pos w \<le> i \<and> i < ww_pos w + 64 then bit x (i - ww_pos w) else bit_at (ww_total w) i)"
proof (cases "ww_offset w = 0")
  case True
  obtain bm where bm: "PutUint64 (ww_bitmap w) x = Ret bm" "same_bits (ww_bitmap w) bm (\<lambda>i. if i < 64 then bit x i else bit_at (ww_bitmap w) i)"
    using PutUint64_bits [OF assms(2)] by blast
  let ?w = "w\<lparr>ww_before := ww_before w @ take 8 bm, ww_bitmap := drop 8 bm\<rparr>"
  have "PutNextWord x w = Ret ?w" using True bm(1) by (simp add: PutNextWord_def)
  moreover have "ww_ok ?w" using assms(1) True by (simp add: ww_ok_def)
  moreover have "length (drop 8 bm) + 8 = length (ww_bitmap w)" using bm(2) assms(2) by (simp add: same_bits_def)
  moreover have sb: "same_bits (ww_bitmap w) bm (\<lambda>i. if ww_offset w \<le> i \<and> i < ww_offset w + 64 then bit x (i - ww_offset w)
      else bit_at (ww_bitmap w) i)" using bm(2) True by (simp add: same_bits_def)
  ultimately show ?thesis using same_bits_total [OF sb, of ?w 8] assms(2) by simp
next
  case False
  let ?o = "ww_offset w" and ?bm = "ww_bitmap w" and ?m = "ww_bitMask w"
  let ?x = "push_bit ?o x OR drop_bit (64 - ?o) x"
  let ?cur = "(ww_currentWord w AND ?m) OR (?x AND NOT ?m)"
  let ?next = "(le_word (take 8 (drop 8 ?bm)) AND NOT ?m) OR (?x AND ?m)"
  have o8: "?o < 8" and m: "\<And>j. bit ?m j \<longleftrightarrow> j < ?o \<and> j < 64" using assms(1) by (auto simp: ww_ok_def bit_mask_word)
  have l: "8 \<le> length (drop 8 ?bm)" using assms(3) False by simp
  obtain bm1 where bm1: "PutUint64 ?bm ?cur = Ret bm1" "same_bits ?bm bm1 (\<lambda>i. if i < 64 then bit ?cur i else bit_at ?bm i)"
    using PutUint64_bits [OF assms(2)] by blast
  have l1: "length bm1 = length ?bm" "8 \<le> length (drop 8 bm1)" using bm1(2) l by (simp_all add: same_bits_def)
  obtain r where r: "PutUint64 (drop 8 bm1) ?next = Ret r"
    "same_bits (drop 8 bm1) r (\<lambda>i. if i < 64 then bit ?next i else bit_at (drop 8 bm1) i)"
    using PutUint64_bits [OF l1(2)] by blast
  let ?b = "take 8 bm1 @ r"
  let ?w = "w\<lparr>ww_before := ww_before w @ take 8 ?b, ww_bitmap := drop 8 ?b, ww_currentWord := ?next\<rparr>"
  have lr: "length r + 8 = length ?bm" using r(2) l1 l by (simp add: same_bits_def)
  have put: "PutNextWord x w = Ret ?w" using False bm1(1) r(1) l assms(2) Uint64_bits(1) [OF l] l1
    by (simp add: PutNextWord_def Let_def)
  have cur: "bit ?cur i = (if i < ?o then bit_at ?bm i else bit x (i - ?o))" if "i < 64" for i
    using that assms(1) o8 m bit_imp_le_length [of x "64 - ?o + i"] by (auto simp: bit_simps ww_ok_def)
  have nxt: "bit ?next i = (if i < ?o then bit x (64 - ?o + i) else bit_at ?bm (64 + i))" if "i < 64" for i
    using that o8 m Uint64_bits(2) [OF l that] bit_at_drop [OF assms(2), of i] by (auto simp: bit_simps)
  have "bit_at ?b i = (if ?o \<le> i \<and> i < ?o + 64 then bit x (i - ?o) else bit_at ?bm i)" if "i < 8 * length ?bm" for i
  proof -
    consider "i < 64" | "64 \<le> i" "i < 128" | "128 \<le> i" by linarith
    then show ?thesis
    proof cases
      case 1
      then show ?thesis using cur [OF 1] bm1(2) that l1 assms(2) o8 by (simp add: bit_at_append bit_at_take same_bits_def)
    next
      case 2
      then have "i - 64 < 64" by simp
      with 2 have "bit_at ?b i = bit ?next (i - 64)" "64 - ?o + (i - 64) = i - ?o" "64 + (i - 64) = i"
        using r(2) lr l1 assms(2) that o8 by (simp_all add: bit_at_append same_bits_def)
      then show ?thesis using nxt [of "i - 64"] 2 o8 by auto
    next
      case 3
      then have "\<not> i - 64 < 64" by simp
      with 3 have "bit_at ?b i = bit_at (drop 8 bm1) (i - 64)" using r(2) lr l1 assms(2) that by (simp add: bit_at_append same_bits_def)
      also have "\<dots> = bit_at bm1 i" using bit_at_drop [of 8 bm1 "i - 64"] l1 assms(2) 3 by simp
      finally show ?thesis using 3 bm1(2) that o8 by (simp add: same_bits_def)
    qed
  qed
  then have sb: "same_bits ?bm ?b (\<lambda>i. if ?o \<le> i \<and> i < ?o + 64 then bit x (i - ?o) else bit_at ?bm i)"
    using lr l1 assms(2) by (simp add: same_bits_def)
  have "bit ?next i = bit_at (drop 8 ?b) i" if "i < ?o" for i
    using r(2) that o8 l1 by (simp add: same_bits_def)
  then have "ww_ok ?w" using assms(1) by (simp add: ww_ok_def)
  then show ?thesis using put same_bits_total [OF sb, of ?w 8] assms(2) lr l1 by simp
qed


lemma PutNextTrailingByte_bits:
  assumes "ww_ok w" "0 < v" "v \<le> 8" "ww_offset w + v \<le> 8 * length (ww_bitmap w)"
  shows "\<exists>w'. PutNextTrailingByte b v w = Ret w' \<and>
    same_bits (ww_total w) (ww_total w') (\<lambda>i. if ww_pos w \<le> i \<and> i < ww_pos w + v then bit b (i - ww_pos w) else bit_at (ww_total w) i) \<and>
    (v = 8 \<longrightarrow> ww_ok w' \<and> ww_offset w' = ww_offset w \<and> ww_pos w' = ww_pos w + 8 \<and> length (ww_bitmap w') + 1 = length (ww_bitmap w))"
proof (cases "v = 8")
  case False
  let ?bm = "ww_bitmap w" and ?o = "ww_offset w"
  obtain wr where wr: "NewBitmapWriter ?bm ?o v = Ret wr" "bw_at wr ?o" "bw_pos wr = 0" "bw_length wr = v" "bw_view wr = ?bm"
    using NewBitmapWriter_view [OF assms(4,2)] by blast
  obtain wr1 where wr1: "put_bits b v wr = Ret wr1" "bw_at wr1 (?o + v)" "bw_length wr1 = v"
    "same_bits ?bm (bw_view wr1) (\<lambda>i. if ?o \<le> i \<and> i < ?o + v then bit b (i - ?o) else bit_at ?bm i)"
    using put_bits_bits [OF wr(2), of v b] unfolding wr(3,4,5) by auto
  obtain wr2 where wr2: "bw_Finish wr1 = Ret wr2" "bw_buf wr2 = bw_view wr1"
    using bw_Finish_view [OF wr1(2)] wr1(3) assms(2) by auto
  let ?w = "w\<lparr>ww_bitmap := bw_view wr1\<rparr>"
  have "PutNextTrailingByte b v w = Ret ?w" using False wr(1) wr1(1) wr2 by (simp add: PutNextTrailingByte_def Let_def)
  then show ?thesis using False same_bits_total(1) [OF wr1(4), of ?w 0] by simp
next
  case v8: True
  let ?bm = "ww_bitmap w" and ?o = "ww_offset w"
  have ne: "0 < length ?bm" using assms by auto
  have o8: "?o < 8" using assms(1) by (simp add: ww_ok_def)
  obtain bm cur where bm: "PutNextTrailingByte b v w =
      Ret (w\<lparr>ww_before := ww_before w @ take 1 bm, ww_bitmap := drop 1 bm, ww_currentWord := cur\<rparr>)"
    "same_bits ?bm bm (\<lambda>i. if ?o \<le> i \<and> i < ?o + 8 then bit b (i - ?o) else bit_at ?bm i)"
    "\<forall>i < ?o. bit cur i = bit_at (drop 1 bm) i"
  proof (cases "?o = 0")
    case True
    have "same_bits ?bm (?bm[0 := b]) (\<lambda>i. if ?o \<le> i \<and> i < ?o + 8 then bit b (i - ?o) else bit_at ?bm i)"
      using ne True by (auto simp: same_bits_def bit_at_update)
    then show ?thesis using that [where bm = "?bm[0 := b]" and cur = "ww_currentWord w"] v8 True ne by (simp add: PutNextTrailingByte_def Let_def)
  next
    case False
    then have l2: "2 \<le> length ?bm" using assms v8 by simp
    let ?m = "ucast (ww_bitMask w) :: byte" and ?b = "push_bit ?o b OR drop_bit (8 - ?o) b"
    let ?cur = "(getLSB (ww_currentWord w) AND ?m) OR (?b AND NOT ?m)" and ?next = "(?bm ! 1 AND NOT ?m) OR (?b AND ?m)"
    let ?bm1 = "?bm[0 := ?cur, 1 := ?next]"
    have m: "bit ?m j \<longleftrightarrow> j < ?o" if "j < 8" for j using that assms(1) by (auto simp: ww_ok_def bit_mask_word bit_simps)
    have cur: "bit ?cur i = (if i < ?o then bit_at ?bm i else bit b (i - ?o))" if "i < 8" for i
      using that assms(1) o8 m [OF that] getLSB_bits [of i] bit_imp_le_length [of b "8 - ?o + i"] by (auto simp: bit_simps ww_ok_def)
    have nxt: "bit ?next i = (if i < ?o then bit b (8 - ?o + i) else bit (?bm ! 1) i)" if "i < 8" for i
      using that o8 m [OF that] by (auto simp: bit_simps)
    have "bit_at ?bm1 i = (if ?o \<le> i \<and> i < ?o + 8 then bit b (i - ?o) else bit_at ?bm i)" if "i < 8 * length ?bm" for i
    proof -
      consider "i < 8" | "8 \<le> i" "i < 16" | "16 \<le> i" by linarith
      then show ?thesis
      proof cases
        case 1
        then show ?thesis using cur [OF 1] ne by (simp add: bit_at_def)
      next
        case 2
        then have d: "i div 8 = 1" "i mod 8 = i - 8" "8 - ?o + (i - 8) = i - ?o" using o8 by (auto simp: div_if mod_if)
        then show ?thesis using nxt [of "i - 8"] 2 l2 o8 by (auto simp: bit_at_def)
      next
        case 3
        then have "i div 8 \<noteq> 0" "i div 8 \<noteq> 1" by auto
        then show ?thesis using l2 o8 3 by (simp add: bit_at_update bit_at_def)
      qed
    qed
    then have "same_bits ?bm ?bm1 (\<lambda>i. if ?o \<le> i \<and> i < ?o + 8 then bit b (i - ?o) else bit_at ?bm i)"
      by (simp add: same_bits_def)
    moreover have "\<forall>i < ?o. bit (ucast ?next :: u64) i = bit_at (drop 1 ?bm1) i"
      using l2 o8 by (auto simp: bit_at_def bit_ucast_iff)
    ultimately show ?thesis
      using that [where bm = ?bm1 and cur = "ucast ?next"] v8 False l2 by (simp add: PutNextTrailingByte_def Let_def)
  qed
  let ?w = "w\<lparr>ww_before := ww_before w @ take 1 bm, ww_bitmap := drop 1 bm, ww_currentWord := cur\<rparr>"
  have "ww_ok ?w" using assms(1) bm(3) by (simp add: ww_ok_def)
  moreover have "length (drop 1 bm) + 1 = length ?bm" using bm(2) ne by (simp add: same_bits_def)
  ultimately show ?thesis using bm(1) same_bits_total [OF bm(2), of ?w 1] ne v8 by simp
qed

subsection \<open>\<open>CopyBitmap\<close> copies\<close>

lemma BytesForBits_nat: "nat (BytesForBits (int n)) = (n + 7) div 8"
proof -
  have "BytesForBits (int n) = int ((n + 7) div 8)" by (simp add: BytesForBits_def drop_bit_eq_div zdiv_int)
  then show ?thesis by simp
qed

lemma copy_trailing_bits:
  "wr_trailingBits r = t \<Longrightarrow> k = (t + 7) div 8 \<Longrightarrow> word_view r 8 \<Longrightarrow> wr_offset r + t \<le> 8 * length (wr_bitmap r) \<Longrightarrow>
   ww_ok w \<Longrightarrow> ww_offset w + t \<le> 8 * length (ww_bitmap w) \<Longrightarrow>
   \<exists>w'. copy_trailing k r w = Ret w' \<and> same_bits (ww_total w) (ww_total w')
     (\<lambda>i. if ww_pos w \<le> i \<and> i < ww_pos w + t then bit_at (wr_bitmap r) (wr_offset r + (i - ww_pos w)) else bit_at (ww_total w) i)"
proof (induction k arbitrary: r w t)
  case 0
  then show ?case by (auto simp: same_bits_def)
next
  case (Suc k)
  have o8: "wr_offset r < 8" using Suc.prems(3) by (simp add: word_view_def)
  show ?case
  proof (cases "t \<le> 8")
    case True
    then have k: "k = 0" and t: "0 < t" using Suc.prems(2) by auto
    obtain v where v: "NextTrailingByte r = Ret (v, t, r\<lparr>wr_trailingBits := 0\<rparr>)"
      "\<forall>j < t. bit v j = bit_at (wr_bitmap r) (wr_offset r + j)"
      using NextTrailingByte_last [of r] o8 t True Suc.prems(1,4) by auto
    obtain w' where w': "PutNextTrailingByte v t w = Ret w'" "same_bits (ww_total w) (ww_total w')
        (\<lambda>i. if ww_pos w \<le> i \<and> i < ww_pos w + t then bit v (i - ww_pos w) else bit_at (ww_total w) i)"
      using PutNextTrailingByte_bits [OF Suc.prems(5) t True Suc.prems(6), of v] by blast
    then show ?thesis using k v by (auto simp: same_bits_def)
  next
    case False
    then have k: "k = (t - 8 + 7) div 8" using Suc.prems(2) by (simp add: div_if)
    have "2 \<le> length (wr_bitmap r)" "8 < wr_trailingBits r" using False Suc.prems(1,4) by auto
    then obtain v r' where v: "NextTrailingByte r = Ret (v, 8, r')"
      "\<forall>j < 8. bit v j = bit_at (wr_bitmap r) (wr_offset r + j)" "word_view r' 8"
      "wr_bitmap r' = drop 1 (wr_bitmap r)" "wr_offset r' = wr_offset r" "wr_trailingBits r' = t - 8"
      using NextTrailingByte_full [OF Suc.prems(3)] Suc.prems(1) by blast
    obtain w1 where w1: "PutNextTrailingByte v 8 w = Ret w1" "same_bits (ww_total w) (ww_total w1)
        (\<lambda>i. if ww_pos w \<le> i \<and> i < ww_pos w + 8 then bit v (i - ww_pos w) else bit_at (ww_total w) i)"
      "ww_ok w1" "ww_offset w1 = ww_offset w" "ww_pos w1 = ww_pos w + 8" "length (ww_bitmap w1) + 1 = length (ww_bitmap w)"
      using PutNextTrailingByte_bits [OF Suc.prems(5), of 8 v] Suc.prems(6) False by auto
    have "wr_offset r' + (t - 8) \<le> 8 * length (wr_bitmap r')" "ww_offset w1 + (t - 8) \<le> 8 * length (ww_bitmap w1)"
      using v(4,5) w1(4,6) Suc.prems(4,6) False by auto
    then obtain w' where w': "copy_trailing k r' w1 = Ret w'" "same_bits (ww_total w1) (ww_total w')
        (\<lambda>i. if ww_pos w1 \<le> i \<and> i < ww_pos w1 + (t - 8) then bit_at (wr_bitmap r') (wr_offset r' + (i - ww_pos w1)) else bit_at (ww_total w1) i)"
      using Suc.IH [OF v(6) k v(3) _ w1(3)] by blast
    have "same_bits (ww_total w) (ww_total w') (\<lambda>i. if ww_pos w \<le> i \<and> i < ww_pos w + t
        then bit_at (wr_bitmap r) (wr_offset r + (i - ww_pos w)) else bit_at (ww_total w) i)"
    proof (rule same_bits_trans [OF w1(2) w'(2)])
      fix i assume i: "i < 8 * length (ww_total w)"
      have "bit_at (drop 1 (wr_bitmap r)) (wr_offset r + (i - (ww_pos w + 8))) = bit_at (wr_bitmap r) (wr_offset r + (i - ww_pos w))"
        if "ww_pos w + 8 \<le> i"
      proof -
        have "8 * 1 + (wr_offset r + (i - (ww_pos w + 8))) = wr_offset r + (i - ww_pos w)" "1 \<le> length (wr_bitmap r)"
          using that Suc.prems(4) False by auto
        then show ?thesis using bit_at_drop [of 1 "wr_bitmap r" "wr_offset r + (i - (ww_pos w + 8))"] by metis
      qed
      then show "(if ww_pos w1 \<le> i \<and> i < ww_pos w1 + (t - 8) then bit_at (wr_bitmap r') (wr_offset r' + (i - ww_pos w1)) else bit_at (ww_total w1) i) =
        (if ww_pos w \<le> i \<and> i < ww_pos w + t then bit_at (wr_bitmap r) (wr_offset r + (i - ww_pos w)) else bit_at (ww_total w) i)"
        using w1(2,5) v(2,4,5) i False by (auto simp: same_bits_def)
    qed
    then show ?thesis using v(1) w1(1) w'(1) by auto
  qed
qed


lemma copy_words_bits:
  "word_view r (if k > 0 then 64 else 8) \<Longrightarrow> (k > 0 \<Longrightarrow> wr_offset r + 64 * k + 64 \<le> 8 * length (wr_bitmap r)) \<Longrightarrow>
   ww_ok w \<Longrightarrow> (k > 0 \<Longrightarrow> ww_offset w + 64 * k + 64 \<le> 8 * length (ww_bitmap w)) \<Longrightarrow>
   \<exists>r' w'. copy_words k r w = Ret (r', w') \<and> word_view r' 8 \<and> wr_offset r' = wr_offset r \<and> wr_bitmap r' = drop (8 * k) (wr_bitmap r) \<and>
     wr_trailingBits r' = wr_trailingBits r \<and> wr_trailingBytes r' = wr_trailingBytes r \<and> ww_ok w' \<and> ww_offset w' = ww_offset w \<and>
     ww_pos w' = ww_pos w + 64 * k \<and> length (ww_bitmap w') + 8 * k = length (ww_bitmap w) \<and>
     same_bits (ww_total w) (ww_total w')
       (\<lambda>i. if ww_pos w \<le> i \<and> i < ww_pos w + 64 * k then bit_at (wr_bitmap r) (wr_offset r + (i - ww_pos w)) else bit_at (ww_total w) i)"
proof (induction k arbitrary: r w)
  case 0
  then show ?case by (auto simp: same_bits_def)
next
  case (Suc k)
  have rv: "word_view r 64" and o8: "wr_offset r < 8" using Suc.prems(1) by (simp_all add: word_view_def)
  have lr: "16 \<le> length (wr_bitmap r)" and lw: "16 \<le> length (ww_bitmap w)" using Suc.prems(2,4) by auto
  obtain x r1 where r1: "NextWord r = Ret (x, r1)" "\<forall>j < 64. bit x j = bit_at (wr_bitmap r) (wr_offset r + j)" "word_view r1 64"
    "wr_bitmap r1 = drop 8 (wr_bitmap r)" "wr_offset r1 = wr_offset r" "wr_trailingBits r1 = wr_trailingBits r"
    "wr_trailingBytes r1 = wr_trailingBytes r"
    using NextWord_bits [OF rv lr] by blast
  have "8 \<le> length (ww_bitmap w)" using lw by simp
  then obtain w1 where w1: "PutNextWord x w = Ret w1" "ww_ok w1" "ww_offset w1 = ww_offset w" "ww_pos w1 = ww_pos w + 64"
    "length (ww_bitmap w1) + 8 = length (ww_bitmap w)"
    "same_bits (ww_total w) (ww_total w1) (\<lambda>i. if ww_pos w \<le> i \<and> i < ww_pos w + 64 then bit x (i - ww_pos w) else bit_at (ww_total w) i)"
    using PutNextWord_bits [OF Suc.prems(3), of x] lw by blast
  have v: "word_view r1 (if k > 0 then 64 else 8)" using r1(3) by (simp add: word_view_def)
  have l1: "k > 0 \<Longrightarrow> wr_offset r1 + 64 * k + 64 \<le> 8 * length (wr_bitmap r1)" using r1(4,5) Suc.prems(2) by simp
  have l2: "k > 0 \<Longrightarrow> ww_offset w1 + 64 * k + 64 \<le> 8 * length (ww_bitmap w1)" using w1(3,5) Suc.prems(4) by simp
  obtain r' w' where s: "copy_words k r1 w1 = Ret (r', w')" "word_view r' 8" "wr_offset r' = wr_offset r1"
    "wr_bitmap r' = drop (8 * k) (wr_bitmap r1)" "wr_trailingBits r' = wr_trailingBits r1" "wr_trailingBytes r' = wr_trailingBytes r1"
    "ww_ok w'" "ww_offset w' = ww_offset w1" "ww_pos w' = ww_pos w1 + 64 * k" "length (ww_bitmap w') + 8 * k = length (ww_bitmap w1)"
    "same_bits (ww_total w1) (ww_total w')
       (\<lambda>i. if ww_pos w1 \<le> i \<and> i < ww_pos w1 + 64 * k then bit_at (wr_bitmap r1) (wr_offset r1 + (i - ww_pos w1)) else bit_at (ww_total w1) i)"
    using Suc.IH [OF v l1 w1(2) l2] by blast
  have "same_bits (ww_total w) (ww_total w') (\<lambda>i. if ww_pos w \<le> i \<and> i < ww_pos w + 64 * Suc k
      then bit_at (wr_bitmap r) (wr_offset r + (i - ww_pos w)) else bit_at (ww_total w) i)"
  proof (rule same_bits_trans [OF w1(6) s(11)])
    fix i assume i: "i < 8 * length (ww_total w)"
    have "bit_at (drop 8 (wr_bitmap r)) (wr_offset r + (i - (ww_pos w + 64))) = bit_at (wr_bitmap r) (wr_offset r + (i - ww_pos w))"
      if "ww_pos w + 64 \<le> i"
    proof -
      have "8 * 8 + (wr_offset r + (i - (ww_pos w + 64))) = wr_offset r + (i - ww_pos w)" "8 \<le> length (wr_bitmap r)"
        using that lr by auto
      then show ?thesis using bit_at_drop [of 8 "wr_bitmap r" "wr_offset r + (i - (ww_pos w + 64))"] by metis
    qed
    then show "(if ww_pos w1 \<le> i \<and> i < ww_pos w1 + 64 * k then bit_at (wr_bitmap r1) (wr_offset r1 + (i - ww_pos w1)) else bit_at (ww_total w1) i) =
      (if ww_pos w \<le> i \<and> i < ww_pos w + 64 * Suc k then bit_at (wr_bitmap r) (wr_offset r + (i - ww_pos w)) else bit_at (ww_total w) i)"
      using w1(4,6) r1(2,4,5) i by (auto simp: same_bits_def)
  qed
  then show ?case using r1 w1 s by (simp add: add.commute)
qed


lemma NewBitmapWordReader_view:
  assumes "srcOffset + n \<le> 8 * length src" "0 < n"
  shows "\<exists>r. NewBitmapWordReader src srcOffset n = Ret r \<and> wr_nwords r = n div 64 - 1 \<and> wr_trailingBits r = n - (n div 64 - 1) * 64 \<and>
    wr_trailingBytes r = (wr_trailingBits r + 7) div 8 \<and> word_view r (if wr_nwords r > 0 then 64 else 8) \<and>
    wr_offset r + n \<le> 8 * length (wr_bitmap r) \<and> (\<forall>j < n. bit_at (wr_bitmap r) (wr_offset r + j) = bit_at src (srcOffset + j))"
proof -
  let ?o = "srcOffset mod 8" and ?b = "srcOffset div 8"
  let ?nb = "(?o + n + 7) div 8"
  define bm where "bm = take ?nb (drop ?b src)"
  have split: "8 * ?b + ?o = srcOffset" by simp
  have fit: "?b + ?nb \<le> length src" using assms split by linarith
  then have l: "length bm = ?nb" by (simp add: bm_def)
  have cover: "?o + n \<le> 8 * ?nb" by linarith
  have bits: "bit_at bm (?o + j) = bit_at src (srcOffset + j)" if "j < n" for j
  proof -
    have "bit_at bm (?o + j) = bit_at (drop ?b src) (?o + j)" unfolding bm_def using that cover by (intro bit_at_take_drop) linarith
    also have "\<dots> = bit_at src (8 * ?b + (?o + j))" using fit by (intro bit_at_drop) linarith
    also have "8 * ?b + (?o + j) = srcOffset + j" using split by linarith
    finally show ?thesis .
  qed
  have ne: "bm \<noteq> []" using l cover assms(2) by auto
  obtain cur where cur: "(if n div 64 - 1 > 0 then Uint64 bm else if bm = [] then Panic IndexOutOfRange else Ret (setLSB 0 (bm ! 0))) = Ret cur"
     "\<forall>j < (if n div 64 - 1 > 0 then 64 else 8). bit cur j = bit_at bm j"
  proof (cases "n div 64 - 1 > 0")
    case True
    then have "8 \<le> length bm" unfolding l using cover by linarith
    then show ?thesis using that True Uint64_bits by simp
  next
    case False
    then show ?thesis using that [of "setLSB 0 (bm ! 0)"] ne by (simp add: setLSB_bits bit_at_def)
  qed
  let ?r = "\<lparr>wr_bitmap = bm, wr_offset = ?o, wr_nwords = n div 64 - 1, wr_trailingBits = n - (n div 64 - 1) * 64,
    wr_trailingBytes = (n - (n div 64 - 1) * 64 + 7) div 8, wr_curword = cur\<rparr>"
  have "NewBitmapWordReader src srcOffset n = Ret ?r"
    using fit cur(1) unfolding NewBitmapWordReader_def Let_def BytesForBits_nat bm_def by simp
  moreover have "word_view ?r (if n div 64 - 1 > 0 then 64 else 8)" using cur(2) by (simp add: word_view_def)
  moreover have "?o + n \<le> 8 * length bm" using cover l by simp
  ultimately show ?thesis using bits by (intro exI [of _ ?r]) simp
qed

lemma NewBitmapWordWriter_view:
  assumes "dstOffset + n \<le> 8 * length dst" "0 < n"
  shows "\<exists>w. NewBitmapWordWriter dst dstOffset n = Ret w \<and> ww_ok w \<and> ww_total w = dst \<and> ww_pos w = dstOffset \<and>
    ww_offset w + n \<le> 8 * length (ww_bitmap w)"
proof -
  let ?o = "dstOffset mod 8" and ?b = "dstOffset div 8"
  define bm where "bm = drop ?b dst"
  have split: "8 * ?b + ?o = dstOffset" by simp
  have fit: "?b \<le> length dst" using assms split by linarith
  have l: "?o + n \<le> 8 * length bm" unfolding bm_def length_drop using assms(1) split fit by linarith
  have ne: "bm \<noteq> []" using l assms(2) by auto
  obtain cur where cur: "(if ?o \<noteq> 0 then if n \<ge> 64 then Uint64 bm
       else if n > 0 then if bm = [] then Panic IndexOutOfRange else Ret (setLSB 0 (bm ! 0)) else Ret 0 else Ret 0) = Ret cur"
    "\<forall>i < ?o. bit cur i = bit_at bm i"
  proof (cases "?o \<noteq> 0 \<and> n \<ge> 64")
    case True
    then have "8 \<le> length bm" using l by linarith
    then show ?thesis using that True Uint64_bits mod_less_divisor [of 8 dstOffset] by simp
  next
    case False
    then show ?thesis using that [of "if ?o = 0 then 0 else setLSB 0 (bm ! 0)"] ne assms(2) mod_less_divisor [of 8 dstOffset]
      by (auto simp: setLSB_bits bit_at_def)
  qed
  let ?w = "\<lparr>ww_before = take ?b dst, ww_bitmap = bm, ww_offset = ?o, ww_len = n, ww_bitMask = mask ?o, ww_currentWord = cur\<rparr>"
  have "NewBitmapWordWriter dst dstOffset n = Ret ?w"
    using fit cur(1) unfolding NewBitmapWordWriter_def Let_def mask_word bm_def by simp
  moreover have "ww_ok ?w" using cur(2) by (simp add: ww_ok_def)
  moreover have "ww_total ?w = dst" "ww_pos ?w = dstOffset" using fit split by (simp_all add: ww_total_def ww_pos_def bm_def min_def)
  ultimately show ?thesis using l by (intro exI [of _ ?w]) simp
qed

text \<open>
  C34. Copying a range of bits between two bitmaps gives the destination the source's bits in that range and leaves every other bit of
  it, for every pair of offsets: words and bytes that straddle the boundaries included.
\<close>

theorem CopyBitmap_spec:
  assumes "srcOffset + n \<le> 8 * length src" "dstOffset + n \<le> 8 * length dst"
  shows "\<exists>dst'. CopyBitmap src srcOffset n dst dstOffset = Ret dst' \<and>
    same_bits dst dst' (\<lambda>i. if dstOffset \<le> i \<and> i < dstOffset + n then bit_at src (srcOffset + (i - dstOffset)) else bit_at dst i)"
proof (cases "n = 0 \<or> srcOffset mod 8 = 0 \<and> dstOffset mod 8 = 0")
  case False
  then have n: "0 < n" by simp
  obtain r where r: "NewBitmapWordReader src srcOffset n = Ret r" "wr_nwords r = n div 64 - 1" "wr_trailingBits r = n - (n div 64 - 1) * 64"
    "wr_trailingBytes r = (wr_trailingBits r + 7) div 8" "word_view r (if wr_nwords r > 0 then 64 else 8)"
    "wr_offset r + n \<le> 8 * length (wr_bitmap r)" "\<forall>j < n. bit_at (wr_bitmap r) (wr_offset r + j) = bit_at src (srcOffset + j)"
    using NewBitmapWordReader_view [OF assms(1) n] by blast
  obtain w where w: "NewBitmapWordWriter dst dstOffset n = Ret w" "ww_ok w" "ww_total w = dst" "ww_pos w = dstOffset"
    "ww_offset w + n \<le> 8 * length (ww_bitmap w)"
    using NewBitmapWordWriter_view [OF assms(2) n] by blast
  let ?k = "wr_nwords r" and ?t = "wr_trailingBits r"
  have k: "64 * ?k + ?t = n" "?k > 0 \<Longrightarrow> 64 \<le> ?t" using r(2,3) by auto
  obtain r1 w1 where c: "copy_words ?k r w = Ret (r1, w1)" "word_view r1 8" "wr_offset r1 = wr_offset r" "wr_bitmap r1 = drop (8 * ?k) (wr_bitmap r)"
    "wr_trailingBits r1 = ?t" "wr_trailingBytes r1 = wr_trailingBytes r" "ww_ok w1" "ww_offset w1 = ww_offset w"
    "ww_pos w1 = dstOffset + 64 * ?k" "length (ww_bitmap w1) + 8 * ?k = length (ww_bitmap w)"
    "same_bits dst (ww_total w1) (\<lambda>i. if dstOffset \<le> i \<and> i < dstOffset + 64 * ?k
       then bit_at (wr_bitmap r) (wr_offset r + (i - dstOffset)) else bit_at dst i)"
  proof -
    have "?k > 0 \<Longrightarrow> wr_offset r + 64 * ?k + 64 \<le> 8 * length (wr_bitmap r)" "?k > 0 \<Longrightarrow> ww_offset w + 64 * ?k + 64 \<le> 8 * length (ww_bitmap w)"
      using r(6) w(5) k by linarith+
    from copy_words_bits [OF r(5) this(1) w(2) this(2)] show ?thesis using that unfolding w(3,4) by blast
  qed
  have fit: "wr_offset r1 + ?t \<le> 8 * length (wr_bitmap r1)" "ww_offset w1 + ?t \<le> 8 * length (ww_bitmap w1)"
    using c(3,4,8,10) r(6) w(5) k(1) by simp_all
  obtain w2 where w2: "copy_trailing (wr_trailingBytes r1) r1 w1 = Ret w2"
    "same_bits (ww_total w1) (ww_total w2) (\<lambda>i. if ww_pos w1 \<le> i \<and> i < ww_pos w1 + ?t
       then bit_at (wr_bitmap r1) (wr_offset r1 + (i - ww_pos w1)) else bit_at (ww_total w1) i)"
    using copy_trailing_bits [OF c(5) _ c(2) fit(1) c(7) fit(2), of "wr_trailingBytes r1"] c(6) r(4) by auto
  have "same_bits dst (ww_total w2) (\<lambda>i. if dstOffset \<le> i \<and> i < dstOffset + n then bit_at src (srcOffset + (i - dstOffset)) else bit_at dst i)"
  proof (rule same_bits_trans [OF c(11) w2(2)])
    fix i assume i: "i < 8 * length dst"
    have "bit_at (wr_bitmap r1) (wr_offset r1 + (i - ww_pos w1)) = bit_at src (srcOffset + (i - dstOffset))"
      if "dstOffset + 64 * ?k \<le> i" "i < dstOffset + n"
    proof -
      have e: "8 * (8 * ?k) + (wr_offset r + (i - (dstOffset + 64 * ?k))) = wr_offset r + (i - dstOffset)" using that by simp
      have "8 * ?k \<le> length (wr_bitmap r)" using r(6) k(1) by simp
      then have "bit_at (wr_bitmap r1) (wr_offset r1 + (i - ww_pos w1)) = bit_at (wr_bitmap r) (wr_offset r + (i - dstOffset))"
        unfolding c(3,4,9) by (simp only: bit_at_drop e)
      moreover have "i - dstOffset < n" using that by simp
      ultimately show ?thesis using r(7) by metis
    qed
    then show "(if ww_pos w1 \<le> i \<and> i < ww_pos w1 + ?t then bit_at (wr_bitmap r1) (wr_offset r1 + (i - ww_pos w1)) else bit_at (ww_total w1) i) =
      (if dstOffset \<le> i \<and> i < dstOffset + n then bit_at src (srcOffset + (i - dstOffset)) else bit_at dst i)"
    proof -
      consider "i < dstOffset \<or> dstOffset + n \<le> i" | "dstOffset \<le> i" "i < dstOffset + 64 * ?k" | "dstOffset + 64 * ?k \<le> i" "i < dstOffset + n"
        by linarith
      then show ?thesis
      proof cases
        case 2
        have "i - dstOffset < n" using 2 k(1) by linarith
        with r(7) have "bit_at (wr_bitmap r) (wr_offset r + (i - dstOffset)) = bit_at src (srcOffset + (i - dstOffset))" by blast
        then show ?thesis using 2 c(9,11) i k(1) by (simp add: same_bits_def)
      next
        case 3
        then show ?thesis using \<open>dstOffset + 64 * ?k \<le> i \<Longrightarrow> i < dstOffset + n \<Longrightarrow> _\<close> [OF 3] c(9) k(1) by simp
      qed (use c(9,11) i k(1) in \<open>auto simp: same_bits_def\<close>)
    qed
  qed
  moreover have "CopyBitmap src srcOffset n dst dstOffset = Ret (ww_total w2)"
    using False r(1) w(1) c(1) w2(1) by (simp add: CopyBitmap_def ww_total_def)
  ultimately show ?thesis by blast
next
  case True
  show ?thesis
  proof (cases "n = 0")
    case False
    define s d nb where "s = srcOffset div 8" and "d = dstOffset div 8" and "nb = (n + 7) div 8"
    have al: "srcOffset = 8 * s" "dstOffset = 8 * d" using True False by (auto simp: s_def d_def)
    have nb: "n \<le> 8 * nb" "8 * nb < n + 8" "0 < nb" using False by (simp_all add: nb_def)
    have fit: "s + nb \<le> length src" "d + nb \<le> length dst" using assms al nb by linarith+
    define tb where "tb = nb * 8 - n"
    have tb: "tb < 8" "n = 8 * (nb - 1) + (8 - tb)" using nb by (simp_all add: tb_def)
    let ?m = "mask (8 - tb) :: byte"
    define chunk where "chunk = take (nb - 1) (drop s src)"
    have lc: "length chunk = nb - 1" using fit(1) by (simp add: chunk_def)
    define dst1 where "dst1 = take d dst @ chunk @ drop (d + (nb - 1)) dst"
    have ld: "length dst1 = length dst" using fit(2) nb(3) lc by (simp add: dst1_def)
    define last_src where "last_src = src ! (s + nb - 1)"
    let ?k = "d + nb - 1"
    let ?res = "dst1[?k := (dst1 ! ?k AND NOT ?m) OR (last_src AND ?m)]"
    have "take (length dst - d) chunk = chunk" using fit(2) nb(3) lc by simp
    then have "CopyBitmap src srcOffset n dst dstOffset = Ret ?res"
      using False True fit unfolding CopyBitmap_def Let_def BytesForBits_nat mask_word s_def [symmetric] d_def [symmetric] nb_def [symmetric]
      by (simp add: dst1_def last_src_def tb_def lc flip: chunk_def) (simp add: chunk_def)
    moreover have "same_bits dst ?res (\<lambda>i. if dstOffset \<le> i \<and> i < dstOffset + n then bit_at src (srcOffset + (i - dstOffset)) else bit_at dst i)"
    proof -
      have "bit_at ?res i = (if dstOffset \<le> i \<and> i < dstOffset + n then bit_at src (srcOffset + (i - dstOffset)) else bit_at dst i)"
        if i: "i < 8 * length dst" for i
      proof -
        define q where "q = i div 8"
        define j where "j = i mod 8"
        have ij: "i = 8 * q + j" "j < 8" "q < length dst" using i by (auto simp: q_def j_def)
        have d1: "dst1 ! q = (if d \<le> q \<and> q < ?k then src ! (s + (q - d)) else dst ! q)"
          using ij(3) fit lc nb(3) by (auto simp: dst1_def nth_append chunk_def)
        have r: "bit_at ?res i = (if q = ?k \<and> j < 8 - tb then bit last_src j else bit (dst1 ! q) j)"
          using ij(2,3) fit(2) ld nb(3) by (auto simp: bit_at_def nth_list_update bit_simps simp flip: q_def j_def)
        have pos: "dstOffset \<le> i \<longleftrightarrow> d \<le> q" "i < dstOffset + n \<longleftrightarrow> q < ?k \<or> q = ?k \<and> j < 8 - tb"
          using ij(1,2) al(2) tb nb(3) by linarith+
        have src: "bit_at src (srcOffset + (i - dstOffset)) = bit (src ! (s + (q - d))) j" if "d \<le> q"
        proof -
          have "srcOffset + (i - dstOffset) = 8 * (s + (q - d)) + j" using ij(1) al that by (auto simp: le_iff_add)
          moreover have "(8 * x + j) div 8 = x" "(8 * x + j) mod 8 = j" for x using ij(2) by simp_all
          ultimately show ?thesis unfolding bit_at_def by metis
        qed
        have dst: "bit_at dst i = bit (dst ! q) j" by (simp add: bit_at_def q_def j_def)
        have k: "d \<le> ?k" "s + (?k - d) = s + nb - 1" using nb(3) by linarith+
        show ?thesis
        proof (cases "q = ?k")
          case True
          then show ?thesis unfolding r pos dst using d1 src k by (auto simp: last_src_def)
        next
          case False
          then show ?thesis unfolding r pos dst using d1 src by auto
        qed
      qed
      then show ?thesis using ld by (simp add: same_bits_def)
    qed
    ultimately show ?thesis by blast
  qed (auto simp: CopyBitmap_def same_bits_def)
qed


theorem CopyBitmap_spec_witness:
  "\<exists>dst'. CopyBitmap [0xAB, 0xCD, 0xEF] 3 17 [0, 0, 0, 0] 6 = Ret dst' \<and>
     same_bits [0, 0, 0, 0] dst'
       (\<lambda>i. if 6 \<le> i \<and> i < 6 + 17 then bit_at [0xAB, 0xCD, 0xEF] (3 + (i - 6)) else bit_at [0, 0, 0, 0] i)"
  using CopyBitmap_spec [of 3 17 "[0xAB, 0xCD, 0xEF]" 6 "[0, 0, 0, 0]"] by simp

subsection \<open>Appending\<close>

text \<open>
  A writer promises to keep the bits around those it writes. After \<open>AppendBools\<close> has filled a byte, the current byte is still that
  byte while the position is in the next one: a second call puts the old byte over the next one, and bits past the writer's range are
  lost. Written bit by bit, they stay.
\<close>

lemma AppendBools_stale_byte:
  "obind (NewBitmapWriter [0, 255] 0 11) (\<lambda>w. obind (AppendBools (replicate 8 False) w) (\<lambda>(n, w).
     obind (AppendBools (replicate 3 False) w) (\<lambda>(m, w). omap bw_buf (bw_Finish w)))) = Ret [0, 0]"
  "obind (NewBitmapWriter [0, 255] 0 11) (\<lambda>w. obind (put_bits 0 11 w) (\<lambda>w. omap bw_buf (bw_Finish w))) = Ret [0, 0xF8]"
  by code_simp+

end
