(* ===== verification/ArrowDecimal.thy ===== *)
theory ArrowDecimal
  imports ArrowBits
begin

section \<open>128-bit decimals of arrow\<close>

text \<open>
  Models \<^verbatim>\<open>arrow/decimal128/decimal128.go\<close>: a signed number of 128 bits in two words, its sign, its negation and the
  conversions to and from \<^verbatim>\<open>big.Int\<close>, which is HOL's \<open>int\<close>. The words of a big integer's absolute value come from
  \<open>big_Bits\<close>, the lowest first, as \<^verbatim>\<open>Bits\<close> of the standard library gives them.
\<close>

record Num =
  num_lo :: u64
  num_hi :: i64

definition New :: "i64 \<Rightarrow> u64 \<Rightarrow> Num" where "New hi lo = \<lparr>num_lo = lo, num_hi = hi\<rparr>"

definition MaxDecimal128 :: Num where "MaxDecimal128 = New 542101086242752217 (687399551400673280 - 1)"

definition FromU64 :: "u64 \<Rightarrow> Num" where "FromU64 v = New 0 v"

definition FromI64 :: "i64 \<Rightarrow> Num" where
  "FromI64 v = (if sint v > 0 then New 0 v else if sint v < 0 then New (- 1) v else New 0 0)"

definition negated :: "Num \<Rightarrow> Num" where
  "negated n =
     (let lo = NOT (num_lo n) + 1; hi = NOT (num_hi n)
      in \<lparr>num_lo = lo, num_hi = (if lo = 0 then hi + 1 else hi)\<rparr>)"

definition Num_Sign :: "Num \<Rightarrow> int" where
  "Num_Sign n = (if n = New 0 0 then 0 else sint (1 OR signed_drop_bit 63 (num_hi n)))"

fun big_Bits :: "nat \<Rightarrow> u64 list" where
  "big_Bits n = (if n = 0 then [] else word_of_nat n # big_Bits (n div 2 ^ 64))"

declare big_Bits.simps [simp del]

definition FromBigInt :: "int \<Rightarrow> Num outcome" where
  "FromBigInt v =
     (let bitlen = bits_Len (nat \<bar>v\<bar>) in
      if bitlen > 128 then Panic ExplicitPanic
      else if bitlen = 0 then Ret (New 0 0)
      else let b = big_Bits (nat \<bar>v\<bar>);
               n = \<lparr>num_lo = b ! 0, num_hi = (if length b > 1 then b ! 1 else 0)\<rparr>
           in Ret (if v < 0 then negated n else n))"

definition toBigIntPositive :: "Num \<Rightarrow> int" where
  "toBigIntPositive n = uint (num_lo n) + 2 ^ 64 * uint (num_hi n)"

definition BigInt :: "Num \<Rightarrow> int" where
  "BigInt n = (if Num_Sign n < 0 then - toBigIntPositive (negated n) else toBigIntPositive n)"

subsection \<open>The number as a word of 128 bits\<close>

text \<open>The sign is that of the high word, and the number is read in two's complement.\<close>

lemma bits_Len_le: "bits_Len n \<le> k \<longleftrightarrow> n < 2 ^ k"
proof (induction n arbitrary: k rule: bits_Len.induct)
  case (1 n)
  show ?case
  proof (cases "n = 0")
    case False
    show ?thesis
    proof (cases k)
      case (Suc j)
      have "bits_Len n \<le> k \<longleftrightarrow> bits_Len (n div 2) \<le> j"
        using False Suc by (subst bits_Len.simps) simp
      also have "\<dots> \<longleftrightarrow> n div 2 < 2 ^ j" using 1 False by simp
      also have "\<dots> \<longleftrightarrow> n < 2 ^ k" using Suc by (simp add: less_mult_imp_div_less div_less_iff_less_mult mult.commute)
      finally show ?thesis .
    qed (use False in \<open>simp add: bits_Len.simps\<close>)
  qed (simp add: bits_Len.simps)
qed

lemma uint_range: "0 \<le> uint (w :: u64)" "uint w < 18446744073709551616"
  using uint_bounded [of w] by simp_all

lemma zdiv_eq_1: "m \<le> x \<Longrightarrow> x < 2 * m \<Longrightarrow> x div m = (1 :: int)"
  by (rule int_div_pos_eq [of _ _ _ "x - m"]) auto

lemma top_bit: "bit (w :: u64) 63 \<longleftrightarrow> 2 ^ 63 \<le> uint w"
proof -
  have "bit w 63 \<longleftrightarrow> odd (uint w div 2 ^ 63)"
    by (metis bit_iff_odd bit_uint_iff bit_imp_le_length)
  moreover have "uint w div 2 ^ 63 = (if 2 ^ 63 \<le> uint w then 1 else 0)"
    using uint_bounded [of w] by (simp add: div_pos_pos_trivial pos_imp_zdiv_pos_iff zdiv_eq_1)
  ultimately show ?thesis by auto
qed

lemma sint_less_0: "sint (w :: i64) < 0 \<longleftrightarrow> 2 ^ 63 \<le> uint w"
  using bit_last_iff [of w] by (simp add: top_bit)

lemma Num_Sign_less: "Num_Sign n < 0 \<longleftrightarrow> 2 ^ 63 \<le> uint (num_hi n)"
proof -
  have "sint (1 OR signed_drop_bit 63 (w :: i64)) < 0 \<longleftrightarrow> bit w 63" for w
    unfolding sint_less_0 top_bit [symmetric] by (simp add: bit_or_iff bit_signed_drop_bit_iff bit_1_iff)
  then show ?thesis by (auto simp: Num_Sign_def New_def top_bit)
qed

lemma toBigIntPositive_bound: "0 \<le> toBigIntPositive n" "toBigIntPositive n < 2 ^ 128"
  using uint_bounded [of "num_lo n"] uint_bounded [of "num_hi n"] by (auto simp: toBigIntPositive_def)

lemma uint_NOT: "uint (NOT (w :: u64)) = 2 ^ 64 - 1 - uint w"
proof -
  have "NOT w = - w - 1" by (rule not_eq_complement)
  then have "uint (NOT w) = (- uint w - 1) mod 2 ^ 64"
    by (simp add: uint_word_ariths mod_simps)
  also have "\<dots> = (2 ^ 64 - 1 - uint w) mod 2 ^ 64"
    using mod_add_self1 [of "2 ^ 64" "- uint w - 1"] by (simp add: algebra_simps)
  also have "\<dots> = 2 ^ 64 - 1 - uint w" 
    by (rule mod_pos_pos_trivial; simp; use uint_range [of w] in linarith)
  finally show ?thesis .
qed

lemma neg_mod: "(- x) mod m = (if x = 0 then 0 else m - x)" if "0 \<le> x" "x < (m :: int)"
  using that by (simp add: zmod_zminus1_eq_if)

lemma toBigIntPositive_negated: "toBigIntPositive (negated n) = (- toBigIntPositive n) mod 2 ^ 128"
proof -
  define l h where "l = uint (num_lo n)" and "h = uint (num_hi n)"
  have b: "0 \<le> l" "l < 2 ^ 64" "0 \<le> h" "h < 2 ^ 64"
    using uint_bounded [of "num_lo n"] uint_bounded [of "num_hi n"] by (auto simp: l_def h_def)
  have neg: "NOT (num_lo n) + 1 = - num_lo n" "NOT (num_hi n) + 1 = - num_hi n"
    by (simp_all add: not_eq_complement)
  have lo: "uint (num_lo (negated n)) = (- l) mod 2 ^ 64"
    by (simp add: negated_def Let_def neg uint_word_ariths l_def)
  have z: "num_lo n = 0 \<longleftrightarrow> l = 0" by (simp add: l_def unsigned_eq_0_iff)
  have "toBigIntPositive (negated n) = (if l = 0 then if h = 0 then 0 else 2 ^ 64 * (2 ^ 64 - h)
      else (2 ^ 64 - l) + 2 ^ 64 * (2 ^ 64 - 1 - h))"
  proof (cases "l = 0")
    case True
    have "uint (- num_hi n) = (if h = 0 then 0 else 2 ^ 64 - h)"
      using b by (auto simp: uint_word_ariths h_def [symmetric] zmod_zminus1_eq_if)
    then show ?thesis using True z by (simp add: toBigIntPositive_def negated_def Let_def neg)
  next
    case False
    then have "uint (- num_lo n) = 2 ^ 64 - l"
      using b by (auto simp: uint_word_ariths l_def [symmetric] zmod_zminus1_eq_if)
    then show ?thesis using False z by (simp add: toBigIntPositive_def negated_def Let_def neg uint_NOT h_def)
  qed
  also have "\<dots> = (- (l + 2 ^ 64 * h)) mod 2 ^ 128"
    using b by (subst neg_mod) (auto simp: algebra_simps)
  finally show ?thesis by (simp add: toBigIntPositive_def l_def h_def)
qed

lemma high_bit_words: "0 \<le> l \<Longrightarrow> l < 2 ^ 64 \<Longrightarrow> 2 ^ 63 \<le> h \<longleftrightarrow> 2 ^ 127 \<le> l + 2 ^ 64 * (h :: int)"
  by simp linarith

lemma BigInt_signed:
  "BigInt n = (if 2 ^ 127 \<le> toBigIntPositive n then toBigIntPositive n - 2 ^ 128 else toBigIntPositive n)"
proof -
  have "2 ^ 63 \<le> uint (num_hi n) \<longleftrightarrow> 2 ^ 127 \<le> toBigIntPositive n"
    unfolding toBigIntPositive_def using high_bit_words [of "uint (num_lo n)"] uint_range [of "num_lo n"] by simp
  moreover have "- toBigIntPositive (negated n) = toBigIntPositive n - 2 ^ 128" if "2 ^ 127 \<le> toBigIntPositive n"
    using that toBigIntPositive_bound [of n] by (subst toBigIntPositive_negated, subst neg_mod) auto
  ultimately show ?thesis by (simp add: BigInt_def Num_Sign_less)
qed

lemma toBigIntPositive_words:
  "uint (num_lo n) = toBigIntPositive n mod 2 ^ 64" "uint (num_hi n) = toBigIntPositive n div 2 ^ 64"
  using uint_range [of "num_lo n"] by (simp_all add: toBigIntPositive_def mod_pos_pos_trivial div_pos_pos_trivial)

lemma toBigIntPositive_inj: "toBigIntPositive m = toBigIntPositive n \<Longrightarrow> m = (n :: Num)"
  by (metis Num.equality toBigIntPositive_words word_uint_eqI old.unit.exhaust)

lemma BigInt_iff: "BigInt n = w \<longleftrightarrow> - (2 ^ 127) \<le> w \<and> w < 2 ^ 127 \<and> toBigIntPositive n = w mod 2 ^ 128"
proof (cases "- (2 ^ 127) \<le> w \<and> w < 2 ^ 127")
  case True
  then have "w mod 2 ^ 128 = (if 0 \<le> w then w else w + 2 ^ 128)"
    using neg_mod [of "- w" "2 ^ 128"] by (auto simp: mod_pos_pos_trivial)
  then show ?thesis using True toBigIntPositive_bound [of n] by (auto simp: BigInt_signed split: if_splits)
next
  case False
  then show ?thesis using toBigIntPositive_bound [of n] by (auto simp: BigInt_signed split: if_splits)
qed

lemma big_words:
  assumes "0 < a" "a < 2 ^ 128"
  shows "toBigIntPositive \<lparr>num_lo = big_Bits a ! 0, num_hi = (if length (big_Bits a) > 1 then big_Bits a ! 1 else 0)\<rparr> = int a"
proof -
  define q r where "q = a div 2 ^ 64" and "r = a mod 2 ^ 64"
  have a: "a = r + 2 ^ 64 * q" by (simp add: q_def r_def)
  have q: "q < 2 ^ 64" using assms(2) by (simp add: q_def less_mult_imp_div_less)
  have "uint (word_of_nat q :: u64) = int q"
    using q by (simp add: unsigned_of_nat take_bit_nat_eq_self)
  moreover have "uint (word_of_nat a :: u64) = int r"
    by (simp add: unsigned_of_nat take_bit_eq_mod r_def)
  moreover have "big_Bits a = word_of_nat a # big_Bits q"
    using assms(1) by (subst big_Bits.simps) (simp add: q_def)
  moreover have "big_Bits q = (if q = 0 then [] else word_of_nat q # big_Bits (q div 2 ^ 64))"
    by (rule big_Bits.simps)
  ultimately show ?thesis using a by (simp add: toBigIntPositive_def)
qed

text \<open>
  \<^verbatim>\<open>FromBigInt\<close> gives a number exactly when the magnitude fits 128 bits, and the number is the argument
  wrapped into the signed range of 128 bits: below $2^{127}$ in magnitude \<open>BigInt\<close> reads the argument back, from there on the
  sign is lost without an error.
\<close>

theorem FromBigInt_iff:
  "FromBigInt v = Ret n \<longleftrightarrow> \<bar>v\<bar> < 2 ^ 128 \<and> BigInt n = (v + 2 ^ 127) mod 2 ^ 128 - 2 ^ 127"
proof -
  have w: "BigInt n = (v + 2 ^ 127) mod 2 ^ 128 - 2 ^ 127 \<longleftrightarrow> toBigIntPositive n = v mod 2 ^ 128" for n
  proof -
    have "((v + 2 ^ 127) mod 2 ^ 128 - 2 ^ 127) mod 2 ^ 128 = v mod (2 ^ 128 :: int)"
      by (simp add: mod_diff_left_eq)
    moreover have "0 \<le> (v + 2 ^ 127) mod 2 ^ 128" "(v + 2 ^ 127) mod 2 ^ 128 < (2 ^ 128 :: int)" by simp_all
    ultimately show ?thesis by (simp add: BigInt_iff)
  qed
  show ?thesis
  proof (cases "0 < \<bar>v\<bar> \<and> \<bar>v\<bar> < 2 ^ 128")
    case True
    define a where "a = nat \<bar>v\<bar>"
    have a: "0 < a" "a < 2 ^ 128" using True by (auto simp: a_def nat_less_iff)
    define m where "m = \<lparr>num_lo = big_Bits a ! 0, num_hi = (if length (big_Bits a) > 1 then big_Bits a ! 1 else 0)\<rparr>"
    have m: "toBigIntPositive m = int a" using big_words [OF a] by (simp add: m_def)
    have "\<not> bits_Len a > 128" "bits_Len a \<noteq> 0" using a bits_Len_le [of a 128] bits_Len_le [of a 0] by auto
    then have "FromBigInt v = Ret (if v < 0 then negated m else m)"
      by (simp add: FromBigInt_def Let_def m_def a_def [symmetric])
    moreover have "toBigIntPositive (if v < 0 then negated m else m) = v mod 2 ^ 128"
      using True m by (auto simp: toBigIntPositive_negated a_def mod_pos_pos_trivial)
    ultimately show ?thesis using True toBigIntPositive_inj by (metis outcome.inject(1) w)
  next
    case False
    have "bits_Len (nat \<bar>v\<bar>) > 128" if "\<not> \<bar>v\<bar> < 2 ^ 128"
      using bits_Len_le [of "nat \<bar>v\<bar>" 128] that by (auto simp: nat_less_iff not_le)
    moreover have "FromBigInt 0 = Ret (New 0 0)" by (simp add: FromBigInt_def bits_Len.simps)
    moreover have "toBigIntPositive n = 0 \<longleftrightarrow> n = New 0 0"
      using toBigIntPositive_inj [of n "New 0 0"] by (auto simp: New_def toBigIntPositive_def)
    ultimately show ?thesis using False by (cases "v = 0") (use toBigIntPositive_bound [of n] in \<open>auto simp: w [of n] BigInt_signed FromBigInt_def\<close>)
  qed
qed

end
