(* ===== verification/ArrowArrays.thy ===== *)
theory ArrowArrays
  imports ArrowDecimal
begin

section \<open>Arrays of arrow\<close>

text \<open>
  Models the packages \<^verbatim>\<open>arrow/array\<close> and \<^verbatim>\<open>arrow/memory\<close> as far as arrays are read: the shared \<^verbatim>\<open>Data\<close> with its buffers
  and children, zero-copy slices of it, the typed arrays that \<^verbatim>\<open>MakeFromData\<close> builds on it and their accessors.
  \<^item> A \<^verbatim>\<open>memory.Buffer\<close> is the bytes that it holds up to its length, \<open>None\<close> when the pointer is nil. Bytes between the length and the
    capacity are not part of it: a slice expression that would reach into them panics in the model.
  \<^item> A typed view of a buffer (\<^verbatim>\<open>CastFromBytes\<close>) reads little-endian words, as on the machines the code is built for.
  \<^item> Reference counts free memory and nothing else; they are left out. Arrays of extension types are left out as well.
\<close>

subsection \<open>Types and data\<close>

datatype arrow_id =
    ID_NULL | ID_BOOL | ID_UINT8 | ID_INT8 | ID_UINT16 | ID_INT16 | ID_UINT32 | ID_INT32 | ID_UINT64 | ID_INT64
  | ID_FLOAT16 | ID_FLOAT32 | ID_FLOAT64 | ID_STRING | ID_BINARY | ID_FIXED_SIZE_BINARY | ID_DATE32 | ID_DATE64
  | ID_TIMESTAMP | ID_TIME32 | ID_TIME64 | ID_INTERVAL_MONTHS | ID_INTERVAL_DAY_TIME | ID_DECIMAL128 | ID_DECIMAL256
  | ID_LIST | ID_STRUCT | ID_SPARSE_UNION | ID_DENSE_UNION | ID_DICTIONARY | ID_MAP | ID_FIXED_SIZE_LIST
  | ID_DURATION | ID_LARGE_STRING | ID_LARGE_BINARY | ID_LARGE_LIST | ID_INTERVAL_MONTH_DAY_NANO

text \<open>What the arrays use of a type: its identifier, and the width or the length that a fixed-size type fixes.\<close>

datatype dtype = DT arrow_id | DTFixedSizeBinary int | DTFixedSizeList i32

fun dt_ID :: "dtype \<Rightarrow> arrow_id" where
  "dt_ID (DT i) = i"
| "dt_ID (DTFixedSizeBinary w) = ID_FIXED_SIZE_BINARY"
| "dt_ID (DTFixedSizeList n) = ID_FIXED_SIZE_LIST"

type_synonym buffer = "byte list option"

datatype array_data =
  ArrayData (ad_dtype: dtype) (ad_length: int) (ad_buffers: "buffer list") (ad_children: "array_data option list")
    (ad_nulls: int) (ad_offset: int)

definition UnknownNullCount :: int where "UnknownNullCount = - 1"

definition NewSliceData :: "array_data \<Rightarrow> int \<Rightarrow> int \<Rightarrow> array_data outcome" where
  "NewSliceData d i j =
     (if j > ad_length d \<or> i > j \<or> ad_offset d + i > ad_offset d + ad_length d then Panic ExplicitPanic
      else Ret (ArrayData (ad_dtype d) (j - i) (ad_buffers d) (ad_children d)
                  (if ad_nulls d = 0 then 0 else UnknownNullCount) (ad_offset d + i)))"

text \<open>\<open>xs[beg:end]\<close>, \<open>xs[i]\<close>.\<close>

definition slice_range :: "int \<Rightarrow> int \<Rightarrow> 'a list \<Rightarrow> 'a list outcome" where
  "slice_range b e xs =
     (if 0 \<le> b \<and> b \<le> e \<and> e \<le> int (length xs) then Ret (take (nat (e - b)) (drop (nat b) xs)) else Panic IndexOutOfRange)"

definition index_at :: "'a list \<Rightarrow> int \<Rightarrow> 'a outcome" where
  "index_at xs i = (if 0 \<le> i \<and> i < int (length xs) then Ret (xs ! nat i) else Panic IndexOutOfRange)"

subsection \<open>Typed views\<close>

definition CastFromBytes :: "nat \<Rightarrow> (byte list \<Rightarrow> 'a) \<Rightarrow> byte list \<Rightarrow> 'a list" where
  "CastFromBytes w dec bs = map (\<lambda>i. dec (take w (drop (i * w) bs))) [0..<length bs div w]"

definition word_of_bytes :: "byte list \<Rightarrow> 'a :: len word" where
  "word_of_bytes bs = ucast (le_word bs)"

definition words_of :: "byte list \<Rightarrow> 'a :: len word list" where
  "words_of = CastFromBytes (LENGTH('a) div 8) word_of_bytes"

definition decimal_of_bytes :: "byte list \<Rightarrow> Num" where
  "decimal_of_bytes bs = New (word_of_bytes (drop 8 bs)) (word_of_bytes (take 8 bs))"

subsection \<open>Arrays\<close>

record array_header =
  hd_data :: array_data
  hd_bitmap :: "byte list"

datatype arrow_array =
    ArrNull array_header
  | ArrBoolean array_header "byte list"
  | ArrUint8 array_header "8 word list" | ArrInt8 array_header "i8 list"
  | ArrUint16 array_header "16 word list" | ArrInt16 array_header "i16 list"
  | ArrUint32 array_header "u32 list" | ArrInt32 array_header "i32 list"
  | ArrUint64 array_header "u64 list" | ArrInt64 array_header "i64 list"
  | ArrFloat16 array_header "16 word list" | ArrFloat32 array_header "u32 list" | ArrFloat64 array_header "u64 list"
  | ArrString array_header "i32 list" "byte list"
  | ArrBinary array_header "i32 list" "byte list"
  | ArrFixedSizeBinary array_header int "byte list"
  | ArrDate32 array_header "i32 list" | ArrDate64 array_header "i64 list"
  | ArrTimestamp array_header "i64 list" | ArrTime32 array_header "i32 list" | ArrTime64 array_header "i64 list"
  | ArrDuration array_header "i64 list"
  | ArrMonthInterval array_header "i32 list"
  | ArrDayTimeInterval array_header "(i32 \<times> i32) list"
  | ArrMonthDayNanoInterval array_header "(i32 \<times> i32 \<times> i64) list"
  | ArrDecimal128 array_header "Num list"
  | ArrList array_header "i32 list" arrow_array
  | ArrStruct array_header "arrow_array list"
  | ArrMap array_header "i32 list" arrow_array arrow_array arrow_array
  | ArrFixedSizeList array_header i32 arrow_array

definition array_setData :: "array_data \<Rightarrow> array_header" where
  "array_setData d =
     \<lparr>hd_data = d, hd_bitmap = (case ad_buffers d of Some b # _ \<Rightarrow> b | _ \<Rightarrow> [])\<rparr>"

definition buffer1 :: "array_data \<Rightarrow> buffer outcome" where
  "buffer1 d = index_at (ad_buffers d) 1"

text \<open>\<open>setData\<close> of the arrays whose values have a fixed width: the view is cut to the slice.\<close>

definition num_setData :: "(array_header \<Rightarrow> 'a list \<Rightarrow> arrow_array) \<Rightarrow> (byte list \<Rightarrow> 'a list) \<Rightarrow> array_data \<Rightarrow>
    arrow_array outcome" where
  "num_setData C cast d =
     (let h = array_setData d in
      obind (buffer1 d) (\<lambda>vals. case vals of
          None \<Rightarrow> Ret (C h [])
        | Some bs \<Rightarrow> obind (slice_range (ad_offset d) (ad_offset d + ad_length d) (cast bs)) (\<lambda>vs. Ret (C h vs))))"

definition Boolean_setData :: "array_data \<Rightarrow> arrow_array outcome" where
  "Boolean_setData d = obind (buffer1 d) (\<lambda>vals. Ret (ArrBoolean (array_setData d) (case vals of None \<Rightarrow> [] | Some bs \<Rightarrow> bs)))"

definition bytes_setData :: "(array_header \<Rightarrow> i32 list \<Rightarrow> byte list \<Rightarrow> arrow_array) \<Rightarrow> array_data \<Rightarrow> arrow_array outcome" where
  "bytes_setData C d =
     (if length (ad_buffers d) \<noteq> 3 then Panic ExplicitPanic
      else Ret (C (array_setData d)
             (case ad_buffers d ! 1 of None \<Rightarrow> [] | Some offs \<Rightarrow> words_of offs)
             (case ad_buffers d ! 2 of None \<Rightarrow> [] | Some bs \<Rightarrow> bs)))"

definition FixedSizeBinary_setData :: "array_data \<Rightarrow> arrow_array outcome" where
  "FixedSizeBinary_setData d =
     (case ad_dtype d of
        DTFixedSizeBinary w \<Rightarrow>
          obind (buffer1 d) (\<lambda>vals. Ret (ArrFixedSizeBinary (array_setData d) w (case vals of None \<Rightarrow> [] | Some bs \<Rightarrow> bs)))
      | _ \<Rightarrow> Panic TypeAssertion)"

definition Null_setData :: "array_data \<Rightarrow> arrow_array" where
  "Null_setData d =
     ArrNull \<lparr>hd_data = ArrayData (ad_dtype d) (ad_length d) (ad_buffers d) (ad_children d) (ad_length d) (ad_offset d),
              hd_bitmap = []\<rparr>"

text \<open>The arrays without children.\<close>

definition flat_setData :: "array_data \<Rightarrow> arrow_array outcome" where
  "flat_setData d =
     (case dt_ID (ad_dtype d) of
        ID_NULL \<Rightarrow> Ret (Null_setData d)
      | ID_BOOL \<Rightarrow> Boolean_setData d
      | ID_UINT8 \<Rightarrow> num_setData ArrUint8 words_of d
      | ID_INT8 \<Rightarrow> num_setData ArrInt8 words_of d
      | ID_UINT16 \<Rightarrow> num_setData ArrUint16 words_of d
      | ID_INT16 \<Rightarrow> num_setData ArrInt16 words_of d
      | ID_UINT32 \<Rightarrow> num_setData ArrUint32 words_of d
      | ID_INT32 \<Rightarrow> num_setData ArrInt32 words_of d
      | ID_UINT64 \<Rightarrow> num_setData ArrUint64 words_of d
      | ID_INT64 \<Rightarrow> num_setData ArrInt64 words_of d
      | ID_FLOAT16 \<Rightarrow> num_setData ArrFloat16 words_of d
      | ID_FLOAT32 \<Rightarrow> num_setData ArrFloat32 words_of d
      | ID_FLOAT64 \<Rightarrow> num_setData ArrFloat64 words_of d
      | ID_STRING \<Rightarrow> bytes_setData ArrString d
      | ID_BINARY \<Rightarrow> bytes_setData ArrBinary d
      | ID_FIXED_SIZE_BINARY \<Rightarrow> FixedSizeBinary_setData d
      | ID_DATE32 \<Rightarrow> num_setData ArrDate32 words_of d
      | ID_DATE64 \<Rightarrow> num_setData ArrDate64 words_of d
      | ID_TIMESTAMP \<Rightarrow> num_setData ArrTimestamp words_of d
      | ID_TIME32 \<Rightarrow> num_setData ArrTime32 words_of d
      | ID_TIME64 \<Rightarrow> num_setData ArrTime64 words_of d
      | ID_INTERVAL_MONTHS \<Rightarrow> num_setData ArrMonthInterval words_of d
      | ID_INTERVAL_DAY_TIME \<Rightarrow> num_setData ArrDayTimeInterval
          (CastFromBytes 8 (\<lambda>b. (word_of_bytes (take 4 b), word_of_bytes (drop 4 b)))) d
      | ID_INTERVAL_MONTH_DAY_NANO \<Rightarrow> num_setData ArrMonthDayNanoInterval
          (CastFromBytes 16 (\<lambda>b. (word_of_bytes (take 4 b), word_of_bytes (take 4 (drop 4 b)), word_of_bytes (drop 8 b)))) d
      | ID_DECIMAL128 \<Rightarrow> num_setData ArrDecimal128 (CastFromBytes 16 decimal_of_bytes) d
      | ID_DURATION \<Rightarrow> num_setData ArrDuration words_of d
      | _ \<Rightarrow> Panic ExplicitPanic)"

text \<open>\<open>data.childData[k]\<close> where the code goes on to use the child.\<close>

definition child_at :: "array_data \<Rightarrow> int \<Rightarrow> array_data outcome" where
  "child_at d k = obind (index_at (ad_children d) k) (\<lambda>c. case c of None \<Rightarrow> Panic NilDereference | Some x \<Rightarrow> Ret x)"

definition list_offsets :: "array_data \<Rightarrow> i32 list outcome" where
  "list_offsets d = obind (buffer1 d) (\<lambda>vals. Ret (case vals of None \<Rightarrow> [] | Some bs \<Rightarrow> words_of bs))"

definition Map_validateData :: "array_data \<Rightarrow> unit outcome" where
  "Map_validateData d =
     (case ad_children d of
        [Some c] \<Rightarrow>
          (if dt_ID (ad_dtype c) \<noteq> ID_STRUCT then Panic ExplicitPanic
           else if ad_nulls c \<noteq> 0 then Panic ExplicitPanic
           else if length (ad_children c) \<noteq> 2 then Panic ExplicitPanic
           else obind (child_at c 0) (\<lambda>k. if ad_nulls k \<noteq> 0 then Panic ExplicitPanic else Ret ()))
      | _ \<Rightarrow> Panic ExplicitPanic)"

lemma child_size: "Some c \<in> set (ad_children d) \<Longrightarrow> size c < size d"
proof -
  have "Some c \<in> set cs \<Longrightarrow> size c < size_list (size_option size) cs" for cs
    by (induction cs) auto
  then show "Some c \<in> set (ad_children d) \<Longrightarrow> size c < size d" by (cases d) fastforce
qed

lemma index_at_Ret: "index_at xs i = Ret x \<longleftrightarrow> 0 \<le> i \<and> nat i < length xs \<and> xs ! nat i = x"
  by (auto simp: index_at_def nat_less_iff)

lemma child_at_size: "child_at d k = Ret c \<Longrightarrow> size c < size d"
  by (rule child_size) (auto simp: child_at_def index_at_Ret obind_Ret_iff in_set_conv_nth split: option.splits)

lemma NewSliceData_size: "NewSliceData d i j = Ret s \<Longrightarrow> size s = size d"
  by (cases d) (auto simp: NewSliceData_def split: if_splits)

text \<open>
  \<open>MakeFromData\<close> with the \<open>setData\<close> of the arrays that have children: a list keeps its offsets as they are, a struct slices
  its children to its own range.
\<close>

function MakeFromData :: "array_data \<Rightarrow> arrow_array outcome" where
  "MakeFromData d =
     (if dt_ID (ad_dtype d) = ID_LIST then
        obind (list_offsets d) (\<lambda>offs.
        obind (child_at d 0) (\<lambda>c. obind (MakeFromData c) (\<lambda>vs. Ret (ArrList (array_setData d) offs vs))))
      else if dt_ID (ad_dtype d) = ID_STRUCT then
        obind (omap_list (\<lambda>oc. case oc of
            None \<Rightarrow> Panic NilDereference
          | Some c \<Rightarrow>
              if ad_offset d \<noteq> 0 \<or> ad_length c \<noteq> ad_length d
              then obind (NewSliceData c (ad_offset d) (ad_offset d + ad_length d)) MakeFromData
              else MakeFromData c) (ad_children d)) (\<lambda>fs. Ret (ArrStruct (array_setData d) fs))
      else if dt_ID (ad_dtype d) = ID_MAP then
        obind (Map_validateData d) (\<lambda>_.
        obind (list_offsets d) (\<lambda>offs.
        obind (child_at d 0) (\<lambda>c. obind (MakeFromData c) (\<lambda>vs.
        obind (child_at c 0) (\<lambda>k. obind (MakeFromData k) (\<lambda>ks.
        obind (child_at c 1) (\<lambda>i. obind (MakeFromData i) (\<lambda>its. Ret (ArrMap (array_setData d) offs vs ks its)))))))))
      else case ad_dtype d of
        DTFixedSizeList n \<Rightarrow>
          obind (child_at d 0) (\<lambda>c. obind (MakeFromData c) (\<lambda>vs. Ret (ArrFixedSizeList (array_setData d) n vs)))
      | _ \<Rightarrow> flat_setData d)"
  by pat_completeness auto
termination
  by (relation "measure size") (auto dest!: child_at_size child_size NewSliceData_size)

declare MakeFromData.simps [simp del]

subsection \<open>Accessors\<close>

fun arr_header :: "arrow_array \<Rightarrow> array_header" where
  "arr_header (ArrNull h) = h"
| "arr_header (ArrBoolean h _) = h"
| "arr_header (ArrUint8 h _) = h"
| "arr_header (ArrInt8 h _) = h"
| "arr_header (ArrUint16 h _) = h"
| "arr_header (ArrInt16 h _) = h"
| "arr_header (ArrUint32 h _) = h"
| "arr_header (ArrInt32 h _) = h"
| "arr_header (ArrUint64 h _) = h"
| "arr_header (ArrInt64 h _) = h"
| "arr_header (ArrFloat16 h _) = h"
| "arr_header (ArrFloat32 h _) = h"
| "arr_header (ArrFloat64 h _) = h"
| "arr_header (ArrString h _ _) = h"
| "arr_header (ArrBinary h _ _) = h"
| "arr_header (ArrFixedSizeBinary h _ _) = h"
| "arr_header (ArrDate32 h _) = h"
| "arr_header (ArrDate64 h _) = h"
| "arr_header (ArrTimestamp h _) = h"
| "arr_header (ArrTime32 h _) = h"
| "arr_header (ArrTime64 h _) = h"
| "arr_header (ArrDuration h _) = h"
| "arr_header (ArrMonthInterval h _) = h"
| "arr_header (ArrDayTimeInterval h _) = h"
| "arr_header (ArrMonthDayNanoInterval h _) = h"
| "arr_header (ArrDecimal128 h _) = h"
| "arr_header (ArrList h _ _) = h"
| "arr_header (ArrStruct h _) = h"
| "arr_header (ArrMap h _ _ _ _) = h"
| "arr_header (ArrFixedSizeList h _ _) = h"

text \<open>The type that an array is of.\<close>

fun arr_kind :: "arrow_array \<Rightarrow> arrow_id" where
  "arr_kind (ArrNull _) = ID_NULL"
| "arr_kind (ArrBoolean _ _) = ID_BOOL"
| "arr_kind (ArrUint8 _ _) = ID_UINT8"
| "arr_kind (ArrInt8 _ _) = ID_INT8"
| "arr_kind (ArrUint16 _ _) = ID_UINT16"
| "arr_kind (ArrInt16 _ _) = ID_INT16"
| "arr_kind (ArrUint32 _ _) = ID_UINT32"
| "arr_kind (ArrInt32 _ _) = ID_INT32"
| "arr_kind (ArrUint64 _ _) = ID_UINT64"
| "arr_kind (ArrInt64 _ _) = ID_INT64"
| "arr_kind (ArrFloat16 _ _) = ID_FLOAT16"
| "arr_kind (ArrFloat32 _ _) = ID_FLOAT32"
| "arr_kind (ArrFloat64 _ _) = ID_FLOAT64"
| "arr_kind (ArrString _ _ _) = ID_STRING"
| "arr_kind (ArrBinary _ _ _) = ID_BINARY"
| "arr_kind (ArrFixedSizeBinary _ _ _) = ID_FIXED_SIZE_BINARY"
| "arr_kind (ArrDate32 _ _) = ID_DATE32"
| "arr_kind (ArrDate64 _ _) = ID_DATE64"
| "arr_kind (ArrTimestamp _ _) = ID_TIMESTAMP"
| "arr_kind (ArrTime32 _ _) = ID_TIME32"
| "arr_kind (ArrTime64 _ _) = ID_TIME64"
| "arr_kind (ArrDuration _ _) = ID_DURATION"
| "arr_kind (ArrMonthInterval _ _) = ID_INTERVAL_MONTHS"
| "arr_kind (ArrDayTimeInterval _ _) = ID_INTERVAL_DAY_TIME"
| "arr_kind (ArrMonthDayNanoInterval _ _) = ID_INTERVAL_MONTH_DAY_NANO"
| "arr_kind (ArrDecimal128 _ _) = ID_DECIMAL128"
| "arr_kind (ArrList _ _ _) = ID_LIST"
| "arr_kind (ArrStruct _ _) = ID_STRUCT"
| "arr_kind (ArrMap _ _ _ _ _) = ID_MAP"
| "arr_kind (ArrFixedSizeList _ _ _) = ID_FIXED_SIZE_LIST"

definition NullN :: "array_header \<Rightarrow> int outcome" where
  "NullN h =
     (if ad_nulls (hd_data h) < 0
      then omap (\<lambda>n. ad_length (hd_data h) - n) (CountSetBits (hd_bitmap h) (ad_offset (hd_data h)) (ad_length (hd_data h)))
      else Ret (ad_nulls (hd_data h)))"

definition IsNull :: "array_header \<Rightarrow> int \<Rightarrow> bool outcome" where
  "IsNull h i = (if hd_bitmap h = [] then Ret False else BitIsNotSet (hd_bitmap h) (ad_offset (hd_data h) + i))"

definition IsValid :: "array_header \<Rightarrow> int \<Rightarrow> bool outcome" where
  "IsValid h i = (if hd_bitmap h = [] then Ret True else BitIsSet (hd_bitmap h) (ad_offset (hd_data h) + i))"

definition NewSlice :: "arrow_array \<Rightarrow> int \<Rightarrow> int \<Rightarrow> arrow_array outcome" where
  "NewSlice arr i j = obind (NewSliceData (hd_data (arr_header arr)) i j) MakeFromData"

definition num_Value :: "'a list \<Rightarrow> int \<Rightarrow> 'a outcome" where
  "num_Value vs i = index_at vs i"

definition Boolean_Value :: "array_header \<Rightarrow> byte list \<Rightarrow> int \<Rightarrow> bool outcome" where
  "Boolean_Value h vs i =
     (if i < 0 \<or> i \<ge> ad_length (hd_data h) then Panic ExplicitPanic else BitIsSet vs (ad_offset (hd_data h) + i))"

definition String_Value :: "array_header \<Rightarrow> i32 list \<Rightarrow> byte list \<Rightarrow> int \<Rightarrow> byte list outcome" where
  "String_Value h offs vs i =
     (let k = i + ad_offset (hd_data h) in
      obind (index_at offs k) (\<lambda>b. obind (index_at offs (k + 1)) (\<lambda>e. slice_range (sint b) (sint e) vs)))"

definition Binary_Value :: "array_header \<Rightarrow> i32 list \<Rightarrow> byte list \<Rightarrow> int \<Rightarrow> byte list outcome" where
  "Binary_Value h offs vs i =
     (if i < 0 \<or> i \<ge> ad_length (hd_data h) then Panic ExplicitPanic
      else let k = ad_offset (hd_data h) + i in
        obind (index_at offs k) (\<lambda>b. obind (index_at offs (k + 1)) (\<lambda>e. slice_range (sint b) (sint e) vs)))"

definition FixedSizeBinary_Value :: "array_header \<Rightarrow> int \<Rightarrow> byte list \<Rightarrow> int \<Rightarrow> byte list outcome" where
  "FixedSizeBinary_Value h bw vs i =
     (let k = i + ad_offset (hd_data h) in slice_range (k * bw) ((k + 1) * bw) vs)"

definition newListValue :: "array_header \<Rightarrow> i32 list \<Rightarrow> arrow_array \<Rightarrow> int \<Rightarrow> arrow_array outcome" where
  "newListValue h offs vs i =
     (let j = i + ad_offset (hd_data h) in
      obind (index_at offs j) (\<lambda>b. obind (index_at offs (j + 1)) (\<lambda>e. NewSlice vs (sint b) (sint e))))"

definition newFixedListValue :: "array_header \<Rightarrow> i32 \<Rightarrow> arrow_array \<Rightarrow> int \<Rightarrow> arrow_array outcome" where
  "newFixedListValue h n vs i =
     (let off = ad_offset (hd_data h) in NewSlice vs ((off + i) * sint n) ((off + (i + 1)) * sint n))"

text \<open>The elements of the three kinds of lists; a map is a list of its entries.\<close>

fun ListValue :: "arrow_array \<Rightarrow> int \<Rightarrow> arrow_array outcome" where
  "ListValue (ArrList h offs vs) i = newListValue h offs vs i"
| "ListValue (ArrMap h offs vs ks its) i = newListValue h offs vs i"
| "ListValue (ArrFixedSizeList h n vs) i = newFixedListValue h n vs i"
| "ListValue _ i = Panic TypeAssertion"

text \<open>The value of a cell, whatever the type of its array; the arrays with children are read through their children.\<close>

datatype cell =
    CBool bool | CInt int | CDecimal Num | CBinary "byte list" | CDayTime "i32 \<times> i32" | CMonthDayNano "i32 \<times> i32 \<times> i64"

fun Value :: "arrow_array \<Rightarrow> int \<Rightarrow> cell outcome" where
  "Value (ArrBoolean h vs) i = omap CBool (Boolean_Value h vs i)"
| "Value (ArrUint8 h vs) i = omap (CInt \<circ> uint) (num_Value vs i)"
| "Value (ArrInt8 h vs) i = omap (CInt \<circ> sint) (num_Value vs i)"
| "Value (ArrUint16 h vs) i = omap (CInt \<circ> uint) (num_Value vs i)"
| "Value (ArrInt16 h vs) i = omap (CInt \<circ> sint) (num_Value vs i)"
| "Value (ArrUint32 h vs) i = omap (CInt \<circ> uint) (num_Value vs i)"
| "Value (ArrInt32 h vs) i = omap (CInt \<circ> sint) (num_Value vs i)"
| "Value (ArrUint64 h vs) i = omap (CInt \<circ> uint) (num_Value vs i)"
| "Value (ArrInt64 h vs) i = omap (CInt \<circ> sint) (num_Value vs i)"
| "Value (ArrFloat16 h vs) i = omap (CInt \<circ> uint) (num_Value vs i)"
| "Value (ArrFloat32 h vs) i = omap (CInt \<circ> uint) (num_Value vs i)"
| "Value (ArrFloat64 h vs) i = omap (CInt \<circ> uint) (num_Value vs i)"
| "Value (ArrString h offs vs) i = omap CBinary (String_Value h offs vs i)"
| "Value (ArrBinary h offs vs) i = omap CBinary (Binary_Value h offs vs i)"
| "Value (ArrFixedSizeBinary h w vs) i = omap CBinary (FixedSizeBinary_Value h w vs i)"
| "Value (ArrDate32 h vs) i = omap (CInt \<circ> sint) (num_Value vs i)"
| "Value (ArrDate64 h vs) i = omap (CInt \<circ> sint) (num_Value vs i)"
| "Value (ArrTimestamp h vs) i = omap (CInt \<circ> sint) (num_Value vs i)"
| "Value (ArrTime32 h vs) i = omap (CInt \<circ> sint) (num_Value vs i)"
| "Value (ArrTime64 h vs) i = omap (CInt \<circ> sint) (num_Value vs i)"
| "Value (ArrDuration h vs) i = omap (CInt \<circ> sint) (num_Value vs i)"
| "Value (ArrMonthInterval h vs) i = omap (CInt \<circ> sint) (num_Value vs i)"
| "Value (ArrDayTimeInterval h vs) i = omap CDayTime (num_Value vs i)"
| "Value (ArrMonthDayNanoInterval h vs) i = omap CMonthDayNano (num_Value vs i)"
| "Value (ArrDecimal128 h vs) i = omap CDecimal (num_Value vs i)"
| "Value _ i = Panic TypeAssertion"

subsection \<open>A slice reads the elements of its array\<close>

text \<open>
  The arrays of the model are those that \<open>MakeFromData\<close> builds. Slicing one of them gives an array of the same type whose cells
  and whose validity are those of the array from the start of the slice on; the accessors of the fixed-width arrays cut the values
  once, the others add the offset at every access.
\<close>

lemma CastFromBytes_length [simp]: "length (CastFromBytes w dec bs) = length bs div w"
  by (simp add: CastFromBytes_def)

lemma words_of_length: "length (words_of bs :: 'a :: len word list) = length bs div (LENGTH('a) div 8)"
  by (simp add: words_of_def)

lemma slice_range_Ret: "slice_range b e xs = Ret ys \<longleftrightarrow>
    0 \<le> b \<and> b \<le> e \<and> nat e \<le> length xs \<and> ys = take (nat (e - b)) (drop (nat b) xs)"
  by (auto simp: slice_range_def nat_le_iff)

lemma header_slice:
  assumes "NewSliceData d i j = Ret s"
  shows "hd_bitmap (array_setData s) = hd_bitmap (array_setData d)" "ad_offset s = ad_offset d + i" "ad_length s = j - i"
    "ad_buffers s = ad_buffers d" "ad_children s = ad_children d" "ad_dtype s = ad_dtype d" "i \<le> j" "j \<le> ad_length d"
  using assms by (auto simp: NewSliceData_def array_setData_def split: if_splits)

lemma num_slice:
  assumes a: "num_setData C (cast :: byte list \<Rightarrow> 'a list) d = Ret a" and s: "NewSliceData d i j = Ret s" and i: "0 \<le> i"
  shows "\<exists>vs ws. a = C (array_setData d) vs \<and> num_setData C cast s = Ret (C (array_setData s) ws) \<and>
           (\<forall>k. 0 \<le> k \<and> k < j - i \<longrightarrow> index_at ws k = index_at vs (i + k))"
proof -
  note h = header_slice [OF s]
  have b1: "buffer1 s = buffer1 d" by (simp add: buffer1_def h)
  obtain vals where vals: "buffer1 d = Ret vals"
    using a by (auto simp: num_setData_def Let_def obind_Ret_iff)
  show ?thesis
  proof (cases vals)
    case None
    have "index_at ([] :: 'a list) k = index_at ([] :: 'a list) l" for k l by (simp add: index_at_def)
    with None show ?thesis using a vals b1 by (auto simp: num_setData_def intro!: exI [of _ "[] :: 'a list"])
  next
    case (Some bs)
    define V where "V = cast bs"
    define off where "off = ad_offset d"
    from a vals Some have r: "0 \<le> off" "0 \<le> ad_length d" "nat (off + ad_length d) \<le> length V"
      and av: "a = C (array_setData d) (take (nat (ad_length d)) (drop (nat off) V))"
      by (auto simp: num_setData_def obind_Ret_iff slice_range_Ret V_def off_def)
    have "num_setData C cast s = Ret (C (array_setData s) (take (nat (j - i)) (drop (nat (off + i)) V)))"
      using vals b1 Some r i h by (auto simp: num_setData_def obind_Ret_iff slice_range_Ret V_def [symmetric] off_def [symmetric])
    moreover have "index_at (take (nat (j - i)) (drop (nat (off + i)) V)) k = index_at (take (nat (ad_length d)) (drop (nat off) V)) (i + k)"
      if "0 \<le> k \<and> k < j - i" for k
      using that r i h(7,8) by (auto simp: index_at_def nat_add_distrib add.assoc less_diff_conv nat_less_iff)
    ultimately show ?thesis using av by blast
  qed
qed

text \<open>What a slice \<open>b\<close> from \<open>i\<close> to \<open>j\<close> shares with its array \<open>a\<close>.\<close>

definition reads_from :: "arrow_array \<Rightarrow> arrow_array \<Rightarrow> int \<Rightarrow> int \<Rightarrow> bool" where
  "reads_from b a i j \<longleftrightarrow>
     arr_kind b = arr_kind a \<and> ad_length (hd_data (arr_header b)) = j - i \<and>
     (\<forall>k. 0 \<le> k \<and> k < j - i \<longrightarrow>
        Value b k = Value a (i + k) \<and> IsValid (arr_header b) k = IsValid (arr_header a) (i + k) \<and>
        IsNull (arr_header b) k = IsNull (arr_header a) (i + k))"

lemma valid_slice:
  assumes "NewSliceData d i j = Ret s"
  shows "IsValid (array_setData s) k = IsValid (array_setData d) (i + k)" "IsNull (array_setData s) k = IsNull (array_setData d) (i + k)"
    "ad_length (hd_data (array_setData s)) = j - i"
  using header_slice [OF assms] by (simp_all add: IsValid_def IsNull_def array_setData_def add.assoc)

lemma num_reads:
  assumes a: "num_setData C cast d = Ret a" and s: "NewSliceData d i j = Ret s" and i: "0 \<le> i"
    and C: "\<And>h vs. arr_header (C h vs) = h" "\<And>g h vs ws. arr_kind (C g ws) = arr_kind (C h vs)"
    and V: "\<And>g h vs ws k l. index_at ws k = index_at vs l \<Longrightarrow> Value (C g ws) k = Value (C h vs) l"
  shows "\<exists>b. num_setData C cast s = Ret b \<and> reads_from b a i j"
proof -
  obtain vs ws where "a = C (array_setData d) vs" and "num_setData C cast s = Ret (C (array_setData s) ws)"
    and "\<And>k. 0 \<le> k \<Longrightarrow> k < j - i \<Longrightarrow> index_at ws k = index_at vs (i + k)"
    using num_slice [OF a s i] by blast
  then show ?thesis using valid_slice [OF s] V C(2) by (auto simp: reads_from_def C(1))
qed

lemma hd_data_setData [simp]: "hd_data (array_setData d) = d"
  by (simp add: array_setData_def)

lemma value_slice:
  assumes s: "NewSliceData d i j = Ret s" and k: "0 \<le> i" "0 \<le> k" "k < j - i"
  shows "String_Value (array_setData s) offs vs k = String_Value (array_setData d) offs vs (i + k)"
    and "Binary_Value (array_setData s) offs vs k = Binary_Value (array_setData d) offs vs (i + k)"
    and "FixedSizeBinary_Value (array_setData s) w vs k = FixedSizeBinary_Value (array_setData d) w vs (i + k)"
    and "Boolean_Value (array_setData s) vs k = Boolean_Value (array_setData d) vs (i + k)"
proof -
  note h = header_slice(2,3,8) [OF s]
  have e: "k + (ad_offset d + i) = i + k + ad_offset d" "ad_offset d + i + k = ad_offset d + (i + k)" by simp_all
  show "String_Value (array_setData s) offs vs k = String_Value (array_setData d) offs vs (i + k)"
    by (simp add: String_Value_def h e(1))
  show "FixedSizeBinary_Value (array_setData s) w vs k = FixedSizeBinary_Value (array_setData d) w vs (i + k)"
    by (simp add: FixedSizeBinary_Value_def h e(1))
  show "Binary_Value (array_setData s) offs vs k = Binary_Value (array_setData d) offs vs (i + k)"
    "Boolean_Value (array_setData s) vs k = Boolean_Value (array_setData d) vs (i + k)"
    using k h(3) by (simp_all add: Binary_Value_def Boolean_Value_def h(1,2) e(2))
qed

lemma flat_reads:
  assumes a: "flat_setData d = Ret a" and s: "NewSliceData d i j = Ret s" and i: "0 \<le> i"
  shows "\<exists>b. flat_setData s = Ret b \<and> reads_from b a i j"
proof -
  note h = header_slice(4,6) [OF s] and v = valid_slice [OF s] value_slice [OF s i]
  have b1: "buffer1 s = buffer1 d" by (simp add: buffer1_def h)
  note num = num_reads [OF _ s i]
  show ?thesis
  proof (cases "dt_ID (ad_dtype d)")
    case ID_NULL
    then show ?thesis using a h(2) header_slice(3) [OF s]
      by (auto simp: flat_setData_def Null_setData_def reads_from_def IsValid_def IsNull_def)
  next
    case ID_BOOL
    then show ?thesis using a h(2) v b1
      by (auto simp: flat_setData_def Boolean_setData_def obind_Ret_iff reads_from_def)
  next
    case ID_STRING
    then show ?thesis using a h v by (auto simp: flat_setData_def bytes_setData_def reads_from_def split: if_splits)
  next
    case ID_BINARY
    then show ?thesis using a h v by (auto simp: flat_setData_def bytes_setData_def reads_from_def split: if_splits)
  next
    case ID_FIXED_SIZE_BINARY
    then show ?thesis using a h v b1
      by (auto simp: flat_setData_def FixedSizeBinary_setData_def reads_from_def obind_Ret_iff split: dtype.splits)
  qed (insert a, (simp add: flat_setData_def h(2); rule num, assumption, simp, simp, simp add: num_Value_def)+)
qed

lemma list_value_slice:
  assumes "NewSliceData d i j = Ret s"
  shows "newListValue (array_setData s) offs vs k = newListValue (array_setData d) offs vs (i + k)"
    and "newFixedListValue (array_setData s) n vs k = newFixedListValue (array_setData d) n vs (i + k)"
  using header_slice(2) [OF assms] by (simp_all add: newListValue_def newFixedListValue_def Let_def ac_simps)

lemma list_offsets_slice: "NewSliceData d i j = Ret s \<Longrightarrow> list_offsets s = list_offsets d \<and> child_at s k = child_at d k \<and>
    Map_validateData s = Map_validateData d"
  by (simp add: list_offsets_def buffer1_def child_at_def Map_validateData_def header_slice)

text \<open>Slicing an array is building the array of the sliced data; only an array of nulls has data of its own.\<close>

lemma flat_header:
  assumes a: "flat_setData d = Ret a"
  shows "dt_ID (ad_dtype d) \<noteq> ID_NULL \<Longrightarrow> hd_data (arr_header a) = d" and "ListValue a k = Panic TypeAssertion"
  using a by (auto simp: flat_setData_def Null_setData_def Boolean_setData_def bytes_setData_def FixedSizeBinary_setData_def obind_Ret_iff
      num_setData_def Let_def split: arrow_id.splits dtype.splits option.splits if_splits)

lemma nested_reads:
  assumes "NewSliceData d i j = Ret s" "arr_header a = array_setData d" "arr_header b = array_setData s"
    and "arr_kind b = arr_kind a" "\<And>k. Value a k = Panic TypeAssertion" "\<And>k. Value b k = Panic TypeAssertion"
  shows "reads_from b a i j"
  using assms valid_slice [OF assms(1)] by (auto simp: reads_from_def)

lemma NewSliceData_bounds: "0 \<le> i \<Longrightarrow> i \<le> j \<Longrightarrow> j \<le> ad_length d \<Longrightarrow> \<exists>s. NewSliceData d i j = Ret s"
  by (auto simp: NewSliceData_def)

lemma NewSlice_flat:
  assumes m: "MakeFromData d = Ret a" and f: "MakeFromData d = flat_setData d" "\<And>s. ad_dtype s = ad_dtype d \<Longrightarrow> MakeFromData s = flat_setData s"
    and i: "0 \<le> i" "i \<le> j" "j \<le> ad_length d"
  shows "\<exists>b. NewSlice a i j = Ret b \<and> reads_from b a i j \<and> (\<forall>k. ListValue b k = ListValue a (i + k))"
proof -
  define e where "e = hd_data (arr_header a)"
  have fe: "flat_setData e = Ret a" and len: "ad_length e = ad_length d" and t: "ad_dtype e = ad_dtype d"
  proof -
    show "flat_setData e = Ret a" "ad_length e = ad_length d" "ad_dtype e = ad_dtype d"
    proof (atomize (full), cases "dt_ID (ad_dtype d) = ID_NULL")
      case True
      then show "flat_setData e = Ret a \<and> ad_length e = ad_length d \<and> ad_dtype e = ad_dtype d"
        using m f(1) by (auto simp: e_def flat_setData_def Null_setData_def)
    next
      case False
      then show "flat_setData e = Ret a \<and> ad_length e = ad_length d \<and> ad_dtype e = ad_dtype d"
        using m f(1) flat_header(1) [of d a] by (simp add: e_def)
    qed
  qed
  obtain s where s: "NewSliceData e i j = Ret s" using NewSliceData_bounds i len by metis
  obtain b where b: "flat_setData s = Ret b" "reads_from b a i j" using flat_reads [OF fe s i(1)] by blast
  have "MakeFromData s = Ret b" using b(1) f(2) [of s] header_slice(6) [OF s] t by simp
  then show ?thesis using s b flat_header(2) [OF b(1)] flat_header(2) [OF fe] by (auto simp: NewSlice_def e_def)
qed

lemma slice_reads_range:
  assumes "MakeFromData d = Ret a" and "dt_ID (ad_dtype d) \<noteq> ID_STRUCT" and "0 \<le> i" and "i \<le> j" and "j \<le> ad_length d"
  shows "\<exists>b. NewSlice a i j = Ret b \<and> reads_from b a i j \<and> (\<forall>k. ListValue b k = ListValue a (i + k))"
proof -
  obtain s where s: "NewSliceData d i j = Ret s" using NewSliceData_bounds assms by metis
  note h = header_slice(6) [OF s] list_offsets_slice [OF s]
  note l = list_value_slice [OF s]
  consider (lst) "dt_ID (ad_dtype d) = ID_LIST" | (mp) "dt_ID (ad_dtype d) = ID_MAP" | (fl) n where "ad_dtype d = DTFixedSizeList n"
    | (flat) "dt_ID (ad_dtype d) \<noteq> ID_LIST" "dt_ID (ad_dtype d) \<noteq> ID_MAP" "\<nexists>n. ad_dtype d = DTFixedSizeList n"
    by blast
  then show ?thesis
  proof cases
    case lst
    then obtain offs vs where a: "a = ArrList (array_setData d) offs vs"
      and b: "MakeFromData s = Ret (ArrList (array_setData s) offs vs)"
      using assms(1) h by (auto simp: MakeFromData.simps [of d] MakeFromData.simps [of s] obind_Ret_iff)
    show ?thesis using s a b l by (auto simp: NewSlice_def intro: nested_reads)
  next
    case mp
    then obtain offs vs ks its where a: "a = ArrMap (array_setData d) offs vs ks its"
      and b: "MakeFromData s = Ret (ArrMap (array_setData s) offs vs ks its)"
      using assms(1) h by (auto simp: MakeFromData.simps [of d] MakeFromData.simps [of s] obind_Ret_iff)
    show ?thesis using s a b l by (auto simp: NewSlice_def intro: nested_reads)
  next
    case fl
    then obtain vs where a: "a = ArrFixedSizeList (array_setData d) n vs"
      and b: "MakeFromData s = Ret (ArrFixedSizeList (array_setData s) n vs)"
      using assms(1) h by (auto simp: MakeFromData.simps [of d] MakeFromData.simps [of s] obind_Ret_iff)
    show ?thesis using s a b l by (auto simp: NewSlice_def intro: nested_reads)
  next
    case flat
    have f: "ad_dtype t = ad_dtype d \<Longrightarrow> MakeFromData t = flat_setData t" for t
      using flat assms(2) by (subst MakeFromData.simps) (auto split: dtype.splits)
    show ?thesis by (rule NewSlice_flat [OF assms(1) f f]) (use assms in simp_all)
  qed
qed


definition sample_ints :: array_data where
  "sample_ints = ArrayData (DT ID_INT32) 4 [Some [0x1D], Some [9, 0, 0, 0, 1, 0, 0, 0, 2, 0, 0, 0, 3, 0, 0, 0, 254, 255, 255, 255]] [] 1 1"


end
