(* ===== verification/ArrowValues.thy ===== *)
theory ArrowValues
  imports ArrowArrays Containers Columns Dates
begin

section \<open>Arrow batches as records\<close>

text \<open>
  Models \<^verbatim>\<open>odps/tableschema/arrow_util.go\<close> from the options on: the conversion of one cell of an arrow array to a value of the
  column's type, and of a record batch to records. (\<^verbatim>\<open>TypeToArrowType\<close> of the same file is in \<open>SessionBase\<close>.)
  \<^item> \<open>epoch_day\<close> is \<^verbatim>\<open>time.Unix(0, 0).AddDate(0, 0, days)\<close>, which counts the days on the wall clock of the process's time zone;
    the zone is a parameter.
  \<^item> A batch is its number of rows and its columns.
\<close>

datatype TimeUnit = USecond | UMilli | UMicro | UNano | UOther string

record arrow_options =
  ao_ExtendedMode :: bool
  ao_TimestampUnit :: TimeUnit
  ao_DatetimeUnit :: TimeUnit

type_synonym ArrowOption = "arrow_options \<Rightarrow> arrow_options"

definition newTypeConvertConfig :: "ArrowOption list \<Rightarrow> arrow_options" where
  "newTypeConvertConfig opts =
     foldl (\<lambda>cfg opt. opt cfg) \<lparr>ao_ExtendedMode = False, ao_TimestampUnit = UNano, ao_DatetimeUnit = UMilli\<rparr> opts"

definition withExtendedMode :: ArrowOption where "withExtendedMode cfg = cfg\<lparr>ao_ExtendedMode := True\<rparr>"
definition withTimestampUnit :: "TimeUnit \<Rightarrow> ArrowOption" where "withTimestampUnit u cfg = cfg\<lparr>ao_TimestampUnit := u\<rparr>"
definition withDatetimeUnit :: "TimeUnit \<Rightarrow> ArrowOption" where "withDatetimeUnit u cfg = cfg\<lparr>ao_DatetimeUnit := u\<rparr>"

subsection \<open>Cells of the simple types\<close>

definition unsupported_type :: "Data outcome" where
  "unsupported_type = Fail (ErrMsg ''unsupported ODPS type'')"

text \<open>The time of an epoch count; an unknown unit leaves the switch without a value.\<close>

fun epoch_time :: "TimeUnit \<Rightarrow> int \<Rightarrow> gotime option" where
  "epoch_time USecond t = Some (time_Unix t 0)"
| "epoch_time UMilli t = Some (time_Unix (t sdiv 1000) ((t smod 1000) * 1000000))"
| "epoch_time UMicro t = Some (time_Unix (t sdiv 1000000) ((t smod 1000000) * 1000))"
| "epoch_time UNano t = Some (time_Unix 0 t)"
| "epoch_time (UOther u) t = None"

fun timestamp_cell :: "(gotime \<Rightarrow> Data) \<Rightarrow> TimeUnit \<Rightarrow> arrow_array \<Rightarrow> int \<Rightarrow> Data outcome" where
  "timestamp_cell C unit (ArrTimestamp h vs) idx =
     obind (num_Value vs idx) (\<lambda>v. case epoch_time unit (sint v) of None \<Rightarrow> unsupported_type | Some t \<Rightarrow> Ret (C t))"
| "timestamp_cell C unit _ idx = Panic TypeAssertion"

definition Field :: "arrow_array list \<Rightarrow> int \<Rightarrow> arrow_array outcome" where
  "Field fs i = index_at fs i"

fun extended_timestamp_cell :: "(gotime \<Rightarrow> Data) \<Rightarrow> arrow_array \<Rightarrow> int \<Rightarrow> Data outcome" where
  "extended_timestamp_cell C (ArrStruct h fs) idx =
     obind (Field fs 0) (\<lambda>f0.
     obind (case f0 of ArrInt64 _ vs \<Rightarrow> num_Value vs idx | _ \<Rightarrow> Panic TypeAssertion) (\<lambda>sec.
     obind (Field fs 1) (\<lambda>f1.
     obind (case f1 of ArrInt32 _ vs \<Rightarrow> num_Value vs idx | _ \<Rightarrow> Panic TypeAssertion) (\<lambda>nano.
     Ret (C (time_Unix (sint sec) (sint nano)))))))"
| "extended_timestamp_cell C _ idx = Panic TypeAssertion"

text \<open>
  A decimal in extended mode: a sign byte, the numbers of integer and fraction words, and words of nine decimal digits, those of the
  integer part upwards from byte 12, those of the fraction downwards from byte 8.
\<close>

definition word_at :: "byte list \<Rightarrow> int \<Rightarrow> nat outcome" where
  "word_at val b = omap (\<lambda>bs. unat (word_of_bytes bs :: u32)) (slice_range b (b + 4) val)"

definition decimal_words :: "byte list \<Rightarrow> int list \<Rightarrow> nat list outcome" where
  "decimal_words val ps = omap_list (word_at val) ps"

definition intg_positions :: "nat \<Rightarrow> int list" where
  "intg_positions n = map (\<lambda>j. 8 + int j * 4) (rev [1..<Suc n])"

definition frac_positions :: "nat \<Rightarrow> int list" where
  "frac_positions n = map (\<lambda>j. 8 - 4 * int j) [0..<n]"

fun intg_text :: "nat list \<Rightarrow> string" where
  "intg_text [] = []"
| "intg_text (w # ws) = show_nat w @ concat (map (\<lambda>v. pad_zeros 9 (show_nat v)) ws)"

definition frac_text :: "nat list \<Rightarrow> string" where
  "frac_text ws = concat (map (\<lambda>v. pad_zeros 9 (show_nat v)) ws)"

definition trim_decimal :: "string \<Rightarrow> string" where
  "trim_decimal s =
     (let r = TrimRightChar CHR ''0'' s in if r \<noteq> [] \<and> last r = CHR ''.'' then butlast r else r)"

definition extended_decimal :: "byte list \<Rightarrow> string outcome" where
  "extended_decimal val =
     (if length val < 8 then Fail (ErrMsg ''Unrecognized Decimal type'')
      else obind (decimal_words val (intg_positions (unat (val ! 2)))) (\<lambda>ws.
           obind (decimal_words val (frac_positions (unat (val ! 3)))) (\<lambda>fs.
           Ret (trim_decimal ((if val ! 1 > 0 then ''-'' else []) @ intg_text ws @ ''.'' @ frac_text fs)))))"

definition decimal_cell :: "arrow_options \<Rightarrow> i32 \<Rightarrow> i32 \<Rightarrow> arrow_array \<Rightarrow> int \<Rightarrow> Data outcome" where
  "decimal_cell cfg precision scale vector idx =
     (case vector of
        ArrFixedSizeBinary h w vs \<Rightarrow>
          (if ao_ExtendedMode cfg
           then obind (FixedSizeBinary_Value h w vs idx) (\<lambda>val.
                obind (extended_decimal val) (\<lambda>s. Ret (DDecimal (NewDecimal (sint precision) (sint scale) s))))
           else Panic TypeAssertion)
      | ArrDecimal128 h vs \<Rightarrow>
          obind (num_Value vs idx) (\<lambda>v. Ret (DDecimal (NewDecimalFromValue (sint precision) (sint scale) (BigInt v))))
      | _ \<Rightarrow> Panic TypeAssertion)"

fun primitive_cell :: "(int \<Rightarrow> gotime) \<Rightarrow> arrow_options \<Rightarrow> TypeID \<Rightarrow> arrow_array \<Rightarrow> int \<Rightarrow> Data outcome" where
  "primitive_cell epoch_day cfg BOOLEAN vector idx =
     (case vector of ArrBoolean h vs \<Rightarrow> omap DBool (Boolean_Value h vs idx) | _ \<Rightarrow> Panic TypeAssertion)"
| "primitive_cell epoch_day cfg TINYINT vector idx =
     (case vector of ArrInt8 h vs \<Rightarrow> omap DTinyInt (num_Value vs idx) | _ \<Rightarrow> Panic TypeAssertion)"
| "primitive_cell epoch_day cfg SMALLINT vector idx =
     (case vector of ArrInt16 h vs \<Rightarrow> omap DSmallInt (num_Value vs idx) | _ \<Rightarrow> Panic TypeAssertion)"
| "primitive_cell epoch_day cfg INTID vector idx =
     (case vector of ArrInt32 h vs \<Rightarrow> omap DInt (num_Value vs idx) | _ \<Rightarrow> Panic TypeAssertion)"
| "primitive_cell epoch_day cfg BIGINT vector idx =
     (case vector of ArrInt64 h vs \<Rightarrow> omap DBigInt (num_Value vs idx) | _ \<Rightarrow> Panic TypeAssertion)"
| "primitive_cell epoch_day cfg FLOAT vector idx =
     (case vector of ArrFloat32 h vs \<Rightarrow> omap DFloat (num_Value vs idx) | _ \<Rightarrow> Panic TypeAssertion)"
| "primitive_cell epoch_day cfg DOUBLE vector idx =
     (case vector of ArrFloat64 h vs \<Rightarrow> omap DDouble (num_Value vs idx) | _ \<Rightarrow> Panic TypeAssertion)"
| "primitive_cell epoch_day cfg BINARY vector idx =
     (case vector of ArrBinary h offs vs \<Rightarrow> omap DBinary (Binary_Value h offs vs idx) | _ \<Rightarrow> Panic TypeAssertion)"
| "primitive_cell epoch_day cfg DATE vector idx =
     (case vector of ArrDate32 h vs \<Rightarrow> omap (\<lambda>v. DDate (epoch_day (sint v))) (num_Value vs idx) | _ \<Rightarrow> Panic TypeAssertion)"
| "primitive_cell epoch_day cfg DATETIME vector idx = timestamp_cell DDateTime (ao_DatetimeUnit cfg) vector idx"
| "primitive_cell epoch_day cfg TIMESTAMP vector idx =
     (if ao_ExtendedMode cfg then extended_timestamp_cell DTimestamp vector idx
      else timestamp_cell DTimestamp (ao_TimestampUnit cfg) vector idx)"
| "primitive_cell epoch_day cfg TIMESTAMP_NTZ vector idx =
     (if ao_ExtendedMode cfg then extended_timestamp_cell DTimestampNtz vector idx
      else timestamp_cell DTimestampNtz (ao_TimestampUnit cfg) vector idx)"
| "primitive_cell epoch_day cfg t vector idx =
     (if t \<in> {CHARID, VARCHAR, STRING, JSON}
      then (case vector of ArrString h offs vs \<Rightarrow> omap (\<lambda>bs. DString (string_of bs)) (String_Value h offs vs idx)
            | _ \<Rightarrow> Panic TypeAssertion)
      else if t \<in> {DECIMAL, ARRAY, MAP, STRUCT} then Panic TypeAssertion
      else unsupported_type)"

subsection \<open>Cells of the nested types\<close>

text \<open>
  A list takes its length from the offsets and then its elements from the start of the child array: the loop variable is an offset,
  and the element that is read is at the loop variable minus the first offset.
\<close>

definition list_range :: "i32 list \<Rightarrow> int \<Rightarrow> nat outcome" where
  "list_range offs idx =
     obind (index_at offs idx) (\<lambda>start. obind (index_at offs (idx + 1)) (\<lambda>e. Ret (nat (sint e - sint start))))"

definition checked_range :: "i32 list \<Rightarrow> int \<Rightarrow> nat outcome" where
  "checked_range offs idx =
     obind (index_at offs idx) (\<lambda>start. obind (index_at offs (idx + 1)) (\<lambda>e.
       if sint (e - start) < 0 then Panic MakeSliceLen else Ret (nat (sint e - sint start))))"

definition put_pair :: "Data \<Rightarrow> Data \<Rightarrow> (Data option \<times> Data option) list \<Rightarrow> (Data option \<times> Data option) list outcome" where
  "put_pair k v kvs = map_put (Some k) (Some v) kvs"

definition goval_of :: "Data option \<Rightarrow> goval" where
  "goval_of d = (case d of None \<Rightarrow> GNil | Some x \<Rightarrow> GData x)"

definition MapFromGoMap :: "(Data option \<times> Data option) list \<Rightarrow> Data outcome" where
  "MapFromGoMap kvs =
     obind (TryConvertGoToOdpsData (GMap (map (\<lambda>(k, v). (goval_of k, goval_of v)) kvs))) (\<lambda>mm.
       case mm of Some m \<Rightarrow> Ret m | None \<Rightarrow> Panic NilDereference)"

lemma struct_field_less [termination_simp]:
  "((n, t), y) \<in> set (zip ts fs) \<Longrightarrow> size t < Suc (size_list (\<lambda>x. Suc (size (snd x))) ts)"
  by (induction ts fs rule: list_induct2') (auto simp: less_Suc_eq_le)

fun toMaxComputeData :: "(int \<Rightarrow> gotime) \<Rightarrow> arrow_options \<Rightarrow> DataType \<Rightarrow> arrow_array \<Rightarrow> int \<Rightarrow> Data outcome" where
  "toMaxComputeData epoch_day cfg NilType vector idx = Panic NilDereference"
| "toMaxComputeData epoch_day cfg (PrimitiveType t) vector idx = primitive_cell epoch_day cfg t vector idx"
| "toMaxComputeData epoch_day cfg (CharType n) vector idx = primitive_cell epoch_day cfg CHARID vector idx"
| "toMaxComputeData epoch_day cfg (VarcharType n) vector idx = primitive_cell epoch_day cfg VARCHAR vector idx"
| "toMaxComputeData epoch_day cfg JsonType vector idx = primitive_cell epoch_day cfg JSON vector idx"
| "toMaxComputeData epoch_day cfg (DecimalType p s) vector idx = decimal_cell cfg p s vector idx"
| "toMaxComputeData epoch_day cfg (ArrayType elem) vector idx =
     (case vector of
        ArrList h offs child \<Rightarrow>
          obind (checked_range offs idx) (\<lambda>n.
          obind (omap_list (\<lambda>j. toMaxComputeData epoch_day cfg elem child (int j)) [0..<n]) (\<lambda>ds.
          ArrayFromSlice (map GData ds)))
      | _ \<Rightarrow> Panic TypeAssertion)"
| "toMaxComputeData epoch_day cfg (MapType kt vt) vector idx =
     (case vector of
        ArrMap h offs vals ks its \<Rightarrow>
          obind (list_range offs idx) (\<lambda>n.
          obind (ofold (\<lambda>j m.
              obind (toMaxComputeData epoch_day cfg kt ks (int j)) (\<lambda>k.
              obind (toMaxComputeData epoch_day cfg vt its (int j)) (\<lambda>v. put_pair k v m))) [0..<n] []) MapFromGoMap)
      | _ \<Rightarrow> Panic TypeAssertion)"
| "toMaxComputeData epoch_day cfg (StructType ts) vector idx =
     (case vector of
        ArrStruct h fs \<Rightarrow>
          obind (ofold (\<lambda>(ft, fa) s. obind (toMaxComputeData epoch_day cfg (snd ft) fa idx) (\<lambda>v.
              final_state (SetField (fst ft) (GData v)) s)) (zip ts fs) (NewStructWithTyp ts))
            (\<lambda>s. if length ts < length fs then Panic IndexOutOfRange else Ret s)
      | _ \<Rightarrow> Panic TypeAssertion)"

subsection \<open>Batches\<close>

record arrow_batch =
  ab_rows :: int
  ab_columns :: "arrow_array list"

definition column_cell :: "(int \<Rightarrow> gotime) \<Rightarrow> arrow_options \<Rightarrow> Column list \<Rightarrow> int \<Rightarrow> nat \<times> arrow_array \<Rightarrow> Data outcome" where
  "column_cell epoch_day cfg columns i jc =
     (case jc of (j, col) \<Rightarrow>
        obind (IsValid (arr_header col) i) (\<lambda>valid.
          if valid then
            if j < length columns then toMaxComputeData epoch_day cfg (col_Type (columns ! j)) col i else Panic IndexOutOfRange
          else Ret DNull))"

definition batch_row :: "(int \<Rightarrow> gotime) \<Rightarrow> arrow_options \<Rightarrow> Column list \<Rightarrow> arrow_array list \<Rightarrow> int \<Rightarrow> Record outcome" where
  "batch_row epoch_day cfg columns cols i =
     omap (map Some) (omap_list (column_cell epoch_day cfg columns i) (enumerate 0 cols))"

definition ToMaxComputeRecords :: "(int \<Rightarrow> gotime) \<Rightarrow> arrow_batch \<Rightarrow> Column list \<Rightarrow> ArrowOption list \<Rightarrow> Record list outcome" where
  "ToMaxComputeRecords epoch_day batch columns opts =
     (let cfg = newTypeConvertConfig opts
      in if ab_rows batch < 0 then Panic MakeSliceLen
         else omap_list (\<lambda>i. batch_row epoch_day cfg columns (ab_columns batch) (int i)) [0..<nat (ab_rows batch)])"

subsection \<open>Epoch counts\<close>

text \<open>Nanoseconds from the epoch, and the nanoseconds of one count of each unit.\<close>

definition nanos :: "gotime \<Rightarrow> int" where
  "nanos t = t_unix t * 10 ^ 9 + t_nsec t"

fun unit_nanos :: "TimeUnit \<Rightarrow> int" where
  "unit_nanos USecond = 10 ^ 9"
| "unit_nanos UMilli = 10 ^ 6"
| "unit_nanos UMicro = 10 ^ 3"
| "unit_nanos UNano = 1"
| "unit_nanos (UOther u) = 0"

lemma nanos_time_Unix:
  assumes "- (2 ^ 63) \<le> sec + ns div 10 ^ 9" "sec + ns div 10 ^ 9 < 2 ^ 63"
  shows "nanos (time_Unix sec ns) = sec * 10 ^ 9 + ns" "0 \<le> t_nsec (time_Unix sec ns)" "t_nsec (time_Unix sec ns) < 10 ^ 9"
proof -
  have "sint (word_of_int (sec + ns div 10 ^ 9) :: i64) = sec + ns div 10 ^ 9"
    using assms by (rule sint_word_i64)
  then show "nanos (time_Unix sec ns) = sec * 10 ^ 9 + ns"
    by (simp add: nanos_def time_Unix_def algebra_simps)
qed (simp_all add: time_Unix_def)

lemma quot_rem:
  assumes m: "0 < (m :: int)"
  shows "t = (t sdiv m) * m + t smod m" "- m < t smod m" "t smod m < m"
    "t sdiv m = (if 0 \<le> t then t div m else - ((- t) div m))"
proof -
  show q: "t sdiv m = (if 0 \<le> t then t div m else - ((- t) div m))"
    using m by (auto simp: signed_divide_int_def sgn_if)
  have r: "t smod m = (if 0 \<le> t then t mod m else - ((- t) mod m))"
    using m by (auto simp: signed_modulo_int_def sgn_if)
  have "t = t div m * m + t mod m" "- t = (- t) div m * m + (- t) mod m" by simp_all
  note e = this
  show "t = (t sdiv m) * m + t smod m"
  proof (cases "0 \<le> t")
    case True
    then show ?thesis by (simp add: q r)
  next
    case False
    then have "(t sdiv m) * m + t smod m = - ((- t) div m * m + (- t) mod m)" by (simp only: q r if_False minus_add_distrib minus_mult_left)
    then show ?thesis using e(2) by linarith
  qed
  have "- m < (if p then a else - b) \<and> (if p then a else - b) < m" if "0 \<le> a" "a < m" "0 \<le> b" "b < m" for a b p
    using that m by auto
  then have "- m < t smod m \<and> t smod m < m" unfolding r using m by simp
  then show "- m < t smod m" "t smod m < m" by simp_all
qed

lemma scaled_nanos:
  assumes t: "- (2 ^ 63) \<le> t" "t < 2 ^ 63" and m: "m = 1000 \<or> m = 1000000" "m * k = 10 ^ 9"
  shows "nanos (time_Unix (t sdiv m) ((t smod m) * k)) = t * k"
    and "0 \<le> t_nsec (time_Unix (t sdiv m) ((t smod m) * k))" and "t_nsec (time_Unix (t sdiv m) ((t smod m) * k)) < 10 ^ 9"
proof -
  have m0: "0 < m" using m by auto
  note q = quot_rem [OF m0, of t]
  have d: "- 1 \<le> (t smod m) * k div 10 ^ 9 \<and> (t smod m) * k div 10 ^ 9 \<le> 0"
    using q(2,3) m by auto
  have "- (2 ^ 62) \<le> t sdiv m \<and> t sdiv m < 2 ^ 62"
    using t m(1) by (auto simp: q(4))
  then have "- (2 ^ 63) \<le> t sdiv m + (t smod m) * k div 10 ^ 9" "t sdiv m + (t smod m) * k div 10 ^ 9 < 2 ^ 63"
    using d by auto
  note n = nanos_time_Unix [OF this]
  have "t * k = (t sdiv m) * (m * k) + (t smod m) * k" using q(1) by (metis distrib_right mult.assoc)
  then show "nanos (time_Unix (t sdiv m) ((t smod m) * k)) = t * k" using n(1) m(2) by simp
  show "0 \<le> t_nsec (time_Unix (t sdiv m) ((t smod m) * k))" "t_nsec (time_Unix (t sdiv m) ((t smod m) * k)) < 10 ^ 9"
    using n(2,3) by auto
qed

lemma epoch_time_nanos:
  assumes "epoch_time unit (sint (v :: i64)) = Some t"
  shows "nanos t = sint v * unit_nanos unit \<and> 0 \<le> t_nsec t \<and> t_nsec t < 10 ^ 9"
proof -
  have b: "- (2 ^ 63) \<le> sint v" "sint v < 2 ^ 63" using sint_greater_eq [of v] sint_less [of v] by auto
  show ?thesis
  proof (cases unit)
    case USecond
    then show ?thesis using assms nanos_time_Unix [of "sint v" 0] b by auto
  next
    case UMilli
    then show ?thesis using assms scaled_nanos [OF b, of 1000 1000000] by auto
  next
    case UMicro
    then show ?thesis using assms scaled_nanos [OF b, of 1000000 1000] by auto
  next
    case UNano
    then show ?thesis using assms nanos_time_Unix [of 0 "sint v"] b by auto
  qed (use assms in simp)
qed



subsection \<open>Decimals in extended mode\<close>

text \<open>The number that words of nine decimal digits denote, the highest first.\<close>

definition words_val :: "nat list \<Rightarrow> nat" where
  "words_val ws = foldl (\<lambda>acc w. acc * 10 ^ 9 + w) 0 ws"

lemma digits_val_append: "digits_val (s @ t) = digits_val s * 10 ^ length t + digits_val t"
proof (induction t rule: rev_induct)
  case (snoc c t)
  then show ?case using digits_val_snoc [of "s @ t" c] digits_val_snoc [of t c] by (simp add: algebra_simps)
qed (simp add: digits_val_def)

lemma padded_word:
  assumes "w < 10 ^ 9"
  shows "length (pad_zeros 9 (show_nat w)) = 9" "list_all is_digit (pad_zeros 9 (show_nat w))" "digits_val (pad_zeros 9 (show_nat w)) = w"
  using assms show_nat_digits [of w] show_nat_length [of w 9]
  by (auto simp: pad_zeros_def digits_val_zeros list_all_iff is_digit_def)

lemma padded_words:
  assumes "\<forall>w \<in> set ws. w < 10 ^ 9"
  shows "length (frac_text ws) = 9 * length ws \<and> list_all is_digit (frac_text ws) \<and>
    (\<forall>s. digits_val (s @ frac_text ws) = foldl (\<lambda>acc w. acc * 10 ^ 9 + w) (digits_val s) ws)"
  using assms
proof (induction ws)
  case (Cons w ws)
  have "frac_text (w # ws) = pad_zeros 9 (show_nat w) @ frac_text ws" by (simp add: frac_text_def)
  moreover have "digits_val (s @ pad_zeros 9 (show_nat w)) = digits_val s * 10 ^ 9 + w" for s
    using Cons.prems padded_word [of w] by (simp add: digits_val_append)
  ultimately show ?case using Cons padded_word [of w] by (simp flip: append_assoc)
qed (simp add: frac_text_def)

lemma intg_text_digits:
  assumes "\<forall>w \<in> set ws. w < 10 ^ 9"
  shows "list_all is_digit (intg_text ws)" "digits_val (intg_text ws) = words_val ws"
proof -
  show "list_all is_digit (intg_text ws)"
    using assms show_nat_digits padded_words [of "tl ws"] by (cases ws) (auto simp: frac_text_def)
  show "digits_val (intg_text ws) = words_val ws"
  proof (cases ws)
    case (Cons w vs)
    then have "digits_val (show_nat w @ frac_text vs) = foldl (\<lambda>acc w. acc * 10 ^ 9 + w) w vs"
      using assms padded_words [of vs] show_nat_digits [of w] by simp
    then show ?thesis using Cons by (simp add: words_val_def frac_text_def)
  qed (simp add: words_val_def digits_val_def)
qed

lemma TrimRightChar_append:
  "TrimRightChar c (s @ t) = (if list_all (\<lambda>x. x = c) t then TrimRightChar c s else s @ TrimRightChar c t)"
  by (auto simp: TrimRightChar_def dropWhile_append list_all_iff)

lemma TrimRightChar_rest:
  "\<exists>k. s = TrimRightChar c s @ replicate k c" "TrimRightChar c s = [] \<or> last (TrimRightChar c s) \<noteq> c"
proof -
  have "takeWhile (\<lambda>x. x = c) xs = replicate (length (takeWhile (\<lambda>x. x = c) xs)) c" for xs
    by (induction xs) auto
  then have "rev s = replicate (length (takeWhile (\<lambda>x. x = c) (rev s))) c @ dropWhile (\<lambda>x. x = c) (rev s)"
    by (metis takeWhile_dropWhile_id)
  then show "\<exists>k. s = TrimRightChar c s @ replicate k c"
    unfolding TrimRightChar_def by (metis rev_append rev_replicate rev_rev_ident)
  show "TrimRightChar c s = [] \<or> last (TrimRightChar c s) \<noteq> c"
    using hd_dropWhile [of "\<lambda>x. x = c" "rev s"] by (auto simp: TrimRightChar_def last_rev)
qed

lemma trim_decimal_text:
  "trim_decimal (s @ ''.'' @ fr) = s @ (let fp = TrimRightChar CHR ''0'' fr in if fp = [] then [] else CHR ''.'' # fp)"
  if "list_all is_digit fr"
proof -
  define fp where "fp = TrimRightChar CHR ''0'' fr"
  have dot: "TrimRightChar CHR ''0'' (s @ ''.'') = s @ ''.''" by (simp add: TrimRightChar_def)
  obtain k where k: "fr = fp @ replicate k CHR ''0''" using TrimRightChar_rest(1) fp_def by blast
  show ?thesis
  proof (cases "fp = []")
    case True
    then have "list_all (\<lambda>x. x = CHR ''0'') fr" using k by (simp add: list_all_iff)
    then show ?thesis using True dot TrimRightChar_append [of "CHR ''0''" "s @ ''.''" fr]
      by (simp add: trim_decimal_def fp_def [symmetric])
  next
    case False
    have l: "last fp \<in> set fr" using False k by simp
    have "last fp \<noteq> CHR ''0''" using False TrimRightChar_rest(2) [of "CHR ''0''" fr] by (simp add: fp_def)
    then have n: "\<not> list_all (\<lambda>x. x = CHR ''0'') fr" using l by (auto simp only: list_all_iff)
    have "is_digit (last fp)" using that l by (simp only: list_all_iff)
    then have "last fp \<noteq> CHR ''.''" by (auto simp: is_digit_def less_eq_char_def)
    then show ?thesis using False n TrimRightChar_append [of "CHR ''0''" "s @ ''.''" fr]
      by (simp add: trim_decimal_def fp_def [symmetric])
  qed
qed



subsection \<open>Elements of lists\<close>

text \<open>
  The elements of a list cell are read from the start of the child array, whatever the offsets: two rows with the same number of
  elements always convert to the same value. In a column with the lists $[1, 2]$ and $[3, 4]$ both rows convert to $[1, 2]$.
\<close>

lemma list_rows_read_alike:
  assumes "checked_range offs i = checked_range offs j"
  shows "toMaxComputeData epoch_day cfg (ArrayType t) (ArrList h offs child) i =
    toMaxComputeData epoch_day cfg (ArrayType t) (ArrList h offs child) j"
  using assms by simp

definition two_lists :: "arrow_array" where
  "two_lists = ArrList (array_setData (ArrayData (DT ID_LIST) 2 [] [] 0 0)) [0, 2, 4]
     (ArrInt32 (array_setData (ArrayData (DT ID_INT32) 4 [] [] 0 0)) [1, 2, 3, 4])"

lemma second_list_lost:
  "toMaxComputeData epoch_day cfg (ArrayType (PrimitiveType INTID)) two_lists 0 =
     Ret (DArray NilType [Some (DInt 1), Some (DInt 2)] False)"
  "toMaxComputeData epoch_day cfg (ArrayType (PrimitiveType INTID)) two_lists 1 =
     Ret (DArray NilType [Some (DInt 1), Some (DInt 2)] False)"
  by (simp_all add: two_lists_def checked_range_def index_at_def upt_rec num_Value_def ArrayFromSlice_def NewArray_def final_state_def)

subsection \<open>Slices and batches\<close>

text \<open>The values of one kind of array are given back by their cells.\<close>

lemma omap_inj: "(\<And>x y. f x = f y \<Longrightarrow> x = y) \<Longrightarrow> omap f m = omap f n \<longleftrightarrow> m = n"
  by (cases m; cases n) auto

lemma cell_inj [simp]:
  "omap (CInt \<circ> sint) (m :: 'a :: len word outcome) = omap (CInt \<circ> sint) n \<longleftrightarrow> m = n"
  "omap (CInt \<circ> uint) (m :: 'a :: len word outcome) = omap (CInt \<circ> uint) n \<longleftrightarrow> m = n"
  "omap CBool b = omap CBool c \<longleftrightarrow> b = c" "omap CBinary s = omap CBinary t \<longleftrightarrow> s = t"
  "omap CDecimal p = omap CDecimal q \<longleftrightarrow> p = q"
  by (rule omap_inj; auto intro: signed_word_eqI word_uint_eqI)+

lemma decimal_cell_reads:
  assumes "arr_kind b = arr_kind a" "Value b k = Value a l"
  shows "decimal_cell cfg p s b k = decimal_cell cfg p s a l"
  using assms by (cases a; cases b; simp add: decimal_cell_def)

lemma primitive_cell_reads:
  assumes "arr_kind b = arr_kind a" "Value b k = Value a l" "arr_kind a \<noteq> ID_STRUCT"
  shows "primitive_cell epoch_day cfg t b k = primitive_cell epoch_day cfg t a l"
  using assms by (cases a; cases b; simp; cases t; simp)

text \<open>The types whose values are in one array; the others are converted from the children of theirs.\<close>

fun scalar_type :: "DataType \<Rightarrow> bool" where
  "scalar_type (ArrayType t) = False"
| "scalar_type (MapType k v) = False"
| "scalar_type (StructType ts) = False"
| "scalar_type _ = True"

lemma scalar_cell_reads:
  assumes "arr_kind b = arr_kind a" "Value b k = Value a l" "arr_kind a \<noteq> ID_STRUCT" "scalar_type t"
  shows "toMaxComputeData epoch_day cfg t b k = toMaxComputeData epoch_day cfg t a l"
  using assms primitive_cell_reads [OF assms(1-3)] decimal_cell_reads [OF assms(1,2)] by (cases t) simp_all

lemma flat_kind: "flat_setData d = Ret a \<Longrightarrow> arr_kind a = dt_ID (ad_dtype d)"
  by (auto simp: flat_setData_def Null_setData_def Boolean_setData_def bytes_setData_def FixedSizeBinary_setData_def obind_Ret_iff
      num_setData_def Let_def split: arrow_id.splits dtype.splits option.splits if_splits)

lemma MakeFromData_kind: "MakeFromData d = Ret a \<Longrightarrow> arr_kind a = dt_ID (ad_dtype d)"
  by (subst (asm) MakeFromData.simps) (auto simp: obind_Ret_iff flat_kind split: if_splits dtype.splits)

text \<open>
  Converting a row of a sliced column is converting the row of the column that the slice stands for, a null for a null, for
  every column of a scalar type on an array that is no struct. (For lists this fails: the offsets of a slice are read
  without the offset of the slice.)
\<close>

theorem sliced_column_cell:
  assumes a: "MakeFromData d = Ret a" and i: "0 \<le> i" "i \<le> e" "e \<le> ad_length d" and k: "0 \<le> k" "k < e - i"
    and t: "dt_ID (ad_dtype d) \<noteq> ID_STRUCT" "j < length columns" "scalar_type (col_Type (columns ! j))"
  shows "\<exists>b. NewSlice a i e = Ret b \<and>
     column_cell epoch_day cfg columns k (j, b) = column_cell epoch_day cfg columns (i + k) (j, a)"
proof -
  obtain b where b: "NewSlice a i e = Ret b" and r: "reads_from b a i e"
    using slice_reads_range [OF a t(1) i] by blast
  have kind: "arr_kind a \<noteq> ID_STRUCT" using MakeFromData_kind [OF a] t(1) by simp
  have "arr_kind b = arr_kind a" "Value b k = Value a (i + k)" "IsValid (arr_header b) k = IsValid (arr_header a) (i + k)"
    using r k by (auto simp: reads_from_def)
  then have "column_cell epoch_day cfg columns k (j, b) = column_cell epoch_day cfg columns (i + k) (j, a)"
    using scalar_cell_reads [OF _ _ kind t(3), of b k "i + k"] by (simp add: column_cell_def t(2) cong: if_cong)
  with b show ?thesis by blast
qed

theorem sliced_column_cell_witness:
  "\<exists>a b. MakeFromData sample_ints = Ret a \<and> NewSlice a 1 4 = Ret b \<and>
     column_cell (\<lambda>d. GoTime (86400 * d) 0) (newTypeConvertConfig []) [\<lparr>col_Name = ''c'', col_Type = PrimitiveType INTID, col_Comment = [],
         col_Label = [], col_NotNull = False, col_HasDefaultValue = False, col_DefaultValue = [], col_ExtendedLabels = [],
         col_GenerateExpression = None\<rparr>] 2 (0, b) = Ret (DInt (- 2))"
proof -
  let ?cols = "[\<lparr>col_Name = ''c'', col_Type = PrimitiveType INTID, col_Comment = [],
         col_Label = [], col_NotNull = False, col_HasDefaultValue = False, col_DefaultValue = [], col_ExtendedLabels = [],
         col_GenerateExpression = None\<rparr>]"
  have a: "MakeFromData sample_ints = Ret (ArrInt32 (array_setData sample_ints) [1, 2, 3, - 2])"
    by (simp add: MakeFromData.simps sample_ints_def flat_setData_def num_setData_def buffer1_def index_at_def slice_range_def words_of_def
        CastFromBytes_def word_of_bytes_def upt_rec)
  have "column_cell (\<lambda>d. GoTime (86400 * d) 0) (newTypeConvertConfig []) ?cols 3 (0, ArrInt32 (array_setData sample_ints) [1, 2, 3, - 2])
      = Ret (DInt (- 2))"
    by (simp add: column_cell_def IsValid_def array_setData_def sample_ints_def BitIsSet_def in_buf_def BitMask_def num_Value_def index_at_def)
  then show ?thesis
    using a sliced_column_cell [OF a, of 1 4 2 0 ?cols "\<lambda>d. GoTime (86400 * d) 0" "newTypeConvertConfig []"] by (auto simp: sample_ints_def)
qed

text \<open>The lists $[1]$, $[2, 3]$; the slice from 1 on starts with the second one, and its first row is converted to the first element.\<close>

definition sample_lists :: array_data where
  "sample_lists = ArrayData (DT ID_LIST) 2 [None, Some [0, 0, 0, 0, 1, 0, 0, 0, 3, 0, 0, 0]]
     [Some (ArrayData (DT ID_INT8) 3 [None, Some [1, 2, 3]] [] 0 0)] 0 0"

lemma sliced_list_reads_first:
  "obind (MakeFromData sample_lists) (\<lambda>a. obind (NewSlice a 1 2)
     (\<lambda>b. toMaxComputeData epoch_day cfg (ArrayType (PrimitiveType TINYINT)) b 0)) = Ret (DArray NilType [Some (DTinyInt 1)] False)"
  by (simp add: sample_lists_def MakeFromData.simps list_offsets_def child_at_def flat_setData_def num_setData_def buffer1_def index_at_def
      slice_range_def words_of_def CastFromBytes_def word_of_bytes_def upt_rec NewSlice_def NewSliceData_def array_setData_def
      checked_range_def num_Value_def ArrayFromSlice_def NewArray_def final_state_def)

end
