(* ===== verification/ArrowIpc.thy ===== *)
theory ArrowIpc
  imports ArrowRoundtrip ArrowArrays
begin

section \<open>Messages of the arrow IPC format\<close>

text \<open>
  Models the framing of \<^verbatim>\<open>arrow/ipc\<close> (\<^verbatim>\<open>message.go\<close>, \<^verbatim>\<open>writeMessage\<close> of \<^verbatim>\<open>metadata.go\<close>, \<^verbatim>\<open>writeIPCPayload\<close> of
  \<^verbatim>\<open>writer.go\<close>, \<^verbatim>\<open>reader.go\<close>, \<^verbatim>\<open>record_batch_reader.go\<close>, \<^verbatim>\<open>record_batch_writer.go\<close>) and the record readers and writers of
  \<^verbatim>\<open>odps/tunnel\<close> on top of it (\<^verbatim>\<open>record_arrow_reader.go\<close>, \<^verbatim>\<open>record_arrow_writer.go\<close>).
  \<^item> An \<^verbatim>\<open>io.Reader\<close> is a function from the room in the buffer to the bytes read with the error beside them, and the state it
    leaves. The locale \<open>prefix_reader\<close> states what reading relies on: each call gives some of the bytes that are left, and the
    end of the file when none are. It is interpreted on the body of an answer and on the reader of checked chunks.
  \<^item> The flatbuffers of a message's metadata are third-party code: their accessors and the construction of a record from metadata and body
    are the fields of \<open>ipc_format\<close>.
  \<^item> \<^verbatim>\<open>xerrors.Errorf\<close> keeps the cause, but the wrapped error is no longer equal to it: the end of the file inside a message is
    \<open>MsgErr ErrEOF\<close>, the end of the stream that a message announces is \<open>EndMsg\<close>.
\<close>

subsection \<open>Reading whole buffers\<close>

type_synonym 'r io_reader = "nat \<Rightarrow> 'r \<Rightarrow> (byte list \<times> unit outcome) \<times> 'r"

text \<open>
  \<^verbatim>\<open>io.ReadFull\<close>: reads until the buffer is full or an error comes. A reader that gives at least one byte at each call fills \<open>n\<close>
  bytes in \<open>n\<close> calls; the fuel \<open>n\<close> runs out only for one that keeps giving nothing, for which the loop never ends.
\<close>

fun read_full_loop :: "nat \<Rightarrow> 'r io_reader \<Rightarrow> nat \<Rightarrow> byte list \<Rightarrow> 'r \<Rightarrow> (byte list \<times> goerr option) outcome \<times> 'r" where
  "read_full_loop 0 rd n acc r = (if n \<le> length acc then (Ret (acc, None), r) else (Panic OutOfFuel, r))"
| "read_full_loop (Suc f) rd n acc r =
     (if n \<le> length acc then (Ret (acc, None), r)
      else case rd (n - length acc) r of
          ((p, Ret _), r') \<Rightarrow> read_full_loop f rd n (acc @ p) r'
        | ((p, Fail e), r') \<Rightarrow>
            (if n \<le> length (acc @ p) then (Ret (acc @ p, None), r')
             else (Ret (acc @ p, Some (if acc @ p \<noteq> [] \<and> e = ErrEOF then ErrUnexpectedEOF else e)), r'))
        | ((p, Panic q), r') \<Rightarrow> (Panic q, r'))"

definition read_full :: "'r io_reader \<Rightarrow> nat \<Rightarrow> 'r \<Rightarrow> (byte list \<times> goerr option) outcome \<times> 'r" where
  "read_full rd n r = read_full_loop n rd n [] r"

subsection \<open>Messages\<close>

record ipc_message =
  im_meta :: "byte list"
  im_body :: "byte list"

datatype msg_answer = GotMsg ipc_message | EndMsg | MsgErr goerr | MsgPanic panic

record 'rec ipc_format =
  fb_BodyLength :: "byte list \<Rightarrow> int outcome"
  fb_HeaderType :: "byte list \<Rightarrow> int outcome"
  fb_newRecord :: "byte list \<Rightarrow> byte list \<Rightarrow> 'rec outcome"

definition kIPCContToken :: u32 where "kIPCContToken = 0xFFFFFFFF"
definition MessageSchema :: int where "MessageSchema = 1"
definition MessageRecordBatch :: int where "MessageRecordBatch = 3"
definition kArrowIPCAlignment :: int where "kArrowIPCAlignment = 8"

definition msg_read :: "'r io_reader \<Rightarrow> nat \<Rightarrow> (byte list \<Rightarrow> 'r \<Rightarrow> msg_answer \<times> 'r) \<Rightarrow> 'r \<Rightarrow> msg_answer \<times> 'r" where
  "msg_read rd n k r =
     (case read_full rd n r of
        (Ret (bs, None), r') \<Rightarrow> k bs r'
      | (Ret (bs, Some e), r') \<Rightarrow> (MsgErr e, r')
      | (Fail e, r') \<Rightarrow> (MsgErr e, r')
      | (Panic p, r') \<Rightarrow> (MsgPanic p, r'))"

text \<open>The metadata and the body of a message whose length has been read.\<close>

definition read_message :: "'r io_reader \<Rightarrow> 'rec ipc_format \<Rightarrow> i32 \<Rightarrow> 'r \<Rightarrow> msg_answer \<times> 'r" where
  "read_message rd F msgLen r =
     (if sint msgLen < 0 then (MsgPanic MakeSliceLen, r)
      else msg_read rd (nat (sint msgLen)) (\<lambda>buf r.
        case fb_BodyLength F buf of
          Ret bodyLen \<Rightarrow>
            (if bodyLen < 0 then (MsgPanic IndexOutOfRange, r)
             else msg_read rd (nat bodyLen) (\<lambda>body r. (GotMsg \<lparr>im_meta = buf, im_body = body\<rparr>, r)) r)
        | Fail e \<Rightarrow> (MsgErr e, r)
        | Panic p \<Rightarrow> (MsgPanic p, r)) r)"

definition Message :: "'r io_reader \<Rightarrow> 'rec ipc_format \<Rightarrow> 'r \<Rightarrow> msg_answer \<times> 'r" where
  "Message rd F =
     msg_read rd 4 (\<lambda>buf r.
       let cid = (word_of_bytes buf :: u32) in
       if cid = 0 then (EndMsg, r)
       else if cid = kIPCContToken then
         msg_read rd 4 (\<lambda>buf r.
           let msgLen = (ucast (word_of_bytes buf :: u32) :: i32) in
           if msgLen = 0 then (EndMsg, r) else read_message rd F msgLen r) r
       else read_message rd F (ucast cid) r)"

subsection \<open>Readers of record batches\<close>

record ('r, 'rec) batch_reader =
  bt_src :: 'r
  bt_err :: "goerr option"
  bt_done :: bool
  bt_rec :: "'rec option"

definition NewRecordBatchReader :: "'r \<Rightarrow> ('r, 'rec) batch_reader" where
  "NewRecordBatchReader r = \<lparr>bt_src = r, bt_err = None, bt_done = False, bt_rec = None\<rparr>"

definition InvalidMessageType :: goerr where "InvalidMessageType = ErrMsg ''arrow/ipc: invalid message type''"

definition bt_next :: "'r io_reader \<Rightarrow> 'rec ipc_format \<Rightarrow> (('r, 'rec) batch_reader, bool) M" where
  "bt_next rd F b =
     (case Message rd F (bt_src b) of
        (EndMsg, r) \<Rightarrow> (Ret False, b\<lparr>bt_src := r, bt_err := None, bt_done := True\<rparr>)
      | (MsgErr e, r) \<Rightarrow> (Ret False, b\<lparr>bt_src := r, bt_err := Some e, bt_done := True\<rparr>)
      | (MsgPanic p, r) \<Rightarrow> (Panic p, b\<lparr>bt_src := r\<rparr>)
      | (GotMsg m, r) \<Rightarrow>
          (let b = b\<lparr>bt_src := r, bt_err := None\<rparr> in
           case fb_HeaderType F (im_meta m) of
             Ret t \<Rightarrow>
               (if t \<noteq> MessageRecordBatch then (Ret False, b\<lparr>bt_err := Some InvalidMessageType\<rparr>)
                else case fb_newRecord F (im_meta m) (im_body m) of
                    Ret x \<Rightarrow> (Ret True, b\<lparr>bt_rec := Some x\<rparr>)
                  | Fail e \<Rightarrow> (Panic ExplicitPanic, b)
                  | Panic p \<Rightarrow> (Panic p, b))
           | Fail e \<Rightarrow> (Panic ExplicitPanic, b)
           | Panic p \<Rightarrow> (Panic p, b)))"

definition bt_Next :: "'r io_reader \<Rightarrow> 'rec ipc_format \<Rightarrow> (('r, 'rec) batch_reader, bool) M" where
  "bt_Next rd F b =
     (let b = b\<lparr>bt_rec := None\<rparr> in
      if bt_err b \<noteq> None \<or> bt_done b then (Ret False, b) else bt_next rd F b)"

text \<open>\<open>Read\<close>: any error of the stream sets \<open>done\<close>, and then the end of the file is returned in place of the error.\<close>

definition bt_Read :: "'r io_reader \<Rightarrow> 'rec ipc_format \<Rightarrow> (('r, 'rec) batch_reader, 'rec) M" where
  "bt_Read rd F b =
     (case bt_next rd F (b\<lparr>bt_rec := None\<rparr>) of
        (Ret True, b') \<Rightarrow> (case bt_rec b' of Some x \<Rightarrow> (Ret x, b') | None \<Rightarrow> (Panic NilDereference, b'))
      | (Ret False, b') \<Rightarrow>
          (if bt_done b' then (Fail ErrEOF, b')
           else case bt_err b' of Some e \<Rightarrow> (Fail e, b') | None \<Rightarrow> (Panic NilDereference, b'))
      | (Fail e, b') \<Rightarrow> (Fail e, b')
      | (Panic p, b') \<Rightarrow> (Panic p, b'))"

text \<open>
  \<^verbatim>\<open>RecordArrowReader.Iterator\<close>: the calls of the callback in their order. Every turn but the last reads a message of at least four
  bytes; the fuel bounds the number of turns.
\<close>

fun ra_Iterator :: "nat \<Rightarrow> 'r io_reader \<Rightarrow> 'rec ipc_format \<Rightarrow> ('r, 'rec) batch_reader \<Rightarrow>
    ('rec outcome list \<times> unit outcome) \<times> ('r, 'rec) batch_reader" where
  "ra_Iterator 0 rd F b = (([], Panic OutOfFuel), b)"
| "ra_Iterator (Suc n) rd F b =
     (case bt_Read rd F b of
        (Ret x, b') \<Rightarrow> (case ra_Iterator n rd F b' of ((xs, r), b'') \<Rightarrow> ((Ret x # xs, r), b''))
      | (Fail e, b') \<Rightarrow> (if e = ErrEOF then (([], Ret ()), b') else (([Fail e], Ret ()), b'))
      | (Panic p, b') \<Rightarrow> (([], Panic p), b'))"

text \<open>\<^verbatim>\<open>RecordArrowReader.Read\<close>.\<close>

definition ra_Read :: "'r io_reader \<Rightarrow> 'rec ipc_format \<Rightarrow> (('r, 'rec) batch_reader, 'rec) M" where
  "ra_Read rd F = bt_Read rd F"

subsection \<open>Writing messages\<close>

type_synonym 'w io_writer = "byte list \<Rightarrow> ('w, nat) M"

definition put_u32 :: "u32 \<Rightarrow> byte list" where
  "put_u32 v = [ucast v, ucast (drop_bit 8 v), ucast (drop_bit 16 v), ucast (drop_bit 24 v)]"

text \<open>The length of a message, rounded up to the alignment, in 32 bits as the code has it.\<close>

definition paddedMsgLen :: "byte list \<Rightarrow> i32" where
  "paddedMsgLen meta =
     (let l = word_of_nat (length meta) + 8; rem = sint l smod kArrowIPCAlignment
      in if rem \<noteq> 0 then l + word_of_int (kArrowIPCAlignment - rem) else l)"

definition write_padding :: "'w io_writer \<Rightarrow> int \<Rightarrow> ('w, unit) M" where
  "write_padding wr padding =
     (if padding > 0
      then if padding > 64 then mpanic IndexOutOfRange else mseq (wr (replicate (nat padding) 0)) (mret ())
      else mret ())"

definition writeMessage :: "'w io_writer \<Rightarrow> byte list \<Rightarrow> ('w, unit) M" where
  "writeMessage wr meta =
     (let padded = paddedMsgLen meta; sizeFB = padded - 8 in
      mseq (wr (put_u32 kIPCContToken))
      (mseq (wr (put_u32 sizeFB))
      (mseq (wr meta)
       (write_padding wr (sint (padded - word_of_nat (length meta) - 8))))))"

definition write_buffer :: "'w io_writer \<Rightarrow> buffer \<Rightarrow> ('w, unit) M" where
  "write_buffer wr buf =
     (let bs = (case buf of None \<Rightarrow> [] | Some b \<Rightarrow> b);
          padding = (case buf of None \<Rightarrow> 0 | Some b \<Rightarrow> CeilByte (int (length b)) - int (length b))
      in mseq (if bs \<noteq> [] then mseq (wr bs) (mret ()) else mret ()) (write_padding wr padding))"

definition writeIPCPayload :: "'w io_writer \<Rightarrow> byte list \<times> buffer list \<Rightarrow> ('w, unit) M" where
  "writeIPCPayload wr p = mseq (writeMessage wr (fst p)) (mfor (write_buffer wr) (snd p))"

text \<open>
  \<^verbatim>\<open>RecordBatchWriter\<close>: \<open>encode\<close> is the encoder of a record with the comparison of its schema with the writer's. \<open>Close\<close> drops the
  payload writer, and a later \<open>Write\<close> dereferences nil.
\<close>

record 'w batch_writer =
  bwr_sink :: 'w
  bwr_open :: bool

definition NewRecordBatchWriter :: "'w \<Rightarrow> 'w batch_writer" where
  "NewRecordBatchWriter w = \<lparr>bwr_sink = w, bwr_open = True\<rparr>"

definition bwr_Write :: "'w io_writer \<Rightarrow> ('rec \<Rightarrow> (byte list \<times> buffer list) outcome) \<Rightarrow> 'rec \<Rightarrow> ('w batch_writer, unit) M" where
  "bwr_Write wr encode x b =
     (case encode x of
        Ret p \<Rightarrow>
          (if bwr_open b
           then (case writeIPCPayload wr p (bwr_sink b) of (r, w) \<Rightarrow> (r, b\<lparr>bwr_sink := w\<rparr>))
           else (Panic NilDereference, b))
      | Fail e \<Rightarrow> (Fail e, b)
      | Panic p \<Rightarrow> (Panic p, b))"

definition bwr_Close :: "('w batch_writer, unit) M" where
  "bwr_Close b = (Ret (), b\<lparr>bwr_open := False\<rparr>)"

text \<open>
  \<^verbatim>\<open>RecordArrowWriter\<close>: \<open>conn\<close> is the answer of the connection when the response is asked for.
\<close>

record arrow_record_writer =
  raw_writer :: "arrow_writer batch_writer"
  raw_closeRes :: "unit outcome"
  raw_closed :: bool

definition newRecordArrowWriter :: "sink \<Rightarrow> goerr option \<Rightarrow> unit outcome \<Rightarrow> arrow_record_writer" where
  "newRecordArrowWriter w closeAnswer conn =
     \<lparr>raw_writer = NewRecordBatchWriter (NewArrowStreamWriter w closeAnswer), raw_closeRes = conn, raw_closed = False\<rparr>"

definition WriteArrowRecord :: "('rec \<Rightarrow> (byte list \<times> buffer list) outcome) \<Rightarrow> 'rec \<Rightarrow> (arrow_record_writer, unit) M" where
  "WriteArrowRecord encode x w =
     (case bwr_Write Arrow_Write encode x (raw_writer w) of (r, b) \<Rightarrow> (r, w\<lparr>raw_writer := b\<rparr>))"

definition raw_close :: "(arrow_record_writer, unit) M" where
  "raw_close w =
     (case bwr_Close (raw_writer w) of
        (r1, b) \<Rightarrow>
          (case Arrow_Close (bwr_sink b) of
             (r2, aw) \<Rightarrow> (case r1 of Ret _ \<Rightarrow> r2 | _ \<Rightarrow> r1, w\<lparr>raw_writer := b\<lparr>bwr_sink := aw\<rparr>\<rparr>)))"

definition raw_Close :: "(arrow_record_writer, unit) M" where
  "raw_Close w =
     (if raw_closed w then (Fail (ErrMsg ''try to close a closed RecordArrowWriter''), w)
      else case raw_close (w\<lparr>raw_closed := True\<rparr>) of
          (Panic p, w') \<Rightarrow> (Panic p, w')
        | (r, w') \<Rightarrow> (case raw_closeRes w' of Ret _ \<Rightarrow> (r, w') | r' \<Rightarrow> (r', w')))"

subsection \<open>Frames\<close>

text \<open>The bytes of a message on the wire, and what a format has to say of it for a record to come out.\<close>

definition frame :: "ipc_message \<Rightarrow> byte list" where
  "frame m = put_u32 kIPCContToken @ put_u32 (word_of_nat (length (im_meta m))) @ im_meta m @ im_body m"

definition framed :: "'rec ipc_format \<Rightarrow> ipc_message \<Rightarrow> bool" where
  "framed F m \<longleftrightarrow>
     im_meta m \<noteq> [] \<and> length (im_meta m) < 2 ^ 31 \<and> fb_BodyLength F (im_meta m) = Ret (int (length (im_body m)))"

definition message_of :: "'rec ipc_format \<Rightarrow> ipc_message \<Rightarrow> 'rec \<Rightarrow> bool" where
  "message_of F m x \<longleftrightarrow>
     framed F m \<and> fb_HeaderType F (im_meta m) = Ret MessageRecordBatch \<and> fb_newRecord F (im_meta m) (im_body m) = Ret x"

lemma length_put_u32 [simp]: "length (put_u32 v) = 4"
  by (simp add: put_u32_def)

lemma put_u32_bits: "n < 32 \<Longrightarrow> bit_at (put_u32 v) n = bit v n"
proof -
  assume n: "n < 32"
  define q where "q = n div 8"
  have m: "n mod 8 < 8" by simp
  have "n = 8 * q + n mod 8" by (simp add: q_def)
  moreover have "q = 0 \<or> q = 1 \<or> q = 2 \<or> q = 3" using n by (auto simp: q_def)
  ultimately show ?thesis using m
    by (auto simp: bit_at_def put_u32_def bit_ucast_iff bit_drop_bit_eq q_def [symmetric])
qed

lemma word_of_put_u32 [simp]: "word_of_bytes (put_u32 v) = v"
proof (rule bit_word_eqI)
  fix n assume "n < LENGTH(32)"
  then have n: "n < 32" by simp
  then show "bit (word_of_bytes (put_u32 v) :: u32) n = bit v n"
    using put_u32_bits [OF n] by (simp add: word_of_bytes_def bit_ucast_iff bit_le_word)
qed

lemma length_as_i32:
  assumes "n < 2 ^ 31"
  shows "sint (word_of_nat n :: i32) = int n" "0 < n \<Longrightarrow> (word_of_nat n :: i32) \<noteq> 0"
proof -
  show s: "sint (word_of_nat n :: i32) = int n"
    using assms by (simp add: signed_of_nat signed_take_bit_int_eq_self)
  then show "0 < n \<Longrightarrow> (word_of_nat n :: i32) \<noteq> 0" by (metis of_nat_eq_0_iff neq0_conv signed_0)
qed

subsection \<open>What reading relies on\<close>

text \<open>
  \<open>holds d r\<close>: the reader \<open>r\<close> has the bytes \<open>d\<close> left. A read gives a first part of them that is not empty, or \<open>ending\<close> when
  none are left, which is the end of the file or the error that the connection fails with.
\<close>

locale prefix_reader =
  fixes rd :: "'r io_reader"
    and holds :: "byte list \<Rightarrow> 'r \<Rightarrow> bool"
    and ending :: goerr
  assumes reads_end: "holds [] r \<Longrightarrow> 0 < n \<Longrightarrow> \<exists>r'. rd n r = (([], Fail ending), r') \<and> holds [] r'"
    and reads_some: "holds d r \<Longrightarrow> d \<noteq> [] \<Longrightarrow> 0 < n \<Longrightarrow>
      \<exists>k r'. 0 < k \<and> k \<le> n \<and> rd n r = ((take k d, Ret ()), r') \<and> holds (drop k d) r'"
begin

lemma read_full_loop_holds:
  "holds d r \<Longrightarrow> length acc \<le> n \<Longrightarrow> n \<le> length acc + f \<Longrightarrow> n \<le> length acc + length d \<Longrightarrow>
   \<exists>r'. read_full_loop f rd n acc r = (Ret (acc @ take (n - length acc) d, None), r') \<and> holds (drop (n - length acc) d) r'"
proof (induction f arbitrary: d r acc)
  case (Suc f)
  show ?case
  proof (cases "n \<le> length acc")
    case False
    then have "d \<noteq> []" using Suc.prems by auto
    then obtain k r' where k: "0 < k" "k \<le> n - length acc" "rd (n - length acc) r = ((take k d, Ret ()), r')" "holds (drop k d) r'"
      using reads_some [OF Suc.prems(1)] False by (metis not_le zero_less_diff)
    have l: "length (acc @ take k d) = length acc + k" "length acc + k \<le> n" using k Suc.prems(4) False by auto
    then obtain r'' where "read_full_loop f rd n (acc @ take k d) r' =
        (Ret ((acc @ take k d) @ take (n - length (acc @ take k d)) (drop k d), None), r'')"
      "holds (drop (n - length (acc @ take k d)) (drop k d)) r''"
      using Suc.IH [OF k(4), of "acc @ take k d"] Suc.prems k by auto
    moreover have "take k d @ take (n - length acc - k) (drop k d) = take (n - length acc) d"
      "drop (n - length acc - k) (drop k d) = drop (n - length acc) d"
      using k(2) by (metis le_add_diff_inverse take_add, metis drop_drop le_add_diff_inverse2)
    ultimately show ?thesis using False k l(1) by auto
  qed (use Suc.prems in simp)
qed auto

lemma read_full_holds: "holds d r \<Longrightarrow> n \<le> length d \<Longrightarrow>
    \<exists>r'. read_full rd n r = (Ret (take n d, None), r') \<and> holds (drop n d) r'"
  using read_full_loop_holds [of d r "[]" n n] by (simp add: read_full_def)

text \<open>When the bytes end early, the end of the file is an unexpected one unless there were none.\<close>

lemma read_full_loop_short:
  "holds d r \<Longrightarrow> n \<le> length acc + f \<Longrightarrow> length acc + length d < n \<Longrightarrow>
   \<exists>r'. read_full_loop f rd n acc r = (Ret (acc @ d, Some (if acc @ d \<noteq> [] \<and> ending = ErrEOF then ErrUnexpectedEOF else ending)), r')"
proof (induction f arbitrary: d r acc)
  case (Suc f)
  show ?case
  proof (cases "d = []")
    case True
    then show ?thesis using reads_end [of r "n - length acc"] Suc.prems by auto
  next
    case False
    then obtain k r' where k: "0 < k" "k \<le> n - length acc" "rd (n - length acc) r = ((take k d, Ret ()), r')" "holds (drop k d) r'"
      using reads_some [OF Suc.prems(1) False] Suc.prems(3) by (metis less_add_same_cancel1 less_diff_conv2 add_lessD1 less_imp_le_nat zero_less_diff)
    have "n \<le> length (acc @ take k d) + f" "length (acc @ take k d) + length (drop k d) < n"
      using Suc.prems k False length_greater_0_conv [of d] by (auto simp: min_def Suc_le_eq simp del: length_greater_0_conv)
    from Suc.IH [OF k(4) this] show ?thesis using Suc.prems k False by auto
  qed
qed auto

lemma read_full_short: "holds d r \<Longrightarrow> length d < n \<Longrightarrow>
    \<exists>r'. read_full rd n r = (Ret (d, Some (if d \<noteq> [] \<and> ending = ErrEOF then ErrUnexpectedEOF else ending)), r')"
  using read_full_loop_short [of d r n "[]" n] by (simp add: read_full_def)

lemma msg_read_holds:
  assumes "holds (bs @ d) r" and "length bs = n" and "\<And>r'. holds d r' \<Longrightarrow> \<exists>r''. k bs r' = (a, r'') \<and> P r''"
  shows "\<exists>r''. msg_read rd n k r = (a, r'') \<and> P r''"
proof -
  obtain r' where "read_full rd n r = (Ret (bs, None), r')" "holds d r'"
    using read_full_holds [OF assms(1), of n] assms(2) by auto
  then show ?thesis using assms(3) by (simp add: msg_read_def)
qed

lemma Message_holds:
  assumes h: "holds (frame m @ d) r" and m: "framed F m"
  shows "\<exists>r'. Message rd F r = (GotMsg m, r') \<and> holds d r'"
proof -
  let ?l = "word_of_nat (length (im_meta m)) :: u32"
  have l: "sint (ucast ?l :: i32) = int (length (im_meta m))" "ucast ?l \<noteq> (0 :: i32)"
    using m length_as_i32 [of "length (im_meta m)"] by (auto simp: framed_def)
  have 1: "holds (im_body m @ d) r \<Longrightarrow> \<exists>r'. msg_read rd (length (im_body m)) (\<lambda>body r. (GotMsg \<lparr>im_meta = im_meta m, im_body = body\<rparr>, r)) r
      = (GotMsg m, r') \<and> holds d r'" for r
    by (rule msg_read_holds [where bs = "im_body m" and d = d]) auto
  have 2: "holds (im_meta m @ im_body m @ d) r \<Longrightarrow> \<exists>r'. read_message rd F (ucast ?l) r = (GotMsg m, r') \<and> holds d r'" for r
    unfolding read_message_def using l m
    by (auto simp: framed_def intro!: msg_read_holds [where bs = "im_meta m" and d = "im_body m @ d"] 1)
  show ?thesis unfolding Message_def
  proof (rule msg_read_holds [where bs = "put_u32 kIPCContToken" and d = "put_u32 ?l @ im_meta m @ im_body m @ d"])
    show "holds (put_u32 kIPCContToken @ put_u32 ?l @ im_meta m @ im_body m @ d) r" using h by (simp add: frame_def)
    fix r' assume r': "holds (put_u32 ?l @ im_meta m @ im_body m @ d) r'"
    have "\<exists>r''. msg_read rd 4 (\<lambda>buf r. let msgLen = (ucast (word_of_bytes buf :: u32) :: i32) in
           if msgLen = 0 then (EndMsg, r) else read_message rd F msgLen r) r' = (GotMsg m, r'') \<and> holds d r''"
      by (rule msg_read_holds [OF r']) (use 2 l(2) in \<open>simp_all add: Let_def\<close>)
    then show "\<exists>r''. (let cid = (word_of_bytes (put_u32 kIPCContToken) :: u32) in
       if cid = 0 then (EndMsg, r')
       else if cid = kIPCContToken then
         msg_read rd 4 (\<lambda>buf r.
           let msgLen = (ucast (word_of_bytes buf :: u32) :: i32) in
           if msgLen = 0 then (EndMsg, r) else read_message rd F msgLen r) r'
       else read_message rd F (ucast cid) r') = (GotMsg m, r'') \<and> holds d r''"
      by (simp add: Let_def kIPCContToken_def)
  qed simp
qed

lemma Message_end: "holds [] r \<Longrightarrow> \<exists>r'. Message rd F r = (MsgErr ending, r')"
  using read_full_short [of "[]" r 4] by (auto simp: Message_def msg_read_def)

lemma bt_Read_holds:
  assumes "holds (frame m @ d) (bt_src b)" and "message_of F m x"
  shows "\<exists>b'. bt_Read rd F b = (Ret x, b') \<and> holds d (bt_src b')"
proof -
  have "framed F m" using assms(2) by (simp add: message_of_def)
  then obtain r' where "Message rd F (bt_src b) = (GotMsg m, r')" "holds d r'" using Message_holds [OF assms(1)] by blast
  then show ?thesis using assms(2) by (auto simp: bt_Read_def bt_next_def message_of_def Let_def)
qed

lemma bt_Read_end: "holds [] (bt_src b) \<Longrightarrow> \<exists>b'. bt_Read rd F b = (Fail ErrEOF, b')"
  using Message_end [of "bt_src b" F] by (auto simp: bt_Read_def bt_next_def)

lemma ra_Iterator_holds:
  "list_all2 (message_of F) ms xs \<Longrightarrow> holds (concat (map frame ms)) (bt_src b) \<Longrightarrow> length ms < n \<Longrightarrow>
   \<exists>b'. ra_Iterator n rd F b = ((map Ret xs, Ret ()), b')"
proof (induction ms xs arbitrary: n b rule: list_all2_induct)
  case Nil
  then show ?case using bt_Read_end [of b F] by (cases n) auto
next
  case (Cons m ms x xs)
  obtain k where n: "n = Suc k" "length ms < k" using Cons.prems(2) by (cases n) auto
  obtain b' where b': "bt_Read rd F b = (Ret x, b')" "holds (concat (map frame ms)) (bt_src b')"
    using bt_Read_holds [of m "concat (map frame ms)" b F x] Cons by auto
  show ?case using Cons.IH [OF b'(2) n(2)] b'(1) n(1) by auto
qed

end

subsection \<open>Padding\<close>

definition pad8 :: "byte list \<Rightarrow> byte list" where
  "pad8 bs = bs @ replicate (nat ((- int (length bs)) mod 8)) 0"

definition pad_buffer :: "buffer \<Rightarrow> byte list" where
  "pad_buffer b = (case b of None \<Rightarrow> [] | Some bs \<Rightarrow> pad8 bs)"

lemma CeilByte_pad: "CeilByte n - n = (- n) mod 8"
proof -
  have "x AND NOT (mask 3) = x - x mod 8" for x :: int
  proof -
    have "x - take_bit 3 x = x AND NOT (take_bit 3 x)"
      by (rule disjunctive_diff) (simp add: bit_take_bit_iff)
    also have "\<dots> = x AND NOT (mask 3)" by (rule bit_eqI) (auto simp: bit_simps)
    finally show ?thesis by (simp add: take_bit_eq_mod)
  qed
  from this [of "n + 7"] have "CeilByte n = (n + 7) - (n + 7) mod 8"
    by (simp add: CeilByte_def mask_eq_exp_minus_1)
  then show ?thesis by presburger
qed

lemma pad8_length: "8 dvd length (pad8 bs)" "length (pad8 bs) \<le> length bs + 7" "length bs \<le> length (pad8 bs)"
proof -
  have "int (length (pad8 bs)) = int (length bs) + (- int (length bs)) mod 8" by (simp add: pad8_def)
  then have "int (length (pad8 bs)) mod 8 = 0" "int (length (pad8 bs)) \<le> int (length bs) + 7" by presburger+
  then show "8 dvd length (pad8 bs)" "length (pad8 bs) \<le> length bs + 7" by presburger+
qed (simp add: pad8_def)

lemma paddedMsgLen_pad8:
  assumes "length meta < 2 ^ 31 - 16"
  shows "paddedMsgLen meta = word_of_nat (length (pad8 meta) + 8)"
    and "sint (paddedMsgLen meta - word_of_nat (length meta) - 8) = (- int (length meta)) mod 8"
proof -
  define n where "n = length meta"
  define p where "p = nat ((- int n) mod 8)"
  have l: "length (pad8 meta) = n + p" by (simp add: pad8_def n_def p_def)
  have p: "int p = (- int n) mod 8" "p < 8" by (auto simp: p_def)
  have s: "sint (word_of_nat n + 8 :: i32) = int n + 8"
    using length_as_i32(1) [of "n + 8"] assms by (simp add: n_def)
  have r: "(int n + 8) smod 8 = int n mod 8" by (simp add: signed_modulo_int_def)
  have "paddedMsgLen meta = word_of_nat n + 8 + word_of_nat p"
  proof (cases "int n mod 8 = 0")
    case True
    then have "p = 0" using p by presburger
    then show ?thesis using True s r by (simp add: paddedMsgLen_def kArrowIPCAlignment_def n_def [symmetric] Let_def)
  next
    case False
    then have "8 - int n mod 8 = int p" using p by presburger
    then show ?thesis using False s r by (simp add: paddedMsgLen_def kArrowIPCAlignment_def n_def [symmetric] Let_def)
  qed
  then show e: "paddedMsgLen meta = word_of_nat (length (pad8 meta) + 8)" by (simp add: l)
  have "paddedMsgLen meta - word_of_nat (length meta) - 8 = (word_of_nat p :: i32)" by (simp add: e l n_def [symmetric])
  then show "sint (paddedMsgLen meta - word_of_nat (length meta) - 8) = (- int (length meta)) mod 8"
    using length_as_i32(1) [of p] p by (simp add: n_def)
qed

subsection \<open>Readers and writers that obey\<close>

text \<open>The body of an answer as an \<^verbatim>\<open>io.Reader\<close> that gives what it has, up to the room in the buffer.\<close>

definition src_Read :: "source io_reader" where
  "src_Read n s =
     (if src_in s = [] then (([], Fail (src_end s)), s)
      else ((take n (src_in s), Ret ()), s\<lparr>src_in := drop n (src_in s)\<rparr>))"

definition src_holds :: "goerr \<Rightarrow> byte list \<Rightarrow> source \<Rightarrow> bool" where
  "src_holds e d s \<longleftrightarrow> s = \<lparr>src_in = d, src_end = e\<rparr>"

interpretation body: prefix_reader src_Read "src_holds e" e for e
  by unfold_locales (auto simp: src_holds_def src_Read_def)

interpretation chunked: prefix_reader Arrow_Read holds ErrEOF
proof unfold_locales
  show "holds [] r \<Longrightarrow> 0 < n \<Longrightarrow> \<exists>r'. Arrow_Read n r = (([], Fail ErrEOF), r') \<and> holds [] r'" for r n
    using Arrow_Read_holds [of "[]" r n] by simp
  show "\<exists>k r'. 0 < k \<and> k \<le> n \<and> Arrow_Read n r = ((take k d, Ret ()), r') \<and> holds (drop k d) r'"
    if "holds d r" "d \<noteq> []" "0 < n" for d r n
    using Arrow_Read_holds [OF that(1,3)] that by auto
qed

text \<open>\<open>has d w\<close>: the bytes \<open>d\<close> have been written to \<open>w\<close>, which takes what it is given.\<close>

locale append_writer =
  fixes wr :: "'w io_writer"
    and has :: "byte list \<Rightarrow> 'w \<Rightarrow> bool"
  assumes writes: "has d w \<Longrightarrow> \<exists>w'. wr bs w = (Ret (length bs), w') \<and> has (d @ bs) w'"
begin

lemma write_padding_has:
  assumes "has d w" and "p \<le> 64"
  shows "\<exists>w'. write_padding wr p w = (Ret (), w') \<and> has (d @ replicate (nat p) 0) w'"
proof (cases "p > 0")
  case True
  then show ?thesis using writes [OF assms(1), of "replicate (nat p) 0"] assms(2)
    by (auto simp: write_padding_def mseq_Ret mret_def)
qed (use assms in \<open>simp add: write_padding_def mret_def\<close>)

lemma write_buffer_has:
  assumes "has d w"
  shows "\<exists>w'. write_buffer wr buf w = (Ret (), w') \<and> has (d @ pad_buffer buf) w'"
proof -
  define bs where "bs = (case buf of None \<Rightarrow> [] | Some b \<Rightarrow> b)"
  define p where "p = (case buf of None \<Rightarrow> 0 | Some b \<Rightarrow> CeilByte (int (length b)) - int (length b))"
  have pb: "pad_buffer buf = bs @ replicate (nat p) 0" and p: "p \<le> 64"
    by (cases buf; simp add: pad_buffer_def pad8_def bs_def p_def CeilByte_pad; presburger)+
  obtain w1 where "(if bs \<noteq> [] then mseq (wr bs) (mret ()) else mret ()) w = (Ret (), w1)" "has (d @ bs) w1"
    using writes [OF assms, of bs] assms by (cases "bs = []") (auto simp: mseq_Ret mret_def)
  then show ?thesis using write_padding_has [of "d @ bs" w1 p] p
    by (auto simp: write_buffer_def bs_def [symmetric] p_def [symmetric] pb mseq_Ret Let_def)
qed

lemma write_buffers_has:
  "has d w \<Longrightarrow> \<exists>w'. mfor (write_buffer wr) bufs w = (Ret (), w') \<and> has (d @ concat (map pad_buffer bufs)) w'"
proof (induction bufs arbitrary: d w)
  case (Cons b bufs)
  obtain w1 where 1: "write_buffer wr b w = (Ret (), w1)" "has (d @ pad_buffer b) w1"
    using write_buffer_has [OF Cons.prems] by blast
  show ?case using Cons.IH [OF 1(2)] 1(1) by (auto simp: mseq_Ret)
qed (auto simp: mret_def)

lemma writeMessage_has:
  assumes "has d w" and "length meta < 2 ^ 31 - 16"
  shows "\<exists>w'. writeMessage wr meta w = (Ret (), w') \<and>
    has (d @ put_u32 kIPCContToken @ put_u32 (word_of_nat (length (pad8 meta))) @ pad8 meta) w'"
proof -
  note l = paddedMsgLen_pad8 [OF assms(2)]
  have sz: "paddedMsgLen meta - 8 = word_of_nat (length (pad8 meta))" by (simp add: l(1))
  obtain w1 where 1: "wr (put_u32 kIPCContToken) w = (Ret 4, w1)" "has (d @ put_u32 kIPCContToken) w1"
    using writes [OF assms(1), of "put_u32 kIPCContToken"] by auto
  obtain w2 where 2: "wr (put_u32 (word_of_nat (length (pad8 meta)))) w1 = (Ret 4, w2)"
    "has ((d @ put_u32 kIPCContToken) @ put_u32 (word_of_nat (length (pad8 meta)))) w2"
    using writes [OF 1(2), of "put_u32 (word_of_nat (length (pad8 meta)))"] by auto
  obtain w3 where 3: "wr meta w2 = (Ret (length meta), w3)"
    "has (((d @ put_u32 kIPCContToken) @ put_u32 (word_of_nat (length (pad8 meta)))) @ meta) w3"
    using writes [OF 2(2), of meta] by auto
  have "(- int (length meta)) mod 8 \<le> 64" by presburger
  then obtain w4 where "write_padding wr ((- int (length meta)) mod 8) w3 = (Ret (), w4)"
    "has ((((d @ put_u32 kIPCContToken) @ put_u32 (word_of_nat (length (pad8 meta)))) @ meta) @
       replicate (nat ((- int (length meta)) mod 8)) 0) w4"
    using write_padding_has [OF 3(2)] by blast
  then show ?thesis using 1(1) 2(1) 3(1) by (auto simp: writeMessage_def Let_def sz l(2) mseq_Ret pad8_def)
qed

lemma writeIPCPayload_has:
  assumes "has d w" and "length meta < 2 ^ 31 - 16"
  shows "\<exists>w'. writeIPCPayload wr (meta, bufs) w = (Ret (), w') \<and>
    has (d @ frame \<lparr>im_meta = pad8 meta, im_body = concat (map pad_buffer bufs)\<rparr>) w'"
proof -
  obtain w1 where 1: "writeMessage wr meta w = (Ret (), w1)"
    "has (d @ put_u32 kIPCContToken @ put_u32 (word_of_nat (length (pad8 meta))) @ pad8 meta) w1"
    using writeMessage_has [OF assms] by blast
  show ?thesis using write_buffers_has [OF 1(2), of bufs] 1(1) by (auto simp: writeIPCPayload_def mseq_Ret frame_def)
qed

end

definition arrow_has :: "goerr option \<Rightarrow> byte list \<Rightarrow> byte list \<Rightarrow> arrow_writer \<Rightarrow> bool" where
  "arrow_has a s0 d aw \<longleftrightarrow> wrote a s0 d aw \<or> d = [] \<and> (\<exists>s. sk_script s = [] \<and> sk_out s = s0 \<and> aw = NewArrowStreamWriter s a)"

interpretation arrow: append_writer Arrow_Write "arrow_has a s0"
proof
  show "arrow_has a s0 d w \<Longrightarrow> \<exists>w'. Arrow_Write bs w = (Ret (length bs), w') \<and> arrow_has a s0 (d @ bs) w'" for d w bs
    using Arrow_Write_wrote [of a s0 d w bs] Arrow_Write_first [of _ bs a] by (fastforce simp: arrow_has_def)
qed

subsection \<open>Properties\<close>

text \<open>What the encoder of a record and the format of its messages have to agree on.\<close>

definition encodes :: "'rec ipc_format \<Rightarrow> ('rec \<Rightarrow> (byte list \<times> buffer list) outcome) \<Rightarrow> 'rec \<Rightarrow> ipc_message \<Rightarrow> bool" where
  "encodes F encode x m \<longleftrightarrow>
     (\<exists>meta bufs. encode x = Ret (meta, bufs) \<and> length meta < 2 ^ 31 - 16 \<and>
        m = \<lparr>im_meta = pad8 meta, im_body = concat (map pad_buffer bufs)\<rparr> \<and> message_of F m x)"

lemma WriteArrowRecord_has:
  assumes "encodes F encode x m" and "bwr_open (raw_writer w)" and "arrow_has a s0 d (bwr_sink (raw_writer w))"
  shows "\<exists>aw. WriteArrowRecord encode x w = (Ret (), w\<lparr>raw_writer := (raw_writer w)\<lparr>bwr_sink := aw\<rparr>\<rparr>) \<and>
    arrow_has a s0 (d @ frame m) aw"
proof -
  obtain meta bufs where e: "encode x = Ret (meta, bufs)" "length meta < 2 ^ 31 - 16"
    "m = \<lparr>im_meta = pad8 meta, im_body = concat (map pad_buffer bufs)\<rparr>"
    using assms(1) unfolding encodes_def by blast
  obtain aw where "writeIPCPayload Arrow_Write (meta, bufs) (bwr_sink (raw_writer w)) = (Ret (), aw)" "arrow_has a s0 (d @ frame m) aw"
    using arrow.writeIPCPayload_has [OF assms(3) e(2), of bufs] e(3) by auto
  then show ?thesis using assms(2) e(1) by (intro exI [of _ aw]) (simp add: WriteArrowRecord_def bwr_Write_def)
qed

lemma WriteArrowRecords_has:
  "list_all2 (encodes F encode) xs ms \<Longrightarrow> bwr_open (raw_writer w) \<Longrightarrow> arrow_has a s0 d (bwr_sink (raw_writer w)) \<Longrightarrow>
   \<exists>aw. mfor (WriteArrowRecord encode) xs w = (Ret (), w\<lparr>raw_writer := (raw_writer w)\<lparr>bwr_sink := aw\<rparr>\<rparr>) \<and>
    arrow_has a s0 (d @ concat (map frame ms)) aw"
proof (induction xs ms arbitrary: w d rule: list_all2_induct)
  case Nil
  then show ?case by (intro exI [of _ "bwr_sink (raw_writer w)"]) (simp add: mret_def)
next
  case (Cons x xs m ms)
  obtain aw where 1: "WriteArrowRecord encode x w = (Ret (), w\<lparr>raw_writer := (raw_writer w)\<lparr>bwr_sink := aw\<rparr>\<rparr>)"
    "arrow_has a s0 (d @ frame m) aw"
    using WriteArrowRecord_has [OF Cons.hyps(1) Cons.prems] by blast
  show ?case using Cons.IH [of "w\<lparr>raw_writer := (raw_writer w)\<lparr>bwr_sink := aw\<rparr>\<rparr>" "d @ frame m"] 1 Cons.prems(1)
    by (auto simp: mseq_Ret)
qed

lemma frame_not_Nil: "frame m \<noteq> []"
  by (simp add: frame_def put_u32_def)

lemma raw_Close_stream:
  assumes "arrow_has None s0 d (bwr_sink (raw_writer w))" and "d \<noteq> []" and "raw_closeRes w = Ret ()" and "\<not> raw_closed w"
  shows "\<exists>w'. raw_Close w = (Ret (), w') \<and> sk_out (aw_inner (bwr_sink (raw_writer w'))) = s0 @ arrow_stream d"
proof -
  have "wrote None s0 d (bwr_sink (raw_writer w))" using assms(1,2) by (simp add: arrow_has_def)
  then obtain aw where "Arrow_Close (bwr_sink (raw_writer w)) = (Ret (), aw)" "sk_out (aw_inner aw) = s0 @ arrow_stream d"
    using Arrow_Close_wrote by fastforce
  then show ?thesis using assms(3,4) by (simp add: raw_Close_def raw_close_def bwr_Close_def)
qed

text \<open>
  C5. One or more records written one after the other by a \<^verbatim>\<open>RecordArrowWriter\<close> that is then closed, over a connection that takes
  every byte, come back, in their order and unchanged, from the iterator of a \<^verbatim>\<open>RecordArrowReader\<close> on the bytes that were sent, which then ends
  without an error: through the padding and the length prefixes of the messages, the chunks of the stream and its checksums, for any
  encoder and any decoder of the metadata and the body that agree on each of the records.
\<close>

theorem arrow_records_roundtrip:
  assumes "list_all2 (encodes F encode) xs ms" and "xs \<noteq> []" and "sk_script s = []" and "sk_out s = []"
  shows "\<exists>w1 w2 b. mfor (WriteArrowRecord encode) xs (newRecordArrowWriter s None (Ret ())) = (Ret (), w1) \<and>
    raw_Close w1 = (Ret (), w2) \<and>
    ra_Iterator (Suc (length xs)) Arrow_Read F
      (NewRecordBatchReader (NewArrowStreamReader \<lparr>src_in = sk_out (aw_inner (bwr_sink (raw_writer w2))), src_end = ErrEOF\<rparr>)) =
    ((map Ret xs, Ret ()), b)"
proof -
  let ?w = "newRecordArrowWriter s None (Ret ())" and ?d = "concat (map frame ms)"
  have h: "arrow_has None [] [] (bwr_sink (raw_writer ?w))" "bwr_open (raw_writer ?w)"
    using assms(3,4) by (auto simp: arrow_has_def newRecordArrowWriter_def NewRecordBatchWriter_def)
  obtain aw where 1: "mfor (WriteArrowRecord encode) xs ?w = (Ret (), ?w\<lparr>raw_writer := (raw_writer ?w)\<lparr>bwr_sink := aw\<rparr>\<rparr>)"
    "arrow_has None [] ?d aw"
    using WriteArrowRecords_has [OF assms(1) h(2,1)] by auto
  have "?d \<noteq> []" using assms(1,2) frame_not_Nil by (cases ms) auto
  then obtain w2 where 2: "raw_Close (?w\<lparr>raw_writer := (raw_writer ?w)\<lparr>bwr_sink := aw\<rparr>\<rparr>) = (Ret (), w2)"
    "sk_out (aw_inner (bwr_sink (raw_writer w2))) = arrow_stream ?d"
    using raw_Close_stream [of "[]" ?d "?w\<lparr>raw_writer := (raw_writer ?w)\<lparr>bwr_sink := aw\<rparr>\<rparr>"] 1(2)
    by (auto simp: newRecordArrowWriter_def)
  have r: "holds ?d (NewArrowStreamReader \<lparr>src_in = arrow_stream ?d, src_end = ErrEOF\<rparr>)"
    by (simp add: holds_def holds_start_def NewArrowStreamReader_def NewCrc32CheckSum_def)
  have m: "list_all2 (message_of F) ms xs"
    using assms(1) by (auto simp: list_all2_conv_all_nth encodes_def)
  have "\<exists>b. ra_Iterator (Suc (length xs)) Arrow_Read F
      (NewRecordBatchReader (NewArrowStreamReader \<lparr>src_in = arrow_stream ?d, src_end = ErrEOF\<rparr>)) = ((map Ret xs, Ret ()), b)"
    by (rule chunked.ra_Iterator_holds [OF m]) (use r m in \<open>simp_all add: NewRecordBatchReader_def list_all2_lengthD\<close>)
  then show ?thesis using 1(1) 2 by auto
qed

text \<open>A format for bytes as records, whose metadata is the length of the body and a mark.\<close>

definition sample_format :: "byte list ipc_format" where
  "sample_format = \<lparr>fb_BodyLength = (\<lambda>m. Ret (int (unat (m ! 0)))), fb_HeaderType = (\<lambda>m. Ret MessageRecordBatch),
     fb_newRecord = (\<lambda>m b. Ret (take (unat (m ! 1)) b))\<rparr>"

definition sample_encode :: "byte list \<Rightarrow> (byte list \<times> buffer list) outcome" where
  "sample_encode x = Ret ([word_of_nat (length (pad8 x)), word_of_nat (length x)], [None, Some x])"

lemma sample_encodes:
  assumes "length x < 200"
  shows "\<exists>m. encodes sample_format sample_encode x m"
proof -
  let ?meta = "[word_of_nat (length (pad8 x)), word_of_nat (length x)] :: byte list"
  have u: "unat (word_of_nat (length (pad8 x)) :: byte) = length (pad8 x)" "unat (word_of_nat (length x) :: byte) = length x"
    using assms pad8_length(2) [of x] by (simp_all add: unat_of_nat)
  have v: "uint (word_of_nat (length (pad8 x)) :: byte) = int (length (pad8 x))" using arg_cong [OF u(1), of int] by simp
  have p: "pad8 ?meta = ?meta @ replicate 6 0" by (simp add: pad8_def)
  have t: "take (length x) (pad8 x) = x" by (simp add: pad8_def)
  have "message_of sample_format \<lparr>im_meta = pad8 ?meta, im_body = concat (map pad_buffer [None, Some x])\<rparr> x"
    by (simp add: message_of_def framed_def sample_format_def p u v t pad_buffer_def)
  then show ?thesis unfolding encodes_def sample_encode_def by (intro exI [of _ "\<lparr>im_meta = pad8 ?meta, im_body = concat (map pad_buffer [None, Some x])\<rparr>"]) auto
qed

theorem arrow_records_roundtrip_witness:
  "\<exists>w1 w2 b. mfor (WriteArrowRecord sample_encode) [[1, 2, 3], []] (newRecordArrowWriter \<lparr>sk_out = [], sk_script = []\<rparr> None (Ret ())) = (Ret (), w1) \<and>
    raw_Close w1 = (Ret (), w2) \<and>
    ra_Iterator 3 Arrow_Read sample_format
      (NewRecordBatchReader (NewArrowStreamReader \<lparr>src_in = sk_out (aw_inner (bwr_sink (raw_writer w2))), src_end = ErrEOF\<rparr>)) =
    (([Ret [1, 2, 3], Ret []], Ret ()), b)"
proof -
  obtain m1 m2 where "encodes sample_format sample_encode [1, 2, 3] m1" "encodes sample_format sample_encode [] m2"
    using sample_encodes [of "[1, 2, 3]"] sample_encodes [of "[]"] by auto
  then show ?thesis
    using arrow_records_roundtrip [of sample_format sample_encode "[[1, 2, 3], []]" "[m1, m2]" "\<lparr>sk_out = [], sk_script = []\<rparr>"]
    by (simp add: eval_nat_numeral)
qed

subsection \<open>Errors of the stream\<close>

text \<open>
  Whatever goes wrong below the messages, a wrong checksum, a body that is cut off, a connection that fails, ends the
  iteration as the end of the stream does: \<^verbatim>\<open>Iterator\<close> calls its callback with no error and \<^verbatim>\<open>Read\<close> returns \<^verbatim>\<open>io.EOF\<close>; the error is
  left in the batch reader, where neither of them looks.
\<close>

theorem stream_errors_masked:
  assumes "Message rd F (bt_src b) = (MsgErr e, r)"
  shows "\<exists>b'. ra_Iterator (Suc n) rd F b = (([], Ret ()), b') \<and> ra_Read rd F b = (Fail ErrEOF, b') \<and> bt_err b' = Some e"
  using assms by (auto simp: ra_Read_def bt_Read_def bt_next_def)

text \<open>A stream with a wrong checksum: a chunk size of one, one byte and a checksum of zero.\<close>

definition corrupted_stream :: source where
  "corrupted_stream = \<lparr>src_in = [0, 0, 0, 1] @ [255] @ [0, 0, 0, 0] @ [1, 0, 0, 0, 0], src_end = ErrEOF\<rparr>"

lemma corrupted_crc: "crc32_Update 0 [255] \<noteq> 0"
  by code_simp

lemma corrupted_chunk:
  "\<exists>ar. load_chunk (NewArrowStreamReader corrupted_stream) = (Fail ArrowCrcErr, ar)"
proof -
  have 1: "io_ReadFull 4 corrupted_stream = ([0, 0, 0, 1], None, \<lparr>src_in = [255, 0, 0, 0, 0] @ [1, 0, 0, 0, 0], src_end = ErrEOF\<rparr>)"
    unfolding corrupted_stream_def using io_ReadFull_append [of "[0, 0, 0, 1]" 4 "[255, 0, 0, 0, 0, 1, 0, 0, 0, 0]" ErrEOF] by simp
  have 2: "io_ReadFull 5 \<lparr>src_in = [255, 0, 0, 0, 0] @ [1, 0, 0, 0, 0], src_end = ErrEOF\<rparr> =
      ([255, 0, 0, 0, 0], None, \<lparr>src_in = [1, 0, 0, 0, 0], src_end = ErrEOF\<rparr>)"
    by (rule io_ReadFull_append) simp
  have 3: "bytesToUint32 [0, 0, 0, 1] = Ret 1" "bytesToUint32 [0, 0, 0, 0] = Ret 0" by (simp_all add: bytesToUint32_def)
  show ?thesis using 1 2 3 corrupted_crc
    by (simp add: load_chunk_def ReadChunk_def first_chunk_def readUint32_def mseq_def mbind_def mget_def mput_def
        NewArrowStreamReader_def newChunk_def chunk_reset_def full_chunk_def setLength_def chunk_bytes_def chunk_truncate_def Let_def
        Crc_Update_def Crc_Reset_def Crc_Value_def NewCrc32CheckSum_def)
qed

theorem stream_errors_masked_witness:
  "\<exists>b. ra_Iterator 1 Arrow_Read sample_format (NewRecordBatchReader (NewArrowStreamReader corrupted_stream)) = (([], Ret ()), b) \<and>
    bt_err b = Some ArrowCrcErr"
proof -
  let ?r = "NewArrowStreamReader corrupted_stream"
  obtain ar where l: "load_chunk ?r = (Fail ArrowCrcErr, ar)" using corrupted_chunk by blast
  have "\<not> drained ?r" by (simp add: drained_def NewArrowStreamReader_def)
  then have "Arrow_Read_loop 4 [] ?r = (([], Fail ArrowCrcErr), ar)" using l by (subst Arrow_Read_loop.simps) simp
  then have "Arrow_Read 4 ?r = (([], Fail ArrowCrcErr), ar)" by (simp add: Arrow_Read_def)
  moreover have "ArrowCrcErr \<noteq> ErrEOF" by (simp add: ArrowCrcErr_def)
  ultimately have "Message Arrow_Read sample_format ?r = (MsgErr ArrowCrcErr, ar)"
    by (simp add: Message_def msg_read_def read_full_def eval_nat_numeral)
  then show ?thesis
    using stream_errors_masked [of Arrow_Read sample_format "NewRecordBatchReader ?r" ArrowCrcErr ar 0] by (auto simp: NewRecordBatchReader_def)
qed

end
