(* ===== verification/TunnelPreview.thy ===== *)
theory TunnelPreview
  imports Tunnels TableMeta ArrowValues ArrowIpc
begin

section \<open>The preview of a table\<close>

text \<open>
  Models \<^verbatim>\<open>Tunnel.Preview\<close> of \<^verbatim>\<open>odps/tunnel/tunnel.go\<close> and \<^verbatim>\<open>NewReader\<close> of \<^verbatim>\<open>arrow/ipc/reader.go\<close>: the request for the
  first rows of a table, and the records of the arrow batches in its answer.
  \<^item> The state is the table, the tunnel and the environment of requests.
  \<^item> \<open>format\<close> gives the format of the batches from the metadata of the schema message, \<open>decode\<close> the decoded body, and
    \<open>epoch_day\<close> the days from the epoch in the time zone of the process.
  \<^item> Batches are read until the body gives no more; every turn reads four bytes or more, so that one turn more than there are bytes is
    enough.
\<close>

definition on_table :: "(TableInfo \<times> 'e, 'a) M \<Rightarrow> (TableInfo \<times> 'e Tunnel \<times> 'e, 'a) M" where
  "on_table m s = (case s of (t, tn, e) \<Rightarrow> (case m (t, e) of (r, (t', e')) \<Rightarrow> (r, (t', tn, e'))))"

definition on_tunnel :: "('e Tunnel \<times> 'e, 'a) M \<Rightarrow> (TableInfo \<times> 'e Tunnel \<times> 'e, 'a) M" where
  "on_tunnel m s = (case s of (t, tn, e) \<Rightarrow> (case m (tn, e) of (r, (tn', e')) \<Rightarrow> (r, (t, tn', e'))))"

definition on_net :: "('e, 'a) M \<Rightarrow> (TableInfo \<times> 'e Tunnel \<times> 'e, 'a) M" where
  "on_net m s = (case s of (t, tn, e) \<Rightarrow> (case m e of (r, e') \<Rightarrow> (r, (t, tn, e'))))"

subsection \<open>The request\<close>

definition preview_partition :: "string \<Rightarrow> string" where
  "preview_partition partitionValue =
     ReplaceAll (ReplaceAll (ReplaceAll partitionValue CHR 39 []) CHR 34 []) CHR ''/'' '',''"

definition preview_args :: "string \<Rightarrow> int \<Rightarrow> Values" where
  "preview_args partitionValue limit =
     (let q = [''limit'' \<mapsto> Itoa (if limit < 0 then - 1 else limit)]
      in if partitionValue \<noteq> [] then q(''partition'' \<mapsto> preview_partition partitionValue) else q)"

definition preview_request :: "'e RestClient \<Rightarrow> TableInfo \<Rightarrow> string \<Rightarrow> int \<Rightarrow> HttpRequest outcome" where
  "preview_request client t partitionValue limit =
     omap (\<lambda>req. let r = addCommonSessionHttpHeader req
                 in r\<lparr>rq_header := (rq_header r)(HttpHeaderContentLength \<mapsto> ''0'')\<rparr>)
       (NewRequestWithUrlQuery client GetMethod
         (rb_Table (NewResourceBuilder (tm_ProjectName (ti_model t))) (ti_SchemaName t) (tm_Name (ti_model t)) @ ''/preview'')
         (Some (preview_args partitionValue limit)))"

subsection \<open>The answer\<close>

text \<open>\<open>NewReader\<close>: the first message has to be the schema.\<close>

definition NewReader :: "'r io_reader \<Rightarrow> 'rec ipc_format \<Rightarrow> (byte list \<Rightarrow> 'rec ipc_format outcome) \<Rightarrow> 'r \<Rightarrow>
    ('rec ipc_format \<times> ('r, 'rec) batch_reader) outcome" where
  "NewReader rd F0 format r =
     (case Message rd F0 r of
        (EndMsg, r') \<Rightarrow> Fail ErrEOF
      | (MsgErr e, r') \<Rightarrow> Fail e
      | (MsgPanic p, r') \<Rightarrow> Panic p
      | (GotMsg m, r') \<Rightarrow>
          obind (fb_HeaderType F0 (im_meta m)) (\<lambda>t.
            if t \<noteq> MessageSchema then Fail InvalidMessageType
            else obind (format (im_meta m)) (\<lambda>F. Ret (F, NewRecordBatchReader r'))))"

definition recovered :: goerr where "recovered = ErrMsg ''panic during Arrow data parsing''"

fun preview_batches :: "nat \<Rightarrow> (arrow_batch \<Rightarrow> Record list outcome) \<Rightarrow> 'r io_reader \<Rightarrow> arrow_batch ipc_format \<Rightarrow>
    ('r, arrow_batch) batch_reader \<Rightarrow> Record list \<Rightarrow> Record list outcome" where
  "preview_batches 0 conv rd F b results = Panic OutOfFuel"
| "preview_batches (Suc n) conv rd F b results =
     (case bt_Read rd F b of
        (Fail e, b') \<Rightarrow> (if e = ErrEOF then Ret results else Fail e)
      | (Panic p, b') \<Rightarrow> Fail recovered
      | (Ret batch, b') \<Rightarrow>
          (case conv batch of
             Ret records \<Rightarrow> preview_batches n conv rd F b' (results @ records)
           | Fail e \<Rightarrow> Fail e
           | Panic p \<Rightarrow> Fail recovered))"

definition preview_body :: "(int \<Rightarrow> gotime) \<Rightarrow> arrow_batch ipc_format \<Rightarrow> (byte list \<Rightarrow> arrow_batch ipc_format outcome) \<Rightarrow> Column list \<Rightarrow>
    source \<Rightarrow> Record list outcome" where
  "preview_body epoch_day F0 format columns s =
     obind (NewReader src_Read F0 format s) (\<lambda>(F, b).
       preview_batches (Suc (length (src_in s))) (\<lambda>batch. ToMaxComputeRecords epoch_day batch columns [withExtendedMode])
         src_Read F b [])"

definition Preview :: "(int \<Rightarrow> gotime) \<Rightarrow> arrow_batch ipc_format \<Rightarrow> (byte list \<Rightarrow> arrow_batch ipc_format outcome) \<Rightarrow>
    (decoder \<Rightarrow> source \<Rightarrow> source) \<Rightarrow> decoders \<Rightarrow> 'e Odps \<Rightarrow> string \<Rightarrow> int \<Rightarrow>
    (TableInfo \<times> 'e Tunnel \<times> 'e, Record list) M" where
  "Preview epoch_day F0 format decode D od partitionValue limit =
     mseq (mbind (mget (\<lambda>s. tb_IsLoaded (fst s))) (\<lambda>loaded. if loaded then mret () else on_table (tb_Load D od)))
     (mbind (mget fst) (\<lambda>t.
      mbind (on_tunnel (getRestClient (tm_ProjectName (ti_model t)))) (\<lambda>client.
      mbind (mlift (preview_request client t partitionValue limit)) (\<lambda>req.
      mbind (on_net (Do client req)) (\<lambda>res.
      let body = (case decoder_of res of None \<Rightarrow> rs_Body res | Some d \<Rightarrow> decode d (rs_Body res));
          schema = si_schema (ti_tableSchema t)
      in mlift (preview_body epoch_day F0 format (ts_Columns schema @ ts_PartitionColumns schema) body))))))"

subsection \<open>The batches of an answer\<close>

text \<open>Every message takes four bytes or more from the body.\<close>

lemma src_read_full:
  "read_full_loop f src_Read n acc s = (Ret (bs, e), s') \<Longrightarrow>
   length (src_in s') + length bs = length (src_in s) + length acc \<and> (e = None \<longrightarrow> n \<le> length bs)"
proof (induction f arbitrary: acc s)
  case (Suc f)
  show ?case
  proof (cases "n \<le> length acc \<or> src_in s = []")
    case True
    then show ?thesis using Suc.prems by (auto simp: src_Read_def split: if_splits)
  next
    case False
    then show ?thesis using Suc.prems Suc.IH [of "acc @ take (n - length acc) (src_in s)" "s\<lparr>src_in := drop (n - length acc) (src_in s)\<rparr>"]
      by (auto simp: src_Read_def)
  qed
qed (auto split: if_splits)

lemma src_read_full_panic: "read_full_loop f src_Read n acc s = (Panic p, s') \<Longrightarrow> n \<le> length acc + f \<Longrightarrow> False"
proof (induction f arbitrary: acc s)
  case (Suc f)
  show ?case
  proof (cases "n \<le> length acc \<or> src_in s = []")
    case True
    then show ?thesis using Suc.prems by (auto simp: src_Read_def split: if_splits)
  next
    case False
    define p1 where "p1 = take (n - length acc) (src_in s)"
    have "src_Read (n - length acc) s = ((p1, Ret ()), s\<lparr>src_in := drop (n - length acc) (src_in s)\<rparr>)"
      using False by (simp add: src_Read_def p1_def)
    moreover have "n \<le> length (acc @ p1) + f"
    proof -
      have "Suc 0 \<le> length p1" using False by (simp add: p1_def Suc_le_eq)
      then show ?thesis using Suc.prems(2) by simp
    qed
    ultimately show ?thesis
      using False Suc.prems Suc.IH [of "acc @ p1" "s\<lparr>src_in := drop (n - length acc) (src_in s)\<rparr>"] by simp
  qed
qed (auto split: if_splits)

lemma msg_read_shorter:
  assumes "msg_read src_Read n k s = (GotMsg m, s')"
  obtains bs s1 where "k bs s1 = (GotMsg m, s')" "length (src_in s1) + n \<le> length (src_in s)"
  using assms src_read_full [of n n "[]" s] by (fastforce simp: msg_read_def read_full_def split: prod.splits outcome.splits option.splits)

lemma read_message_shorter: "read_message src_Read F l s = (GotMsg m, s') \<Longrightarrow> length (src_in s') \<le> length (src_in s)"
  unfolding read_message_def by (fastforce elim!: msg_read_shorter split: if_splits outcome.splits)

lemma Message_shorter: "Message src_Read F s = (GotMsg m, s') \<Longrightarrow> length (src_in s') + 4 \<le> length (src_in s)"
  unfolding Message_def Let_def
  by (elim msg_read_shorter) (fastforce elim!: msg_read_shorter dest!: read_message_shorter split: if_splits)

lemma bt_Read_shorter: "bt_Read src_Read F b = (Ret x, b') \<Longrightarrow> length (src_in (bt_src b')) < length (src_in (bt_src b))"
  by (fastforce simp: bt_Read_def bt_next_def Let_def dest: Message_shorter
      split: prod.splits outcome.splits bool.splits option.splits msg_answer.splits if_splits)

text \<open>
  Reading the batches of an answer always comes to an end, with records or with an error: whatever the body holds, no panic
  of the arrow library, of the conversion or of a mismatch of types gets out of it, and the turns suffice.
\<close>

theorem preview_batches_total:
  "\<nexists>p. preview_batches (Suc (length (src_in (bt_src b)))) conv src_Read F b results = Panic p"
proof -
  have "length (src_in (bt_src b)) < n \<Longrightarrow> preview_batches n conv src_Read F b results \<noteq> Panic p" for n p
  proof (induction n arbitrary: b results)
    case (Suc n)
    show ?case
    proof (cases "bt_Read src_Read F b")
      case (Pair r b')
      show ?thesis
      proof (cases r)
        case (Ret x)
        have "length (src_in (bt_src b')) < n" using bt_Read_shorter [of F b x b'] Pair Ret Suc.prems by simp
        then show ?thesis using Suc.IH Pair Ret by (auto split: outcome.splits)
      qed (use Pair in auto)
    qed
  qed simp
  then show ?thesis by blast
qed

lemma preview_batches_end: "bt_Read rd F b = (Fail ErrEOF, b') \<Longrightarrow> 0 < n \<Longrightarrow> preview_batches n conv rd F b results = Ret results"
  by (cases n) auto

lemma preview_batches_reads:
  assumes tail: "Message src_Read F \<lparr>src_in = tail, src_end = e\<rparr> = (MsgErr err, r)"
  shows "list_all2 (message_of F) ms xs \<Longrightarrow> list_all2 (\<lambda>x rs. conv x = Ret rs) xs rss \<Longrightarrow>
    bt_src b = \<lparr>src_in = concat (map frame ms) @ tail, src_end = e\<rparr> \<Longrightarrow> length ms < n \<Longrightarrow>
    preview_batches n conv src_Read F b results = Ret (results @ concat rss)"
proof (induction ms xs arbitrary: n b results rss rule: list_all2_induct)
  case Nil
  then have "\<exists>b'. bt_Read src_Read F b = (Fail ErrEOF, b')"
    using tail by (auto simp: bt_Read_def bt_next_def)
  then show ?case using preview_batches_end Nil by fastforce
next
  case (Cons m ms x xs)
  obtain k where n: "n = Suc k" "length ms < k" using Cons.prems(3) by (cases n) auto
  obtain rs rss' where rss: "rss = rs # rss'" "conv x = Ret rs" "list_all2 (\<lambda>x rs. conv x = Ret rs) xs rss'"
    using Cons.prems(1) by (auto simp: list_all2_Cons1)
  obtain b' where b': "bt_Read src_Read F b = (Ret x, b')" "bt_src b' = \<lparr>src_in = concat (map frame ms) @ tail, src_end = e\<rparr>"
    using body.bt_Read_holds [of e m "concat (map frame ms) @ tail" b F x] Cons.hyps(1) Cons.prems(2) by (auto simp: src_holds_def)
  show ?case using Cons.IH [OF rss(3) b'(2) n(2), of "results @ rs"] b'(1) n(1) rss(1,2) by simp
qed

lemma frames_longer: "length ms \<le> length (concat (map frame ms))"
  by (induction ms) (simp_all add: frame_def)

text \<open>
  An answer that is cut off is a shorter table: when the body fails behind some batches, inside a message or because the connection
  breaks, \<^verbatim>\<open>Preview\<close> returns the records of the batches before and no error.
\<close>

theorem preview_cut_off:
  assumes schema: "framed F0 m0" "fb_HeaderType F0 (im_meta m0) = Ret MessageSchema" "format (im_meta m0) = Ret F"
    and batches: "list_all2 (message_of F) ms xs"
    and records: "list_all2 (\<lambda>x rs. ToMaxComputeRecords epoch_day x columns [withExtendedMode] = Ret rs) xs rss"
    and tail: "Message src_Read F \<lparr>src_in = tail, src_end = e\<rparr> = (MsgErr err, r)"
  shows "preview_body epoch_day F0 format columns \<lparr>src_in = frame m0 @ concat (map frame ms) @ tail, src_end = e\<rparr> = Ret (concat rss)"
proof -
  obtain r' where r': "Message src_Read F0 \<lparr>src_in = frame m0 @ concat (map frame ms) @ tail, src_end = e\<rparr> = (GotMsg m0, r')"
    "r' = \<lparr>src_in = concat (map frame ms) @ tail, src_end = e\<rparr>"
    using body.Message_holds [of e m0 "concat (map frame ms) @ tail" "\<lparr>src_in = frame m0 @ concat (map frame ms) @ tail, src_end = e\<rparr>" F0]
      schema(1) by (auto simp: src_holds_def)
  have l: "length ms < Suc (length (frame m0 @ concat (map frame ms) @ tail))" using frames_longer [of ms] by simp
  have "NewReader src_Read F0 format \<lparr>src_in = frame m0 @ concat (map frame ms) @ tail, src_end = e\<rparr> = Ret (F, NewRecordBatchReader r')"
    using r'(1) schema(2,3) by (simp add: NewReader_def)
  then show ?thesis
    using preview_batches_reads [OF tail batches records, of "NewRecordBatchReader r'" _ "[]"] l r'(2)
    by (simp add: preview_body_def NewRecordBatchReader_def del: preview_batches.simps)
qed

definition tiny_format :: "arrow_batch ipc_format" where
  "tiny_format = \<lparr>fb_BodyLength = (\<lambda>m. Ret (int (unat (m ! 1)))), fb_HeaderType = (\<lambda>m. Ret (int (unat (m ! 0)))),
     fb_newRecord = (\<lambda>m b. omap (\<lambda>a. \<lparr>ab_rows = int (length b), ab_columns = [a]\<rparr>)
       (MakeFromData (ArrayData (DT ID_INT8) (int (length b)) [None, Some b] [] 0 0)))\<rparr>"

definition tiny_column :: Column where
  "tiny_column = \<lparr>col_Name = ''c'', col_Type = PrimitiveType TINYINT, col_Comment = [], col_Label = [], col_NotNull = False,
     col_HasDefaultValue = False, col_DefaultValue = [], col_ExtendedLabels = [], col_GenerateExpression = None\<rparr>"

theorem preview_cut_off_witness:
  "preview_body (\<lambda>d. GoTime (86400 * d) 0) tiny_format (\<lambda>m. Ret tiny_format) [tiny_column]
     \<lparr>src_in = frame \<lparr>im_meta = [1, 0], im_body = []\<rparr> @ concat (map frame [\<lparr>im_meta = [3, 2], im_body = [7, 254]\<rparr>]) @ [255, 255],
      src_end = ErrEOF\<rparr> = Ret (concat [[[Some (DTinyInt 7)], [Some (DTinyInt (- 2))]]])"
proof -
  let ?a = "ArrInt8 (array_setData (ArrayData (DT ID_INT8) 2 [None, Some [7, 254]] [] 0 0)) [7, - 2]"
  let ?x = "\<lparr>ab_rows = 2, ab_columns = [?a]\<rparr>"
  have a: "MakeFromData (ArrayData (DT ID_INT8) 2 [None, Some [7, 254]] [] 0 0) = Ret ?a"
    by (simp add: MakeFromData.simps flat_setData_def num_setData_def buffer1_def index_at_def slice_range_def words_of_def
        CastFromBytes_def word_of_bytes_def upt_rec)
  have t: "Message src_Read tiny_format \<lparr>src_in = [255, 255], src_end = ErrEOF\<rparr> =
      (MsgErr ErrUnexpectedEOF, \<lparr>src_in = [], src_end = ErrEOF\<rparr>)"
    by (simp add: Message_def msg_read_def read_full_def src_Read_def eval_nat_numeral)
  have r: "ToMaxComputeRecords (\<lambda>d. GoTime (86400 * d) 0) ?x [tiny_column] [withExtendedMode] =
      Ret [[Some (DTinyInt 7)], [Some (DTinyInt (- 2))]]"
    by (simp add: ToMaxComputeRecords_def batch_row_def column_cell_def IsValid_def array_setData_def tiny_column_def num_Value_def
        index_at_def upt_rec)
  have m: "message_of tiny_format \<lparr>im_meta = [3, 2], im_body = [7, 254]\<rparr> ?x"
    using a by (simp add: message_of_def framed_def tiny_format_def MessageRecordBatch_def)
  show ?thesis
    by (rule preview_cut_off [where F = tiny_format and xs = "[?x]", OF _ _ _ _ _ t])
      (use m r in \<open>simp_all add: framed_def tiny_format_def MessageSchema_def\<close>)
qed

end
